(* ===== verification/Gyre_Prelude.thy ===== *)
theory Gyre_Prelude
  imports Complex_Main "HOL-Library.AList" "HOL-Library.Word"
begin

text \<open>
  The shared part of the development: names for the types every component uses
  (results, clocks, identifiers), the collections of rewrite rules the component
  theories extend, generic lemmas on lists, association lists and options, and
  the locale of deterministic transition systems that the stateful components
  interpret to lift "every step keeps the invariant" to "every run keeps it".
\<close>

section \<open>Names of the model\<close>

text \<open>A Rust \<open>Result<T, E>\<close> is a sum whose left injection is the error.\<close>

type_synonym ('e, 'a) result = "'e + 'a"

text \<open>
  An identifier (a \<open>Uuid\<close>) is a natural number; a fresh one is an argument
  of the operation that draws it. A clock reading (\<open>Instant\<close> or
  \<open>DateTime<Utc>\<close>) is an integer, a \<open>Duration\<close> a natural number.
\<close>

type_synonym uuid = nat
type_synonym instant = int
type_synonym duration = nat

text \<open>\<open>Instant::elapsed\<close> saturates at zero when the clock reads earlier.\<close>

definition elapsed_since :: "instant \<Rightarrow> instant \<Rightarrow> duration" where
  "elapsed_since t now = nat (now - t)"

text \<open>
  A \<open>serde_json::Value\<close>; a number is kept as its text, an object as the list of
  its members.
\<close>

datatype json = JNull | JBool bool | JNum string | JStr string
  | JArr "json list" | JObj "(string \<times> json) list"

text \<open>\<open>Value::get\<close>, \<open>Value::as_str\<close> and \<open>Value::as_bool\<close>\<close>

fun json_get :: "json \<Rightarrow> string \<Rightarrow> json option" where
  "json_get (JObj kvs) k = map_of kvs k"
| "json_get _ k = None"

fun json_str :: "json \<Rightarrow> string option" where
  "json_str (JStr s) = Some s"
| "json_str _ = None"

fun json_bool :: "json \<Rightarrow> bool option" where
  "json_bool (JBool b) = Some b"
| "json_bool _ = None"

text \<open>A string member of an object, or a default where it is missing or no string.\<close>

definition json_field :: "json \<Rightarrow> string \<Rightarrow> string \<Rightarrow> string" where
  "json_field v k d = (case Option.bind (json_get v k) json_str of Some s \<Rightarrow> s | None \<Rightarrow> d)"

abbreviation is_ok :: "('e, 'a) result \<Rightarrow> bool" where
  "is_ok r \<equiv> \<not> isl r"

named_theorems ops "defining equations of the operations of a component"
named_theorems keeps "an operation keeps the invariant of its component"

lemma elapsed_self [simp]: "elapsed_since t t = 0"
  by (simp add: elapsed_since_def)

lemma elapsed_mono: "n1 \<le> n2 \<Longrightarrow> elapsed_since t n1 \<le> elapsed_since t n2"
  by (simp add: elapsed_since_def nat_mono)

lemma elapsed_ge: "0 < d \<Longrightarrow> d \<le> elapsed_since t now \<longleftrightarrow> int d \<le> now - t"
  by (auto simp: elapsed_since_def)

section \<open>Lists\<close>

text \<open>The last \<open>n\<close> entries of a list: what a bounded history keeps.\<close>

definition last_n :: "nat \<Rightarrow> 'a list \<Rightarrow> 'a list" where
  "last_n n xs = drop (length xs - n) xs"

lemma length_last_n [simp]: "length (last_n n xs) = min n (length xs)"
  by (auto simp: last_n_def)

lemma last_n_all [simp]: "length xs \<le> n \<Longrightarrow> last_n n xs = xs"
  by (simp add: last_n_def)

lemma set_last_n: "x \<in> set (last_n n xs) \<Longrightarrow> x \<in> set xs"
  by (auto simp: last_n_def dest: in_set_dropD)

lemma last_last_n: "n > 0 \<Longrightarrow> xs \<noteq> [] \<Longrightarrow> last (last_n n xs) = last xs"
  by (simp add: last_n_def)

lemma last_n_append_single:
  "n > 0 \<Longrightarrow> last_n n (xs @ [x]) = last_n (n - 1) xs @ [x]"
  by (cases n) (auto simp: last_n_def)

lemma length_filter_split:
  "length (filter P xs) + length (filter (\<lambda>x. \<not> P x) xs) = length xs"
  by (induction xs) auto

lemma distinct_filter_map:
  "distinct (map f xs) \<Longrightarrow> distinct (map f (filter P xs))"
  by (induction xs) auto

lemma sum_list_filter_le:
  fixes f :: "'a \<Rightarrow> nat"
  shows "sum_list (map f (filter P xs)) \<le> sum_list (map f xs)"
  by (induction xs) auto

lemma find_Some_mem: "find P xs = Some x \<Longrightarrow> x \<in> set xs \<and> P x"
  by (induction xs) (auto split: if_splits)

lemma find_None_all: "find P xs = None \<longleftrightarrow> (\<forall>x \<in> set xs. \<not> P x)"
  by (auto simp: find_None_iff)

section \<open>Association lists with one entry per key\<close>

text \<open>
  A \<open>HashMap\<close> whose entries the code walks over is an association list
  without duplicate keys; \<open>AList.update\<close>, \<open>AList.delete\<close> and
  \<open>map_of\<close> are its insert, remove and get.
\<close>

definition dkeys :: "('k \<times> 'v) list \<Rightarrow> bool" where
  "dkeys al \<longleftrightarrow> distinct (map fst al)"

lemma dkeys_Nil [simp]: "dkeys []"
  by (simp add: dkeys_def)

lemma dkeys_Cons: "dkeys ((k, v) # al) \<longleftrightarrow> k \<notin> fst ` set al \<and> dkeys al"
  by (simp add: dkeys_def)

lemma dkeys_update [simp]: "dkeys al \<Longrightarrow> dkeys (AList.update k v al)"
  by (simp add: dkeys_def distinct_update)

lemma dkeys_delete [simp]: "dkeys al \<Longrightarrow> dkeys (AList.delete k al)"
  by (simp add: dkeys_def distinct_delete)

lemma dkeys_filter [simp]: "dkeys al \<Longrightarrow> dkeys (filter P al)"
  by (simp add: dkeys_def distinct_filter_map)

lemma dkeys_map_of: "dkeys al \<Longrightarrow> map_of al k = Some v \<longleftrightarrow> (k, v) \<in> set al"
  by (simp add: dkeys_def)

lemma update_new: "k \<notin> fst ` set al \<Longrightarrow> AList.update k v al = al @ [(k, v)]"
  by (induction al) auto

lemma length_update:
  "length (AList.update k v al) = (if k \<in> fst ` set al then length al else Suc (length al))"
  by (induction al) auto

lemma map_of_update [simp]:
  "map_of (AList.update k v al) k' = (if k' = k then Some v else map_of al k')"
  by (simp add: update_conv')

lemma map_of_delete [simp]:
  "map_of (AList.delete k al) k' = (if k' = k then None else map_of al k')"
  by (simp add: delete_conv')

lemma length_delete_le: "length (AList.delete k al) \<le> length al"
  by (simp add: AList.delete_eq)

lemma dkeys_map_of_filter:
  "dkeys al \<Longrightarrow> map_of (filter P al) k
     = (case map_of al k of None \<Rightarrow> None | Some v \<Rightarrow> if P (k, v) then Some v else None)"
proof (induction al)
  case (Cons kv al)
  have "map_of (filter P al) k = None" if "k \<notin> fst ` set al"
    using that by (auto simp: map_of_eq_None_iff)
  with Cons show ?case
    by (cases kv) (auto simp: dkeys_Cons split: option.splits)
qed simp

section \<open>Machine words\<close>

lemma unat_of_nat_small:
  "n < 2 ^ LENGTH('a) \<Longrightarrow> unat (of_nat n :: 'a::len word) = n"
  by (simp add: unat_of_nat)

lemma word_eq_of_unat: "unat w = n \<Longrightarrow> w = of_nat n"
  by auto

lemma unat_less_power: "unat (w :: 'a::len word) < 2 ^ LENGTH('a)"
  by (rule unsigned_less)

section \<open>Transition systems\<close>

text \<open>
  A component that is driven by a sequence of operations: one total step function
  over its state, and an invariant every step keeps. The components interpret
  this locale on their own step function; \<open>run_inv\<close> then covers every
  sequence of operations.
\<close>

locale transition_system =
  fixes step :: "'s \<Rightarrow> 'e \<Rightarrow> 's"
    and inv :: "'s \<Rightarrow> bool"
  assumes step_inv: "inv s \<Longrightarrow> inv (step s e)"
begin

lemma run_inv: "inv s \<Longrightarrow> inv (foldl step s es)"
  by (induction es arbitrary: s) (simp_all add: step_inv)

lemma run_append: "foldl step s (es @ es') = foldl step (foldl step s es) es'"
  by simp

lemma run_prefix_inv: "inv s \<Longrightarrow> inv (foldl step s (take n es))"
  by (rule run_inv)

end

text \<open>
  A transition system with a quantity no step increases above a bound, or that
  every step keeps: the form the resource counters of the program take.
\<close>

locale conserving_system = transition_system +
  fixes quantity :: "'a \<Rightarrow> 'q"
  assumes step_quantity: "inv s \<Longrightarrow> quantity (step s e) = quantity s"
begin

lemma run_quantity: "inv s \<Longrightarrow> quantity (foldl step s es) = quantity s"
  by (induction es arbitrary: s) (simp_all add: step_inv step_quantity)

end

end
