(* ===== verification/Rust_Strings.thy ===== *)
theory Rust_Strings
  imports Gyre_Prelude
begin

text \<open>
  The operations of Rust's \<open>str\<close> that the program uses, on strings as lists
  of characters. Case folding and white space are exact on ASCII, which is what
  the program's own constants are made of.
\<close>

section \<open>Characters\<close>

definition code_of :: "char \<Rightarrow> nat" where
  "code_of c = of_char c"

definition is_ws :: "char \<Rightarrow> bool" where
  "is_ws c \<longleftrightarrow> (9 \<le> code_of c \<and> code_of c \<le> 13) \<or> code_of c = 32"

definition is_upper :: "char \<Rightarrow> bool" where
  "is_upper c \<longleftrightarrow> 65 \<le> code_of c \<and> code_of c \<le> 90"

definition is_lower :: "char \<Rightarrow> bool" where
  "is_lower c \<longleftrightarrow> 97 \<le> code_of c \<and> code_of c \<le> 122"

definition is_digit :: "char \<Rightarrow> bool" where
  "is_digit c \<longleftrightarrow> 48 \<le> code_of c \<and> code_of c \<le> 57"

definition is_alnum :: "char \<Rightarrow> bool" where
  "is_alnum c \<longleftrightarrow> is_upper c \<or> is_lower c \<or> is_digit c"

definition is_hex :: "char \<Rightarrow> bool" where
  "is_hex c \<longleftrightarrow> is_digit c \<or> (97 \<le> code_of c \<and> code_of c \<le> 102)
     \<or> (65 \<le> code_of c \<and> code_of c \<le> 70)"

definition lower_char :: "char \<Rightarrow> char" where
  "lower_char c = (if is_upper c then char_of (code_of c + 32) else c)"

definition upper_char :: "char \<Rightarrow> char" where
  "upper_char c = (if is_lower c then char_of (code_of c - 32) else c)"

lemmas char_defs = code_of_def is_ws_def is_upper_def is_lower_def is_digit_def
  is_alnum_def is_hex_def lower_char_def upper_char_def

lemma code_of_char_of [simp]: "code_of (char_of n) = n mod 256"
  by (simp add: code_of_def)

lemma lower_char_not_upper [simp]: "\<not> is_upper (lower_char c)"
  by (auto simp: lower_char_def is_upper_def)

lemma lower_char_idem [simp]: "lower_char (lower_char c) = lower_char c"
  by (subst lower_char_def) simp

section \<open>Slices, prefixes, suffixes and occurrences\<close>

definition to_lower :: "string \<Rightarrow> string" where
  "to_lower s = map lower_char s"

definition to_upper :: "string \<Rightarrow> string" where
  "to_upper s = map upper_char s"

fun starts_with :: "string \<Rightarrow> string \<Rightarrow> bool" where
  "starts_with s [] \<longleftrightarrow> True"
| "starts_with [] (p # ps) \<longleftrightarrow> False"
| "starts_with (c # cs) (p # ps) \<longleftrightarrow> c = p \<and> starts_with cs ps"

definition ends_with :: "string \<Rightarrow> string \<Rightarrow> bool" where
  "ends_with s p \<longleftrightarrow> starts_with (rev s) (rev p)"

definition strip_prefix :: "string \<Rightarrow> string \<Rightarrow> string option" where
  "strip_prefix s p = (if starts_with s p then Some (drop (length p) s) else None)"

definition strip_suffix :: "string \<Rightarrow> string \<Rightarrow> string option" where
  "strip_suffix s p = (if ends_with s p then Some (take (length s - length p) s) else None)"

fun contains_str :: "string \<Rightarrow> string \<Rightarrow> bool" where
  "contains_str [] p \<longleftrightarrow> starts_with [] p"
| "contains_str (c # cs) p \<longleftrightarrow> starts_with (c # cs) p \<or> contains_str cs p"

fun find_str :: "string \<Rightarrow> string \<Rightarrow> nat option" where
  "find_str [] p = (if starts_with [] p then Some 0 else None)"
| "find_str (c # cs) p = (if starts_with (c # cs) p then Some 0 else map_option Suc (find_str cs p))"

lemma starts_with_iff: "starts_with s p \<longleftrightarrow> (\<exists>r. s = p @ r)"
  by (induction s p rule: starts_with.induct) auto

lemma starts_with_self [simp]: "starts_with s s"
  by (auto simp: starts_with_iff)

lemma starts_with_append [simp]: "starts_with (p @ r) p"
  by (auto simp: starts_with_iff)

lemma ends_with_iff: "ends_with s p \<longleftrightarrow> (\<exists>l. s = l @ p)"
proof
  assume "ends_with s p"
  then obtain r where "rev s = rev p @ r"
    by (auto simp: ends_with_def starts_with_iff)
  then have "s = rev r @ p"
    by (metis rev_append rev_rev_ident)
  then show "\<exists>l. s = l @ p" ..
qed (auto simp: ends_with_def)

lemma ends_with_self [simp]: "ends_with s s"
  by (simp add: ends_with_def)

lemma strip_prefix_Some: "strip_prefix s p = Some r \<longleftrightarrow> s = p @ r"
  by (auto simp: strip_prefix_def starts_with_iff)

lemma strip_prefix_None: "strip_prefix s p = None \<longleftrightarrow> \<not> starts_with s p"
  by (simp add: strip_prefix_def)

lemma strip_suffix_Some: "strip_suffix s p = Some l \<longleftrightarrow> s = l @ p"
  by (auto simp: strip_suffix_def ends_with_iff)

lemma contains_iff: "contains_str s p \<longleftrightarrow> (\<exists>l r. s = l @ p @ r)"
proof (induction s)
  case Nil
  then show ?case by (cases p) auto
next
  case (Cons c cs)
  note IH = Cons.IH
  show ?case
  proof
    assume "contains_str (c # cs) p"
    then consider "starts_with (c # cs) p" | "contains_str cs p" by auto
    then show "\<exists>l r. c # cs = l @ p @ r"
    proof cases
      case 1
      then show ?thesis by (metis append_Nil starts_with_iff)
    next
      case 2
      with Cons.IH show ?thesis by (metis append_Cons)
    qed
  next
    assume "\<exists>l r. c # cs = l @ p @ r"
    then obtain l r where "c # cs = l @ p @ r" by blast
    then show "contains_str (c # cs) p"
    proof (cases l)
      case Nil
      with \<open>c # cs = l @ p @ r\<close> have "starts_with (c # cs) p" by simp
      then show ?thesis by simp
    next
      case (Cons a l')
      with \<open>c # cs = l @ p @ r\<close> have "cs = l' @ p @ r" by simp
      with IH show ?thesis by auto
    qed
  qed
qed

lemma find_str_None: "find_str s p = None \<longleftrightarrow> \<not> contains_str s p"
  by (induction s) auto

lemma contains_prefix: "starts_with s p \<Longrightarrow> contains_str s p"
  by (cases s) auto

section \<open>Trimming\<close>

definition trim_start :: "string \<Rightarrow> string" where
  "trim_start s = dropWhile is_ws s"

definition trim_end :: "string \<Rightarrow> string" where
  "trim_end s = rev (dropWhile is_ws (rev s))"

definition trim :: "string \<Rightarrow> string" where
  "trim s = trim_end (trim_start s)"

lemma dropWhile_hd_not: "dropWhile P s = c # cs \<Longrightarrow> \<not> P c"
  by (metis dropWhile_eq_Cons_conv)

lemma trim_start_idem [simp]: "trim_start (trim_start s) = trim_start s"
  by (simp add: trim_start_def)

lemma set_trim: "set (trim s) \<subseteq> set s"
  by (auto simp: trim_def trim_end_def trim_start_def dest!: set_dropWhileD)

lemma trim_end_idem [simp]: "trim_end (trim_end s) = trim_end s"
  by (simp add: trim_end_def)

lemma trim_start_trim_end: "trim_start (trim_end (trim_start s)) = trim_end (trim_start s)"
proof (cases "trim_end (trim_start s)")
  case (Cons c cs)
  have "rev (trim_start s) = takeWhile is_ws (rev (trim_start s)) @ rev (trim_end (trim_start s))"
    by (simp add: trim_end_def)
  then have "trim_start s = c # cs @ rev (takeWhile is_ws (rev (trim_start s)))"
    using Cons by (metis append_Cons rev_append rev_rev_ident)
  then have "\<not> is_ws c" using dropWhile_hd_not [of is_ws s c] by (simp add: trim_start_def)
  then show ?thesis using Cons by (simp add: trim_start_def)
qed (simp add: trim_start_def)

lemma trim_idem [simp]: "trim (trim s) = trim s"
  by (simp add: trim_def trim_start_trim_end)

section \<open>Splitting and joining\<close>

fun split_by :: "(char \<Rightarrow> bool) \<Rightarrow> string \<Rightarrow> string list" where
  "split_by P [] = [[]]"
| "split_by P (c # cs) =
     (if P c then [] # split_by P cs
      else (case split_by P cs of [] \<Rightarrow> [[c]] | w # ws \<Rightarrow> (c # w) # ws))"

abbreviation split_on :: "char \<Rightarrow> string \<Rightarrow> string list" where
  "split_on d \<equiv> split_by (\<lambda>c. c = d)"

definition split_ws :: "string \<Rightarrow> string list" where
  "split_ws s = filter (\<lambda>w. w \<noteq> []) (split_by is_ws s)"

fun join :: "string \<Rightarrow> string list \<Rightarrow> string" where
  "join sep [] = []"
| "join sep [w] = w"
| "join sep (w # v # ws) = w @ sep @ join sep (v # ws)"

definition split_once :: "char \<Rightarrow> string \<Rightarrow> (string \<times> string) option" where
  "split_once d s = (case dropWhile (\<lambda>c. c \<noteq> d) s of
     [] \<Rightarrow> None
   | _ # r \<Rightarrow> Some (takeWhile (\<lambda>c. c \<noteq> d) s, r))"

text \<open>\<open>str::lines\<close>: no last empty line, and no carriage return before the line feed.\<close>

definition strip_cr :: "string \<Rightarrow> string" where
  "strip_cr s = (case strip_suffix s [CHR 0x0D] of Some l \<Rightarrow> l | None \<Rightarrow> s)"

definition str_lines :: "string \<Rightarrow> string list" where
  "str_lines s = (let ps = split_on (CHR 0x0A) s
     in if last ps = [] then map strip_cr (butlast ps)
        else map strip_cr (butlast ps) @ [last ps])"

lemma split_by_nonempty [simp]: "split_by P s \<noteq> []"
  by (induction s) (auto split: list.splits)

lemma split_by_no_sep: "w \<in> set (split_by P s) \<Longrightarrow> c \<in> set w \<Longrightarrow> \<not> P c"
proof (induction s arbitrary: w)
  case (Cons x xs)
  show ?case
  proof (cases "split_by P xs")
    case (Cons v vs)
    with Cons.prems Cons.IH [of v] Cons.IH [of w] show ?thesis by (auto split: if_splits)
  qed (use Cons in simp)
qed auto

lemma set_split_by: "w \<in> set (split_by P s) \<Longrightarrow> set w \<subseteq> set s"
proof (induction s arbitrary: w)
  case (Cons x xs)
  then show ?case by (cases "split_by P xs") (fastforce split: if_splits)+
qed auto

lemma split_by_id: "\<forall>c \<in> set s. \<not> P c \<Longrightarrow> split_by P s = [s]"
  by (induction s) auto

lemma str_lines_single: "CHR 0x0A \<notin> set s \<Longrightarrow> s \<noteq> [] \<Longrightarrow> str_lines s = [s]"
proof -
  assume *: "CHR 0x0A \<notin> set s" "s \<noteq> []"
  have "split_on CHR 0x0A s = [s]" by (rule split_by_id) (use * in auto)
  then show ?thesis using * unfolding str_lines_def Let_def by simp
qed

lemma join_Cons: "ws \<noteq> [] \<Longrightarrow> join sep (w # ws) = w @ sep @ join sep ws"
  by (cases ws) auto

lemma join_split: "join [d] (split_on d s) = s"
proof (induction s)
  case (Cons c cs)
  show ?case
  proof (cases "split_on d cs")
    case (Cons w ws)
    with Cons.IH \<open>join [d] (split_on d cs) = cs\<close> show ?thesis
      by (cases ws) auto
  qed simp
qed simp

lemma split_by_append:
  "\<forall>c \<in> set w. \<not> P c \<Longrightarrow> P d \<Longrightarrow> split_by P (w @ d # r) = w # split_by P r"
  by (induction w) auto

lemma split_join:
  "ws \<noteq> [] \<Longrightarrow> \<forall>w \<in> set ws. d \<notin> set w \<Longrightarrow> split_on d (join [d] ws) = ws"
proof (induction "[d]" ws rule: join.induct)
  case (2 w)
  then show ?case by (auto intro: split_by_id)
next
  case (3 w v ws)
  have "split_on d (w @ d # join [d] (v # ws)) = w # split_on d (join [d] (v # ws))"
    by (rule split_by_append) (use 3 in auto)
  then show ?case using 3 by simp
qed simp

lemma dropWhile_split:
  "d \<notin> set a \<Longrightarrow> dropWhile (\<lambda>c. c \<noteq> d) (a @ d # b) = d # b"
  by (induction a) auto

lemma takeWhile_split:
  "d \<notin> set a \<Longrightarrow> takeWhile (\<lambda>c. c \<noteq> d) (a @ d # b) = a"
  by (induction a) auto

lemma split_once_split: "d \<notin> set a \<Longrightarrow> split_once d (a @ d # b) = Some (a, b)"
  by (simp add: split_once_def dropWhile_split takeWhile_split)

lemma split_once_None: "split_once d s = None \<longleftrightarrow> d \<notin> set s"
proof
  assume "split_once d s = None"
  then show "d \<notin> set s"
    by (metis in_set_conv_decomp_first option.distinct(1) split_once_split)
next
  assume "d \<notin> set s"
  then have "dropWhile (\<lambda>c. c \<noteq> d) s = []" by (induction s) auto
  then show "split_once d s = None" unfolding split_once_def by (simp only: list.case)
qed

lemma split_once_Some:
  "split_once d s = Some (a, b) \<longleftrightarrow> s = a @ d # b \<and> d \<notin> set a"
proof
  assume *: "split_once d s = Some (a, b)"
  then have "d \<in> set s" using split_once_None [of d s] by (cases "d \<in> set s") simp_all
  then obtain a' b' where "s = a' @ d # b'" "d \<notin> set a'"
    by (meson split_list_first)
  with * show "s = a @ d # b \<and> d \<notin> set a"
    by (simp add: split_once_split)
qed (auto simp: split_once_split)

section \<open>Replacing\<close>

text \<open>\<open>str::replace\<close> with a non-empty pattern: leftmost, non-overlapping.\<close>

fun replace_str :: "string \<Rightarrow> string \<Rightarrow> string \<Rightarrow> string" where
  "replace_str p r [] = []"
| "replace_str p r (c # cs) =
     (if p \<noteq> [] \<and> starts_with (c # cs) p then r @ replace_str p r (drop (length p - 1) cs)
      else c # replace_str p r cs)"

text \<open>A one-character pattern is a map over the characters.\<close>

lemma replace_char: "replace_str [d] r s = concat (map (\<lambda>c. if c = d then r else [c]) s)"
  by (induction s) auto

section \<open>Decimal numerals\<close>

fun show_nat :: "nat \<Rightarrow> string" where
  "show_nat n = (if n < 10 then [char_of (48 + n)] else show_nat (n div 10) @ [char_of (48 + n mod 10)])"

declare show_nat.simps [simp del]

lemma show_nat_digits: "c \<in> set (show_nat n) \<Longrightarrow> is_digit c"
proof (induction n rule: show_nat.induct)
  case (1 n)
  then show ?case
    by (subst (asm) show_nat.simps) (auto simp: is_digit_def split: if_splits)
qed

lemma show_nat_nonempty [simp]: "show_nat n \<noteq> []"
  by (subst show_nat.simps) simp

end
