(* ===== verification/Job_State.thy ===== *)
theory Job_State
  imports Rust_Strings
begin

text \<open>
  The job state machine, \<open>src/context/state.rs\<close>: the states, the table of legal
  transitions, the job context with its bounded transition history, time stamps,
  cost and token accounting, and the recovery of stuck jobs. The clock readings
  an operation takes are its last arguments, in the order the code takes them.
\<close>

section \<open>States and contexts\<close>

datatype job_state = Pending | InProgress | Completed | Submitted | Accepted
  | Failed | Stuck | Cancelled

fun can_transition_to :: "job_state \<Rightarrow> job_state \<Rightarrow> bool" where
  "can_transition_to Pending t \<longleftrightarrow> t = InProgress \<or> t = Cancelled"
| "can_transition_to InProgress t \<longleftrightarrow> t = Completed \<or> t = Failed \<or> t = Stuck \<or> t = Cancelled"
| "can_transition_to Completed t \<longleftrightarrow> t = Submitted \<or> t = Failed"
| "can_transition_to Submitted t \<longleftrightarrow> t = Accepted \<or> t = Failed"
| "can_transition_to Stuck t \<longleftrightarrow> t = InProgress \<or> t = Failed \<or> t = Cancelled"
| "can_transition_to _ t \<longleftrightarrow> False"

definition is_terminal :: "job_state \<Rightarrow> bool" where
  "is_terminal s \<longleftrightarrow> s = Accepted \<or> s = Failed \<or> s = Cancelled"

definition is_active :: "job_state \<Rightarrow> bool" where
  "is_active s \<longleftrightarrow> \<not> is_terminal s"

fun show_job_state :: "job_state \<Rightarrow> string" where
  "show_job_state Pending = ''pending''"
| "show_job_state InProgress = ''in_progress''"
| "show_job_state Completed = ''completed''"
| "show_job_state Submitted = ''submitted''"
| "show_job_state Accepted = ''accepted''"
| "show_job_state Failed = ''failed''"
| "show_job_state Stuck = ''stuck''"
| "show_job_state Cancelled = ''cancelled''"

record state_transition =
  tr_from :: job_state
  tr_to :: job_state
  tr_timestamp :: instant
  tr_reason :: "string option"

record job_context =
  job_id :: uuid
  jstate :: job_state
  user_id :: string
  conversation_id :: "uuid option"
  title :: string
  description :: string
  category :: "string option"
  budget :: "rat option"
  budget_token :: "string option"
  bid_amount :: "rat option"
  estimated_cost :: "rat option"
  estimated_duration :: "duration option"
  actual_cost :: rat
  total_tokens_used :: "64 word"
  max_tokens :: "64 word"
  created_at :: instant
  started_at :: "instant option"
  completed_at :: "instant option"
  repair_attempts :: "32 word"
  transitions :: "state_transition list"
  metadata :: json
  extra_env :: "(string \<times> string) list"

definition with_user :: "uuid \<Rightarrow> instant \<Rightarrow> string \<Rightarrow> string \<Rightarrow> string \<Rightarrow> job_context" where
  "with_user fresh now u t d =
     \<lparr>job_id = fresh, jstate = Pending, user_id = u, conversation_id = None, title = t,
      description = d, category = None, budget = None, budget_token = None,
      bid_amount = None, estimated_cost = None, estimated_duration = None,
      actual_cost = 0, total_tokens_used = 0, max_tokens = 0, created_at = now,
      started_at = None, completed_at = None, repair_attempts = 0, transitions = [],
      metadata = JNull, extra_env = []\<rparr>"

section \<open>Operations\<close>

definition MAX_TRANSITIONS :: nat where
  "MAX_TRANSITIONS = 200"

text \<open>
  The result is that of the call and the context it leaves. The transition is stamped
  at \<open>t1\<close>, \<open>started_at\<close> or \<open>completed_at\<close> at \<open>t2\<close>.
\<close>

definition transition_to ::
  "job_context \<Rightarrow> job_state \<Rightarrow> string option \<Rightarrow> instant \<Rightarrow> instant
     \<Rightarrow> (string, unit) result \<times> job_context" where
  "transition_to c new why t1 t2 =
     (if \<not> can_transition_to (jstate c) new
      then (Inl (''Cannot transition from '' @ show_job_state (jstate c) @ '' to ''
                   @ show_job_state new), c)
      else
        let tr = \<lparr>tr_from = jstate c, tr_to = new, tr_timestamp = t1, tr_reason = why\<rparr>;
            ts = last_n MAX_TRANSITIONS (transitions c @ [tr]);
            c1 = c\<lparr>transitions := ts, jstate := new\<rparr>;
            c2 = (if new = InProgress \<and> started_at c1 = None then c1\<lparr>started_at := Some t2\<rparr>
                  else if new \<in> {Completed, Accepted, Failed, Cancelled}
                       then c1\<lparr>completed_at := Some t2\<rparr>
                  else c1)
        in (Inr (), c2))"

definition add_cost :: "job_context \<Rightarrow> rat \<Rightarrow> job_context" where
  "add_cost c cost = c\<lparr>actual_cost := actual_cost c + cost\<rparr>"

text \<open>\<open>+=\<close> on a \<open>u64\<close> wraps around in the release profile, as \<open>+\<close> on words does.\<close>

definition add_tokens :: "job_context \<Rightarrow> 64 word \<Rightarrow> (string, unit) result \<times> job_context" where
  "add_tokens c n =
     (let c' = c\<lparr>total_tokens_used := total_tokens_used c + n\<rparr>
      in if max_tokens c' > 0 \<and> total_tokens_used c' > max_tokens c'
         then (Inl (''Token budget exceeded: used '' @ show_nat (unat (total_tokens_used c'))
                 @ '' of '' @ show_nat (unat (max_tokens c')) @ '' allowed tokens''), c')
         else (Inr (), c'))"

definition budget_exceeded :: "job_context \<Rightarrow> bool" where
  "budget_exceeded c = (case budget c of Some b \<Rightarrow> actual_cost c > b | None \<Rightarrow> False)"

text \<open>
  Whole seconds between start and end, never negative; the clock counts nanoseconds,
  and \<open>num_seconds\<close> rounds towards zero.
\<close>

definition job_elapsed :: "job_context \<Rightarrow> instant \<Rightarrow> duration option" where
  "job_elapsed c now = map_option (\<lambda>start.
     let e = (case completed_at c of Some t \<Rightarrow> t | None \<Rightarrow> now)
     in nat (e - start) div 10 ^ 9) (started_at c)"

definition mark_stuck ::
  "job_context \<Rightarrow> string \<Rightarrow> instant \<Rightarrow> instant \<Rightarrow> (string, unit) result \<times> job_context" where
  "mark_stuck c why t1 t2 = transition_to c Stuck (Some why) t1 t2"

definition attempt_recovery ::
  "job_context \<Rightarrow> instant \<Rightarrow> instant \<Rightarrow> (string, unit) result \<times> job_context" where
  "attempt_recovery c t1 t2 =
     (if jstate c \<noteq> Stuck then (Inl ''Job is not stuck'', c)
      else transition_to (c\<lparr>repair_attempts := repair_attempts c + 1\<rparr>) InProgress
             (Some ''Recovery attempt'') t1 t2)"

section \<open>Runs of operations\<close>

datatype job_op =
    Op_transition job_state "string option" instant instant
  | Op_cost rat
  | Op_tokens "64 word"
  | Op_stuck string instant instant
  | Op_recover instant instant

fun job_step :: "job_context \<Rightarrow> job_op \<Rightarrow> job_context" where
  "job_step c (Op_transition s why t1 t2) = snd (transition_to c s why t1 t2)"
| "job_step c (Op_cost x) = add_cost c x"
| "job_step c (Op_tokens n) = snd (add_tokens c n)"
| "job_step c (Op_stuck why t1 t2) = snd (mark_stuck c why t1 t2)"
| "job_step c (Op_recover t1 t2) = snd (attempt_recovery c t1 t2)"

text \<open>A list of transitions is a path of the table from one state to another.\<close>

fun tr_path :: "job_state \<Rightarrow> state_transition list \<Rightarrow> job_state \<Rightarrow> bool" where
  "tr_path s [] s' \<longleftrightarrow> s = s'"
| "tr_path s (t # ts) s' \<longleftrightarrow> tr_from t = s \<and> can_transition_to s (tr_to t) \<and> tr_path (tr_to t) ts s'"

definition history_start :: "job_context \<Rightarrow> job_state" where
  "history_start c = (case transitions c of [] \<Rightarrow> jstate c | t # _ \<Rightarrow> tr_from t)"

definition job_wf :: "job_context \<Rightarrow> bool" where
  "job_wf c \<longleftrightarrow>
     tr_path (history_start c) (transitions c) (jstate c)
   \<and> length (transitions c) \<le> MAX_TRANSITIONS
   \<and> (length (transitions c) < MAX_TRANSITIONS \<longrightarrow> history_start c = Pending)
   \<and> (completed_at c = None \<longleftrightarrow> jstate c \<in> {Pending, InProgress, Stuck})
   \<and> (started_at c = None \<longrightarrow> jstate c \<in> {Pending, Cancelled})"

section \<open>Lemmas\<close>

lemma tr_path_append:
  "tr_path s (ts @ ts') s' \<longleftrightarrow> (\<exists>m. tr_path s ts m \<and> tr_path m ts' s')"
  by (induction ts arbitrary: s) auto

lemma tr_path_start: "tr_path s (t # ts) s' \<Longrightarrow> tr_from t = s"
  by simp

lemma tr_path_last_n:
  assumes "tr_path s ts s'"
  shows "\<exists>m. tr_path m (last_n n ts) s'"
proof -
  have "tr_path s (take (length ts - n) ts @ last_n n ts) s'"
    using assms by (simp add: last_n_def)
  then show ?thesis by (auto simp only: tr_path_append)
qed

lemma with_user_wf: "job_wf (with_user fresh now u t d)"
  by (simp add: job_wf_def with_user_def history_start_def MAX_TRANSITIONS_def)

lemma transition_refused:
  "\<not> can_transition_to (jstate c) new \<Longrightarrow> isl (fst (transition_to c new why t1 t2))
     \<and> snd (transition_to c new why t1 t2) = c"
  by (simp add: transition_to_def)

lemma transition_ok:
  "can_transition_to (jstate c) new \<Longrightarrow>
     fst (transition_to c new why t1 t2) = Inr ()
   \<and> jstate (snd (transition_to c new why t1 t2)) = new
   \<and> transitions (snd (transition_to c new why t1 t2)) =
       last_n MAX_TRANSITIONS (transitions c @
         [\<lparr>tr_from = jstate c, tr_to = new, tr_timestamp = t1, tr_reason = why\<rparr>])"
  by (simp add: transition_to_def Let_def)

lemma terminal_no_successor: "is_terminal s \<longleftrightarrow> (\<forall>t. \<not> can_transition_to s t)"
  by (cases s) (auto simp: is_terminal_def)

lemma history_start_path:
  "tr_path m ts s' \<Longrightarrow> tr_path (case ts of [] \<Rightarrow> s' | t # _ \<Rightarrow> tr_from t) ts s'"
  by (cases ts) auto

lemma history_start_append:
  assumes "tr_path s ts (jstate c)" "ts = transitions c"
  shows "(case ts @ [t] of [] \<Rightarrow> x | t # _ \<Rightarrow> tr_from t)
           = (if ts = [] then tr_from t else history_start c)"
  using assms by (auto simp: history_start_def split: list.splits)

lemma transition_to_wf [keeps]:
  assumes wf: "job_wf c"
  shows "job_wf (snd (transition_to c new why t1 t2))"
proof (cases "can_transition_to (jstate c) new")
  case False
  with wf show ?thesis by (simp add: transition_refused)
next
  case True
  let ?t = "\<lparr>tr_from = jstate c, tr_to = new, tr_timestamp = t1, tr_reason = why\<rparr>"
  let ?c = "snd (transition_to c new why t1 t2)"
  let ?ts = "last_n MAX_TRANSITIONS (transitions c @ [?t])"
  have ts: "transitions ?c = ?ts" and st: "jstate ?c = new"
    using True transition_ok by blast+
  have path: "tr_path (history_start c) (transitions c @ [?t]) new"
    using wf True by (auto simp: job_wf_def tr_path_append)
  then have "tr_path (history_start ?c) (transitions ?c) (jstate ?c)"
    using tr_path_last_n [OF path, of MAX_TRANSITIONS] history_start_path
    unfolding history_start_def ts st by blast
  moreover have "history_start ?c = Pending" if "length (transitions ?c) < MAX_TRANSITIONS"
  proof -
    from that have len: "length (transitions c @ [?t]) < MAX_TRANSITIONS"
      unfolding ts by simp
    then have "history_start c = Pending" using wf by (simp add: job_wf_def)
    moreover have "transitions ?c = transitions c @ [?t]"
      unfolding ts using len by (simp del: length_append)
    ultimately show ?thesis
      by (auto simp: history_start_def split: list.splits)
  qed
  moreover have "length (transitions ?c) \<le> MAX_TRANSITIONS"
    unfolding ts by simp
  moreover have "completed_at ?c = None \<longleftrightarrow> jstate ?c \<in> {Pending, InProgress, Stuck}"
    using True wf unfolding job_wf_def
    by (cases "jstate c"; cases new) (auto simp: transition_to_def Let_def)
  moreover have "started_at ?c = None \<longrightarrow> jstate ?c \<in> {Pending, Cancelled}"
    using True wf unfolding job_wf_def
    by (cases "jstate c"; cases new) (auto simp: transition_to_def Let_def)
  ultimately show ?thesis unfolding job_wf_def by blast
qed

lemma job_wf_cong:
  "\<lbrakk>transitions c' = transitions c; jstate c' = jstate c; completed_at c' = completed_at c;
    started_at c' = started_at c\<rbrakk> \<Longrightarrow> job_wf c' = job_wf c"
  by (simp add: job_wf_def history_start_def cong: list.case_cong)

lemma add_cost_wf [keeps]: "job_wf c \<Longrightarrow> job_wf (add_cost c x)"
  by (simp add: add_cost_def cong: job_wf_cong)

lemma add_tokens_wf [keeps]: "job_wf c \<Longrightarrow> job_wf (snd (add_tokens c n))"
  by (subst job_wf_cong [of _ c]) (simp_all add: add_tokens_def Let_def)

lemma mark_stuck_wf [keeps]: "job_wf c \<Longrightarrow> job_wf (snd (mark_stuck c why t1 t2))"
  by (simp add: mark_stuck_def keeps)

lemma attempt_recovery_wf [keeps]: "job_wf c \<Longrightarrow> job_wf (snd (attempt_recovery c t1 t2))"
proof -
  assume "job_wf c"
  then have "job_wf (c\<lparr>repair_attempts := repair_attempts c + 1\<rparr>)"
    by (subst job_wf_cong [of _ c]) simp_all
  with \<open>job_wf c\<close> show ?thesis by (simp add: attempt_recovery_def keeps)
qed

lemma job_step_wf: "job_wf c \<Longrightarrow> job_wf (job_step c e)"
  by (cases e) (simp_all add: keeps)

interpretation job: transition_system job_step job_wf
  by unfold_locales (rule job_step_wf)

text \<open>The part of a context no operation touches once the state is terminal.\<close>

definition job_record :: "job_context \<Rightarrow> job_state \<times> state_transition list \<times> instant option \<times> instant option" where
  "job_record c = (jstate c, transitions c, started_at c, completed_at c)"

lemma terminal_step:
  "is_terminal (jstate c) \<Longrightarrow> job_record (job_step c e) = job_record c"
  by (cases e) (auto simp: terminal_no_successor transition_refused mark_stuck_def
    attempt_recovery_def add_cost_def add_tokens_def Let_def job_record_def)

interpretation job_terminal: conserving_system job_step "\<lambda>c. is_terminal (jstate c)" job_record
  by unfold_locales (use terminal_step in \<open>auto simp: job_record_def\<close>)

lemma can_reach_late_states:
  "can_transition_to m Accepted \<longleftrightarrow> m = Submitted"
  "can_transition_to m Submitted \<longleftrightarrow> m = Completed"
  "can_transition_to m Completed \<longleftrightarrow> m = InProgress"
  by (cases m; simp)+

lemma tr_path_snoc:
  assumes "tr_path s ts s'" "ts \<noteq> []"
  obtains us t where "ts = us @ [t]" "tr_path s us (tr_from t)"
    "can_transition_to (tr_from t) s'" "tr_to t = s'"
  using assms by (cases ts rule: rev_cases) (auto simp: tr_path_append)

lemma path_into_Accepted:
  assumes path: "tr_path s ts Accepted" and s: "s = Pending \<or> 3 \<le> length ts"
  shows "\<exists>us. map (\<lambda>t. (tr_from t, tr_to t)) ts =
    us @ [(InProgress, Completed), (Completed, Submitted), (Submitted, Accepted)]"
proof -
  have "ts \<noteq> []" using path s by auto
  with path obtain ts1 t1 where ts: "ts = ts1 @ [t1]" and 1: "tr_path s ts1 (tr_from t1)"
      "can_transition_to (tr_from t1) Accepted" "tr_to t1 = Accepted"
    by (rule tr_path_snoc)
  have f1: "tr_from t1 = Submitted" using 1(2) by (simp add: can_reach_late_states)
  have "ts1 \<noteq> []" using 1(1) ts s f1 by auto
  with 1(1) obtain ts2 t2 where ts1: "ts1 = ts2 @ [t2]" and 2: "tr_path s ts2 (tr_from t2)"
      "can_transition_to (tr_from t2) (tr_from t1)" "tr_to t2 = tr_from t1"
    by (rule tr_path_snoc)
  have f2: "tr_from t2 = Completed" using 2(2) f1 by (simp add: can_reach_late_states)
  have "ts2 \<noteq> []" using 2(1) ts ts1 s f2 by auto
  with 2(1) obtain ts3 t3 where ts2: "ts2 = ts3 @ [t3]" and 3: "tr_path s ts3 (tr_from t3)"
      "can_transition_to (tr_from t3) (tr_from t2)" "tr_to t3 = tr_from t2"
    by (rule tr_path_snoc)
  have f3: "tr_from t3 = InProgress" using 3(2) f2 by (simp add: can_reach_late_states)
  have "map (\<lambda>t. (tr_from t, tr_to t)) ts = map (\<lambda>t. (tr_from t, tr_to t)) ts3
      @ [(InProgress, Completed), (Completed, Submitted), (Submitted, Accepted)]"
    unfolding ts ts1 ts2 using 1(3) 2(3) 3(3) f1 f2 f3 by simp
  then show ?thesis by blast
qed

section \<open>Properties\<close>

text \<open>C8: A new job stays well-formed under any sequence of operations, the refused ones
  included: its recorded history is a path of the transition table that ends in the current
  state, starts at Pending as long as nothing was dropped, and never exceeds 200 entries; a
  job past its start has a start time, and it has a completion time exactly from Completed,
  Failed or Cancelled on.\<close>

theorem job_run_well_formed:
  "job_wf (foldl job_step (with_user fresh now u t d) ops)"
  by (rule job.run_inv) (rule with_user_wf)

text \<open>Terminal states absorb: once a job is Accepted, Failed or Cancelled, no sequence of
  operations changes its state, its history or its time stamps again.\<close>

theorem job_terminal_absorbing:
  assumes "is_terminal (jstate c)"
  shows "job_record (foldl job_step c ops) = job_record c"
  by (rule job_terminal.run_quantity) (rule assms)

theorem job_terminal_absorbing_witness:
  "job_record (foldl job_step ((with_user 1 0 ''u'' ''t'' ''d'')\<lparr>jstate := Failed\<rparr>)
     [Op_recover 1 2, Op_transition InProgress None 3 4])
   = job_record ((with_user 1 0 ''u'' ''t'' ''d'')\<lparr>jstate := Failed\<rparr>)"
  by (rule job_terminal_absorbing) (simp add: is_terminal_def)

text \<open>A job that is Accepted was worked on, completed and submitted: whatever operations
  it went through, its history ends with InProgress to Completed, Completed to Submitted and
  Submitted to Accepted.\<close>

theorem accepted_job_was_submitted:
  assumes "jstate (foldl job_step (with_user fresh now u t d) ops) = Accepted"
  shows "\<exists>us. map (\<lambda>tr. (tr_from tr, tr_to tr)) (transitions (foldl job_step (with_user fresh now u t d) ops))
    = us @ [(InProgress, Completed), (Completed, Submitted), (Submitted, Accepted)]"
proof -
  let ?c = "foldl job_step (with_user fresh now u t d) ops"
  have wf: "job_wf ?c" by (rule job.run_inv) (rule with_user_wf)
  have path: "tr_path (history_start ?c) (transitions ?c) Accepted"
    using wf assms by (simp add: job_wf_def)
  have "history_start ?c = Pending \<or> 3 \<le> length (transitions ?c)"
    using wf by (cases "length (transitions ?c) < MAX_TRANSITIONS") (auto simp: job_wf_def MAX_TRANSITIONS_def)
  with path show ?thesis by (rule path_into_Accepted)
qed

theorem accepted_job_was_submitted_witness:
  "\<exists>us. map (\<lambda>tr. (tr_from tr, tr_to tr)) (transitions (foldl job_step (with_user 1 0 ''u'' ''t'' ''d'')
      (map (\<lambda>s. Op_transition s None 5 6) [InProgress, Completed, Submitted, Accepted])))
    = us @ [(InProgress, Completed), (Completed, Submitted), (Submitted, Accepted)]"
  by (rule accepted_job_was_submitted)
     (simp add: with_user_def transition_to_def Let_def)

text \<open>The token budget: as long as the 64-bit counter does not wrap, \<open>add_tokens\<close> fails
  exactly when a limit is set and the total passes it, and the total is recorded either
  way.\<close>

theorem add_tokens_budget:
  assumes "unat (total_tokens_used c) + unat n < 2 ^ 64"
  shows "isl (fst (add_tokens c n)) = (0 < unat (max_tokens c)
            \<and> unat (max_tokens c) < unat (total_tokens_used c) + unat n)
       \<and> unat (total_tokens_used (snd (add_tokens c n))) = unat (total_tokens_used c) + unat n"
proof -
  have sum: "unat (total_tokens_used c + n) = unat (total_tokens_used c) + unat n"
    using assms by (simp add: unat_word_ariths)
  then show ?thesis
    by (auto simp: add_tokens_def Let_def word_less_nat_alt)
qed

theorem add_tokens_budget_witness:
  "isl (fst (add_tokens ((with_user 1 0 ''u'' ''t'' ''d'')\<lparr>max_tokens := 10\<rparr>) 11))"
  using add_tokens_budget [of "(with_user 1 0 ''u'' ''t'' ''d'')\<lparr>max_tokens := 10\<rparr>" 11]
  by (simp add: with_user_def)

end
