(* ===== verification/Llm_Types.thy ===== *)
theory Llm_Types
  imports Rust_Strings
begin

text \<open>
  The message and request types of \<open>src/llm/provider.rs\<close> and the provider errors of
  \<open>src/error.rs\<close>. An \<open>f32\<close> temperature is kept as its bit pattern.
\<close>

section \<open>Messages\<close>

datatype role = System | User | Assistant | Tool

record tool_call =
  tc_id :: string
  tc_name :: string
  tc_arguments :: json

record chat_message =
  role :: role
  content :: string
  tool_call_id :: "string option"
  cm_name :: "string option"
  tool_calls :: "tool_call list option"

definition msg_system :: "string \<Rightarrow> chat_message" where
  "msg_system s = \<lparr>role = System, content = s, tool_call_id = None, cm_name = None, tool_calls = None\<rparr>"

definition msg_user :: "string \<Rightarrow> chat_message" where
  "msg_user s = \<lparr>role = User, content = s, tool_call_id = None, cm_name = None, tool_calls = None\<rparr>"

definition msg_assistant :: "string \<Rightarrow> chat_message" where
  "msg_assistant s =
     \<lparr>role = Assistant, content = s, tool_call_id = None, cm_name = None, tool_calls = None\<rparr>"

definition msg_assistant_with_tool_calls :: "string option \<Rightarrow> tool_call list \<Rightarrow> chat_message" where
  "msg_assistant_with_tool_calls s tcs =
     \<lparr>role = Assistant, content = (case s of Some x \<Rightarrow> x | None \<Rightarrow> []), tool_call_id = None,
      cm_name = None, tool_calls = (if tcs = [] then None else Some tcs)\<rparr>"

definition msg_tool_result :: "string \<Rightarrow> string \<Rightarrow> string \<Rightarrow> chat_message" where
  "msg_tool_result i n s =
     \<lparr>role = Tool, content = s, tool_call_id = Some i, cm_name = Some n, tool_calls = None\<rparr>"

section \<open>Requests and responses\<close>

record completion_request =
  rq_messages :: "chat_message list"
  rq_max_tokens :: "32 word option"
  rq_temperature :: "32 word option"
  rq_stop_sequences :: "string list option"
  rq_metadata :: "(string \<times> string) list"

definition new_request :: "chat_message list \<Rightarrow> completion_request" where
  "new_request ms = \<lparr>rq_messages = ms, rq_max_tokens = None, rq_temperature = None,
     rq_stop_sequences = None, rq_metadata = []\<rparr>"

datatype finish_reason = Stop | Length | ToolUse | ContentFilter | Unknown

record completion_response =
  rs_content :: string
  rs_input_tokens :: "32 word"
  rs_output_tokens :: "32 word"
  rs_finish_reason :: finish_reason
  rs_response_id :: "string option"

record tool_definition =
  td_name :: string
  td_description :: string
  td_parameters :: json

section \<open>Errors\<close>

datatype llm_error =
    RequestFailed string string
  | RateLimited string "duration option"
  | InvalidResponse string string
  | ContextLengthExceeded nat nat
  | ModelNotAvailable string string
  | AuthFailed string
  | SessionExpired string
  | SessionRenewalFailed string string
  | Http string
  | Json string
  | Io string

text \<open>The \<open>Display\<close> texts; an optional duration is printed by a library.\<close>

definition llm_error_text :: "(duration option \<Rightarrow> string) \<Rightarrow> llm_error \<Rightarrow> string" where
  "llm_error_text show_retry e = (case e of
     RequestFailed p r \<Rightarrow> ''Provider '' @ p @ '' request failed: '' @ r
   | RateLimited p t \<Rightarrow> ''Provider '' @ p @ '' rate limited, retry after '' @ show_retry t
   | InvalidResponse p r \<Rightarrow> ''Invalid response from '' @ p @ '': '' @ r
   | ContextLengthExceeded u l \<Rightarrow> ''Context length exceeded: '' @ show_nat u @ '' tokens used, '' @ show_nat l @ '' allowed''
   | ModelNotAvailable p m \<Rightarrow> ''Model '' @ m @ '' not available on provider '' @ p
   | AuthFailed p \<Rightarrow> ''Authentication failed for provider '' @ p
   | SessionExpired p \<Rightarrow> ''Session expired for provider '' @ p
   | SessionRenewalFailed p r \<Rightarrow> ''Session renewal failed for provider '' @ p @ '': '' @ r
   | Http m \<Rightarrow> ''HTTP error: '' @ m
   | Json m \<Rightarrow> ''JSON error: '' @ m
   | Io m \<Rightarrow> ''IO error: '' @ m)"

end
