(* ===== verification/Job_Manager.thy ===== *)
theory Job_Manager
  imports Job_State Llm_Types
begin

text \<open>
  The manager of concurrent jobs, \<open>src/context/manager.rs\<close>, and the memory of a job,
  \<open>src/context/memory.rs\<close>. The two maps of the manager are behind two locks, and the
  creation and the removal of a job take them one after the other; each critical section
  is one function here, and \<open>manager_step\<close> interleaves them.
\<close>

section \<open>Job memory\<close>

record action_record =
  ac_id :: uuid
  ac_sequence :: "32 word"
  ac_tool_name :: string
  ac_input :: json
  ac_output_raw :: "string option"
  ac_output_sanitized :: "json option"
  ac_warnings :: "string list"
  ac_cost :: "rat option"
  ac_duration :: duration
  ac_success :: bool
  ac_error :: "string option"
  ac_executed_at :: instant

definition new_action :: "uuid \<Rightarrow> instant \<Rightarrow> 32 word \<Rightarrow> string \<Rightarrow> json \<Rightarrow> action_record" where
  "new_action fresh now n tool inp =
     \<lparr>ac_id = fresh, ac_sequence = n, ac_tool_name = tool, ac_input = inp, ac_output_raw = None,
      ac_output_sanitized = None, ac_warnings = [], ac_cost = None, ac_duration = 0,
      ac_success = False, ac_error = None, ac_executed_at = now\<rparr>"

definition ac_succeed :: "action_record \<Rightarrow> string option \<Rightarrow> json \<Rightarrow> duration \<Rightarrow> action_record" where
  "ac_succeed a raw out d = a\<lparr>ac_success := True, ac_output_raw := raw,
     ac_output_sanitized := Some out, ac_duration := d\<rparr>"

definition ac_fail :: "action_record \<Rightarrow> string \<Rightarrow> duration \<Rightarrow> action_record" where
  "ac_fail a err d = a\<lparr>ac_success := False, ac_error := Some err, ac_duration := d\<rparr>"

record conversation =
  cv_messages :: "chat_message list"
  cv_max_messages :: nat

text \<open>The trimming loop: a leading system message is kept.\<close>

fun trim_messages :: "nat \<Rightarrow> chat_message list \<Rightarrow> chat_message list" where
  "trim_messages m [] = []"
| "trim_messages m [x] = (if 1 > m \<and> role x \<noteq> System then [] else [x])"
| "trim_messages m (x # y # ms) =
     (if length (x # y # ms) > m
      then if role x = System then trim_messages m (x # ms) else trim_messages m (y # ms)
      else x # y # ms)"

definition conversation_add :: "chat_message \<Rightarrow> conversation \<Rightarrow> conversation" where
  "conversation_add msg c =
     c\<lparr>cv_messages := trim_messages (cv_max_messages c) (cv_messages c @ [msg])\<rparr>"

definition conversation_last_n :: "nat \<Rightarrow> conversation \<Rightarrow> chat_message list" where
  "conversation_last_n n c = last_n n (cv_messages c)"

record job_memory =
  jm_job_id :: uuid
  jm_conversation :: conversation
  jm_actions :: "action_record list"
  jm_next_sequence :: "32 word"

definition new_memory :: "uuid \<Rightarrow> job_memory" where
  "new_memory i = \<lparr>jm_job_id = i, jm_conversation = \<lparr>cv_messages = [], cv_max_messages = 100\<rparr>,
     jm_actions = [], jm_next_sequence = 0\<rparr>"

definition jm_add_message :: "chat_message \<Rightarrow> job_memory \<Rightarrow> job_memory" where
  "jm_add_message msg m = m\<lparr>jm_conversation := conversation_add msg (jm_conversation m)\<rparr>"

definition jm_create_action ::
  "uuid \<Rightarrow> instant \<Rightarrow> string \<Rightarrow> json \<Rightarrow> job_memory \<Rightarrow> action_record \<times> job_memory" where
  "jm_create_action fresh now tool inp m =
     (new_action fresh now (jm_next_sequence m) tool inp,
      m\<lparr>jm_next_sequence := jm_next_sequence m + 1\<rparr>)"

definition jm_record_action :: "action_record \<Rightarrow> job_memory \<Rightarrow> job_memory" where
  "jm_record_action a m = m\<lparr>jm_actions := jm_actions m @ [a]\<rparr>"

definition jm_total_cost :: "job_memory \<Rightarrow> rat" where
  "jm_total_cost m = foldl (+) 0 (List.map_filter ac_cost (jm_actions m))"

definition jm_total_duration :: "job_memory \<Rightarrow> duration" where
  "jm_total_duration m = foldl (+) 0 (map ac_duration (jm_actions m))"

definition jm_successful_actions :: "job_memory \<Rightarrow> nat" where
  "jm_successful_actions m = length (filter ac_success (jm_actions m))"

definition jm_failed_actions :: "job_memory \<Rightarrow> nat" where
  "jm_failed_actions m = length (filter (\<lambda>a. \<not> ac_success a) (jm_actions m))"

definition jm_actions_by_tool :: "string \<Rightarrow> job_memory \<Rightarrow> action_record list" where
  "jm_actions_by_tool tool m = filter (\<lambda>a. ac_tool_name a = tool) (jm_actions m)"

section \<open>The manager\<close>

datatype job_error =
    Job_NotFound uuid
  | Job_InvalidTransition uuid string string
  | Job_Failed uuid string
  | Job_Stuck uuid duration
  | Job_MaxJobsExceeded nat
  | Job_ContextError uuid string

definition job_error_text :: "(uuid \<Rightarrow> string) \<Rightarrow> (duration \<Rightarrow> string) \<Rightarrow> job_error \<Rightarrow> string" where
  "job_error_text su show_duration e = (case e of
     Job_NotFound i \<Rightarrow> ''Job '' @ su i @ '' not found''
   | Job_InvalidTransition i old new \<Rightarrow>
       ''Job '' @ su i @ '' already in state '' @ old @ '', cannot transition to '' @ new
   | Job_Failed i r \<Rightarrow> ''Job '' @ su i @ '' failed: '' @ r
   | Job_Stuck i d \<Rightarrow> ''Job '' @ su i @ '' stuck for '' @ show_duration d
   | Job_MaxJobsExceeded n \<Rightarrow> ''Maximum parallel jobs ('' @ show_nat n @ '') exceeded''
   | Job_ContextError i r \<Rightarrow> ''Job '' @ su i @ '' context error: '' @ r)"

record manager =
  mg_contexts :: "(uuid \<times> job_context) list"
  mg_memories :: "(uuid \<times> job_memory) list"
  mg_max_jobs :: nat

definition new_manager :: "nat \<Rightarrow> manager" where
  "new_manager n = \<lparr>mg_contexts = [], mg_memories = [], mg_max_jobs = n\<rparr>"

definition count_jobs :: "(job_context \<Rightarrow> bool) \<Rightarrow> (uuid \<times> job_context) list \<Rightarrow> nat" where
  "count_jobs P cs = length (filter (\<lambda>(i, c). P c) cs)"

definition active_count :: "manager \<Rightarrow> nat" where
  "active_count m = count_jobs (\<lambda>c. is_active (jstate c)) (mg_contexts m)"

text \<open>\<open>create_job_for_user\<close>: the section under the lock of the contexts, then that of the memories.\<close>

definition create_context ::
  "uuid \<Rightarrow> instant \<Rightarrow> string \<Rightarrow> string \<Rightarrow> string \<Rightarrow> manager \<Rightarrow> (job_error, uuid) result \<times> manager" where
  "create_context fresh now u t d m =
     (if active_count m \<ge> mg_max_jobs m then (Inl (Job_MaxJobsExceeded (mg_max_jobs m)), m)
      else (Inr fresh, m\<lparr>mg_contexts := AList.update fresh (with_user fresh now u t d) (mg_contexts m)\<rparr>))"

definition create_memory :: "uuid \<Rightarrow> manager \<Rightarrow> manager" where
  "create_memory i m = m\<lparr>mg_memories := AList.update i (new_memory i) (mg_memories m)\<rparr>"

definition create_job_for_user ::
  "uuid \<Rightarrow> instant \<Rightarrow> string \<Rightarrow> string \<Rightarrow> string \<Rightarrow> manager \<Rightarrow> (job_error, uuid) result \<times> manager" where
  "create_job_for_user fresh now u t d m =
     (case create_context fresh now u t d m of
        (Inl e, m') \<Rightarrow> (Inl e, m')
      | (Inr i, m') \<Rightarrow> (Inr i, create_memory i m'))"

definition get_context :: "uuid \<Rightarrow> manager \<Rightarrow> (job_error, job_context) result" where
  "get_context i m = (case map_of (mg_contexts m) i of Some c \<Rightarrow> Inr c | None \<Rightarrow> Inl (Job_NotFound i))"

definition get_memory :: "uuid \<Rightarrow> manager \<Rightarrow> (job_error, job_memory) result" where
  "get_memory i m = (case map_of (mg_memories m) i of Some c \<Rightarrow> Inr c | None \<Rightarrow> Inl (Job_NotFound i))"

definition update_context ::
  "uuid \<Rightarrow> (job_context \<Rightarrow> 'r \<times> job_context) \<Rightarrow> manager \<Rightarrow> (job_error, 'r) result \<times> manager" where
  "update_context i f m = (case map_of (mg_contexts m) i of
     None \<Rightarrow> (Inl (Job_NotFound i), m)
   | Some c \<Rightarrow> (Inr (fst (f c)), m\<lparr>mg_contexts := AList.update i (snd (f c)) (mg_contexts m)\<rparr>))"

definition update_memory ::
  "uuid \<Rightarrow> (job_memory \<Rightarrow> 'r \<times> job_memory) \<Rightarrow> manager \<Rightarrow> (job_error, 'r) result \<times> manager" where
  "update_memory i f m = (case map_of (mg_memories m) i of
     None \<Rightarrow> (Inl (Job_NotFound i), m)
   | Some c \<Rightarrow> (Inr (fst (f c)), m\<lparr>mg_memories := AList.update i (snd (f c)) (mg_memories m)\<rparr>))"

definition active_jobs :: "manager \<Rightarrow> uuid list" where
  "active_jobs m = map fst (filter (\<lambda>(i, c). is_active (jstate c)) (mg_contexts m))"

definition all_jobs :: "manager \<Rightarrow> uuid list" where
  "all_jobs m = map fst (mg_contexts m)"

definition active_jobs_for :: "string \<Rightarrow> manager \<Rightarrow> uuid list" where
  "active_jobs_for u m = map fst (filter (\<lambda>(i, c). user_id c = u \<and> is_active (jstate c)) (mg_contexts m))"

definition all_jobs_for :: "string \<Rightarrow> manager \<Rightarrow> uuid list" where
  "all_jobs_for u m = map fst (filter (\<lambda>(i, c). user_id c = u) (mg_contexts m))"

definition find_stuck_jobs :: "manager \<Rightarrow> uuid list" where
  "find_stuck_jobs m = map fst (filter (\<lambda>(i, c). jstate c = Stuck) (mg_contexts m))"

text \<open>\<open>remove_job\<close>: the contexts first, then, only when the job was there, the memories.\<close>

definition remove_context :: "uuid \<Rightarrow> manager \<Rightarrow> job_context option \<times> manager" where
  "remove_context i m = (map_of (mg_contexts m) i, m\<lparr>mg_contexts := AList.delete i (mg_contexts m)\<rparr>)"

definition remove_memory :: "uuid \<Rightarrow> manager \<Rightarrow> job_memory option \<times> manager" where
  "remove_memory i m = (map_of (mg_memories m) i, m\<lparr>mg_memories := AList.delete i (mg_memories m)\<rparr>)"

definition remove_job :: "uuid \<Rightarrow> manager \<Rightarrow> (job_error, job_context \<times> job_memory) result \<times> manager" where
  "remove_job i m =
     (case remove_context i m of
        (None, m1) \<Rightarrow> (Inl (Job_NotFound i), m1)
      | (Some c, m1) \<Rightarrow>
          (case remove_memory i m1 of
             (None, m2) \<Rightarrow> (Inl (Job_NotFound i), m2)
           | (Some mem, m2) \<Rightarrow> (Inr (c, mem), m2)))"

record context_summary =
  su_total :: nat
  su_pending :: nat
  su_in_progress :: nat
  su_completed :: nat
  su_submitted :: nat
  su_accepted :: nat
  su_failed :: nat
  su_stuck :: nat
  su_cancelled :: nat

definition empty_summary :: context_summary where
  "empty_summary = \<lparr>su_total = 0, su_pending = 0, su_in_progress = 0, su_completed = 0,
     su_submitted = 0, su_accepted = 0, su_failed = 0, su_stuck = 0, su_cancelled = 0\<rparr>"

fun summary_count :: "job_state \<Rightarrow> context_summary \<Rightarrow> context_summary" where
  "summary_count Pending s = s\<lparr>su_pending := su_pending s + 1\<rparr>"
| "summary_count InProgress s = s\<lparr>su_in_progress := su_in_progress s + 1\<rparr>"
| "summary_count Completed s = s\<lparr>su_completed := su_completed s + 1\<rparr>"
| "summary_count Submitted s = s\<lparr>su_submitted := su_submitted s + 1\<rparr>"
| "summary_count Accepted s = s\<lparr>su_accepted := su_accepted s + 1\<rparr>"
| "summary_count Failed s = s\<lparr>su_failed := su_failed s + 1\<rparr>"
| "summary_count Stuck s = s\<lparr>su_stuck := su_stuck s + 1\<rparr>"
| "summary_count Cancelled s = s\<lparr>su_cancelled := su_cancelled s + 1\<rparr>"

definition count_states :: "(uuid \<times> job_context) list \<Rightarrow> context_summary" where
  "count_states cs = foldl (\<lambda>s (i, c). summary_count (jstate c) s) empty_summary cs"

definition summary :: "manager \<Rightarrow> context_summary" where
  "summary m = (count_states (mg_contexts m))\<lparr>su_total := length (mg_contexts m)\<rparr>"

definition summary_for :: "string \<Rightarrow> manager \<Rightarrow> context_summary" where
  "summary_for u m =
     (let s = count_states (filter (\<lambda>(i, c). user_id c = u) (mg_contexts m))
      in s\<lparr>su_total := su_pending s + su_in_progress s + su_completed s + su_submitted s
             + su_accepted s + su_failed s + su_stuck s + su_cancelled s\<rparr>)"

section \<open>Interleavings\<close>

datatype manager_event =
    Mg_create_context uuid instant string string string
  | Mg_create_memory uuid
  | Mg_update uuid job_op
  | Mg_message uuid chat_message
  | Mg_action uuid action_record
  | Mg_remove_context uuid
  | Mg_remove_memory uuid

fun manager_step :: "manager \<Rightarrow> manager_event \<Rightarrow> manager" where
  "manager_step m (Mg_create_context i now u t d) = snd (create_context i now u t d m)"
| "manager_step m (Mg_create_memory i) = create_memory i m"
| "manager_step m (Mg_update i e) = snd (update_context i (\<lambda>c. ((), job_step c e)) m)"
| "manager_step m (Mg_message i msg) = snd (update_memory i (\<lambda>x. ((), jm_add_message msg x)) m)"
| "manager_step m (Mg_action i a) = snd (update_memory i (\<lambda>x. ((), jm_record_action a x)) m)"
| "manager_step m (Mg_remove_context i) = snd (remove_context i m)"
| "manager_step m (Mg_remove_memory i) = snd (remove_memory i m)"

definition manager_inv :: "manager \<Rightarrow> bool" where
  "manager_inv m \<longleftrightarrow> active_count m \<le> mg_max_jobs m \<and> dkeys (mg_contexts m) \<and> dkeys (mg_memories m)
     \<and> (\<forall>(i, c) \<in> set (mg_contexts m). job_wf c)"

lemma new_manager_inv: "manager_inv (new_manager n)"
  by (simp add: manager_inv_def new_manager_def active_count_def count_jobs_def)

lemma count_jobs_update_le: "count_jobs P (AList.update i c cs) \<le> count_jobs P cs + (if P c then 1 else 0)"
  by (induction cs) (auto simp: count_jobs_def)

lemma count_jobs_update_mono:
  "map_of cs i = Some c \<Longrightarrow> (P c' \<longrightarrow> P c) \<Longrightarrow> count_jobs P (AList.update i c' cs) \<le> count_jobs P cs"
  by (induction cs) (auto simp: count_jobs_def split: if_splits)

lemma count_jobs_delete_le: "count_jobs P (AList.delete i cs) \<le> count_jobs P cs"
  by (induction cs) (auto simp: count_jobs_def)

lemma set_update_sub: "dkeys al \<Longrightarrow> set (AList.update k v al) \<subseteq> insert (k, v) (set al)"
  by (induction al) (auto simp: dkeys_Cons)

lemma active_only_from_active: "is_active (jstate (job_step c e)) \<Longrightarrow> is_active (jstate c)"
  using terminal_step [of c e] by (auto simp: is_active_def job_record_def)

lemma create_context_inv [keeps]: "manager_inv m \<Longrightarrow> manager_inv (snd (create_context i now u t d m))"
  using count_jobs_update_le [of "\<lambda>c. is_active (jstate c)" i "with_user i now u t d" "mg_contexts m"]
    set_update_sub [of "mg_contexts m" i "with_user i now u t d"]
  by (auto simp: manager_inv_def create_context_def active_count_def with_user_wf split: if_splits)

lemma create_memory_inv [keeps]: "manager_inv m \<Longrightarrow> manager_inv (create_memory i m)"
  by (simp add: manager_inv_def create_memory_def active_count_def)

lemma update_memory_inv [keeps]: "manager_inv m \<Longrightarrow> manager_inv (snd (update_memory i f m))"
  by (auto simp: manager_inv_def update_memory_def active_count_def split: option.splits)

lemma update_context_inv [keeps]:
  assumes "manager_inv m"
  shows "manager_inv (snd (update_context i (\<lambda>c. (r, job_step c e)) m))"
proof (cases "map_of (mg_contexts m) i")
  case (Some c)
  then have "job_wf c" using assms by (auto simp: manager_inv_def dest: map_of_SomeD)
  then show ?thesis
    using assms Some set_update_sub [of "mg_contexts m" i "job_step c e"]
      count_jobs_update_mono [OF Some, of "\<lambda>c. is_active (jstate c)" "job_step c e"]
      active_only_from_active [of c e]
    by (auto simp: manager_inv_def update_context_def active_count_def job_step_wf)
qed (simp add: update_context_def assms)

lemma remove_context_inv [keeps]: "manager_inv m \<Longrightarrow> manager_inv (snd (remove_context i m))"
  using count_jobs_delete_le [of "\<lambda>c. is_active (jstate c)" i "mg_contexts m"]
  by (auto simp: manager_inv_def remove_context_def active_count_def AList.delete_eq)

lemma remove_memory_inv [keeps]: "manager_inv m \<Longrightarrow> manager_inv (snd (remove_memory i m))"
  by (simp add: manager_inv_def remove_memory_def active_count_def)

lemma manager_step_inv: "manager_inv m \<Longrightarrow> manager_inv (manager_step m e)"
  by (cases e) (simp_all add: keeps)

lemma manager_step_max [simp]: "mg_max_jobs (manager_step m e) = mg_max_jobs m"
  by (cases e) (auto simp: create_context_def create_memory_def update_context_def
      update_memory_def remove_context_def remove_memory_def split: option.splits)

interpretation manager: conserving_system manager_step manager_inv mg_max_jobs
  by unfold_locales (simp_all add: manager_step_inv)

section \<open>Summaries and trimming\<close>

definition summary_sum :: "context_summary \<Rightarrow> nat" where
  "summary_sum s = su_pending s + su_in_progress s + su_completed s + su_submitted s
     + su_accepted s + su_failed s + su_stuck s + su_cancelled s"

lemma summary_count_sum [simp]: "summary_sum (summary_count j s) = Suc (summary_sum s)"
  by (cases j) (simp_all add: summary_sum_def)

lemma summary_count_active:
  "su_accepted (summary_count j s) + su_failed (summary_count j s) + su_cancelled (summary_count j s)
     = su_accepted s + su_failed s + su_cancelled s + (if is_active j then 0 else 1)"
  by (cases j) (simp_all add: is_active_def is_terminal_def)

lemma count_states_fold:
  "summary_sum (foldl (\<lambda>s (i, c). summary_count (jstate c) s) s0 cs) = summary_sum s0 + length cs"
  by (induction cs arbitrary: s0) (auto split: prod.splits)

lemma count_states_terminal:
  "(let s = foldl (\<lambda>s (i, c). summary_count (jstate c) s) s0 cs
    in su_accepted s + su_failed s + su_cancelled s + count_jobs (\<lambda>c. is_active (jstate c)) cs)
     = su_accepted s0 + su_failed s0 + su_cancelled s0 + length cs"
proof (induction cs arbitrary: s0)
  case (Cons x cs)
  then show ?case
    using summary_count_active [of "jstate (snd x)" s0]
    by (cases x) (auto simp: Let_def count_jobs_def)
qed (simp add: count_jobs_def Let_def)

lemma trim_messages_length: "length (trim_messages m ms) \<le> max 1 m"
  by (induction m ms rule: trim_messages.induct) auto

lemma trim_messages_system:
  "role x = System \<Longrightarrow> 1 \<le> m \<Longrightarrow> trim_messages m (x # ms) = x # last_n (m - 1) ms"
proof (induction m "x # ms" arbitrary: ms rule: trim_messages.induct)
  case (3 m y ms)
  show ?case
  proof (cases "length (x # y # ms) > m")
    case True
    then have "last_n (m - 1) (y # ms) = last_n (m - 1) ms"
      by (simp add: last_n_def Suc_diff_le)
    with True 3 show ?thesis by simp
  next
    case False
    then show ?thesis by (simp add: last_n_all)
  qed
qed (auto simp: last_n_def)

lemma trim_messages_last:
  "ms \<noteq> [] \<Longrightarrow> 2 \<le> m \<Longrightarrow> trim_messages m ms \<noteq> [] \<and> last (trim_messages m ms) = last ms"
proof (induction m ms rule: trim_messages.induct)
  case (3 m x y ms)
  show ?case
  proof (cases "ms = []")
    case False
    then show ?thesis using 3 by auto
  qed (use 3 in auto)
qed auto

section \<open>Properties\<close>

text \<open>Whatever the interleaving of the critical sections of creations, removals and
  updates, at most \<open>max_jobs\<close> jobs are active, every job is well-formed and both maps have
  one entry per job.\<close>

theorem active_jobs_bounded:
  "active_count (foldl manager_step (new_manager n) es) \<le> n
   \<and> manager_inv (foldl manager_step (new_manager n) es)"
  using manager.run_inv [OF new_manager_inv, of n es] manager.run_quantity [OF new_manager_inv, of n es]
  by (auto simp: manager_inv_def new_manager_def)

text \<open>A creation that succeeds makes a Pending job of the user with an empty memory, and a
  removal right after it returns both and leaves the manager without a trace of the job.\<close>

theorem create_then_remove:
  assumes "active_count m < mg_max_jobs m"
  shows "let (r, m1) = create_job_for_user i now u t d m; (r', m2) = remove_job i m1
     in r = Inr i \<and> get_context i m1 = Inr (with_user i now u t d)
      \<and> r' = Inr (with_user i now u t d, new_memory i)
      \<and> get_context i m2 = Inl (Job_NotFound i) \<and> get_memory i m2 = Inl (Job_NotFound i)
      \<and> (\<forall>j. if j = i then True else get_context j m2 = get_context j m \<and> get_memory j m2 = get_memory j m)"
  using assms
  by (simp add: create_job_for_user_def create_context_def create_memory_def remove_job_def
      remove_context_def remove_memory_def get_context_def get_memory_def Let_def)

theorem create_then_remove_witness:
  "fst (create_job_for_user 7 0 ''u'' ''t'' ''d'' (new_manager 1)) = Inr 7"
  using create_then_remove [of "new_manager 1" 7 0 "''u''" "''t''" "''d''"]
  by (auto simp: new_manager_def active_count_def count_jobs_def Let_def split: prod.splits)

text \<open>A removal that runs between the two critical sections of a creation reports the job
  as not found although it removed it, and the creation then leaves a memory that no removal
  can reach any more.\<close>

theorem remove_during_create_leaks:
  assumes "active_count m < mg_max_jobs m" "map_of (mg_memories m) i = None"
  shows "let m1 = snd (create_context i now u t d m); (r, m2) = remove_job i m1;
           m3 = create_memory i m2
     in r = Inl (Job_NotFound i) \<and> get_context i m3 = Inl (Job_NotFound i)
      \<and> get_memory i m3 = Inr (new_memory i)
      \<and> get_memory i (snd (remove_job i m3)) = Inr (new_memory i)"
  using assms
  by (simp add: create_context_def create_memory_def remove_job_def remove_context_def
      remove_memory_def get_context_def get_memory_def Let_def)

theorem remove_during_create_leaks_witness:
  "get_memory 7 (create_memory 7 (snd (remove_job 7 (snd (create_context 7 0 ''u'' ''t'' ''d'' (new_manager 1))))))
     = Inr (new_memory 7)"
  using remove_during_create_leaks [of "new_manager 1" 7 0 "''u''" "''t''" "''d''"]
  by (auto simp: new_manager_def active_count_def count_jobs_def Let_def split: prod.splits)

text \<open>The summary is consistent: the counts of the eight states add up to the number of
  jobs, and the active jobs are those not accepted, failed or cancelled.\<close>

theorem summary_consistent:
  "su_total (summary m) = summary_sum (summary m)
   \<and> active_count m + su_accepted (summary m) + su_failed (summary m) + su_cancelled (summary m)
       = su_total (summary m)"
proof -
  have "summary_sum (count_states (mg_contexts m)) = length (mg_contexts m)"
    unfolding count_states_def count_states_fold by (simp add: summary_sum_def empty_summary_def)
  moreover have "active_count m + su_accepted (count_states (mg_contexts m))
      + su_failed (count_states (mg_contexts m)) + su_cancelled (count_states (mg_contexts m))
      = length (mg_contexts m)"
    using count_states_terminal [of empty_summary "mg_contexts m"]
    by (simp add: count_states_def active_count_def empty_summary_def Let_def)
  ultimately show ?thesis by (simp add: summary_def summary_sum_def)
qed

text \<open>Adding a message to a conversation with room for at least two keeps the new message,
  keeps a leading system message and the most recent of the others, and never exceeds the
  limit.\<close>

theorem conversation_add_keeps:
  assumes "2 \<le> cv_max_messages c"
  shows "last (cv_messages (conversation_add msg c)) = msg
       \<and> length (cv_messages (conversation_add msg c)) \<le> cv_max_messages c
       \<and> (case cv_messages c of
            [] \<Rightarrow> cv_messages (conversation_add msg c) = [msg]
          | x # ms \<Rightarrow> if role x = System
              then cv_messages (conversation_add msg c) = x # last_n (cv_max_messages c - 1) (ms @ [msg])
              else True)"
  using assms trim_messages_last [of "cv_messages c @ [msg]" "cv_max_messages c"]
    trim_messages_length [of "cv_max_messages c" "cv_messages c @ [msg]"]
  by (auto simp: conversation_add_def trim_messages_system split: list.splits)

theorem conversation_add_keeps_witness:
  "cv_messages (conversation_add (msg_user ''b'')
      \<lparr>cv_messages = [msg_system ''s'', msg_user ''a''], cv_max_messages = 2\<rparr>)
     = [msg_system ''s'', msg_user ''b'']"
  using conversation_add_keeps [of "\<lparr>cv_messages = [msg_system ''s'', msg_user ''a''], cv_max_messages = 2\<rparr>"
      "msg_user ''b''"]
  by (simp add: msg_system_def last_n_def)

end
