(* ===== verification/Circuit_Breaker.thy ===== *)
theory Circuit_Breaker
  imports Llm_Types
begin

text \<open>
  The circuit breaker around an LLM provider, \<open>src/llm/circuit_breaker.rs\<close>. The state
  behind the mutex is a record; each of the three critical sections (the pre-flight
  check, the recording of a success, the recording of a failure) is one function on it.
  A call of the wrapped provider is its answer; calls of several tasks interleave at the
  critical sections, which \<open>breaker_step\<close> makes the steps of a transition system.
\<close>

section \<open>Configuration and state\<close>

record breaker_config =
  cb_failure_threshold :: nat
  cb_recovery_timeout :: duration
  cb_half_open_successes_needed :: nat

definition default_breaker_config :: breaker_config where
  "default_breaker_config = \<lparr>cb_failure_threshold = 5, cb_recovery_timeout = 30 * 10 ^ 9,
     cb_half_open_successes_needed = 2\<rparr>"

datatype circuit_state = Closed | Open | HalfOpen

record breaker =
  cb_state :: circuit_state
  cb_consecutive_failures :: nat
  cb_opened_at :: "instant option"
  cb_half_open_successes :: nat

definition new_breaker :: breaker where
  "new_breaker = \<lparr>cb_state = Closed, cb_consecutive_failures = 0, cb_opened_at = None,
     cb_half_open_successes = 0\<rparr>"

section \<open>Critical sections\<close>

text \<open>
  The pre-flight check admits the call, rejects it with an error, or panics: the
  subtraction of two \<open>Duration\<close> values panics below zero, and the clock is read once for
  the test (\<open>t1\<close>) and once more for the subtraction (\<open>t2\<close>).
\<close>

datatype admission = Admit | Reject llm_error | Check_panic

text \<open>Seconds with no decimals, ties to even, as \<open>{:.0}\<close> prints them.\<close>

definition round_secs :: "duration \<Rightarrow> nat" where
  "round_secs d = (let q = d div 10 ^ 9; r = 2 * (d mod 10 ^ 9)
     in if r < 10 ^ 9 \<or> r = 10 ^ 9 \<and> even q then q else q + 1)"

definition check_allowed ::
  "breaker_config \<Rightarrow> string \<Rightarrow> instant \<Rightarrow> instant \<Rightarrow> breaker \<Rightarrow> admission \<times> breaker" where
  "check_allowed cfg model t1 t2 b =
     (case cb_state b of
        Closed \<Rightarrow> (Admit, b)
      | HalfOpen \<Rightarrow> (Admit, b)
      | Open \<Rightarrow>
          (case cb_opened_at b of
             Some t0 \<Rightarrow>
               if elapsed_since t0 t1 \<ge> cb_recovery_timeout cfg
               then (Admit, b\<lparr>cb_state := HalfOpen, cb_half_open_successes := 0\<rparr>)
               else if elapsed_since t0 t2 > cb_recovery_timeout cfg then (Check_panic, b)
               else (Reject (RequestFailed model
                      (''Circuit breaker open ('' @ show_nat (cb_consecutive_failures b)
                       @ '' consecutive failures, recovery in ''
                       @ show_nat (round_secs (cb_recovery_timeout cfg - elapsed_since t0 t2))
                       @ ''s)'')), b)
           | None \<Rightarrow> (Admit, b\<lparr>cb_state := Closed\<rparr>)))"

definition record_success :: "breaker_config \<Rightarrow> breaker \<Rightarrow> breaker" where
  "record_success cfg b =
     (case cb_state b of
        Closed \<Rightarrow> b\<lparr>cb_consecutive_failures := 0\<rparr>
      | HalfOpen \<Rightarrow>
          (let n = cb_half_open_successes b + 1; b' = b\<lparr>cb_half_open_successes := n\<rparr>
           in if n \<ge> cb_half_open_successes_needed cfg
              then b'\<lparr>cb_state := Closed, cb_consecutive_failures := 0, cb_opened_at := None\<rparr>
              else b')
      | Open \<Rightarrow> b\<lparr>cb_state := Closed, cb_consecutive_failures := 0, cb_opened_at := None\<rparr>)"

fun is_transient :: "llm_error \<Rightarrow> bool" where
  "is_transient (RequestFailed _ _) \<longleftrightarrow> True"
| "is_transient (RateLimited _ _) \<longleftrightarrow> True"
| "is_transient (InvalidResponse _ _) \<longleftrightarrow> True"
| "is_transient (SessionExpired _) \<longleftrightarrow> True"
| "is_transient (SessionRenewalFailed _ _) \<longleftrightarrow> True"
| "is_transient (Http _) \<longleftrightarrow> True"
| "is_transient (Json _) \<longleftrightarrow> True"
| "is_transient (Io _) \<longleftrightarrow> True"
| "is_transient _ \<longleftrightarrow> False"

definition record_failure :: "breaker_config \<Rightarrow> llm_error \<Rightarrow> instant \<Rightarrow> breaker \<Rightarrow> breaker" where
  "record_failure cfg err now b =
     (if \<not> is_transient err then b
      else case cb_state b of
        Closed \<Rightarrow>
          (let n = cb_consecutive_failures b + 1; b' = b\<lparr>cb_consecutive_failures := n\<rparr>
           in if n \<ge> cb_failure_threshold cfg
              then b'\<lparr>cb_state := Open, cb_opened_at := Some now\<rparr> else b')
      | HalfOpen \<Rightarrow> b\<lparr>cb_state := Open, cb_opened_at := Some now, cb_half_open_successes := 0\<rparr>
      | Open \<Rightarrow> b)"

text \<open>
  \<open>complete\<close> and \<open>complete_with_tools\<close>: the same three steps around the inner call, whose
  answer is \<open>r\<close>. \<open>None\<close> is the panic.
\<close>

definition breaker_complete ::
  "breaker_config \<Rightarrow> string \<Rightarrow> instant \<Rightarrow> instant \<Rightarrow> instant \<Rightarrow> (llm_error, 'a) result \<Rightarrow> breaker
     \<Rightarrow> (llm_error, 'a) result option \<times> breaker" where
  "breaker_complete cfg model t1 t2 t3 r b =
     (case check_allowed cfg model t1 t2 b of
        (Admit, b') \<Rightarrow>
          (case r of Inr resp \<Rightarrow> (Some (Inr resp), record_success cfg b')
                   | Inl err \<Rightarrow> (Some (Inl err), record_failure cfg err t3 b'))
      | (Reject err, b') \<Rightarrow> (Some (Inl err), b')
      | (Check_panic, b') \<Rightarrow> (None, b'))"

section \<open>Interleaved calls\<close>

datatype breaker_event = Ev_check instant instant | Ev_success | Ev_failure llm_error instant

fun breaker_step :: "breaker_config \<Rightarrow> string \<Rightarrow> breaker \<Rightarrow> breaker_event \<Rightarrow> breaker" where
  "breaker_step cfg model b (Ev_check t1 t2) = snd (check_allowed cfg model t1 t2 b)"
| "breaker_step cfg model b Ev_success = record_success cfg b"
| "breaker_step cfg model b (Ev_failure err t) = record_failure cfg err t b"

definition breaker_inv :: "breaker_config \<Rightarrow> breaker \<Rightarrow> bool" where
  "breaker_inv cfg b \<longleftrightarrow>
     (cb_state b = Closed \<longleftrightarrow> cb_opened_at b = None)
   \<and> cb_consecutive_failures b \<le> max 1 (cb_failure_threshold cfg)
   \<and> (cb_state b = Closed \<longrightarrow> cb_consecutive_failures b < max 1 (cb_failure_threshold cfg))
   \<and> cb_half_open_successes b \<le> max 1 (cb_half_open_successes_needed cfg)
   \<and> (cb_state b = HalfOpen \<longrightarrow> cb_half_open_successes b < max 1 (cb_half_open_successes_needed cfg))"

lemma new_breaker_inv: "breaker_inv cfg new_breaker"
  by (simp add: breaker_inv_def new_breaker_def)

lemma check_allowed_inv [keeps]:
  "breaker_inv cfg b \<Longrightarrow> breaker_inv cfg (snd (check_allowed cfg m t1 t2 b))"
  by (auto simp: breaker_inv_def check_allowed_def split: circuit_state.splits option.splits)

lemma record_success_inv [keeps]: "breaker_inv cfg b \<Longrightarrow> breaker_inv cfg (record_success cfg b)"
  by (auto simp: breaker_inv_def record_success_def Let_def split: circuit_state.splits)

lemma record_failure_inv [keeps]: "breaker_inv cfg b \<Longrightarrow> breaker_inv cfg (record_failure cfg e t b)"
  by (auto simp: breaker_inv_def record_failure_def Let_def split: circuit_state.splits)

interpretation breaker: transition_system "breaker_step cfg model" "breaker_inv cfg"
  for cfg :: breaker_config and model :: string
proof unfold_locales
  show "breaker_inv cfg (breaker_step cfg model s e)" if "breaker_inv cfg s" for s e
    using that by (cases e) (simp_all add: keeps)
qed

text \<open>A call is a check followed, when it is admitted, by the recording of its answer.\<close>

lemma breaker_complete_step:
  "\<exists>es. snd (breaker_complete cfg m t1 t2 t3 r b) = foldl (breaker_step cfg m) b es"
proof -
  consider (ok) "fst (check_allowed cfg m t1 t2 b) = Admit" | (no) "fst (check_allowed cfg m t1 t2 b) \<noteq> Admit"
    by blast
  then show ?thesis
  proof cases
    case ok
    show ?thesis
    proof (cases r)
      case (Inl e)
      with ok show ?thesis
        by (intro exI [of _ "[Ev_check t1 t2, Ev_failure e t3]"])
           (auto simp: breaker_complete_def split: prod.splits)
    next
      case (Inr x)
      with ok show ?thesis
        by (intro exI [of _ "[Ev_check t1 t2, Ev_success]"])
           (auto simp: breaker_complete_def split: prod.splits)
    qed
  next
    case no
    then show ?thesis
      by (intro exI [of _ "[Ev_check t1 t2]"])
         (auto simp: breaker_complete_def split: prod.splits admission.splits)
  qed
qed

section \<open>Failures and recovery\<close>

abbreviation transient_count :: "(llm_error \<times> instant) list \<Rightarrow> nat" where
  "transient_count fs \<equiv> length (filter (\<lambda>(e, t). is_transient e) fs)"

text \<open>Recording a list of failures, from a closed breaker that has seen \<open>n\<close> already.\<close>

definition record_failures :: "breaker_config \<Rightarrow> (llm_error \<times> instant) list \<Rightarrow> breaker \<Rightarrow> breaker" where
  "record_failures cfg fs b = foldl (\<lambda>b (e, t). record_failure cfg e t b) b fs"

lemma record_failures_open:
  "cb_state b = Open \<Longrightarrow> record_failures cfg fs b = b"
  by (induction fs arbitrary: b) (auto simp: record_failures_def record_failure_def)

lemma record_failures_closed:
  assumes "cb_state b = Closed" "cb_consecutive_failures b < cb_failure_threshold cfg"
  shows "cb_consecutive_failures (record_failures cfg fs b)
           = min (cb_failure_threshold cfg) (cb_consecutive_failures b + transient_count fs)
       \<and> cb_state (record_failures cfg fs b)
           = (if cb_consecutive_failures b + transient_count fs < cb_failure_threshold cfg
              then Closed else Open)"
  using assms
proof (induction fs arbitrary: b)
  case Nil
  then show ?case by (simp add: record_failures_def)
next
  case (Cons f fs)
  obtain e t where f: "f = (e, t)" by (cases f)
  let ?b = "record_failure cfg e t b"
  have fold: "record_failures cfg (f # fs) b = record_failures cfg fs ?b"
    by (simp add: record_failures_def f)
  consider "\<not> is_transient e" | "is_transient e" "cb_consecutive_failures b + 1 < cb_failure_threshold cfg"
    | "is_transient e" "cb_consecutive_failures b + 1 = cb_failure_threshold cfg"
    using Cons.prems by linarith
  then show ?case
  proof cases
    case 1
    then have "?b = b" by (simp add: record_failure_def)
    with 1 Cons fold f show ?thesis by simp
  next
    case 2
    then have "?b = b\<lparr>cb_consecutive_failures := cb_consecutive_failures b + 1\<rparr>"
      using Cons.prems by (simp add: record_failure_def Let_def)
    with 2 Cons.prems Cons.IH [of ?b] fold f show ?thesis by simp
  next
    case 3
    then have "?b = b\<lparr>cb_consecutive_failures := cb_consecutive_failures b + 1,
        cb_state := Open, cb_opened_at := Some t\<rparr>"
      using Cons.prems by (simp add: record_failure_def Let_def)
    with 3 fold f show ?thesis by (simp add: record_failures_open)
  qed
qed

lemma record_successes_half_open:
  assumes "cb_state b = HalfOpen"
    "cb_half_open_successes b + n < cb_half_open_successes_needed cfg"
  shows "(record_success cfg ^^ n) b = b\<lparr>cb_half_open_successes := cb_half_open_successes b + n\<rparr>"
  using assms
proof (induction n)
  case (Suc n)
  then show ?case by (simp add: record_success_def Let_def)
qed simp

section \<open>Properties\<close>

text \<open>C29: Whatever the interleaving of calls, the breaker stays consistent: it is closed
  exactly when it has no opening time, so the branches the code marks as unexpected are
  never taken; a closed breaker is below its threshold, a half-open one below the number
  of probes it needs, and no counter passes its bound, so the 32-bit counters never wrap.\<close>

theorem breaker_consistent:
  "breaker_inv cfg (foldl (breaker_step cfg model) new_breaker es)"
  by (rule breaker.run_inv) (rule new_breaker_inv)

text \<open>From a new breaker, a list of failed calls opens the circuit exactly when it holds
  as many transient errors as the threshold; errors of the caller (bad credentials, wrong
  model, context overflow) are not counted.\<close>

theorem breaker_opens_at_threshold:
  assumes "0 < cb_failure_threshold cfg"
  shows "cb_state (record_failures cfg fs new_breaker)
           = (if transient_count fs < cb_failure_threshold cfg then Closed else Open)
       \<and> cb_consecutive_failures (record_failures cfg fs new_breaker)
           = min (cb_failure_threshold cfg) (transient_count fs)"
  using record_failures_closed [of new_breaker cfg fs] assms by (simp add: new_breaker_def)

theorem breaker_opens_at_threshold_witness:
  "cb_state (record_failures default_breaker_config
      [(Http [], 1), (AuthFailed [], 2), (Io [], 3), (Http [], 4), (Http [], 5), (Http [], 6)]
      new_breaker) = Open"
  using breaker_opens_at_threshold [of default_breaker_config
      "[(Http [], 1), (AuthFailed [], 2), (Io [], 3), (Http [], 4), (Http [], 5), (Http [], 6)]"]
  by (simp add: default_breaker_config_def)

text \<open>An open circuit rejects every call until the recovery timeout has passed: the
  answer of the provider does not reach the caller and the breaker does not change.\<close>

theorem open_breaker_rejects:
  assumes "cb_state b = Open" "cb_opened_at b = Some t0"
    "elapsed_since t0 t1 < cb_recovery_timeout cfg" "elapsed_since t0 t2 \<le> cb_recovery_timeout cfg"
  shows "\<exists>e. breaker_complete cfg m t1 t2 t3 r b = (Some (Inl e), b) \<and> is_transient e"
  using assms by (simp add: breaker_complete_def check_allowed_def)

theorem open_breaker_rejects_witness:
  "\<exists>e. breaker_complete default_breaker_config ''m'' 5 6 7 (Inr (0::nat))
     \<lparr>cb_state = Open, cb_consecutive_failures = 5, cb_opened_at = Some 0, cb_half_open_successes = 0\<rparr>
     = (Some (Inl e),
     \<lparr>cb_state = Open, cb_consecutive_failures = 5, cb_opened_at = Some 0, cb_half_open_successes = 0\<rparr>)
     \<and> is_transient e"
  by (rule open_breaker_rejects [of _ 0])
     (simp_all add: default_breaker_config_def elapsed_since_def)

text \<open>Recovery: once the timeout has passed, an open breaker admits the next call, and
  after the needed number of successful probes it is closed with no failures counted; one
  probe fewer leaves it half-open.\<close>

theorem breaker_recovers:
  assumes "cb_state b = Open" "cb_opened_at b = Some t0"
    "cb_recovery_timeout cfg \<le> elapsed_since t0 t1" "cb_half_open_successes_needed cfg = Suc n"
  shows "fst (check_allowed cfg m t1 t2 b) = Admit
       \<and> cb_state ((record_success cfg ^^ n) (snd (check_allowed cfg m t1 t2 b))) = HalfOpen
       \<and> (let b' = (record_success cfg ^^ Suc n) (snd (check_allowed cfg m t1 t2 b))
          in cb_state b' = Closed \<and> cb_consecutive_failures b' = 0 \<and> cb_opened_at b' = None)"
proof -
  let ?b = "b\<lparr>cb_state := HalfOpen, cb_half_open_successes := 0\<rparr>"
  have chk: "check_allowed cfg m t1 t2 b = (Admit, ?b)"
    using assms by (simp add: check_allowed_def)
  have run: "(record_success cfg ^^ n) ?b = b\<lparr>cb_state := HalfOpen, cb_half_open_successes := n\<rparr>"
    using record_successes_half_open [of ?b n cfg] assms by simp
  show ?thesis
    using assms by (simp add: chk run Let_def) (simp add: record_success_def Let_def)
qed

theorem breaker_recovers_witness:
  "cb_state ((record_success default_breaker_config ^^ Suc 1) (snd (check_allowed default_breaker_config ''m''
      (31 * 10 ^ 9) 0 \<lparr>cb_state = Open, cb_consecutive_failures = 5, cb_opened_at = Some 0,
      cb_half_open_successes = 0\<rparr>))) = Closed"
  using breaker_recovers [of "\<lparr>cb_state = Open, cb_consecutive_failures = 5, cb_opened_at = Some 0,
      cb_half_open_successes = 0\<rparr>" 0 default_breaker_config "31 * 10 ^ 9" 1 "''m''" 0]
  by (simp add: default_breaker_config_def elapsed_since_def Let_def)

text \<open>The pre-flight check panics exactly when the recovery timeout passes between its
  two readings of the clock: it subtracts a fresh reading from the timeout that an earlier
  reading had not reached yet.\<close>

theorem check_allowed_panics:
  "fst (check_allowed cfg m t1 t2 b) = Check_panic \<longleftrightarrow>
     cb_state b = Open \<and> (\<exists>t0. cb_opened_at b = Some t0
       \<and> elapsed_since t0 t1 < cb_recovery_timeout cfg \<and> cb_recovery_timeout cfg < elapsed_since t0 t2)"
  by (auto simp: check_allowed_def split: circuit_state.splits option.splits)

end
