(* ===== verification/Failover.thy ===== *)
theory Failover
  imports Llm_Types
begin

text \<open>
  The failover chain over several LLM providers, \<open>src/llm/failover.rs\<close>, and the retry
  helpers of \<open>src/llm/retry.rs\<close>. A provider is its index; the answer it would give is an
  argument of the call. The atomics are \<open>u32\<close> and \<open>u64\<close> words, read and written in the
  order of the code by one request at a time; every reading of the clock is an argument.
\<close>

section \<open>Cooldowns\<close>

fun is_retryable :: "llm_error \<Rightarrow> bool" where
  "is_retryable (RequestFailed _ _) \<longleftrightarrow> True"
| "is_retryable (RateLimited _ _) \<longleftrightarrow> True"
| "is_retryable (InvalidResponse _ _) \<longleftrightarrow> True"
| "is_retryable (SessionRenewalFailed _ _) \<longleftrightarrow> True"
| "is_retryable (ModelNotAvailable _ _) \<longleftrightarrow> True"
| "is_retryable (Http _) \<longleftrightarrow> True"
| "is_retryable (Io _) \<longleftrightarrow> True"
| "is_retryable _ \<longleftrightarrow> False"

record cooldown_config =
  fo_cooldown_nanos :: "64 word"
  fo_failure_threshold :: "32 word"

definition default_cooldown_config :: cooldown_config where
  "default_cooldown_config = \<lparr>fo_cooldown_nanos = 300000000000, fo_failure_threshold = 3\<rparr>"

record provider_cooldown =
  failure_count :: "32 word"
  cooldown_activated_nanos :: "64 word"

definition new_cooldown :: provider_cooldown where
  "new_cooldown = \<lparr>failure_count = 0, cooldown_activated_nanos = 0\<rparr>"

definition sat_sub :: "64 word \<Rightarrow> 64 word \<Rightarrow> 64 word" where
  "sat_sub a b = (if b \<le> a then a - b else 0)"

definition is_in_cooldown :: "provider_cooldown \<Rightarrow> 64 word \<Rightarrow> 64 word \<Rightarrow> bool" where
  "is_in_cooldown p now cd \<longleftrightarrow>
     cooldown_activated_nanos p \<noteq> 0 \<and> sat_sub now (cooldown_activated_nanos p) < cd"

definition fo_record_failure :: "32 word \<Rightarrow> provider_cooldown \<Rightarrow> bool \<times> provider_cooldown" where
  "fo_record_failure threshold p =
     (let prev = failure_count p
      in (prev + 1 \<ge> threshold, p\<lparr>failure_count := prev + 1\<rparr>))"

definition activate_cooldown :: "64 word \<Rightarrow> provider_cooldown \<Rightarrow> provider_cooldown" where
  "activate_cooldown now p = p\<lparr>cooldown_activated_nanos := max now 1\<rparr>"

definition reset_cooldown :: "provider_cooldown \<Rightarrow> provider_cooldown" where
  "reset_cooldown p = p\<lparr>failure_count := 0, cooldown_activated_nanos := 0\<rparr>"

section \<open>The chain\<close>

record failover =
  fo_providers :: nat
  fo_last_used :: nat
  fo_cooldowns :: "provider_cooldown list"

definition no_providers_error :: llm_error where
  "no_providers_error =
     RequestFailed ''failover'' ''FailoverProvider requires at least one provider''"

definition unreachable_error :: llm_error where
  "unreachable_error = RequestFailed ''failover'' (''Invariant violated in FailoverProvider: providers were exhausted but no last_error was recorded (this branch should be unreachable; possible causes: no provider attempts were made or `available` was unexpectedly empty).'')"

definition with_cooldown :: "nat \<Rightarrow> (llm_error, failover) result" where
  "with_cooldown n =
     (if n = 0 then Inl no_providers_error
      else Inr \<lparr>fo_providers = n, fo_last_used = 0, fo_cooldowns = replicate n new_cooldown\<rparr>)"

text \<open>\<open>min_by_key\<close>: the first index of least key.\<close>

fun min_by_key :: "(nat \<Rightarrow> 64 word) \<Rightarrow> nat list \<Rightarrow> nat option" where
  "min_by_key f [] = None"
| "min_by_key f (i # ps) = (case min_by_key f ps of
     None \<Rightarrow> Some i
   | Some j \<Rightarrow> if f j < f i then Some j else Some i)"

definition available_providers :: "64 word \<Rightarrow> 64 word \<Rightarrow> failover \<Rightarrow> nat list" where
  "available_providers now cd s =
     filter (\<lambda>i. \<not> is_in_cooldown (fo_cooldowns s ! i) now cd) [0 ..< fo_providers s]"

definition chosen_providers :: "64 word \<Rightarrow> 64 word \<Rightarrow> failover \<Rightarrow> (llm_error, nat list) result" where
  "chosen_providers now cd s =
     (let available = available_providers now cd s
      in if available \<noteq> [] then Inr available
         else case min_by_key (\<lambda>i. cooldown_activated_nanos (fo_cooldowns s ! i)) [0 ..< fo_providers s] of
           None \<Rightarrow> Inl no_providers_error
         | Some oldest \<Rightarrow> Inr [oldest])"

text \<open>
  The loop over the chosen providers: \<open>call i\<close> is the answer of provider \<open>i\<close>, \<open>later i\<close>
  the clock when its cooldown is activated. The last component is the providers called.
\<close>

fun try_loop ::
  "cooldown_config \<Rightarrow> (nat \<Rightarrow> (llm_error, 'a) result) \<Rightarrow> (nat \<Rightarrow> 64 word) \<Rightarrow> nat list
     \<Rightarrow> llm_error option \<Rightarrow> failover \<Rightarrow> (llm_error, 'a) result \<times> failover \<times> nat list" where
  "try_loop cfg call later [] last_error s =
     (Inl (case last_error of Some e \<Rightarrow> e | None \<Rightarrow> unreachable_error), s, [])"
| "try_loop cfg call later (i # ps) last_error s =
     (case call i of
        Inr response \<Rightarrow>
          (Inr response,
           s\<lparr>fo_last_used := i, fo_cooldowns := (fo_cooldowns s)[i := reset_cooldown (fo_cooldowns s ! i)]\<rparr>,
           [i])
      | Inl err \<Rightarrow>
          if \<not> is_retryable err then (Inl err, s, [i])
          else
            let (reached, p) = fo_record_failure (fo_failure_threshold cfg) (fo_cooldowns s ! i);
                p' = (if reached then activate_cooldown (later i) p else p);
                (r, s', called) = try_loop cfg call later ps (Some err)
                                    (s\<lparr>fo_cooldowns := (fo_cooldowns s)[i := p']\<rparr>)
            in (r, s', i # called))"

definition try_providers ::
  "cooldown_config \<Rightarrow> 64 word \<Rightarrow> (nat \<Rightarrow> 64 word) \<Rightarrow> (nat \<Rightarrow> (llm_error, 'a) result) \<Rightarrow> failover
     \<Rightarrow> (llm_error, 'a) result \<times> failover \<times> nat list" where
  "try_providers cfg now later call s =
     (case chosen_providers now (fo_cooldown_nanos cfg) s of
        Inl e \<Rightarrow> (Inl e, s, [])
      | Inr ps \<Rightarrow> try_loop cfg call later ps None s)"

text \<open>\<open>set_model\<close> asks the primary provider, whose answer is the argument.\<close>

definition fo_set_model :: "(llm_error, unit) result \<Rightarrow> failover \<Rightarrow> (llm_error, unit) result \<times> failover" where
  "fo_set_model answer s =
     (case answer of Inl e \<Rightarrow> (Inl e, s) | Inr _ \<Rightarrow> (Inr (), s\<lparr>fo_last_used := 0\<rparr>))"

text \<open>\<open>list_models\<close> joins the lists of the providers that answer, sorted, without duplicates.\<close>

definition fo_list_models :: "(llm_error, 'a::linorder list) result list \<Rightarrow> 'a list" where
  "fo_list_models answers = remdups_adj (sort (concat
     (map (\<lambda>a. case a of Inr ms \<Rightarrow> ms | Inl _ \<Rightarrow> []) answers)))"

section \<open>Retry helpers\<close>

definition is_retryable_status :: "16 word \<Rightarrow> bool" where
  "is_retryable_status st \<longleftrightarrow> st \<in> {429, 500, 502, 503, 504}"

text \<open>
  The delay in milliseconds for an attempt; \<open>offset\<close> is the random draw, at most twice the
  jitter range. The signed sum is on \<open>i64\<close>.
\<close>

definition backoff_base :: "nat \<Rightarrow> 64 word" where
  "backoff_base attempt = of_nat (min (2 ^ 64 - 1) (1000 * min (2 ^ 64 - 1) (2 ^ attempt)))"

definition retry_backoff_delay :: "nat \<Rightarrow> 64 word \<Rightarrow> 64 word" where
  "retry_backoff_delay attempt offset =
     (let base_ms = backoff_base attempt;
          jitter_range = base_ms div 4;
          jitter = (if jitter_range > 0 then offset - jitter_range else 0)
      in word_of_int (max (sint (base_ms + jitter)) 100))"

section \<open>Invariant\<close>

definition failover_inv :: "failover \<Rightarrow> bool" where
  "failover_inv s \<longleftrightarrow> 0 < fo_providers s \<and> length (fo_cooldowns s) = fo_providers s
     \<and> fo_last_used s < fo_providers s"

lemma with_cooldown_inv: "with_cooldown n = Inr s \<Longrightarrow> failover_inv s"
  by (auto simp: with_cooldown_def failover_inv_def split: if_splits)

lemma min_by_key_None [simp]: "min_by_key f ps = None \<longleftrightarrow> ps = []"
  by (cases ps) (auto split: option.splits)

lemma min_by_key_Some: "min_by_key f ps = Some i \<Longrightarrow> i \<in> set ps \<and> (\<forall>j \<in> set ps. f i \<le> f j)"
proof (induction ps arbitrary: i)
  case (Cons a ps)
  show ?case
  proof (cases "min_by_key f ps")
    case None
    with Cons.prems show ?thesis by auto
  next
    case (Some j)
    with Cons.IH have j: "j \<in> set ps" "\<forall>k \<in> set ps. f j \<le> f k" by auto
    show ?thesis
    proof (cases "f j < f a")
      case True
      with Cons.prems Some j show ?thesis by auto
    next
      case False
      then have "f a \<le> f j" by simp
      with Cons.prems Some j False show ?thesis by (auto intro: order.trans)
    qed
  qed
qed simp

lemma chosen_valid:
  "chosen_providers now cd s = Inr ps \<Longrightarrow>
     ps \<noteq> [] \<and> set ps \<subseteq> {0 ..< fo_providers s} \<and> distinct ps"
  by (auto simp: chosen_providers_def available_providers_def Let_def
      split: if_splits option.splits dest: min_by_key_Some)

lemma chosen_some: "failover_inv s \<Longrightarrow> \<exists>ps. chosen_providers now cd s = Inr ps"
  unfolding chosen_providers_def Let_def failover_inv_def
  by (cases "min_by_key (\<lambda>i. cooldown_activated_nanos (fo_cooldowns s ! i)) [0 ..< fo_providers s]") auto

text \<open>The state after provider \<open>i\<close> has failed with a retryable error.\<close>

definition after_failure :: "cooldown_config \<Rightarrow> (nat \<Rightarrow> 64 word) \<Rightarrow> nat \<Rightarrow> failover \<Rightarrow> failover" where
  "after_failure cfg later i s =
     (let (reached, p) = fo_record_failure (fo_failure_threshold cfg) (fo_cooldowns s ! i)
      in s\<lparr>fo_cooldowns := (fo_cooldowns s)[i := if reached then activate_cooldown (later i) p else p]\<rparr>)"

lemma after_failure_simps [simp]:
  "fo_providers (after_failure cfg later i s) = fo_providers s"
  "fo_last_used (after_failure cfg later i s) = fo_last_used s"
  "length (fo_cooldowns (after_failure cfg later i s)) = length (fo_cooldowns s)"
  "j \<noteq> i \<Longrightarrow> fo_cooldowns (after_failure cfg later i s) ! j = fo_cooldowns s ! j"
  by (simp_all add: after_failure_def fo_record_failure_def Let_def)

lemma try_loop_ok:
  "call i = Inr r \<Longrightarrow> try_loop cfg call later (i # ps) le s =
     (Inr r, s\<lparr>fo_last_used := i,
        fo_cooldowns := (fo_cooldowns s)[i := reset_cooldown (fo_cooldowns s ! i)]\<rparr>, [i])"
  by simp

lemma try_loop_final:
  "call i = Inl e \<Longrightarrow> \<not> is_retryable e \<Longrightarrow>
     try_loop cfg call later (i # ps) le s = (Inl e, s, [i])"
  by simp

lemma try_loop_retry:
  assumes "call i = Inl e" "is_retryable e"
  shows "fst (try_loop cfg call later (i # ps) le s)
           = fst (try_loop cfg call later ps (Some e) (after_failure cfg later i s))"
    "fst (snd (try_loop cfg call later (i # ps) le s))
           = fst (snd (try_loop cfg call later ps (Some e) (after_failure cfg later i s)))"
    "snd (snd (try_loop cfg call later (i # ps) le s))
           = i # snd (snd (try_loop cfg call later ps (Some e) (after_failure cfg later i s)))"
  using assms
  by (simp_all add: after_failure_def fo_record_failure_def Let_def split: prod.splits)

lemmas try_loop_steps = try_loop_ok try_loop_final try_loop_retry

declare try_loop.simps(2) [simp del]

lemma try_loop_cases [case_names ok final retry]:
  obtains r where "call i = Inr r"
  | e where "call i = Inl e" "\<not> is_retryable e"
  | e where "call i = Inl e" "is_retryable e"
  by (cases "call i") auto

lemma try_loop_inv:
  "failover_inv s \<Longrightarrow> set ps \<subseteq> {0 ..< fo_providers s} \<Longrightarrow>
     failover_inv (fst (snd (try_loop cfg call later ps le s)))"
proof (induction ps arbitrary: le s)
  case (Cons i ps)
  have "failover_inv (after_failure cfg later i s)"
    using Cons.prems by (simp add: failover_inv_def)
  with Cons show ?case
    by (cases rule: try_loop_cases [of call i])
       (auto simp: try_loop_steps failover_inv_def)
qed simp

section \<open>Reference semantics\<close>

text \<open>An answer ends the chain unless it is a retryable error.\<close>

definition decisive :: "(llm_error, 'a) result \<Rightarrow> bool" where
  "decisive r = (case r of Inr _ \<Rightarrow> True | Inl e \<Rightarrow> \<not> is_retryable e)"

definition first_decisive :: "(nat \<Rightarrow> (llm_error, 'a) result) \<Rightarrow> nat list \<Rightarrow> nat" where
  "first_decisive call ps = (case find (\<lambda>i. decisive (call i)) ps of
     Some i \<Rightarrow> i | None \<Rightarrow> last ps)"

lemma first_decisive_Cons:
  "first_decisive call (i # ps) =
     (if decisive (call i) \<or> ps = [] then i else first_decisive call ps)"
  by (auto simp: first_decisive_def split: option.splits)

lemma try_loop_answer:
  "ps \<noteq> [] \<Longrightarrow> fst (try_loop cfg call later ps le s) = call (first_decisive call ps)"
proof (induction ps arbitrary: le s)
  case (Cons i ps)
  then show ?case
    by (cases rule: try_loop_cases [of call i]; cases "ps = []")
       (auto simp: try_loop_steps first_decisive_Cons decisive_def)
qed simp

lemma try_loop_called:
  "ps \<noteq> [] \<Longrightarrow> snd (snd (try_loop cfg call later ps le s)) =
     takeWhile (\<lambda>i. \<not> decisive (call i)) ps @
     (case find (\<lambda>i. decisive (call i)) ps of Some i \<Rightarrow> [i] | None \<Rightarrow> [])"
proof (induction ps arbitrary: le s)
  case (Cons i ps)
  then show ?case
    by (cases rule: try_loop_cases [of call i]; cases "ps = []")
       (auto simp: try_loop_steps decisive_def)
qed simp

lemma try_loop_called_only:
  "j \<notin> set (snd (snd (try_loop cfg call later ps le s))) \<Longrightarrow>
     fo_cooldowns (fst (snd (try_loop cfg call later ps le s))) ! j = fo_cooldowns s ! j"
proof (induction ps arbitrary: le s)
  case (Cons i ps)
  then show ?case
    by (cases rule: try_loop_cases [of call i]) (auto simp: try_loop_steps)
qed simp

lemma try_loop_success_state:
  "fst (try_loop cfg call later ps le s) = Inr r \<Longrightarrow>
   length (fo_cooldowns s) = fo_providers s \<Longrightarrow> distinct ps \<Longrightarrow> set ps \<subseteq> {0 ..< fo_providers s} \<Longrightarrow>
     fo_last_used (fst (snd (try_loop cfg call later ps le s))) = first_decisive call ps
   \<and> fo_cooldowns (fst (snd (try_loop cfg call later ps le s))) ! first_decisive call ps = new_cooldown"
proof (induction ps arbitrary: le s)
  case (Cons i ps)
  show ?case
  proof (cases rule: try_loop_cases [of call i])
    case (ok r)
    then show ?thesis using Cons.prems
      by (simp add: try_loop_ok first_decisive_Cons decisive_def reset_cooldown_def new_cooldown_def)
  next
    case (final e)
    then show ?thesis using Cons.prems by (simp add: try_loop_final)
  next
    case (retry e)
    let ?t = "try_loop cfg call later ps (Some e) (after_failure cfg later i s)"
    have t: "fst ?t = Inr r"
      using Cons.prems(1) retry by (simp add: try_loop_retry)
    then have "ps \<noteq> []" by auto
    moreover have "\<not> decisive (call i)" using retry by (simp add: decisive_def)
    ultimately show ?thesis
      using Cons.IH [OF t] Cons.prems retry by (simp add: first_decisive_Cons try_loop_retry)
  qed
qed simp

lemma backoff_base_small: "k \<le> 52 \<Longrightarrow> backoff_base k = of_nat (1000 * 2 ^ k) \<and> (1000::nat) * 2 ^ k < 2 ^ 62"
proof -
  assume "k \<le> 52"
  then have "(2::nat) ^ k \<le> 2 ^ 52" by (rule power_increasing) simp
  then have "(1000::nat) * 2 ^ k \<le> 1000 * 2 ^ 52" by simp
  moreover have "(1000::nat) * 2 ^ 52 < 2 ^ 62" by simp
  ultimately show ?thesis
    using \<open>2 ^ k \<le> 2 ^ 52\<close> by (simp add: backoff_base_def min_def)
qed

section \<open>Runs\<close>

datatype 'a failover_event =
    Fo_request "64 word" "nat \<Rightarrow> 64 word" "nat \<Rightarrow> (llm_error, 'a) result"
  | Fo_set_model "(llm_error, unit) result"

fun failover_step :: "cooldown_config \<Rightarrow> failover \<Rightarrow> 'a failover_event \<Rightarrow> failover" where
  "failover_step cfg s (Fo_request now later call) = fst (snd (try_providers cfg now later call s))"
| "failover_step cfg s (Fo_set_model a) = snd (fo_set_model a s)"

lemma try_providers_chosen:
  "failover_inv s \<Longrightarrow> \<exists>ps. chosen_providers now (fo_cooldown_nanos cfg) s = Inr ps
     \<and> try_providers cfg now later call s = try_loop cfg call later ps None s
     \<and> ps \<noteq> [] \<and> set ps \<subseteq> {0 ..< fo_providers s} \<and> distinct ps"
proof -
  assume "failover_inv s"
  then obtain ps where "chosen_providers now (fo_cooldown_nanos cfg) s = Inr ps"
    using chosen_some by blast
  with chosen_valid [OF this] show ?thesis by (auto simp: try_providers_def)
qed

lemma try_providers_inv [keeps]:
  "failover_inv s \<Longrightarrow> failover_inv (fst (snd (try_providers cfg now later call s)))"
  using try_providers_chosen [of s now cfg later call] by (metis try_loop_inv)

lemma fo_set_model_inv [keeps]: "failover_inv s \<Longrightarrow> failover_inv (snd (fo_set_model a s))"
  by (cases a) (auto simp: fo_set_model_def failover_inv_def)

interpretation failover: transition_system "failover_step cfg" failover_inv
  for cfg :: cooldown_config
proof unfold_locales
  show "failover_inv (failover_step cfg s e)" if "failover_inv s" for s and e :: "'c failover_event"
    using that by (cases e) (simp_all add: keeps)
qed

text \<open>Consecutive retryable failures of one provider.\<close>

definition fail_once :: "cooldown_config \<Rightarrow> 64 word \<Rightarrow> provider_cooldown \<Rightarrow> provider_cooldown" where
  "fail_once cfg now p =
     (let (reached, p') = fo_record_failure (fo_failure_threshold cfg) p
      in if reached then activate_cooldown now p' else p')"

lemma fail_once_run:
  assumes "k < unat (fo_failure_threshold cfg)"
  shows "(fail_once cfg now ^^ k) new_cooldown = \<lparr>failure_count = of_nat k, cooldown_activated_nanos = 0\<rparr>"
  using assms
proof (induction k)
  case 0
  then show ?case by (simp add: new_cooldown_def)
next
  case (Suc k)
  have "(1 + of_nat k :: 32 word) = of_nat (Suc k)" by simp
  moreover have "unat (of_nat (Suc k) :: 32 word) = Suc k"
    using Suc.prems unat_less_power [of "fo_failure_threshold cfg"]
    by (intro unat_of_nat_small) simp
  ultimately have "\<not> fo_failure_threshold cfg \<le> (1 + of_nat k :: 32 word)"
    using Suc.prems by (simp add: word_le_nat_alt del: of_nat_Suc)
  with Suc show ?case
    by (simp add: fail_once_def fo_record_failure_def Let_def add.commute)
qed

section \<open>Properties\<close>

text \<open>C39: A request returns the answer of the first provider, in chain order, whose answer is
  a success or a non-retryable error, and of the last one when all fail with retryable
  errors: the "unreachable" error of the code is never made up. It calls exactly the
  providers up to that one. A provider in cooldown is passed over, unless every provider is in
  cooldown, in which case one with the oldest activation is called alone.\<close>

theorem failover_reference:
  assumes "failover_inv s"
  shows "\<exists>ps. ps \<noteq> []
     \<and> fst (try_providers cfg now later call s) = call (first_decisive call ps)
     \<and> snd (snd (try_providers cfg now later call s)) =
         takeWhile (\<lambda>i. \<not> decisive (call i)) ps @
         (case find (\<lambda>i. decisive (call i)) ps of Some i \<Rightarrow> [i] | None \<Rightarrow> [])
     \<and> (if available_providers now (fo_cooldown_nanos cfg) s \<noteq> []
        then ps = available_providers now (fo_cooldown_nanos cfg) s
        else \<exists>i. ps = [i] \<and> i < fo_providers s \<and>
          cooldown_activated_nanos (fo_cooldowns s ! i)
            = Min ((\<lambda>j. cooldown_activated_nanos (fo_cooldowns s ! j)) ` {0 ..< fo_providers s}))"
proof -
  obtain ps where ps: "chosen_providers now (fo_cooldown_nanos cfg) s = Inr ps"
      "try_providers cfg now later call s = try_loop cfg call later ps None s" "ps \<noteq> []"
    using try_providers_chosen [OF assms] by metis
  have "\<exists>i. ps = [i] \<and> i < fo_providers s \<and> cooldown_activated_nanos (fo_cooldowns s ! i)
            = Min ((\<lambda>j. cooldown_activated_nanos (fo_cooldowns s ! j)) ` {0 ..< fo_providers s})"
    if none: "available_providers now (fo_cooldown_nanos cfg) s = []"
  proof -
    obtain i where i: "ps = [i]"
        "min_by_key (\<lambda>i. cooldown_activated_nanos (fo_cooldowns s ! i)) [0 ..< fo_providers s] = Some i"
      using ps(1) none by (auto simp: chosen_providers_def Let_def split: option.splits)
    from min_by_key_Some [OF i(2)] i(1) show ?thesis
      by (auto intro!: Min_eqI [symmetric])
  qed
  moreover have "ps = available_providers now (fo_cooldown_nanos cfg) s"
    if "available_providers now (fo_cooldown_nanos cfg) s \<noteq> []"
    using ps(1) that by (auto simp: chosen_providers_def Let_def)
  ultimately show ?thesis
    by (intro exI [of _ ps])
       (auto simp only: ps(2) try_loop_answer [OF ps(3)] try_loop_called [OF ps(3)]
         ps(3) if_True if_False not_not refl simp_thms split: if_splits)
qed

definition two_providers :: failover where
  "two_providers = \<lparr>fo_providers = 2, fo_last_used = 0, fo_cooldowns = [new_cooldown, new_cooldown]\<rparr>"

definition second_answers :: "nat \<Rightarrow> (llm_error, nat) result" where
  "second_answers i = (if i = 0 then Inl (Http []) else Inr 7)"

theorem failover_reference_witness:
  "fst (try_providers default_cooldown_config 5 (\<lambda>_. 6) second_answers two_providers) = Inr 7"
proof -
  have inv: "failover_inv two_providers" by (simp add: failover_inv_def two_providers_def)
  have av: "available_providers 5 (fo_cooldown_nanos default_cooldown_config) two_providers = [0, 1]"
    by (simp add: available_providers_def two_providers_def is_in_cooldown_def new_cooldown_def upt_rec)
  show ?thesis
    using failover_reference [OF inv, of default_cooldown_config 5 "\<lambda>_. 6" second_answers]
    by (auto simp: av first_decisive_def decisive_def second_answers_def)
qed

text \<open>A successful request leaves the provider that answered as the one whose name and
  prices are reported, out of cooldown with no failures counted, and the providers it did
  not try as they were.\<close>

theorem failover_success_state:
  assumes "failover_inv s" "try_providers cfg now later call s = (Inr r, s', called)"
  shows "called \<noteq> [] \<and> fo_last_used s' = last called \<and> call (last called) = Inr r
     \<and> fo_cooldowns s' ! last called = new_cooldown
     \<and> {j. fo_cooldowns s' ! j \<noteq> fo_cooldowns s ! j} \<subseteq> set called"
proof -
  obtain ps where ps: "try_providers cfg now later call s = try_loop cfg call later ps None s"
      "ps \<noteq> []" "set ps \<subseteq> {0 ..< fo_providers s}" "distinct ps"
    using try_providers_chosen [OF assms(1)] by metis
  then have t: "try_loop cfg call later ps None s = (Inr r, s', called)" using assms(2) by simp
  have ans: "call (first_decisive call ps) = Inr r"
    using try_loop_answer [OF ps(2), of cfg call later None s] t by simp
  have called: "called = takeWhile (\<lambda>i. \<not> decisive (call i)) ps @
      (case find (\<lambda>i. decisive (call i)) ps of Some i \<Rightarrow> [i] | None \<Rightarrow> [])"
    using try_loop_called [OF ps(2), of cfg call later None s] t by simp
  have "find (\<lambda>i. decisive (call i)) ps \<noteq> None"
  proof
    assume none: "find (\<lambda>i. decisive (call i)) ps = None"
    then have "\<not> decisive (call (last ps))" using ps(2) by (auto simp: find_None_all)
    with none ans show False by (simp add: first_decisive_def decisive_def)
  qed
  then obtain i where i: "find (\<lambda>i. decisive (call i)) ps = Some i" by auto
  then have fd: "first_decisive call ps = i" by (simp add: first_decisive_def)
  have st: "fo_last_used s' = i \<and> fo_cooldowns s' ! i = new_cooldown"
    using try_loop_success_state [of cfg call later ps None s r] t ps(3,4) assms(1) fd
    by (simp add: failover_inv_def)
  have "fo_cooldowns s' ! j = fo_cooldowns s ! j" if "j \<notin> set called" for j
    using that t ps(2) called i
    by (metis fst_conv snd_conv try_loop_called_only)
  then show ?thesis using st ans fd called i by auto
qed

theorem failover_success_state_witness:
  "fo_last_used (fst (snd (try_providers default_cooldown_config 5 (\<lambda>_. 6) second_answers two_providers))) = 1"
proof -
  have inv: "failover_inv two_providers" by (simp add: failover_inv_def two_providers_def)
  obtain s' where t: "try_providers default_cooldown_config 5 (\<lambda>_. 6) second_answers two_providers
      = (Inr 7, s', [0, 1])"
    by (simp add: try_providers_def chosen_providers_def available_providers_def two_providers_def
        is_in_cooldown_def new_cooldown_def upt_rec second_answers_def try_loop.simps
        fo_record_failure_def default_cooldown_config_def Let_def)
  show ?thesis using failover_success_state [OF inv t] t by simp
qed

text \<open>Over any sequence of requests and model changes the chain keeps one cooldown per
  provider and a valid index of the provider last used, so no index of the code is out of
  range.\<close>

theorem failover_indices_valid:
  assumes "with_cooldown n = Inr s"
  shows "failover_inv (foldl (failover_step cfg) s es)"
  by (rule failover.run_inv) (rule with_cooldown_inv [OF assms])

theorem failover_indices_valid_witness:
  "failover_inv (foldl (failover_step default_cooldown_config)
     \<lparr>fo_providers = 2, fo_last_used = 0, fo_cooldowns = [new_cooldown, new_cooldown]\<rparr>
     [Fo_request 5 (\<lambda>_. 6) second_answers, Fo_set_model (Inr ())])"
  by (rule failover_indices_valid [of 2]) (simp add: with_cooldown_def numeral_2_eq_2)

text \<open>A provider enters cooldown with its \<open>threshold\<close>-th consecutive retryable failure and
  not before.\<close>

theorem cooldown_at_threshold:
  assumes "unat (fo_failure_threshold cfg) = Suc k"
  shows "cooldown_activated_nanos ((fail_once cfg now ^^ k) new_cooldown) = 0
     \<and> cooldown_activated_nanos ((fail_once cfg now ^^ Suc k) new_cooldown) = max now 1"
proof -
  have run: "(fail_once cfg now ^^ k) new_cooldown
      = \<lparr>failure_count = of_nat k, cooldown_activated_nanos = 0\<rparr>"
    by (rule fail_once_run) (simp add: assms)
  have "fo_failure_threshold cfg = of_nat (Suc k)" using assms by (rule word_eq_of_unat)
  with run show ?thesis
    by (simp add: fail_once_def fo_record_failure_def activate_cooldown_def Let_def add.commute)
qed

theorem cooldown_at_threshold_witness:
  "cooldown_activated_nanos ((fail_once default_cooldown_config 9 ^^ Suc 2) new_cooldown) = max 9 1"
  using cooldown_at_threshold [of default_cooldown_config 2 9] by (simp add: default_cooldown_config_def)

text \<open>For the attempts that occur in practice (up to 52) the backoff delay is within a
  quarter of \<open>1000 * 2 ^ attempt\<close> milliseconds for every draw of the jitter, and none of the
  conversions between \<open>u64\<close> and \<open>i64\<close> wraps.\<close>

theorem backoff_within_quarter:
  assumes "k \<le> 52" "unat offset \<le> 2 * (250 * 2 ^ k)"
  shows "750 * 2 ^ k \<le> unat (retry_backoff_delay k offset)
       \<and> unat (retry_backoff_delay k offset) \<le> 1250 * 2 ^ k"
proof -
  define B J where "B = (1000 * 2 ^ k :: nat)" and "J = (250 * 2 ^ k :: nat)"
  define d where "d = 3 * J + unat offset"
  have base: "backoff_base k = of_nat B" and B: "B < 2 ^ 62" and BJ: "B = 4 * J"
    using backoff_base_small [OF assms(1)] by (simp_all add: B_def J_def)
  have "(1::nat) \<le> 2 ^ k" by simp
  then have J: "250 \<le> J" unfolding J_def by linarith
  have off: "unat offset \<le> 2 * J" using assms(2) by (simp add: J_def)
  have "unat (of_nat B :: 64 word) = B" using B by (intro unat_of_nat_small) simp
  then have "unat ((of_nat B :: 64 word) div 4) = J" by (simp add: unat_div BJ)
  then have jr: "(of_nat B :: 64 word) div 4 = of_nat J" by (rule word_eq_of_unat)
  have "unat (of_nat J :: 64 word) = J" using B BJ by (intro unat_of_nat_small) simp
  then have pos: "(0 :: 64 word) < of_nat J" using J by (simp add: word_less_nat_alt)
  have d: "d \<le> 5 * J" "3 * J \<le> d" "d < 2 ^ 63" using off B BJ by (auto simp: d_def)
  have "of_nat B + (offset - of_nat J) = (of_nat d :: 64 word)"
    by (simp add: d_def BJ)
  moreover have "sint (of_nat d :: 64 word) = int d"
    using d(3) by (simp add: signed_of_nat signed_take_bit_int_eq_self)
  ultimately have "retry_backoff_delay k offset = of_nat d"
    using d(2) J pos by (simp add: retry_backoff_delay_def Let_def base jr max_def)
  moreover have "unat (of_nat d :: 64 word) = d" using d(3) by (intro unat_of_nat_small) simp
  ultimately show ?thesis using d by (simp add: J_def)
qed

theorem backoff_within_quarter_witness:
  "unat (retry_backoff_delay 3 4000) \<le> 1250 * 2 ^ 3"
  using backoff_within_quarter [of 3 4000] by simp

end
