(* ===== verification/Response_Cache.thy ===== *)
theory Response_Cache
  imports Llm_Types
begin

text \<open>
  The response cache in front of an LLM provider, \<open>src/llm/response_cache.rs\<close>. The map
  behind the mutex is an association list, whose order stands for the unspecified
  iteration order of a \<open>HashMap\<close>. A request runs in two critical sections, the lookup
  and the store, with the call of the provider between them; both use the clock reading
  \<open>now\<close> taken before the lookup. SHA-256 and the JSON encoder of the messages are
  arguments of the cache key.
\<close>

section \<open>Configuration and entries\<close>

record cache_config =
  rc_ttl :: duration
  rc_max_entries :: nat

definition default_cache_config :: cache_config where
  "default_cache_config = \<lparr>rc_ttl = 3600 * 10 ^ 9, rc_max_entries = 1000\<rparr>"

record cache_entry =
  ce_response :: completion_response
  ce_created_at :: instant
  ce_last_accessed :: instant
  ce_hit_count :: nat

type_synonym cache = "(string \<times> cache_entry) list"

definition total_hits :: "cache \<Rightarrow> nat" where
  "total_hits c = sum_list (map (ce_hit_count \<circ> snd) c)"

section \<open>Cache keys\<close>

text \<open>\<open>to_le_bytes\<close>\<close>

definition le_bytes :: "32 word \<Rightarrow> string" where
  "le_bytes w = map (\<lambda>i. char_of (unat (drop_bit (8 * i) w) mod 256)) [0, 1, 2, 3]"

definition key_input :: "(chat_message list \<Rightarrow> string option) \<Rightarrow> string \<Rightarrow> completion_request \<Rightarrow> string" where
  "key_input to_json model rq =
     model @ ''|''
     @ (case to_json (rq_messages rq) of Some j \<Rightarrow> j | None \<Rightarrow> [])
     @ ''|'' @ (case rq_max_tokens rq of Some n \<Rightarrow> le_bytes n | None \<Rightarrow> [])
     @ ''|'' @ (case rq_temperature rq of Some t \<Rightarrow> le_bytes t | None \<Rightarrow> [])
     @ ''|'' @ (case rq_stop_sequences rq of
                  Some stops \<Rightarrow> concat (map (\<lambda>s. s @ [CHR 0x00]) stops) | None \<Rightarrow> [])"

definition cache_key ::
  "(string \<Rightarrow> string) \<Rightarrow> (chat_message list \<Rightarrow> string option) \<Rightarrow> string \<Rightarrow> completion_request \<Rightarrow> string" where
  "cache_key sha256 to_json model rq = sha256 (key_input to_json model rq)"

section \<open>Lookup and store\<close>

definition fresh_entry :: "cache_config \<Rightarrow> instant \<Rightarrow> cache_entry \<Rightarrow> bool" where
  "fresh_entry cfg now e \<longleftrightarrow> elapsed_since (ce_created_at e) now < rc_ttl cfg"

definition cache_lookup ::
  "cache_config \<Rightarrow> string \<Rightarrow> instant \<Rightarrow> cache \<Rightarrow> completion_response option \<times> cache" where
  "cache_lookup cfg key now c =
     (case map_of c key of
        Some e \<Rightarrow>
          if fresh_entry cfg now e
          then (Some (ce_response e),
                AList.update key (e\<lparr>ce_last_accessed := now, ce_hit_count := ce_hit_count e + 1\<rparr>) c)
          else (None, AList.delete key c)
      | None \<Rightarrow> (None, c))"

fun oldest_key :: "cache \<Rightarrow> (string \<times> instant) option" where
  "oldest_key [] = None"
| "oldest_key ((k, e) # c) = (case oldest_key c of
     None \<Rightarrow> Some (k, ce_last_accessed e)
   | Some (k', t') \<Rightarrow> if t' < ce_last_accessed e then Some (k', t') else Some (k, ce_last_accessed e))"

lemma oldest_key_None [simp]: "oldest_key c = None \<longleftrightarrow> c = []"
  by (cases c) (auto split: option.splits)

lemma oldest_key_Some:
  "oldest_key c = Some (k, t) \<Longrightarrow>
     k \<in> fst ` set c \<and> (\<exists>e. (k, e) \<in> set c \<and> t = ce_last_accessed e)
     \<and> (\<forall>(k', e') \<in> set c. t \<le> ce_last_accessed e')"
proof (induction c arbitrary: k t)
  case (Cons x c)
  obtain kx ex where x: "x = (kx, ex)" by (cases x)
  show ?case
  proof (cases "oldest_key c")
    case None
    with Cons.prems x show ?thesis by auto
  next
    case (Some p)
    obtain k' t' where p: "p = (k', t')" by (cases p)
    note IH = Cons.IH [OF Some [unfolded p]]
    show ?thesis
    proof (cases "t' < ce_last_accessed ex")
      case True
      with Cons.prems Some x p have "k = k'" "t = t'" by auto
      with IH True x show ?thesis by auto
    next
      case False
      with Cons.prems Some x p have "k = kx" "t = ce_last_accessed ex" by auto
      with IH False x show ?thesis by fastforce
    qed
  qed
qed simp

lemma length_delete_present: "k \<in> fst ` set c \<Longrightarrow> length (AList.delete k c) < length c"
  by (auto simp: AList.delete_eq intro!: length_filter_less)

text \<open>The eviction loop; every turn removes a key, so it ends.\<close>

function evict_lru :: "nat \<Rightarrow> cache \<Rightarrow> cache" where
  "evict_lru m c =
     (if length c \<ge> m
      then case oldest_key c of Some (k, t) \<Rightarrow> evict_lru m (AList.delete k c) | None \<Rightarrow> c
      else c)"
  by auto

termination
  by (relation "measure (\<lambda>(m, c). length c)")
     (auto dest: oldest_key_Some intro!: length_delete_present)

declare evict_lru.simps [simp del]

definition cache_store ::
  "cache_config \<Rightarrow> string \<Rightarrow> instant \<Rightarrow> completion_response \<Rightarrow> cache \<Rightarrow> cache" where
  "cache_store cfg key now resp c =
     (let c1 = filter (\<lambda>(k, e). fresh_entry cfg now e) c;
          c2 = evict_lru (rc_max_entries cfg) c1
      in AList.update key
           \<lparr>ce_response = resp, ce_created_at = now, ce_last_accessed = now, ce_hit_count = 0\<rparr> c2)"

text \<open>One request on its own: its lookup, on a miss the provider's answer \<open>r\<close>, its store.\<close>

definition cached_complete ::
  "cache_config \<Rightarrow> string \<Rightarrow> instant \<Rightarrow> (llm_error, completion_response) result \<Rightarrow> cache
     \<Rightarrow> (llm_error, completion_response) result \<times> cache" where
  "cached_complete cfg key now r c =
     (case cache_lookup cfg key now c of
        (Some resp, c') \<Rightarrow> (Inr resp, c')
      | (None, c') \<Rightarrow>
          (case r of Inl e \<Rightarrow> (Inl e, c')
                   | Inr resp \<Rightarrow> (Inr resp, cache_store cfg key now resp c')))"

section \<open>Interleaved requests\<close>

datatype cache_event = Ev_lookup string instant | Ev_store string instant completion_response | Ev_clear

fun cache_step :: "cache_config \<Rightarrow> cache \<Rightarrow> cache_event \<Rightarrow> cache" where
  "cache_step cfg c (Ev_lookup k now) = snd (cache_lookup cfg k now c)"
| "cache_step cfg c (Ev_store k now r) = cache_store cfg k now r c"
| "cache_step cfg c Ev_clear = []"

text \<open>The ideal cache: it forgets nothing, and knows the last store under each key.\<close>

type_synonym ideal_cache = "string \<rightharpoonup> instant \<times> completion_response"

fun ideal_step :: "ideal_cache \<Rightarrow> cache_event \<Rightarrow> ideal_cache" where
  "ideal_step m (Ev_lookup k now) = m"
| "ideal_step m (Ev_store k now r) = m(k \<mapsto> (now, r))"
| "ideal_step m Ev_clear = Map.empty"

definition cache_rel :: "cache \<Rightarrow> ideal_cache \<Rightarrow> bool" where
  "cache_rel c m \<longleftrightarrow> dkeys c
     \<and> (\<forall>k e. map_of c k = Some e \<longrightarrow> m k = Some (ce_created_at e, ce_response e))"

definition cache_inv :: "cache_config \<Rightarrow> cache \<Rightarrow> bool" where
  "cache_inv cfg c \<longleftrightarrow> dkeys c \<and> length c \<le> max 1 (rc_max_entries cfg)"

lemma evict_lru_dkeys: "dkeys c \<Longrightarrow> dkeys (evict_lru m c)"
proof (induction m c rule: evict_lru.induct)
  case (1 m c)
  then show ?case by (subst evict_lru.simps) (auto split: option.splits)
qed

lemma evict_lru_length: "length (evict_lru m c) < max 1 m"
proof (induction m c rule: evict_lru.induct)
  case (1 m c)
  then show ?case by (subst evict_lru.simps) (auto split: option.splits)
qed

lemma evict_lru_sub:
  "dkeys c \<Longrightarrow> map_of (evict_lru m c) k = Some e \<Longrightarrow> map_of c k = Some e"
proof (induction m c rule: evict_lru.induct)
  case (1 m c)
  show ?case
  proof (cases "length c \<ge> m \<and> c \<noteq> []")
    case False
    then have "evict_lru m c = c" by (subst evict_lru.simps) (auto split: option.splits)
    with 1(3) show ?thesis by simp
  next
    case True
    then obtain k0 t0 where k0: "oldest_key c = Some (k0, t0)"
      using oldest_key_None [of c] by (cases "oldest_key c") auto
    with True have ev: "evict_lru m c = evict_lru m (AList.delete k0 c)"
      by (subst evict_lru.simps) simp
    have "map_of (AList.delete k0 c) k = Some e"
      by (rule 1(1) [OF _ k0 refl]) (use True 1 ev in simp_all)
    then show ?thesis by (simp split: if_splits)
  qed
qed

text \<open>What the eviction removes was accessed no later than what it keeps.\<close>

lemma evict_lru_order:
  assumes "dkeys c" "(k, e) \<in> set c" "k \<notin> fst ` set (evict_lru m c)" "(k', e') \<in> set (evict_lru m c)"
  shows "ce_last_accessed e \<le> ce_last_accessed e'"
  using assms
proof (induction m c rule: evict_lru.induct)
  case (1 m c)
  show ?case
  proof (cases "length c \<ge> m \<and> c \<noteq> []")
    case False
    then have "evict_lru m c = c" by (subst evict_lru.simps) (auto split: option.splits)
    with 1(3,4) show ?thesis by force
  next
    case True
    then obtain k0 t0 where k0: "oldest_key c = Some (k0, t0)"
      using oldest_key_None [of c] by (cases "oldest_key c") auto
    with True have ev: "evict_lru m c = evict_lru m (AList.delete k0 c)"
      by (subst evict_lru.simps) simp
    have sub: "(k', e') \<in> set c"
      using 1(2,5) evict_lru_sub [OF 1(2)] evict_lru_dkeys [OF 1(2)] by (simp flip: dkeys_map_of)
    show ?thesis
    proof (cases "k = k0")
      case True
      then have "ce_last_accessed e = t0"
        using oldest_key_Some [OF k0] 1(2,3) by (auto simp flip: dkeys_map_of)
      with oldest_key_Some [OF k0] sub show ?thesis by auto
    next
      case False
      then have "(k, e) \<in> set (AList.delete k0 c)" using 1(3) by (auto simp: AList.delete_eq)
      with 1 True k0 ev show ?thesis by (auto simp: ev)
    qed
  qed
qed

lemma cache_store_inv: "dkeys c \<Longrightarrow> cache_inv cfg (cache_store cfg k now r c)"
  using evict_lru_length [of "rc_max_entries cfg" "filter (\<lambda>(k, e). fresh_entry cfg now e) c"]
  by (auto simp: cache_inv_def cache_store_def Let_def evict_lru_dkeys length_update)

lemma cache_lookup_inv: "cache_inv cfg c \<Longrightarrow> cache_inv cfg (snd (cache_lookup cfg k now c))"
  using length_delete_le [of k c]
  by (auto simp: cache_inv_def cache_lookup_def length_update split: option.splits
      dest!: map_of_SomeD intro: rev_image_eqI)

lemma cache_step_inv: "cache_inv cfg c \<Longrightarrow> cache_inv cfg (cache_step cfg c e)"
  by (cases e) (simp_all add: cache_lookup_inv cache_store_inv cache_inv_def [of _ "[]"]
      cache_inv_def [THEN iffD1])

interpretation cache: transition_system "cache_step cfg" "cache_inv cfg"
  for cfg :: cache_config
  by unfold_locales (rule cache_step_inv)

lemma cache_rel_step: "cache_rel c m \<Longrightarrow> cache_rel (cache_step cfg c e) (ideal_step m e)"
proof (cases e)
  case (Ev_lookup k now)
  then show "cache_rel c m \<Longrightarrow> ?thesis"
    by (auto simp: cache_rel_def cache_lookup_def split: option.splits)
next
  case (Ev_store k now r)
  assume rel: "cache_rel c m"
  let ?f = "filter (\<lambda>(k, e). fresh_entry cfg now e) c"
  have "map_of c k' = Some e'" if "map_of (evict_lru (rc_max_entries cfg) ?f) k' = Some e'" for k' e'
    using rel that evict_lru_sub [of ?f "rc_max_entries cfg" k' e']
    by (auto simp: cache_rel_def dkeys_map_of_filter split: option.splits if_splits)
  with rel Ev_store show ?thesis
    by (auto simp: cache_rel_def cache_store_def Let_def evict_lru_dkeys)
qed (simp add: cache_rel_def)

lemma cache_rel_run:
  "cache_rel c m \<Longrightarrow> cache_rel (foldl (cache_step cfg) c es) (foldl ideal_step m es)"
  by (induction es arbitrary: c m) (simp_all add: cache_rel_step)

section \<open>Properties\<close>

text \<open>Whatever the interleaving of lookups, stores and clears, the cache has one entry per
  key and at most \<open>max_entries\<close> of them, except that a capacity of zero still keeps one.\<close>

theorem cache_bounded:
  "dkeys (foldl (cache_step cfg) [] es)
   \<and> length (foldl (cache_step cfg) [] es) \<le> max 1 (rc_max_entries cfg)"
  using cache.run_inv [of cfg "[]" es] by (simp add: cache_inv_def)

text \<open>C40: Refinement of the ideal cache: a hit, after any interleaving of requests, is the
  response of the last store under that key, and that store is younger than the time to
  live.\<close>

theorem cache_hit_sound:
  assumes "fst (cache_lookup cfg k now (foldl (cache_step cfg) [] es)) = Some r"
  shows "\<exists>t. foldl ideal_step Map.empty es k = Some (t, r) \<and> elapsed_since t now < rc_ttl cfg"
proof -
  have "cache_rel (foldl (cache_step cfg) [] es) (foldl ideal_step Map.empty es)"
    by (rule cache_rel_run) (simp add: cache_rel_def)
  with assms show ?thesis
    by (auto simp: cache_rel_def cache_lookup_def fresh_entry_def split: option.splits if_splits)
qed

definition sample_response :: completion_response where
  "sample_response = \<lparr>rs_content = ''hi'', rs_input_tokens = 1, rs_output_tokens = 1,
     rs_finish_reason = Stop, rs_response_id = None\<rparr>"

theorem cache_hit_sound_witness:
  "\<exists>t. foldl ideal_step Map.empty [Ev_store ''k'' 5 sample_response, Ev_lookup ''k'' 6] ''k''
      = Some (t, sample_response) \<and> elapsed_since t 7 < rc_ttl default_cache_config"
  by (rule cache_hit_sound)
     (simp add: cache_store_def cache_lookup_def default_cache_config_def fresh_entry_def
       elapsed_since_def sample_response_def evict_lru.simps)

text \<open>A response stored at \<open>now\<close> is found again until its time to live has passed.\<close>

theorem cache_store_found:
  assumes "elapsed_since now now' < rc_ttl cfg"
  shows "fst (cache_lookup cfg k now' (cache_store cfg k now r c)) = Some r"
  using assms by (simp add: cache_lookup_def cache_store_def Let_def fresh_entry_def)

theorem cache_store_found_witness:
  "fst (cache_lookup default_cache_config ''k'' 7 (cache_store default_cache_config ''k'' 5 sample_response []))
     = Some sample_response"
  by (rule cache_store_found) (simp add: default_cache_config_def elapsed_since_def)

text \<open>The eviction is least-recently-used: an entry that a store drops although it has not
  expired was accessed no later than every older entry that stays.\<close>

theorem cache_evicts_oldest:
  assumes "dkeys c" "(k1, e1) \<in> set c" "fresh_entry cfg now e1" "k1 \<noteq> k"
    "map_of (cache_store cfg k now r c) k1 = None"
    "map_of (cache_store cfg k now r c) k2 = Some e2" "k2 \<noteq> k"
  shows "ce_last_accessed e1 \<le> ce_last_accessed e2"
proof (rule evict_lru_order)
  let ?f = "filter (\<lambda>(k, e). fresh_entry cfg now e) c"
  show "dkeys ?f" using assms(1) by simp
  show "(k1, e1) \<in> set ?f" using assms(2,3) by simp
  show "k1 \<notin> fst ` set (evict_lru (rc_max_entries cfg) ?f)"
    using assms(4,5) by (auto simp: cache_store_def Let_def map_of_eq_None_iff split: if_splits)
  show "(k2, e2) \<in> set (evict_lru (rc_max_entries cfg) ?f)"
    using assms(6,7) by (auto simp: cache_store_def Let_def dest: map_of_SomeD)
qed

definition entry_at :: "instant \<Rightarrow> cache_entry" where
  "entry_at t = \<lparr>ce_response = sample_response, ce_created_at = t, ce_last_accessed = t, ce_hit_count = 0\<rparr>"

theorem cache_evicts_oldest_witness:
  "ce_last_accessed (entry_at 1) \<le> ce_last_accessed (entry_at 2)"
  by (rule cache_evicts_oldest [of "[(''a'', entry_at 1), (''b'', entry_at 2)]" "''a''" "entry_at 1"
        "\<lparr>rc_ttl = 100, rc_max_entries = 2\<rparr>" 3 "''c''" sample_response "''b''" "entry_at 2"])
     (simp_all add: dkeys_def entry_at_def fresh_entry_def elapsed_since_def cache_store_def
       evict_lru.simps Let_def)

end
