(* ===== verification/Undo.thy ===== *)
theory Undo
  imports Llm_Types
begin

text \<open>
  The undo manager, \<open>src/agent/undo.rs\<close>: a bounded stack of past checkpoints and a stack
  of undone ones. Both are lists whose last element is the top. The locale \<open>undo_log\<close>
  states what a client (the thread operations) relies on; it is interpreted here on the
  manager.
\<close>

section \<open>Checkpoints and the manager\<close>

definition DEFAULT_MAX_CHECKPOINTS :: nat where
  "DEFAULT_MAX_CHECKPOINTS = 20"

record checkpoint =
  cp_id :: uuid
  cp_turn_number :: nat
  cp_messages :: "chat_message list"
  cp_description :: string

definition new_checkpoint :: "uuid \<Rightarrow> nat \<Rightarrow> chat_message list \<Rightarrow> string \<Rightarrow> checkpoint" where
  "new_checkpoint fresh t ms d =
     \<lparr>cp_id = fresh, cp_turn_number = t, cp_messages = ms, cp_description = d\<rparr>"

record undo_manager =
  um_undo_stack :: "checkpoint list"
  um_redo_stack :: "checkpoint list"
  um_max_checkpoints :: nat

definition new_undo_manager :: undo_manager where
  "new_undo_manager = \<lparr>um_undo_stack = [], um_redo_stack = [],
     um_max_checkpoints = DEFAULT_MAX_CHECKPOINTS\<rparr>"

definition with_max_checkpoints :: "nat \<Rightarrow> undo_manager \<Rightarrow> undo_manager" where
  "with_max_checkpoints n u = u\<lparr>um_max_checkpoints := n\<rparr>"

definition push_undo :: "checkpoint \<Rightarrow> undo_manager \<Rightarrow> undo_manager" where
  "push_undo c u = u\<lparr>um_undo_stack := last_n (um_max_checkpoints u) (um_undo_stack u @ [c])\<rparr>"

definition um_checkpoint ::
  "uuid \<Rightarrow> nat \<Rightarrow> chat_message list \<Rightarrow> string \<Rightarrow> undo_manager \<Rightarrow> undo_manager" where
  "um_checkpoint fresh t ms d u = push_undo (new_checkpoint fresh t ms d) (u\<lparr>um_redo_stack := []\<rparr>)"

definition pop_undo :: "undo_manager \<Rightarrow> checkpoint option \<times> undo_manager" where
  "pop_undo u = (if um_undo_stack u = [] then (None, u)
     else (Some (last (um_undo_stack u)), u\<lparr>um_undo_stack := butlast (um_undo_stack u)\<rparr>))"

definition turn_label :: "nat \<Rightarrow> string" where
  "turn_label t = ''Turn '' @ show_nat t"

definition um_undo ::
  "uuid \<Rightarrow> nat \<Rightarrow> chat_message list \<Rightarrow> undo_manager \<Rightarrow> checkpoint option \<times> undo_manager" where
  "um_undo fresh t ms u =
     (if um_undo_stack u = [] then (None, u)
      else pop_undo (u\<lparr>um_redo_stack := um_redo_stack u @ [new_checkpoint fresh t ms (turn_label t)]\<rparr>))"

definition um_redo ::
  "uuid \<Rightarrow> nat \<Rightarrow> chat_message list \<Rightarrow> undo_manager \<Rightarrow> checkpoint option \<times> undo_manager" where
  "um_redo fresh t ms u =
     (if um_redo_stack u = [] then (None, u)
      else let u' = push_undo (new_checkpoint fresh t ms (turn_label t)) u
           in (Some (last (um_redo_stack u')), u'\<lparr>um_redo_stack := butlast (um_redo_stack u')\<rparr>))"

definition can_undo :: "undo_manager \<Rightarrow> bool" where
  "can_undo u \<longleftrightarrow> um_undo_stack u \<noteq> []"

definition can_redo :: "undo_manager \<Rightarrow> bool" where
  "can_redo u \<longleftrightarrow> um_redo_stack u \<noteq> []"

definition undo_count :: "undo_manager \<Rightarrow> nat" where
  "undo_count u = length (um_undo_stack u)"

definition redo_count :: "undo_manager \<Rightarrow> nat" where
  "redo_count u = length (um_redo_stack u)"

definition get_checkpoint :: "uuid \<Rightarrow> undo_manager \<Rightarrow> checkpoint option" where
  "get_checkpoint i u = (case find (\<lambda>c. cp_id c = i) (um_undo_stack u) of
     Some c \<Rightarrow> Some c | None \<Rightarrow> find (\<lambda>c. cp_id c = i) (um_redo_stack u))"

definition um_clear :: "undo_manager \<Rightarrow> undo_manager" where
  "um_clear u = u\<lparr>um_undo_stack := [], um_redo_stack := []\<rparr>"

fun position :: "('a \<Rightarrow> bool) \<Rightarrow> 'a list \<Rightarrow> nat option" where
  "position P [] = None"
| "position P (x # xs) = (if P x then Some 0 else map_option Suc (position P xs))"

definition um_restore :: "uuid \<Rightarrow> undo_manager \<Rightarrow> checkpoint option \<times> undo_manager" where
  "um_restore i u =
     (case position (\<lambda>c. cp_id c = i) (um_undo_stack u) of
        None \<Rightarrow> (None, u)
      | Some pos \<Rightarrow> pop_undo (u\<lparr>um_redo_stack := [], um_undo_stack := take (pos + 1) (um_undo_stack u)\<rparr>))"

section \<open>Invariant\<close>

definition undo_inv :: "undo_manager \<Rightarrow> bool" where
  "undo_inv u \<longleftrightarrow> undo_count u + redo_count u \<le> um_max_checkpoints u"

lemmas undo_ops = um_checkpoint_def push_undo_def pop_undo_def um_undo_def um_redo_def
  um_clear_def um_restore_def undo_count_def redo_count_def new_checkpoint_def Let_def

lemma new_undo_manager_inv [simp]: "undo_inv new_undo_manager"
  by (simp add: undo_inv_def new_undo_manager_def undo_count_def redo_count_def)

lemma um_checkpoint_inv [keeps]: "undo_inv (um_checkpoint i t ms d u)"
  by (auto simp: undo_inv_def undo_ops)

lemma um_undo_inv [keeps]: "undo_inv u \<Longrightarrow> undo_inv (snd (um_undo i t ms u))"
  by (cases "um_undo_stack u" rule: rev_cases) (auto simp: undo_inv_def undo_ops)

lemma um_redo_inv [keeps]: "undo_inv u \<Longrightarrow> undo_inv (snd (um_redo i t ms u))"
  by (cases "um_redo_stack u" rule: rev_cases) (auto simp: undo_inv_def undo_ops)

lemma um_clear_inv [keeps]: "undo_inv (um_clear u)"
  by (simp add: undo_inv_def undo_ops)

lemma um_restore_inv [keeps]: "undo_inv u \<Longrightarrow> undo_inv (snd (um_restore i u))"
  by (auto simp: undo_inv_def undo_ops split: option.splits)

lemma undo_total:
  "undo_count (snd (um_undo i t ms u)) + redo_count (snd (um_undo i t ms u)) = undo_count u + redo_count u"
  by (cases "um_undo_stack u" rule: rev_cases) (auto simp: undo_ops)

lemma redo_total:
  "undo_inv u \<Longrightarrow>
   undo_count (snd (um_redo i t ms u)) + redo_count (snd (um_redo i t ms u)) = undo_count u + redo_count u"
  by (cases "um_redo_stack u" rule: rev_cases) (auto simp: undo_inv_def undo_ops)

datatype undo_event =
    Un_checkpoint uuid nat "chat_message list" string
  | Un_undo uuid nat "chat_message list"
  | Un_redo uuid nat "chat_message list"
  | Un_pop
  | Un_restore uuid
  | Un_clear

fun undo_step :: "undo_manager \<Rightarrow> undo_event \<Rightarrow> undo_manager" where
  "undo_step u (Un_checkpoint i t ms d) = um_checkpoint i t ms d u"
| "undo_step u (Un_undo i t ms) = snd (um_undo i t ms u)"
| "undo_step u (Un_redo i t ms) = snd (um_redo i t ms u)"
| "undo_step u Un_pop = snd (pop_undo u)"
| "undo_step u (Un_restore i) = snd (um_restore i u)"
| "undo_step u Un_clear = um_clear u"

lemma pop_undo_inv [keeps]: "undo_inv u \<Longrightarrow> undo_inv (snd (pop_undo u))"
  by (auto simp: undo_inv_def undo_ops)

lemma undo_step_inv: "undo_inv u \<Longrightarrow> undo_inv (undo_step u e)"
  by (cases e) (simp_all add: keeps)

lemma um_max_kept [simp]: "um_max_checkpoints (undo_step u e) = um_max_checkpoints u"
  by (cases e) (auto simp: undo_ops split: option.splits)

interpretation undo_run: conserving_system undo_step undo_inv um_max_checkpoints
  by unfold_locales (simp_all add: undo_step_inv)

text \<open>Undos and redos alone also conserve the number of checkpoints.\<close>

datatype walk_event = Wk_undo uuid nat "chat_message list" | Wk_redo uuid nat "chat_message list"

fun walk_step :: "undo_manager \<Rightarrow> walk_event \<Rightarrow> undo_manager" where
  "walk_step u (Wk_undo i t ms) = snd (um_undo i t ms u)"
| "walk_step u (Wk_redo i t ms) = snd (um_redo i t ms u)"

interpretation undo_walk: conserving_system walk_step undo_inv "\<lambda>u. undo_count u + redo_count u"
proof unfold_locales
  fix u e assume u: "undo_inv u"
  show "undo_inv (walk_step u e)" using u by (cases e) (simp_all add: keeps)
  show "undo_count (walk_step u e) + redo_count (walk_step u e) = undo_count u + redo_count u"
    using u by (cases e) (simp_all add: undo_total redo_total)
qed

section \<open>The interface\<close>

text \<open>
  A log of snapshots as its clients see it: \<open>past\<close> and \<open>future\<close> are the snapshots an undo
  or a redo would reach, nearest first. An undo gives back the nearest past snapshot and
  remembers the present one as the nearest future, and the other way round.
\<close>

locale undo_log =
  fixes log_inv :: "'u \<Rightarrow> bool"
    and past :: "'u \<Rightarrow> 'm list"
    and future :: "'u \<Rightarrow> 'm list"
    and undo :: "'m \<Rightarrow> 'u \<Rightarrow> 'm option \<times> 'u"
    and redo :: "'m \<Rightarrow> 'u \<Rightarrow> 'm option \<times> 'u"
  assumes undo_none: "log_inv u \<Longrightarrow> past u = [] \<Longrightarrow> undo m u = (None, u)"
    and undo_some: "log_inv u \<Longrightarrow> past u = x # xs \<Longrightarrow>
        \<exists>u'. undo m u = (Some x, u') \<and> log_inv u' \<and> past u' = xs \<and> future u' = m # future u"
    and redo_none: "log_inv u \<Longrightarrow> future u = [] \<Longrightarrow> redo m u = (None, u)"
    and redo_some: "log_inv u \<Longrightarrow> future u = x # xs \<Longrightarrow>
        \<exists>u'. redo m u = (Some x, u') \<and> log_inv u' \<and> future u' = xs \<and> past u' = m # past u"
begin

text \<open>A client that always passes its current snapshot, and adopts what it is given.\<close>

definition go_back :: "'m \<times> 'u \<Rightarrow> 'm \<times> 'u" where
  "go_back s = (case undo (fst s) (snd s) of (Some x, u') \<Rightarrow> (x, u') | (None, u') \<Rightarrow> (fst s, u'))"

definition go_forth :: "'m \<times> 'u \<Rightarrow> 'm \<times> 'u" where
  "go_forth s = (case redo (fst s) (snd s) of (Some x, u') \<Rightarrow> (x, u') | (None, u') \<Rightarrow> (fst s, u'))"

definition timeline :: "'m \<times> 'u \<Rightarrow> 'm list \<times> 'm \<times> 'm list" where
  "timeline s = (past (snd s), fst s, future (snd s))"

lemma go_back_timeline:
  "log_inv (snd s) \<Longrightarrow> log_inv (snd (go_back s)) \<and> timeline (go_back s) =
     (case past (snd s) of [] \<Rightarrow> timeline s
      | x # xs \<Rightarrow> (xs, x, fst s # future (snd s)))"
  using undo_none [of "snd s" "fst s"] undo_some [of "snd s" _ _ "fst s"]
  by (cases "past (snd s)") (fastforce simp: go_back_def timeline_def)+

lemma go_forth_timeline:
  "log_inv (snd s) \<Longrightarrow> log_inv (snd (go_forth s)) \<and> timeline (go_forth s) =
     (case future (snd s) of [] \<Rightarrow> timeline s
      | x # xs \<Rightarrow> (fst s # past (snd s), x, xs))"
  using redo_none [of "snd s" "fst s"] redo_some [of "snd s" _ _ "fst s"]
  by (cases "future (snd s)") (fastforce simp: go_forth_def timeline_def)+

lemma back_forth:
  assumes "log_inv (snd s)" "k \<le> length (past (snd s))"
  shows "log_inv (snd ((go_forth ^^ k) ((go_back ^^ k) s)))
    \<and> timeline ((go_forth ^^ k) ((go_back ^^ k) s)) = timeline s"
  using assms
proof (induction k arbitrary: s)
  case (Suc k)
  then obtain x xs where p: "past (snd s) = x # xs" by (cases "past (snd s)") auto
  let ?b = "go_back s"
  have b: "log_inv (snd ?b)" "timeline ?b = (xs, x, fst s # future (snd s))"
    using go_back_timeline [OF Suc.prems(1)] p by simp_all
  have "log_inv (snd ((go_forth ^^ k) ((go_back ^^ k) ?b)))
      \<and> timeline ((go_forth ^^ k) ((go_back ^^ k) ?b)) = timeline ?b"
    using Suc.IH [of ?b] b Suc.prems(2) p by (simp add: timeline_def)
  moreover have "(go_forth ^^ Suc k) ((go_back ^^ Suc k) s) = go_forth ((go_forth ^^ k) ((go_back ^^ k) ?b))"
    by (simp add: funpow_swap1)
  ultimately show ?case
    using go_forth_timeline [of "(go_forth ^^ k) ((go_back ^^ k) ?b)"] b p
    by (auto simp: timeline_def)
qed simp

end

section \<open>The manager provides the interface\<close>

text \<open>A snapshot is the pair of turn number and messages; new identifiers are all \<open>fresh\<close>.\<close>

definition snapshot :: "checkpoint \<Rightarrow> nat \<times> chat_message list" where
  "snapshot c = (cp_turn_number c, cp_messages c)"

definition undo_snapshot ::
  "uuid \<Rightarrow> nat \<times> chat_message list \<Rightarrow> undo_manager \<Rightarrow> (nat \<times> chat_message list) option \<times> undo_manager" where
  "undo_snapshot fresh m u = (case um_undo fresh (fst m) (snd m) u of (c, u') \<Rightarrow> (map_option snapshot c, u'))"

definition redo_snapshot ::
  "uuid \<Rightarrow> nat \<times> chat_message list \<Rightarrow> undo_manager \<Rightarrow> (nat \<times> chat_message list) option \<times> undo_manager" where
  "redo_snapshot fresh m u = (case um_redo fresh (fst m) (snd m) u of (c, u') \<Rightarrow> (map_option snapshot c, u'))"

definition past_of :: "undo_manager \<Rightarrow> (nat \<times> chat_message list) list" where
  "past_of u = map snapshot (rev (um_undo_stack u))"

definition future_of :: "undo_manager \<Rightarrow> (nat \<times> chat_message list) list" where
  "future_of u = map snapshot (rev (um_redo_stack u))"

interpretation manager_log: undo_log undo_inv past_of future_of
  "undo_snapshot fresh" "redo_snapshot fresh" for fresh :: uuid
proof unfold_locales
  fix u :: undo_manager and m x :: "nat \<times> chat_message list" and xs
  assume inv: "undo_inv u"
  show "past_of u = [] \<Longrightarrow> undo_snapshot fresh m u = (None, u)"
    by (simp add: undo_snapshot_def um_undo_def past_of_def)
  show "future_of u = [] \<Longrightarrow> redo_snapshot fresh m u = (None, u)"
    by (simp add: redo_snapshot_def um_redo_def future_of_def)
  show "\<exists>u'. undo_snapshot fresh m u = (Some x, u') \<and> undo_inv u' \<and> past_of u' = xs
      \<and> future_of u' = m # future_of u" if "past_of u = x # xs"
    using that inv
    by (cases "um_undo_stack u" rule: rev_cases)
       (auto simp: undo_snapshot_def past_of_def future_of_def undo_ops snapshot_def undo_inv_def)
  show "\<exists>u'. redo_snapshot fresh m u = (Some x, u') \<and> undo_inv u' \<and> future_of u' = xs
      \<and> past_of u' = m # past_of u" if "future_of u = x # xs"
    using that inv
    by (cases "um_redo_stack u" rule: rev_cases)
       (auto simp: redo_snapshot_def past_of_def future_of_def undo_ops snapshot_def undo_inv_def)
qed

text \<open>The client of the interface, written out on the manager.\<close>

definition client_undo ::
  "uuid \<Rightarrow> (nat \<times> chat_message list) \<times> undo_manager \<Rightarrow> (nat \<times> chat_message list) \<times> undo_manager" where
  "client_undo fresh s = (case um_undo fresh (fst (fst s)) (snd (fst s)) (snd s) of
     (Some c, u') \<Rightarrow> (snapshot c, u') | (None, u') \<Rightarrow> (fst s, u'))"

definition client_redo ::
  "uuid \<Rightarrow> (nat \<times> chat_message list) \<times> undo_manager \<Rightarrow> (nat \<times> chat_message list) \<times> undo_manager" where
  "client_redo fresh s = (case um_redo fresh (fst (fst s)) (snd (fst s)) (snd s) of
     (Some c, u') \<Rightarrow> (snapshot c, u') | (None, u') \<Rightarrow> (fst s, u'))"

lemma client_undo_go_back: "client_undo fresh = manager_log.go_back fresh"
  by (rule ext) (auto simp: client_undo_def manager_log.go_back_def undo_snapshot_def
      split: prod.splits option.splits)

lemma client_redo_go_forth: "client_redo fresh = manager_log.go_forth fresh"
  by (rule ext) (auto simp: client_redo_def manager_log.go_forth_def redo_snapshot_def
      split: prod.splits option.splits)

section \<open>Properties\<close>

text \<open>From a new manager, whatever operations are run, undo and redo stacks together hold at
  most the configured number of checkpoints, and from there undos and redos conserve their
  total number, however they are mixed.\<close>

theorem undo_redo_conserved:
  "undo_inv (foldl undo_step new_undo_manager es)
   \<and> undo_count (foldl undo_step new_undo_manager es) + redo_count (foldl undo_step new_undo_manager es)
       \<le> DEFAULT_MAX_CHECKPOINTS
   \<and> undo_count (foldl walk_step (foldl undo_step new_undo_manager es) ws)
       + redo_count (foldl walk_step (foldl undo_step new_undo_manager es) ws)
     = undo_count (foldl undo_step new_undo_manager es) + redo_count (foldl undo_step new_undo_manager es)"
proof -
  have inv: "undo_inv (foldl undo_step new_undo_manager es)"
    by (rule undo_run.run_inv) simp
  moreover have "um_max_checkpoints (foldl undo_step new_undo_manager es) = DEFAULT_MAX_CHECKPOINTS"
    using undo_run.run_quantity [OF new_undo_manager_inv, of es] by (simp add: new_undo_manager_def)
  ultimately show ?thesis
    using undo_walk.run_quantity [OF inv, of ws] by (simp add: undo_inv_def)
qed

text \<open>Undoing \<open>k\<close> times and redoing \<open>k\<close> times, each time with the state just restored,
  gives back the messages and the turn number from before, and the same reachable past and
  future.\<close>

theorem undo_redo_roundtrip:
  assumes "undo_inv u" "k \<le> undo_count u"
  shows "case (client_redo fresh ^^ k) ((client_undo fresh ^^ k) (m, u)) of
     (m', u') \<Rightarrow> m' = m \<and> past_of u' = past_of u \<and> future_of u' = future_of u"
  using manager_log.back_forth [of "(m, u)" k fresh] assms
  by (auto simp: client_undo_go_back client_redo_go_forth manager_log.timeline_def past_of_def
      undo_count_def split: prod.splits)

theorem undo_redo_roundtrip_witness:
  "case (client_redo 9 ^^ 1) ((client_undo 9 ^^ 1)
      ((2, [msg_user ''b'']), um_checkpoint 1 1 [msg_user ''a''] ''d'' new_undo_manager)) of
     (m', u') \<Rightarrow> m' = (2, [msg_user ''b''])
       \<and> past_of u' = past_of (um_checkpoint 1 1 [msg_user ''a''] ''d'' new_undo_manager)
       \<and> future_of u' = future_of (um_checkpoint 1 1 [msg_user ''a''] ''d'' new_undo_manager)"
  by (rule undo_redo_roundtrip)
     (simp_all add: undo_inv_def undo_ops new_undo_manager_def DEFAULT_MAX_CHECKPOINTS_def)

end
