(* ===== verification/Rate_Limiter.thy ===== *)
theory Rate_Limiter
  imports Rust_Strings
begin

text \<open>
  The rate limiter of the WASM tools, \<open>src/tools/wasm/rate_limiter.rs\<close>, with the
  configuration of \<open>src/tools/wasm/capabilities.rs\<close>. The readings of the clock inside one
  critical section are one argument \<open>now\<close>. The counters are below their \<open>u32\<close> limits
  whenever they are incremented, so they are natural numbers.
\<close>

section \<open>Configuration and windows\<close>

record rate_limit_config =
  requests_per_minute :: nat
  requests_per_hour :: nat

definition default_rate_limit :: rate_limit_config where
  "default_rate_limit = \<lparr>requests_per_minute = 60, requests_per_hour = 1000\<rparr>"

definition restrictive_rate_limit :: rate_limit_config where
  "restrictive_rate_limit = \<lparr>requests_per_minute = 10, requests_per_hour = 100\<rparr>"

definition permissive_rate_limit :: rate_limit_config where
  "permissive_rate_limit = \<lparr>requests_per_minute = 120, requests_per_hour = 5000\<rparr>"

datatype limit_type = PerMinute | PerHour

fun show_limit_type :: "limit_type \<Rightarrow> string" where
  "show_limit_type PerMinute = ''per-minute''"
| "show_limit_type PerHour = ''per-hour''"

datatype rate_limit_result = Allowed nat nat | Limited duration limit_type

definition is_allowed :: "rate_limit_result \<Rightarrow> bool" where
  "is_allowed r = (case r of Allowed _ _ \<Rightarrow> True | Limited _ _ \<Rightarrow> False)"

record window_state =
  window_start :: instant
  window_count :: nat

definition new_window :: "instant \<Rightarrow> window_state" where
  "new_window now = \<lparr>window_start = now, window_count = 0\<rparr>"

definition maybe_reset :: "duration \<Rightarrow> instant \<Rightarrow> window_state \<Rightarrow> window_state" where
  "maybe_reset d now w =
     (if elapsed_since (window_start w) now \<ge> d then \<lparr>window_start = now, window_count = 0\<rparr> else w)"

definition time_until_reset :: "duration \<Rightarrow> instant \<Rightarrow> window_state \<Rightarrow> duration" where
  "time_until_reset d now w =
     (let e = elapsed_since (window_start w) now in if e \<ge> d then 0 else d - e)"

record tool_rate_state =
  minute_window :: window_state
  hour_window :: window_state

definition new_tool_rate_state :: "instant \<Rightarrow> tool_rate_state" where
  "new_tool_rate_state now = \<lparr>minute_window = new_window now, hour_window = new_window now\<rparr>"

abbreviation minute :: duration where "minute \<equiv> 60000000000"
abbreviation hour :: duration where "hour \<equiv> 3600000000000"

section \<open>Operations\<close>

type_synonym tool_key = "string \<times> string"
type_synonym rate_limiter = "tool_key \<rightharpoonup> tool_rate_state"

text \<open>The entry of the key, created when absent, with both windows reset when expired.\<close>

definition current_windows :: "tool_key \<Rightarrow> instant \<Rightarrow> rate_limiter \<Rightarrow> tool_rate_state" where
  "current_windows k now s =
     (let t = (case s k of Some t \<Rightarrow> t | None \<Rightarrow> new_tool_rate_state now)
      in \<lparr>minute_window = maybe_reset minute now (minute_window t),
          hour_window = maybe_reset hour now (hour_window t)\<rparr>)"

definition check_and_record ::
  "tool_key \<Rightarrow> rate_limit_config \<Rightarrow> instant \<Rightarrow> rate_limiter \<Rightarrow> rate_limit_result \<times> rate_limiter" where
  "check_and_record k cfg now s =
     (let t = current_windows k now s in
      if window_count (minute_window t) \<ge> requests_per_minute cfg
      then (Limited (time_until_reset minute now (minute_window t)) PerMinute, s(k \<mapsto> t))
      else if window_count (hour_window t) \<ge> requests_per_hour cfg
      then (Limited (time_until_reset hour now (hour_window t)) PerHour, s(k \<mapsto> t))
      else
        let m = window_count (minute_window t) + 1; h = window_count (hour_window t) + 1;
            t' = \<lparr>minute_window = (minute_window t)\<lparr>window_count := m\<rparr>,
                  hour_window = (hour_window t)\<lparr>window_count := h\<rparr>\<rparr>
        in (Allowed (requests_per_minute cfg - m) (requests_per_hour cfg - h), s(k \<mapsto> t')))"

definition check_limit ::
  "tool_key \<Rightarrow> rate_limit_config \<Rightarrow> instant \<Rightarrow> rate_limiter \<Rightarrow> rate_limit_result \<times> rate_limiter" where
  "check_limit k cfg now s =
     (let t = current_windows k now s in
      if window_count (minute_window t) \<ge> requests_per_minute cfg
      then (Limited (time_until_reset minute now (minute_window t)) PerMinute, s(k \<mapsto> t))
      else if window_count (hour_window t) \<ge> requests_per_hour cfg
      then (Limited (time_until_reset hour now (hour_window t)) PerHour, s(k \<mapsto> t))
      else (Allowed (requests_per_minute cfg - window_count (minute_window t))
                    (requests_per_hour cfg - window_count (hour_window t)), s(k \<mapsto> t)))"

definition get_usage :: "tool_key \<Rightarrow> rate_limiter \<Rightarrow> (nat \<times> nat) option" where
  "get_usage k s =
     map_option (\<lambda>t. (window_count (minute_window t), window_count (hour_window t))) (s k)"

definition clear_limit :: "tool_key \<Rightarrow> rate_limiter \<Rightarrow> rate_limiter" where
  "clear_limit k s = s(k := None)"

definition clear_all_limits :: "rate_limiter \<Rightarrow> rate_limiter" where
  "clear_all_limits s = Map.empty"

text \<open>\<open>From<RateLimitResult> for Result<(), RateLimitError>\<close>\<close>

definition to_rate_error :: "rate_limit_result \<Rightarrow> (duration \<times> limit_type, unit) result" where
  "to_rate_error r = (case r of Allowed _ _ \<Rightarrow> Inr () | Limited d t \<Rightarrow> Inl (d, t))"

section \<open>One window and its history\<close>

text \<open>
  A window of length \<open>d\<close> and limit \<open>l\<close>, with the times at which requests were recorded.
  Recorded times since the start of the window are what it counts, those in the \<open>d\<close> before
  its start were all counted by the window before, and no interval of length \<open>d\<close> holds
  more than \<open>2 * l\<close>.
\<close>

definition between :: "instant \<Rightarrow> instant \<Rightarrow> instant list \<Rightarrow> nat" where
  "between a b ts = length (filter (\<lambda>t. a \<le> t \<and> t < b) ts)"

definition window_log :: "duration \<Rightarrow> nat \<Rightarrow> instant list \<Rightarrow> instant \<Rightarrow> window_state \<Rightarrow> bool" where
  "window_log d l ts now w \<longleftrightarrow>
     (\<forall>t \<in> set ts. t \<le> now \<and> t < window_start w + int d) \<and> window_start w \<le> now
   \<and> window_count w \<le> l
   \<and> window_count w = length (filter (\<lambda>t. window_start w \<le> t) ts)
   \<and> between (window_start w - int d) (window_start w) ts \<le> l
   \<and> (\<forall>x. between x (x + int d) ts \<le> 2 * l)"

lemma length_filter_mono:
  "(\<And>x. x \<in> set xs \<Longrightarrow> P x \<Longrightarrow> Q x) \<Longrightarrow> length (filter P xs) \<le> length (filter Q xs)"
  by (induction xs) (auto intro: le_SucI)

lemma between_snoc: "between a b (ts @ [t]) = between a b ts + (if a \<le> t \<and> t < b then 1 else 0)"
  by (simp add: between_def)

lemma between_le_since: "c \<le> a \<Longrightarrow> between a b ts \<le> length (filter (\<lambda>t. c \<le> t) ts)"
  unfolding between_def by (rule length_filter_mono) auto

lemma between_split:
  "a' \<le> a \<Longrightarrow> between a b ts \<le> between a' c ts + length (filter (\<lambda>t. c \<le> t) ts)"
  by (induction ts) (auto simp: between_def)

lemma window_log_new: "0 < d \<Longrightarrow> window_log d l [] now (new_window now)"
  by (simp add: window_log_def new_window_def between_def)

lemma window_log_later: "window_log d l ts t w \<Longrightarrow> t \<le> now \<Longrightarrow> window_log d l ts now w"
  by (fastforce simp: window_log_def)

lemma window_log_reset:
  assumes "window_log d l ts now w" "0 < d"
  shows "window_log d l ts now (maybe_reset d now w) \<and> now < window_start (maybe_reset d now w) + int d"
proof (cases "elapsed_since (window_start w) now \<ge> d")
  case True
  then have far: "window_start w + int d \<le> now"
    using assms(2) by (simp add: elapsed_ge)
  then have "filter (\<lambda>t. now \<le> t) ts = []"
    using assms(1) by (fastforce simp: window_log_def filter_empty_conv)
  moreover have "between (now - int d) now ts \<le> l"
    using between_le_since [of "window_start w" "now - int d" now ts] far assms(1)
    by (simp add: window_log_def)
  ultimately show ?thesis
    using True far assms by (fastforce simp: window_log_def maybe_reset_def)
next
  case False
  then have "now < window_start w + int d"
    using assms(2) by (simp add: elapsed_ge)
  with False assms show ?thesis by (simp add: maybe_reset_def)
qed

lemma window_log_record:
  assumes log: "window_log d l ts now w" and now: "now < window_start w + int d"
    and room: "window_count w < l"
  shows "window_log d l (ts @ [now]) now (w\<lparr>window_count := Suc (window_count w)\<rparr>)"
proof -
  have "between x (x + int d) (ts @ [now]) \<le> 2 * l" for x
  proof (cases "x \<le> now \<and> now < x + int d")
    case True
    then have "window_start w - int d \<le> x"
      using log by (auto simp: window_log_def)
    then have "between x (x + int d) ts \<le> l + window_count w"
      using between_split [of "window_start w - int d" x "x + int d" ts "window_start w"] log
      by (simp add: window_log_def)
    with room show ?thesis by (simp add: between_snoc)
  next
    case False
    then show ?thesis using log by (auto simp: between_snoc window_log_def)
  qed
  then show ?thesis
    using log now room by (auto simp: window_log_def between_snoc)
qed

section \<open>Runs of requests\<close>

definition rl_step ::
  "(tool_key \<Rightarrow> rate_limit_config) \<Rightarrow> (tool_key \<times> instant) list \<times> rate_limiter \<Rightarrow> tool_key \<times> instant
     \<Rightarrow> (tool_key \<times> instant) list \<times> rate_limiter" where
  "rl_step cfgs st ev =
     (case check_and_record (fst ev) (cfgs (fst ev)) (snd ev) (snd st) of
        (r, s') \<Rightarrow> (if is_allowed r then fst st @ [ev] else fst st, s'))"

definition allowed_requests ::
  "(tool_key \<Rightarrow> rate_limit_config) \<Rightarrow> (tool_key \<times> instant) list \<Rightarrow> (tool_key \<times> instant) list" where
  "allowed_requests cfgs evs = fst (foldl (rl_step cfgs) ([], Map.empty) evs)"

definition times_of :: "tool_key \<Rightarrow> (tool_key \<times> instant) list \<Rightarrow> instant list" where
  "times_of k evs = map snd (filter (\<lambda>e. fst e = k) evs)"

lemma times_of_snoc: "times_of k (evs @ [e]) = times_of k evs @ (if fst e = k then [snd e] else [])"
  by (simp add: times_of_def)

definition key_log ::
  "rate_limit_config \<Rightarrow> instant list \<Rightarrow> instant \<Rightarrow> tool_rate_state option \<Rightarrow> bool" where
  "key_log cfg ts now st = (case st of
     None \<Rightarrow> ts = []
   | Some t \<Rightarrow> window_log minute (requests_per_minute cfg) ts now (minute_window t)
       \<and> window_log hour (requests_per_hour cfg) ts now (hour_window t))"

lemma key_log_later: "key_log cfg ts t st \<Longrightarrow> t \<le> now \<Longrightarrow> key_log cfg ts now st"
  by (auto simp: key_log_def intro: window_log_later split: option.splits)

lemma current_windows_log:
  assumes "key_log cfg ts now (s k)"
  shows "key_log cfg ts now (Some (current_windows k now s))
    \<and> now < window_start (minute_window (current_windows k now s)) + int minute
    \<and> now < window_start (hour_window (current_windows k now s)) + int hour"
proof -
  obtain t where t: "t = (case s k of Some t \<Rightarrow> t | None \<Rightarrow> new_tool_rate_state now)" by simp
  have "key_log cfg ts now (Some t)"
    using assms by (auto simp: t key_log_def new_tool_rate_state_def window_log_new split: option.splits)
  then show ?thesis
    using window_log_reset [of minute "requests_per_minute cfg" ts now "minute_window t"]
      window_log_reset [of hour "requests_per_hour cfg" ts now "hour_window t"]
    by (simp add: current_windows_def t [symmetric] key_log_def)
qed

lemma check_and_record_log:
  assumes "key_log cfg ts now (s k)" "check_and_record k cfg now s = (r, s')"
  shows "key_log cfg (if is_allowed r then ts @ [now] else ts) now (s' k)"
  using assms(2) current_windows_log [of cfg ts now s k, OF assms(1)]
  by (auto simp: check_and_record_def Let_def is_allowed_def key_log_def not_le
      intro: window_log_record [of minute, simplified] window_log_record [of hour, simplified]
      split: if_splits)

lemma check_and_record_other: "k' \<noteq> k \<Longrightarrow> snd (check_and_record k cfg now s) k' = s k'"
  by (auto simp: check_and_record_def Let_def)

lemma rl_run_log:
  "sorted (map snd evs) \<Longrightarrow>
     key_log (cfgs k) (times_of k (allowed_requests cfgs evs)) (if evs = [] then 0 else snd (last evs))
       (snd (foldl (rl_step cfgs) ([], Map.empty) evs) k)"
proof (induction evs rule: rev_induct)
  case Nil
  then show ?case by (simp add: key_log_def allowed_requests_def times_of_def)
next
  case (snoc e evs)
  obtain al s where run: "foldl (rl_step cfgs) ([], Map.empty) evs = (al, s)"
    by (cases "foldl (rl_step cfgs) ([], Map.empty) evs")
  obtain r s' where c: "check_and_record (fst e) (cfgs (fst e)) (snd e) s = (r, s')"
    by (cases "check_and_record (fst e) (cfgs (fst e)) (snd e) s")
  have al: "allowed_requests cfgs evs = al" by (simp add: allowed_requests_def run)
  have before: "key_log (cfgs k) (times_of k al) (snd e) (s k)"
  proof (cases "evs = []")
    case True
    with run have "al = []" "s = Map.empty" by auto
    then show ?thesis by (simp add: key_log_def times_of_def)
  next
    case False
    then have "snd (last evs) \<le> snd e"
      using snoc.prems by (auto simp: sorted_append)
    with False snoc.IH snoc.prems show ?thesis
      by (auto simp: al run sorted_append intro: key_log_later)
  qed
  have step: "foldl (rl_step cfgs) ([], Map.empty) (evs @ [e]) = (if is_allowed r then al @ [e] else al, s')"
    by (simp add: run rl_step_def c)
  have "key_log (cfgs k) (times_of k (if is_allowed r then al @ [e] else al)) (snd e) (s' k)"
  proof (cases "fst e = k")
    case True
    have "key_log (cfgs k) (if is_allowed r then times_of k al @ [snd e] else times_of k al) (snd e) (s' k)"
      using before c True by (intro check_and_record_log) simp_all
    with True show ?thesis by (simp add: times_of_snoc split: if_splits)
  next
    case False
    then have "s' k = s k"
      using check_and_record_other [of k "fst e" "cfgs (fst e)" "snd e" s] c by simp
    with False before show ?thesis by (simp add: times_of_snoc)
  qed
  then show ?case unfolding allowed_requests_def step by simp
qed

section \<open>Properties\<close>

text \<open>However the requests of all tools are mixed, a tool is allowed at most twice its
  minute limit in any interval of a minute and twice its hour limit in any interval of an
  hour (the windows are fixed ones that start with the first request after an expiry, so
  the factor two is reached across a boundary).\<close>

theorem rate_limit_enforced:
  assumes "sorted (map snd evs)"
  shows "between x (x + int minute) (times_of k (allowed_requests cfgs evs)) \<le> 2 * requests_per_minute (cfgs k)
       \<and> between x (x + int hour) (times_of k (allowed_requests cfgs evs)) \<le> 2 * requests_per_hour (cfgs k)"
proof (cases "snd (foldl (rl_step cfgs) ([], Map.empty) evs) k")
  case None
  then show ?thesis
    using rl_run_log [OF assms, of cfgs k] by (simp add: key_log_def between_def)
next
  case (Some t)
  then show ?thesis
    using rl_run_log [OF assms, of cfgs k] by (simp add: key_log_def window_log_def)
qed

theorem rate_limit_enforced_witness:
  "between 0 (0 + int minute) (times_of (''u'', ''t'') (allowed_requests (\<lambda>_. restrictive_rate_limit)
     [((''u'', ''t''), 5), ((''v'', ''t''), 6), ((''u'', ''t''), 7)])) \<le> 2 * requests_per_minute restrictive_rate_limit"
  using rate_limit_enforced [of "[((''u'', ''t''), 5), ((''v'', ''t''), 6), ((''u'', ''t''), 7)]" 0
      "(''u'', ''t'')" "\<lambda>_. restrictive_rate_limit"] by simp

text \<open>The doc calls the limiter a sliding window, but the windows are fixed: with a limit of
  three requests per minute, a tool that made one request a minute ago gets five more
  allowed within an eighth of a second around the start of a new window.\<close>

theorem rate_limit_not_sliding:
  "allowed_requests (\<lambda>_. \<lparr>requests_per_minute = 3, requests_per_hour = 100\<rparr>)
     [(k, 0), (k, 59900000000), (k, 59950000000), (k, 60000000000), (k, 60010000000), (k, 60020000000)]
   = [(k, 0), (k, 59900000000), (k, 59950000000), (k, 60000000000), (k, 60010000000), (k, 60020000000)]"
  by (simp add: allowed_requests_def rl_step_def check_and_record_def current_windows_def
      maybe_reset_def new_tool_rate_state_def new_window_def is_allowed_def elapsed_since_def Let_def)

text \<open>A request is allowed exactly when both current windows have room; then it is counted
  in both and the numbers reported as remaining complete the counts to the limits. A check
  without recording gives the same verdict and counts nothing. Other tools and users are not
  affected.\<close>

theorem check_and_record_exact:
  "let t = current_windows k now s; (r, s') = check_and_record k cfg now s in
     is_allowed r = (window_count (minute_window t) < requests_per_minute cfg
                     \<and> window_count (hour_window t) < requests_per_hour cfg)
   \<and> is_allowed (fst (check_limit k cfg now s)) = is_allowed r
   \<and> snd (check_limit k cfg now s) = s(k \<mapsto> t)
   \<and> (case r of
        Allowed m h \<Rightarrow> get_usage k s' = Some (requests_per_minute cfg - m, requests_per_hour cfg - h)
          \<and> get_usage k s' = Some (window_count (minute_window t) + 1, window_count (hour_window t) + 1)
      | Limited d lt \<Rightarrow> get_usage k s' = Some (window_count (minute_window t), window_count (hour_window t))
          \<and> d \<le> (case lt of PerMinute \<Rightarrow> minute | PerHour \<Rightarrow> hour))
   \<and> s' = s(k := s' k)"
  by (auto simp: check_and_record_def check_limit_def get_usage_def is_allowed_def Let_def
      time_until_reset_def)

end
