(* ===== verification/Session.thy ===== *)
theory Session
  imports Llm_Types
begin

text \<open>
  Sessions, threads and turns, \<open>src/agent/session.rs\<close>. The \<open>HashMap\<close> of threads is an
  association list, since an approval is searched over all threads. The clock reading of
  an operation is its argument \<open>now\<close>, a new identifier \<open>fresh\<close>. A Rust panic of an
  operation is the result \<open>None\<close>.
\<close>

section \<open>Turns\<close>

datatype turn_state = Turn_Processing | Turn_Completed | Turn_Failed | Turn_Interrupted

record turn_tool_call =
  tt_name :: string
  tt_parameters :: json
  tt_result :: "json option"
  tt_error :: "string option"

record turn =
  turn_number :: nat
  user_input :: string
  response :: "string option"
  turn_tool_calls :: "turn_tool_call list"
  turn_state :: turn_state
  turn_started_at :: instant
  turn_completed_at :: "instant option"
  turn_error :: "string option"

definition new_turn :: "instant \<Rightarrow> nat \<Rightarrow> string \<Rightarrow> turn" where
  "new_turn now n inp =
     \<lparr>turn_number = n, user_input = inp, response = None, turn_tool_calls = [],
      turn_state = Turn_Processing, turn_started_at = now, turn_completed_at = None,
      turn_error = None\<rparr>"

definition turn_complete :: "instant \<Rightarrow> string \<Rightarrow> turn \<Rightarrow> turn" where
  "turn_complete now r t = t\<lparr>response := Some r, turn_state := Turn_Completed, turn_completed_at := Some now\<rparr>"

definition turn_fail :: "instant \<Rightarrow> string \<Rightarrow> turn \<Rightarrow> turn" where
  "turn_fail now e t = t\<lparr>turn_error := Some e, turn_state := Turn_Failed, turn_completed_at := Some now\<rparr>"

definition turn_interrupt :: "instant \<Rightarrow> turn \<Rightarrow> turn" where
  "turn_interrupt now t = t\<lparr>turn_state := Turn_Interrupted, turn_completed_at := Some now\<rparr>"

text \<open>\<open>last_mut\<close>: an update of the last element, when there is one.\<close>

definition map_last :: "('a \<Rightarrow> 'a) \<Rightarrow> 'a list \<Rightarrow> 'a list" where
  "map_last f xs = (if xs = [] then [] else butlast xs @ [f (last xs)])"

definition record_tool_call :: "string \<Rightarrow> json \<Rightarrow> turn \<Rightarrow> turn" where
  "record_tool_call n ps t = t\<lparr>turn_tool_calls := turn_tool_calls t
     @ [\<lparr>tt_name = n, tt_parameters = ps, tt_result = None, tt_error = None\<rparr>]\<rparr>"

definition record_tool_result :: "json \<Rightarrow> turn \<Rightarrow> turn" where
  "record_tool_result r t =
     t\<lparr>turn_tool_calls := map_last (\<lambda>c. c\<lparr>tt_result := Some r\<rparr>) (turn_tool_calls t)\<rparr>"

definition record_tool_error :: "string \<Rightarrow> turn \<Rightarrow> turn" where
  "record_tool_error e t =
     t\<lparr>turn_tool_calls := map_last (\<lambda>c. c\<lparr>tt_error := Some e\<rparr>) (turn_tool_calls t)\<rparr>"

section \<open>Threads\<close>

datatype thread_state = Idle | Processing | AwaitingApproval | Completed | Interrupted

record pending_approval =
  request_id :: uuid
  pa_tool_name :: string
  pa_parameters :: json
  pa_description :: string
  pa_tool_call_id :: string
  pa_context_messages :: "chat_message list"

record thread =
  thread_id :: uuid
  session_id :: uuid
  thread_state :: thread_state
  turns :: "turn list"
  thread_created_at :: instant
  thread_updated_at :: instant
  thread_metadata :: json
  pending_approval :: "pending_approval option"
  pending_auth :: "string option"
  last_response_id :: "string option"

definition thread_with_id :: "instant \<Rightarrow> uuid \<Rightarrow> uuid \<Rightarrow> thread" where
  "thread_with_id now i s =
     \<lparr>thread_id = i, session_id = s, thread_state = Idle, turns = [], thread_created_at = now,
      thread_updated_at = now, thread_metadata = JNull, pending_approval = None,
      pending_auth = None, last_response_id = None\<rparr>"

definition new_thread :: "uuid \<Rightarrow> instant \<Rightarrow> uuid \<Rightarrow> thread" where
  "new_thread fresh now s = thread_with_id now fresh s"

definition thread_turn_number :: "thread \<Rightarrow> nat" where
  "thread_turn_number th = length (turns th) + 1"

definition last_turn :: "thread \<Rightarrow> turn option" where
  "last_turn th = (if turns th = [] then None else Some (last (turns th)))"

definition start_turn :: "instant \<Rightarrow> string \<Rightarrow> thread \<Rightarrow> thread" where
  "start_turn now inp th =
     th\<lparr>turns := turns th @ [new_turn now (length (turns th)) inp],
        thread_state := Processing, thread_updated_at := now\<rparr>"

definition complete_turn :: "instant \<Rightarrow> string \<Rightarrow> thread \<Rightarrow> thread" where
  "complete_turn now r th =
     th\<lparr>turns := map_last (turn_complete now r) (turns th),
        thread_state := Idle, thread_updated_at := now\<rparr>"

definition fail_turn :: "instant \<Rightarrow> string \<Rightarrow> thread \<Rightarrow> thread" where
  "fail_turn now e th =
     th\<lparr>turns := map_last (turn_fail now e) (turns th),
        thread_state := Idle, thread_updated_at := now\<rparr>"

definition await_approval :: "instant \<Rightarrow> pending_approval \<Rightarrow> thread \<Rightarrow> thread" where
  "await_approval now p th =
     th\<lparr>thread_state := AwaitingApproval, pending_approval := Some p, thread_updated_at := now\<rparr>"

definition take_pending_approval :: "thread \<Rightarrow> pending_approval option \<times> thread" where
  "take_pending_approval th = (pending_approval th, th\<lparr>pending_approval := None\<rparr>)"

definition clear_pending_approval :: "instant \<Rightarrow> thread \<Rightarrow> thread" where
  "clear_pending_approval now th =
     th\<lparr>pending_approval := None, thread_state := Idle, thread_updated_at := now\<rparr>"

definition enter_auth_mode :: "instant \<Rightarrow> string \<Rightarrow> thread \<Rightarrow> thread" where
  "enter_auth_mode now ext th = th\<lparr>pending_auth := Some ext, thread_updated_at := now\<rparr>"

definition take_pending_auth :: "thread \<Rightarrow> string option \<times> thread" where
  "take_pending_auth th = (pending_auth th, th\<lparr>pending_auth := None\<rparr>)"

definition thread_interrupt :: "instant \<Rightarrow> thread \<Rightarrow> thread" where
  "thread_interrupt now th =
     th\<lparr>turns := map_last (turn_interrupt now) (turns th),
        thread_state := Interrupted, thread_updated_at := now\<rparr>"

definition thread_resume :: "instant \<Rightarrow> thread \<Rightarrow> thread" where
  "thread_resume now th =
     (if thread_state th = Interrupted then th\<lparr>thread_state := Idle, thread_updated_at := now\<rparr> else th)"

definition turn_messages :: "turn \<Rightarrow> chat_message list" where
  "turn_messages t = msg_user (user_input t) #
     (case response t of Some r \<Rightarrow> [msg_assistant r] | None \<Rightarrow> [])"

definition thread_messages :: "thread \<Rightarrow> chat_message list" where
  "thread_messages th = concat (map turn_messages (turns th))"

fun renumber :: "nat \<Rightarrow> turn list \<Rightarrow> turn list" where
  "renumber n [] = []"
| "renumber n (t # ts) = t\<lparr>turn_number := n\<rparr> # renumber (n + 1) ts"

definition truncate_turns :: "nat \<Rightarrow> thread \<Rightarrow> thread" where
  "truncate_turns keep th =
     (if length (turns th) > keep then th\<lparr>turns := renumber 0 (last_n keep (turns th))\<rparr> else th)"

text \<open>The loop of \<open>restore_from_messages\<close>, which looks one message ahead.\<close>

fun rebuild_turns :: "instant \<Rightarrow> nat \<Rightarrow> chat_message list \<Rightarrow> turn list" where
  "rebuild_turns now n [] = []"
| "rebuild_turns now n (m # ms) =
     (if role m = User
      then (case ms of
              a # ms' \<Rightarrow>
                if role a = Assistant
                then turn_complete now (content a) (new_turn now n (content m)) # rebuild_turns now (n + 1) ms'
                else new_turn now n (content m) # rebuild_turns now (n + 1) ms
            | [] \<Rightarrow> [new_turn now n (content m)])
      else rebuild_turns now n ms)"

definition restore_from_messages :: "instant \<Rightarrow> chat_message list \<Rightarrow> thread \<Rightarrow> thread" where
  "restore_from_messages now ms th =
     th\<lparr>turns := rebuild_turns now 0 ms, thread_state := Idle, thread_updated_at := now\<rparr>"

section \<open>Sessions\<close>

record session =
  ss_id :: uuid
  ss_user_id :: string
  active_thread :: "uuid option"
  threads :: "(uuid \<times> thread) list"
  ss_created_at :: instant
  last_active_at :: instant
  ss_metadata :: json
  auto_approved_tools :: "string set"

definition new_session :: "uuid \<Rightarrow> instant \<Rightarrow> string \<Rightarrow> session" where
  "new_session fresh now u =
     \<lparr>ss_id = fresh, ss_user_id = u, active_thread = None, threads = [], ss_created_at = now,
      last_active_at = now, ss_metadata = JNull, auto_approved_tools = {}\<rparr>"

definition is_tool_auto_approved :: "string \<Rightarrow> session \<Rightarrow> bool" where
  "is_tool_auto_approved tool s \<longleftrightarrow> tool \<in> auto_approved_tools s"

definition auto_approve_tool :: "string \<Rightarrow> session \<Rightarrow> session" where
  "auto_approve_tool tool s = s\<lparr>auto_approved_tools := insert tool (auto_approved_tools s)\<rparr>"

datatype approval_resolution = Found uuid | Approval_NotFound | Ambiguous "uuid list"

definition holds_approval :: "uuid option \<Rightarrow> thread \<Rightarrow> bool" where
  "holds_approval rq th \<longleftrightarrow> thread_state th = AwaitingApproval
     \<and> (case (pending_approval th, rq) of
          (Some p, Some rid) \<Rightarrow> request_id p = rid
        | (Some _, None) \<Rightarrow> True
        | (None, _) \<Rightarrow> False)"

definition resolve_approval_thread :: "uuid \<Rightarrow> uuid option \<Rightarrow> session \<Rightarrow> approval_resolution" where
  "resolve_approval_thread addressed rq s =
     (if (case map_of (threads s) addressed of Some th \<Rightarrow> holds_approval rq th | None \<Rightarrow> False)
      then Found addressed
      else case rq of
        None \<Rightarrow> Approval_NotFound
      | Some rid \<Rightarrow>
          (case map thread_id (filter (\<lambda>th. thread_state th = AwaitingApproval
                  \<and> (case pending_approval th of Some p \<Rightarrow> request_id p = rid | None \<Rightarrow> False))
                (map snd (threads s))) of
             [only] \<Rightarrow> Found only
           | [] \<Rightarrow> Approval_NotFound
           | candidates \<Rightarrow> Ambiguous candidates))"

definition create_thread :: "uuid \<Rightarrow> instant \<Rightarrow> session \<Rightarrow> session" where
  "create_thread fresh now s =
     s\<lparr>threads := AList.update fresh (new_thread fresh now (ss_id s)) (threads s),
       active_thread := Some fresh, last_active_at := now\<rparr>"

definition get_active_thread :: "session \<Rightarrow> thread option" where
  "get_active_thread s = (case active_thread s of Some i \<Rightarrow> map_of (threads s) i | None \<Rightarrow> None)"

text \<open>The result is the active thread; \<open>None\<close> is the panic of a dangling active thread.\<close>

definition get_or_create_thread :: "uuid \<Rightarrow> instant \<Rightarrow> session \<Rightarrow> thread option \<times> session" where
  "get_or_create_thread fresh now s =
     (let s' = (if active_thread s = None then create_thread fresh now s else s)
      in (get_active_thread s', s'))"

definition switch_thread :: "uuid \<Rightarrow> instant \<Rightarrow> session \<Rightarrow> bool \<times> session" where
  "switch_thread i now s =
     (if i \<in> fst ` set (threads s)
      then (True, s\<lparr>active_thread := Some i, last_active_at := now\<rparr>) else (False, s))"

section \<open>Invariants\<close>

text \<open>Turns are numbered from zero.\<close>

definition turns_wf :: "thread \<Rightarrow> bool" where
  "turns_wf th \<longleftrightarrow> map turn_number (turns th) = [0 ..< length (turns th)]"

definition session_inv :: "session \<Rightarrow> bool" where
  "session_inv s \<longleftrightarrow> dkeys (threads s) \<and> (\<forall>(i, th) \<in> set (threads s). thread_id th = i)
     \<and> (case active_thread s of Some i \<Rightarrow> i \<in> fst ` set (threads s) | None \<Rightarrow> True)"

lemma length_map_last [simp]: "length (map_last f xs) = length xs"
  by (simp add: map_last_def)

lemma map_last_map: "(\<And>x. g (f x) = g x) \<Longrightarrow> map g (map_last f xs) = map g xs"
  by (cases xs rule: rev_cases) (simp_all add: map_last_def)

lemma renumber_length [simp]: "length (renumber n ts) = length ts"
  by (induction ts arbitrary: n) auto

lemma renumber_numbers: "map turn_number (renumber n ts) = [n ..< n + length ts]"
  by (induction ts arbitrary: n) (auto simp: upt_rec)

lemma turn_number_simps [simp]:
  "turn_number (turn_complete now r t) = turn_number t"
  "turn_number (turn_fail now r t) = turn_number t"
  "turn_number (turn_interrupt now t) = turn_number t"
  "turn_number (new_turn now n inp) = n"
  by (simp_all add: turn_complete_def turn_fail_def turn_interrupt_def new_turn_def)

text \<open>One step of the loop: a pair, a user message without an answer, another message.\<close>

lemma rebuild_pair:
  "role m = User \<Longrightarrow> role a = Assistant \<Longrightarrow> rebuild_turns now n (m # a # ms) =
     turn_complete now (content a) (new_turn now n (content m)) # rebuild_turns now (n + 1) ms"
  by simp

lemma rebuild_single:
  "role m = User \<Longrightarrow> ms = [] \<or> role (hd ms) \<noteq> Assistant \<Longrightarrow> rebuild_turns now n (m # ms) =
     new_turn now n (content m) # rebuild_turns now (n + 1) ms"
  by (cases ms) auto

lemma rebuild_skip: "role m \<noteq> User \<Longrightarrow> rebuild_turns now n (m # ms) = rebuild_turns now n ms"
  by simp

declare rebuild_turns.simps(2) [simp del]

lemma rebuild_numbers: "map turn_number (rebuild_turns now n ms) = [n ..< n + length (rebuild_turns now n ms)]"
proof (induction ms arbitrary: n rule: length_induct)
  case (1 ms)
  show ?case
  proof (cases ms)
    case (Cons m ms')
    have IH: "map turn_number (rebuild_turns now k xs) = [k ..< k + length (rebuild_turns now k xs)]"
      if "length xs < length ms" for k xs
      using 1 that by blast
    consider a ms'' where "role m = User" "ms' = a # ms''" "role a = Assistant"
      | "role m = User" "ms' = [] \<or> role (hd ms') \<noteq> Assistant" | "role m \<noteq> User"
      by (cases ms') auto
    then show ?thesis
    proof cases
      case (1 a ms'')
      then show ?thesis using Cons IH [of ms'' "n + 1"] by (simp add: rebuild_pair upt_conv_Cons del: upt_Suc)
    next
      case 2
      then show ?thesis using Cons IH [of ms' "n + 1"] by (simp add: rebuild_single upt_conv_Cons del: upt_Suc)
    next
      case 3
      then show ?thesis using Cons IH [of ms' n] by (simp add: rebuild_skip)
    qed
  qed simp
qed

lemma start_turn_wf [keeps]: "turns_wf th \<Longrightarrow> turns_wf (start_turn now inp th)"
  by (simp add: turns_wf_def start_turn_def)

lemma complete_turn_wf [keeps]: "turns_wf th \<Longrightarrow> turns_wf (complete_turn now r th)"
  by (simp add: turns_wf_def complete_turn_def map_last_map)

lemma fail_turn_wf [keeps]: "turns_wf th \<Longrightarrow> turns_wf (fail_turn now r th)"
  by (simp add: turns_wf_def fail_turn_def map_last_map)

lemma thread_interrupt_wf [keeps]: "turns_wf th \<Longrightarrow> turns_wf (thread_interrupt now th)"
  by (simp add: turns_wf_def thread_interrupt_def map_last_map)

lemma truncate_turns_wf [keeps]: "turns_wf th \<Longrightarrow> turns_wf (truncate_turns k th)"
  by (simp add: turns_wf_def truncate_turns_def renumber_numbers min_def)

lemma restore_wf [keeps]: "turns_wf (restore_from_messages now ms th)"
  using rebuild_numbers [of now 0 ms] by (simp add: turns_wf_def restore_from_messages_def)

text \<open>The thread operations as the steps of a transition system.\<close>

datatype thread_op =
    To_start instant string
  | To_complete instant string
  | To_fail instant string
  | To_await instant pending_approval
  | To_take_approval
  | To_clear_approval instant
  | To_auth instant string
  | To_take_auth
  | To_interrupt instant
  | To_resume instant
  | To_truncate nat
  | To_restore instant "chat_message list"

fun thread_step :: "thread \<Rightarrow> thread_op \<Rightarrow> thread" where
  "thread_step th (To_start now inp) = start_turn now inp th"
| "thread_step th (To_complete now r) = complete_turn now r th"
| "thread_step th (To_fail now e) = fail_turn now e th"
| "thread_step th (To_await now p) = await_approval now p th"
| "thread_step th To_take_approval = snd (take_pending_approval th)"
| "thread_step th (To_clear_approval now) = clear_pending_approval now th"
| "thread_step th (To_auth now e) = enter_auth_mode now e th"
| "thread_step th To_take_auth = snd (take_pending_auth th)"
| "thread_step th (To_interrupt now) = thread_interrupt now th"
| "thread_step th (To_resume now) = thread_resume now th"
| "thread_step th (To_truncate k) = truncate_turns k th"
| "thread_step th (To_restore now ms) = restore_from_messages now ms th"

lemmas thread_ops = start_turn_def complete_turn_def fail_turn_def await_approval_def
  take_pending_approval_def clear_pending_approval_def enter_auth_mode_def take_pending_auth_def
  thread_interrupt_def thread_resume_def truncate_turns_def restore_from_messages_def

lemma thread_step_wf: "turns_wf th \<Longrightarrow> turns_wf (thread_step th op)"
  by (cases op) (auto simp: keeps, simp_all add: turns_wf_def thread_ops)

lemma thread_step_id: "thread_id (thread_step th op) = thread_id th"
  by (cases op) (simp_all add: thread_ops)

interpretation thread: conserving_system thread_step turns_wf thread_id
  by unfold_locales (simp_all add: thread_step_wf thread_step_id)

lemma in_keys_update: "fst ` set (AList.update k v al) = insert k (fst ` set al)"
  by (simp add: dom_update [unfolded dom_map_of_conv_image_fst])

lemma set_update_cases: "x \<in> set (AList.update k v al) \<Longrightarrow> x = (k, v) \<or> x \<in> set al"
  by (induction al) (auto split: if_splits)

lemma create_thread_inv [keeps]: "session_inv s \<Longrightarrow> session_inv (create_thread fresh now s)"
  by (auto simp: session_inv_def create_thread_def new_thread_def thread_with_id_def in_keys_update
      dest!: set_update_cases)

lemma switch_thread_inv [keeps]: "session_inv s \<Longrightarrow> session_inv (snd (switch_thread i now s))"
  by (cases "i \<in> fst ` set (threads s)") (auto simp: session_inv_def switch_thread_def)

lemma get_or_create_inv [keeps]: "session_inv s \<Longrightarrow> session_inv (snd (get_or_create_thread fresh now s))"
  by (auto simp: get_or_create_thread_def Let_def keeps)

text \<open>An update of a thread of the session by a thread operation.\<close>

definition update_thread :: "uuid \<Rightarrow> (thread \<Rightarrow> thread) \<Rightarrow> session \<Rightarrow> session" where
  "update_thread i f s = (case map_of (threads s) i of
     Some th \<Rightarrow> s\<lparr>threads := AList.update i (f th) (threads s)\<rparr> | None \<Rightarrow> s)"

lemma update_thread_inv [keeps]:
  assumes "session_inv s" "\<And>th. thread_id (f th) = thread_id th"
  shows "session_inv (update_thread i f s)"
proof (cases "map_of (threads s) i")
  case (Some th)
  then have "thread_id (f th) = i"
    using assms by (auto simp: session_inv_def dest: map_of_SomeD)
  then show ?thesis
    using assms(1) Some
    by (auto simp: session_inv_def update_thread_def in_keys_update dest!: set_update_cases
        split: option.splits)
qed (use assms in \<open>simp add: update_thread_def\<close>)

datatype session_event =
    Se_create uuid instant
  | Se_get_or_create uuid instant
  | Se_switch uuid instant
  | Se_auto_approve string
  | Se_thread uuid thread_op

fun session_step :: "session \<Rightarrow> session_event \<Rightarrow> session" where
  "session_step s (Se_create i now) = create_thread i now s"
| "session_step s (Se_get_or_create i now) = snd (get_or_create_thread i now s)"
| "session_step s (Se_switch i now) = snd (switch_thread i now s)"
| "session_step s (Se_auto_approve t) = auto_approve_tool t s"
| "session_step s (Se_thread i op) = update_thread i (\<lambda>th. thread_step th op) s"

lemma auto_approve_inv [keeps]: "session_inv s \<Longrightarrow> session_inv (auto_approve_tool t s)"
  by (simp add: session_inv_def auto_approve_tool_def split: option.splits)

lemma session_step_inv: "session_inv s \<Longrightarrow> session_inv (session_step s e)"
  by (cases e) (simp_all add: keeps thread_step_id)

interpretation session: transition_system session_step session_inv
  by unfold_locales (rule session_step_inv)

lemma new_session_inv [simp]: "session_inv (new_session fresh now u)"
  by (simp add: session_inv_def new_session_def)

lemma active_thread_exists:
  "session_inv s \<Longrightarrow> active_thread s = Some i \<Longrightarrow> \<exists>th. map_of (threads s) i = Some th \<and> thread_id th = i"
  by (fastforce simp: session_inv_def dkeys_map_of)

section \<open>Messages of rebuilt threads\<close>

lemma msg_simps [simp]:
  "role (msg_user s) = User" "content (msg_user s) = s"
  "role (msg_assistant s) = Assistant" "content (msg_assistant s) = s"
  by (simp_all add: msg_user_def msg_assistant_def)

lemma turn_messages_new [simp]:
  "turn_messages (new_turn now n s) = [msg_user s]"
  "turn_messages (turn_complete now r (new_turn now' n s)) = [msg_user s, msg_assistant r]"
  by (simp_all add: turn_messages_def new_turn_def turn_complete_def)

lemma messages_start: "ms = concat (map turn_messages ts) \<Longrightarrow> ms \<noteq> [] \<Longrightarrow> role (hd ms) = User"
  by (cases ts) (auto simp: turn_messages_def)

lemma rebuild_turn_messages:
  "concat (map turn_messages (rebuild_turns now n (concat (map turn_messages ts)))) = concat (map turn_messages ts)"
proof (induction ts arbitrary: n)
  case (Cons t ts)
  show ?case
  proof (cases "response t")
    case None
    have "concat (map turn_messages ts) = [] \<or> role (hd (concat (map turn_messages ts))) \<noteq> Assistant"
      using messages_start [of "concat (map turn_messages ts)" ts]
      by (cases "concat (map turn_messages ts) = []") (simp_all del: concat_eq_Nil_conv)
    moreover have "turn_messages t = [msg_user (user_input t)]"
      using None by (simp add: turn_messages_def)
    ultimately show ?thesis
      using rebuild_single [of "msg_user (user_input t)" "concat (map turn_messages ts)" now n] Cons
      by (simp del: concat_eq_Nil_conv)
  next
    case (Some r)
    then have "turn_messages t = [msg_user (user_input t), msg_assistant r]"
      by (simp add: turn_messages_def)
    then show ?thesis using Cons by (simp add: rebuild_pair)
  qed
qed simp

lemma resolve_other_needs_id:
  "resolve_approval_thread addressed None s = Found t \<Longrightarrow> t = addressed"
  by (auto simp: resolve_approval_thread_def split: if_splits option.splits)

section \<open>Properties\<close>

text \<open>Over any sequence of session and thread operations the threads are stored under their
  own identifiers and the active thread is one of them, so the expectations the code states
  on the active thread ("just created") never panic.\<close>

theorem session_active_thread_valid:
  "session_inv (foldl session_step (new_session fresh now u) es)
   \<and> fst (get_or_create_thread fresh' now' (foldl session_step (new_session fresh now u) es)) \<noteq> None"
proof -
  let ?s = "foldl session_step (new_session fresh now u) es"
  have inv: "session_inv ?s" by (rule session.run_inv) simp
  have "session_inv (snd (get_or_create_thread fresh' now' ?s))" using inv by (rule get_or_create_inv)
  moreover have "active_thread (snd (get_or_create_thread fresh' now' ?s)) \<noteq> None"
    by (auto simp: get_or_create_thread_def create_thread_def Let_def)
  ultimately have "get_active_thread (snd (get_or_create_thread fresh' now' ?s)) \<noteq> None"
    using active_thread_exists by (fastforce simp: get_active_thread_def)
  with inv show ?thesis by (simp add: get_or_create_thread_def Let_def)
qed

text \<open>An approval without a request identifier can only resolve to the thread it was sent
  to. Whatever it resolves to is a thread of the session that awaits an approval, and when
  an identifier was given, awaits that very request.\<close>

theorem approval_resolution_safe:
  assumes "session_inv s" "resolve_approval_thread addressed rq s = Found t"
  shows "(rq = None \<longrightarrow> t = addressed)
     \<and> (\<exists>th p. map_of (threads s) t = Some th \<and> thread_state th = AwaitingApproval
          \<and> pending_approval th = Some p
          \<and> (case rq of Some rid \<Rightarrow> request_id p = rid | None \<Rightarrow> True))"
proof (cases "case map_of (threads s) addressed of Some th \<Rightarrow> holds_approval rq th | None \<Rightarrow> False")
  case True
  with assms(2) show ?thesis
    by (auto simp: resolve_approval_thread_def holds_approval_def split: option.splits)
next
  case False
  let ?P = "\<lambda>rid th. thread_state th = AwaitingApproval
      \<and> (case pending_approval th of Some p \<Rightarrow> request_id p = rid | None \<Rightarrow> False)"
  from False assms(2) obtain rid where rq: "rq = Some rid"
      and c: "map thread_id (filter (?P rid) (map snd (threads s))) = [t]"
    by (auto simp: resolve_approval_thread_def split: option.splits list.splits)
  from c obtain th where "th \<in> set (filter (?P rid) (map snd (threads s)))" "thread_id th = t"
    by (cases "filter (?P rid) (map snd (threads s))") auto
  moreover from this assms(1) have "map_of (threads s) t = Some th"
    by (auto simp: session_inv_def dkeys_def)
  ultimately show ?thesis using rq by (auto split: option.splits)
qed

definition waiting_thread :: thread where
  "waiting_thread = await_approval 3 \<lparr>request_id = 42, pa_tool_name = ''shell'', pa_parameters = JNull,
     pa_description = [], pa_tool_call_id = [], pa_context_messages = []\<rparr> (thread_with_id 1 7 0)"

theorem approval_resolution_safe_witness:
  "\<exists>th p. map_of (threads ((new_session 0 0 ''u'')\<lparr>threads := [(7, waiting_thread)]\<rparr>)) 7 = Some th
     \<and> thread_state th = AwaitingApproval \<and> pending_approval th = Some p
     \<and> request_id p = 42"
  using approval_resolution_safe [of "(new_session 0 0 ''u'')\<lparr>threads := [(7, waiting_thread)]\<rparr>" 8 "Some 42" 7]
  by (simp add: session_inv_def new_session_def waiting_thread_def await_approval_def
      thread_with_id_def resolve_approval_thread_def dkeys_def)

text \<open>Checkpoints round trip: a thread rebuilt from the messages of a thread has the same
  messages, is idle and has its turns numbered from zero.\<close>

theorem restore_messages_roundtrip:
  "thread_messages (restore_from_messages now (thread_messages th) th') = thread_messages th
   \<and> thread_state (restore_from_messages now (thread_messages th) th') = Idle
   \<and> turns_wf (restore_from_messages now (thread_messages th) th')"
  using rebuild_turn_messages [of now 0 "turns th"]
  by (simp add: keeps) (simp add: thread_messages_def restore_from_messages_def)

text \<open>Any sequence of thread operations keeps the turns numbered by their position, also
  after old turns were dropped or a checkpoint was restored.\<close>

theorem turns_numbered:
  "turns_wf (foldl thread_step (thread_with_id now i s) ops)
   \<and> thread_id (foldl thread_step (thread_with_id now i s) ops) = i"
proof -
  have wf: "turns_wf (thread_with_id now i s)" by (simp add: turns_wf_def thread_with_id_def)
  show ?thesis
    using thread.run_inv [OF wf] thread.run_quantity [OF wf] by (simp add: thread_with_id_def)
qed

end
