(* ===== verification/Host_Match.thy ===== *)
theory Host_Match
  imports Rust_Strings
begin

text \<open>
  What the four host matchers of the program share: a parsed URL, as the \<open>url\<close> crate
  gives it, and the locale \<open>host_rule\<close> of host patterns that keep within a domain. Every
  matcher (WASM endpoint patterns, proxy domain patterns, credential host patterns, egress
  rules) interprets it.
\<close>

section \<open>Parsed URLs\<close>

text \<open>
  The parser itself is the \<open>url\<close> crate, a parameter of the definitions that use it: a
  function from strings to this record, \<open>None\<close> for a parse error.
\<close>

record url =
  u_scheme :: string
  u_username :: string
  u_password :: "string option"
  u_host :: "string option"
  u_path :: string

text \<open>The brackets of an IPv6 host are dropped.\<close>

definition strip_brackets :: "string \<Rightarrow> string" where
  "strip_brackets h = (case strip_prefix h ''['' of
     Some r \<Rightarrow> (case strip_suffix r '']'' of Some i \<Rightarrow> i | None \<Rightarrow> h)
   | None \<Rightarrow> h)"

section \<open>Domain labels\<close>

definition labels :: "string \<Rightarrow> string list" where
  "labels h = split_on (CHR ''.'') h"

text \<open>A host is within a domain when the labels of the domain end those of the host.\<close>

definition within_domain :: "string \<Rightarrow> string \<Rightarrow> bool" where
  "within_domain h d \<longleftrightarrow> (\<exists>ls. labels h = ls @ labels d)"

lemma split_by_append_sep:
  "P c \<Longrightarrow> split_by P (l @ c # r) = split_by P l @ split_by P r"
proof (induction l)
  case (Cons x l)
  then show ?case
    by (cases "split_by P l") (auto split: list.splits)
qed simp

lemma within_domain_self [simp]: "within_domain d d"
  by (simp add: within_domain_def)

lemma within_domain_sub: "within_domain (l @ ''.'' @ d) d"
  by (auto simp: within_domain_def labels_def split_by_append_sep)

text \<open>The boundary is a label boundary: a longer last label is another domain.\<close>

lemma within_domain_iff: "within_domain h d \<longleftrightarrow> h = d \<or> (\<exists>l. h = l @ ''.'' @ d)"
proof
  assume "within_domain h d"
  then obtain ls where ls: "labels h = ls @ labels d" by (auto simp: within_domain_def)
  have h: "h = join ''.'' (ls @ labels d)" and d: "d = join ''.'' (labels d)"
    using ls join_split [of "CHR ''.''" h] join_split [of "CHR ''.''" d]
    by (simp_all add: labels_def)
  have ne: "labels d \<noteq> []" by (simp add: labels_def)
  have "join ''.'' (ls @ ms) = join ''.'' ms \<or> (\<exists>l. join ''.'' (ls @ ms) = l @ ''.'' @ join ''.'' ms)"
    if "ms \<noteq> []" for ms
  proof (induction ls)
    case (Cons w ls)
    have "join ''.'' ((w # ls) @ ms) = w @ ''.'' @ join ''.'' (ls @ ms)"
      using that by (simp add: join_Cons)
    with Cons show ?case by (metis append.assoc)
  qed simp
  from this [OF ne] show "h = d \<or> (\<exists>l. h = l @ ''.'' @ d)" using h d by simp
qed (auto simp: within_domain_sub [simplified])

section \<open>Host patterns that keep within a domain\<close>

locale host_rule =
  fixes rule_matches :: "'p \<Rightarrow> string \<Rightarrow> bool"
    and norm_host :: "string \<Rightarrow> string"
    and base :: "'p \<Rightarrow> string"
  assumes matches_form:
    "rule_matches p h \<Longrightarrow> norm_host h = base p \<or> (\<exists>l. norm_host h = l @ ''.'' @ base p)"
begin

lemma matches_within: "rule_matches p h \<Longrightarrow> within_domain (norm_host h) (base p)"
  using matches_form by (simp add: within_domain_iff)

text \<open>Whatever list of patterns is searched, a hit names a pattern whose domain holds the host.\<close>

lemma find_within:
  "find (\<lambda>p. rule_matches p h) ps = Some p \<Longrightarrow> p \<in> set ps \<and> within_domain (norm_host h) (base p)"
  by (auto dest: find_Some_mem matches_within)

lemma any_within:
  "list_ex (\<lambda>p. rule_matches p h) ps \<Longrightarrow> \<exists>p \<in> set ps. within_domain (norm_host h) (base p)"
  by (auto simp: list_ex_iff dest: matches_within)

end

text \<open>The wildcard test that three of the matchers write out.\<close>

lemma wildcard_form:
  assumes "ends_with h suf" "length h > length suf"
    "ends_with (take (length h - length suf) h) ''.'' \<or> take (length h - length suf) h = []"
  shows "\<exists>l. h = l @ ''.'' @ suf"
proof -
  from assms(1) obtain l where l: "h = l @ suf" by (auto simp: ends_with_iff)
  with assms(2,3) have "ends_with l ''.''" by auto
  with l show ?thesis by (auto simp: ends_with_iff)
qed

end
