(* ===== verification/Wasm_Allowlist.thy ===== *)
theory Wasm_Allowlist
  imports Host_Match
begin

text \<open>
  The capabilities of WASM tools, \<open>src/tools/wasm/capabilities.rs\<close> (endpoint patterns,
  tool aliases, secret names), and the endpoint allowlist, \<open>src/tools/wasm/allowlist.rs\<close>
  (URL checks, path normalisation, validation). The parser of the \<open>url\<close> crate and the
  decoder of the \<open>urlencoding\<close> crate are parameters.
\<close>

section \<open>Endpoint patterns\<close>

record endpoint_pattern =
  ep_host :: string
  ep_path_prefix :: "string option"
  ep_methods :: "string list"

definition ep_for_host :: "string \<Rightarrow> endpoint_pattern" where
  "ep_for_host h = \<lparr>ep_host = h, ep_path_prefix = None, ep_methods = []\<rparr>"

definition ep_host_matches :: "endpoint_pattern \<Rightarrow> string \<Rightarrow> bool" where
  "ep_host_matches p h \<longleftrightarrow>
     (if ep_host p = h then True
      else case strip_prefix (ep_host p) ''*.'' of
        Some suf \<Rightarrow>
          if ends_with h suf \<and> length h > length suf
          then (let pre = take (length h - length suf) h in ends_with pre ''.'' \<or> pre = [])
          else False
      | None \<Rightarrow> False)"

definition ep_matches :: "endpoint_pattern \<Rightarrow> string \<Rightarrow> string \<Rightarrow> string \<Rightarrow> bool" where
  "ep_matches p h path meth \<longleftrightarrow>
     (if \<not> ep_host_matches p h then False
      else if (case ep_path_prefix p of Some pre \<Rightarrow> \<not> starts_with path pre | None \<Rightarrow> False) then False
      else if ep_methods p \<noteq> [] \<and> \<not> list_ex (\<lambda>m. to_upper m = to_upper meth) (ep_methods p) then False
      else True)"

definition ep_base :: "endpoint_pattern \<Rightarrow> string" where
  "ep_base p = (case strip_prefix (ep_host p) ''*.'' of Some suf \<Rightarrow> suf | None \<Rightarrow> ep_host p)"

interpretation endpoint: host_rule ep_host_matches "\<lambda>h. h" ep_base
proof
  fix p h assume m: "ep_host_matches p h"
  show "h = ep_base p \<or> (\<exists>l. h = l @ ''.'' @ ep_base p)"
  proof (cases "strip_prefix (ep_host p) ''*.''")
    case None
    with m show ?thesis by (auto simp: ep_host_matches_def ep_base_def split: if_splits)
  next
    case (Some suf)
    then have base: "ep_base p = suf" by (simp add: ep_base_def)
    from Some have host: "ep_host p = ''*.'' @ suf" unfolding strip_prefix_Some .
    show ?thesis
    proof (cases "ep_host p = h")
      case True
      then have "h = ''*'' @ ''.'' @ suf" using host by simp
      then show ?thesis unfolding base by blast
    next
      case False
      with m Some have "\<exists>l. h = l @ ''.'' @ suf"
        by (intro wildcard_form) (auto simp: ep_host_matches_def Let_def split: if_splits)
      then show ?thesis unfolding base by blast
    qed
  qed
qed

section \<open>Other capabilities\<close>

definition resolve_alias :: "(string \<rightharpoonup> string) \<Rightarrow> string \<Rightarrow> string option" where
  "resolve_alias aliases a = aliases a"

definition secret_allowed :: "string list \<Rightarrow> string \<Rightarrow> bool" where
  "secret_allowed allowed n \<longleftrightarrow> list_ex (\<lambda>pat. pat = n \<or>
     (case strip_suffix pat ''*'' of Some pre \<Rightarrow> starts_with n pre | None \<Rightarrow> False)) allowed"

section \<open>URL parsing and path normalisation\<close>

fun has_valid_percent_encoding :: "string \<Rightarrow> bool" where
  "has_valid_percent_encoding [] \<longleftrightarrow> True"
| "has_valid_percent_encoding (c # cs) \<longleftrightarrow>
     (if c = CHR ''%''
      then (case cs of a # b # r \<Rightarrow> is_hex a \<and> is_hex b \<and> has_valid_percent_encoding r | _ \<Rightarrow> False)
      else has_valid_percent_encoding cs)"

text \<open>The loop over the raw segments; \<open>acc\<close> is the stack of kept ones, last on top.\<close>

fun normalize_segments ::
  "(string \<Rightarrow> string option) \<Rightarrow> string list \<Rightarrow> string list \<Rightarrow> (string, string list) result" where
  "normalize_segments dec [] acc = Inr acc"
| "normalize_segments dec (raw # rest) acc =
     (if \<not> has_valid_percent_encoding raw
      then Inl (''Invalid percent-encoding in path segment: '' @ raw)
      else case dec raw of
        None \<Rightarrow> Inl (''Invalid percent-encoding in path segment: '' @ raw)
      | Some seg \<Rightarrow>
          if CHR ''/'' \<in> set seg \<or> CHR 0x5C \<in> set seg
          then Inl ''Path segment contains encoded path separator''
          else if seg = [] \<or> seg = ''.'' then normalize_segments dec rest acc
          else if seg = ''..'' then normalize_segments dec rest (butlast acc)
          else normalize_segments dec rest (acc @ [seg]))"

definition normalize_path :: "(string \<Rightarrow> string option) \<Rightarrow> string \<Rightarrow> (string, string) result" where
  "normalize_path dec path =
     (case normalize_segments dec (split_on (CHR ''/'') path) [] of
        Inl e \<Rightarrow> Inl e
      | Inr segs \<Rightarrow>
          (let r = ''/'' @ join ''/'' segs
           in Inr (if length path > 1 \<and> ends_with path ''/'' \<and> \<not> ends_with r ''/'' then r @ ''/'' else r)))"

record parsed_url =
  pu_scheme :: string
  pu_host :: string
  pu_path :: string

definition parse_url ::
  "(string \<Rightarrow> (string, url) result) \<Rightarrow> (string \<Rightarrow> string option) \<Rightarrow> string \<Rightarrow> (string, parsed_url) result" where
  "parse_url url_parse dec s =
     (case url_parse s of
        Inl e \<Rightarrow> Inl (''URL parse failed: '' @ e)
      | Inr u \<Rightarrow>
          (let scheme = to_lower (u_scheme u) in
           if scheme \<noteq> ''http'' \<and> scheme \<noteq> ''https'' then Inl (''Unsupported scheme: '' @ scheme)
           else if u_username u \<noteq> [] \<or> u_password u \<noteq> None
           then Inl ''URL contains userinfo (@) which is not allowed''
           else case u_host u of
             None \<Rightarrow> Inl ''Empty host''
           | Some h \<Rightarrow>
               (case normalize_path dec (u_path u) of
                  Inl e \<Rightarrow> Inl e
                | Inr p \<Rightarrow> Inr \<lparr>pu_scheme = scheme, pu_host = to_lower (strip_brackets h), pu_path = p\<rparr>)))"

section \<open>Validation\<close>

datatype deny_reason =
    InvalidUrl string
  | HostNotAllowed string
  | PathNotAllowed string string
  | MethodNotAllowed string string
  | EmptyAllowlist
  | InsecureScheme string

fun show_deny_reason :: "deny_reason \<Rightarrow> string" where
  "show_deny_reason (InvalidUrl u) = ''Invalid URL: '' @ u"
| "show_deny_reason (HostNotAllowed h) = ''Host not in allowlist: '' @ h"
| "show_deny_reason (PathNotAllowed h p) = ''Path not allowed for host '' @ h @ '': '' @ p"
| "show_deny_reason (MethodNotAllowed m h) = ''Method '' @ m @ '' not allowed for host '' @ h"
| "show_deny_reason EmptyAllowlist = ''No endpoints in allowlist''"
| "show_deny_reason (InsecureScheme s) = ''Insecure scheme: '' @ s @ '' (only HTTPS allowed)''"

datatype allowlist_result = Allowed | Denied deny_reason

record allowlist_validator =
  av_patterns :: "endpoint_pattern list"
  av_require_https :: bool

definition new_validator :: "endpoint_pattern list \<Rightarrow> allowlist_validator" where
  "new_validator ps = \<lparr>av_patterns = ps, av_require_https = True\<rparr>"

definition allow_http :: "allowlist_validator \<Rightarrow> allowlist_validator" where
  "allow_http v = v\<lparr>av_require_https := False\<rparr>"

definition validate ::
  "(string \<Rightarrow> (string, url) result) \<Rightarrow> (string \<Rightarrow> string option) \<Rightarrow> allowlist_validator
     \<Rightarrow> string \<Rightarrow> string \<Rightarrow> allowlist_result" where
  "validate url_parse dec v u meth =
     (if av_patterns v = [] then Denied EmptyAllowlist
      else case parse_url url_parse dec u of
        Inl e \<Rightarrow> Denied (InvalidUrl e)
      | Inr pu \<Rightarrow>
          if av_require_https v \<and> pu_scheme pu \<noteq> ''https'' then Denied (InsecureScheme (pu_scheme pu))
          else if list_ex (\<lambda>p. ep_matches p (pu_host pu) (pu_path pu) meth) (av_patterns v) then Allowed
          else
            (let hm = filter (\<lambda>p. ep_host_matches p (pu_host pu)) (av_patterns v) in
             if hm = [] then Denied (HostNotAllowed (pu_host pu))
             else
               (let pm = filter (\<lambda>p. case ep_path_prefix p of
                              None \<Rightarrow> True | Some pre \<Rightarrow> starts_with (pu_path pu) pre) hm in
                if pm = [] then Denied (PathNotAllowed (pu_host pu) (pu_path pu))
                else Denied (MethodNotAllowed meth (pu_host pu)))))"

definition host_allowed :: "allowlist_validator \<Rightarrow> string \<Rightarrow> bool" where
  "host_allowed v h = list_ex (\<lambda>p. ep_host_matches p h) (av_patterns v)"

definition allowed_hosts :: "allowlist_validator \<Rightarrow> string list" where
  "allowed_hosts v = map ep_host (av_patterns v)"

section \<open>Lemmas on normalised paths\<close>

definition clean_segment :: "string \<Rightarrow> bool" where
  "clean_segment s \<longleftrightarrow> s \<noteq> [] \<and> s \<noteq> ''.'' \<and> s \<noteq> ''..'' \<and> CHR ''/'' \<notin> set s \<and> CHR 0x5C \<notin> set s"

lemma clean_segmentI:
  "\<lbrakk>s \<noteq> []; s \<noteq> ''.''; s \<noteq> ''..''; CHR ''/'' \<notin> set s; CHR 0x5C \<notin> set s\<rbrakk> \<Longrightarrow> clean_segment s"
  by (simp add: clean_segment_def)

lemma normalize_segments_clean:
  "normalize_segments dec raws acc = Inr segs \<Longrightarrow> list_all clean_segment acc \<Longrightarrow> list_all clean_segment segs"
proof (induction dec raws acc rule: normalize_segments.induct)
  case (2 dec raw rest acc)
  have "list_all clean_segment (butlast acc)"
    using 2(5) by (auto simp: list_all_iff dest: in_set_butlastD)
  with 2 show ?case
    by (auto simp: clean_segmentI split: if_splits option.splits)
qed simp

lemma clean_join_segments:
  assumes "list_all clean_segment segs"
  shows "split_on (CHR ''/'') (join ''/'' segs) = (if segs = [] then [[]] else segs)"
  using assms split_join [of segs "CHR ''/''"]
  by (auto simp: list_all_iff clean_segment_def)

lemma normalize_path_segments:
  assumes "normalize_path dec path = Inr q"
  shows "\<exists>segs. list_all clean_segment segs \<and> (q = ''/'' @ join ''/'' segs \<or> q = ''/'' @ join ''/'' segs @ ''/'')"
proof -
  from assms obtain segs where s: "normalize_segments dec (split_on (CHR ''/'') path) [] = Inr segs"
    and q: "q = ''/'' @ join ''/'' segs \<or> q = (''/'' @ join ''/'' segs) @ ''/''"
    by (auto simp: normalize_path_def Let_def split: sum.splits if_splits)
  then show ?thesis using normalize_segments_clean [OF s] by auto
qed

lemma list_ex_upper: "list_ex (\<lambda>m. to_upper m = x) ms \<longleftrightarrow> x \<in> to_upper ` set ms"
  by (auto simp: list_ex_iff)

lemma parse_url_Inr:
  "parse_url url_parse dec s = Inr pu \<Longrightarrow> \<exists>u h. url_parse s = Inr u
     \<and> pu_scheme pu = to_lower (u_scheme u) \<and> (pu_scheme pu = ''http'' \<or> pu_scheme pu = ''https'')
     \<and> u_username u = [] \<and> u_password u = None \<and> u_host u = Some h
     \<and> pu_host pu = to_lower (strip_brackets h) \<and> normalize_path dec (u_path u) = Inr (pu_path pu)"
  by (auto simp: parse_url_def Let_def split: sum.splits if_splits option.splits)

section \<open>Properties\<close>

text \<open>C27: An allowed request has a URL that parses, carries no user information and, unless
  plain HTTP was allowed, is HTTPS; and a single pattern of the allowlist covers it: the host
  lies in the domain of the pattern on a label boundary, the normalised path starts with its
  prefix, and the method is one of its methods.\<close>

theorem validate_allowed_sound:
  assumes "validate url_parse dec v u meth = Allowed"
  shows "\<exists>pu parsed p. url_parse u = Inr parsed \<and> parse_url url_parse dec u = Inr pu
     \<and> u_username parsed = [] \<and> u_password parsed = None
     \<and> (av_require_https v \<longrightarrow> pu_scheme pu = ''https'')
     \<and> p \<in> set (av_patterns v) \<and> within_domain (pu_host pu) (ep_base p)
     \<and> (case ep_path_prefix p of Some pre \<Rightarrow> starts_with (pu_path pu) pre | None \<Rightarrow> True)
     \<and> (ep_methods p = [] \<or> to_upper meth \<in> to_upper ` set (ep_methods p))"
proof -
  from assms obtain pu p where pu: "parse_url url_parse dec u = Inr pu"
      "av_require_https v \<longrightarrow> pu_scheme pu = ''https''"
    and p: "p \<in> set (av_patterns v)" "ep_matches p (pu_host pu) (pu_path pu) meth"
    by (auto simp: validate_def Let_def list_ex_iff split: sum.splits if_splits)
  have "within_domain (pu_host pu) (ep_base p)"
    using p(2) by (intro endpoint.matches_within) (simp add: ep_matches_def split: if_splits)
  moreover have "case ep_path_prefix p of Some pre \<Rightarrow> starts_with (pu_path pu) pre | None \<Rightarrow> True"
    using p(2) by (auto simp: ep_matches_def split: if_splits option.splits)
  moreover have "ep_methods p = [] \<or> to_upper meth \<in> to_upper ` set (ep_methods p)"
    using p(2) by (simp add: ep_matches_def list_ex_upper split: if_splits)
  ultimately show ?thesis using parse_url_Inr [OF pu(1)] pu p(1) by blast
qed

definition sample_url :: "string \<Rightarrow> (string, url) result" where
  "sample_url s = Inr \<lparr>u_scheme = ''https'', u_username = [], u_password = None,
     u_host = Some ''api.Example.com'', u_path = ''/v1/../v1/x''\<rparr>"

definition sample_validator :: allowlist_validator where
  "sample_validator = new_validator
     [\<lparr>ep_host = ''*.example.com'', ep_path_prefix = Some ''/v1/'', ep_methods = [''get'']\<rparr>]"

lemma sample_validate: "validate sample_url Some sample_validator ''u'' ''GET'' = Allowed"
  by code_simp

theorem validate_allowed_sound_witness:
  "\<exists>pu p. parse_url sample_url Some ''u'' = Inr pu \<and> p \<in> set (av_patterns sample_validator)
     \<and> within_domain (pu_host pu) (ep_base p)"
  using validate_allowed_sound [OF sample_validate] by blast

text \<open>A normalised path cannot climb: it is absolute, and between its slashes there is no
  empty, dot or dot-dot segment and no encoded slash or backslash (a trailing slash is all
  that may be added), so a path prefix of a pattern cannot be escaped by traversal.\<close>

theorem normalized_path_no_traversal:
  assumes "normalize_path dec path = Inr q"
  shows "\<exists>segs. list_all clean_segment segs
     \<and> (split_on (CHR ''/'') q = [] # (if segs = [] then [[]] else segs)
        \<or> split_on (CHR ''/'') q = [] # (if segs = [] then [[]] else segs) @ [[]])"
proof -
  obtain segs where segs: "list_all clean_segment segs"
    and q: "q = ''/'' @ join ''/'' segs \<or> q = ''/'' @ join ''/'' segs @ ''/''"
    using normalize_path_segments [OF assms] by blast
  have "split_on (CHR ''/'') (join ''/'' segs @ ''/'') = (if segs = [] then [[]] else segs) @ [[]]"
    using split_by_append_sep [of "\<lambda>c. c = CHR ''/''" "CHR ''/''" "join ''/'' segs" "[]"]
      clean_join_segments [OF segs] by simp
  with q have "split_on (CHR ''/'') q = [] # (if segs = [] then [[]] else segs)
      \<or> split_on (CHR ''/'') q = [] # (if segs = [] then [[]] else segs) @ [[]]"
    using clean_join_segments [OF segs] by (elim disjE) simp_all
  with segs show ?thesis by blast
qed

theorem normalized_path_no_traversal_witness:
  "\<exists>segs. list_all clean_segment segs
     \<and> (split_on (CHR ''/'') ''/b/'' = [] # (if segs = [] then [[]] else segs)
        \<or> split_on (CHR ''/'') ''/b/'' = [] # (if segs = [] then [[]] else segs) @ [[]])"
  by (rule normalized_path_no_traversal [of Some "''/a/.././b/''"]) code_simp

text \<open>A denial names the first check that failed: the reason is an empty allowlist, an
  invalid URL or scheme, and otherwise a host no pattern covers exactly when there is none, a
  path exactly when no pattern of the host has a fitting prefix, and else the method.\<close>

theorem validate_denial_reason:
  assumes "parse_url url_parse dec u = Inr pu" "\<not> (av_require_https v \<and> pu_scheme pu \<noteq> ''https'')"
    "av_patterns v \<noteq> []"
  shows "case validate url_parse dec v u meth of
     Allowed \<Rightarrow> host_allowed v (pu_host pu)
   | Denied (HostNotAllowed h) \<Rightarrow> h = pu_host pu \<and> \<not> host_allowed v (pu_host pu)
   | Denied (PathNotAllowed h q) \<Rightarrow> h = pu_host pu \<and> q = pu_path pu \<and> host_allowed v (pu_host pu)
       \<and> list_all (\<lambda>p. ep_host_matches p (pu_host pu) \<longrightarrow>
            (case ep_path_prefix p of Some pre \<Rightarrow> \<not> starts_with (pu_path pu) pre | None \<Rightarrow> False)) (av_patterns v)
   | Denied (MethodNotAllowed m h) \<Rightarrow> m = meth \<and> h = pu_host pu
       \<and> list_ex (\<lambda>p. ep_host_matches p (pu_host pu) \<and> ep_methods p \<noteq> []
            \<and> to_upper meth \<notin> to_upper ` set (ep_methods p)) (av_patterns v)
   | Denied _ \<Rightarrow> False"
proof -
  let ?hm = "filter (\<lambda>p. ep_host_matches p (pu_host pu)) (av_patterns v)"
  let ?pre = "\<lambda>p. case ep_path_prefix p of None \<Rightarrow> True | Some pre \<Rightarrow> starts_with (pu_path pu) pre"
  have val: "validate url_parse dec v u meth =
     (if list_ex (\<lambda>p. ep_matches p (pu_host pu) (pu_path pu) meth) (av_patterns v) then Allowed
      else if ?hm = [] then Denied (HostNotAllowed (pu_host pu))
      else if filter ?pre ?hm = [] then Denied (PathNotAllowed (pu_host pu) (pu_path pu))
      else Denied (MethodNotAllowed meth (pu_host pu)))"
    using assms by (simp add: validate_def Let_def)
  have host: "host_allowed v (pu_host pu) \<longleftrightarrow> ?hm \<noteq> []"
    by (auto simp: host_allowed_def list_ex_iff filter_empty_conv)
  consider (ok) p where "p \<in> set (av_patterns v)" "ep_matches p (pu_host pu) (pu_path pu) meth"
    | (no) "\<forall>p \<in> set (av_patterns v). \<not> ep_matches p (pu_host pu) (pu_path pu) meth" by blast
  then show ?thesis
  proof cases
    case (ok p)
    then have "ep_host_matches p (pu_host pu)" by (simp add: ep_matches_def split: if_splits)
    with ok show ?thesis unfolding val by (auto simp: list_ex_iff host_allowed_def)
  next
    case no
    then have nex: "\<not> list_ex (\<lambda>p. ep_matches p (pu_host pu) (pu_path pu) meth) (av_patterns v)"
      by (auto simp: list_ex_iff)
    show ?thesis
    proof (cases "?hm = []")
      case True
      then show ?thesis unfolding val using nex host by simp
    next
      case hm: False
      show ?thesis
      proof (cases "filter ?pre ?hm = []")
        case True
        then show ?thesis unfolding val using nex host hm
          by (auto simp: list_all_iff filter_empty_conv split: option.splits)
      next
        case False
        then obtain p where p: "p \<in> set (av_patterns v)" "ep_host_matches p (pu_host pu)" "?pre p"
          by (fastforce simp: filter_empty_conv)
        then have "ep_methods p \<noteq> [] \<and> to_upper meth \<notin> to_upper ` set (ep_methods p)"
          using no by (auto simp: ep_matches_def list_ex_upper split: option.splits if_splits)
        with p False hm show ?thesis unfolding val using nex by (auto simp: list_ex_iff)
      qed
    qed
  qed
qed

theorem validate_denial_reason_witness:
  "case validate sample_url Some sample_validator ''u'' ''POST'' of
     Denied (MethodNotAllowed m h) \<Rightarrow> m = ''POST'' | _ \<Rightarrow> False"
proof -
  have pu: "parse_url sample_url Some ''u'' = Inr \<lparr>pu_scheme = ''https'', pu_host = ''api.example.com'', pu_path = ''/v1/x''\<rparr>"
    by code_simp
  have d: "validate sample_url Some sample_validator ''u'' ''POST'' = Denied (MethodNotAllowed ''POST'' ''api.example.com'')"
    by code_simp
  have v: "\<not> (av_require_https sample_validator \<and> ''https'' \<noteq> ''https'')" "av_patterns sample_validator \<noteq> []"
    by (simp_all add: sample_validator_def new_validator_def)
  have "case validate sample_url Some sample_validator ''u'' ''POST'' of
     Denied (MethodNotAllowed m h) \<Rightarrow> m = ''POST'' | _ \<Rightarrow> True"
    using validate_denial_reason [OF pu, of sample_validator "''POST''"] v
    by (simp add: d)
  then show ?thesis by (simp add: d)
qed

end
