(* ===== verification/Proxy_Policy.thy ===== *)
theory Proxy_Policy
  imports Host_Match
begin

text \<open>
  The network policy of the sandbox proxy: the domain allowlist,
  \<open>src/sandbox/proxy/allowlist.rs\<close>, and the decision with credential injection,
  \<open>src/sandbox/proxy/policy.rs\<close>, over the credential mappings of \<open>src/secrets/types.rs\<close>.
  The URL parser is a parameter.
\<close>

section \<open>Domain allowlist\<close>

record domain_pattern =
  dp_pattern :: string
  dp_is_wildcard :: bool
  dp_base_domain :: string

definition new_domain_pattern :: "string \<Rightarrow> domain_pattern" where
  "new_domain_pattern p =
     (let w = starts_with p ''*.''
      in \<lparr>dp_pattern = p, dp_is_wildcard = w,
          dp_base_domain = (if w then to_lower (drop 2 p) else to_lower p)\<rparr>)"

definition dp_matches :: "domain_pattern \<Rightarrow> string \<Rightarrow> bool" where
  "dp_matches p h =
     (let hl = to_lower h in
      if dp_is_wildcard p then hl = dp_base_domain p \<or> ends_with hl (''.'' @ dp_base_domain p)
      else hl = dp_base_domain p)"

interpretation domain: host_rule dp_matches to_lower dp_base_domain
  by unfold_locales (auto simp: dp_matches_def ends_with_iff Let_def split: if_splits)

datatype domain_validation = Domain_allowed | Domain_denied string

type_synonym domain_allowlist = "domain_pattern list"

definition new_domain_allowlist :: "string list \<Rightarrow> domain_allowlist" where
  "new_domain_allowlist ds = map new_domain_pattern ds"

definition add_domain :: "string \<Rightarrow> domain_allowlist \<Rightarrow> domain_allowlist" where
  "add_domain p al = al @ [new_domain_pattern p]"

definition domain_is_allowed :: "domain_allowlist \<Rightarrow> string \<Rightarrow> domain_validation" where
  "domain_is_allowed al h =
     (if al = [] then Domain_denied ''empty allowlist''
      else if list_ex (\<lambda>p. dp_matches p h) al then Domain_allowed
      else Domain_denied (''host '' @ [CHR 0x27] @ h @ [CHR 0x27] @ '' not in allowlist: [''
             @ join '', '' (map dp_pattern al) @ '']''))"

definition extract_host :: "(string \<Rightarrow> url option) \<Rightarrow> string \<Rightarrow> string option" where
  "extract_host url_parse s = (case url_parse s of
     None \<Rightarrow> None
   | Some u \<Rightarrow>
       if u_scheme u \<noteq> ''http'' \<and> u_scheme u \<noteq> ''https'' then None
       else map_option (\<lambda>h. to_lower (strip_brackets h)) (u_host u))"

section \<open>Requests and decisions\<close>

datatype credential_location =
    AuthorizationBearer
  | AuthorizationBasic string
  | Header string "string option"
  | QueryParam string
  | UrlPath string

record credential_mapping =
  cm_secret_name :: string
  cm_location :: credential_location
  cm_host_patterns :: "string list"

definition cm_bearer :: "string \<Rightarrow> string \<Rightarrow> credential_mapping" where
  "cm_bearer s h = \<lparr>cm_secret_name = s, cm_location = AuthorizationBearer, cm_host_patterns = [h]\<rparr>"

definition cm_header :: "string \<Rightarrow> string \<Rightarrow> string \<Rightarrow> credential_mapping" where
  "cm_header s n h = \<lparr>cm_secret_name = s, cm_location = Header n None, cm_host_patterns = [h]\<rparr>"

record network_request =
  nr_method :: string
  nr_url :: string
  nr_host :: string
  nr_path :: string

definition request_from_url ::
  "(string \<Rightarrow> url option) \<Rightarrow> string \<Rightarrow> string \<Rightarrow> network_request option" where
  "request_from_url url_parse meth s = (case url_parse s of
     None \<Rightarrow> None
   | Some u \<Rightarrow>
       if u_scheme u \<noteq> ''http'' \<and> u_scheme u \<noteq> ''https'' then None
       else (case u_host u of
         None \<Rightarrow> None
       | Some h \<Rightarrow> Some \<lparr>nr_method = to_upper meth, nr_url = s, nr_host = to_lower (strip_brackets h),
                        nr_path = u_path u\<rparr>))"

datatype network_decision =
    Allow
  | AllowWithCredentials string credential_location
  | Deny string

definition host_matches_pattern :: "string \<Rightarrow> string \<Rightarrow> bool" where
  "host_matches_pattern h pat =
     (let pl = to_lower pat in
      if pl = h then True
      else case strip_prefix pl ''*.'' of
        Some suf \<Rightarrow>
          if ends_with h suf \<and> length h > length suf
          then (let pre = take (length h - length suf) h in ends_with pre ''.'' \<or> pre = [])
          else False
      | None \<Rightarrow> False)"

definition pattern_base :: "string \<Rightarrow> string" where
  "pattern_base pat = (case strip_prefix (to_lower pat) ''*.'' of Some suf \<Rightarrow> suf | None \<Rightarrow> to_lower pat)"

interpretation credential: host_rule "\<lambda>pat h. host_matches_pattern h pat" "\<lambda>h. h" pattern_base
proof
  fix pat h assume m: "host_matches_pattern h pat"
  show "h = pattern_base pat \<or> (\<exists>l. h = l @ ''.'' @ pattern_base pat)"
  proof (cases "strip_prefix (to_lower pat) ''*.''")
    case None
    with m show ?thesis by (auto simp: host_matches_pattern_def pattern_base_def Let_def split: if_splits)
  next
    case (Some suf)
    then have base: "pattern_base pat = suf" by (simp add: pattern_base_def)
    from Some have pat: "to_lower pat = ''*.'' @ suf" unfolding strip_prefix_Some .
    show ?thesis
    proof (cases "to_lower pat = h")
      case True
      then have "h = ''*'' @ ''.'' @ suf" using pat by simp
      then show ?thesis unfolding base by blast
    next
      case False
      with m Some have "\<exists>l. h = l @ ''.'' @ suf"
        by (intro wildcard_form) (auto simp: host_matches_pattern_def Let_def split: if_splits)
      then show ?thesis unfolding base by blast
    qed
  qed
qed

record policy_decider =
  pd_allowlist :: domain_allowlist
  pd_credential_mappings :: "credential_mapping list"

definition find_credential :: "policy_decider \<Rightarrow> string \<Rightarrow> credential_mapping option" where
  "find_credential d h =
     (let hl = to_lower h in
      find (\<lambda>m. list_ex (host_matches_pattern hl) (cm_host_patterns m)) (pd_credential_mappings d))"

definition decide :: "policy_decider \<Rightarrow> network_request \<Rightarrow> network_decision" where
  "decide d r =
     (case domain_is_allowed (pd_allowlist d) (nr_host r) of
        Domain_denied why \<Rightarrow> Deny why
      | Domain_allowed \<Rightarrow>
          (case find_credential d (nr_host r) of
             Some m \<Rightarrow> AllowWithCredentials (cm_secret_name m) (cm_location m)
           | None \<Rightarrow> Allow))"

definition allow_all_decide :: "network_request \<Rightarrow> network_decision" where
  "allow_all_decide r = Allow"

definition deny_all_decide :: "string \<Rightarrow> network_request \<Rightarrow> network_decision" where
  "deny_all_decide why r = Deny why"

definition decision_allowed :: "network_decision \<Rightarrow> bool" where
  "decision_allowed x = (case x of Deny _ \<Rightarrow> False | _ \<Rightarrow> True)"

lemma decide_allowed_iff:
  "decision_allowed (decide d r) \<longleftrightarrow> list_ex (\<lambda>p. dp_matches p (nr_host r)) (pd_allowlist d)"
  by (auto simp: decision_allowed_def decide_def domain_is_allowed_def split: option.splits)

lemma dp_matches_exactly:
  "dp_matches (new_domain_pattern p) h \<longleftrightarrow>
     (if starts_with p ''*.'' then within_domain (to_lower h) (to_lower (drop 2 p)) else to_lower h = to_lower p)"
  by (auto simp: dp_matches_def new_domain_pattern_def Let_def within_domain_iff ends_with_iff)

section \<open>Properties\<close>

text \<open>The proxy lets a request through exactly when its host, in lower case, equals an
  exact domain of the allowlist or lies in the domain of a wildcard on a label boundary; an
  empty allowlist denies everything.\<close>

theorem proxy_allows_exactly:
  "decision_allowed (decide \<lparr>pd_allowlist = new_domain_allowlist ds, pd_credential_mappings = ms\<rparr> r) \<longleftrightarrow>
     list_ex (\<lambda>p. if starts_with p ''*.'' then within_domain (to_lower (nr_host r)) (to_lower (drop 2 p))
                  else to_lower (nr_host r) = to_lower p) ds"
  by (simp add: decide_allowed_iff new_domain_allowlist_def list_ex_iff dp_matches_exactly)

text \<open>C20: A credential is only injected into a request the allowlist lets through, it is that of
  the first mapping with a pattern for the host, and the host lies in the domain of that
  pattern.\<close>

theorem credentials_stay_in_domain:
  assumes "decide d r = AllowWithCredentials sec loc"
  shows "\<exists>m pat. find_credential d (nr_host r) = Some m \<and> m \<in> set (pd_credential_mappings d)
     \<and> sec = cm_secret_name m \<and> loc = cm_location m \<and> pat \<in> set (cm_host_patterns m)
     \<and> within_domain (to_lower (nr_host r)) (pattern_base pat)
     \<and> list_ex (\<lambda>p. dp_matches p (nr_host r)) (pd_allowlist d)"
proof -
  from assms obtain m where m: "find_credential d (nr_host r) = Some m"
      "sec = cm_secret_name m" "loc = cm_location m"
    by (auto simp: decide_def split: domain_validation.splits option.splits)
  then have mem: "m \<in> set (pd_credential_mappings d)"
    and hit: "list_ex (host_matches_pattern (to_lower (nr_host r))) (cm_host_patterns m)"
    by (auto simp: find_credential_def Let_def dest: find_Some_mem)
  from hit obtain pat where "pat \<in> set (cm_host_patterns m)"
      "within_domain (to_lower (nr_host r)) (pattern_base pat)"
    using credential.any_within [of "to_lower (nr_host r)" "cm_host_patterns m"] by auto
  moreover have "decision_allowed (decide d r)" by (simp add: assms decision_allowed_def)
  ultimately show ?thesis using m mem by (auto simp: decide_allowed_iff)
qed

definition sample_decider :: policy_decider where
  "sample_decider = \<lparr>pd_allowlist = new_domain_allowlist [''*.example.com''],
     pd_credential_mappings = [cm_bearer ''key'' ''*.Example.com'']\<rparr>"

definition request_to :: "string \<Rightarrow> network_request" where
  "request_to h = \<lparr>nr_method = ''GET'', nr_url = [], nr_host = h, nr_path = ''/''\<rparr>"

lemma sample_decide:
  "decide sample_decider (request_to ''api.example.com'') = AllowWithCredentials ''key'' AuthorizationBearer"
  by code_simp

theorem credentials_stay_in_domain_witness:
  "list_ex (\<lambda>p. dp_matches p ''api.example.com'') (pd_allowlist sample_decider)"
  using credentials_stay_in_domain [OF sample_decide] by (auto simp: request_to_def)

text \<open>The two matchers of the proxy disagree on the apex: a wildcard of the allowlist also
  covers the domain itself, the same wildcard of a credential mapping does not, so the
  request goes out without its credential.\<close>

theorem apex_without_credential:
  assumes "d \<noteq> []" "to_lower d = d"
  shows "decide \<lparr>pd_allowlist = new_domain_allowlist [''*.'' @ d],
                 pd_credential_mappings = [cm_bearer sec (''*.'' @ d)]\<rparr> (request_to d) = Allow"
proof -
  have low: "to_lower (''*.'' @ d) = ''*.'' @ d"
    using assms(2) by (simp add: to_lower_def lower_char_def is_upper_def code_of_def)
  have "\<not> host_matches_pattern d (''*.'' @ d)"
  proof
    assume "host_matches_pattern d (''*.'' @ d)"
    moreover have "strip_prefix (''*.'' @ d) ''*.'' = Some d" unfolding strip_prefix_Some ..
    ultimately show False unfolding host_matches_pattern_def Let_def low by (simp split: if_splits)
  qed
  then have "find_credential \<lparr>pd_allowlist = new_domain_allowlist [''*.'' @ d],
      pd_credential_mappings = [cm_bearer sec (''*.'' @ d)]\<rparr> d = None"
    unfolding find_credential_def Let_def assms(2) by (simp add: cm_bearer_def)
  moreover have "domain_is_allowed (new_domain_allowlist [''*.'' @ d]) d = Domain_allowed"
    using assms(2) by (simp add: domain_is_allowed_def new_domain_allowlist_def dp_matches_def
        new_domain_pattern_def Let_def)
  ultimately show ?thesis by (simp add: decide_def request_to_def)
qed

theorem apex_without_credential_witness:
  "decide \<lparr>pd_allowlist = new_domain_allowlist [''*.'' @ ''a.b''],
           pd_credential_mappings = [cm_bearer ''key'' (''*.'' @ ''a.b'')]\<rparr> (request_to ''a.b'') = Allow"
  by (rule apex_without_credential) code_simp+

end
