(* ===== verification/Leak_Detector.thy ===== *)
theory Leak_Detector
  imports Rust_Strings
begin

text \<open>
  The secret leak detector, \<open>src/safety/leak_detector.rs\<close>. Two libraries are parameters:
  \<open>ac\<close> gives the matches of the Aho-Corasick automaton of a list of strings in a text, in
  the order of \<open>find_iter\<close>, each as pattern index, start and end; \<open>re\<close> gives the spans a
  regular expression matches in a text. \<open>lossy\<close> is the lossy decoding of a body. The locale
  \<open>leak_scanner\<close> states what a client of the request scan relies on.
\<close>

section \<open>Patterns and results\<close>

datatype leak_action = Block | Redact | Warn

fun show_leak_action :: "leak_action \<Rightarrow> string" where
  "show_leak_action Block = ''block''"
| "show_leak_action Redact = ''redact''"
| "show_leak_action Warn = ''warn''"

datatype leak_severity = Low | Medium | High | Critical

fun show_leak_severity :: "leak_severity \<Rightarrow> string" where
  "show_leak_severity Low = ''low''"
| "show_leak_severity Medium = ''medium''"
| "show_leak_severity High = ''high''"
| "show_leak_severity Critical = ''critical''"

text \<open>The derived order of the severities.\<close>

fun severity_rank :: "leak_severity \<Rightarrow> nat" where
  "severity_rank Low = 0"
| "severity_rank Medium = 1"
| "severity_rank High = 2"
| "severity_rank Critical = 3"

instantiation leak_severity :: linorder
begin

definition less_eq_leak_severity :: "leak_severity \<Rightarrow> leak_severity \<Rightarrow> bool" where
  "less_eq_leak_severity a b \<longleftrightarrow> severity_rank a \<le> severity_rank b"

definition less_leak_severity :: "leak_severity \<Rightarrow> leak_severity \<Rightarrow> bool" where
  "less_leak_severity a b \<longleftrightarrow> severity_rank a < severity_rank b"

instance
proof
  fix a b c :: leak_severity
  show "(a < b) = (a \<le> b \<and> \<not> b \<le> a)"
    by (auto simp: less_eq_leak_severity_def less_leak_severity_def)
  show "a \<le> a" by (simp add: less_eq_leak_severity_def)
  show "a \<le> b \<Longrightarrow> b \<le> c \<Longrightarrow> a \<le> c" by (simp add: less_eq_leak_severity_def)
  show "a \<le> b \<Longrightarrow> b \<le> a \<Longrightarrow> a = b"
    by (cases a; cases b) (simp_all add: less_eq_leak_severity_def)
  show "a \<le> b \<or> b \<le> a" by (auto simp: less_eq_leak_severity_def)
qed

end

record leak_pattern =
  lp_name :: string
  lp_regex :: string
  lp_severity :: leak_severity
  lp_action :: leak_action

definition leak_pattern_of :: "string \<Rightarrow> string \<Rightarrow> leak_severity \<Rightarrow> leak_action \<Rightarrow> leak_pattern" where
  "leak_pattern_of n r s a = \<lparr>lp_name = n, lp_regex = r, lp_severity = s, lp_action = a\<rparr>"

record leak_match =
  lm_pattern_name :: string
  lm_severity :: leak_severity
  lm_action :: leak_action
  lm_location :: "nat \<times> nat"
  lm_masked_preview :: string

record leak_scan_result =
  sr_matches :: "leak_match list"
  sr_should_block :: bool
  sr_redacted_content :: "string option"

definition is_clean :: "leak_scan_result \<Rightarrow> bool" where
  "is_clean r \<longleftrightarrow> sr_matches r = []"

definition max_severity :: "leak_scan_result \<Rightarrow> leak_severity option" where
  "max_severity r = (case map lm_severity (sr_matches r) of
     [] \<Rightarrow> None | s # ss \<Rightarrow> Some (foldl max s ss))"

definition default_patterns :: "leak_pattern list" where
  "default_patterns = [
      leak_pattern_of ''openai_api_key'' (''sk-(?:proj-)?[a-zA-Z0-9]{20,}(?:T3BlbkFJ[a-zA-Z0-9_-]*)?'') Critical Block,
      leak_pattern_of ''anthropic_api_key'' (''sk-ant-api[a-zA-Z0-9_-]{90,}'') Critical Block,
      leak_pattern_of ''aws_access_key'' (''AKIA[0-9A-Z]{16}'') Critical Block,
      leak_pattern_of ''github_token'' (''gh[pousr]_[A-Za-z0-9_]{36,}'') Critical Block,
      leak_pattern_of ''github_fine_grained_pat'' (''github_pat_[a-zA-Z0-9]{22}_[a-zA-Z0-9]{59}'') Critical Block,
      leak_pattern_of ''stripe_api_key'' (''sk_(?:live|test)_[a-zA-Z0-9]{24,}'') Critical Block,
      leak_pattern_of ''gyre_session'' (''sess_[a-zA-Z0-9]{32,}'') Critical Block,
      leak_pattern_of ''pem_private_key'' (''-----BEGIN'' @ [CHR 0x5C] @ ''s+(?:RSA'' @ [CHR 0x5C] @ ''s+)?PRIVATE'' @ [CHR 0x5C] @ ''s+KEY-----'') Critical Block,
      leak_pattern_of ''ssh_private_key'' (''-----BEGIN'' @ [CHR 0x5C] @ ''s+(?:OPENSSH|EC|DSA)'' @ [CHR 0x5C] @ ''s+PRIVATE'' @ [CHR 0x5C] @ ''s+KEY-----'') Critical Block,
      leak_pattern_of ''google_api_key'' (''AIza[0-9A-Za-z_-]{35}'') High Block,
      leak_pattern_of ''slack_token'' (''xox[baprs]-[0-9a-zA-Z-]{10,}'') High Block,
      leak_pattern_of ''twilio_api_key'' (''SK[a-fA-F0-9]{32}'') High Block,
      leak_pattern_of ''sendgrid_api_key'' (''SG'' @ [CHR 0x5C] @ ''.[a-zA-Z0-9_-]{22}'' @ [CHR 0x5C] @ ''.[a-zA-Z0-9_-]{43}'') High Block,
      leak_pattern_of ''bearer_token'' (''Bearer'' @ [CHR 0x5C] @ ''s+[a-zA-Z0-9_-]{20,}'') High Redact,
      leak_pattern_of ''auth_header'' (''(?i)authorization:'' @ [CHR 0x5C] @ ''s*[a-zA-Z]+'' @ [CHR 0x5C] @ ''s+[a-zA-Z0-9_-]{20,}'') High Redact,
      leak_pattern_of ''high_entropy_hex'' ([CHR 0x5C] @ ''b[a-fA-F0-9]{64}'' @ [CHR 0x5C] @ ''b'') Medium Warn]"

section \<open>Building the detector\<close>

record leak_detector =
  ld_patterns :: "leak_pattern list"
  ld_prefix_matcher :: "string list option"
  ld_known_prefixes :: "(string \<times> nat) list"

fun literal_prefix :: "string \<Rightarrow> string" where
  "literal_prefix [] = []"
| "literal_prefix (c # cs) =
     (if c \<in> {CHR ''['', CHR ''('', CHR ''.'', CHR ''*'', CHR ''+'', CHR ''?'', CHR ''{'', CHR ''|'',
              CHR 0x5E, CHR ''$'', CHR 0x5C}
      then [] else c # literal_prefix cs)"

definition extract_literal_prefix :: "string \<Rightarrow> string option" where
  "extract_literal_prefix pat =
     (let p = literal_prefix pat in if length p \<ge> 3 then Some p else None)"

fun collect_prefixes :: "nat \<Rightarrow> leak_pattern list \<Rightarrow> (string \<times> nat) list" where
  "collect_prefixes i [] = []"
| "collect_prefixes i (p # ps) = (case extract_literal_prefix (lp_regex p) of
     Some pre \<Rightarrow> if length pre \<ge> 3 then (pre, i) # collect_prefixes (i + 1) ps else collect_prefixes (i + 1) ps
   | None \<Rightarrow> collect_prefixes (i + 1) ps)"

definition with_patterns :: "leak_pattern list \<Rightarrow> leak_detector" where
  "with_patterns ps =
     (let prefixes = collect_prefixes 0 ps
      in \<lparr>ld_patterns = ps,
          ld_prefix_matcher = (if prefixes \<noteq> [] then Some (map fst prefixes) else None),
          ld_known_prefixes = prefixes\<rparr>)"

definition new_detector :: leak_detector where
  "new_detector = with_patterns default_patterns"

definition add_pattern :: "leak_pattern \<Rightarrow> leak_detector \<Rightarrow> leak_detector" where
  "add_pattern p d = d\<lparr>ld_patterns := ld_patterns d @ [p]\<rparr>"

section \<open>Scanning\<close>

definition mask_secret :: "string \<Rightarrow> string" where
  "mask_secret s =
     (let n = length s in
      if n \<le> 8 then replicate n (CHR ''*'')
      else take 4 s @ replicate (min (n - 8) 8) (CHR ''*'') @ drop (n - 4) s)"

fun redact_loop :: "string \<Rightarrow> nat \<Rightarrow> (nat \<times> nat) list \<Rightarrow> string" where
  "redact_loop c last_end [] = (if last_end < length c then drop last_end c else [])"
| "redact_loop c last_end ((s, e) # rs) =
     (if s > last_end then take (s - last_end) (drop last_end c) else [])
     @ ''[REDACTED]'' @ redact_loop c e rs"

definition apply_redactions :: "string \<Rightarrow> (nat \<times> nat) list \<Rightarrow> string" where
  "apply_redactions c rs = (if rs = [] then c else redact_loop c 0 rs)"

definition push_new :: "nat list \<Rightarrow> nat \<Rightarrow> nat list" where
  "push_new js i = (if i \<in> set js then js else js @ [i])"

definition candidate_indices ::
  "(string list \<Rightarrow> string \<Rightarrow> (nat \<times> nat \<times> nat) list) \<Rightarrow> leak_detector \<Rightarrow> string \<Rightarrow> nat list" where
  "candidate_indices ac d c =
     (case ld_prefix_matcher d of
        Some strs \<Rightarrow>
          foldl push_new
            (foldl push_new [] (map (\<lambda>m. snd (ld_known_prefixes d ! fst m)) (ac strs c)))
            (filter (\<lambda>i. i \<notin> snd ` set (ld_known_prefixes d)) [0 ..< length (ld_patterns d)])
      | None \<Rightarrow> [0 ..< length (ld_patterns d)])"

definition pattern_matches ::
  "(string \<Rightarrow> string \<Rightarrow> (nat \<times> nat) list) \<Rightarrow> leak_pattern \<Rightarrow> string \<Rightarrow> leak_match list" where
  "pattern_matches re p c = map (\<lambda>(s, e).
     \<lparr>lm_pattern_name = lp_name p, lm_severity = lp_severity p, lm_action = lp_action p,
      lm_location = (s, e), lm_masked_preview = mask_secret (take (e - s) (drop s c))\<rparr>)
     (re (lp_regex p) c)"

definition scan ::
  "(string list \<Rightarrow> string \<Rightarrow> (nat \<times> nat \<times> nat) list) \<Rightarrow> (string \<Rightarrow> string \<Rightarrow> (nat \<times> nat) list)
     \<Rightarrow> leak_detector \<Rightarrow> string \<Rightarrow> leak_scan_result" where
  "scan ac re d c =
     (let ms = concat (map (\<lambda>i. pattern_matches re (ld_patterns d ! i) c) (candidate_indices ac d c));
          ranges = sort_key fst (map lm_location (filter (\<lambda>m. lm_action m = Redact) ms))
      in \<lparr>sr_matches = sort_key (\<lambda>m. fst (lm_location m)) ms,
          sr_should_block = list_ex (\<lambda>m. lm_action m = Block) ms,
          sr_redacted_content = (if ranges \<noteq> [] then Some (apply_redactions c ranges) else None)\<rparr>)"

datatype leak_error = SecretLeakBlocked string string

fun show_leak_error :: "leak_error \<Rightarrow> string" where
  "show_leak_error (SecretLeakBlocked pat prev) =
     ''Secret leak blocked: pattern '' @ [CHR 0x27] @ pat @ [CHR 0x27] @ '' matched ''
     @ [CHR 0x27] @ prev @ [CHR 0x27]"

definition scan_and_clean ::
  "(string list \<Rightarrow> string \<Rightarrow> (nat \<times> nat \<times> nat) list) \<Rightarrow> (string \<Rightarrow> string \<Rightarrow> (nat \<times> nat) list)
     \<Rightarrow> leak_detector \<Rightarrow> string \<Rightarrow> (leak_error, string) result" where
  "scan_and_clean ac re d c =
     (let r = scan ac re d c in
      if sr_should_block r
      then (case find (\<lambda>m. lm_action m = Block) (sr_matches r) of
              Some m \<Rightarrow> Inl (SecretLeakBlocked (lm_pattern_name m) (lm_masked_preview m))
            | None \<Rightarrow> Inl (SecretLeakBlocked [] []))
      else Inr (case sr_redacted_content r of Some x \<Rightarrow> x | None \<Rightarrow> c))"

fun scan_headers ::
  "(string \<Rightarrow> (leak_error, string) result) \<Rightarrow> (string \<times> string) list \<Rightarrow> (leak_error, unit) result" where
  "scan_headers cl [] = Inr ()"
| "scan_headers cl ((n, v) # hs) = (case cl v of
     Inl e \<Rightarrow> Inl (SecretLeakBlocked (''header:'' @ n) (show_leak_error e))
   | Inr _ \<Rightarrow> scan_headers cl hs)"

definition scan_http_request ::
  "(string list \<Rightarrow> string \<Rightarrow> (nat \<times> nat \<times> nat) list) \<Rightarrow> (string \<Rightarrow> string \<Rightarrow> (nat \<times> nat) list)
     \<Rightarrow> (string \<Rightarrow> string) \<Rightarrow> leak_detector
     \<Rightarrow> string \<Rightarrow> (string \<times> string) list \<Rightarrow> string option \<Rightarrow> (leak_error, unit) result" where
  "scan_http_request ac re lossy d url headers body =
     (case scan_and_clean ac re d url of
        Inl e \<Rightarrow> Inl e
      | Inr _ \<Rightarrow>
          (case scan_headers (scan_and_clean ac re d) headers of
             Inl e \<Rightarrow> Inl e
           | Inr _ \<Rightarrow>
               (case body of
                  None \<Rightarrow> Inr ()
                | Some b \<Rightarrow>
                    (case scan_and_clean ac re d (lossy b) of Inl e \<Rightarrow> Inl e | Inr _ \<Rightarrow> Inr ()))))"

section \<open>The interface of the request scan\<close>

locale leak_scanner =
  fixes scan_request :: "string \<Rightarrow> (string \<times> string) list \<Rightarrow> string option \<Rightarrow> ('e, unit) result"
    and part_clean :: "string \<Rightarrow> bool"
    and decode :: "string \<Rightarrow> string"
  assumes scan_ok: "scan_request u hs b = Inr () \<Longrightarrow>
      part_clean u \<and> list_all (\<lambda>(n, v). part_clean v) hs
      \<and> (case b of Some x \<Rightarrow> part_clean (decode x) | None \<Rightarrow> True)"
    and scan_bad: "isl (scan_request u hs b) \<Longrightarrow>
      \<not> part_clean u \<or> list_ex (\<lambda>(n, v). \<not> part_clean v) hs
      \<or> (case b of Some x \<Rightarrow> \<not> part_clean (decode x) | None \<Rightarrow> False)"
begin

lemma scan_exact:
  "scan_request u hs b = Inr () \<longleftrightarrow> part_clean u \<and> list_all (\<lambda>(n, v). part_clean v) hs
     \<and> (case b of Some x \<Rightarrow> part_clean (decode x) | None \<Rightarrow> True)"
proof
  assume r: "part_clean u \<and> list_all (\<lambda>(n, v). part_clean v) hs
     \<and> (case b of Some x \<Rightarrow> part_clean (decode x) | None \<Rightarrow> True)"
  then have "\<not> isl (scan_request u hs b)"
    using scan_bad [of u hs b] by (auto simp: list_all_iff list_ex_iff split: option.splits)
  then show "scan_request u hs b = Inr ()" by (cases "scan_request u hs b") auto
qed (rule scan_ok)

end

lemma scan_headers_ok: "scan_headers cl hs = Inr () \<longleftrightarrow> list_all (\<lambda>(n, v). \<not> isl (cl v)) hs"
  by (induction cl hs rule: scan_headers.induct) (auto split: sum.splits)

lemma scan_http_ok:
  "scan_http_request ac re lossy d u hs b = Inr () \<longleftrightarrow>
     \<not> isl (scan_and_clean ac re d u) \<and> list_all (\<lambda>(n, v). \<not> isl (scan_and_clean ac re d v)) hs
     \<and> (case b of Some x \<Rightarrow> \<not> isl (scan_and_clean ac re d (lossy x)) | None \<Rightarrow> True)"
  using scan_headers_ok [of "scan_and_clean ac re d" hs]
  by (auto simp: scan_http_request_def split: sum.splits option.splits)

text \<open>What passes unblocked: no match of a blocking pattern.\<close>

definition unblocked ::
  "(string list \<Rightarrow> string \<Rightarrow> (nat \<times> nat \<times> nat) list) \<Rightarrow> (string \<Rightarrow> string \<Rightarrow> (nat \<times> nat) list)
     \<Rightarrow> leak_detector \<Rightarrow> string \<Rightarrow> bool" where
  "unblocked ac re d c \<longleftrightarrow> \<not> sr_should_block (scan ac re d c)"

lemma scan_and_clean_isl: "isl (scan_and_clean ac re d c) \<longleftrightarrow> \<not> unblocked ac re d c"
  by (auto simp: scan_and_clean_def unblocked_def Let_def split: option.splits)

interpretation detector: leak_scanner "scan_http_request ac re lossy d" "unblocked ac re d" lossy
  for ac re lossy d
proof
  fix u hs b
  show "scan_http_request ac re lossy d u hs b = Inr () \<Longrightarrow>
      unblocked ac re d u \<and> list_all (\<lambda>(n, v). unblocked ac re d v) hs
      \<and> (case b of Some x \<Rightarrow> unblocked ac re d (lossy x) | None \<Rightarrow> True)"
    by (simp add: scan_http_ok scan_and_clean_isl split: option.splits)
  show "\<not> unblocked ac re d u \<or> list_ex (\<lambda>(n, v). \<not> unblocked ac re d v) hs
      \<or> (case b of Some x \<Rightarrow> \<not> unblocked ac re d (lossy x) | None \<Rightarrow> False)"
    if "isl (scan_http_request ac re lossy d u hs b)"
  proof -
    from that have "scan_http_request ac re lossy d u hs b \<noteq> Inr ()" by auto
    then show ?thesis
      unfolding scan_http_ok scan_and_clean_isl
      by (auto simp: list_all_iff list_ex_iff split: option.splits)
  qed
qed

section \<open>Candidates\<close>

lemma push_new_set: "set (foldl push_new acc xs) = set acc \<union> set xs"
  by (induction xs arbitrary: acc) (auto simp: push_new_def)

lemma collect_prefixes_index:
  "(pre, j) \<in> set (collect_prefixes i ps) \<longleftrightarrow>
     i \<le> j \<and> j < i + length ps \<and> extract_literal_prefix (lp_regex (ps ! (j - i))) = Some pre"
proof (induction i ps rule: collect_prefixes.induct)
  case (2 i p ps)
  have len: "length x \<ge> 3" if "extract_literal_prefix r = Some x" for r x
    using that by (auto simp: extract_literal_prefix_def Let_def split: if_splits)
  show ?case
    using 2 len [of "lp_regex p"]
    by (cases "j = i")
       (auto simp: nth_Cons' split: option.splits)
qed simp

definition matcher_index :: "leak_detector \<Rightarrow> nat \<times> nat \<times> nat \<Rightarrow> nat" where
  "matcher_index d m = snd (ld_known_prefixes d ! fst m)"

lemma candidate_set:
  "ld_prefix_matcher d = Some strs \<Longrightarrow> set (candidate_indices ac d c) =
     matcher_index d ` set (ac strs c)
     \<union> {i. i < length (ld_patterns d) \<and> i \<notin> snd ` set (ld_known_prefixes d)}"
  by (auto simp: candidate_indices_def push_new_set matcher_index_def image_iff)

lemma candidate_set_none:
  "ld_prefix_matcher d = None \<Longrightarrow> set (candidate_indices ac d c) = {0 ..< length (ld_patterns d)}"
  by (simp add: candidate_indices_def)

lemma set_scan_matches:
  "set (sr_matches (scan ac re d c)) =
     (\<Union>i \<in> set (candidate_indices ac d c). set (pattern_matches re (ld_patterns d ! i) c))"
  by (simp add: scan_def Let_def)

lemma scan_should_block:
  "sr_should_block (scan ac re d c) \<longleftrightarrow> (\<exists>m \<in> set (sr_matches (scan ac re d c)). lm_action m = Block)"
  unfolding set_scan_matches by (simp add: scan_def Let_def list_ex_iff)

text \<open>The documented behaviour of a matcher that misses no prefix, and of the regex engine.\<close>

definition reports_prefixes :: "(string list \<Rightarrow> string \<Rightarrow> (nat \<times> nat \<times> nat) list) \<Rightarrow> leak_detector \<Rightarrow> string \<Rightarrow> bool" where
  "reports_prefixes ac d c \<longleftrightarrow>
     (\<forall>m \<in> set (ac (map fst (ld_known_prefixes d)) c). fst m < length (ld_known_prefixes d))
   \<and> (\<forall>(pre, i) \<in> set (ld_known_prefixes d). contains_str c pre \<longrightarrow>
        i \<in> matcher_index d ` set (ac (map fst (ld_known_prefixes d)) c))"

definition matches_start_literally :: "(string \<Rightarrow> string \<Rightarrow> (nat \<times> nat) list) \<Rightarrow> string \<Rightarrow> bool" where
  "matches_start_literally re c \<longleftrightarrow>
     (\<forall>r. re r c \<noteq> [] \<longrightarrow> (case extract_literal_prefix r of Some pre \<Rightarrow> contains_str c pre | None \<Rightarrow> True))"

lemma candidates_complete:
  assumes "reports_prefixes ac (with_patterns ps) c" "matches_start_literally re c"
    "i < length ps" "re (lp_regex (ps ! i)) c \<noteq> []"
  shows "i \<in> set (candidate_indices ac (with_patterns ps) c)"
proof (cases "collect_prefixes 0 ps = []")
  case True
  then show ?thesis using assms(3) by (simp add: candidate_set_none with_patterns_def)
next
  case False
  let ?d = "with_patterns ps"
  have m: "ld_prefix_matcher ?d = Some (map fst (ld_known_prefixes ?d))"
    and k: "ld_known_prefixes ?d = collect_prefixes 0 ps" and p: "ld_patterns ?d = ps"
    using False by (simp_all add: with_patterns_def Let_def)
  show ?thesis
  proof (cases "extract_literal_prefix (lp_regex (ps ! i))")
    case None
    then have "i \<notin> snd ` set (collect_prefixes 0 ps)"
      by (auto simp: collect_prefixes_index)
    then show ?thesis using assms(3) unfolding candidate_set [OF m] k p by simp
  next
    case (Some pre)
    then have "contains_str c pre" using assms(2,4) by (auto simp: matches_start_literally_def)
    moreover have "(pre, i) \<in> set (collect_prefixes 0 ps)"
      using Some assms(3) by (simp add: collect_prefixes_index)
    ultimately have "i \<in> matcher_index ?d ` set (ac (map fst (ld_known_prefixes ?d)) c)"
      using assms(1) k by (auto simp: reports_prefixes_def)
    then show ?thesis unfolding candidate_set [OF m] by blast
  qed
qed

lemma candidates_in_range:
  assumes "reports_prefixes ac (with_patterns ps) c" "i \<in> set (candidate_indices ac (with_patterns ps) c)"
  shows "i < length ps"
proof (cases "collect_prefixes 0 ps = []")
  case True
  then show ?thesis using assms(2) by (simp add: candidate_set_none with_patterns_def)
next
  case False
  let ?d = "with_patterns ps"
  have m: "ld_prefix_matcher ?d = Some (map fst (ld_known_prefixes ?d))"
    and k: "ld_known_prefixes ?d = collect_prefixes 0 ps" and p: "ld_patterns ?d = ps"
    using False by (simp_all add: with_patterns_def Let_def)
  from assms(2) consider "i < length ps"
    | a where "a \<in> set (ac (map fst (ld_known_prefixes ?d)) c)" "i = matcher_index ?d a"
    unfolding candidate_set [OF m] p by blast
  then show ?thesis
  proof cases
    case (2 a)
    then have "fst a < length (collect_prefixes 0 ps)"
      using assms(1) k by (auto simp: reports_prefixes_def)
    then have "collect_prefixes 0 ps ! fst a \<in> set (collect_prefixes 0 ps)" by (rule nth_mem)
    then show ?thesis
      using 2(2) k collect_prefixes_index [of "fst (collect_prefixes 0 ps ! fst a)" i 0 ps]
      by (auto simp: matcher_index_def)
  qed
qed

section \<open>Redaction\<close>

text \<open>Ranges in order: starts and ends both increase, all inside the text.\<close>

definition ordered_ranges :: "nat \<Rightarrow> (nat \<times> nat) list \<Rightarrow> bool" where
  "ordered_ranges n rs \<longleftrightarrow> sorted (map fst rs) \<and> sorted (map snd rs)
     \<and> list_all (\<lambda>(s, e). s \<le> e \<and> e \<le> n) rs"

definition covered :: "(nat \<times> nat) list \<Rightarrow> nat \<Rightarrow> bool" where
  "covered rs i \<longleftrightarrow> list_ex (\<lambda>(s, e). s \<le> i \<and> i < e) rs"

lemma slice_eq:
  assumes "length c = length c'" "\<And>i. a \<le> i \<Longrightarrow> i < b \<Longrightarrow> i < length c \<Longrightarrow> c ! i = c' ! i"
  shows "take (b - a) (drop a c) = take (b - a) (drop a c')"
  by (rule nth_equalityI) (use assms in auto)

lemma redact_loop_hides:
  "\<lbrakk>length c = length c'; ordered_ranges (length c) rs; list_all (\<lambda>(s, e). le \<le> e) rs;
    \<And>i. le \<le> i \<Longrightarrow> i < length c \<Longrightarrow> \<not> covered rs i \<Longrightarrow> c ! i = c' ! i\<rbrakk>
   \<Longrightarrow> redact_loop c le rs = redact_loop c' le rs"
proof (induction rs arbitrary: le)
  case Nil
  then have "drop le c = drop le c'"
    by (intro nth_equalityI) (auto simp: covered_def)
  with Nil.prems(1) show ?case by simp
next
  case (Cons r rs)
  obtain s e where r: "r = (s, e)" by (cases r)
  have starts: "s \<le> s'" if "(s', e') \<in> set rs" for s' e'
    using Cons.prems(2) that by (force simp: ordered_ranges_def r)
  have "\<not> covered (r # rs) i" if "i < s" for i
    using that starts by (fastforce simp: covered_def r list_ex_iff)
  then have "take (s - le) (drop le c) = take (s - le) (drop le c')"
    using Cons.prems by (intro slice_eq) auto
  moreover have "redact_loop c e rs = redact_loop c' e rs"
  proof (rule Cons.IH [OF Cons.prems(1)])
    show "ordered_ranges (length c) rs" using Cons.prems(2) by (simp add: ordered_ranges_def)
    fix i assume i: "e \<le> i" "i < length c" "\<not> covered rs i"
    then show "c ! i = c' ! i"
      using Cons.prems(3,4) by (simp add: covered_def r)
  next
    show "list_all (\<lambda>(s', e'). e \<le> e') rs"
      using Cons.prems(2) by (force simp: ordered_ranges_def r list_all_iff)
  qed
  ultimately show ?case by (simp add: r)
qed

section \<open>The standard semantics of the automaton\<close>

text \<open>
  An occurrence of a pattern, and the semantics the crate documents for its default match
  kind: a match is reported as soon as its end is reached, so no occurrence that starts at or
  after its start ends before it.
\<close>

definition occurs_at :: "string list \<Rightarrow> string \<Rightarrow> nat \<times> nat \<times> nat \<Rightarrow> bool" where
  "occurs_at pats c m \<longleftrightarrow> (case m of (k, s, e) \<Rightarrow>
     k < length pats \<and> e = s + length (pats ! k) \<and> e \<le> length c
     \<and> take (length (pats ! k)) (drop s c) = pats ! k)"

definition ac_standard :: "(string list \<Rightarrow> string \<Rightarrow> (nat \<times> nat \<times> nat) list) \<Rightarrow> bool" where
  "ac_standard ac \<longleftrightarrow> (\<forall>pats c m. [] \<notin> set pats \<longrightarrow> m \<in> set (ac pats c) \<longrightarrow> occurs_at pats c m
     \<and> (\<forall>m'. occurs_at pats c m' \<and> fst (snd m) \<le> fst (snd m') \<longrightarrow> snd (snd m) \<le> snd (snd m')))"

text \<open>A direct search with these semantics, to run the detector on examples.\<close>

definition ending_at :: "string list \<Rightarrow> string \<Rightarrow> nat \<Rightarrow> nat \<Rightarrow> nat option" where
  "ending_at pats c pos e = find (\<lambda>k. pos + length (pats ! k) \<le> e
     \<and> occurs_at pats c (k, e - length (pats ! k), e)) [0 ..< length pats]"

function ac_search :: "string list \<Rightarrow> string \<Rightarrow> nat \<Rightarrow> nat \<Rightarrow> (nat \<times> nat \<times> nat) list" where
  "ac_search pats c pos e =
     (if e > length c then []
      else case ending_at pats c pos e of
        Some k \<Rightarrow> (k, e - length (pats ! k), e) # ac_search pats c e (e + 1)
      | None \<Rightarrow> ac_search pats c pos (e + 1))"
  by auto
termination by (relation "measure (\<lambda>(pats, c, pos, e). Suc (length c) - e)") auto

declare ac_search.simps [simp del]

definition ac_reference :: "string list \<Rightarrow> string \<Rightarrow> (nat \<times> nat \<times> nat) list" where
  "ac_reference pats c = ac_search pats c 0 0"

lemma ending_at_None:
  assumes "ending_at pats c pos e = None" "occurs_at pats c (k, s, e)" "pos \<le> s"
  shows False
proof -
  have "k < length pats" "e = s + length (pats ! k)" using assms(2) by (auto simp: occurs_at_def)
  with assms show False
    by (auto simp: ending_at_def find_None_all dest!: bspec [of _ _ k])
qed

lemma ac_search_standard:
  assumes "[] \<notin> set pats" "\<And>k s e'. occurs_at pats c (k, s, e') \<Longrightarrow> pos \<le> s \<Longrightarrow> e \<le> e'"
    "m \<in> set (ac_search pats c pos e)"
  shows "occurs_at pats c m
     \<and> (\<forall>m'. occurs_at pats c m' \<and> fst (snd m) \<le> fst (snd m') \<longrightarrow> snd (snd m) \<le> snd (snd m'))"
  using assms
proof (induction pats c pos e arbitrary: m rule: ac_search.induct)
  case (1 pats c pos e)
  note below = 1(4)
  have e: "\<not> e > length c" using 1(5) by (subst (asm) ac_search.simps) (auto split: if_splits)
  show ?case
  proof (cases "ending_at pats c pos e")
    case None
    have "m \<in> set (ac_search pats c pos (e + 1))"
      using 1(5) e None by (subst (asm) ac_search.simps) simp
    moreover have "e + 1 \<le> e'" if "occurs_at pats c (k, s, e')" "pos \<le> s" for k s e'
      using below [OF that] ending_at_None [OF None, of k s] that by (cases "e = e'") auto
    ultimately show ?thesis by (intro 1(1) [OF e None 1(3)]) simp_all
  next
    case (Some k)
    then have k: "pos + length (pats ! k) \<le> e" "occurs_at pats c (k, e - length (pats ! k), e)"
      using find_Some_mem by (fastforce simp: ending_at_def)+
    consider (now) "m = (k, e - length (pats ! k), e)" | (later) "m \<in> set (ac_search pats c e (e + 1))"
      using 1(5) e Some by (subst (asm) ac_search.simps) auto
    then show ?thesis
    proof cases
      case now
      then have "\<forall>m'. occurs_at pats c m' \<and> fst (snd m) \<le> fst (snd m') \<longrightarrow> snd (snd m) \<le> snd (snd m')"
        using k below by auto
      with now k show ?thesis by simp
    next
      case later
      have "e + 1 \<le> e'" if "occurs_at pats c (k', s, e')" "e \<le> s" for k' s e'
      proof -
        have "pats ! k' \<in> set pats" "e' = s + length (pats ! k')"
          using that(1) by (auto simp: occurs_at_def)
        then have "0 < length (pats ! k')" using 1(3) by (metis length_greater_0_conv)
        then show ?thesis using \<open>e' = s + length (pats ! k')\<close> that(2) by linarith
      qed
      then show ?thesis by (intro 1(2) [OF e Some 1(3) _ later])
    qed
  qed
qed

lemma ac_reference_standard: "ac_standard ac_reference"
  unfolding ac_standard_def ac_reference_def
  by (intro allI impI ac_search_standard) auto

lemma default_prefixes:
  "ld_known_prefixes new_detector =
     [(''sk-'', 0), (''sk-ant-api'', 1), (''AKIA'', 2), (''github_pat_'', 4), (''sk_'', 5), (''sess_'', 6),
      (''-----BEGIN'', 7), (''-----BEGIN'', 8), (''AIza'', 9), (''xox'', 10), (''Bearer'', 13)]"
  by code_simp

lemma default_matcher: "ld_prefix_matcher new_detector = Some (map fst (ld_known_prefixes new_detector))"
  unfolding default_prefixes by code_simp

lemma default_names: "map lp_name (ld_patterns new_detector) =
   [''openai_api_key'', ''anthropic_api_key'', ''aws_access_key'', ''github_token'', ''github_fine_grained_pat'',
    ''stripe_api_key'', ''gyre_session'', ''pem_private_key'', ''ssh_private_key'', ''google_api_key'',
    ''slack_token'', ''twilio_api_key'', ''sendgrid_api_key'', ''bearer_token'', ''auth_header'', ''high_entropy_hex'']"
  by code_simp

lemma anthropic_not_candidate:
  assumes "ac_standard ac"
  shows "1 \<notin> set (candidate_indices ac new_detector c)"
proof
  assume "1 \<in> set (candidate_indices ac new_detector c)"
  moreover have "1 \<in> snd ` set (ld_known_prefixes new_detector)" by (simp add: default_prefixes)
  ultimately obtain k s e where m: "(k, s, e) \<in> set (ac (map fst (ld_known_prefixes new_detector)) c)"
      and 1: "matcher_index new_detector (k, s, e) = 1"
    unfolding candidate_set [OF default_matcher] by force
  let ?pats = "map fst (ld_known_prefixes new_detector)"
  have "[] \<notin> set ?pats" by (simp add: default_prefixes)
  with assms m have occ: "occurs_at ?pats c (k, s, e)"
    and first: "\<And>m'. occurs_at ?pats c m' \<Longrightarrow> s \<le> fst (snd m') \<Longrightarrow> e \<le> snd (snd m')"
    unfolding ac_standard_def by fastforce+
  have "k < 11" using occ by (simp add: occurs_at_def default_prefixes)
  then have "k = 0 \<or> k = 1 \<or> k = 2 \<or> k = 3 \<or> k = 4 \<or> k = 5 \<or> k = 6 \<or> k = 7 \<or> k = 8 \<or> k = 9 \<or> k = 10" by presburger
  with 1 have "k = 1" by (elim disjE) (simp_all add: matcher_index_def default_prefixes)
  with occ have at: "e = s + 10" "e \<le> length c" "take 10 (drop s c) = ''sk-ant-api''"
    by (simp_all add: occurs_at_def default_prefixes numeral_eq_Suc)
  then have "take 3 (take 10 (drop s c)) = ''sk-''" by simp
  then have "occurs_at ?pats c (0, s, s + 3)"
    using at(1,2) by (simp add: occurs_at_def default_prefixes numeral_3_eq_3 [symmetric])
  from first [OF this] at(1) show False by simp
qed

lemma default_count: "length (ld_patterns new_detector) = 16"
  using arg_cong [OF default_names, of length] by simp

lemma candidates_below:
  assumes "ac_standard ac" "i \<in> set (candidate_indices ac new_detector c)"
  shows "i < 16"
proof -
  let ?pats = "map fst (ld_known_prefixes new_detector)"
  from assms(2) consider "i < 16" | k s e where "(k, s, e) \<in> set (ac ?pats c)" "i = matcher_index new_detector (k, s, e)"
    unfolding candidate_set [OF default_matcher] default_count by force
  then show ?thesis
  proof cases
    case (2 k s e)
    have "[] \<notin> set ?pats" by (simp add: default_prefixes)
    with assms(1) 2(1) have "occurs_at ?pats c (k, s, e)" unfolding ac_standard_def by blast
    then have "k < length (ld_known_prefixes new_detector)" by (simp add: occurs_at_def)
    then have "ld_known_prefixes new_detector ! k \<in> set (ld_known_prefixes new_detector)" by (rule nth_mem)
    then show ?thesis using 2(2) by (auto simp: matcher_index_def default_prefixes)
  qed
qed

section \<open>Properties\<close>


definition aws_regex :: string where "aws_regex = ''AKIA[0-9A-Z]{16}''"


text \<open>With the default match kind of the automaton the default detector never reports an
  Anthropic key, whatever the text and whatever its regular expression matches: the shorter
  prefix of the OpenAI pattern is always reported first and hides the longer one.\<close>

theorem anthropic_keys_undetected:
  assumes "ac_standard ac"
  shows "''anthropic_api_key'' \<notin> lm_pattern_name ` set (sr_matches (scan ac re new_detector c))"
proof
  assume "''anthropic_api_key'' \<in> lm_pattern_name ` set (sr_matches (scan ac re new_detector c))"
  then obtain i where i: "i \<in> set (candidate_indices ac new_detector c)"
      "lp_name (ld_patterns new_detector ! i) = ''anthropic_api_key''"
    unfolding set_scan_matches by (auto simp: pattern_matches_def)
  have "i < 16" using candidates_below [OF assms i(1)] .
  moreover have "i \<noteq> 1" using i(1) anthropic_not_candidate [OF assms, of c] by metis
  moreover have "map lp_name (ld_patterns new_detector) ! i = ''anthropic_api_key''"
    using i(2) \<open>i < 16\<close> by (simp add: default_count)
  ultimately show False
    unfolding default_names by (auto simp: less_Suc_eq numeral_eq_Suc)
qed

theorem anthropic_keys_undetected_witness:
  "''anthropic_api_key'' \<notin> lm_pattern_name ` set (sr_matches (scan ac_reference
     (\<lambda>r c. [(0, length c)]) new_detector (''sk-ant-api03-'' @ replicate 95 (CHR ''A''))))"
  by (rule anthropic_keys_undetected) (rule ac_reference_standard)

text \<open>Redaction hides: with ranges whose starts and ends increase, the redacted text does not
  depend on any character inside a range. What it shows is only what lies outside.\<close>

theorem redaction_hides:
  assumes "length c = length c'" "ordered_ranges (length c) rs"
    "\<forall>i < length c. covered rs i \<or> c ! i = c' ! i" "rs \<noteq> []"
  shows "apply_redactions c rs = apply_redactions c' rs"
  using assms redact_loop_hides [of c c' rs 0]
  by (auto simp: apply_redactions_def list_all_iff)

theorem redaction_hides_witness:
  "apply_redactions ''k=abc;'' [(2, 5)] = apply_redactions ''k=xyz;'' [(2, 5)]"
  by (rule redaction_hides) (simp_all add: ordered_ranges_def covered_def All_less_Suc numeral_eq_Suc)

text \<open>With nested ranges redaction fails: the text from the end of the inner range on is
  printed again, also the part of it inside the outer range.\<close>

theorem nested_ranges_exposed:
  assumes "s1 \<le> s2" "s2 \<le> e2" "e2 < e1" "e1 \<le> length c"
  shows "apply_redactions c [(s1, e1), (s2, e2)]
     = take s1 c @ ''[REDACTED]'' @ ''[REDACTED]'' @ take (e1 - e2) (drop e2 c) @ drop e1 c"
proof -
  have "drop e2 c = take (e1 - e2) (drop e2 c) @ drop (e1 - e2) (drop e2 c)"
    by (rule append_take_drop_id [symmetric])
  also have "drop (e1 - e2) (drop e2 c) = drop e1 c" using assms by simp
  finally have "drop e2 c = take (e1 - e2) (drop e2 c) @ drop e1 c" .
  with assms show ?thesis by (auto simp: apply_redactions_def)
qed

theorem nested_ranges_exposed_witness:
  "apply_redactions ''key=secret;x'' [(0, 10), (4, 5)] = ''[REDACTED][REDACTED]ecret;x''"
  using nested_ranges_exposed [of 0 4 5 10 "''key=secret;x''"] by simp

text \<open>What a scan lets through: a blocking match is an error, and otherwise the text comes
  back unchanged unless a redacting pattern matched. An HTTP request passes exactly when its
  URL, every header value and its decoded body are free of blocking matches.\<close>

theorem request_scan_exact:
  "(isl (scan_and_clean ac re d c) \<longleftrightarrow> \<not> unblocked ac re d c)
   \<and> (sr_redacted_content (scan ac re d c) = None \<longleftrightarrow>
        \<not> list_ex (\<lambda>m. lm_action m = Redact) (sr_matches (scan ac re d c)))
   \<and> (scan_http_request ac re lossy d u hs b = Inr () \<longleftrightarrow>
        unblocked ac re d u \<and> list_all (\<lambda>(n, v). unblocked ac re d v) hs
        \<and> (case b of Some x \<Rightarrow> unblocked ac re d (lossy x) | None \<Rightarrow> True))"
  using detector.scan_exact [of ac re lossy d u hs b]
  by (simp add: scan_and_clean_isl) (auto simp: scan_def Let_def list_ex_iff filter_empty_conv
      simp flip: set_empty)

end
