(* ===== verification/Egress.thy ===== *)
theory Egress
  imports Leak_Detector Host_Match Llm_Types
begin

text \<open>
  The egress policy on outbound requests, \<open>src/safety/egress.rs\<close>: leak scan, host rules,
  and the mode that decides on unmatched hosts, with its audit events. The audit log is a
  list of events, oldest first. The judge model is a parameter: its answer to a prompt within
  the time limit. \<open>wire\<close> is the JSON decoder of its verdict.
\<close>

section \<open>Modes, decisions and events\<close>

datatype egress_mode = Observe | Enforce | Judge

fun show_egress_mode :: "egress_mode \<Rightarrow> string" where
  "show_egress_mode Observe = ''observe''"
| "show_egress_mode Enforce = ''enforce''"
| "show_egress_mode Judge = ''judge''"

definition parse_egress_mode :: "string \<Rightarrow> (string, egress_mode) result" where
  "parse_egress_mode s =
     (let x = to_lower (trim s) in
      if x = ''observe'' then Inr Observe
      else if x = ''enforce'' then Inr Enforce
      else if x = ''judge'' then Inr Judge
      else Inl (''unknown egress mode '' @ [CHR 0x27] @ x @ [CHR 0x27]
                @ '' (expected observe | enforce | judge)''))"

datatype egress_decision = Egress_allowed | Egress_denied

fun show_egress_decision :: "egress_decision \<Rightarrow> string" where
  "show_egress_decision Egress_allowed = ''allowed''"
| "show_egress_decision Egress_denied = ''denied''"

definition parse_egress_decision :: "string \<Rightarrow> (string, egress_decision) result" where
  "parse_egress_decision s =
     (if s = ''allowed'' then Inr Egress_allowed
      else if s = ''denied'' then Inr Egress_denied
      else Inl (''unknown egress decision '' @ [CHR 0x27] @ s @ [CHR 0x27]))"

record egress_event =
  ee_id :: uuid
  ee_ts :: instant
  ee_tool :: string
  ee_method :: string
  ee_host :: string
  ee_path :: string
  ee_decision :: egress_decision
  ee_mode :: string
  ee_reason :: string
  ee_leak_verdict :: string

record egress_request =
  er_tool :: string
  er_method :: string
  er_url :: string
  er_host :: string
  er_path :: string
  er_headers :: "(string \<times> string) list"
  er_body :: "string option"

datatype egress_error = LeakBlocked string | Denied string string

section \<open>Host rules\<close>

text \<open>\<open>trim_end_matches('.')\<close>\<close>

definition trim_dots :: "string \<Rightarrow> string" where
  "trim_dots s = rev (dropWhile (\<lambda>c. c = CHR ''.'') (rev s))"

definition norm_host :: "string \<Rightarrow> string" where
  "norm_host h = to_lower (trim_dots (trim h))"

definition eg_host_matches :: "string \<Rightarrow> string \<Rightarrow> bool" where
  "eg_host_matches pat host =
     (let p = norm_host pat; h = norm_host host in
      if p = [] \<or> h = [] then False
      else case strip_prefix p ''*.'' of
        Some suf \<Rightarrow> length h > length suf + 1 \<and> ends_with h suf \<and> h ! (length h - length suf - 1) = CHR ''.''
      | None \<Rightarrow> h = p)"

definition rule_base :: "string \<Rightarrow> string" where
  "rule_base pat = (case strip_prefix (norm_host pat) ''*.'' of Some suf \<Rightarrow> suf | None \<Rightarrow> norm_host pat)"

lemma eg_wildcard_form:
  assumes "length h > length suf + 1" "ends_with h suf" "h ! (length h - length suf - 1) = CHR ''.''"
  shows "\<exists>l. l \<noteq> [] \<and> h = l @ ''.'' @ suf"
proof -
  from assms(2) obtain l where l: "h = l @ suf" by (auto simp: ends_with_iff)
  with assms(1) have len: "length l > 1" by simp
  then have "h ! (length h - length suf - 1) = last l"
    using l by (cases l rule: rev_cases) (auto simp: nth_append)
  with assms(3) len have "l = butlast l @ ''.''" by (metis append_butlast_last_id list.size(3) not_less_zero)
  moreover have "butlast l \<noteq> []" using len by (cases l rule: rev_cases) auto
  ultimately show ?thesis using l by (intro exI [of _ "butlast l"]) (metis append.assoc)
qed

interpretation egress_rule: host_rule eg_host_matches norm_host rule_base
proof
  fix p h assume m: "eg_host_matches p h"
  show "norm_host h = rule_base p \<or> (\<exists>l. norm_host h = l @ ''.'' @ rule_base p)"
  proof (cases "strip_prefix (norm_host p) ''*.''")
    case None
    with m show ?thesis by (auto simp: eg_host_matches_def rule_base_def Let_def split: if_splits)
  next
    case (Some suf)
    then have "rule_base p = suf" by (simp add: rule_base_def)
    then show ?thesis
      using m Some eg_wildcard_form [of suf "norm_host h"]
      by (auto simp: eg_host_matches_def Let_def split: if_splits)
  qed
qed

section \<open>The policy\<close>

text \<open>The configuration it is made from; the latency is in milliseconds.\<close>

record egress_policy =
  ep_mode :: egress_mode
  ep_allow :: "string list"
  ep_deny :: "string list"
  ep_judge_max_latency_ms :: nat

datatype rule_match = Rule_allow string | Rule_deny string | Unmatched

definition match_rules :: "egress_policy \<Rightarrow> string \<Rightarrow> rule_match" where
  "match_rules pol h =
     (case find (\<lambda>r. eg_host_matches r h) (ep_deny pol) of
        Some r \<Rightarrow> Rule_deny r
      | None \<Rightarrow>
          (case find (\<lambda>r. eg_host_matches r h) (ep_allow pol) of
             Some r \<Rightarrow> Rule_allow r
           | None \<Rightarrow> Unmatched))"

definition audit_event ::
  "uuid \<Rightarrow> instant \<Rightarrow> egress_request \<Rightarrow> egress_decision \<Rightarrow> string \<Rightarrow> string \<Rightarrow> string \<Rightarrow> egress_event" where
  "audit_event fresh now rq dec mode reason leak =
     \<lparr>ee_id = fresh, ee_ts = now, ee_tool = er_tool rq, ee_method = er_method rq,
      ee_host = er_host rq, ee_path = er_path rq, ee_decision = dec, ee_mode = mode,
      ee_reason = reason, ee_leak_verdict = leak\<rparr>"

text \<open>The prompt of the judge: a summary with header names and the size of the body.\<close>

definition judge_prompt :: "egress_request \<Rightarrow> string" where
  "judge_prompt rq =
     (let nl = [CHR 0x0A]; q = [CHR 0x22] in
      ''You are the egress judge for a personal AI agent. A tool is about ''
      @ ''to make an outbound HTTP request to a host that matches no ''
      @ ''configured allow or deny rule. Decide whether to permit it.'' @ nl @ nl
      @ ''Be skeptical: unfamiliar hosts contacted by autonomous tools are ''
      @ ''the main exfiltration channel. Consider whether the destination is ''
      @ ''a well-known legitimate service and whether it makes sense for ''
      @ ''this tool to contact it.'' @ nl @ nl
      @ ''Request summary (values redacted):'' @ nl
      @ ''- tool: '' @ er_tool rq @ nl
      @ ''- method: '' @ er_method rq @ nl
      @ ''- host: '' @ er_host rq @ nl
      @ ''- path: '' @ er_path rq @ nl
      @ ''- header names: ['' @ join '', '' (map fst (er_headers rq)) @ '']'' @ nl
      @ ''- body size: '' @ show_nat (case er_body rq of Some b \<Rightarrow> length b | None \<Rightarrow> 0) @ '' bytes'' @ nl @ nl
      @ ''Respond with a single JSON object and nothing else:'' @ nl
      @ ''{'' @ q @ ''allow'' @ q @ '': <true|false>, '' @ q @ ''reason'' @ q @ '': '' @ q
      @ ''<one short sentence>'' @ q @ ''}'' @ nl
      @ ''If uncertain, deny.'')"

definition strip_code_fence :: "string \<Rightarrow> string" where
  "strip_code_fence s = (case strip_prefix s ''```'' of
     None \<Rightarrow> s
   | Some rest \<Rightarrow>
       (let body = (case split_once (CHR 0x0A) rest of Some (lang, b) \<Rightarrow> b | None \<Rightarrow> rest)
        in case strip_suffix body ''```'' of Some x \<Rightarrow> trim x | None \<Rightarrow> s))"

record judge_verdict =
  jv_allow :: bool
  jv_reason :: string

definition parse_judge_verdict :: "(string \<Rightarrow> (bool \<times> string) option) \<Rightarrow> string \<Rightarrow> judge_verdict option" where
  "parse_judge_verdict wire s = map_option (\<lambda>(a, r).
     \<lparr>jv_allow = a, jv_reason = (if trim r = [] then ''(no reason given)'' else trim r)\<rparr>)
     (wire (strip_code_fence (trim s)))"

datatype judge_reply = Judge_timeout | Judge_failed string | Judge_answer string

text \<open>Every check returns its result and the events it recorded.\<close>

definition deny_by_judge ::
  "uuid \<Rightarrow> instant \<Rightarrow> egress_request \<Rightarrow> string \<Rightarrow> (egress_error, unit) result \<times> egress_event list" where
  "deny_by_judge fresh now rq reason =
     (Inl (Denied (er_host rq) reason), [audit_event fresh now rq Egress_denied ''judge'' reason ''clean''])"

definition judge_unmatched ::
  "(string \<Rightarrow> (bool \<times> string) option) \<Rightarrow> (string \<Rightarrow> judge_reply) option \<Rightarrow> egress_policy
     \<Rightarrow> uuid \<Rightarrow> instant \<Rightarrow> egress_request \<Rightarrow> (egress_error, unit) result \<times> egress_event list" where
  "judge_unmatched wire llm pol fresh now rq =
     (case llm of
        None \<Rightarrow> deny_by_judge fresh now rq ''judge mode with no judge model configured (fail closed)''
      | Some ask \<Rightarrow>
          (case ask (judge_prompt rq) of
             Judge_timeout \<Rightarrow> deny_by_judge fresh now rq
               (''judge timed out after '' @ show_nat (ep_judge_max_latency_ms pol) @ ''ms (fail closed)'')
           | Judge_failed e \<Rightarrow> deny_by_judge fresh now rq (''judge LLM call failed: '' @ e @ '' (fail closed)'')
           | Judge_answer resp \<Rightarrow>
               (case parse_judge_verdict wire resp of
                  Some v \<Rightarrow>
                    if jv_allow v
                    then (Inr (), [audit_event fresh now rq Egress_allowed ''judge''
                                     (''judge allowed: '' @ jv_reason v) ''clean''])
                    else deny_by_judge fresh now rq (''judge denied: '' @ jv_reason v)
                | None \<Rightarrow> deny_by_judge fresh now rq ''judge returned unparseable verdict (fail closed)'')))"

definition check_unmatched ::
  "(string \<Rightarrow> (bool \<times> string) option) \<Rightarrow> (string \<Rightarrow> judge_reply) option \<Rightarrow> egress_policy
     \<Rightarrow> uuid \<Rightarrow> instant \<Rightarrow> egress_request \<Rightarrow> (egress_error, unit) result \<times> egress_event list" where
  "check_unmatched wire llm pol fresh now rq =
     (case ep_mode pol of
        Observe \<Rightarrow> (Inr (), [audit_event fresh now rq Egress_allowed ''observe'' [] ''clean''])
      | Enforce \<Rightarrow>
          (let reason = ''matched no allow rule (enforce mode)''
           in (Inl (Denied (er_host rq) reason),
               [audit_event fresh now rq Egress_denied ''enforce'' reason ''clean'']))
      | Judge \<Rightarrow> judge_unmatched wire llm pol fresh now rq)"

definition check_with_scan ::
  "(string \<Rightarrow> (string \<times> string) list \<Rightarrow> string option \<Rightarrow> (leak_error, unit) result)
     \<Rightarrow> (string \<Rightarrow> (bool \<times> string) option) \<Rightarrow> (string \<Rightarrow> judge_reply) option \<Rightarrow> egress_policy
     \<Rightarrow> uuid \<Rightarrow> instant \<Rightarrow> egress_request \<Rightarrow> (egress_error, unit) result \<times> egress_event list" where
  "check_with_scan scan_req wire llm pol fresh now rq =
     (case scan_req (er_url rq) (er_headers rq) (er_body rq) of
        Inl e \<Rightarrow>
          (let verdict = ''blocked: '' @ show_leak_error e
           in (Inl (LeakBlocked (show_leak_error e)),
               [audit_event fresh now rq Egress_denied ''leak-scan'' verdict verdict]))
      | Inr _ \<Rightarrow>
          (case match_rules pol (er_host rq) of
             Rule_deny rule \<Rightarrow>
               (let reason = ''matched deny rule '' @ [CHR 0x27] @ rule @ [CHR 0x27]
                in (Inl (Denied (er_host rq) reason),
                    [audit_event fresh now rq Egress_denied ''rule'' reason ''clean'']))
           | Rule_allow rule \<Rightarrow>
               (let reason = ''matched allow rule '' @ [CHR 0x27] @ rule @ [CHR 0x27]
                in (Inr (), [audit_event fresh now rq Egress_allowed ''rule'' reason ''clean'']))
           | Unmatched \<Rightarrow> check_unmatched wire llm pol fresh now rq))"

text \<open>\<open>check_request\<close>: the same with the scan of the detector.\<close>

definition check_request where
  "check_request ac re lossy d = check_with_scan (scan_http_request ac re lossy d)"

section \<open>The check over any request scan\<close>

text \<open>What the check needs of the scan is the interface alone.\<close>

context leak_scanner
begin

lemma allowed_is_clean:
  assumes "fst (case scan_request (er_url rq) (er_headers rq) (er_body rq) of
      Inl e \<Rightarrow> (Inl x, y) | Inr u \<Rightarrow> rest) = Inr ()"
  shows "part_clean (er_url rq) \<and> list_all (\<lambda>(n, v). part_clean v) (er_headers rq)
     \<and> (case er_body rq of Some b \<Rightarrow> part_clean (decode b) | None \<Rightarrow> True)"
proof -
  have "scan_request (er_url rq) (er_headers rq) (er_body rq) = Inr ()"
    using assms by (cases "scan_request (er_url rq) (er_headers rq) (er_body rq)") auto
  then show ?thesis by (rule scan_ok)
qed

end

lemma check_scan_passed:
  "fst (check_with_scan sc wire llm pol fresh now rq) = Inr () \<Longrightarrow>
     sc (er_url rq) (er_headers rq) (er_body rq) = Inr ()"
  by (auto simp: check_with_scan_def Let_def split: sum.splits)

lemmas egress_checks = check_with_scan_def check_unmatched_def judge_unmatched_def deny_by_judge_def

section \<open>Properties\<close>

text \<open>Every check records exactly one event, about the request it judged, and the decision
  in the event is the result of the check.\<close>

theorem one_audit_event_per_check:
  "\<exists>ev. snd (check_request ac re lossy d wire llm pol fresh now rq) = [ev]
     \<and> ee_host ev = er_host rq \<and> ee_tool ev = er_tool rq \<and> ee_method ev = er_method rq
     \<and> ee_path ev = er_path rq
     \<and> (ee_decision ev = Egress_allowed \<longleftrightarrow> fst (check_request ac re lossy d wire llm pol fresh now rq) = Inr ())"
  unfolding check_request_def egress_checks Let_def
  by (auto simp: audit_event_def split: sum.splits rule_match.splits egress_mode.splits
      option.splits judge_reply.splits)

text \<open>What an allowed request has passed, in every mode: its URL, its header values and its
  body are free of blocking leaks, no deny rule matches its host, and unless the mode only
  observes, an allow rule holds the host in its domain or the judge has answered within its
  time with a verdict that parses and allows.\<close>

theorem egress_allowed_sound:
  assumes "fst (check_request ac re lossy d wire llm pol fresh now rq) = Inr ()"
  shows "unblocked ac re d (er_url rq) \<and> list_all (\<lambda>(n, v). unblocked ac re d v) (er_headers rq)
     \<and> (case er_body rq of Some b \<Rightarrow> unblocked ac re d (lossy b) | None \<Rightarrow> True)
     \<and> \<not> list_ex (\<lambda>r. eg_host_matches r (er_host rq)) (ep_deny pol)
     \<and> (ep_mode pol = Observe
        \<or> list_ex (\<lambda>r. within_domain (norm_host (er_host rq)) (rule_base r)) (ep_allow pol)
        \<or> (ep_mode pol = Judge \<and> (\<exists>ask resp v. llm = Some ask \<and> ask (judge_prompt rq) = Judge_answer resp
             \<and> parse_judge_verdict wire resp = Some v \<and> jv_allow v)))"
proof -
  have sc: "scan_http_request ac re lossy d (er_url rq) (er_headers rq) (er_body rq) = Inr ()"
    using assms unfolding check_request_def by (rule check_scan_passed)
  note clean = detector.scan_ok [OF sc]
  have rest: "fst (case match_rules pol (er_host rq) of
        Rule_deny r \<Rightarrow> (Inl (Denied [] []), []) | Rule_allow r \<Rightarrow> (Inr (), [])
      | Unmatched \<Rightarrow> check_unmatched wire llm pol fresh now rq) = Inr ()"
    using assms unfolding check_request_def check_with_scan_def sc
    by (auto simp: Let_def split: rule_match.splits)
  have nodeny: "\<not> list_ex (\<lambda>r. eg_host_matches r (er_host rq)) (ep_deny pol)"
    using rest by (auto simp: match_rules_def list_ex_iff find_None_all split: option.splits)
  have allow: "list_ex (\<lambda>r. within_domain (norm_host (er_host rq)) (rule_base r)) (ep_allow pol)"
    if "match_rules pol (er_host rq) = Rule_allow r" for r
    using that egress_rule.find_within [of "er_host rq" "ep_allow pol" r]
    by (auto simp: match_rules_def list_ex_iff split: option.splits)
  have judged: "\<exists>ask resp v. llm = Some ask \<and> ask (judge_prompt rq) = Judge_answer resp
      \<and> parse_judge_verdict wire resp = Some v \<and> jv_allow v"
    if "match_rules pol (er_host rq) = Unmatched" "ep_mode pol = Judge"
    using rest that unfolding check_unmatched_def judge_unmatched_def deny_by_judge_def
    by (auto split: option.splits judge_reply.splits if_splits)
  show ?thesis
    using clean nodeny allow judged rest
    by (cases "match_rules pol (er_host rq)"; cases "ep_mode pol") (auto simp: check_unmatched_def Let_def)
qed

definition sample_policy :: egress_policy where
  "sample_policy = \<lparr>ep_mode = Enforce, ep_allow = [''*.example.com''], ep_deny = [], ep_judge_max_latency_ms = 100\<rparr>"

definition sample_request :: egress_request where
  "sample_request = \<lparr>er_tool = ''http'', er_method = ''GET'', er_url = ''https://API.example.com./x'',
     er_host = ''API.example.com.'', er_path = ''/x'', er_headers = [(''a'', ''b'')], er_body = None\<rparr>"

lemma sample_check:
  "fst (check_request (\<lambda>_ _. []) (\<lambda>_ _. []) id new_detector (\<lambda>_. None) None sample_policy 1 2 sample_request) = Inr ()"
  by code_simp

theorem egress_allowed_sound_witness:
  "list_ex (\<lambda>r. within_domain (norm_host ''API.example.com.'') (rule_base r)) (ep_allow sample_policy)"
  using egress_allowed_sound [OF sample_check] by (simp add: sample_policy_def sample_request_def)

text \<open>Deny wins: a host that matches a deny rule is refused in every mode, whatever allow
  rules it also matches and whatever the judge would say.\<close>

theorem deny_rule_wins:
  assumes "r \<in> set (ep_deny pol)" "eg_host_matches r (er_host rq)"
  shows "isl (fst (check_request ac re lossy d wire llm pol fresh now rq))"
proof -
  have "find (\<lambda>r. eg_host_matches r (er_host rq)) (ep_deny pol) \<noteq> None"
    using assms by (auto simp: find_None_all)
  then show ?thesis
    unfolding check_request_def check_with_scan_def match_rules_def
    by (auto simp: Let_def split: sum.splits option.splits)
qed

theorem deny_rule_wins_witness:
  "isl (fst (check_request (\<lambda>_ _. []) (\<lambda>_ _. []) id new_detector (\<lambda>_. None) None
     (sample_policy\<lparr>ep_deny := [''api.example.com'']\<rparr>) 1 2 sample_request))"
  by (rule deny_rule_wins [of "''api.example.com''"]) (simp add: sample_policy_def, code_simp)

text \<open>The judge cannot leak or be steered by content: what it is asked depends on header
  names and on the length of the body only, so requests that differ in header values and
  body content of the same length get the same decision of an unmatched host.\<close>

theorem judge_sees_no_values:
  assumes "map fst (er_headers rq) = map fst hs" "map_option length (er_body rq) = map_option length b"
  shows "judge_prompt (rq\<lparr>er_headers := hs, er_body := b\<rparr>) = judge_prompt rq
     \<and> judge_unmatched wire llm pol fresh now (rq\<lparr>er_headers := hs, er_body := b\<rparr>)
       = judge_unmatched wire llm pol fresh now rq"
proof -
  have "(case b of Some x \<Rightarrow> length x | None \<Rightarrow> 0) = (case er_body rq of Some x \<Rightarrow> length x | None \<Rightarrow> 0)"
    using assms(2) by (cases b; cases "er_body rq") auto
  then have p: "judge_prompt (rq\<lparr>er_headers := hs, er_body := b\<rparr>) = judge_prompt rq"
    using assms(1) by (simp add: judge_prompt_def)
  have a: "audit_event fresh now (rq\<lparr>er_headers := hs, er_body := b\<rparr>) = audit_event fresh now rq"
    by (simp add: fun_eq_iff audit_event_def)
  have d: "deny_by_judge fresh now (rq\<lparr>er_headers := hs, er_body := b\<rparr>) = deny_by_judge fresh now rq"
    by (simp add: fun_eq_iff deny_by_judge_def a)
  show ?thesis unfolding judge_unmatched_def a d p by simp
qed

theorem judge_sees_no_values_witness:
  "judge_prompt (sample_request\<lparr>er_headers := [(''a'', ''secret'')], er_body := None\<rparr>) = judge_prompt sample_request"
  using judge_sees_no_values [of sample_request "[(''a'', ''secret'')]" None] by (simp add: sample_request_def)

text \<open>Modes and decisions survive printing and parsing, also padded with blanks.\<close>

theorem egress_names_roundtrip:
  "parse_egress_mode (show_egress_mode m) = Inr m
   \<and> parse_egress_mode ('' '' @ show_egress_mode m @ '' '') = Inr m
   \<and> parse_egress_decision (show_egress_decision x) = Inr x"
  by (cases m; cases x) (simp_all add: parse_egress_mode_def parse_egress_decision_def trim_def
      trim_start_def trim_end_def to_lower_def Let_def char_defs)

end
