(* ===== verification/Pairing.thy ===== *)
theory Pairing
  imports Rust_Strings "HOL-Library.Char_ord" "HOL-Library.List_Lexorder"
begin

text \<open>
  The pairing store, \<open>src/pairing/store.rs\<close>: pending requests, approval by code with its
  rate limit, and the allow list of a channel. The three files of a channel (pairing,
  allowFrom, approve-attempts) differ in their suffix, so the file system is one map per
  kind from channel keys to contents; a content that does not parse is \<open>Unparsable\<close>, and
  the only I/O error is a missing file. \<open>parse_ts\<close> is chrono's RFC 3339 parser; the two
  clock readings of an operation (\<open>stamp\<close> text and seconds \<open>now\<close>) and its random draws are
  arguments.
\<close>

section \<open>Constants, requests, files\<close>

definition PAIRING_CODE_LENGTH :: nat where "PAIRING_CODE_LENGTH = 8"
definition PAIRING_ALPHABET :: string where "PAIRING_ALPHABET = ''ABCDEFGHJKLMNPQRSTUVWXYZ23456789''"
definition PAIRING_PENDING_TTL_SECS :: nat where "PAIRING_PENDING_TTL_SECS = 15 * 60"
definition PAIRING_PENDING_MAX :: nat where "PAIRING_PENDING_MAX = 3"
definition PAIRING_APPROVE_RATE_LIMIT :: nat where "PAIRING_APPROVE_RATE_LIMIT = 10"
definition PAIRING_APPROVE_RATE_WINDOW_SECS :: nat where "PAIRING_APPROVE_RATE_WINDOW_SECS = 5 * 60"

datatype pairing_error = InvalidChannel string | Pairing_Io string | Pairing_Json string | ApproveRateLimited

record upsert_result =
  ur_code :: string
  ur_created :: bool

record pairing_request =
  pr_id :: string
  pr_code :: string
  pr_created_at :: string
  pr_last_seen_at :: string
  pr_meta :: "json option"

datatype 'a file_content = Parsed 'a | Unparsable

text \<open>\<open>serde_json::from_str(..).unwrap_or(..)\<close>\<close>

fun content_or :: "'a \<Rightarrow> 'a file_content \<Rightarrow> 'a" where
  "content_or d (Parsed x) = x"
| "content_or d Unparsable = d"

record pairing_fs =
  pf_pairing :: "string \<rightharpoonup> pairing_request list file_content"
  pf_allow :: "string \<rightharpoonup> string list file_content"
  pf_attempts :: "string \<rightharpoonup> nat list file_content"

definition empty_fs :: pairing_fs where
  "empty_fs = \<lparr>pf_pairing = Map.empty, pf_allow = Map.empty, pf_attempts = Map.empty\<rparr>"

section \<open>Channel keys\<close>

definition unsafe_char :: "char \<Rightarrow> bool" where
  "unsafe_char c \<longleftrightarrow> c \<in> {CHR 0x5C, CHR ''/'', CHR '':'', CHR ''*'', CHR ''?'', CHR 0x22,
     CHR ''<'', CHR ''>'', CHR ''|''}"

definition safe_channel_key :: "string \<Rightarrow> (pairing_error, string) result" where
  "safe_channel_key ch =
     (let raw = to_lower (trim ch) in
      if raw = [] then Inl (InvalidChannel ''empty'')
      else
        (let safe = replace_str ''..'' ''_'' (map (\<lambda>c. if unsafe_char c then CHR ''_'' else c) raw)
         in if safe = [] \<or> safe = ''_'' then Inl (InvalidChannel ch) else Inr safe))"

section \<open>Expiry and codes\<close>

definition is_expired :: "(string \<Rightarrow> nat option) \<Rightarrow> pairing_request \<Rightarrow> nat \<Rightarrow> bool" where
  "is_expired parse_ts r now \<longleftrightarrow>
     now - (case parse_ts (pr_created_at r) of Some t \<Rightarrow> t | None \<Rightarrow> 0) > PAIRING_PENDING_TTL_SECS"

definition random_code :: "nat list \<Rightarrow> string" where
  "random_code idxs = map (\<lambda>i. PAIRING_ALPHABET ! i) idxs"

text \<open>\<open>{:04}\<close>\<close>

definition pad4 :: "nat \<Rightarrow> string" where
  "pad4 n = (let s = show_nat n in replicate (4 - length s) (CHR ''0'') @ s)"

text \<open>Up to 500 draws; \<open>draw k\<close> are the indices of draw \<open>k\<close>, \<open>suffix\<close> the fallback number.\<close>

definition generate_unique_code :: "(nat \<Rightarrow> nat list) \<Rightarrow> nat \<Rightarrow> string set \<Rightarrow> string" where
  "generate_unique_code draw suffix existing =
     (case find (\<lambda>c. c \<notin> existing) (map (random_code \<circ> draw) [0 ..< 500]) of
        Some c \<Rightarrow> c
      | None \<Rightarrow> random_code (draw 500) @ pad4 suffix)"

section \<open>Operations\<close>

definition list_pending ::
  "(string \<Rightarrow> nat option) \<Rightarrow> nat \<Rightarrow> string \<Rightarrow> pairing_fs
     \<Rightarrow> (pairing_error, pairing_request list) result \<times> pairing_fs" where
  "list_pending parse_ts now ch fs =
     (case safe_channel_key ch of
        Inl e \<Rightarrow> (Inl e, fs)
      | Inr k \<Rightarrow>
          (case pf_pairing fs k of
             None \<Rightarrow> (Inr [], fs)
           | Some content \<Rightarrow>
               (let all = content_or [] content;
                    rs = filter (\<lambda>r. \<not> is_expired parse_ts r now) all;
                    fs' = (if length rs \<noteq> length all
                           then fs\<lparr>pf_pairing := (pf_pairing fs)(k \<mapsto> Parsed rs)\<rparr> else fs)
                in (Inr (sort_key pr_created_at rs), fs'))))"

fun position_of :: "('a \<Rightarrow> bool) \<Rightarrow> 'a list \<Rightarrow> nat option" where
  "position_of P [] = None"
| "position_of P (x # xs) = (if P x then Some 0 else map_option Suc (position_of P xs))"

text \<open>The request of a known sender is refreshed in place.\<close>

definition refresh_request ::
  "string \<Rightarrow> string \<Rightarrow> json option \<Rightarrow> pairing_request \<Rightarrow> pairing_request" where
  "refresh_request stamp code meta r = r\<lparr>pr_last_seen_at := stamp, pr_code := code,
     pr_meta := (case meta of Some m \<Rightarrow> Some m | None \<Rightarrow> pr_meta r)\<rparr>"

definition upsert_request ::
  "(string \<Rightarrow> nat option) \<Rightarrow> string \<Rightarrow> nat \<Rightarrow> (nat \<Rightarrow> nat list) \<Rightarrow> nat
     \<Rightarrow> string \<Rightarrow> string \<Rightarrow> json option \<Rightarrow> pairing_fs
     \<Rightarrow> (pairing_error, upsert_result) result \<times> pairing_fs" where
  "upsert_request parse_ts stamp now draw suffix ch sender meta fs =
     (case safe_channel_key ch of
        Inl e \<Rightarrow> (Inl e, fs)
      | Inr k \<Rightarrow>
          (let content = (case pf_pairing fs k of Some c \<Rightarrow> c | None \<Rightarrow> Unparsable);
               opened = fs\<lparr>pf_pairing := (pf_pairing fs)(k \<mapsto> content)\<rparr>;
               i = trim sender
           in if i = [] then (Inl (InvalidChannel ''empty id''), opened)
              else
                let rs = filter (\<lambda>r. \<not> is_expired parse_ts r now) (content_or [] content);
                    existing = set (map (\<lambda>r. to_upper (pr_code r)) rs);
                    write = (\<lambda>rs'. fs\<lparr>pf_pairing := (pf_pairing fs)(k \<mapsto> Parsed rs')\<rparr>)
                in case position_of (\<lambda>r. pr_id r = i) rs of
                     Some n \<Rightarrow>
                       (let code = (if pr_code (rs ! n) = [] then generate_unique_code draw suffix existing
                                    else pr_code (rs ! n))
                        in (Inr \<lparr>ur_code = code, ur_created = False\<rparr>,
                            write (rs[n := refresh_request stamp code meta (rs ! n)])))
                   | None \<Rightarrow>
                       if length rs \<ge> PAIRING_PENDING_MAX
                       then (Inr \<lparr>ur_code = [], ur_created = False\<rparr>, opened)
                       else
                         (let code = generate_unique_code draw suffix existing
                          in (Inr \<lparr>ur_code = code, ur_created = True\<rparr>,
                              write (rs @ [\<lparr>pr_id = i, pr_code = code, pr_created_at = stamp,
                                            pr_last_seen_at = stamp, pr_meta = meta\<rparr>])))))"

definition recent :: "nat \<Rightarrow> nat list \<Rightarrow> nat list" where
  "recent now ts = filter (\<lambda>t. t \<ge> now - PAIRING_APPROVE_RATE_WINDOW_SECS) ts"

definition is_approve_rate_limited :: "nat \<Rightarrow> string \<Rightarrow> pairing_fs \<Rightarrow> bool" where
  "is_approve_rate_limited now k fs =
     (case pf_attempts fs k of
        None \<Rightarrow> False
      | Some content \<Rightarrow> length (recent now (content_or [] content)) \<ge> PAIRING_APPROVE_RATE_LIMIT)"

definition record_failed_approve :: "nat \<Rightarrow> string \<Rightarrow> pairing_fs \<Rightarrow> pairing_fs" where
  "record_failed_approve now k fs =
     (let failed = (case pf_attempts fs k of Some c \<Rightarrow> content_or [] c | None \<Rightarrow> [])
      in fs\<lparr>pf_attempts := (pf_attempts fs)(k \<mapsto> Parsed (recent now (failed @ [now])))\<rparr>)"

text \<open>
  The file is opened with \<open>truncate(true)\<close>, so what is read after taking the lock is the
  empty file, which does not parse.
\<close>

definition add_allow_from :: "string \<Rightarrow> string \<Rightarrow> pairing_fs \<Rightarrow> pairing_fs" where
  "add_allow_from k entry fs =
     (let e = trim entry in
      if e = [] then fs
      else
        (let truncated = Unparsable; opened = fs\<lparr>pf_allow := (pf_allow fs)(k \<mapsto> truncated)\<rparr>;
             al = content_or [] truncated
         in if list_ex (\<lambda>x. to_lower x = to_lower e) al then opened
            else fs\<lparr>pf_allow := (pf_allow fs)(k \<mapsto> Parsed (al @ [e]))\<rparr>))"

definition approve ::
  "(string \<Rightarrow> nat option) \<Rightarrow> nat \<Rightarrow> string \<Rightarrow> string \<Rightarrow> pairing_fs
     \<Rightarrow> (pairing_error, pairing_request option) result \<times> pairing_fs" where
  "approve parse_ts now ch code0 fs =
     (let code = to_upper (trim code0) in
      if code = [] then (Inr None, fs)
      else case safe_channel_key ch of
        Inl e \<Rightarrow> (Inl e, fs)
      | Inr k \<Rightarrow>
          if is_approve_rate_limited now k fs then (Inl ApproveRateLimited, fs)
          else (case pf_pairing fs k of
            None \<Rightarrow> (Inl (InvalidChannel ''no pairing file''), fs)
          | Some content \<Rightarrow>
              (let rs = filter (\<lambda>r. \<not> is_expired parse_ts r now) (content_or [] content)
               in case position_of (\<lambda>r. to_upper (pr_code r) = code) rs of
                    None \<Rightarrow> (Inr None, record_failed_approve now k fs)
                  | Some n \<Rightarrow>
                      (let entry = rs ! n;
                           fs1 = fs\<lparr>pf_pairing := (pf_pairing fs)(k \<mapsto> Parsed (take n rs @ drop (Suc n) rs))\<rparr>
                       in (Inr (Some entry), add_allow_from k (pr_id entry) fs1)))))"

definition read_allow_from :: "string \<Rightarrow> pairing_fs \<Rightarrow> (pairing_error, string list) result" where
  "read_allow_from ch fs =
     (case safe_channel_key ch of
        Inl e \<Rightarrow> Inl e
      | Inr k \<Rightarrow> (case pf_allow fs k of None \<Rightarrow> Inr [] | Some c \<Rightarrow> Inr (content_or [] c)))"

definition is_sender_allowed ::
  "string \<Rightarrow> string \<Rightarrow> string option \<Rightarrow> pairing_fs \<Rightarrow> (pairing_error, bool) result" where
  "is_sender_allowed ch i username fs =
     (case read_allow_from ch fs of
        Inl e \<Rightarrow> Inl e
      | Inr al \<Rightarrow>
          if list_ex (\<lambda>e. trim e = trim i) al then Inr True
          else (case username of
            None \<Rightarrow> Inr False
          | Some u0 \<Rightarrow>
              (let u = to_lower (trim u0);
                   u_norm = (case strip_prefix u ''@'' of Some r \<Rightarrow> r | None \<Rightarrow> u)
               in Inr (list_ex (\<lambda>e. to_lower (trim e) = u \<or> to_lower (trim e) = ''@'' @ u_norm) al))))"

section \<open>Lemmas\<close>

lemma position_of_Some: "position_of P xs = Some n \<Longrightarrow> n < length xs \<and> P (xs ! n)"
  by (induction xs arbitrary: n) (auto split: if_splits)

lemma position_of_None: "position_of P xs = None \<longleftrightarrow> list_all (\<lambda>x. \<not> P x) xs"
  by (induction xs) auto

lemma replace_dots_hd:
  "replace_str ''..'' ''_'' s = CHR ''.'' # t \<Longrightarrow> \<exists>s'. s = CHR ''.'' # s'"
  by (cases s) (auto split: if_splits)

lemma replace_dots_clean: "\<not> contains_str (replace_str ''..'' ''_'' s) ''..''"
proof (induction "''..''" "''_''" s rule: replace_str.induct)
  case (2 c cs)
  show ?case
  proof (cases "starts_with (c # cs) ''..''")
    case True
    with 2(1) show ?thesis by simp
  next
    case False
    let ?t = "replace_str ''..'' ''_'' cs"
    have "\<not> contains_str ?t ''..''" using 2(2) False by simp
    moreover have "\<not> starts_with (c # ?t) ''..''"
    proof
      assume "starts_with (c # ?t) ''..''"
      then obtain t where "c = CHR ''.''" "?t = CHR ''.'' # t" by (cases ?t) auto
      with replace_dots_hd [of cs t] False show False by auto
    qed
    ultimately show ?thesis using False by auto
  qed
qed simp

lemma replace_chars: "c \<in> set (replace_str p r s) \<Longrightarrow> c \<in> set r \<union> set s"
proof (induction p r s rule: replace_str.induct)
  case (2 p r c' cs)
  then show ?case by (auto split: if_splits dest: in_set_dropD)
qed simp

lemma recent_recent: "now1 \<le> now2 \<Longrightarrow> recent now2 (recent now1 ts) = recent now2 ts"
  by (auto simp: recent_def intro!: filter_cong)

section \<open>Attempts and the history of failures\<close>

text \<open>A failed approval is one that recorded an attempt: a code that matched nothing.\<close>

definition pairing_inv :: "pairing_fs \<Rightarrow> bool" where
  "pairing_inv fs \<longleftrightarrow> (\<forall>k rs. pf_pairing fs k = Some (Parsed rs) \<longrightarrow>
     length rs \<le> PAIRING_PENDING_MAX \<and> distinct (map pr_id rs))"

lemma empty_fs_inv: "pairing_inv empty_fs"
  by (simp add: pairing_inv_def empty_fs_def)

lemma pending_of_content:
  assumes "pairing_inv fs" "pf_pairing fs k = Some c"
  shows "length (filter P (content_or [] c)) \<le> PAIRING_PENDING_MAX
     \<and> distinct (map pr_id (filter P (content_or [] c)))"
proof (cases c)
  case (Parsed rs)
  then have "length rs \<le> PAIRING_PENDING_MAX" "distinct (map pr_id rs)"
    using assms by (auto simp: pairing_inv_def)
  then show ?thesis
    using le_trans [OF length_filter_le [of P rs]] Parsed by (auto intro: distinct_filter_map)
qed simp

lemma pairing_inv_write:
  "pairing_inv fs \<Longrightarrow> length rs \<le> PAIRING_PENDING_MAX \<Longrightarrow> distinct (map pr_id rs) \<Longrightarrow>
     pairing_inv (fs\<lparr>pf_pairing := (pf_pairing fs)(k \<mapsto> Parsed rs)\<rparr>)"
  by (auto simp: pairing_inv_def)

lemma pairing_inv_other:
  "pf_pairing fs' = pf_pairing fs \<Longrightarrow> pairing_inv fs' = pairing_inv fs"
  by (simp add: pairing_inv_def)

lemma list_pending_inv [keeps]:
  "pairing_inv fs \<Longrightarrow> pairing_inv (snd (list_pending parse_ts now ch fs))"
  using pending_of_content [of fs]
  by (auto simp: list_pending_def Let_def intro!: pairing_inv_write split: sum.splits option.splits)

lemma add_allow_from_pairing [simp]: "pf_pairing (add_allow_from k e fs) = pf_pairing fs"
  by (simp add: add_allow_from_def Let_def)

lemma record_failed_pairing [simp]: "pf_pairing (record_failed_approve now k fs) = pf_pairing fs"
  by (simp add: record_failed_approve_def Let_def)

lemma distinct_take_drop:
  assumes "distinct (map f xs)"
  shows "distinct (map f (take n xs @ drop (Suc n) xs))"
proof -
  have "distinct (take n (map f xs) @ drop (Suc n) (map f xs))"
    using assms set_take_disj_set_drop_if_distinct [of "map f xs" n "Suc n"] by simp
  then show ?thesis by (simp add: take_map drop_map)
qed

lemma approve_inv [keeps]:
  assumes inv: "pairing_inv fs"
  shows "pairing_inv (snd (approve parse_ts now ch code fs))"
proof -
  have "pairing_inv (fs\<lparr>pf_pairing := (pf_pairing fs)(k \<mapsto> Parsed (take n rs @ drop (Suc n) rs))\<rparr>)"
    if "pf_pairing fs k = Some c" "rs = filter P (content_or [] c)" for k c n rs P
  proof (rule pairing_inv_write [OF inv])
    show "length (take n rs @ drop (Suc n) rs) \<le> PAIRING_PENDING_MAX"
    proof -
      have "length (take n rs @ drop (Suc n) rs) \<le> length rs" by (auto simp: min_def)
      also have "length rs \<le> PAIRING_PENDING_MAX"
        using pending_of_content [OF inv that(1), of P] that(2) by simp
      finally show ?thesis .
    qed
    show "distinct (map pr_id (take n rs @ drop (Suc n) rs))"
      using pending_of_content [OF inv that(1), of P] that(2) by (intro distinct_take_drop) simp
  qed
  then show ?thesis
    using inv pairing_inv_other [OF add_allow_from_pairing] pairing_inv_other [OF record_failed_pairing]
    by (auto simp: approve_def Let_def split: sum.splits option.splits)
qed

lemma upsert_inv [keeps]:
  assumes inv: "pairing_inv fs"
  shows "pairing_inv (snd (upsert_request parse_ts stamp now draw suffix ch sender meta fs))"
proof (cases "safe_channel_key ch")
  case (Inr k)
  define c where "c = (case pf_pairing fs k of Some c \<Rightarrow> c | None \<Rightarrow> Unparsable)"
  define rs where "rs = filter (\<lambda>r. \<not> is_expired parse_ts r now) (content_or [] c)"
  have rs: "length rs \<le> PAIRING_PENDING_MAX" "distinct (map pr_id rs)"
    using pending_of_content [OF inv, of k] unfolding rs_def c_def by (auto split: option.splits)
  have opened: "pairing_inv (fs\<lparr>pf_pairing := (pf_pairing fs)(k \<mapsto> c)\<rparr>)"
    using inv by (auto simp: pairing_inv_def c_def split: option.splits)
  have same: "map pr_id (rs[n := refresh_request stamp code meta (rs ! n)]) = map pr_id rs" for n code
    by (cases "n < length rs") (simp_all add: map_update refresh_request_def list_update_same_conv list_update_beyond)
  have fresh: "trim sender \<notin> pr_id ` set rs" if "position_of (\<lambda>r. pr_id r = trim sender) rs = None"
    using that by (auto simp: position_of_None list_all_iff)
  show ?thesis
  proof (cases "trim sender = []")
    case True
    with Inr opened show ?thesis by (simp add: upsert_request_def Let_def c_def)
  next
    case ne: False
    show ?thesis
    proof (cases "position_of (\<lambda>r. pr_id r = trim sender) rs")
      case None
      with Inr ne opened fresh rs show ?thesis
        by (auto simp: upsert_request_def Let_def c_def [symmetric] rs_def [symmetric]
            intro!: pairing_inv_write inv)
    next
      case (Some n)
      with Inr ne rs same show ?thesis
        by (auto simp: upsert_request_def Let_def c_def [symmetric] rs_def [symmetric]
            intro!: pairing_inv_write inv)
    qed
  qed
qed (use inv in \<open>simp add: upsert_request_def\<close>)

datatype pairing_event =
    Pe_list nat string
  | Pe_upsert string nat "nat \<Rightarrow> nat list" nat string string "json option"
  | Pe_approve nat string string

fun event_time :: "pairing_event \<Rightarrow> nat" where
  "event_time (Pe_list now ch) = now"
| "event_time (Pe_upsert stamp now draw suffix ch i meta) = now"
| "event_time (Pe_approve now ch code) = now"

fun pairing_step :: "(string \<Rightarrow> nat option) \<Rightarrow> pairing_fs \<Rightarrow> pairing_event \<Rightarrow> pairing_fs" where
  "pairing_step ts fs (Pe_list now ch) = snd (list_pending ts now ch fs)"
| "pairing_step ts fs (Pe_upsert stamp now draw suffix ch i meta) =
     snd (upsert_request ts stamp now draw suffix ch i meta fs)"
| "pairing_step ts fs (Pe_approve now ch code) = snd (approve ts now ch code fs)"

interpretation pairing: transition_system "pairing_step ts" pairing_inv
  for ts :: "string \<Rightarrow> nat option"
proof unfold_locales
  show "pairing_inv (pairing_step ts fs e)" if "pairing_inv fs" for fs e
    using that by (cases e) (simp_all add: keeps)
qed

text \<open>Whether an event is a failed attempt on the channel key \<open>k\<close>.\<close>

fun failed_attempt :: "(string \<Rightarrow> nat option) \<Rightarrow> string \<Rightarrow> pairing_fs \<Rightarrow> pairing_event \<Rightarrow> bool" where
  "failed_attempt ts k fs (Pe_approve now ch code) \<longleftrightarrow>
     safe_channel_key ch = Inr k \<and> to_upper (trim code) \<noteq> [] \<and> fst (approve ts now ch code fs) = Inr None"
| "failed_attempt ts k fs _ \<longleftrightarrow> False"

definition attempt_step ::
  "(string \<Rightarrow> nat option) \<Rightarrow> string \<Rightarrow> nat list \<times> pairing_fs \<Rightarrow> pairing_event \<Rightarrow> nat list \<times> pairing_fs" where
  "attempt_step ts k st e =
     (if failed_attempt ts k (snd st) e then fst st @ [event_time e] else fst st, pairing_step ts (snd st) e)"

definition failures :: "(string \<Rightarrow> nat option) \<Rightarrow> string \<Rightarrow> pairing_fs \<Rightarrow> pairing_event list \<Rightarrow> nat list" where
  "failures ts k fs es = fst (foldl (attempt_step ts k) ([], fs) es)"

definition attempts_of :: "string \<Rightarrow> pairing_fs \<Rightarrow> nat list" where
  "attempts_of k fs = (case pf_attempts fs k of Some c \<Rightarrow> content_or [] c | None \<Rightarrow> [])"

definition attempts_log :: "nat \<Rightarrow> nat list \<Rightarrow> nat list \<Rightarrow> bool" where
  "attempts_log now hist file \<longleftrightarrow> (\<forall>n \<ge> now. recent n file = recent n hist) \<and> (\<forall>t \<in> set hist. t \<le> now)
     \<and> (\<forall>x. length (filter (\<lambda>t. x \<le> t \<and> t \<le> x + PAIRING_APPROVE_RATE_WINDOW_SECS) hist) \<le> PAIRING_APPROVE_RATE_LIMIT)"

lemma rate_limited_iff:
  "is_approve_rate_limited now k fs \<longleftrightarrow> length (recent now (attempts_of k fs)) \<ge> PAIRING_APPROVE_RATE_LIMIT"
  by (auto simp: is_approve_rate_limited_def attempts_of_def recent_def PAIRING_APPROVE_RATE_LIMIT_def
      split: option.splits)

lemma attempts_of_record:
  "attempts_of k' (record_failed_approve now k fs) =
     (if k' = k then recent now (attempts_of k fs @ [now]) else attempts_of k' fs)"
  by (auto simp: attempts_of_def record_failed_approve_def Let_def split: option.splits)

lemma attempts_of_allow [simp]:
  "attempts_of k (add_allow_from k' e fs) = attempts_of k fs"
  "attempts_of k (fs\<lparr>pf_pairing := p\<rparr>) = attempts_of k fs"
  by (auto simp: attempts_of_def add_allow_from_def Let_def)

lemma attempts_of_approve:
  "attempts_of k (snd (approve ts now ch code fs)) =
     (if failed_attempt ts k fs (Pe_approve now ch code)
      then recent now (attempts_of k fs @ [now]) else attempts_of k fs)"
  by (auto simp: approve_def Let_def attempts_of_record split: sum.splits option.splits)

lemma attempts_of_step:
  "attempts_of k (pairing_step ts fs e) =
     (if failed_attempt ts k fs e then recent (event_time e) (attempts_of k fs @ [event_time e])
      else attempts_of k fs)"
proof (cases e)
  case (Pe_list now ch)
  then show ?thesis by (auto simp: list_pending_def Let_def split: sum.splits option.splits)
next
  case (Pe_upsert stamp now draw suffix ch i meta)
  then show ?thesis
    by (auto simp: upsert_request_def Let_def split: sum.splits option.splits)
qed (simp add: attempts_of_approve)

lemma failed_not_limited:
  "failed_attempt ts k fs e \<Longrightarrow> length (recent (event_time e) (attempts_of k fs)) < PAIRING_APPROVE_RATE_LIMIT"
  by (cases e) (auto simp: approve_def Let_def rate_limited_iff not_le split: if_splits)

lemma recent_append: "recent n (xs @ ys) = recent n xs @ recent n ys"
  by (simp add: recent_def)

lemma attempts_log_fail:
  assumes log: "attempts_log t hist file" and t: "t \<le> now"
    and room: "length (recent now file) < PAIRING_APPROVE_RATE_LIMIT"
  shows "attempts_log now (hist @ [now]) (recent now (file @ [now]))"
proof -
  have rec: "recent n file = recent n hist" if "now \<le> n" for n
    using log t that by (auto simp: attempts_log_def)
  have "length (filter (\<lambda>s. x \<le> s \<and> s \<le> x + PAIRING_APPROVE_RATE_WINDOW_SECS) (hist @ [now]))
      \<le> PAIRING_APPROVE_RATE_LIMIT" for x
  proof (cases "x \<le> now \<and> now \<le> x + PAIRING_APPROVE_RATE_WINDOW_SECS")
    case True
    have "length (filter (\<lambda>s. x \<le> s \<and> s \<le> x + PAIRING_APPROVE_RATE_WINDOW_SECS) hist)
        \<le> length (recent now hist)"
    proof -
      have sub: "filter (\<lambda>s. x \<le> s \<and> s \<le> x + PAIRING_APPROVE_RATE_WINDOW_SECS) hist
          = filter (\<lambda>s. x \<le> s \<and> s \<le> x + PAIRING_APPROVE_RATE_WINDOW_SECS) (recent now hist)"
        unfolding recent_def filter_filter using True by (intro filter_cong) auto
      show ?thesis unfolding sub by (rule length_filter_le)
    qed
    with room rec True show ?thesis by simp
  next
    case False
    then show ?thesis using log by (auto simp: attempts_log_def)
  qed
  then show ?thesis
    using log t rec unfolding attempts_log_def
    by (auto simp: recent_recent recent_append)
qed

lemma failures_log:
  "sorted (map event_time es) \<Longrightarrow>
     attempts_log (if es = [] then 0 else event_time (last es)) (failures ts k empty_fs es)
       (attempts_of k (snd (foldl (attempt_step ts k) ([], empty_fs) es)))"
proof (induction es rule: rev_induct)
  case Nil
  then show ?case by (simp add: attempts_log_def failures_def attempts_of_def empty_fs_def recent_def)
next
  case (snoc e es)
  obtain hist fs where run: "foldl (attempt_step ts k) ([], empty_fs) es = (hist, fs)"
    by (cases "foldl (attempt_step ts k) ([], empty_fs) es")
  let ?t = "if es = [] then 0 else event_time (last es)"
  have t: "?t \<le> event_time e" using snoc.prems by (auto simp: sorted_append)
  have IH: "attempts_log ?t hist (attempts_of k fs)"
    using snoc.IH snoc.prems by (simp add: failures_def run sorted_append)
  have step: "foldl (attempt_step ts k) ([], empty_fs) (es @ [e])
      = (if failed_attempt ts k fs e then hist @ [event_time e] else hist, pairing_step ts fs e)"
    by (simp add: run attempt_step_def)
  have "attempts_log (event_time e) (if failed_attempt ts k fs e then hist @ [event_time e] else hist)
      (attempts_of k (pairing_step ts fs e))"
  proof (cases "failed_attempt ts k fs e")
    case True
    then show ?thesis
      using attempts_log_fail [OF IH t failed_not_limited [OF True]] by (simp add: attempts_of_step)
  next
    case False
    then show ?thesis using IH t by (fastforce simp: attempts_of_step attempts_log_def)
  qed
  then show ?case unfolding failures_def step by simp
qed

section \<open>Properties\<close>

text \<open>A channel name cannot leave the store's directory: the key made of it is not empty and
  contains no path separator, none of the characters reserved in file names and no two dots
  in a row.\<close>

theorem channel_key_safe:
  assumes "safe_channel_key ch = Inr k"
  shows "k \<noteq> [] \<and> \<not> contains_str k ''..'' \<and> list_all (\<lambda>c. \<not> unsafe_char c) k"
proof -
  let ?m = "map (\<lambda>c. if unsafe_char c then CHR ''_'' else c) (to_lower (trim ch))"
  have k: "k = replace_str ''..'' ''_'' ?m" "k \<noteq> []"
    using assms by (auto simp: safe_channel_key_def Let_def split: if_splits)
  have "\<not> unsafe_char (CHR ''_'')" by (simp add: unsafe_char_def)
  then have "\<not> unsafe_char c" if "c \<in> set k" for c
    using that replace_chars [of c "''..''" "''_''" ?m] unfolding k(1) by (auto split: if_splits)
  then show ?thesis using k replace_dots_clean by (auto simp: list_all_iff)
qed

theorem channel_key_safe_witness:
  "\<not> contains_str ''__etc_passwd'' ''..'' \<and> list_all (\<lambda>c. \<not> unsafe_char c) ''__etc_passwd''"
proof -
  have "safe_channel_key '' ../ETC/passwd'' = Inr ''__etc_passwd''" by code_simp
  from channel_key_safe [OF this] show ?thesis by simp
qed

text \<open>Whatever requests and approvals arrive, each channel has at most three pending requests
  and at most one per sender.\<close>

theorem pending_requests_bounded:
  "pairing_inv (foldl (pairing_step ts) empty_fs es)"
  by (rule pairing.run_inv) (rule empty_fs_inv)

text \<open>Guessing codes is limited: whatever else happens in the store, within any five minutes
  at most ten approvals with a wrong code are let through on a channel.\<close>

theorem approval_attempts_limited:
  assumes "sorted (map event_time es)"
  shows "length (filter (\<lambda>t. x \<le> t \<and> t \<le> x + PAIRING_APPROVE_RATE_WINDOW_SECS)
     (failures ts k empty_fs es)) \<le> PAIRING_APPROVE_RATE_LIMIT"
  using failures_log [OF assms, of ts k] by (auto simp: attempts_log_def)

definition tries :: "pairing_event list" where
  "tries = Pe_upsert ''0'' 0 (\<lambda>_. [0, 0]) 0 ''c'' ''u'' None # map (\<lambda>n. Pe_approve n ''c'' ''zz'') [1 ..< 14]"

theorem approval_attempts_limited_witness:
  "length (filter (\<lambda>t. 0 \<le> t \<and> t \<le> 0 + PAIRING_APPROVE_RATE_WINDOW_SECS)
     (failures (\<lambda>_. Some 0) ''c'' empty_fs tries)) \<le> PAIRING_APPROVE_RATE_LIMIT"
  by (rule approval_attempts_limited) (simp add: tries_def upt_rec)

text \<open>An approval succeeds only with the code of a pending request that has not expired; it
  removes that request and admits its sender, and it touches no other channel.\<close>

theorem approve_sound:
  assumes "approve ts now ch code fs = (Inr (Some r), fs')" "safe_channel_key ch = Inr k"
    "trim (pr_id r) \<noteq> []" "trim (trim (pr_id r)) = trim (pr_id r)"
  shows "\<exists>rs n. pf_pairing fs k = Some (Parsed rs) \<and> r \<in> set rs \<and> \<not> is_expired ts r now
     \<and> to_upper (pr_code r) = to_upper (trim code)
     \<and> pf_pairing fs' k = Some (Parsed (take n (filter (\<lambda>r. \<not> is_expired ts r now) rs)
                                 @ drop (Suc n) (filter (\<lambda>r. \<not> is_expired ts r now) rs)))
     \<and> filter (\<lambda>r. \<not> is_expired ts r now) rs ! n = r
     \<and> is_sender_allowed ch (pr_id r) None fs' = Inr True
     \<and> (\<forall>k'. if k' = k then True else pf_pairing fs' k' = pf_pairing fs k' \<and> pf_allow fs' k' = pf_allow fs k')"
proof -
  from assms(1,2) obtain c n where c: "pf_pairing fs k = Some c"
      and n: "position_of (\<lambda>r. to_upper (pr_code r) = to_upper (trim code))
          (filter (\<lambda>r. \<not> is_expired ts r now) (content_or [] c)) = Some n"
      and r: "r = filter (\<lambda>r. \<not> is_expired ts r now) (content_or [] c) ! n"
      and fs': "fs' = add_allow_from k (pr_id r) (fs\<lparr>pf_pairing := (pf_pairing fs)(k \<mapsto>
          Parsed (take n (filter (\<lambda>r. \<not> is_expired ts r now) (content_or [] c))
             @ drop (Suc n) (filter (\<lambda>r. \<not> is_expired ts r now) (content_or [] c))))\<rparr>)"
    by (auto simp: approve_def Let_def split: if_splits option.splits)
  note pos = position_of_Some [OF n]
  then have "r \<in> set (filter (\<lambda>r. \<not> is_expired ts r now) (content_or [] c))"
    unfolding r by (intro nth_mem) simp
  moreover obtain rs where "c = Parsed rs" using pos by (cases c) auto
  moreover have "pf_allow fs' k = Some (Parsed [trim (pr_id r)])"
    using assms(3) by (simp add: fs' add_allow_from_def Let_def)
  ultimately show ?thesis
    using c pos r assms(2,3,4)
    by (intro exI [of _ rs] exI [of _ n])
       (auto simp: is_sender_allowed_def read_allow_from_def fs' add_allow_from_def Let_def)
qed

definition one_pending :: pairing_fs where
  "one_pending = empty_fs\<lparr>pf_pairing := [''c'' \<mapsto> Parsed [\<lparr>pr_id = ''bob'', pr_code = ''ABCD2345'',
     pr_created_at = ''7'', pr_last_seen_at = ''7'', pr_meta = None\<rparr>]]\<rparr>"

definition bob :: pairing_request where
  "bob = \<lparr>pr_id = ''bob'', pr_code = ''ABCD2345'', pr_created_at = ''7'', pr_last_seen_at = ''7'', pr_meta = None\<rparr>"

theorem approve_sound_witness:
  "is_sender_allowed ''c'' ''bob'' None (snd (approve (\<lambda>_. Some 7) 8 ''C'' '' abcd2345'' one_pending)) = Inr True"
proof -
  have k: "safe_channel_key ''C'' = Inr ''c''" "safe_channel_key ''c'' = Inr ''c''" by code_simp+
  have a: "fst (approve (\<lambda>_. Some 7) 8 ''C'' '' abcd2345'' one_pending) = Inr (Some bob)" by code_simp
  then have a': "approve (\<lambda>_. Some 7) 8 ''C'' '' abcd2345'' one_pending
      = (Inr (Some bob), snd (approve (\<lambda>_. Some 7) 8 ''C'' '' abcd2345'' one_pending))"
    by (metis prod.collapse)
  have t: "trim (pr_id bob) = ''bob''" "trim (trim (pr_id bob)) = trim (pr_id bob)" by code_simp+
  from approve_sound [OF a' k(1) _ t(2)] t(1)
  have "is_sender_allowed ''C'' (pr_id bob) None (snd (approve (\<lambda>_. Some 7) 8 ''C'' '' abcd2345'' one_pending)) = Inr True"
    by auto
  then show ?thesis using k by (simp add: is_sender_allowed_def read_allow_from_def bob_def)
qed

text \<open>Admitting a sender forgets all the others: the allow list is truncated before it is
  read, so once an approval has succeeded every other sender is refused, whoever was admitted
  before.\<close>

theorem approval_revokes_others:
  assumes "approve ts now ch code fs = (Inr (Some r), fs')" "trim (pr_id r) \<noteq> []"
    "trim j \<noteq> trim (trim (pr_id r))"
  shows "is_sender_allowed ch j None fs' = Inr False"
proof -
  from assms(1) obtain k where k: "safe_channel_key ch = Inr k"
      and fs': "\<exists>g. fs' = add_allow_from k (pr_id r) g"
    by (auto simp: approve_def Let_def split: if_splits sum.splits option.splits)
  from fs' have "pf_allow fs' k = Some (Parsed [trim (pr_id r)])"
    using assms(2) by (auto simp: add_allow_from_def Let_def)
  with k assms(3) show ?thesis by (simp add: is_sender_allowed_def read_allow_from_def)
qed

definition bob_pending_alice_in :: pairing_fs where
  "bob_pending_alice_in = one_pending\<lparr>pf_allow := [''c'' \<mapsto> Parsed [''alice'']]\<rparr>"

theorem approval_revokes_others_witness:
  "is_sender_allowed ''c'' ''alice'' None bob_pending_alice_in = Inr True
   \<and> is_sender_allowed ''c'' ''alice'' None (snd (approve (\<lambda>_. Some 7) 8 ''c'' ''ABCD2345'' bob_pending_alice_in)) = Inr False"
proof
  show "is_sender_allowed ''c'' ''alice'' None bob_pending_alice_in = Inr True" by code_simp
  have a: "fst (approve (\<lambda>_. Some 7) 8 ''c'' ''ABCD2345'' bob_pending_alice_in) = Inr (Some bob)" by code_simp
  then have a': "approve (\<lambda>_. Some 7) 8 ''c'' ''ABCD2345'' bob_pending_alice_in
      = (Inr (Some bob), snd (approve (\<lambda>_. Some 7) 8 ''c'' ''ABCD2345'' bob_pending_alice_in))"
    by (metis prod.collapse)
  have t: "trim (pr_id bob) \<noteq> []" "trim ''alice'' \<noteq> trim (trim (pr_id bob))" by code_simp+
  show "is_sender_allowed ''c'' ''alice'' None (snd (approve (\<lambda>_. Some 7) 8 ''c'' ''ABCD2345'' bob_pending_alice_in)) = Inr False"
    by (rule approval_revokes_others [OF a' t])
qed

end
