(* ===== verification/Token_Store.thy ===== *)
theory Token_Store
  imports Rust_Strings
begin

text \<open>
  Bearer tokens of sandboxed jobs, \<open>src/orchestrator/auth.rs\<close>: one token and one list of
  credential grants per job, the hexadecimal form of a token, and the check in front of every
  worker route. The 32 random bytes of a token are an argument. \<open>Uuid::parse_str\<close> is the
  parameter \<open>parse\<close>.
\<close>

section \<open>The store\<close>

record credential_grant =
  secret_name :: string
  env_var :: string

record token_store =
  ts_tokens :: "(uuid \<times> string) list"
  ts_grants :: "(uuid \<times> credential_grant list) list"

definition new_token_store :: token_store where
  "new_token_store = \<lparr>ts_tokens = [], ts_grants = []\<rparr>"

text \<open>\<open>{b:02x}\<close>\<close>

definition hex_digit :: "nat \<Rightarrow> char" where
  "hex_digit n = (if n < 10 then char_of (48 + n) else char_of (87 + n))"

definition hex_byte :: "8 word \<Rightarrow> string" where
  "hex_byte b = [hex_digit (unat b div 16), hex_digit (unat b mod 16)]"

definition generate_token :: "8 word list \<Rightarrow> string" where
  "generate_token bytes = foldl (\<lambda>s b. s @ hex_byte b) [] bytes"

definition create_token :: "8 word list \<Rightarrow> uuid \<Rightarrow> token_store \<Rightarrow> token_store \<times> string" where
  "create_token bytes job ts =
     (let tok = generate_token bytes
      in (ts\<lparr>ts_tokens := AList.update job tok (ts_tokens ts)\<rparr>, tok))"

definition validate_token :: "token_store \<Rightarrow> uuid \<Rightarrow> string \<Rightarrow> bool" where
  "validate_token ts job tok =
     (case map_of (ts_tokens ts) job of Some stored \<Rightarrow> stored = tok | None \<Rightarrow> False)"

definition revoke :: "uuid \<Rightarrow> token_store \<Rightarrow> token_store" where
  "revoke job ts = ts\<lparr>ts_tokens := AList.delete job (ts_tokens ts),
                      ts_grants := AList.delete job (ts_grants ts)\<rparr>"

definition active_token_count :: "token_store \<Rightarrow> nat" where
  "active_token_count ts = length (ts_tokens ts)"

definition store_grants :: "uuid \<Rightarrow> credential_grant list \<Rightarrow> token_store \<Rightarrow> token_store" where
  "store_grants job gs ts =
     (if gs \<noteq> [] then ts\<lparr>ts_grants := AList.update job gs (ts_grants ts)\<rparr> else ts)"

definition get_grants :: "token_store \<Rightarrow> uuid \<Rightarrow> credential_grant list option" where
  "get_grants ts job = map_of (ts_grants ts) job"

lemmas token_ops = create_token_def validate_token_def revoke_def store_grants_def get_grants_def
  new_token_store_def Let_def

section \<open>The check in front of the worker routes\<close>

datatype http_status = Ok_200 | No_content_204 | Bad_request_400 | Unauthorized_401
  | Not_found_404 | Bad_gateway_502 | Service_unavailable_503 | Internal_error_500

definition trim_slashes :: "string \<Rightarrow> string" where
  "trim_slashes s = dropWhile (\<lambda>c. c = CHR ''/'') s"

definition extract_job_id_from_path :: "(string \<Rightarrow> uuid option) \<Rightarrow> string \<Rightarrow> uuid option" where
  "extract_job_id_from_path parse path =
     (case split_on CHR ''/'' (trim_slashes path) of
        w # seg # _ \<Rightarrow> (if w = ''worker'' then parse seg else None)
      | _ \<Rightarrow> None)"

text \<open>
  \<open>auth\<close> is the \<open>authorization\<close> header where it is visible ASCII. \<open>next\<close> is the rest of the
  request, a transformer of the caller's state; it is reached only behind both checks.
\<close>

definition worker_auth_middleware ::
  "(string \<Rightarrow> uuid option) \<Rightarrow> token_store \<Rightarrow> string \<Rightarrow> string option
     \<Rightarrow> ('s \<Rightarrow> 's \<times> (http_status, 'r) result) \<Rightarrow> 's \<Rightarrow> 's \<times> (http_status, 'r) result" where
  "worker_auth_middleware parse ts path auth rest s =
     (case extract_job_id_from_path parse path of
        None \<Rightarrow> (s, Inl Bad_request_400)
      | Some job \<Rightarrow>
          (case Option.bind auth (\<lambda>v. strip_prefix v ''Bearer '') of
             None \<Rightarrow> (s, Inl Unauthorized_401)
           | Some tok \<Rightarrow> (if \<not> validate_token ts job tok then (s, Inl Unauthorized_401) else rest s)))"

section \<open>The hexadecimal form\<close>

lemma hex_digit_inj: "m < 16 \<Longrightarrow> n < 16 \<Longrightarrow> hex_digit m = hex_digit n \<Longrightarrow> m = n"
proof -
  assume "m < 16" "n < 16" "hex_digit m = hex_digit n"
  then have "code_of (hex_digit m) = code_of (hex_digit n)" by simp
  with \<open>m < 16\<close> \<open>n < 16\<close> show "m = n" by (auto simp: hex_digit_def split: if_splits)
qed

lemma hex_byte_inj: "hex_byte a = hex_byte b \<Longrightarrow> a = b"
proof -
  assume *: "hex_byte a = hex_byte b"
  have "unat a < 256" "unat b < 256"
    using unat_less_power [of a] unat_less_power [of b] by simp_all
  with * have "unat a div 16 = unat b div 16" "unat a mod 16 = unat b mod 16"
    by (auto simp: hex_byte_def intro: hex_digit_inj)
  then have "unat a = unat b" by (metis div_mult_mod_eq)
  then show "a = b" by (simp add: word_unat_eq_iff)
qed

lemma generate_token_concat: "generate_token bs = concat (map hex_byte bs)"
proof -
  have "foldl (\<lambda>s b. s @ hex_byte b) s bs = s @ concat (map hex_byte bs)" for s
    by (induction bs arbitrary: s) simp_all
  then show ?thesis by (simp add: generate_token_def)
qed

lemma length_generate_token: "length (generate_token bs) = 2 * length bs"
  by (induction bs) (simp_all add: generate_token_concat hex_byte_def)

lemma generate_token_inj: "generate_token as = generate_token bs \<Longrightarrow> as = bs"
proof (induction as arbitrary: bs)
  case Nil
  then have "length (generate_token bs) = 0" by (simp add: generate_token_def)
  then show ?case by (simp add: length_generate_token)
next
  case (Cons a as)
  have "length (generate_token (a # as)) = length (generate_token bs)" using Cons.prems by simp
  then have "length (a # as) = length bs" unfolding length_generate_token by simp
  then obtain b bs' where bs: "bs = b # bs'" by (cases bs) simp_all
  have "hex_byte a @ generate_token as = hex_byte b @ generate_token bs'"
    using Cons.prems bs by (simp add: generate_token_concat)
  then have "hex_byte a = hex_byte b" "generate_token as = generate_token bs'"
    by (simp_all add: hex_byte_def)
  then show ?case using Cons.IH [of bs'] hex_byte_inj [of a b] bs by blast
qed

section \<open>What a token opens\<close>

lemma validate_created [simp]:
  "validate_token (fst (create_token bs job ts)) job tok \<longleftrightarrow> tok = generate_token bs"
  by (auto simp: token_ops)

lemma validate_other [simp]:
  "job' \<noteq> job \<Longrightarrow> validate_token (fst (create_token bs job ts)) job' tok = validate_token ts job' tok"
  by (simp add: token_ops)

lemma validate_revoked [simp]:
  "validate_token (revoke job ts) job' tok \<longleftrightarrow> job' \<noteq> job \<and> validate_token ts job' tok"
  by (simp add: token_ops)

lemma validate_store_grants [simp]:
  "validate_token (store_grants job gs ts) = validate_token ts"
  by (simp add: token_ops fun_eq_iff)

lemma grants_revoked [simp]:
  "get_grants (revoke job ts) job' = (if job' = job then None else get_grants ts job')"
  by (simp add: token_ops)

lemma grants_stored [simp]:
  "get_grants (store_grants job gs ts) job'
     = (if job' = job \<and> gs \<noteq> [] then Some gs else get_grants ts job')"
  by (simp add: token_ops)

lemma grants_created [simp]: "get_grants (fst (create_token bs job ts)) = get_grants ts"
  by (simp add: token_ops fun_eq_iff)

text \<open>The operations on the store as one step, and the token each job holds after a run.\<close>

datatype token_op = Create_token uuid "8 word list" | Revoke_token uuid
  | Store_grants uuid "credential_grant list"

fun token_step :: "token_store \<Rightarrow> token_op \<Rightarrow> token_store" where
  "token_step ts (Create_token job bs) = fst (create_token bs job ts)"
| "token_step ts (Revoke_token job) = revoke job ts"
| "token_step ts (Store_grants job gs) = store_grants job gs ts"

text \<open>The random bytes of the last token of a job that was not revoked.\<close>

fun issued :: "uuid \<Rightarrow> 8 word list option \<Rightarrow> token_op list \<Rightarrow> 8 word list option" where
  "issued job cur [] = cur"
| "issued job cur (Create_token j bs # es) = issued job (if j = job then Some bs else cur) es"
| "issued job cur (Revoke_token j # es) = issued job (if j = job then None else cur) es"
| "issued job cur (Store_grants j gs # es) = issued job cur es"

definition holds_token :: "token_store \<Rightarrow> uuid \<Rightarrow> 8 word list option \<Rightarrow> bool" where
  "holds_token ts job cur \<longleftrightarrow> map_of (ts_tokens ts) job = map_option generate_token cur"

lemma run_holds_token:
  "holds_token ts job cur \<Longrightarrow> holds_token (foldl token_step ts es) job (issued job cur es)"
proof (induction es arbitrary: ts cur)
  case (Cons e es)
  have "holds_token (token_step ts e) job (case e of
      Create_token j bs \<Rightarrow> if j = job then Some bs else cur
    | Revoke_token j \<Rightarrow> if j = job then None else cur | Store_grants j gs \<Rightarrow> cur)"
    using Cons.prems by (cases e) (auto simp: holds_token_def token_ops)
  from Cons.IH [OF this] show ?case by (cases e) simp_all
qed simp

text \<open>A bearer token opens a job exactly when it is the hexadecimal form of the bytes drawn
  last for that job with no revocation since: whatever tokens, grants and revocations of all
  jobs are mixed, a token of one job does not open another job unless the same bytes were drawn
  for both.\<close>
theorem token_opens_own_job_only:
  "validate_token (foldl token_step new_token_store es) job (generate_token bs)
     \<longleftrightarrow> issued job None es = Some bs"
proof -
  have "holds_token (foldl token_step new_token_store es) job (issued job None es)"
    by (rule run_holds_token) (simp add: holds_token_def new_token_store_def)
  then show ?thesis
    by (auto simp: holds_token_def validate_token_def dest: generate_token_inj split: option.splits)
qed

end
