(* ===== verification/Orchestrator.thy ===== *)
theory Orchestrator
  imports Token_Store Llm_Types
begin

text \<open>
  Sandboxed jobs: the container manager of \<open>src/orchestrator/job_manager.rs\<close>, the worker API of
  \<open>src/orchestrator/api.rs\<close> and the tool list the container reads back
  (\<open>src/config.rs\<close>). What the Docker daemon, the file system, the model, the secrets store and
  the database answer is an argument of the operation that asks; the calls made to Docker are
  logged in the state. A path is its list of components; \<open>su\<close> prints a job identifier.
\<close>

section \<open>Jobs and containers\<close>

datatype job_mode = Worker_mode | Claude_code

fun show_job_mode :: "job_mode \<Rightarrow> string" where
  "show_job_mode Worker_mode = ''worker''"
| "show_job_mode Claude_code = ''claude_code''"

record container_config =
  cc_image :: string
  cc_memory_limit_mb :: "64 word"
  cc_cpu_shares :: "32 word"
  cc_orchestrator_port :: nat
  cc_api_key :: "string option"
  cc_oauth_token :: "string option"
  cc_model :: string
  cc_max_turns :: nat
  cc_claude_memory_mb :: "64 word"
  cc_allowed_tools :: "string list"

definition default_claude_code_allowed_tools :: "string list" where
  "default_claude_code_allowed_tools =
     [''Read(*)'', ''Write(*)'', ''Edit(*)'', ''Glob(*)'', ''Grep(*)'', ''NotebookEdit(*)'',
      ''Bash(*)'', ''Task(*)'', ''WebFetch(*)'', ''WebSearch(*)'']"

definition default_container_config :: container_config where
  "default_container_config =
     \<lparr>cc_image = ''gyre-worker:latest'', cc_memory_limit_mb = 2048, cc_cpu_shares = 1024,
      cc_orchestrator_port = 50051, cc_api_key = None, cc_oauth_token = None, cc_model = ''sonnet'',
      cc_max_turns = 50, cc_claude_memory_mb = 4096,
      cc_allowed_tools = default_claude_code_allowed_tools\<rparr>"

datatype container_state = Creating | Running | Stopped | Container_failed

fun show_container_state :: "container_state \<Rightarrow> string" where
  "show_container_state Creating = ''creating''"
| "show_container_state Running = ''running''"
| "show_container_state Stopped = ''stopped''"
| "show_container_state Container_failed = ''failed''"

record completion_result =
  cr_success :: bool
  cr_message :: "string option"

record container_handle =
  ch_job_id :: uuid
  ch_container_id :: string
  ch_state :: container_state
  ch_mode :: job_mode
  ch_created_at :: instant
  ch_project_dir :: "string list option"
  ch_task :: string
  ch_last_status :: "string option"
  ch_iteration :: "32 word"
  ch_result :: "completion_result option"

datatype orchestrator_error =
    ContainerCreationFailed uuid string
  | ContainerNotFound uuid
  | InvalidContainerState uuid string
  | ApiError string
  | Docker string

section \<open>The mounted directory\<close>

text \<open>
  What the file system answers: \<open>canonicalize\<close>, the home directory, and the creation of the
  projects directory (\<open>Some\<close> an error when it fails).
\<close>

record file_system =
  fs_canonicalize :: "string list \<Rightarrow> (string, string list) result"
  fs_home :: "string list option"
  fs_create_dir_all :: "string list \<Rightarrow> string option"

definition show_path :: "string list \<Rightarrow> string" where
  "show_path p = ''/'' @ join ''/'' p"

definition path_starts_with :: "string list \<Rightarrow> string list \<Rightarrow> bool" where
  "path_starts_with p base \<longleftrightarrow> take (length base) p = base"

definition validate_bind_mount_path ::
  "file_system \<Rightarrow> string list \<Rightarrow> uuid \<Rightarrow> (orchestrator_error, string list) result" where
  "validate_bind_mount_path fs dir job =
     (case fs_canonicalize fs dir of
        Inl e \<Rightarrow> Inl (ContainerCreationFailed job
                   (''failed to canonicalize project dir '' @ show_path dir @ '': '' @ e))
      | Inr canonical \<Rightarrow>
     (case fs_home fs of
        None \<Rightarrow> Inl (ContainerCreationFailed job
                  ''could not determine home directory for path validation'')
      | Some home \<Rightarrow>
     (let base = home @ [''.gyre'', ''projects''] in
      case fs_create_dir_all fs base of
        Some e \<Rightarrow> Inl (ContainerCreationFailed job
                    (''failed to create projects base '' @ show_path base @ '': '' @ e))
      | None \<Rightarrow>
     (case fs_canonicalize fs base of
        Inl e \<Rightarrow> Inl (ContainerCreationFailed job
                   (''failed to canonicalize projects base '' @ show_path base @ '': '' @ e))
      | Inr cbase \<Rightarrow>
          if \<not> path_starts_with canonical cbase
          then Inl (ContainerCreationFailed job
                 (''project directory '' @ show_path canonical @ '' is outside allowed base ''
                  @ show_path cbase))
          else Inr canonical))))"

section \<open>The allowed tools of a job\<close>

definition effective_allowed_tools :: "string list \<Rightarrow> string list option \<Rightarrow> string list" where
  "effective_allowed_tools configured requested =
     (case requested of None \<Rightarrow> configured | Some req \<Rightarrow> filter (\<lambda>t. t \<in> set req) configured)"

definition allowed_tools_env :: "string list \<Rightarrow> string" where
  "allowed_tools_env ts = (if ts = [] then '','' else join '','' ts)"

text \<open>\<open>parse_allowed_tools\<close> and the reading of the variable inside the container.\<close>

definition parse_allowed_tools :: "string \<Rightarrow> string list" where
  "parse_allowed_tools s = filter (\<lambda>t. t \<noteq> []) (map trim (split_on CHR '','' s))"

text \<open>\<open>optional_env\<close>: the process environment, where an empty value counts as unset, then the overlay.\<close>

definition optional_env :: "(string \<rightharpoonup> string) \<Rightarrow> (string \<rightharpoonup> string) \<Rightarrow> string \<Rightarrow> string option" where
  "optional_env env injected key =
     (case env key of
        Some v \<Rightarrow> (if v = [] then injected key else Some v)
      | None \<Rightarrow> injected key)"

definition container_allowed_tools :: "(string \<rightharpoonup> string) \<Rightarrow> (string \<rightharpoonup> string) \<Rightarrow> string list" where
  "container_allowed_tools env injected =
     (case optional_env env injected ''CLAUDE_CODE_ALLOWED_TOOLS'' of
        Some s \<Rightarrow> parse_allowed_tools s
      | None \<Rightarrow> default_claude_code_allowed_tools)"

section \<open>The container to create\<close>

record host_config =
  hc_binds :: "string list option"
  hc_memory :: int
  hc_cpu_shares :: int
  hc_network_mode :: string
  hc_extra_hosts :: "string list"
  hc_cap_drop :: "string list"
  hc_cap_add :: "string list"
  hc_security_opt :: "string list"
  hc_tmpfs :: "(string \<times> string) list"

record create_config =
  co_name :: string
  co_image :: string
  co_cmd :: "string list"
  co_env :: "string list"
  co_host :: host_config
  co_user :: string
  co_working_dir :: string

definition orchestrator_url :: "container_config \<Rightarrow> string" where
  "orchestrator_url c = ''http://172.17.0.1:'' @ show_nat (cc_orchestrator_port c)"

definition job_env :: "(uuid \<Rightarrow> string) \<Rightarrow> container_config \<Rightarrow> uuid \<Rightarrow> string \<Rightarrow> string list" where
  "job_env su c job token =
     [''GYRE_WORKER_TOKEN='' @ token, ''GYRE_JOB_ID='' @ su job,
      ''GYRE_ORCHESTRATOR_URL='' @ orchestrator_url c]"

definition claude_env :: "container_config \<Rightarrow> job_mode \<Rightarrow> string list option \<Rightarrow> string list" where
  "claude_env c mode requested =
     (if mode = Claude_code then
        (case cc_api_key c of
           Some k \<Rightarrow> [''ANTHROPIC_API_KEY='' @ k]
         | None \<Rightarrow> (case cc_oauth_token c of
                      Some t \<Rightarrow> [''CLAUDE_CODE_OAUTH_TOKEN='' @ t] | None \<Rightarrow> []))
        @ [''CLAUDE_CODE_ALLOWED_TOOLS=''
           @ allowed_tools_env (effective_allowed_tools (cc_allowed_tools c) requested)]
      else [])"

text \<open>The value a process started with these \<open>KEY=value\<close> entries reads.\<close>

definition env_lookup :: "string list \<Rightarrow> string \<Rightarrow> string option" where
  "env_lookup es key = map_of (List.map_filter (split_once CHR ''='') es) key"

fun job_cmd :: "(uuid \<Rightarrow> string) \<Rightarrow> container_config \<Rightarrow> uuid \<Rightarrow> job_mode \<Rightarrow> string list" where
  "job_cmd su c job Worker_mode =
     [''worker'', ''--job-id'', su job, ''--orchestrator-url'', orchestrator_url c]"
| "job_cmd su c job Claude_code =
     [''claude-bridge'', ''--job-id'', su job, ''--orchestrator-url'', orchestrator_url c,
      ''--max-turns'', show_nat (cc_max_turns c), ''--model'', cc_model c]"

fun container_name :: "(uuid \<Rightarrow> string) \<Rightarrow> job_mode \<Rightarrow> uuid \<Rightarrow> string" where
  "container_name su Worker_mode job = ''gyre-worker-'' @ su job"
| "container_name su Claude_code job = ''gyre-claude-'' @ su job"

text \<open>The product of the memory limit is taken in 64 bits and cast to \<open>i64\<close>.\<close>

definition container_memory :: "container_config \<Rightarrow> job_mode \<Rightarrow> int" where
  "container_memory c mode =
     sint ((case mode of Claude_code \<Rightarrow> cc_claude_memory_mb c | Worker_mode \<Rightarrow> cc_memory_limit_mb c)
           * 1024 * 1024)"

definition build_container ::
  "(uuid \<Rightarrow> string) \<Rightarrow> file_system \<Rightarrow> container_config \<Rightarrow> uuid \<Rightarrow> string \<Rightarrow> string list option \<Rightarrow> job_mode
     \<Rightarrow> string list option \<Rightarrow> (orchestrator_error, create_config) result" where
  "build_container su fs c job token dir mode requested =
     (case (case dir of
              None \<Rightarrow> Inr ([], [])
            | Some d \<Rightarrow> (case validate_bind_mount_path fs d job of
                 Inl e \<Rightarrow> Inl e
               | Inr canonical \<Rightarrow> Inr ([show_path canonical @ '':/workspace:rw''],
                                     [''GYRE_WORKSPACE=/workspace'']))) of
        Inl e \<Rightarrow> Inl e
      | Inr (binds, ws_env) \<Rightarrow> Inr
          \<lparr>co_name = container_name su mode job, co_image = cc_image c, co_cmd = job_cmd su c job mode,
           co_env = job_env su c job token @ ws_env @ claude_env c mode requested,
           co_host = \<lparr>hc_binds = (if binds = [] then None else Some binds),
             hc_memory = container_memory c mode, hc_cpu_shares = uint (cc_cpu_shares c),
             hc_network_mode = ''bridge'', hc_extra_hosts = [''host.docker.internal:host-gateway''],
             hc_cap_drop = [''ALL''], hc_cap_add = [''CHOWN''],
             hc_security_opt = [''no-new-privileges:true''],
             hc_tmpfs = [(''/tmp'', ''size=512M'')]\<rparr>,
           co_user = ''1000:1000'', co_working_dir = ''/workspace''\<rparr>)"

section \<open>The container manager\<close>

text \<open>The calls that reach the Docker daemon, in order, and the answers it gives.\<close>

datatype docker_call = Create_container create_config | Start_container string
  | Stop_container string nat | Remove_container string

record docker_answers =
  da_connect :: "string option"
  da_create :: "(string, string) result"
  da_start :: "string option"

record container_manager =
  jm_config :: container_config
  jm_tokens :: token_store
  jm_containers :: "(uuid \<times> container_handle) list"
  jm_docker :: bool
  jm_calls :: "docker_call list"

definition new_container_manager :: "container_config \<Rightarrow> token_store \<Rightarrow> container_manager" where
  "new_container_manager c ts =
     \<lparr>jm_config = c, jm_tokens = ts, jm_containers = [], jm_docker = False, jm_calls = []\<rparr>"

definition connect_cached ::
  "docker_answers \<Rightarrow> container_manager \<Rightarrow> container_manager \<times> (orchestrator_error, unit) result" where
  "connect_cached da jm =
     (if jm_docker jm then (jm, Inr ())
      else case da_connect da of
        Some e \<Rightarrow> (jm, Inl (Docker e))
      | None \<Rightarrow> (jm\<lparr>jm_docker := True\<rparr>, Inr ()))"

definition call_docker :: "docker_call list \<Rightarrow> container_manager \<Rightarrow> container_manager" where
  "call_docker cs jm = jm\<lparr>jm_calls := jm_calls jm @ cs\<rparr>"

definition get_handle :: "container_manager \<Rightarrow> uuid \<Rightarrow> container_handle option" where
  "get_handle jm job = map_of (jm_containers jm) job"

text \<open>\<open>get_mut\<close> and an assignment: nothing happens where there is no handle.\<close>

definition modify_handle ::
  "uuid \<Rightarrow> (container_handle \<Rightarrow> container_handle) \<Rightarrow> container_manager \<Rightarrow> container_manager" where
  "modify_handle job f jm =
     (case get_handle jm job of
        Some h \<Rightarrow> jm\<lparr>jm_containers := AList.update job (f h) (jm_containers jm)\<rparr>
      | None \<Rightarrow> jm)"

definition list_jobs :: "container_manager \<Rightarrow> container_handle list" where
  "list_jobs jm = map snd (jm_containers jm)"

text \<open>\<open>create_job\<close> up to the container: token, grants and handle.\<close>

definition register_job ::
  "8 word list \<Rightarrow> instant \<Rightarrow> uuid \<Rightarrow> string \<Rightarrow> string list option \<Rightarrow> job_mode \<Rightarrow> credential_grant list
     \<Rightarrow> container_manager \<Rightarrow> container_manager \<times> string" where
  "register_job bytes now job task dir mode grants jm =
     (let (ts, token) = create_token bytes job (jm_tokens jm);
          h = \<lparr>ch_job_id = job, ch_container_id = [], ch_state = Creating, ch_mode = mode,
               ch_created_at = now, ch_project_dir = dir, ch_task = task, ch_last_status = None,
               ch_iteration = 0, ch_result = None\<rparr>
      in (jm\<lparr>jm_tokens := store_grants job grants ts,
             jm_containers := AList.update job h (jm_containers jm)\<rparr>, token))"

text \<open>\<open>create_job_inner\<close> up to the started container; the result is its identifier.\<close>

definition start_job_container ::
  "(uuid \<Rightarrow> string) \<Rightarrow> file_system \<Rightarrow> docker_answers \<Rightarrow> uuid \<Rightarrow> string \<Rightarrow> string list option \<Rightarrow> job_mode
     \<Rightarrow> string list option \<Rightarrow> container_manager
     \<Rightarrow> container_manager \<times> (orchestrator_error, string) result" where
  "start_job_container su fs da job token dir mode requested jm =
     (case connect_cached da jm of
        (jm1, Inl e) \<Rightarrow> (jm1, Inl e)
      | (jm1, Inr _) \<Rightarrow>
     (case build_container su fs (jm_config jm1) job token dir mode requested of
        Inl e \<Rightarrow> (jm1, Inl e)
      | Inr cfg \<Rightarrow>
     (let jm2 = call_docker [Create_container cfg] jm1 in
      case da_create da of
        Inl e \<Rightarrow> (jm2, Inl (ContainerCreationFailed job e))
      | Inr cid \<Rightarrow>
     (let jm3 = call_docker [Start_container cid] jm2 in
      case da_start da of
        Some e \<Rightarrow> (jm3, Inl (ContainerCreationFailed job (''failed to start container: '' @ e)))
      | None \<Rightarrow> (jm3, Inr cid)))))"

definition set_running :: "uuid \<Rightarrow> string \<Rightarrow> container_manager \<Rightarrow> container_manager" where
  "set_running job cid jm =
     modify_handle job (\<lambda>h. h\<lparr>ch_container_id := cid, ch_state := Running\<rparr>) jm"

definition abandon_job :: "uuid \<Rightarrow> container_manager \<Rightarrow> container_manager" where
  "abandon_job job jm =
     jm\<lparr>jm_tokens := revoke job (jm_tokens jm),
        jm_containers := AList.delete job (jm_containers jm)\<rparr>"

definition create_container_job ::
  "(uuid \<Rightarrow> string) \<Rightarrow> file_system \<Rightarrow> docker_answers \<Rightarrow> 8 word list \<Rightarrow> instant \<Rightarrow> uuid \<Rightarrow> string
     \<Rightarrow> string list option \<Rightarrow> job_mode \<Rightarrow> credential_grant list \<Rightarrow> string list option
     \<Rightarrow> container_manager \<Rightarrow> container_manager \<times> (orchestrator_error, string) result" where
  "create_container_job su fs da bytes now job task dir mode grants requested jm =
     (let (jm1, token) = register_job bytes now job task dir mode grants jm in
      case start_job_container su fs da job token dir mode requested jm1 of
        (jm2, Inr cid) \<Rightarrow> (set_running job cid jm2, Inr token)
      | (jm2, Inl e) \<Rightarrow> (abandon_job job jm2, Inl e))"

definition stop_container_job ::
  "docker_answers \<Rightarrow> uuid \<Rightarrow> container_manager
     \<Rightarrow> container_manager \<times> (orchestrator_error, unit) result" where
  "stop_container_job da job jm =
     (case get_handle jm job of
        None \<Rightarrow> (jm, Inl (ContainerNotFound job))
      | Some h \<Rightarrow>
          if ch_container_id h = []
          then (jm, Inl (InvalidContainerState job ''creating (no container ID yet)''))
          else (case connect_cached da jm of
              (jm1, Inl e) \<Rightarrow> (jm1, Inl e)
            | (jm1, Inr _) \<Rightarrow>
                (let jm2 = call_docker [Stop_container (ch_container_id h) 10,
                                        Remove_container (ch_container_id h)] jm1;
                     jm3 = modify_handle job (\<lambda>h. h\<lparr>ch_state := Stopped\<rparr>) jm2
                 in (jm3\<lparr>jm_tokens := revoke job (jm_tokens jm3)\<rparr>, Inr ()))))"

definition complete_job ::
  "docker_answers \<Rightarrow> uuid \<Rightarrow> completion_result \<Rightarrow> container_manager
     \<Rightarrow> container_manager \<times> (orchestrator_error, unit) result" where
  "complete_job da job res jm =
     (let jm1 = modify_handle job (\<lambda>h. h\<lparr>ch_result := Some res, ch_state := Stopped\<rparr>) jm;
          jm2 = (case map_option ch_container_id (get_handle jm1 job) of
                   Some cid \<Rightarrow>
                     if cid \<noteq> [] then
                       (case connect_cached da jm1 of
                          (j, Inr _) \<Rightarrow> call_docker [Stop_container cid 5, Remove_container cid] j
                        | (j, Inl _) \<Rightarrow> j)
                     else jm1
                 | None \<Rightarrow> jm1)
      in (jm2\<lparr>jm_tokens := revoke job (jm_tokens jm2)\<rparr>, Inr ()))"

definition cleanup_job :: "uuid \<Rightarrow> container_manager \<Rightarrow> container_manager" where
  "cleanup_job job jm = jm\<lparr>jm_containers := AList.delete job (jm_containers jm)\<rparr>"

definition update_worker_status ::
  "uuid \<Rightarrow> string option \<Rightarrow> 32 word \<Rightarrow> container_manager \<Rightarrow> container_manager" where
  "update_worker_status job msg it jm =
     modify_handle job (\<lambda>h. h\<lparr>ch_last_status := msg, ch_iteration := it\<rparr>) jm"

lemmas manager_ops [ops] = create_container_job_def register_job_def start_job_container_def
  set_running_def abandon_job_def stop_container_job_def complete_job_def cleanup_job_def
  update_worker_status_def connect_cached_def call_docker_def

section \<open>Laws of the operations\<close>

lemma get_handle_modify [simp]:
  "get_handle (modify_handle job f jm) j
     = (if j = job then map_option f (get_handle jm job) else get_handle jm j)"
  by (auto simp: modify_handle_def get_handle_def split: option.splits)

lemma modify_handle_frame [simp]:
  "jm_tokens (modify_handle job f jm) = jm_tokens jm" "jm_calls (modify_handle job f jm) = jm_calls jm"
  "jm_config (modify_handle job f jm) = jm_config jm" "jm_docker (modify_handle job f jm) = jm_docker jm"
  by (simp_all add: modify_handle_def split: option.splits)

lemma connect_cached_frame:
  "connect_cached da jm = (jm', r) \<Longrightarrow>
     jm_tokens jm' = jm_tokens jm \<and> jm_containers jm' = jm_containers jm
     \<and> jm_config jm' = jm_config jm \<and> jm_calls jm' = jm_calls jm"
  by (auto simp: connect_cached_def split: if_splits option.splits)

lemma start_frame:
  "start_job_container su fs da job token dir mode req jm = (jm', r) \<Longrightarrow>
     jm_tokens jm' = jm_tokens jm \<and> jm_containers jm' = jm_containers jm"
  by (auto simp: start_job_container_def call_docker_def Let_def dest!: connect_cached_frame
      split: prod.splits sum.splits option.splits)

lemma register_frame:
  assumes "register_job bytes now job task dir mode grants jm = (jm', token)"
  shows "token = generate_token bytes"
    "jm_tokens jm' = store_grants job grants (fst (create_token bytes job (jm_tokens jm)))"
    "get_handle jm' j = (if j = job then Some \<lparr>ch_job_id = job, ch_container_id = [],
       ch_state = Creating, ch_mode = mode, ch_created_at = now, ch_project_dir = dir,
       ch_task = task, ch_last_status = None, ch_iteration = 0, ch_result = None\<rparr>
     else get_handle jm j)"
  using assms by (auto simp: register_job_def get_handle_def create_token_def Let_def)

lemma get_handle_same: "jm_containers jm' = jm_containers jm \<Longrightarrow> get_handle jm' = get_handle jm"
  by (simp add: get_handle_def fun_eq_iff)

lemma complete_effect:
  assumes "complete_job da job res jm = (jm', r)"
  shows "jm_tokens jm' = revoke job (jm_tokens jm)"
    "get_handle jm' j = (if j = job
       then map_option (\<lambda>h. h\<lparr>ch_result := Some res, ch_state := Stopped\<rparr>) (get_handle jm job)
       else get_handle jm j)"
proof -
  let ?m = "modify_handle job (\<lambda>h. h\<lparr>ch_result := Some res, ch_state := Stopped\<rparr>) jm"
  obtain jm2 where jm': "jm' = jm2\<lparr>jm_tokens := revoke job (jm_tokens jm2)\<rparr>"
    and jm2: "jm_tokens jm2 = jm_tokens ?m \<and> jm_containers jm2 = jm_containers ?m"
    using assms by (auto simp: complete_job_def Let_def call_docker_def dest!: connect_cached_frame
        split: option.splits prod.splits sum.splits if_splits)
  show "jm_tokens jm' = revoke job (jm_tokens jm)" using jm' jm2 by simp
  have "get_handle jm' j = get_handle ?m j" using jm' jm2 by (simp add: get_handle_def)
  then show "get_handle jm' j = (if j = job
       then map_option (\<lambda>h. h\<lparr>ch_result := Some res, ch_state := Stopped\<rparr>) (get_handle jm job)
       else get_handle jm j)" by simp
qed

lemma stop_effect:
  assumes "stop_container_job da job jm = (jm', r)"
  shows "jm_tokens jm' = (if isl r then jm_tokens jm else revoke job (jm_tokens jm))"
    "get_handle jm' j = (if j = job \<and> \<not> isl r
       then map_option (\<lambda>h. h\<lparr>ch_state := Stopped\<rparr>) (get_handle jm job) else get_handle jm j)"
proof -
  have *: "jm_tokens jm' = (if isl r then jm_tokens jm else revoke job (jm_tokens jm))
    \<and> get_handle jm' j = (if j = job \<and> \<not> isl r
       then map_option (\<lambda>h. h\<lparr>ch_state := Stopped\<rparr>) (get_handle jm job) else get_handle jm j)"
  proof (cases "get_handle jm job")
    case None
    with assms show ?thesis by (auto simp: stop_container_job_def)
  next
    case (Some h)
    obtain jm1 x where c: "connect_cached da jm = (jm1, x)" by fastforce
    note f = connect_cached_frame [OF c]
    let ?jm2 = "call_docker [Stop_container (ch_container_id h) 10, Remove_container (ch_container_id h)] jm1"
    have g2: "get_handle ?jm2 = get_handle jm"
      by (rule get_handle_same) (simp add: call_docker_def f)
    show ?thesis
    proof (cases "ch_container_id h = []")
      case True
      with assms Some show ?thesis by (auto simp: stop_container_job_def)
    next
      case False
      show ?thesis
      proof (cases x)
        case (Inl e)
        with assms Some False c f show ?thesis
          by (auto simp: stop_container_job_def get_handle_def)
      next
        case (Inr u)
        define jm3 where "jm3 = modify_handle job (\<lambda>h. h\<lparr>ch_state := Stopped\<rparr>) ?jm2"
        have r: "r = Inr ()" "jm' = jm3\<lparr>jm_tokens := revoke job (jm_tokens jm3)\<rparr>"
          using assms Some False c Inr by (simp_all add: stop_container_job_def jm3_def Let_def)
        have "jm_tokens jm3 = jm_tokens jm" by (simp add: jm3_def call_docker_def f)
        moreover have "get_handle jm' j = get_handle jm3 j" using r by (simp add: get_handle_def)
        ultimately show ?thesis using r g2 by (simp add: jm3_def)
      qed
    qed
  qed
  then show "jm_tokens jm' = (if isl r then jm_tokens jm else revoke job (jm_tokens jm))"
    "get_handle jm' j = (if j = job \<and> \<not> isl r
       then map_option (\<lambda>h. h\<lparr>ch_state := Stopped\<rparr>) (get_handle jm job) else get_handle jm j)"
    by simp_all
qed

section \<open>Interleaved operations\<close>

text \<open>
  The operations of the web server, the tools and the workers run concurrently. A step is an
  operation, and \<open>create_job\<close>, which waits for Docker in the middle, is several.
\<close>

datatype container_op =
    Register "8 word list" instant uuid string "string list option" job_mode "credential_grant list"
  | Start_call "uuid \<Rightarrow> string" file_system docker_answers uuid string "string list option" job_mode
      "string list option"
  | Set_running uuid string
  | Abandon uuid
  | Stop_job docker_answers uuid
  | Complete_job docker_answers uuid completion_result
  | Cleanup uuid
  | Update_status uuid "string option" "32 word"

fun container_step :: "container_manager \<Rightarrow> container_op \<Rightarrow> container_manager" where
  "container_step jm (Register b n j t d m g) = fst (register_job b n j t d m g jm)"
| "container_step jm (Start_call su fs da j t d m r) = fst (start_job_container su fs da j t d m r jm)"
| "container_step jm (Set_running j c) = set_running j c jm"
| "container_step jm (Abandon j) = abandon_job j jm"
| "container_step jm (Stop_job da j) = fst (stop_container_job da j jm)"
| "container_step jm (Complete_job da j r) = fst (complete_job da j r jm)"
| "container_step jm (Cleanup j) = cleanup_job j jm"
| "container_step jm (Update_status j s i) = update_worker_status j s i jm"

definition no_access :: "container_manager \<Rightarrow> uuid \<Rightarrow> bool" where
  "no_access jm job \<longleftrightarrow> map_of (ts_tokens (jm_tokens jm)) job = None \<and> get_grants (jm_tokens jm) job = None"

definition container_inv :: "container_manager \<Rightarrow> bool" where
  "container_inv jm \<longleftrightarrow> (\<forall>job h. get_handle jm job = Some h \<longrightarrow>
     ch_job_id h = job \<and> (ch_result h \<noteq> None \<longrightarrow> no_access jm job))"

lemma no_access_tokens:
  "jm_tokens jm' = jm_tokens jm \<Longrightarrow> no_access jm' job = no_access jm job"
  by (simp add: no_access_def)

lemma no_access_revoked: "jm_tokens jm' = revoke j (jm_tokens jm) \<Longrightarrow>
    no_access jm' job \<longleftrightarrow> job = j \<or> no_access jm job"
  by (auto simp: no_access_def revoke_def get_grants_def)

lemma no_access_registered:
  "jm_tokens jm' = store_grants j gs (fst (create_token bs j (jm_tokens jm))) \<Longrightarrow> job \<noteq> j \<Longrightarrow>
    no_access jm' job \<longleftrightarrow> no_access jm job"
  by (auto simp: no_access_def token_ops)

lemma container_step_inv: "container_inv jm \<Longrightarrow> container_inv (container_step jm e)"
proof (cases e)
  case (Register b n j t d m g)
  assume inv: "container_inv jm"
  obtain jm' tok where r: "register_job b n j t d m g jm = (jm', tok)" by fastforce
  show ?thesis
    using inv register_frame [OF r] no_access_registered [of jm' j g b jm] r
    by (auto simp: Register container_inv_def)
next
  case (Start_call su fs da j t d m r)
  assume inv: "container_inv jm"
  obtain jm' x where s: "start_job_container su fs da j t d m r jm = (jm', x)" by fastforce
  then show ?thesis
    using inv start_frame [OF s] get_handle_same [of jm' jm] no_access_tokens [of jm' jm]
    by (auto simp: Start_call container_inv_def)
next
  case (Abandon j)
  assume inv: "container_inv jm"
  have "no_access (abandon_job j jm) job \<longleftrightarrow> job = j \<or> no_access jm job" for job
    by (rule no_access_revoked) (simp add: abandon_job_def)
  with inv show ?thesis
    by (auto simp: Abandon container_inv_def abandon_job_def get_handle_def split: if_splits)
next
  case (Stop_job da j)
  assume inv: "container_inv jm"
  obtain jm' x where s: "stop_container_job da j jm = (jm', x)" by fastforce
  then show ?thesis
    using inv stop_effect [OF s] no_access_tokens [of jm' jm] no_access_revoked [of jm' j jm]
    by (fastforce simp: Stop_job container_inv_def split: if_splits)
next
  case (Complete_job da j r)
  assume inv: "container_inv jm"
  obtain jm' x where s: "complete_job da j r jm = (jm', x)" by fastforce
  then show ?thesis
    using inv complete_effect [OF s] no_access_revoked [of jm' j jm]
    by (auto simp: Complete_job container_inv_def split: if_splits)
next
  case (Cleanup j)
  assume inv: "container_inv jm"
  then show ?thesis using no_access_tokens [of "cleanup_job j jm" jm]
    by (auto simp: Cleanup container_inv_def cleanup_job_def get_handle_def split: if_splits)
qed (auto simp: container_inv_def set_running_def update_worker_status_def no_access_def split: if_splits)

interpretation container_jobs: transition_system container_step container_inv
  by unfold_locales (rule container_step_inv)



section \<open>Creating a job\<close>

text \<open>A job that could not be created leaves nothing behind in the manager: no handle, no token
  that opens it, no credential grants; the other jobs are untouched.\<close>
theorem failed_creation_cleans_up:
  assumes "create_container_job su fs da bytes now job task dir mode grants req jm = (jm', Inl e)"
  shows "get_handle jm' job = None \<and> \<not> validate_token (jm_tokens jm') job tok
    \<and> get_grants (jm_tokens jm') job = None
    \<and> (j \<noteq> job \<longrightarrow> get_handle jm' j = get_handle jm j
           \<and> validate_token (jm_tokens jm') j tok = validate_token (jm_tokens jm) j tok
           \<and> get_grants (jm_tokens jm') j = get_grants (jm_tokens jm) j)"
proof -
  obtain jm1 token where r: "register_job bytes now job task dir mode grants jm = (jm1, token)"
    by fastforce
  obtain jm2 x where s: "start_job_container su fs da job token dir mode req jm1 = (jm2, x)"
    by fastforce
  note f = register_frame [OF r] start_frame [OF s]
  have jm': "jm' = abandon_job job jm2"
    using assms r s by (auto simp: create_container_job_def split: sum.splits)
  have "get_handle jm2 = get_handle jm1" using f by (intro get_handle_same) simp
  then show ?thesis using f by (auto simp: jm' abandon_job_def get_handle_def)
qed

text \<open>The file system and the Docker daemon of the examples.\<close>

definition example_fs :: file_system where
  "example_fs = \<lparr>fs_canonicalize = Inr, fs_home = Some [''home'', ''u''], fs_create_dir_all = (\<lambda>_. None)\<rparr>"

definition example_docker :: docker_answers where
  "example_docker = \<lparr>da_connect = None, da_create = Inr ''c1'', da_start = None\<rparr>"

definition example_manager :: container_manager where
  "example_manager = new_container_manager default_container_config new_token_store"

lemmas example_defs = example_fs_def example_docker_def example_manager_def
  new_container_manager_def default_container_config_def new_token_store_def

theorem failed_creation_cleans_up_witness:
  "\<exists>jm' e. create_container_job show_nat example_fs (example_docker\<lparr>da_connect := Some ''down''\<rparr>) [1] 0 7 ''t''
      None Worker_mode [] None example_manager = (jm', Inl e) \<and> get_handle jm' 7 = None"
proof -
  obtain jm' e where *: "create_container_job show_nat example_fs (example_docker\<lparr>da_connect := Some ''down''\<rparr>)
      [1] 0 7 ''t'' None Worker_mode [] None example_manager = (jm', Inl e)"
    by (simp add: create_container_job_def register_job_def start_job_container_def
        connect_cached_def example_defs create_token_def store_grants_def Let_def)
  show ?thesis using failed_creation_cleans_up [OF *, of _ 0] * by blast
qed

text \<open>A container whose start fails is left behind in Docker: creating the job reports the error
  and forgets the job, and of the calls made to the daemon none removes the container.\<close>
theorem start_failure_leaves_container:
  assumes "create_container_job su fs da bytes now job task dir mode grants req jm = (jm', Inl e)"
    and "jm_calls jm' = jm_calls jm @ cs" and "Start_container cid \<in> set cs"
  shows "\<exists>cfg. cs = [Create_container cfg, Start_container cid] \<and> get_handle jm' job = None"
proof -
  obtain jm1 token where r: "register_job bytes now job task dir mode grants jm = (jm1, token)"
    by fastforce
  obtain jm2 x where s: "start_job_container su fs da job token dir mode req jm1 = (jm2, x)"
    by fastforce
  have jm': "jm' = abandon_job job jm2"
    using assms r s by (auto simp: create_container_job_def split: sum.splits)
  have "jm_calls jm1 = jm_calls jm" using r by (auto simp: register_job_def create_token_def Let_def)
  then have calls: "jm_calls jm2 = jm_calls jm1 @ cs" using assms jm' by (simp add: abandon_job_def)
  obtain jmc y where c: "connect_cached da jm1 = (jmc, y)" by fastforce
  note fc = connect_cached_frame [OF c]
  have "\<exists>cfg. cs = [Create_container cfg, Start_container cid]"
    using s c fc calls assms(3)
    by (auto simp: start_job_container_def call_docker_def Let_def split: sum.splits option.splits)
  then show ?thesis by (auto simp: jm' abandon_job_def get_handle_def)
qed

theorem start_failure_leaves_container_witness:
  "\<exists>jm' e cs cfg. create_container_job show_nat example_fs (example_docker\<lparr>da_start := Some ''oom''\<rparr>) [1] 0 7 ''t''
      None Worker_mode [] None example_manager = (jm', Inl e) \<and> jm_calls jm' = jm_calls example_manager @ cs
      \<and> cs = [Create_container cfg, Start_container ''c1''] \<and> get_handle jm' 7 = None"
proof -
  obtain jm' e cs where *: "create_container_job show_nat example_fs (example_docker\<lparr>da_start := Some ''oom''\<rparr>)
      [1] 0 7 ''t'' None Worker_mode [] None example_manager = (jm', Inl e)"
    "jm_calls jm' = jm_calls example_manager @ cs" "Start_container ''c1'' \<in> set cs"
    by (simp add: create_container_job_def register_job_def start_job_container_def build_container_def
        connect_cached_def call_docker_def abandon_job_def example_defs create_token_def store_grants_def Let_def)
  from start_failure_leaves_container [OF *] * show ?thesis by blast
qed

text \<open>A job can complete before its creator has recorded the container: \<open>complete_job\<close> then finds
  no container identifier, stops nothing and revokes the token, and the creator marks the finished
  job as running. The container is never stopped.\<close>
theorem early_completion_leaves_container:
  assumes "start_job_container su fs da job token dir mode req
             (fst (register_job bytes now job task dir mode grants jm)) = (jm2, Inr cid)"
  shows "(let jm3 = fst (complete_job da' job res jm2); jm4 = set_running job cid jm3 in
      jm_calls jm4 = jm_calls jm2 \<and> \<not> validate_token (jm_tokens jm4) job tok
      \<and> map_option (\<lambda>h. (ch_state h, ch_result h, ch_container_id h)) (get_handle jm4 job)
          = Some (Running, Some res, cid))"
proof -
  obtain jm1 t where r: "register_job bytes now job task dir mode grants jm = (jm1, t)" by fastforce
  have s: "start_job_container su fs da job token dir mode req jm1 = (jm2, Inr cid)"
    using assms r by simp
  have g: "get_handle jm2 job = get_handle jm1 job"
    using start_frame [OF s] get_handle_same [of jm2 jm1] by simp
  obtain jm3 x where c: "complete_job da' job res jm2 = (jm3, x)" by fastforce
  have "jm_calls jm3 = jm_calls jm2"
    using c g register_frame(3) [OF r, of job] by (auto simp: complete_job_def Let_def)
  then show ?thesis
    using complete_effect [OF c] c g register_frame(3) [OF r, of job]
    by (simp add: set_running_def Let_def)
qed

theorem early_completion_leaves_container_witness:
  "\<exists>jm2. start_job_container show_nat example_fs example_docker 7 ''tok'' None Worker_mode None
      (fst (register_job [1] 0 7 ''t'' None Worker_mode [] example_manager)) = (jm2, Inr ''c1'')
    \<and> (let jm4 = set_running 7 ''c1'' (fst (complete_job example_docker 7 \<lparr>cr_success = True, cr_message = None\<rparr> jm2)) in
        map_option ch_state (get_handle jm4 7) = Some Running
        \<and> list_all (\<lambda>c. case c of Stop_container _ _ \<Rightarrow> False | _ \<Rightarrow> True) (jm_calls jm4))"
proof -
  obtain jm2 where *: "start_job_container show_nat example_fs example_docker 7 ''tok'' None Worker_mode None
      (fst (register_job [1] 0 7 ''t'' None Worker_mode [] example_manager)) = (jm2, Inr ''c1'')"
    and calls: "list_all (\<lambda>c. case c of Stop_container _ _ \<Rightarrow> False | _ \<Rightarrow> True) (jm_calls jm2)"
    by (simp add: register_job_def start_job_container_def build_container_def
        connect_cached_def call_docker_def example_defs create_token_def store_grants_def Let_def)
  show ?thesis
    using early_completion_leaves_container [OF *, of example_docker "\<lparr>cr_success = True, cr_message = None\<rparr>"]
      * calls by (auto simp: Let_def)
qed

section \<open>What the container may do\<close>

text \<open>The container runs unprivileged and sees one host directory at most, which lies under the
  canonical projects directory: whatever project directory is asked for, a bind mount is the
  canonical form of that directory and extends the canonical base component by component.\<close>
theorem container_confined:
  assumes "build_container su fs c job token dir mode req = Inr cfg"
  shows "hc_cap_drop (co_host cfg) = [''ALL''] \<and> hc_cap_add (co_host cfg) = [''CHOWN'']
    \<and> hc_security_opt (co_host cfg) = [''no-new-privileges:true''] \<and> co_user cfg = ''1000:1000''
    \<and> (case hc_binds (co_host cfg) of
         None \<Rightarrow> dir = None
       | Some bs \<Rightarrow> (\<exists>d p home base rest. dir = Some d \<and> fs_canonicalize fs d = Inr p
           \<and> fs_home fs = Some home \<and> fs_canonicalize fs (home @ [''.gyre'', ''projects'']) = Inr base
           \<and> p = base @ rest \<and> bs = [show_path p @ '':/workspace:rw'']))"
proof (cases dir)
  case None
  with assms show ?thesis by (auto simp: build_container_def)
next
  case (Some d)
  then obtain p where v: "validate_bind_mount_path fs d job = Inr p"
    and b: "hc_binds (co_host cfg) = Some [show_path p @ '':/workspace:rw'']"
    using assms by (auto simp: build_container_def split: sum.splits)
  have flags: "hc_cap_drop (co_host cfg) = [''ALL''] \<and> hc_cap_add (co_host cfg) = [''CHOWN'']
    \<and> hc_security_opt (co_host cfg) = [''no-new-privileges:true''] \<and> co_user cfg = ''1000:1000''"
    using assms by (auto simp: build_container_def split: sum.splits)
  from v obtain home base where "fs_canonicalize fs d = Inr p" "fs_home fs = Some home"
    "fs_canonicalize fs (home @ [''.gyre'', ''projects'']) = Inr base" "path_starts_with p base"
    by (auto simp: validate_bind_mount_path_def Let_def split: sum.splits option.splits if_splits)
  moreover from this have "p = base @ drop (length base) p"
    unfolding path_starts_with_def by (metis append_take_drop_id)
  ultimately show ?thesis using b flags Some by auto
qed

theorem container_confined_witness:
  "\<exists>cfg. build_container show_nat (example_fs\<lparr>fs_canonicalize := \<lambda>p. Inr (''mnt'' # p)\<rparr>) default_container_config 7
      ''tok'' (Some [''home'', ''u'', ''.gyre'', ''projects'', ''p'']) Claude_code None = Inr cfg
    \<and> hc_cap_drop (co_host cfg) = [''ALL'']"
proof -
  obtain cfg where *: "build_container show_nat (example_fs\<lparr>fs_canonicalize := \<lambda>p. Inr (''mnt'' # p)\<rparr>)
      default_container_config 7 ''tok'' (Some [''home'', ''u'', ''.gyre'', ''projects'', ''p'']) Claude_code None = Inr cfg"
    by (simp add: build_container_def validate_bind_mount_path_def path_starts_with_def example_defs Let_def)
  from container_confined [OF *] * show ?thesis by blast
qed

section \<open>The tool list travels through the environment\<close>

text \<open>A tool name the transport keeps: trimmed, not empty, without a comma.\<close>

definition plain_tool :: "string \<Rightarrow> bool" where
  "plain_tool t \<longleftrightarrow> t \<noteq> [] \<and> CHR '','' \<notin> set t \<and> trim t = t"

lemma parse_allowed_plain: "t \<in> set (parse_allowed_tools s) \<Longrightarrow> plain_tool t"
proof -
  assume "t \<in> set (parse_allowed_tools s)"
  then obtain w where w: "w \<in> set (split_on CHR '','' s)" "t = trim w" "t \<noteq> []"
    by (auto simp: parse_allowed_tools_def)
  have "CHR '','' \<notin> set w" using split_by_no_sep [OF w(1)] by blast
  then show "plain_tool t" using w set_trim [of w] by (auto simp: plain_tool_def)
qed

lemma default_tools_plain: "list_all plain_tool default_claude_code_allowed_tools"
  by code_simp

lemma container_allowed_plain: "t \<in> set (container_allowed_tools env injected) \<Longrightarrow> plain_tool t"
  using default_tools_plain parse_allowed_plain
  by (auto simp: container_allowed_tools_def list_all_iff split: option.splits)

lemma parse_allowed_join:
  assumes "ts \<noteq> []" "\<forall>t \<in> set ts. plain_tool t"
  shows "parse_allowed_tools (join '','' ts) = ts"
proof -
  have "split_on CHR '','' (join '','' ts) = ts"
    by (rule split_join) (use assms in \<open>auto simp: plain_tool_def\<close>)
  moreover have "map trim ts = ts" using assms(2) by (induction ts) (auto simp: plain_tool_def)
  moreover have "filter (\<lambda>t. t \<noteq> []) ts = ts" using assms(2) by (induction ts) (auto simp: plain_tool_def)
  ultimately show ?thesis by (simp add: parse_allowed_tools_def)
qed

lemma allowed_tools_roundtrip:
  "\<forall>t \<in> set ts. plain_tool t \<Longrightarrow> parse_allowed_tools (allowed_tools_env ts) = ts"
proof (cases "ts = []")
  case True
  have "parse_allowed_tools '','' = []" by code_simp
  with True show ?thesis by (simp add: allowed_tools_env_def)
qed (simp add: allowed_tools_env_def parse_allowed_join)

lemma join_nonempty: "t \<in> set ts \<Longrightarrow> t \<noteq> [] \<Longrightarrow> join sep ts \<noteq> []"
  by (induction sep ts rule: join.induct) auto

lemma allowed_tools_env_nonempty:
  "\<forall>t \<in> set ts. plain_tool t \<Longrightarrow> allowed_tools_env ts \<noteq> []"
  using join_nonempty [of "hd ts" ts "'',''"]
  by (cases ts) (auto simp: allowed_tools_env_def plain_tool_def)

text \<open>Entries whose keys have no equals sign are read back as an association list.\<close>

definition env_entry :: "string \<times> string \<Rightarrow> string" where
  "env_entry kv = fst kv @ ''='' @ snd kv"

lemma env_lookup_entries:
  "list_all (\<lambda>kv. CHR ''='' \<notin> set (fst kv)) kvs \<Longrightarrow> env_lookup (map env_entry kvs) key = map_of kvs key"
proof (induction kvs)
  case (Cons kv kvs)
  have "split_once CHR ''='' (env_entry kv) = Some kv"
    using Cons.prems split_once_split [of "CHR ''=''" "fst kv" "snd kv"] by (simp add: env_entry_def)
  with Cons show ?case by (simp add: env_lookup_def map_filter_simps)
qed (simp add: env_lookup_def map_filter_simps)

definition job_keys :: "string list" where
  "job_keys = [''GYRE_WORKER_TOKEN'', ''GYRE_JOB_ID'', ''GYRE_ORCHESTRATOR_URL'', ''GYRE_WORKSPACE'',
     ''ANTHROPIC_API_KEY'', ''CLAUDE_CODE_OAUTH_TOKEN'']"

lemma job_keys_plain: "list_all (\<lambda>k. CHR ''='' \<notin> set k) (''CLAUDE_CODE_ALLOWED_TOOLS'' # job_keys)"
  by code_simp

lemma job_keys_distinct: "''CLAUDE_CODE_ALLOWED_TOOLS'' \<notin> set job_keys"
  by code_simp

lemma container_env_entries:
  assumes "build_container su fs c job token dir Claude_code req = Inr cfg"
  shows "\<exists>kvs. fst ` set kvs \<subseteq> set job_keys \<and> co_env cfg = map env_entry (kvs @
     [(''CLAUDE_CODE_ALLOWED_TOOLS'', allowed_tools_env (effective_allowed_tools (cc_allowed_tools c) req))])"
proof -
  define ws where "ws = (case dir of None \<Rightarrow> [] | Some _ \<Rightarrow> [(''GYRE_WORKSPACE'', ''/workspace'')])"
  define auth where "auth = (case cc_api_key c of Some k \<Rightarrow> [(''ANTHROPIC_API_KEY'', k)]
     | None \<Rightarrow> (case cc_oauth_token c of Some t \<Rightarrow> [(''CLAUDE_CODE_OAUTH_TOKEN'', t)] | None \<Rightarrow> []))"
  let ?kvs = "[(''GYRE_WORKER_TOKEN'', token), (''GYRE_JOB_ID'', su job),
     (''GYRE_ORCHESTRATOR_URL'', orchestrator_url c)] @ ws @ auth"
  have "co_env cfg = job_env su c job token @ map env_entry ws @ claude_env c Claude_code req"
    using assms by (auto simp: build_container_def ws_def env_entry_def split: sum.splits option.splits)
  moreover have "claude_env c Claude_code req = map env_entry (auth @ [(''CLAUDE_CODE_ALLOWED_TOOLS'',
      allowed_tools_env (effective_allowed_tools (cc_allowed_tools c) req))])"
    by (simp add: claude_env_def auth_def env_entry_def split: option.splits)
  moreover have "job_env su c job token = map env_entry [(''GYRE_WORKER_TOKEN'', token),
      (''GYRE_JOB_ID'', su job), (''GYRE_ORCHESTRATOR_URL'', orchestrator_url c)]"
    by (simp add: job_env_def env_entry_def)
  moreover have "fst ` set ws \<subseteq> set job_keys" "fst ` set auth \<subseteq> set job_keys"
    by (cases dir; simp add: ws_def job_keys_def)
      (cases "cc_api_key c"; cases "cc_oauth_token c"; simp add: auth_def job_keys_def)
  ultimately show ?thesis by (intro exI [of _ ?kvs]) (simp add: job_keys_def image_Un)
qed

lemma map_of_last: "k \<notin> fst ` set kvs \<Longrightarrow> map_of (kvs @ [(k, v)]) k = Some v"
  by (induction kvs) auto

lemma env_lookup_allowed_tools:
  assumes "build_container su fs c job token dir Claude_code req = Inr cfg"
  shows "env_lookup (co_env cfg) ''CLAUDE_CODE_ALLOWED_TOOLS''
           = Some (allowed_tools_env (effective_allowed_tools (cc_allowed_tools c) req))"
proof -
  obtain kvs where kvs: "fst ` set kvs \<subseteq> set job_keys" "co_env cfg = map env_entry (kvs @
     [(''CLAUDE_CODE_ALLOWED_TOOLS'', allowed_tools_env (effective_allowed_tools (cc_allowed_tools c) req))])"
    using container_env_entries [OF assms] by blast
  have "list_all (\<lambda>kv. CHR ''='' \<notin> set (fst kv)) (kvs @
     [(''CLAUDE_CODE_ALLOWED_TOOLS'', allowed_tools_env (effective_allowed_tools (cc_allowed_tools c) req))])"
    using job_keys_plain kvs(1) by (fastforce simp: list_all_iff)
  from env_lookup_entries [OF this] kvs(2) show ?thesis
    using map_of_last [of "''CLAUDE_CODE_ALLOWED_TOOLS''" kvs] job_keys_distinct kvs(1) by auto
qed

text \<open>A restriction of the tools survives the way into the container: what the process inside
  reads back is exactly the configured tools that the job also asked for, in their order, also
  when none is left. It holds for every configuration the host itself reads this way.\<close>
theorem tool_restriction_survives:
  assumes "build_container su fs c job token dir Claude_code req = Inr cfg"
    and "cc_allowed_tools c = container_allowed_tools host_env host_injected"
  shows "container_allowed_tools (env_lookup (co_env cfg)) injected
           = filter (\<lambda>t. \<forall>r. req = Some r \<longrightarrow> t \<in> set r) (cc_allowed_tools c)"
proof -
  let ?ts = "effective_allowed_tools (cc_allowed_tools c) req"
  have eff: "?ts = filter (\<lambda>t. \<forall>r. req = Some r \<longrightarrow> t \<in> set r) (cc_allowed_tools c)"
    by (simp add: effective_allowed_tools_def split: option.splits)
  then have plain: "\<forall>t \<in> set ?ts. plain_tool t"
    using container_allowed_plain assms(2) by auto
  then have "container_allowed_tools (env_lookup (co_env cfg)) injected = ?ts"
    using env_lookup_allowed_tools [OF assms(1)]
    by (simp add: container_allowed_tools_def optional_env_def allowed_tools_env_nonempty
        allowed_tools_roundtrip)
  with eff show ?thesis by simp
qed

theorem tool_restriction_survives_witness:
  "\<exists>cfg. build_container show_nat example_fs default_container_config 7 ''tok'' None Claude_code (Some [''Other'']) = Inr cfg
     \<and> container_allowed_tools (env_lookup (co_env cfg)) (\<lambda>_. Some ''Bash(*)'') = []"
proof -
  obtain cfg where *: "build_container show_nat example_fs default_container_config 7 ''tok'' None Claude_code
      (Some [''Other'']) = Inr cfg"
    by (simp add: build_container_def)
  have "cc_allowed_tools default_container_config = container_allowed_tools (\<lambda>_. None) (\<lambda>_. None)"
    by (simp add: default_container_config_def container_allowed_tools_def optional_env_def)
  from tool_restriction_survives [OF * this] *
  have "container_allowed_tools (env_lookup (co_env cfg)) (\<lambda>_. Some ''Bash(*)'') = []"
    by (simp add: default_container_config_def default_claude_code_allowed_tools_def)
  with * show ?thesis by blast
qed

end
