(* ===== verification/Worker_Api.thy ===== *)
theory Worker_Api
  imports Orchestrator
begin

text \<open>
  The HTTP API the workers call, \<open>src/orchestrator/api.rs\<close>: one handler per route over the
  container manager, the prompt queues and the event stream, behind the token check. The model,
  the secrets store and the router's path decoding (\<open>dec\<close>) are parameters. What is broadcast,
  persisted and recorded is logged in the state.
\<close>

section \<open>Requests, responses and state\<close>

record pending_prompt =
  pp_content :: string
  pp_done :: bool

record status_update =
  su_state :: string
  su_message :: "string option"
  su_iteration :: "32 word"

record completion_report =
  rp_success :: bool
  rp_message :: "string option"
  rp_iterations :: "32 word"

record job_event_payload =
  je_type :: string
  je_data :: json

record proxy_completion_request =
  px_messages :: "chat_message list"
  px_max_tokens :: "32 word option"
  px_temperature :: "32 word option"
  px_stop_sequences :: "string list option"

record proxy_tool_request =
  pt_messages :: "chat_message list"
  pt_tools :: "tool_definition list"
  pt_max_tokens :: "32 word option"
  pt_temperature :: "32 word option"
  pt_tool_choice :: "string option"

record tool_completion_request =
  tq_messages :: "chat_message list"
  tq_tools :: "tool_definition list"
  tq_max_tokens :: "32 word option"
  tq_temperature :: "32 word option"
  tq_tool_choice :: "string option"
  tq_metadata :: "(string \<times> string) list"

record tool_completion_response =
  tr_content :: "string option"
  tr_tool_calls :: "tool_call list"
  tr_input_tokens :: "32 word"
  tr_output_tokens :: "32 word"
  tr_finish_reason :: finish_reason
  tr_response_id :: "string option"

datatype sse_event =
    Job_message string string string
  | Job_tool_use string string json
  | Job_tool_result string string string
  | Job_result string string "string option"
  | Job_status string string

record credential_response =
  cd_env_var :: string
  cd_value :: string

datatype api_body = Empty_body | Null_body
  | Job_description string string "string option"
  | Completion_body string "32 word" "32 word" string
  | Tool_completion_body "string option" "tool_call list" "32 word" "32 word" string
  | Status_ok
  | Prompt_body string bool
  | Credentials_body "credential_response list"

datatype worker_request = Get_job | Llm_complete proxy_completion_request
  | Llm_complete_with_tools proxy_tool_request | Report_status status_update
  | Report_complete completion_report | Job_event job_event_payload | Get_prompt | Get_credentials

text \<open>
  The services behind the API: the model, the secrets store (\<open>None\<close> when not configured) with
  the decrypted value and the record identifier of a user's secret, whether a database and a
  broadcast channel are configured, and Docker's answers.
\<close>

record api_env =
  ae_complete :: "completion_request \<Rightarrow> (llm_error, completion_response) result"
  ae_complete_tools :: "tool_completion_request \<Rightarrow> (llm_error, tool_completion_response) result"
  ae_secrets :: "((string \<Rightarrow> string \<Rightarrow> string option) \<times> (string \<Rightarrow> string \<Rightarrow> uuid option)) option"
  ae_user :: string
  ae_store :: bool
  ae_events :: bool
  ae_docker :: docker_answers

record orchestrator_state =
  os_jobs :: container_manager
  os_prompts :: "(uuid \<times> pending_prompt list) list"
  os_sent :: "(uuid \<times> sse_event) list"
  os_saved :: "(uuid \<times> string \<times> json) list"
  os_usage :: "uuid list"

type_synonym api_response = "(http_status, http_status \<times> api_body) result"

section \<open>Handlers\<close>

fun format_finish_reason :: "finish_reason \<Rightarrow> string" where
  "format_finish_reason Stop = ''stop''"
| "format_finish_reason Length = ''length''"
| "format_finish_reason ToolUse = ''tool_use''"
| "format_finish_reason ContentFilter = ''content_filter''"
| "format_finish_reason Unknown = ''unknown''"

definition get_job :: "(uuid \<Rightarrow> string) \<Rightarrow> uuid \<Rightarrow> orchestrator_state \<Rightarrow> api_response" where
  "get_job su job s =
     (case get_handle (os_jobs s) job of
        None \<Rightarrow> Inl Not_found_404
      | Some h \<Rightarrow> Inr (Ok_200, Job_description (''Job '' @ su job) (ch_task h)
                       (map_option show_path (ch_project_dir h))))"

definition llm_complete :: "api_env \<Rightarrow> proxy_completion_request \<Rightarrow> api_response" where
  "llm_complete env req =
     (case ae_complete env \<lparr>rq_messages = px_messages req, rq_max_tokens = px_max_tokens req,
             rq_temperature = px_temperature req, rq_stop_sequences = px_stop_sequences req,
             rq_metadata = []\<rparr> of
        Inl e \<Rightarrow> Inl Bad_gateway_502
      | Inr r \<Rightarrow> Inr (Ok_200, Completion_body (rs_content r) (rs_input_tokens r) (rs_output_tokens r)
                          (format_finish_reason (rs_finish_reason r))))"

definition llm_complete_with_tools :: "api_env \<Rightarrow> proxy_tool_request \<Rightarrow> api_response" where
  "llm_complete_with_tools env req =
     (case ae_complete_tools env \<lparr>tq_messages = pt_messages req, tq_tools = pt_tools req,
             tq_max_tokens = pt_max_tokens req, tq_temperature = pt_temperature req,
             tq_tool_choice = pt_tool_choice req, tq_metadata = []\<rparr> of
        Inl e \<Rightarrow> Inl Bad_gateway_502
      | Inr r \<Rightarrow> Inr (Ok_200, Tool_completion_body (tr_content r) (tr_tool_calls r) (tr_input_tokens r)
                          (tr_output_tokens r) (format_finish_reason (tr_finish_reason r))))"

definition report_status ::
  "uuid \<Rightarrow> status_update \<Rightarrow> orchestrator_state \<Rightarrow> orchestrator_state \<times> api_response" where
  "report_status job u s =
     (s\<lparr>os_jobs := update_worker_status job (su_message u) (su_iteration u) (os_jobs s)\<rparr>,
      Inr (Ok_200, Empty_body))"

definition report_complete ::
  "api_env \<Rightarrow> uuid \<Rightarrow> completion_report \<Rightarrow> orchestrator_state \<Rightarrow> orchestrator_state \<times> api_response" where
  "report_complete env job r s =
     (s\<lparr>os_jobs := fst (complete_job (ae_docker env) job
            \<lparr>cr_success = rp_success r, cr_message = rp_message r\<rparr> (os_jobs s))\<rparr>,
      Inr (Ok_200, Status_ok))"

definition sse_of_event :: "(uuid \<Rightarrow> string) \<Rightarrow> uuid \<Rightarrow> job_event_payload \<Rightarrow> sse_event" where
  "sse_of_event su job p =
     (let d = je_data p; t = je_type p in
      if t = ''message'' then
        Job_message (su job) (json_field d ''role'' ''assistant'') (json_field d ''content'' [])
      else if t = ''tool_use'' then
        Job_tool_use (su job) (json_field d ''tool_name'' ''unknown'')
          (case json_get d ''input'' of Some v \<Rightarrow> v | None \<Rightarrow> JNull)
      else if t = ''tool_result'' then
        Job_tool_result (su job) (json_field d ''tool_name'' ''unknown'') (json_field d ''output'' [])
      else if t = ''result'' then
        Job_result (su job) (json_field d ''status'' ''unknown'')
          (Option.bind (json_get d ''session_id'') json_str)
      else Job_status (su job) (json_field d ''message'' []))"

definition job_event_handler ::
  "(uuid \<Rightarrow> string) \<Rightarrow> api_env \<Rightarrow> uuid \<Rightarrow> job_event_payload \<Rightarrow> orchestrator_state
     \<Rightarrow> orchestrator_state \<times> api_response" where
  "job_event_handler su env job p s =
     (let s1 = (if ae_store env then s\<lparr>os_saved := os_saved s @ [(job, je_type p, je_data p)]\<rparr> else s);
          s2 = (if ae_events env then s1\<lparr>os_sent := os_sent s1 @ [(job, sse_of_event su job p)]\<rparr> else s1)
      in (s2, Inr (Ok_200, Empty_body)))"

text \<open>\<open>queue.entry(job_id).or_default().push_back(prompt)\<close>, by the prompt tool and the web server.\<close>

definition queue_prompt :: "uuid \<Rightarrow> pending_prompt \<Rightarrow> orchestrator_state \<Rightarrow> orchestrator_state" where
  "queue_prompt job p s =
     s\<lparr>os_prompts := AList.update job
        ((case map_of (os_prompts s) job of Some q \<Rightarrow> q | None \<Rightarrow> []) @ [p]) (os_prompts s)\<rparr>"

definition get_prompt_handler :: "uuid \<Rightarrow> orchestrator_state \<Rightarrow> orchestrator_state \<times> api_response" where
  "get_prompt_handler job s =
     (case map_of (os_prompts s) job of
        Some (p # q) \<Rightarrow> (s\<lparr>os_prompts := AList.update job q (os_prompts s)\<rparr>,
                         Inr (Ok_200, Prompt_body (pp_content p) (pp_done p)))
      | _ \<Rightarrow> (s, Inr (No_content_204, Null_body)))"

text \<open>The loop over the grants; \<open>acc\<close> holds the credentials collected so far.\<close>

fun serve_credentials ::
  "(string \<Rightarrow> string \<Rightarrow> string option) \<Rightarrow> (string \<Rightarrow> string \<Rightarrow> uuid option) \<Rightarrow> string
     \<Rightarrow> credential_grant list \<Rightarrow> credential_response list \<Rightarrow> orchestrator_state
     \<Rightarrow> orchestrator_state \<times> api_response" where
  "serve_credentials decrypt lookup user [] acc s = (s, Inr (Ok_200, Credentials_body acc))"
| "serve_credentials decrypt lookup user (g # gs) acc s =
     (case decrypt user (secret_name g) of
        None \<Rightarrow> (s, Inl Internal_error_500)
      | Some v \<Rightarrow>
          (let s' = (case lookup user (secret_name g) of
                       Some i \<Rightarrow> s\<lparr>os_usage := os_usage s @ [i]\<rparr> | None \<Rightarrow> s)
           in serve_credentials decrypt lookup user gs
                (acc @ [\<lparr>cd_env_var = env_var g, cd_value = v\<rparr>]) s'))"

definition get_credentials_handler ::
  "api_env \<Rightarrow> uuid \<Rightarrow> orchestrator_state \<Rightarrow> orchestrator_state \<times> api_response" where
  "get_credentials_handler env job s =
     (case get_grants (jm_tokens (os_jobs s)) job of
        Some (g # gs) \<Rightarrow>
          (case ae_secrets env of
             None \<Rightarrow> (s, Inl Service_unavailable_503)
           | Some (decrypt, lookup) \<Rightarrow> serve_credentials decrypt lookup (ae_user env) (g # gs) [] s)
      | _ \<Rightarrow> (s, Inr (No_content_204, Null_body)))"

fun handle_worker ::
  "(uuid \<Rightarrow> string) \<Rightarrow> api_env \<Rightarrow> uuid \<Rightarrow> worker_request \<Rightarrow> orchestrator_state
     \<Rightarrow> orchestrator_state \<times> api_response" where
  "handle_worker su env job Get_job s = (s, get_job su job s)"
| "handle_worker su env job (Llm_complete r) s = (s, llm_complete env r)"
| "handle_worker su env job (Llm_complete_with_tools r) s = (s, llm_complete_with_tools env r)"
| "handle_worker su env job (Report_status u) s = report_status job u s"
| "handle_worker su env job (Report_complete r) s = report_complete env job r s"
| "handle_worker su env job (Job_event p) s = job_event_handler su env job p s"
| "handle_worker su env job Get_prompt s = get_prompt_handler job s"
| "handle_worker su env job Get_credentials s = get_credentials_handler env job s"

section \<open>The router\<close>

text \<open>The tail of each route.\<close>

fun route_tail :: "worker_request \<Rightarrow> string" where
  "route_tail Get_job = ''job''"
| "route_tail (Llm_complete r) = ''llm/complete''"
| "route_tail (Llm_complete_with_tools r) = ''llm/complete_with_tools''"
| "route_tail (Report_status u) = ''status''"
| "route_tail (Report_complete r) = ''complete''"
| "route_tail (Job_event p) = ''event''"
| "route_tail Get_prompt = ''prompt''"
| "route_tail Get_credentials = ''credentials''"

text \<open>
  A request on \<open>/worker/{job_id}/...\<close> with \<open>seg\<close> in the place of the identifier: the token
  check reads the segment as it was sent, the handler gets it percent-decoded by the router.
\<close>

definition serve_worker ::
  "(string \<Rightarrow> uuid option) \<Rightarrow> (string \<Rightarrow> string) \<Rightarrow> (uuid \<Rightarrow> string) \<Rightarrow> api_env \<Rightarrow> string \<Rightarrow> string option
     \<Rightarrow> worker_request \<Rightarrow> orchestrator_state \<Rightarrow> orchestrator_state \<times> api_response" where
  "serve_worker parse dec su env seg auth req s =
     worker_auth_middleware parse (jm_tokens (os_jobs s)) (''/worker/'' @ seg @ ''/'' @ route_tail req) auth
       (\<lambda>s. case parse (dec seg) of
              None \<Rightarrow> (s, Inl Bad_request_400)
            | Some job \<Rightarrow> handle_worker su env job req s) s"

section \<open>What a request reaches\<close>

definition job_view :: "orchestrator_state \<Rightarrow> uuid
    \<Rightarrow> container_handle option \<times> string option \<times> credential_grant list option \<times> pending_prompt list option" where
  "job_view s j = (get_handle (os_jobs s) j, map_of (ts_tokens (jm_tokens (os_jobs s))) j,
     get_grants (jm_tokens (os_jobs s)) j, map_of (os_prompts s) j)"

lemma serve_credentials_frame:
  "serve_credentials decrypt lookup user gs acc s = (s', r) \<Longrightarrow>
     os_jobs s' = os_jobs s \<and> os_prompts s' = os_prompts s \<and> os_sent s' = os_sent s"
proof (induction gs arbitrary: acc s)
  case (Cons g gs)
  then show ?case by (fastforce simp: Let_def split: option.splits)
qed simp

lemma get_credentials_frame:
  "get_credentials_handler env job s = (s', r) \<Longrightarrow>
     os_jobs s' = os_jobs s \<and> os_prompts s' = os_prompts s \<and> os_sent s' = os_sent s"
  by (auto simp: get_credentials_handler_def dest!: serve_credentials_frame
      split: option.splits list.splits)

lemma complete_view:
  "j \<noteq> job \<Longrightarrow> complete_job da job res jm = (jm', r) \<Longrightarrow>
     get_handle jm' j = get_handle jm j \<and> map_of (ts_tokens (jm_tokens jm')) j = map_of (ts_tokens (jm_tokens jm)) j
     \<and> get_grants (jm_tokens jm') j = get_grants (jm_tokens jm) j"
  using complete_effect [of da job res jm jm' r] by (simp add: revoke_def get_grants_def)

lemma handle_worker_view:
  assumes "handle_worker su env job req s = (s', r)" and "j \<noteq> job"
  shows "job_view s' j = job_view s j"
proof (cases req)
  case (Report_complete rp)
  obtain jm' x where c: "complete_job (ae_docker env) job
      \<lparr>cr_success = rp_success rp, cr_message = rp_message rp\<rparr> (os_jobs s) = (jm', x)" by fastforce
  show ?thesis using assms Report_complete c complete_view [OF assms(2) c]
    by (auto simp: report_complete_def job_view_def)
next
  case (Report_status u)
  then show ?thesis using assms
    by (auto simp: report_status_def update_worker_status_def job_view_def)
next
  case (Job_event p)
  then show ?thesis using assms by (auto simp: job_event_handler_def job_view_def Let_def)
next
  case Get_prompt
  then show ?thesis using assms
    by (auto simp: get_prompt_handler_def job_view_def split: option.splits list.splits)
next
  case Get_credentials
  then show ?thesis using assms get_credentials_frame [of env job s s' r] by (simp add: job_view_def)
qed (use assms in auto)

lemma handle_worker_events:
  assumes "handle_worker su env job req s = (s', r)"
  shows "\<exists>es. os_sent s' = os_sent s @ es \<and> fst ` set es \<subseteq> {job}"
proof (cases req)
  case (Job_event p)
  then show ?thesis using assms by (auto simp: job_event_handler_def Let_def)
next
  case Get_credentials
  then show ?thesis using assms get_credentials_frame [of env job s s' r] by simp
next
  case Get_prompt
  then show ?thesis using assms by (auto simp: get_prompt_handler_def split: option.splits list.splits)
qed (use assms in \<open>auto simp: report_status_def report_complete_def\<close>)

lemma extract_worker_path:
  assumes "CHR ''/'' \<notin> set seg"
  shows "extract_job_id_from_path parse (''/worker/'' @ seg @ ''/'' @ tail) = parse seg"
proof -
  have "split_on CHR ''/'' (''worker/'' @ seg @ ''/'' @ tail)
      = ''worker'' # seg # split_on CHR ''/'' tail"
    using split_by_append [of "''worker''" "\<lambda>c. c = CHR ''/''" "CHR ''/''" "seg @ ''/'' @ tail"]
      split_by_append [of seg "\<lambda>c. c = CHR ''/''" "CHR ''/''" tail] assms by auto
  then show ?thesis by (simp add: extract_job_id_from_path_def trim_slashes_def)
qed

text \<open>
  What the router and the identifier parser are relied on for: decoding leaves a text without a
  percent sign alone, and a text with one is no identifier.
\<close>

definition plain_paths :: "(string \<Rightarrow> uuid option) \<Rightarrow> (string \<Rightarrow> string) \<Rightarrow> bool" where
  "plain_paths parse dec \<longleftrightarrow>
     (\<forall>t. if CHR ''%'' \<in> set t then parse t = None else dec t = t)"

lemma serve_worker_cases:
  assumes "plain_paths parse dec" and "CHR ''/'' \<notin> set seg"
  shows "serve_worker parse dec su env seg auth req s =
    (case parse seg of
       None \<Rightarrow> (s, Inl Bad_request_400)
     | Some job \<Rightarrow>
         (case Option.bind auth (\<lambda>v. strip_prefix v ''Bearer '') of
            None \<Rightarrow> (s, Inl Unauthorized_401)
          | Some tok \<Rightarrow> (if validate_token (jm_tokens (os_jobs s)) job tok
                         then handle_worker su env job req s else (s, Inl Unauthorized_401))))"
proof -
  have "parse seg = Some job \<Longrightarrow> parse (dec seg) = Some job" for job
    using assms(1) by (metis option.distinct(1) plain_paths_def)
  then show ?thesis
    unfolding serve_worker_def worker_auth_middleware_def extract_worker_path [OF assms(2)]
    by (auto split: option.splits)
qed

text \<open>C24: A worker request either is refused and changes nothing, or it carries the current token of
  the job its path names; then it is answered for that job, leaves the handle, token, grants
  and prompts of every other job as they were, and every event it broadcasts is about that job.\<close>
theorem worker_request_scoped:
  assumes "plain_paths parse dec" and "CHR ''/'' \<notin> set seg"
    and "serve_worker parse dec su env seg auth req s = (s', r)"
  shows "(s' = s \<and> isl r) \<or>
    (\<exists>job tok es. parse seg = Some job \<and> auth = Some (''Bearer '' @ tok)
       \<and> validate_token (jm_tokens (os_jobs s)) job tok
       \<and> handle_worker su env job req s = (s', r)
       \<and> (\<forall>j. j \<noteq> job \<longrightarrow> job_view s' j = job_view s j)
       \<and> os_sent s' = os_sent s @ es \<and> fst ` set es \<subseteq> {job})"
proof -
  note c = serve_worker_cases [OF assms(1,2), of su env auth req s]
  show ?thesis
  proof (cases "\<exists>job tok. parse seg = Some job \<and> auth = Some (''Bearer '' @ tok)
       \<and> validate_token (jm_tokens (os_jobs s)) job tok")
    case True
    then obtain job tok where jt: "parse seg = Some job" "auth = Some (''Bearer '' @ tok)"
      "validate_token (jm_tokens (os_jobs s)) job tok" by blast
    have "strip_prefix (''Bearer '' @ tok) ''Bearer '' = Some tok" by (simp add: strip_prefix_Some)
    with c jt assms(3) have h: "handle_worker su env job req s = (s', r)" by simp
    obtain es where "os_sent s' = os_sent s @ es \<and> fst ` set es \<subseteq> {job}"
      using handle_worker_events [OF h] by blast
    with jt h handle_worker_view [OF h] show ?thesis by blast
  next
    case False
    have "s' = s \<and> isl r"
    proof (cases "parse seg")
      case None
      with c assms(3) show ?thesis by auto
    next
      case (Some job)
      show ?thesis
      proof (cases "Option.bind auth (\<lambda>v. strip_prefix v ''Bearer '')")
        case None
        with Some c assms(3) show ?thesis by auto
      next
        case (Some tok)
        then have "auth = Some (''Bearer '' @ tok)" by (auto simp: bind_eq_Some_conv strip_prefix_Some)
        with False \<open>parse seg = Some job\<close> have "\<not> validate_token (jm_tokens (os_jobs s)) job tok" by blast
        with Some \<open>parse seg = Some job\<close> c assms(3) show ?thesis by auto
      qed
    qed
    then show ?thesis by simp
  qed
qed

text \<open>An identifier parser and a path decoding of the examples.\<close>

definition example_parse :: "string \<Rightarrow> uuid option" where
  "example_parse t = (if CHR ''%'' \<in> set t then None else if t = ''a'' then Some 7 else if t = ''b'' then Some 8 else None)"

lemma example_plain: "plain_paths example_parse (\<lambda>t. t)"
  by (simp add: plain_paths_def example_parse_def)

definition example_env :: api_env where
  "example_env = \<lparr>ae_complete = (\<lambda>_. Inl (Http ''down'')), ae_complete_tools = (\<lambda>_. Inl (Http ''down'')),
     ae_secrets = Some (\<lambda>u n. if n = ''gh'' then Some ''s3cret'' else None, \<lambda>u n. Some 1),
     ae_user = ''default'', ae_store = True, ae_events = True, ae_docker = example_docker\<rparr>"

definition example_state :: orchestrator_state where
  "example_state = \<lparr>os_jobs = fst (register_job [1] 0 7 ''t'' None Worker_mode
       [\<lparr>secret_name = ''gh'', env_var = ''GH_TOKEN''\<rparr>] example_manager),
     os_prompts = [], os_sent = [], os_saved = [], os_usage = []\<rparr>"

lemma example_tokens: "jm_tokens (os_jobs example_state)
    = store_grants 7 [\<lparr>secret_name = ''gh'', env_var = ''GH_TOKEN''\<rparr>]
        (fst (create_token [1] 7 new_token_store))"
  by (simp add: example_state_def register_job_def create_token_def example_manager_def
      new_container_manager_def Let_def)

lemma example_token: "validate_token (jm_tokens (os_jobs example_state)) 7 ''01''"
proof -
  have "generate_token [1] = ''01''" by code_simp
  then show ?thesis by (simp add: example_tokens)
qed

lemma example_bearer:
  "serve_worker example_parse (\<lambda>t. t) show_nat example_env ''a'' (Some ''Bearer 01'') req example_state
     = handle_worker show_nat example_env 7 req example_state"
proof -
  have "strip_prefix ''Bearer 01'' ''Bearer '' = Some ''01''" by code_simp
  moreover have "example_parse ''a'' = Some 7" by (simp add: example_parse_def)
  moreover have "CHR ''/'' \<notin> set ''a''" by simp
  ultimately show ?thesis
    using serve_worker_cases [OF example_plain, of "''a''" show_nat example_env "Some ''Bearer 01''" req example_state]
      example_token by simp
qed

theorem worker_request_scoped_witness:
  "\<exists>s' es. serve_worker example_parse (\<lambda>t. t) show_nat example_env ''a'' (Some ''Bearer 01'')
       (Job_event \<lparr>je_type = ''status'', je_data = JNull\<rparr>) example_state = (s', Inr (Ok_200, Empty_body))
     \<and> os_sent s' = es \<and> fst ` set es \<subseteq> {7} \<and> es \<noteq> []"
proof -
  let ?r = "Job_event \<lparr>je_type = ''status'', je_data = JNull\<rparr>"
  define s' where "s' = fst (handle_worker show_nat example_env 7 ?r example_state)"
  have s': "serve_worker example_parse (\<lambda>t. t) show_nat example_env ''a'' (Some ''Bearer 01'')
       ?r example_state = (s', Inr (Ok_200, Empty_body))"
    unfolding example_bearer s'_def by (simp add: job_event_handler_def Let_def)
  have ne: "os_sent s' \<noteq> []"
    by (simp add: s'_def job_event_handler_def Let_def example_env_def)
  have "CHR ''/'' \<notin> set ''a''" by simp
  from worker_request_scoped [OF example_plain this s'] obtain es where
    "os_sent s' = os_sent example_state @ es" "fst ` set es \<subseteq> {7}"
    by (auto simp: example_parse_def)
  moreover have "os_sent example_state = []" by (simp add: example_state_def)
  ultimately show ?thesis using s' ne by auto
qed

section \<open>Credentials\<close>

lemma serve_credentials_result:
  "serve_credentials decrypt lookup user gs acc s = (s', Inr (st, b)) \<Longrightarrow>
     st = Ok_200 \<and> (\<exists>vs. map (\<lambda>g. decrypt user (secret_name g)) gs = map Some vs
       \<and> b = Credentials_body (acc @ map2 (\<lambda>g v. \<lparr>cd_env_var = env_var g, cd_value = v\<rparr>) gs vs))"
proof (induction gs arbitrary: acc s)
  case (Cons g gs)
  from Cons.prems obtain v s'' where v: "decrypt user (secret_name g) = Some v"
    and r: "serve_credentials decrypt lookup user gs (acc @ [\<lparr>cd_env_var = env_var g, cd_value = v\<rparr>]) s''
      = (s', Inr (st, b))"
    by (auto simp: Let_def split: option.splits)
  from Cons.IH [OF r] obtain vs where vs: "st = Ok_200"
    "map (\<lambda>g. decrypt user (secret_name g)) gs = map Some vs"
    "b = Credentials_body ((acc @ [\<lparr>cd_env_var = env_var g, cd_value = v\<rparr>])
       @ map2 (\<lambda>g v. \<lparr>cd_env_var = env_var g, cd_value = v\<rparr>) gs vs)" by blast
  with v show ?case by (intro conjI exI [of _ "v # vs"]) simp_all
qed auto

text \<open>The credentials a worker gets are exactly the ones granted to its own job, in their order,
  each with the decrypted value of the secret the grant names.\<close>
theorem credentials_only_granted:
  assumes "plain_paths parse dec" and "CHR ''/'' \<notin> set seg"
    and "serve_worker parse dec su env seg auth req s = (s', Inr (st, Credentials_body cs))"
  shows "\<exists>job tok grants decrypt lookup vs. parse seg = Some job \<and> auth = Some (''Bearer '' @ tok)
       \<and> validate_token (jm_tokens (os_jobs s)) job tok
       \<and> get_grants (jm_tokens (os_jobs s)) job = Some grants \<and> ae_secrets env = Some (decrypt, lookup)
       \<and> map (\<lambda>g. decrypt (ae_user env) (secret_name g)) grants = map Some vs
       \<and> cs = map2 (\<lambda>g v. \<lparr>cd_env_var = env_var g, cd_value = v\<rparr>) grants vs"
proof -
  from worker_request_scoped [OF assms] obtain job tok where jt: "parse seg = Some job"
    "auth = Some (''Bearer '' @ tok)" "validate_token (jm_tokens (os_jobs s)) job tok"
    "handle_worker su env job req s = (s', Inr (st, Credentials_body cs))" by auto
  then have h: "get_credentials_handler env job s = (s', Inr (st, Credentials_body cs))"
    by (cases req) (auto simp: get_job_def llm_complete_def llm_complete_with_tools_def report_status_def
        report_complete_def job_event_handler_def get_prompt_handler_def Let_def
        split: option.splits sum.splits list.splits)
  then obtain g gs decrypt lookup where g: "get_grants (jm_tokens (os_jobs s)) job = Some (g # gs)"
    "ae_secrets env = Some (decrypt, lookup)"
    "serve_credentials decrypt lookup (ae_user env) (g # gs) [] s = (s', Inr (st, Credentials_body cs))"
    by (auto simp: get_credentials_handler_def split: option.splits list.splits)
  from serve_credentials_result [OF g(3)] obtain vs where
    "map (\<lambda>g. decrypt (ae_user env) (secret_name g)) (g # gs) = map Some vs"
    "cs = map2 (\<lambda>g v. \<lparr>cd_env_var = env_var g, cd_value = v\<rparr>) (g # gs) vs"
    unfolding append_Nil api_body.inject by blast
  with jt g show ?thesis by blast
qed

theorem credentials_only_granted_witness:
  "\<exists>s'. serve_worker example_parse (\<lambda>t. t) show_nat example_env ''a'' (Some ''Bearer 01'') Get_credentials example_state
     = (s', Inr (Ok_200, Credentials_body [\<lparr>cd_env_var = ''GH_TOKEN'', cd_value = ''s3cret''\<rparr>]))
   \<and> (\<exists>grants. get_grants (jm_tokens (os_jobs example_state)) 7 = Some grants)"
proof -
  have g: "get_grants (jm_tokens (os_jobs example_state)) 7 = Some [\<lparr>secret_name = ''gh'', env_var = ''GH_TOKEN''\<rparr>]"
    by (simp add: example_tokens)
  define s' where "s' = fst (get_credentials_handler example_env 7 example_state)"
  have s': "serve_worker example_parse (\<lambda>t. t) show_nat example_env ''a'' (Some ''Bearer 01'')
      Get_credentials example_state
      = (s', Inr (Ok_200, Credentials_body [\<lparr>cd_env_var = ''GH_TOKEN'', cd_value = ''s3cret''\<rparr>]))"
    unfolding example_bearer s'_def using g
    by (simp add: get_credentials_handler_def example_env_def Let_def)
  have "CHR ''/'' \<notin> set ''a''" by simp
  from credentials_only_granted [OF example_plain this s'] have
    "\<exists>grants. get_grants (jm_tokens (os_jobs example_state)) 7 = Some grants"
    by (auto simp: example_parse_def)
  with s' show ?thesis by blast
qed

section \<open>After completion\<close>

text \<open>Reporting completion is the last thing a worker does: the report is accepted whatever Docker
  answers, and afterwards every request on the path of the job is refused and changes nothing.\<close>
theorem completed_job_locked_out:
  assumes "plain_paths parse dec" and "CHR ''/'' \<notin> set seg" and "parse seg = Some job"
    and "validate_token (jm_tokens (os_jobs s)) job tok"
  shows "\<exists>s'. serve_worker parse dec su env seg (Some (''Bearer '' @ tok)) (Report_complete rp) s
            = (s', Inr (Ok_200, Status_ok))
          \<and> serve_worker parse dec su env' seg auth req s' = (s', Inl Unauthorized_401)"
proof -
  obtain jm' x where c: "complete_job (ae_docker env) job
      \<lparr>cr_success = rp_success rp, cr_message = rp_message rp\<rparr> (os_jobs s) = (jm', x)" by fastforce
  let ?s' = "s\<lparr>os_jobs := jm'\<rparr>"
  have "strip_prefix (''Bearer '' @ tok) ''Bearer '' = Some tok" by (simp add: strip_prefix_Some)
  then have "serve_worker parse dec su env seg (Some (''Bearer '' @ tok)) (Report_complete rp) s
      = (?s', Inr (Ok_200, Status_ok))"
    using assms c by (simp add: serve_worker_cases report_complete_def)
  moreover have "\<not> validate_token (jm_tokens (os_jobs ?s')) job t" for t
    using complete_effect(1) [OF c] by simp
  then have "serve_worker parse dec su env' seg auth req ?s' = (?s', Inl Unauthorized_401)"
    using assms by (auto simp: serve_worker_cases split: option.splits)
  ultimately show ?thesis by blast
qed

theorem completed_job_locked_out_witness:
  "\<exists>s'. serve_worker example_parse (\<lambda>t. t) show_nat example_env ''a'' (Some (''Bearer '' @ ''01''))
        (Report_complete \<lparr>rp_success = True, rp_message = None, rp_iterations = 3\<rparr>) example_state
      = (s', Inr (Ok_200, Status_ok))
    \<and> serve_worker example_parse (\<lambda>t. t) show_nat example_env ''a'' (Some ''Bearer 01'') Get_credentials s'
      = (s', Inl Unauthorized_401)"
  by (rule completed_job_locked_out [OF example_plain _ _ example_token])
    (simp_all add: example_parse_def)

section \<open>Follow-up prompts\<close>

datatype prompt_op = Queue uuid pending_prompt | Fetch uuid

text \<open>A run of the queue: the final state and what each fetch delivered, with its job.\<close>

fun prompt_run :: "prompt_op list \<Rightarrow> orchestrator_state \<Rightarrow> orchestrator_state \<times> (uuid \<times> string \<times> bool) list" where
  "prompt_run [] s = (s, [])"
| "prompt_run (Queue j p # es) s = prompt_run es (queue_prompt j p s)"
| "prompt_run (Fetch j # es) s =
     (let (s', r) = get_prompt_handler j s; (s'', ds) = prompt_run es s' in
      (s'', (case r of Inr (st, Prompt_body c d) \<Rightarrow> [(j, c, d)] | _ \<Rightarrow> []) @ ds))"

fun queued_for :: "uuid \<Rightarrow> prompt_op list \<Rightarrow> (string \<times> bool) list" where
  "queued_for job [] = []"
| "queued_for job (Queue j p # es) = (if j = job then [(pp_content p, pp_done p)] else []) @ queued_for job es"
| "queued_for job (Fetch j # es) = queued_for job es"

definition waiting :: "orchestrator_state \<Rightarrow> uuid \<Rightarrow> (string \<times> bool) list" where
  "waiting s job = map (\<lambda>p. (pp_content p, pp_done p))
     (case map_of (os_prompts s) job of Some q \<Rightarrow> q | None \<Rightarrow> [])"

lemma waiting_queue: "waiting (queue_prompt j p s) job
    = waiting s job @ (if j = job then [(pp_content p, pp_done p)] else [])"
  by (simp add: waiting_def queue_prompt_def)

lemma waiting_fetch:
  assumes "get_prompt_handler j s = (s', r)"
  shows "waiting s job = (case r of Inr (st, Prompt_body c d) \<Rightarrow> (if j = job then [(c, d)] else []) | _ \<Rightarrow> [])
           @ waiting s' job"
  using assms by (cases "map_of (os_prompts s) j")
    (auto simp: waiting_def get_prompt_handler_def split: list.splits)

text \<open>Follow-up prompts reach the bridge of their job exactly once and in order: in any mixture of
  queueing and fetching for all jobs, the prompts delivered to a job followed by those still waiting
  are the ones that waited at the start followed by those queued for it.\<close>
theorem prompts_in_order:
  assumes "prompt_run es s = (s', delivered)"
  shows "map snd (filter (\<lambda>d. fst d = job) delivered) @ waiting s' job = waiting s job @ queued_for job es"
  using assms
proof (induction es arbitrary: s delivered)
  case (Cons e es)
  show ?case
  proof (cases e)
    case (Queue j p)
    with Cons show ?thesis by (simp add: waiting_queue)
  next
    case (Fetch j)
    obtain s1 r where g: "get_prompt_handler j s = (s1, r)" by fastforce
    obtain ds where d: "prompt_run es s1 = (s', ds)"
      "delivered = (case r of Inr (st, Prompt_body c d) \<Rightarrow> [(j, c, d)] | _ \<Rightarrow> []) @ ds"
      using Cons.prems Fetch g by (auto simp: Let_def split: prod.splits)
    from Cons.IH [OF d(1)] waiting_fetch [OF g, of job] d(2) Fetch show ?thesis
      by (auto split: sum.splits prod.splits api_body.splits)
  qed
qed (simp add: waiting_def)

theorem prompts_in_order_witness:
  "\<exists>s' delivered. prompt_run [Queue 7 \<lparr>pp_content = ''p'', pp_done = False\<rparr>, Queue 8 \<lparr>pp_content = ''q'', pp_done = True\<rparr>,
      Fetch 7, Fetch 7] example_state = (s', delivered)
    \<and> map snd (filter (\<lambda>d. fst d = 7) delivered) @ waiting s' 7 = [(''p'', False)]"
proof -
  let ?es = "[Queue 7 \<lparr>pp_content = ''p'', pp_done = False\<rparr>, Queue 8 \<lparr>pp_content = ''q'', pp_done = True\<rparr>,
      Fetch 7, Fetch 7]"
  obtain s' ds where r: "prompt_run ?es example_state = (s', ds)" by fastforce
  have "waiting example_state 7 = []" by (simp add: waiting_def example_state_def)
  with prompts_in_order [OF r, of 7] r show ?thesis by simp
qed

end
