(* ===== verification/Sanitizer.thy ===== *)
theory Sanitizer
  imports Rust_Strings
begin

text \<open>
  Detection and escaping of prompt injection, \<open>src/safety/sanitizer.rs\<close>, and the policy rules
  of \<open>src/safety/policy.rs\<close>. Two libraries are parameters: \<open>aci\<close> gives the matches of the
  case-insensitive Aho-Corasick automaton in a text (pattern index, start and end), \<open>re\<close>
  the spans a regular expression matches. Texts are ASCII.
\<close>

section \<open>Severities and policy rules\<close>

datatype severity = Low | Medium | High | Critical

fun severity_value :: "severity \<Rightarrow> nat" where
  "severity_value Low = 1"
| "severity_value Medium = 2"
| "severity_value High = 3"
| "severity_value Critical = 4"

instantiation severity :: linorder
begin

definition less_eq_severity :: "severity \<Rightarrow> severity \<Rightarrow> bool" where
  "less_eq_severity a b \<longleftrightarrow> severity_value a \<le> severity_value b"

definition less_severity :: "severity \<Rightarrow> severity \<Rightarrow> bool" where
  "less_severity a b \<longleftrightarrow> severity_value a < severity_value b"

instance
proof
  fix a b c :: severity
  show "(a < b) = (a \<le> b \<and> \<not> b \<le> a)" by (auto simp: less_eq_severity_def less_severity_def)
  show "a \<le> a" by (simp add: less_eq_severity_def)
  show "a \<le> b \<Longrightarrow> b \<le> c \<Longrightarrow> a \<le> c" by (simp add: less_eq_severity_def)
  show "a \<le> b \<Longrightarrow> b \<le> a \<Longrightarrow> a = b" by (cases a; cases b) (simp_all add: less_eq_severity_def)
  show "a \<le> b \<or> b \<le> a" by (auto simp: less_eq_severity_def)
qed

end

datatype policy_action = Policy_warn | Policy_block | Policy_review | Policy_sanitize

record policy_rule =
  pr_id :: string
  pr_description :: string
  pr_severity :: severity
  pr_pattern :: string
  pr_action :: policy_action

definition new_rule :: "string \<Rightarrow> string \<Rightarrow> string \<Rightarrow> severity \<Rightarrow> policy_action \<Rightarrow> policy_rule" where
  "new_rule i d p s a =
     \<lparr>pr_id = i, pr_description = d, pr_severity = s, pr_pattern = p, pr_action = a\<rparr>"

definition rule_matches :: "(string \<Rightarrow> string \<Rightarrow> (nat \<times> nat) list) \<Rightarrow> policy_rule \<Rightarrow> string \<Rightarrow> bool" where
  "rule_matches re r c \<longleftrightarrow> re (pr_pattern r) c \<noteq> []"

text \<open>A policy is the list of its rules.\<close>

definition add_rule :: "policy_rule \<Rightarrow> policy_rule list \<Rightarrow> policy_rule list" where
  "add_rule r p = p @ [r]"

definition check_policy ::
  "(string \<Rightarrow> string \<Rightarrow> (nat \<times> nat) list) \<Rightarrow> policy_rule list \<Rightarrow> string \<Rightarrow> policy_rule list" where
  "check_policy re p c = filter (\<lambda>r. rule_matches re r c) p"

definition is_blocked ::
  "(string \<Rightarrow> string \<Rightarrow> (nat \<times> nat) list) \<Rightarrow> policy_rule list \<Rightarrow> string \<Rightarrow> bool" where
  "is_blocked re p c \<longleftrightarrow> list_ex (\<lambda>r. pr_action r = Policy_block) (check_policy re p c)"

definition default_policy :: "policy_rule list" where
  "default_policy = [
      new_rule ''system_file_access'' ''Attempt to access system files'' (''(?i)(/etc/passwd|/etc/shadow|'' @ [CHR 0x5C] @ ''.ssh/|'' @ [CHR 0x5C] @ ''.aws/credentials)'') Critical Policy_block,
      new_rule ''crypto_private_key'' ''Potential cryptocurrency private key'' ''(?i)(private.?key|seed.?phrase|mnemonic).{0,20}[0-9a-f]{64}'' Critical Policy_block,
      new_rule ''sql_pattern'' ''SQL-like pattern detected'' (''(?i)(DROP'' @ [CHR 0x5C] @ ''s+TABLE|DELETE'' @ [CHR 0x5C] @ ''s+FROM|INSERT'' @ [CHR 0x5C] @ ''s+INTO|UPDATE'' @ [CHR 0x5C] @ ''s+'' @ [CHR 0x5C] @ ''w+'' @ [CHR 0x5C] @ ''s+SET)'') Medium Policy_warn,
      new_rule ''shell_injection'' ''Potential shell command injection'' (''(?i)(;'' @ [CHR 0x5C] @ ''s*rm'' @ [CHR 0x5C] @ ''s+-rf|;'' @ [CHR 0x5C] @ ''s*curl'' @ [CHR 0x5C] @ ''s+.*'' @ [CHR 0x5C] @ ''|'' @ [CHR 0x5C] @ ''s*sh|'' @ [CHR 0x60] @ ''.*'' @ [CHR 0x60] @ '')'') Critical Policy_block,
      new_rule ''excessive_urls'' ''Excessive number of URLs detected'' (''(https?://['' @ [CHR 0x5E, CHR 0x5C] @ ''s]+'' @ [CHR 0x5C] @ ''s*){10,}'') Low Policy_warn,
      new_rule ''encoded_exploit'' ''Potential encoded exploit payload'' (''(?i)(base64_decode|eval'' @ [CHR 0x5C] @ ''s*'' @ [CHR 0x5C] @ ''('' @ [CHR 0x5C] @ ''s*base64|atob'' @ [CHR 0x5C] @ ''s*'' @ [CHR 0x5C] @ ''()'') High Policy_sanitize,
      new_rule ''obfuscated_string'' ''Potential obfuscated content'' (''['' @ [CHR 0x5E, CHR 0x5C] @ ''s]{500,}'') Medium Policy_warn]"

section \<open>The sanitizer\<close>

record injection_warning =
  iw_pattern :: string
  iw_severity :: severity
  iw_location :: "nat \<times> nat"
  iw_description :: string

record sanitized_output =
  so_content :: string
  so_warnings :: "injection_warning list"
  so_was_modified :: bool

record pattern_info =
  pi_pattern :: string
  pi_severity :: severity
  pi_description :: string

record regex_pattern =
  rx_regex :: string
  rx_name :: string
  rx_severity :: severity
  rx_description :: string

definition injection_pattern :: "string \<Rightarrow> severity \<Rightarrow> string \<Rightarrow> pattern_info" where
  "injection_pattern p s d = \<lparr>pi_pattern = p, pi_severity = s, pi_description = d\<rparr>"

definition regex_pattern_of :: "string \<Rightarrow> string \<Rightarrow> severity \<Rightarrow> string \<Rightarrow> regex_pattern" where
  "regex_pattern_of r n s d = \<lparr>rx_regex = r, rx_name = n, rx_severity = s, rx_description = d\<rparr>"

record sanitizer =
  sz_patterns :: "pattern_info list"
  sz_regexes :: "regex_pattern list"

definition injection_patterns :: "pattern_info list" where
  "injection_patterns = [
      injection_pattern ''ignore previous'' High ''Attempt to override previous instructions'',
      injection_pattern ''ignore all previous'' Critical ''Attempt to override all previous instructions'',
      injection_pattern ''disregard'' Medium ''Potential instruction override'',
      injection_pattern ''forget everything'' High ''Attempt to reset context'',
      injection_pattern ''you are now'' High ''Attempt to change assistant role'',
      injection_pattern ''act as'' Medium ''Potential role manipulation'',
      injection_pattern ''pretend to be'' Medium ''Potential role manipulation'',
      injection_pattern ''system:'' Critical ''Attempt to inject system message'',
      injection_pattern ''assistant:'' High ''Attempt to inject assistant response'',
      injection_pattern ''user:'' High ''Attempt to inject user message'',
      injection_pattern ''<|'' Critical ''Potential special token injection'',
      injection_pattern ''|>'' Critical ''Potential special token injection'',
      injection_pattern ''[INST]'' Critical ''Potential instruction token injection'',
      injection_pattern ''[/INST]'' Critical ''Potential instruction token injection'',
      injection_pattern ''new instructions'' High ''Attempt to provide new instructions'',
      injection_pattern ''updated instructions'' High ''Attempt to update instructions'',
      injection_pattern ([CHR 0x60, CHR 0x60, CHR 0x60] @ ''system'') High ''Potential code block instruction injection'',
      injection_pattern ([CHR 0x60, CHR 0x60, CHR 0x60] @ ''bash'' @ [CHR 0x0A] @ ''sudo'') Medium ''Potential dangerous command injection'']"

definition injection_regexes :: "regex_pattern list" where
  "injection_regexes = [
      regex_pattern_of (''(?i)base64[:'' @ [CHR 0x5C] @ ''s]+[A-Za-z0-9+/=]{50,}'') ''base64_payload'' Medium ''Potential encoded payload'',
      regex_pattern_of (''(?i)eval'' @ [CHR 0x5C] @ ''s*'' @ [CHR 0x5C] @ ''('') ''eval_call'' High ''Potential code evaluation attempt'',
      regex_pattern_of (''(?i)exec'' @ [CHR 0x5C] @ ''s*'' @ [CHR 0x5C] @ ''('') ''exec_call'' High ''Potential code execution attempt'',
      regex_pattern_of ([CHR 0x5C] @ ''x00'') ''null_byte'' Critical ''Null byte injection attempt'']"

definition new_sanitizer :: sanitizer where
  "new_sanitizer = \<lparr>sz_patterns = injection_patterns, sz_regexes = injection_regexes\<rparr>"

definition role_marker :: "string \<Rightarrow> bool" where
  "role_marker line =
     (let t = to_lower (trim_start line)
      in starts_with t ''system:'' \<or> starts_with t ''user:'' \<or> starts_with t ''assistant:'')"

definition escape_line :: "string \<Rightarrow> string" where
  "escape_line line = (if role_marker line then ''[ESCAPED] '' @ line else line)"

definition escape_tokens :: "string \<Rightarrow> string" where
  "escape_tokens c =
     (let e1 = replace_str ''<|'' ([CHR 0x5C] @ ''<|'') c;
          e2 = replace_str ''|>'' (''|'' @ [CHR 0x5C] @ ''>'') e1;
          e3 = replace_str ''[INST]'' ([CHR 0x5C] @ ''[INST]'') e2
      in replace_str ''[/INST]'' ([CHR 0x5C] @ ''[/INST]'') e3)"

definition escape_content :: "string \<Rightarrow> string" where
  "escape_content c =
     (let e = replace_str [CHR 0x00] [] (escape_tokens c)
      in join [CHR 0x0A] (map escape_line (str_lines e)))"

definition literal_warnings ::
  "(string list \<Rightarrow> string \<Rightarrow> (nat \<times> nat \<times> nat) list) \<Rightarrow> sanitizer \<Rightarrow> string \<Rightarrow> injection_warning list" where
  "literal_warnings aci sz c = map (\<lambda>(k, s, e).
      (let p = sz_patterns sz ! k in
       \<lparr>iw_pattern = pi_pattern p, iw_severity = pi_severity p, iw_location = (s, e),
        iw_description = pi_description p\<rparr>))
     (aci (map pi_pattern (sz_patterns sz)) c)"

definition regex_warnings ::
  "(string \<Rightarrow> string \<Rightarrow> (nat \<times> nat) list) \<Rightarrow> sanitizer \<Rightarrow> string \<Rightarrow> injection_warning list" where
  "regex_warnings re sz c = concat (map (\<lambda>p. map (\<lambda>span.
      \<lparr>iw_pattern = rx_name p, iw_severity = rx_severity p, iw_location = span,
       iw_description = rx_description p\<rparr>) (re (rx_regex p) c)) (sz_regexes sz))"

text \<open>The stable sort by severity, critical first.\<close>

definition sort_warnings :: "injection_warning list \<Rightarrow> injection_warning list" where
  "sort_warnings ws = sort_key (\<lambda>w. 4 - severity_value (iw_severity w)) ws"

definition sanitize ::
  "(string list \<Rightarrow> string \<Rightarrow> (nat \<times> nat \<times> nat) list) \<Rightarrow> (string \<Rightarrow> string \<Rightarrow> (nat \<times> nat) list)
     \<Rightarrow> sanitizer \<Rightarrow> string \<Rightarrow> sanitized_output" where
  "sanitize aci re sz c =
     (let ws = sort_warnings (literal_warnings aci sz c @ regex_warnings re sz c);
          has_critical = list_ex (\<lambda>w. iw_severity w = Critical) ws
      in if has_critical
         then \<lparr>so_content = escape_content c, so_warnings = ws, so_was_modified = True\<rparr>
         else \<lparr>so_content = c, so_warnings = ws, so_was_modified = False\<rparr>)"

definition detect ::
  "(string list \<Rightarrow> string \<Rightarrow> (nat \<times> nat \<times> nat) list) \<Rightarrow> (string \<Rightarrow> string \<Rightarrow> (nat \<times> nat) list)
     \<Rightarrow> sanitizer \<Rightarrow> string \<Rightarrow> injection_warning list" where
  "detect aci re sz c = so_warnings (sanitize aci re sz c)"

section \<open>Characters next to each other\<close>

text \<open>No \<open>x\<close> stands directly before a \<open>y\<close>.\<close>

fun apart :: "char \<Rightarrow> char \<Rightarrow> string \<Rightarrow> bool" where
  "apart x y (a # b # cs) \<longleftrightarrow> \<not> (a = x \<and> b = y) \<and> apart x y (b # cs)"
| "apart x y _ \<longleftrightarrow> True"

lemma apart_Cons: "apart x y (a # cs) \<longleftrightarrow> apart x y cs \<and> \<not> (a = x \<and> cs \<noteq> [] \<and> hd cs = y)"
  by (cases cs) auto

lemma apart_append: "apart x y (as @ bs) \<longleftrightarrow> apart x y as \<and> apart x y bs
    \<and> \<not> (as \<noteq> [] \<and> bs \<noteq> [] \<and> last as = x \<and> hd bs = y)"
  by (induction as) (auto simp: apart_Cons)

lemma apart_contains: "apart x y s \<longleftrightarrow> \<not> contains_str s [x, y]"
proof (induction s)
  case (Cons a s)
  then show ?case by (cases s) (auto simp: apart_Cons)
qed simp

lemma apart_trivial: "x \<notin> set s \<or> y \<notin> set s \<Longrightarrow> apart x y s"
  by (induction s) (auto simp: apart_Cons intro: list.set_sel)

lemma apart_drop: "apart x y s \<Longrightarrow> apart x y (drop n s)"
  using apart_append [of x y "take n s" "drop n s"] by simp

lemma replace_hd:
  assumes "p \<noteq> []" "r \<noteq> []" "cs \<noteq> []"
  shows "replace_str p r cs \<noteq> [] \<and> (hd (replace_str p r cs) = hd cs \<or> hd (replace_str p r cs) = hd r)"
  using assms by (cases cs) auto

text \<open>Replacing does not bring \<open>x\<close> and \<open>y\<close> together when the replacement does not.\<close>

lemma apart_replace:
  assumes "p \<noteq> []" "r \<noteq> []" "apart x y r" "last r \<noteq> x" "hd r \<noteq> y"
  shows "apart x y s \<Longrightarrow> apart x y (replace_str p r s)"
proof (induction s rule: length_induct)
  case (1 s)
  show ?case
  proof (cases s)
    case (Cons c cs)
    show ?thesis
    proof (cases "starts_with s p")
      case True
      have "apart x y (drop (length p - 1) cs)"
        using "1.prems" apart_drop [of x y cs] Cons by (auto simp: apart_Cons)
      moreover have "length (drop (length p - 1) cs) < length s" using Cons by simp
      ultimately have "apart x y (replace_str p r (drop (length p - 1) cs))" using "1.IH" by blast
      with assms True Cons show ?thesis by (auto simp: apart_append)
    next
      case False
      have *: "apart x y cs" "\<not> (c = x \<and> cs \<noteq> [] \<and> hd cs = y)"
        using "1.prems" Cons by (auto simp: apart_Cons)
      then have "apart x y (replace_str p r cs)" using "1.IH" Cons by simp
      moreover have "cs \<noteq> [] \<Longrightarrow> hd (replace_str p r cs) = hd cs \<or> hd (replace_str p r cs) = hd r"
        using replace_hd [of p r cs] assms by simp
      ultimately show ?thesis using * False assms(5) Cons by (cases "cs = []") (auto simp: apart_Cons)
    qed
  qed simp
qed

text \<open>Replacing the pair itself by a text that keeps them apart removes it.\<close>

lemma apart_replace_pair:
  assumes "r \<noteq> []" "apart x y r" "last r \<noteq> x" "hd r = x" "x \<noteq> y"
  shows "apart x y (replace_str [x, y] r s)"
proof (induction s rule: length_induct)
  case (1 s)
  show ?case
  proof (cases s)
    case (Cons c cs)
    show ?thesis
    proof (cases "starts_with s [x, y]")
      case True
      have "length (drop 1 cs) < length s" using Cons by simp
      then have "apart x y (replace_str [x, y] r (drop 1 cs))" using "1.IH" by blast
      with assms True Cons show ?thesis by (auto simp: apart_append)
    next
      case False
      have "apart x y (replace_str [x, y] r cs)" using "1.IH" Cons by simp
      moreover have "cs \<noteq> [] \<Longrightarrow> hd (replace_str [x, y] r cs) = y \<Longrightarrow> hd cs = y"
        using replace_hd [of "[x, y]" r cs] assms by auto
      moreover have "c = x \<Longrightarrow> cs \<noteq> [] \<Longrightarrow> hd cs \<noteq> y" using False Cons by (cases cs) auto
      ultimately show ?thesis using False Cons by (cases "cs = []") (auto simp: apart_Cons)
    qed
  qed simp
qed

section \<open>What escaping removes\<close>

lemma replace_str_id: "p \<noteq> [] \<Longrightarrow> hd p \<notin> set s \<Longrightarrow> replace_str p r s = s"
proof (induction s)
  case (Cons c cs)
  then have "\<not> starts_with (c # cs) p" by (cases p) auto
  with Cons show ?case by simp
qed simp

lemma drop_char: "replace_str [d] [] s = filter (\<lambda>c. c \<noteq> d) s"
  by (induction s) auto

lemma set_join: "set (join sep ws) \<subseteq> set sep \<union> (\<Union>w \<in> set ws. set w)"
  by (induction sep ws rule: join.induct) auto

lemma set_strip_cr: "set (strip_cr l) \<subseteq> set l"
  by (auto simp: strip_cr_def strip_suffix_Some split: option.splits)

lemma str_lines_cases:
  assumes "l \<in> set (str_lines s)"
  shows "\<exists>w \<in> set (split_on CHR 0x0A s). l = w \<or> l = strip_cr w"
proof -
  let ?ps = "split_on CHR 0x0A s"
  have "l \<in> strip_cr ` set (butlast ?ps) \<or> l = last ?ps"
    using assms by (auto simp: str_lines_def Let_def split: if_splits)
  moreover have "set (butlast ?ps) \<subseteq> set ?ps" by (auto dest: in_set_butlastD)
  moreover have "last ?ps \<in> set ?ps" by simp
  ultimately show ?thesis by blast
qed

lemma set_str_lines:
  assumes "l \<in> set (str_lines s)"
  shows "set l \<subseteq> set s \<and> CHR 0x0A \<notin> set l"
proof -
  obtain w where w: "w \<in> set (split_on CHR 0x0A s)" "l = w \<or> l = strip_cr w"
    using str_lines_cases [OF assms] by blast
  then have "set l \<subseteq> set w" using set_strip_cr by auto
  then show ?thesis using set_split_by [OF w(1)] split_by_no_sep [OF w(1)] by blast
qed

lemma not_role_marker: "\<not> is_ws c \<Longrightarrow> lower_char c \<notin> {CHR ''s'', CHR ''u'', CHR ''a''} \<Longrightarrow> \<not> role_marker (c # l)"
  by (simp add: role_marker_def trim_start_def to_lower_def)

lemma escape_line_not_role: "\<not> role_marker (escape_line l)"
proof -
  have "\<not> role_marker (CHR ''['' # x)" for x
    by (rule not_role_marker) (simp_all add: char_defs)
  then show ?thesis by (auto simp: escape_line_def)
qed

lemma split_escaped:
  assumes "l \<in> set (split_on CHR 0x0A (join [CHR 0x0A] (map escape_line ls)))"
    and "\<forall>l \<in> set ls. CHR 0x0A \<notin> set l"
  shows "\<not> role_marker l"
proof (cases "ls = []")
  case True
  with assms show ?thesis by (simp add: role_marker_def trim_start_def to_lower_def)
next
  case False
  have "\<forall>w \<in> set (map escape_line ls). CHR 0x0A \<notin> set w"
    using assms(2) by (auto simp: escape_line_def)
  from split_join [OF _ this] False assms(1) have "l \<in> set (map escape_line ls)" by simp
  then show ?thesis using escape_line_not_role by auto
qed

lemma apart_join:
  assumes "\<forall>w \<in> set ws. apart x y w" "CHR 0x0A \<noteq> x" "CHR 0x0A \<noteq> y"
  shows "apart x y (join [CHR 0x0A] ws)"
  using assms by (induction "[CHR 0x0A]" ws rule: join.induct) (auto simp: apart_append apart_Cons)

lemma apart_split:
  assumes "apart x y s" "w \<in> set (split_on d s)" shows "apart x y w"
  using assms
proof (induction s arbitrary: w)
  case (Cons c cs)
  have cs: "apart x y cs" using Cons.prems by (simp add: apart_Cons)
  show ?case
  proof (cases "split_on d cs")
    case (Cons v vs)
    have v: "v \<noteq> [] \<Longrightarrow> cs \<noteq> [] \<and> hd cs = hd v"
      using \<open>split_on d cs = v # vs\<close> by (cases cs) (auto split: if_splits list.splits)
    have "apart x y u" if "u \<in> set (v # vs)" for u using Cons.IH cs that \<open>split_on d cs = v # vs\<close> by simp
    then show ?thesis
      using Cons.prems \<open>split_on d cs = v # vs\<close> v by (auto simp: apart_Cons split: if_splits)
  qed simp
qed simp

lemma apart_strip_cr: "apart x y l \<Longrightarrow> apart x y (strip_cr l)"
  by (auto simp: strip_cr_def strip_suffix_Some apart_append split: option.splits)

lemma apart_lines: "apart x y s \<Longrightarrow> l \<in> set (str_lines s) \<Longrightarrow> apart x y l"
  using apart_split apart_strip_cr by (blast dest: str_lines_cases)

lemma escape_tokens_apart: "apart (CHR ''|'') (CHR ''>'') (escape_tokens c)"
  unfolding escape_tokens_def Let_def
  by (intro apart_replace apart_replace_pair) (simp_all)

lemma replace_notin: "c \<notin> set r \<Longrightarrow> c \<notin> set s \<Longrightarrow> c \<notin> set (replace_str p r s)"
  by (induction p r s rule: replace_str.induct) (auto dest: in_set_dropD)

lemma escape_no_token:
  assumes "CHR 0x00 \<notin> set c"
  shows "\<not> contains_str (escape_content c) ''|>''"
proof -
  have "CHR 0x00 \<notin> set (escape_tokens c)"
    unfolding escape_tokens_def Let_def by (intro replace_notin assms) simp_all
  then have "replace_str [CHR 0x00] [] (escape_tokens c) = escape_tokens c"
    by (simp add: replace_str_id)
  moreover have "apart (CHR ''|'') (CHR ''>'') (escape_line l)" if "apart (CHR ''|'') (CHR ''>'') l" for l
    using that by (auto simp: escape_line_def apart_Cons)
  ultimately have "apart (CHR ''|'') (CHR ''>'') (escape_content c)"
    unfolding escape_content_def Let_def
    by (intro apart_join) (auto dest: apart_lines [OF escape_tokens_apart])
  then show ?thesis by (simp add: apart_contains)
qed

lemma was_modified_iff: "so_was_modified (sanitize aci re sz c) \<longleftrightarrow>
    (\<exists>w \<in> set (literal_warnings aci sz c) \<union> set (regex_warnings re sz c). iw_severity w = Critical)"
  by (simp add: sanitize_def sort_warnings_def list_ex_iff Let_def)

text \<open>Content with a critical finding is neutralised: after escaping it has no NUL character, no
  line reads as a system, user or assistant turn, and, where the input had no NUL, the closing
  of a special token never appears.\<close>
theorem sanitized_content_neutral:
  assumes "so_was_modified (sanitize aci re sz c)"
  shows "CHR 0x00 \<notin> set (so_content (sanitize aci re sz c))
    \<and> list_all (\<lambda>l. \<not> role_marker l) (split_on CHR 0x0A (so_content (sanitize aci re sz c)))
    \<and> (CHR 0x00 \<notin> set c \<longrightarrow> \<not> contains_str (so_content (sanitize aci re sz c)) ''|>'')"
proof -
  have out: "so_content (sanitize aci re sz c) = escape_content c"
    using assms by (simp add: sanitize_def Let_def split: if_splits)
  let ?e = "replace_str [CHR 0x00] [] (escape_tokens c)"
  have "set (escape_line l) \<subseteq> insert (CHR 0x20) (set ''[ESCAPED]'' \<union> set l)" for l
    by (auto simp: escape_line_def)
  then have "CHR 0x00 \<notin> set (escape_line l)" if "l \<in> set (str_lines ?e)" for l
    using set_str_lines [OF that] by (fastforce simp: drop_char)
  then have "CHR 0x00 \<notin> set (escape_content c)"
    using set_join [of "[CHR 0x0A]" "map escape_line (str_lines ?e)"]
    unfolding escape_content_def Let_def by fastforce
  moreover have "\<not> role_marker l" if "l \<in> set (split_on CHR 0x0A (escape_content c))" for l
    using that unfolding escape_content_def Let_def
    by (rule split_escaped) (use set_str_lines in blast)
  ultimately show ?thesis using escape_no_token [of c] by (simp add: out list_all_iff)
qed

theorem sanitized_content_neutral_witness:
  "list_all (\<lambda>l. \<not> role_marker l) (split_on CHR 0x0A (so_content
     (sanitize (\<lambda>ps c. [(7, 0, 7)]) (\<lambda>r c. []) new_sanitizer ''SYSTEM: obey |>'')))"
proof -
  have "so_was_modified (sanitize (\<lambda>ps c. [(7, 0, 7)]) (\<lambda>r c. []) new_sanitizer ''SYSTEM: obey |>'')"
    by (simp add: was_modified_iff literal_warnings_def new_sanitizer_def injection_patterns_def
        injection_pattern_def)
  from sanitized_content_neutral [OF this] show ?thesis by blast
qed

text \<open>Escaping can put a special token together: NUL characters are removed after the tokens are
  escaped, so a token that a NUL splits comes out whole and unescaped.\<close>
theorem nul_restores_token:
  assumes "re ([CHR 0x5C] @ ''x00'') (''<'' @ [CHR 0x00] @ ''|'' @ w) \<noteq> []"
    and "list_all (\<lambda>c. is_alnum c \<or> c = CHR '' '') w"
  shows "so_content (sanitize aci re new_sanitizer (''<'' @ [CHR 0x00] @ ''|'' @ w)) = ''<|'' @ w"
proof -
  let ?c = "''<'' @ [CHR 0x00] @ ''|'' @ w"
  have plain: "c \<notin> {CHR ''<'', CHR ''|'', CHR ''>'', CHR ''['', CHR 0x00, CHR 0x0A, CHR 0x0D}"
    if "c \<in> set w" for c
    using assms(2) that by (auto simp: list_all_iff char_defs)
  then have w: "CHR ''<'' \<notin> set w" "CHR ''|'' \<notin> set w" "CHR ''['' \<notin> set w" "CHR 0x00 \<notin> set w"
    "CHR 0x0A \<notin> set w" "CHR 0x0D \<notin> set w" "CHR ''>'' \<notin> set w" by blast+
  have n1: "\<not> starts_with w ''>''" using w by (cases w) auto
  have "escape_tokens ?c = ?c"
    using w n1 by (simp add: escape_tokens_def replace_str_id Let_def)
  then have "replace_str [CHR 0x00] [] (escape_tokens ?c) = ''<|'' @ w"
    using w by (simp add: replace_str_id)
  moreover have "str_lines (''<|'' @ w) = [''<|'' @ w]"
    by (rule str_lines_single) (use w in auto)
  moreover have "\<not> role_marker (''<|'' @ w)"
    using not_role_marker [of "CHR ''<''" "''|'' @ w"] by (simp add: char_defs)
  ultimately have "escape_content ?c = ''<|'' @ w"
    unfolding escape_content_def Let_def by (simp add: escape_line_def)
  moreover have "so_was_modified (sanitize aci re new_sanitizer ?c)"
    using assms(1) by (auto simp: was_modified_iff regex_warnings_def new_sanitizer_def
        injection_regexes_def regex_pattern_of_def neq_Nil_conv)
  ultimately show ?thesis by (auto simp: sanitize_def Let_def split: if_splits)
qed

theorem nul_restores_token_witness:
  "so_content (sanitize (\<lambda>ps c. []) (\<lambda>r c. if CHR 0x00 \<in> set c then [(1, 2)] else []) new_sanitizer
     (''<'' @ [CHR 0x00] @ ''|'' @ ''im start'')) = ''<|im start''"
  using nul_restores_token [of "\<lambda>r c. if CHR 0x00 \<in> set c then [(1, 2)] else []" "''im start''"]
  by (simp add: char_defs)

end
