(* ===== verification/Validator.thy ===== *)
theory Validator
  imports Rust_Strings
begin

text \<open>
  Input validation, \<open>src/safety/validator.rs\<close>: length, NUL and forbidden-pattern errors with the
  two warnings, and the walk over the strings of tool parameters. The set of forbidden patterns
  is the list of its elements in iteration order. The whitespace ratio above 0.9, a division of
  two \<open>f64\<close>, is \<open>10 * spaces > 9 * length\<close>: for lengths below 2^40 the rounded quotient is on the
  same side of the constant.
\<close>

section \<open>Results\<close>

datatype validation_code = Empty | TooLong | TooShort | InvalidFormat | ForbiddenContent
  | InvalidEncoding | SuspiciousPattern

record validation_error =
  ve_field :: string
  ve_message :: string
  ve_code :: validation_code

record validation_result =
  vr_is_valid :: bool
  vr_errors :: "validation_error list"
  vr_warnings :: "string list"

definition vr_ok :: validation_result where
  "vr_ok = \<lparr>vr_is_valid = True, vr_errors = [], vr_warnings = []\<rparr>"

definition vr_error :: "validation_error \<Rightarrow> validation_result" where
  "vr_error e = \<lparr>vr_is_valid = False, vr_errors = [e], vr_warnings = []\<rparr>"

definition with_warning :: "string \<Rightarrow> validation_result \<Rightarrow> validation_result" where
  "with_warning w r = r\<lparr>vr_warnings := vr_warnings r @ [w]\<rparr>"

definition merge_results :: "validation_result \<Rightarrow> validation_result \<Rightarrow> validation_result" where
  "merge_results a b =
     \<lparr>vr_is_valid = vr_is_valid a \<and> vr_is_valid b, vr_errors = vr_errors a @ vr_errors b,
      vr_warnings = vr_warnings a @ vr_warnings b\<rparr>"

lemmas vr_ops = vr_ok_def vr_error_def with_warning_def merge_results_def

section \<open>The validator\<close>

record validator =
  va_max_length :: nat
  va_min_length :: nat
  va_forbidden :: "string list"

definition new_input_validator :: validator where
  "new_input_validator = \<lparr>va_max_length = 100000, va_min_length = 1, va_forbidden = []\<rparr>"

definition with_max_length :: "nat \<Rightarrow> validator \<Rightarrow> validator" where
  "with_max_length n v = v\<lparr>va_max_length := n\<rparr>"

definition with_min_length :: "nat \<Rightarrow> validator \<Rightarrow> validator" where
  "with_min_length n v = v\<lparr>va_min_length := n\<rparr>"

definition forbid_pattern :: "string \<Rightarrow> validator \<Rightarrow> validator" where
  "forbid_pattern p v = v\<lparr>va_forbidden := List.insert (to_lower p) (va_forbidden v)\<rparr>"

text \<open>The loop over neighbouring characters: the longest run so far and the current one.\<close>

fun repeat_loop :: "char \<Rightarrow> string \<Rightarrow> nat \<Rightarrow> nat \<Rightarrow> nat" where
  "repeat_loop prev [] longest cur = longest"
| "repeat_loop prev (c # cs) longest cur =
     (if c = prev then repeat_loop c cs (max longest (cur + 1)) (cur + 1)
      else repeat_loop c cs longest 1)"

definition has_excessive_repetition :: "string \<Rightarrow> bool" where
  "has_excessive_repetition s =
     (if length s < 50 then False
      else (case s of [] \<Rightarrow> False | c # cs \<Rightarrow> repeat_loop c cs 1 1 > 20))"

fun check_forbidden :: "string \<Rightarrow> string list \<Rightarrow> validation_result \<Rightarrow> validation_result" where
  "check_forbidden low [] r = r"
| "check_forbidden low (p # ps) r =
     check_forbidden low ps
       (if contains_str low p
        then merge_results r (vr_error \<lparr>ve_field = ''input'',
               ve_message = ''Input contains forbidden pattern: '' @ p, ve_code = ForbiddenContent\<rparr>)
        else r)"

definition validate_text :: "validator \<Rightarrow> string \<Rightarrow> validation_result" where
  "validate_text v s =
     (if s = [] then vr_error \<lparr>ve_field = ''input'', ve_message = ''Input cannot be empty'', ve_code = Empty\<rparr>
      else
       (let r1 = (if length s > va_max_length v
                  then merge_results vr_ok (vr_error \<lparr>ve_field = ''input'',
                         ve_message = ''Input too long: '' @ show_nat (length s) @ '' bytes (max ''
                           @ show_nat (va_max_length v) @ '')'', ve_code = TooLong\<rparr>)
                  else vr_ok);
            r2 = (if length s < va_min_length v
                  then merge_results r1 (vr_error \<lparr>ve_field = ''input'',
                         ve_message = ''Input too short: '' @ show_nat (length s) @ '' bytes (min ''
                           @ show_nat (va_min_length v) @ '')'', ve_code = TooShort\<rparr>)
                  else r1);
            r3 = (if CHR 0x00 \<in> set s
                  then merge_results r2 (vr_error \<lparr>ve_field = ''input'',
                         ve_message = ''Input contains null bytes'', ve_code = InvalidEncoding\<rparr>)
                  else r2);
            r4 = check_forbidden (to_lower s) (va_forbidden v) r3;
            r5 = (if 10 * length (filter is_ws s) > 9 * length s \<and> length s > 100
                  then with_warning ''Input has unusually high whitespace ratio'' r4 else r4)
        in if has_excessive_repetition s
           then with_warning ''Input has excessive character repetition'' r5 else r5))"

text \<open>The walk over the parameters, in document order.\<close>

fun check_strings :: "validator \<Rightarrow> json \<Rightarrow> validation_result \<Rightarrow> validation_result"
  and check_list :: "validator \<Rightarrow> json list \<Rightarrow> validation_result \<Rightarrow> validation_result"
  and check_members :: "validator \<Rightarrow> (string \<times> json) list \<Rightarrow> validation_result \<Rightarrow> validation_result" where
  "check_strings v (JStr s) r = merge_results r (validate_text v s)"
| "check_strings v (JArr js) r = check_list v js r"
| "check_strings v (JObj kvs) r = check_members v kvs r"
| "check_strings v JNull r = r"
| "check_strings v (JBool b) r = r"
| "check_strings v (JNum n) r = r"
| "check_list v [] r = r"
| "check_list v (j # js) r = check_list v js (check_strings v j r)"
| "check_members v [] r = r"
| "check_members v ((k, j) # kvs) r = check_members v kvs (check_strings v j r)"

definition validate_tool_params :: "validator \<Rightarrow> json \<Rightarrow> validation_result" where
  "validate_tool_params v params = check_strings v params vr_ok"

section \<open>When a text is valid\<close>

definition acceptable :: "validator \<Rightarrow> string \<Rightarrow> bool" where
  "acceptable v s \<longleftrightarrow> s \<noteq> [] \<and> va_min_length v \<le> length s \<and> length s \<le> va_max_length v
     \<and> CHR 0x00 \<notin> set s \<and> list_all (\<lambda>p. \<not> contains_str (to_lower s) p) (va_forbidden v)"

text \<open>A result is consistent when it is valid exactly if it has no errors.\<close>

definition consistent :: "validation_result \<Rightarrow> bool" where
  "consistent r \<longleftrightarrow> (vr_is_valid r \<longleftrightarrow> vr_errors r = [])"

lemma check_forbidden_valid:
  "vr_is_valid (check_forbidden low ps r)
     \<longleftrightarrow> vr_is_valid r \<and> list_all (\<lambda>p. \<not> contains_str low p) ps"
  by (induction low ps r rule: check_forbidden.induct) (auto simp: vr_ops)

lemma consistent_merge: "consistent a \<Longrightarrow> consistent b \<Longrightarrow> consistent (merge_results a b)"
  by (auto simp: consistent_def vr_ops)

lemma consistent_base [simp]:
  "consistent vr_ok" "consistent (vr_error e)" "consistent r \<Longrightarrow> consistent (with_warning w r)"
  by (auto simp: consistent_def vr_ops)

lemma check_forbidden_consistent: "consistent r \<Longrightarrow> consistent (check_forbidden low ps r)"
  by (induction low ps r rule: check_forbidden.induct) (simp_all add: consistent_merge)

lemma validate_text_consistent: "consistent (validate_text v s)"
  by (simp add: validate_text_def Let_def check_forbidden_consistent consistent_merge)

lemma with_warning_valid [simp]: "vr_is_valid (with_warning w r) = vr_is_valid r"
  by (simp add: with_warning_def)

lemma merge_valid [simp]: "vr_is_valid (merge_results a b) \<longleftrightarrow> vr_is_valid a \<and> vr_is_valid b"
  by (simp add: merge_results_def)

lemma base_valid [simp]: "vr_is_valid vr_ok" "\<not> vr_is_valid (vr_error e)"
  by (simp_all add: vr_ops)

lemma validate_text_valid: "vr_is_valid (validate_text v s) \<longleftrightarrow> acceptable v s"
  by (auto simp: validate_text_def acceptable_def check_forbidden_valid Let_def)

section \<open>The strings of the parameters\<close>

fun json_strings :: "json \<Rightarrow> string list" where
  "json_strings (JStr s) = [s]"
| "json_strings (JArr js) = concat (map json_strings js)"
| "json_strings (JObj kvs) = concat (map (\<lambda>kv. json_strings (snd kv)) kvs)"
| "json_strings _ = []"

lemma check_valid:
  "vr_is_valid (check_strings v j r) \<longleftrightarrow> vr_is_valid r \<and> list_all (acceptable v) (json_strings j)"
  "vr_is_valid (check_list v js r)
     \<longleftrightarrow> vr_is_valid r \<and> list_all (\<lambda>j. list_all (acceptable v) (json_strings j)) js"
  "vr_is_valid (check_members v kvs r)
     \<longleftrightarrow> vr_is_valid r \<and> list_all (\<lambda>kv. list_all (acceptable v) (json_strings (snd kv))) kvs"
  by (induction v j r and v js r and v kvs r rule: check_strings_check_list_check_members.induct)
    (auto simp: validate_text_valid list_all_iff)

lemma check_consistent:
  "consistent r \<Longrightarrow> consistent (check_strings v j r)"
  "consistent r \<Longrightarrow> consistent (check_list v js r)"
  "consistent r \<Longrightarrow> consistent (check_members v kvs r)"
  by (induction v j r and v js r and v kvs r rule: check_strings_check_list_check_members.induct)
    (auto intro: consistent_merge validate_text_consistent)

text \<open>Tool parameters are valid exactly when every string in them, at any depth, is acceptable:
  not empty, within the length bounds, without NUL and forbidden patterns. An invalid result
  always says why.\<close>
theorem tool_params_valid_iff:
  "(vr_is_valid (validate_tool_params v params) \<longleftrightarrow> list_all (acceptable v) (json_strings params))
   \<and> (vr_is_valid (validate_tool_params v params) \<longleftrightarrow> vr_errors (validate_tool_params v params) = [])"
  using check_valid(1) [of v params vr_ok] check_consistent(1) [of vr_ok v params]
  by (simp add: validate_tool_params_def consistent_def vr_ok_def)

section \<open>Repetition\<close>

text \<open>The longest run of one character, position by position.\<close>

definition run_from :: "char \<Rightarrow> string \<Rightarrow> nat" where
  "run_from c s = length (takeWhile (\<lambda>d. d = c) s)"

fun longest_run :: "string \<Rightarrow> nat" where
  "longest_run [] = 0"
| "longest_run (c # cs) = max (1 + run_from c cs) (longest_run cs)"

lemma run_from_simps [simp]:
  "run_from c [] = 0" "run_from c (d # s) = (if d = c then 1 + run_from c s else 0)"
  by (simp_all add: run_from_def)

lemma repeat_loop_max:
  "cur \<le> longest \<Longrightarrow> 1 \<le> cur \<Longrightarrow>
   repeat_loop prev s longest cur = max longest (max (cur + run_from prev s) (longest_run s))"
  by (induction prev s longest cur rule: repeat_loop.induct) (auto simp: max_def)

text \<open>The one-pass loop over neighbouring characters agrees with the reference: a text of fifty
  characters or more is flagged exactly when some character is repeated more than twenty times
  in a row.\<close>
theorem repetition_equiv:
  "has_excessive_repetition s \<longleftrightarrow> 50 \<le> length s \<and> 20 < longest_run s"
  by (cases s) (auto simp: has_excessive_repetition_def repeat_loop_max)

end
