(* ===== verification/Safety_Layer.thy ===== *)
theory Safety_Layer
  imports Leak_Detector Sanitizer Validator
begin

text \<open>
  The safety layer on tool outputs, \<open>src/safety/mod.rs\<close>: length limit, leak scan, policy and
  sanitizer in this order, and the XML frame around what the model sees. The two automata
  \<open>ac\<close> and \<open>aci\<close> and the regex engine \<open>re\<close> are parameters, as in the component theories.
\<close>

section \<open>The layer\<close>

record safety_config =
  sc_max_output_length :: nat
  sc_injection_check :: bool

record safety_layer =
  sl_sanitizer :: sanitizer
  sl_validator :: validator
  sl_policy :: "policy_rule list"
  sl_detector :: leak_detector
  sl_config :: safety_config

definition new_safety_layer :: "safety_config \<Rightarrow> safety_layer" where
  "new_safety_layer c = \<lparr>sl_sanitizer = new_sanitizer, sl_validator = new_input_validator,
     sl_policy = default_policy, sl_detector = new_detector, sl_config = c\<rparr>"

definition sanitize_tool_output ::
  "(string list \<Rightarrow> string \<Rightarrow> (nat \<times> nat \<times> nat) list) \<Rightarrow> (string list \<Rightarrow> string \<Rightarrow> (nat \<times> nat \<times> nat) list)
     \<Rightarrow> (string \<Rightarrow> string \<Rightarrow> (nat \<times> nat) list) \<Rightarrow> safety_layer \<Rightarrow> string \<Rightarrow> string \<Rightarrow> sanitized_output" where
  "sanitize_tool_output ac aci re sl tool_name out =
     (if length out > sc_max_output_length (sl_config sl) then
        \<lparr>so_content = ''[Output truncated: '' @ show_nat (length out) @ '' bytes exceeded maximum of ''
           @ show_nat (sc_max_output_length (sl_config sl)) @ '' bytes]'',
         so_warnings = [\<lparr>iw_pattern = ''output_too_large'', iw_severity = severity.Low,
           iw_location = (0, length out),
           iw_description = ''Output from tool '' @ [CHR 0x27] @ tool_name @ [CHR 0x27]
             @ '' was truncated due to size''\<rparr>],
         so_was_modified = True\<rparr>
      else case scan_and_clean ac re (sl_detector sl) out of
        Inl e \<Rightarrow> \<lparr>so_content = ''[Output blocked due to potential secret leakage]'',
                  so_warnings = [], so_was_modified = True\<rparr>
      | Inr cleaned \<Rightarrow>
         (let modified = (cleaned \<noteq> out);
              violations = check_policy re (sl_policy sl) cleaned
          in if list_ex (\<lambda>r. pr_action r = Policy_block) violations then
               \<lparr>so_content = ''[Output blocked by safety policy]'', so_warnings = [], so_was_modified = True\<rparr>
             else
              (let force = list_ex (\<lambda>r. pr_action r = Policy_sanitize) violations;
                   modified' = (force \<or> modified)
               in if sc_injection_check (sl_config sl) \<or> force then
                    (let s = sanitize aci re (sl_sanitizer sl) cleaned
                     in s\<lparr>so_was_modified := so_was_modified s \<or> modified'\<rparr>)
                  else \<lparr>so_content = cleaned, so_warnings = [], so_was_modified = modified'\<rparr>)))"

definition validate_input :: "safety_layer \<Rightarrow> string \<Rightarrow> validation_result" where
  "validate_input sl s = validate_text (sl_validator sl) s"

definition layer_check_policy ::
  "(string \<Rightarrow> string \<Rightarrow> (nat \<times> nat) list) \<Rightarrow> safety_layer \<Rightarrow> string \<Rightarrow> policy_rule list" where
  "layer_check_policy re sl c = check_policy re (sl_policy sl) c"

definition escape_xml_attr :: "string \<Rightarrow> string" where
  "escape_xml_attr s =
     replace_str ''>'' ''&gt;'' (replace_str ''<'' ''&lt;'' (replace_str [CHR 0x22] ''&quot;''
       (replace_str ''&'' ''&amp;'' s)))"

definition escape_xml_content :: "string \<Rightarrow> string" where
  "escape_xml_content s =
     replace_str ''>'' ''&gt;'' (replace_str ''<'' ''&lt;'' (replace_str ''&'' ''&amp;'' s))"

definition show_bool :: "bool \<Rightarrow> string" where
  "show_bool b = (if b then ''true'' else ''false'')"

definition wrap_for_llm :: "string \<Rightarrow> string \<Rightarrow> bool \<Rightarrow> string" where
  "wrap_for_llm tool_name content sanitized =
     ''<tool_output name='' @ [CHR 0x22] @ escape_xml_attr tool_name @ [CHR 0x22]
       @ '' sanitized='' @ [CHR 0x22] @ show_bool sanitized @ [CHR 0x22] @ ''>'' @ [CHR 0x0A]
       @ escape_xml_content content @ [CHR 0x0A] @ ''</tool_output>''"

section \<open>The gate\<close>

definition output_notices :: "safety_layer \<Rightarrow> string \<Rightarrow> string list" where
  "output_notices sl out =
     [''[Output truncated: '' @ show_nat (length out) @ '' bytes exceeded maximum of ''
        @ show_nat (sc_max_output_length (sl_config sl)) @ '' bytes]'',
      ''[Output blocked due to potential secret leakage]'', ''[Output blocked by safety policy]'']"

text \<open>C31: What reaches the model of a tool output is a notice that says nothing of it, or the output
  was within the limit, free of blocked secrets and, after redaction, of blocked policy rules; then
  it is the redacted output, escaped at most.\<close>
theorem tool_output_gate:
  "so_content (sanitize_tool_output ac aci re sl tn out) \<in> set (output_notices sl out)
   \<or> (\<exists>cleaned. length out \<le> sc_max_output_length (sl_config sl) \<and> unblocked ac re (sl_detector sl) out
        \<and> scan_and_clean ac re (sl_detector sl) out = Inr cleaned
        \<and> \<not> is_blocked re (sl_policy sl) cleaned
        \<and> so_content (sanitize_tool_output ac aci re sl tn out) \<in> {cleaned, escape_content cleaned})"
proof (cases "length out > sc_max_output_length (sl_config sl)")
  case True
  then show ?thesis by (simp add: sanitize_tool_output_def output_notices_def)
next
  case False
  show ?thesis
  proof (cases "scan_and_clean ac re (sl_detector sl) out")
    case (Inl e)
    with False show ?thesis by (simp add: sanitize_tool_output_def output_notices_def)
  next
    case (Inr cleaned)
    then have "unblocked ac re (sl_detector sl) out"
      using scan_and_clean_isl [of ac re "sl_detector sl" out] by simp
    moreover have "so_content (sanitize aci re (sl_sanitizer sl) cleaned) \<in> {cleaned, escape_content cleaned}"
      by (simp add: sanitize_def Let_def)
    ultimately show ?thesis using False Inr
      by (auto simp: sanitize_tool_output_def output_notices_def is_blocked_def Let_def)
  qed
qed

section \<open>A secret split by a NUL\<close>

lemma lower_char_colon:
  assumes "lower_char c = CHR '':''" shows "c = CHR '':''"
proof (cases "is_upper c")
  case True
  then have "code_of (lower_char c) = code_of c + 32"
    by (simp add: lower_char_def is_upper_def)
  moreover have "code_of (CHR '':'') = 58" by (simp add: code_of_def)
  ultimately have "code_of c + 32 = 58" using assms by simp
  with True show ?thesis by (simp add: is_upper_def)
qed (use assms in \<open>simp add: lower_char_def\<close>)

lemma role_marker_colon: "role_marker l \<Longrightarrow> CHR '':'' \<in> set l"
proof -
  assume "role_marker l"
  then have "CHR '':'' \<in> set (to_lower (trim_start l))"
    by (auto simp: role_marker_def Let_def starts_with_iff)
  then have "CHR '':'' \<in> set (trim_start l)"
    by (auto simp: to_lower_def dest: lower_char_colon [OF sym] lower_char_colon)
  then show ?thesis by (auto simp: trim_start_def dest: set_dropWhileD)
qed

text \<open>Escaping leaves plain text alone; a NUL inside it just vanishes.\<close>

definition plain_char :: "char \<Rightarrow> bool" where
  "plain_char c \<longleftrightarrow> is_alnum c \<or> c \<in> {CHR ''_'', CHR ''-'', CHR '' '', CHR ''.'', CHR ''=''}"

lemma plain_char_not:
  "plain_char c \<Longrightarrow> c \<notin> {CHR ''<'', CHR ''|'', CHR '':'', CHR ''['', CHR 0x00, CHR 0x0A, CHR 0x0D}"
  by (auto simp: plain_char_def char_defs)

lemma escape_plain:
  assumes "list_all plain_char a" "list_all plain_char b" "a @ b \<noteq> []"
  shows "escape_content (a @ [CHR 0x00] @ b) = a @ b"
proof -
  have p: "c \<notin> {CHR ''<'', CHR ''|'', CHR '':'', CHR ''['', CHR 0x00, CHR 0x0A, CHR 0x0D}"
    if "c \<in> set (a @ b)" for c
    using assms that by (intro plain_char_not) (auto simp: list_all_iff)
  let ?c = "a @ [CHR 0x00] @ b"
  have "CHR ''<'' \<notin> set ?c" "CHR ''|'' \<notin> set ?c" "CHR ''['' \<notin> set ?c"
    using p by fastforce+
  then have "escape_tokens ?c = ?c" by (simp add: escape_tokens_def replace_str_id Let_def)
  moreover have "filter (\<lambda>c. c \<noteq> CHR 0x00) a = a" "filter (\<lambda>c. c \<noteq> CHR 0x00) b = b"
    using p by (fastforce intro: filter_True)+
  ultimately have e: "replace_str [CHR 0x00] [] (escape_tokens ?c) = a @ b" by (simp add: drop_char)
  have "str_lines (a @ b) = [a @ b]"
    by (rule str_lines_single) (use p assms(3) in fastforce)+
  moreover have "\<not> role_marker (a @ b)" using role_marker_colon [of "a @ b"] p by blast
  ultimately show ?thesis unfolding escape_content_def e Let_def by (simp add: escape_line_def)
qed

text \<open>A secret survives the layer when a NUL character splits it: the scan sees no match in the
  split text, the sanitizer then removes the NUL, and the model gets the whole secret, a text that
  the same scan would have blocked.\<close>
theorem split_secret_reassembled:
  assumes "scan_and_clean ac re (sl_detector sl) (a @ [CHR 0x00] @ b) = Inr (a @ [CHR 0x00] @ b)"
    and "check_policy re (sl_policy sl) (a @ [CHR 0x00] @ b) = []"
    and "re ([CHR 0x5C] @ ''x00'') (a @ [CHR 0x00] @ b) \<noteq> []"
    and "list_all plain_char a" "list_all plain_char b" "a @ b \<noteq> []"
    and "length a + length b < sc_max_output_length (sl_config sl)" "sc_injection_check (sl_config sl)"
    and "sl_sanitizer sl = new_sanitizer" "\<not> unblocked ac re (sl_detector sl) (a @ b)"
  shows "so_content (sanitize_tool_output ac aci re sl tn (a @ [CHR 0x00] @ b)) = a @ b
    \<and> so_content (sanitize_tool_output ac aci re sl tn (a @ b))
       = ''[Output blocked due to potential secret leakage]''"
proof
  let ?c = "a @ [CHR 0x00] @ b"
  have m: "so_was_modified (sanitize aci re (sl_sanitizer sl) ?c)"
    using assms(3,9) by (auto simp: was_modified_iff regex_warnings_def new_sanitizer_def
        injection_regexes_def regex_pattern_of_def neq_Nil_conv)
  then have "so_content (sanitize aci re (sl_sanitizer sl) ?c) = a @ b"
    using escape_plain [OF assms(4-6)] by (simp add: sanitize_def Let_def split: if_splits)
  moreover have "\<not> length ?c > sc_max_output_length (sl_config sl)" using assms(7) by simp
  ultimately show "so_content (sanitize_tool_output ac aci re sl tn ?c) = a @ b"
    unfolding sanitize_tool_output_def using assms(1,2,8) by (simp add: Let_def)
  have "\<not> length (a @ b) > sc_max_output_length (sl_config sl)" using assms(7) by simp
  moreover obtain e where "scan_and_clean ac re (sl_detector sl) (a @ b) = Inl e"
    using assms(10) scan_and_clean_isl [of ac re "sl_detector sl" "a @ b"]
    by (cases "scan_and_clean ac re (sl_detector sl) (a @ b)") auto
  ultimately show "so_content (sanitize_tool_output ac aci re sl tn (a @ b))
       = ''[Output blocked due to potential secret leakage]''"
    unfolding sanitize_tool_output_def by simp
qed

definition aws_key_regex :: "string \<Rightarrow> string \<Rightarrow> (nat \<times> nat) list" where
  "aws_key_regex r c =
     (if r = ''AKIA[0-9A-Z]{16}'' \<and> starts_with c ''AKIA'' \<and> 20 \<le> length c
         \<and> list_all (\<lambda>d. is_upper d \<or> is_digit d) (take 16 (drop 4 c)) then [(0, 20)]
      else if r = [CHR 0x5C] @ ''x00'' \<and> CHR 0x00 \<in> set c then [(0, 1)] else [])"

definition example_layer :: safety_layer where
  "example_layer = (new_safety_layer \<lparr>sc_max_output_length = 100000, sc_injection_check = True\<rparr>)
     \<lparr>sl_detector := with_patterns [leak_pattern_of ''aws_access_key'' ''AKIA[0-9A-Z]{16}''
        leak_severity.Critical leak_action.Block]\<rparr>"

lemma example_layer_parts:
  "sl_detector example_layer = with_patterns [leak_pattern_of ''aws_access_key'' ''AKIA[0-9A-Z]{16}''
        leak_severity.Critical leak_action.Block]" "sl_policy example_layer = default_policy"
  "sl_sanitizer example_layer = new_sanitizer" "sl_config example_layer =
     \<lparr>sc_max_output_length = 100000, sc_injection_check = True\<rparr>"
  by (simp_all add: example_layer_def new_safety_layer_def)

theorem split_secret_reassembled_witness:
  "so_content (sanitize_tool_output (\<lambda>_ _. [(0, 0, 4)]) (\<lambda>_ _. []) aws_key_regex example_layer ''http''
     (''AKIA'' @ [CHR 0x00] @ ''IOSFODNN7EXAMPLE'')) = ''AKIA'' @ ''IOSFODNN7EXAMPLE''"
proof -
  have 1: "scan_and_clean (\<lambda>_ _. [(0, 0, 4)]) aws_key_regex (sl_detector example_layer)
      (''AKIA'' @ [CHR 0x00] @ ''IOSFODNN7EXAMPLE'') = Inr (''AKIA'' @ [CHR 0x00] @ ''IOSFODNN7EXAMPLE'')"
    unfolding example_layer_parts by code_simp
  have 2: "check_policy aws_key_regex (sl_policy example_layer) (''AKIA'' @ [CHR 0x00] @ ''IOSFODNN7EXAMPLE'') = []"
    unfolding example_layer_parts by code_simp
  have 3: "aws_key_regex ([CHR 0x5C] @ ''x00'') (''AKIA'' @ [CHR 0x00] @ ''IOSFODNN7EXAMPLE'') \<noteq> []"
    by code_simp
  have 4: "list_all plain_char ''AKIA''" "list_all plain_char ''IOSFODNN7EXAMPLE''" by code_simp+
  have 5: "\<not> unblocked (\<lambda>_ _. [(0, 0, 4)]) aws_key_regex (sl_detector example_layer) (''AKIA'' @ ''IOSFODNN7EXAMPLE'')"
    unfolding example_layer_parts by code_simp
  have "so_content (sanitize_tool_output (\<lambda>_ _. [(0, 0, 4)]) (\<lambda>_ _. []) aws_key_regex example_layer ''http''
     (''AKIA'' @ [CHR 0x00] @ ''IOSFODNN7EXAMPLE'')) = ''AKIA'' @ ''IOSFODNN7EXAMPLE''
    \<and> so_content (sanitize_tool_output (\<lambda>_ _. [(0, 0, 4)]) (\<lambda>_ _. []) aws_key_regex example_layer ''http''
     (''AKIA'' @ ''IOSFODNN7EXAMPLE'')) = ''[Output blocked due to potential secret leakage]''"
    by (rule split_secret_reassembled [OF 1 2 3 4 _ _ _ _ 5])
      (simp_all add: example_layer_parts)
  then show ?thesis by blast
qed

section \<open>The frame around the output\<close>

fun xml_char :: "char \<Rightarrow> string" where
  "xml_char c = (if c = CHR ''&'' then ''&amp;'' else if c = CHR ''<'' then ''&lt;''
     else if c = CHR ''>'' then ''&gt;'' else [c])"

fun xml_attr_char :: "char \<Rightarrow> string" where
  "xml_attr_char c = (if c = CHR 0x22 then ''&quot;'' else xml_char c)"

declare xml_char.simps [simp del] xml_attr_char.simps [simp del]

lemma escape_content_chars: "escape_xml_content s = concat (map xml_char s)"
  unfolding escape_xml_content_def
  by (induction s) (simp_all add: replace_char xml_char.simps)

lemma escape_attr_chars: "escape_xml_attr s = concat (map xml_attr_char s)"
  unfolding escape_xml_attr_def
  by (induction s) (simp_all add: replace_char xml_char.simps xml_attr_char.simps)

text \<open>A code in which no character's text begins another's is read back uniquely.\<close>

lemma prefix_code_inj:
  assumes "\<And>c d x y. f c @ x = f d @ y \<Longrightarrow> c = d" "\<And>c. f c \<noteq> []"
  shows "concat (map f s) = concat (map f t) \<Longrightarrow> s = t"
proof (induction s arbitrary: t)
  case Nil
  then show ?case using assms(2) by (cases t) auto
next
  case (Cons c s)
  then obtain d t' where t: "t = d # t'" using assms(2) by (cases t) auto
  with Cons.prems have e: "f c @ concat (map f s) = f d @ concat (map f t')" by simp
  then have "c = d" by (rule assms(1))
  with e t Cons.IH show ?case by simp
qed

lemma xml_char_code: "xml_char c @ x = xml_char d @ y \<Longrightarrow> c = d"
  by (auto simp: xml_char.simps split: if_splits)

lemma xml_attr_code: "xml_attr_char c @ x = xml_attr_char d @ y \<Longrightarrow> c = d"
  by (auto simp: xml_char.simps xml_attr_char.simps split: if_splits)

lemma escape_content_inj: "escape_xml_content s = escape_xml_content t \<Longrightarrow> s = t"
  unfolding escape_content_chars by (rule prefix_code_inj [OF xml_char_code]) (auto simp: xml_char.simps)

lemma escape_attr_inj: "escape_xml_attr s = escape_xml_attr t \<Longrightarrow> s = t"
  unfolding escape_attr_chars
  by (rule prefix_code_inj [OF xml_attr_code]) (auto simp: xml_char.simps xml_attr_char.simps)

lemma content_no_angle: "CHR ''<'' \<notin> set (escape_xml_content s)" "CHR ''>'' \<notin> set (escape_xml_content s)"
  by (auto simp: escape_content_chars xml_char.simps split: if_splits)

lemma attr_no_special: "CHR ''<'' \<notin> set (escape_xml_attr s)" "CHR ''>'' \<notin> set (escape_xml_attr s)"
  "CHR 0x22 \<notin> set (escape_xml_attr s)"
  by (auto simp: escape_attr_chars xml_char.simps xml_attr_char.simps split: if_splits)

lemma quoted_eq: "CHR 0x22 \<notin> set a \<Longrightarrow> CHR 0x22 \<notin> set b \<Longrightarrow>
    a @ CHR 0x22 # x = b @ CHR 0x22 # y \<Longrightarrow> a = b \<and> x = y"
  by (metis split_once_split option.inject prod.inject)

text \<open>The frame cannot be forged: the framed text determines the tool, the content and the mark,
  and whatever the content says, the only angle brackets in it are the two pairs of the frame.\<close>
theorem frame_unforgeable:
  "(wrap_for_llm t c b = wrap_for_llm t' c' b' \<longleftrightarrow> t = t' \<and> c = c' \<and> b = b')
   \<and> count_list (wrap_for_llm t c b) (CHR ''<'') = 2 \<and> count_list (wrap_for_llm t c b) (CHR ''>'') = 2"
proof -
  have inj: "t = t' \<and> c = c' \<and> b = b'" if e: "wrap_for_llm t c b = wrap_for_llm t' c' b'"
  proof -
    let ?r = "\<lambda>b c. '' sanitized='' @ [CHR 0x22] @ show_bool b @ [CHR 0x22] @ ''>'' @ [CHR 0x0A]
       @ escape_xml_content c @ [CHR 0x0A] @ ''</tool_output>''"
    from e have "escape_xml_attr t @ CHR 0x22 # ?r b c = escape_xml_attr t' @ CHR 0x22 # ?r b' c'"
      by (simp add: wrap_for_llm_def)
    from quoted_eq [OF attr_no_special(3) attr_no_special(3) this]
    have 1: "escape_xml_attr t = escape_xml_attr t'" "?r b c = ?r b' c'" by blast+
    from 1(2) have "show_bool b @ CHR 0x22 # ''>'' @ [CHR 0x0A] @ escape_xml_content c @ [CHR 0x0A] @ ''</tool_output>''
      = show_bool b' @ CHR 0x22 # ''>'' @ [CHR 0x0A] @ escape_xml_content c' @ [CHR 0x0A] @ ''</tool_output>''"
      by simp
    from quoted_eq [OF _ _ this] have "show_bool b = show_bool b'"
      "escape_xml_content c = escape_xml_content c'" by (auto simp: show_bool_def)
    with 1(1) show ?thesis
      by (auto simp: show_bool_def dest: escape_attr_inj escape_content_inj split: if_splits)
  qed
  have none: "count_list (escape_xml_content c) (CHR ''<'') = 0" "count_list (escape_xml_content c) (CHR ''>'') = 0"
    "count_list (escape_xml_attr t) (CHR ''<'') = 0" "count_list (escape_xml_attr t) (CHR ''>'') = 0"
    using content_no_angle attr_no_special by (simp_all add: count_list_0_iff)
  have "count_list (show_bool b) (CHR ''<'') = 0" "count_list (show_bool b) (CHR ''>'') = 0"
    by (simp_all add: show_bool_def)
  with none have "count_list (wrap_for_llm t c b) (CHR ''<'') = 2"
    "count_list (wrap_for_llm t c b) (CHR ''>'') = 2"
    by (simp_all add: wrap_for_llm_def)
  moreover have "wrap_for_llm t c b = wrap_for_llm t' c' b' \<longleftrightarrow> t = t' \<and> c = c' \<and> b = b'"
    using inj by blast
  ultimately show ?thesis by blast
qed

end
