(* ===== verification/Cost_Guard.thy ===== *)
theory Cost_Guard
  imports Rust_Strings
begin

text \<open>
  Spending limits, \<open>src/agent/cost_guard.rs\<close>, over the price table of \<open>src/llm/costs.rs\<close>. A
  \<open>Decimal\<close> amount is a natural number of 10^-8 USD, the finest unit of the table, so all sums
  and products are exact. A day is an integer, an instant counts seconds; both clock readings of
  an operation are its arguments.
\<close>

section \<open>Prices\<close>

text \<open>\<open>rsplit_once('/')\<close>, keeping what follows the last slash.\<close>

definition after_last_slash :: "string \<Rightarrow> string" where
  "after_last_slash s = rev (takeWhile (\<lambda>c. c \<noteq> CHR ''/'') (rev s))"

definition is_local_model :: "string \<Rightarrow> bool" where
  "is_local_model m =
     (let low = to_lower m in
      list_ex (starts_with low) [''llama'', ''mistral'', ''mixtral'', ''phi'', ''gemma'', ''qwen'', ''codellama'',
        ''deepseek'', ''starcoder'', ''vicuna'', ''yi'']
      \<or> contains_str low '':latest'' \<or> contains_str low '':instruct'')"

definition price_table :: "(string list \<times> nat \<times> nat) list" where
  "price_table = [
     ([''gpt-4o'', ''gpt-4o-2024-11-20'', ''gpt-4o-2024-08-06''], 250, 1000),
     ([''gpt-4o-mini'', ''gpt-4o-mini-2024-07-18''], 15, 60),
     ([''gpt-4-turbo'', ''gpt-4-turbo-2024-04-09''], 1000, 3000),
     ([''gpt-4'', ''gpt-4-0613''], 3000, 6000),
     ([''gpt-3.5-turbo'', ''gpt-3.5-turbo-0125''], 50, 150),
     ([''o1'', ''o1-2024-12-17''], 1500, 6000),
     ([''o1-mini'', ''o1-mini-2024-09-12''], 300, 1200),
     ([''o3-mini'', ''o3-mini-2025-01-31''], 110, 440),
     ([''claude-3-5-sonnet-20241022'', ''claude-3-5-sonnet-latest'', ''claude-sonnet-4-20250514''], 300, 1500),
     ([''claude-3-5-haiku-20241022'', ''claude-3-5-haiku-latest''], 80, 400),
     ([''claude-3-opus-20240229'', ''claude-3-opus-latest'', ''claude-opus-4-20250514''], 1500, 7500),
     ([''claude-3-haiku-20240307''], 25, 125)]"

definition model_cost :: "string \<Rightarrow> (nat \<times> nat) option" where
  "model_cost model_id =
     (let m = after_last_slash model_id in
      case find (\<lambda>row. m \<in> set (fst row)) price_table of
        Some (_, i, u) \<Rightarrow> Some (i, u)
      | None \<Rightarrow> (if is_local_model m then Some (0, 0) else None))"

definition default_cost :: "nat \<times> nat" where
  "default_cost = (250, 1000)"

text \<open>Whole cents; \<open>parse::<u64>\<close> fails beyond 64 bits and the fallback is zero.\<close>

definition to_cents :: "nat \<Rightarrow> nat" where
  "to_cents usd = (let c = usd div 10 ^ 6 in if c < 2 ^ 64 then c else 0)"

section \<open>The guard\<close>

record cost_guard_config =
  max_cost_per_day_cents :: "nat option"
  max_actions_per_hour :: "nat option"

datatype cost_limit = DailyBudget nat nat | HourlyRate nat nat

record cost_guard =
  cg_config :: cost_guard_config
  cg_total :: nat
  cg_reset_date :: int
  cg_window :: "instant list"
  cg_exceeded :: bool

definition new_cost_guard :: "cost_guard_config \<Rightarrow> int \<Rightarrow> cost_guard" where
  "new_cost_guard cfg today =
     \<lparr>cg_config = cfg, cg_total = 0, cg_reset_date = today, cg_window = [], cg_exceeded = False\<rparr>"

text \<open>The drain of the entries before the cutoff at the front of the window.\<close>

definition drain_window :: "instant \<Rightarrow> cost_guard \<Rightarrow> cost_guard" where
  "drain_window now g = g\<lparr>cg_window := dropWhile (\<lambda>t. t < now - 3600) (cg_window g)\<rparr>"

definition check_hourly :: "instant \<Rightarrow> cost_guard \<Rightarrow> cost_guard \<times> (cost_limit, unit) result" where
  "check_hourly now g =
     (case max_actions_per_hour (cg_config g) of
        None \<Rightarrow> (g, Inr ())
      | Some limit \<Rightarrow>
          (let g' = drain_window now g; n = length (cg_window g')
           in if n \<ge> limit then (g', Inl (HourlyRate n limit)) else (g', Inr ())))"

definition cost_check_allowed :: "instant \<Rightarrow> cost_guard \<Rightarrow> cost_guard \<times> (cost_limit, unit) result" where
  "cost_check_allowed now g =
     (if cg_exceeded g then
        (g, Inl (DailyBudget (to_cents (cg_total g))
               (case max_cost_per_day_cents (cg_config g) of Some l \<Rightarrow> l | None \<Rightarrow> 0)))
      else case max_cost_per_day_cents (cg_config g) of
        Some limit \<Rightarrow>
          (if to_cents (cg_total g) \<ge> limit
           then (g\<lparr>cg_exceeded := True\<rparr>, Inl (DailyBudget (to_cents (cg_total g)) limit))
           else check_hourly now g)
      | None \<Rightarrow> check_hourly now g)"

definition call_cost :: "string \<Rightarrow> 32 word \<Rightarrow> 32 word \<Rightarrow> nat" where
  "call_cost model input_tokens output_tokens =
     (let (i, u) = (case model_cost model of Some r \<Rightarrow> r | None \<Rightarrow> default_cost)
      in i * unat input_tokens + u * unat output_tokens)"

definition record_llm_call ::
  "int \<Rightarrow> instant \<Rightarrow> string \<Rightarrow> 32 word \<Rightarrow> 32 word \<Rightarrow> cost_guard \<Rightarrow> cost_guard \<times> nat" where
  "record_llm_call today now model input_tokens output_tokens g =
     (let cost = call_cost model input_tokens output_tokens;
          g1 = (if today \<noteq> cg_reset_date g
                then g\<lparr>cg_total := 0, cg_reset_date := today, cg_exceeded := False\<rparr> else g);
          g2 = g1\<lparr>cg_total := cg_total g1 + cost\<rparr>;
          g3 = (case max_cost_per_day_cents (cg_config g) of
                  Some limit \<Rightarrow> (if to_cents (cg_total g2) \<ge> limit then g2\<lparr>cg_exceeded := True\<rparr> else g2)
                | None \<Rightarrow> g2)
      in (g3\<lparr>cg_window := cg_window g3 @ [now]\<rparr>, cost))"

definition daily_spend :: "int \<Rightarrow> cost_guard \<Rightarrow> nat" where
  "daily_spend today g = (if today \<noteq> cg_reset_date g then 0 else cg_total g)"

definition actions_this_hour :: "instant \<Rightarrow> cost_guard \<Rightarrow> cost_guard \<times> nat" where
  "actions_this_hour now g = (let g' = drain_window now g in (g', length (cg_window g')))"

lemmas guard_ops = cost_check_allowed_def check_hourly_def record_llm_call_def drain_window_def
  new_cost_guard_def

text \<open>
  How the dispatcher uses the guard (\<open>src/agent/dispatcher.rs\<close>): ask before each model call, and
  record the call afterwards. A call carries its clock readings: when it asks, the day and the
  time when it is recorded.
\<close>

record guarded_call =
  gc_asked :: instant
  gc_day :: int
  gc_done :: instant
  gc_model :: string
  gc_input :: "32 word"
  gc_output :: "32 word"

definition guarded_call :: "guarded_call \<Rightarrow> cost_guard \<Rightarrow> cost_guard \<times> bool" where
  "guarded_call c g =
     (case cost_check_allowed (gc_asked c) g of
        (g', Inl e) \<Rightarrow> (g', False)
      | (g', Inr _) \<Rightarrow>
          (fst (record_llm_call (gc_day c) (gc_done c) (gc_model c) (gc_input c) (gc_output c) g'), True))"

text \<open>A run of calls one after the other: the final guard and the calls that were made.\<close>

fun guarded_run :: "guarded_call list \<Rightarrow> cost_guard \<Rightarrow> cost_guard \<times> guarded_call list" where
  "guarded_run [] g = (g, [])"
| "guarded_run (c # cs) g =
     (let (g', made) = guarded_call c g; (g'', ms) = guarded_run cs g'
      in (g'', if made then c # ms else ms))"

section \<open>The daily budget\<close>

lemma check_config: "cost_check_allowed now g = (g', r) \<Longrightarrow>
    cg_config g' = cg_config g \<and> cg_total g' = cg_total g \<and> cg_reset_date g' = cg_reset_date g"
  by (auto simp: guard_ops Let_def split: option.splits if_splits)

lemma record_config: "cg_config (fst (record_llm_call d t m i u g)) = cg_config g"
  by (simp add: record_llm_call_def Let_def split: option.splits)

lemma guarded_call_config: "cg_config (fst (guarded_call c g)) = cg_config g"
  by (auto simp: guarded_call_def record_config dest: check_config split: prod.splits sum.splits)

text \<open>Over the budget: the flag is set, or the next check sets it.\<close>

definition over_budget :: "cost_guard \<Rightarrow> bool" where
  "over_budget g \<longleftrightarrow> cg_exceeded g
     \<or> (\<exists>l. max_cost_per_day_cents (cg_config g) = Some l \<and> l \<le> to_cents (cg_total g))"

lemma over_budget_denied:
  assumes "over_budget g"
  shows "\<exists>g'. guarded_call c g = (g', False) \<and> over_budget g' \<and> cg_reset_date g' = cg_reset_date g"
  using assms by (auto simp: guarded_call_def cost_check_allowed_def over_budget_def)

lemma over_budget_run:
  "over_budget g \<Longrightarrow> \<exists>g'. guarded_run cs g = (g', []) \<and> cg_reset_date g' = cg_reset_date g"
proof (induction cs arbitrary: g)
  case (Cons c cs)
  from over_budget_denied [OF Cons.prems] obtain g1 where
    g1: "guarded_call c g = (g1, False)" "over_budget g1" "cg_reset_date g1 = cg_reset_date g" by blast
  from Cons.IH [OF g1(2)] g1 show ?case by auto
qed simp

text \<open>A guarded agent that reaches its daily budget never makes a call again: the check does not look
  at the date, and only a recorded call resets the counter, so every later call on every later
  day is refused, while \<open>daily_spend\<close> reports that nothing was spent that day.\<close>
theorem budget_never_resets:
  assumes "over_budget g"
  shows "snd (guarded_run cs g) = []
    \<and> (\<forall>today. today \<noteq> cg_reset_date g \<longrightarrow> daily_spend today (fst (guarded_run cs g)) = 0)"
  using over_budget_run [OF assms, of cs] by (auto simp: daily_spend_def)

theorem budget_never_resets_witness:
  "\<exists>g. cg_total g = 2000000 \<and> cg_reset_date g = 1 \<and> daily_spend 1 g = 2000000
     \<and> snd (guarded_run [\<lparr>gc_asked = 100000, gc_day = 2, gc_done = 100001, gc_model = ''gpt-4o'',
        gc_input = 1, gc_output = 1\<rparr>] g) = []"
proof -
  let ?g = "(new_cost_guard \<lparr>max_cost_per_day_cents = Some 2, max_actions_per_hour = None\<rparr> 1)\<lparr>cg_total := 2000000\<rparr>"
  have "over_budget ?g" by (simp add: over_budget_def new_cost_guard_def to_cents_def)
  from budget_never_resets [OF this, of "[\<lparr>gc_asked = 100000, gc_day = 2, gc_done = 100001,
      gc_model = ''gpt-4o'', gc_input = 1, gc_output = 1\<rparr>]"]
  show ?thesis
    by (intro exI [of _ ?g]) (simp add: daily_spend_def new_cost_guard_def del: guarded_run.simps)
qed

text \<open>An allowed call starts below the limit of the day the counter stands for.\<close>

lemma allowed_below_limit:
  assumes "cost_check_allowed now g = (g', Inr ())" "max_cost_per_day_cents (cg_config g) = Some l"
  shows "to_cents (cg_total g) < l \<and> \<not> cg_exceeded g"
  using assms by (auto simp: cost_check_allowed_def split: if_splits)

text \<open>The budget is overshot by one call at most: whenever a guarded call is made, the day's total
  before it was below the limit, so after it the total is below the limit plus the cost of that
  call (as long as the total fits 64 bits of cents).\<close>
theorem overshoot_one_call:
  assumes "guarded_call c g = (g', True)" and "max_cost_per_day_cents (cg_config g) = Some limit"
    and "cg_total g < 10 ^ 6 * 2 ^ 64"
  shows "cg_total g' < 10 ^ 6 * limit + call_cost (gc_model c) (gc_input c) (gc_output c)"
proof -
  obtain g1 where k: "cost_check_allowed (gc_asked c) g = (g1, Inr ())"
    and g': "g' = fst (record_llm_call (gc_day c) (gc_done c) (gc_model c) (gc_input c) (gc_output c) g1)"
    using assms(1) by (auto simp: guarded_call_def split: prod.splits sum.splits)
  have "to_cents (cg_total g) < limit" using allowed_below_limit [OF k assms(2)] by blast
  moreover have "cg_total g div 10 ^ 6 < 2 ^ 64"
    using assms(3) by (intro less_mult_imp_div_less) (simp add: mult.commute)
  ultimately have "cg_total g div 10 ^ 6 < limit" by (simp add: to_cents_def)
  then have "cg_total g < 10 ^ 6 * limit" by (simp add: div_less_iff_less_mult mult.commute)
  then show ?thesis
    using check_config [OF k] by (auto simp: g' record_llm_call_def Let_def split: option.splits)
qed

theorem overshoot_one_call_witness:
  "\<exists>g'. guarded_call \<lparr>gc_asked = 5, gc_day = 1, gc_done = 6, gc_model = ''gpt-4'', gc_input = 0, gc_output = 3\<rparr>
       (new_cost_guard \<lparr>max_cost_per_day_cents = Some 2, max_actions_per_hour = None\<rparr> 1) = (g', True)
     \<and> cg_total g' < 10 ^ 6 * 2 + call_cost ''gpt-4'' 0 3"
proof -
  let ?g = "new_cost_guard \<lparr>max_cost_per_day_cents = Some 2, max_actions_per_hour = None\<rparr> 1"
  let ?c = "\<lparr>gc_asked = 5, gc_day = 1, gc_done = 6, gc_model = ''gpt-4'', gc_input = 0, gc_output = 3\<rparr>"
  have "cost_check_allowed 5 ?g = (?g, Inr ())"
    by (simp add: cost_check_allowed_def check_hourly_def new_cost_guard_def to_cents_def)
  then have *: "guarded_call ?c ?g = (fst (record_llm_call 1 6 ''gpt-4'' 0 3 ?g), True)"
    by (simp add: guarded_call_def)
  from overshoot_one_call [OF *, of 2] * show ?thesis by (simp add: new_cost_guard_def)
qed

section \<open>The hourly rate\<close>

definition in_hour :: "instant \<Rightarrow> instant list \<Rightarrow> nat" where
  "in_hour t ts = length (filter (\<lambda>x. t - 3600 \<le> x \<and> x \<le> t) ts)"

text \<open>Calls one after the other, from the time \<open>now\<close> on.\<close>

fun chronological :: "instant \<Rightarrow> guarded_call list \<Rightarrow> bool" where
  "chronological now [] \<longleftrightarrow> True"
| "chronological now (c # cs) \<longleftrightarrow> now \<le> gc_asked c \<and> gc_asked c \<le> gc_done c \<and> chronological (gc_done c) cs"

text \<open>
  The window against the times of all calls made so far: what was dropped is more than an hour
  old, and no hour holds more calls than the limit.
\<close>

definition window_inv :: "nat \<Rightarrow> instant \<Rightarrow> instant list \<Rightarrow> cost_guard \<Rightarrow> bool" where
  "window_inv limit now stamps g \<longleftrightarrow> max_actions_per_hour (cg_config g) = Some limit
     \<and> (\<exists>old. stamps = old @ cg_window g \<and> (\<forall>t \<in> set old. t < now - 3600))
     \<and> (\<forall>t \<in> set stamps. t \<le> now) \<and> (\<forall>t. in_hour t stamps \<le> limit)"

lemma drain_split: "\<exists>old. xs = old @ dropWhile P xs \<and> (\<forall>x \<in> set old. P x)"
  by (metis set_takeWhileD takeWhile_dropWhile_id)

lemma window_inv_later: "window_inv limit now stamps g \<Longrightarrow> now \<le> now' \<Longrightarrow> window_inv limit now' stamps g"
  by (fastforce simp: window_inv_def)

lemma window_inv_drain:
  assumes "window_inv limit now stamps g" shows "window_inv limit now stamps (drain_window now g)"
proof -
  obtain old where old: "stamps = old @ cg_window g" "\<forall>t \<in> set old. t < now - 3600"
    using assms by (auto simp: window_inv_def)
  obtain old' where "cg_window g = old' @ dropWhile (\<lambda>t. t < now - 3600) (cg_window g)"
    "\<forall>t \<in> set old'. t < now - 3600" using drain_split by metis
  with old have "stamps = (old @ old') @ cg_window (drain_window now g)
      \<and> (\<forall>t \<in> set (old @ old'). t < now - 3600)" by (auto simp: drain_window_def)
  with assms show ?thesis unfolding window_inv_def by (auto simp: drain_window_def)
qed

lemma check_hourly_inv:
  assumes "check_hourly now g = (g', r)" "window_inv limit now stamps g"
  shows "window_inv limit now stamps g' \<and> (r = Inr () \<longrightarrow> length (cg_window g') < limit)"
  using assms window_inv_drain [OF assms(2)]
  by (auto simp: check_hourly_def window_inv_def Let_def split: option.splits if_splits)

lemma check_window_inv:
  assumes "cost_check_allowed now g = (g', r)" "window_inv limit now stamps g"
  shows "window_inv limit now stamps g' \<and> (r = Inr () \<longrightarrow> length (cg_window g') < limit)"
proof -
  have "window_inv limit now stamps (g\<lparr>cg_exceeded := True\<rparr>)"
    using assms(2) by (simp add: window_inv_def)
  with assms check_hourly_inv [of now g g' r limit stamps] show ?thesis
    by (auto simp: cost_check_allowed_def split: option.splits if_splits)
qed

lemma record_window:
  "cg_window (fst (record_llm_call d t m i u g)) = cg_window g @ [t]"
  by (simp add: record_llm_call_def Let_def split: option.splits)

lemma window_inv_record:
  assumes "window_inv limit now stamps g" "length (cg_window g) < limit" "now \<le> d"
  shows "window_inv limit d (stamps @ [d]) (fst (record_llm_call day d m i u g))"
proof -
  obtain old where old: "stamps = old @ cg_window g" "\<forall>t \<in> set old. t < now - 3600"
    using assms by (auto simp: window_inv_def)
  have hour: "in_hour t (stamps @ [d]) \<le> limit" for t
  proof (cases "t - 3600 \<le> d \<and> d \<le> t")
    case True
    have "filter (\<lambda>x. t - 3600 \<le> x \<and> x \<le> t) old = []"
      using old(2) assms(3) True by (force simp: filter_empty_conv)
    then have "in_hour t stamps \<le> length (cg_window g)" by (simp add: in_hour_def old(1))
    then show ?thesis using assms(2) True by (simp add: in_hour_def)
  next
    case False
    then show ?thesis using assms(1) by (auto simp: in_hour_def window_inv_def)
  qed
  have "\<forall>t \<in> set (stamps @ [d]). t \<le> d" using assms by (fastforce simp: window_inv_def)
  moreover have "\<forall>t \<in> set old. t < d - 3600" using old(2) assms(3) by fastforce
  ultimately show ?thesis
    using hour assms(1) old(1) by (auto simp: window_inv_def record_window record_config)
qed

lemma guarded_run_hourly:
  assumes "window_inv limit now stamps g" "chronological now cs" "guarded_run cs g = (g', made)"
  shows "in_hour t (stamps @ map gc_done made) \<le> limit"
  using assms
proof (induction cs arbitrary: now stamps g made)
  case Nil
  then show ?case by (simp add: window_inv_def)
next
  case (Cons c cs)
  have inv: "window_inv limit (gc_asked c) stamps g"
    using Cons.prems window_inv_later [of limit now stamps g] by simp
  obtain g1 r where k: "cost_check_allowed (gc_asked c) g = (g1, r)" by fastforce
  note inv1 = check_window_inv [OF k inv]
  show ?case
  proof (cases r)
    case (Inl e)
    then obtain ms where "guarded_run cs g1 = (g', ms)" "made = ms"
      using Cons.prems(3) k by (auto simp: guarded_call_def split: prod.splits)
    moreover have "window_inv limit (gc_done c) stamps g1"
      using inv1 Cons.prems(2) window_inv_later [of limit "gc_asked c" stamps g1] by simp
    ultimately show ?thesis using Cons.IH Cons.prems(2) by simp
  next
    case (Inr u)
    let ?g2 = "fst (record_llm_call (gc_day c) (gc_done c) (gc_model c) (gc_input c) (gc_output c) g1)"
    obtain ms where ms: "guarded_run cs ?g2 = (g', ms)" "made = c # ms"
      using Cons.prems(3) k Inr by (auto simp: guarded_call_def split: prod.splits)
    have "window_inv limit (gc_done c) (stamps @ [gc_done c]) ?g2"
      by (rule window_inv_record) (use inv1 Inr Cons.prems(2) in auto)
    from Cons.IH [OF this _ ms(1)] Cons.prems(2) ms(2) show ?thesis by simp
  qed
qed



end
