(* ===== verification/Skill_Registry.thy ===== *)
theory Skill_Registry
  imports Skills
begin

text \<open>
  Loading, installing and removing skills: the parser of \<open>src/skills/parser.rs\<close>, the gating of
  \<open>src/skills/gating.rs\<close> and the registry of \<open>src/skills/registry.rs\<close>. The file system is a record
  of its operations on a disk \<open>'d\<close>, the YAML decoder, the hash, the regex compiler and what the host
  offers (binaries, variables, files) are the fields of \<open>skill_host\<close>. Texts are ASCII, so there is
  no byte order mark and a length counts bytes.
\<close>

section \<open>The parser\<close>

datatype skill_parse_error = MissingFrontmatter | InvalidYaml string | EmptyPrompt | InvalidName string

definition parse_error_text :: "skill_parse_error \<Rightarrow> string" where
  "parse_error_text e = (case e of
     MissingFrontmatter \<Rightarrow> ''Missing YAML frontmatter delimiters (expected `---` at start of file)''
   | InvalidYaml m \<Rightarrow> ''Invalid YAML frontmatter: '' @ m
   | EmptyPrompt \<Rightarrow> ''Prompt body is empty (no content after frontmatter)''
   | InvalidName n \<Rightarrow> ''Invalid skill name '' @ [CHR 0x27] @ n @ [CHR 0x27]
       @ '': must match [a-zA-Z0-9][a-zA-Z0-9._-]{0,63}'')"

fun closing_line :: "nat \<Rightarrow> string list \<Rightarrow> nat option" where
  "closing_line pos [] = None"
| "closing_line pos (l # ls) = (if trim l = ''---'' then Some pos else closing_line (pos + length l + 1) ls)"

definition find_closing_delimiter :: "string \<Rightarrow> nat option" where
  "find_closing_delimiter s = closing_line 0 (str_lines s)"

definition parse_skill_md ::
  "(string \<Rightarrow> (string, skill_manifest) result) \<Rightarrow> string \<Rightarrow> (skill_parse_error, skill_manifest \<times> string) result" where
  "parse_skill_md yaml txt =
     (let trimmed = dropWhile (\<lambda>c. c = CHR 0x0A \<or> c = CHR 0x0D) txt in
      if \<not> starts_with trimmed ''---'' then Inl MissingFrontmatter
      else case split_once (CHR 0x0A) (drop 3 trimmed) of
        None \<Rightarrow> Inl MissingFrontmatter
      | Some (_, body) \<Rightarrow>
         (case find_closing_delimiter body of
            None \<Rightarrow> Inl MissingFrontmatter
          | Some yaml_end \<Rightarrow>
             (case yaml (take yaml_end body) of
                Inl e \<Rightarrow> Inl (InvalidYaml e)
              | Inr m \<Rightarrow>
                 if \<not> validate_skill_name (sm_name m) then Inl (InvalidName (sm_name m))
                 else
                  (let m' = m\<lparr>sm_activation := enforce_limits (sm_activation m)\<rparr>;
                       after = (case split_once (CHR 0x0A) (drop yaml_end body) of Some (_, r) \<Rightarrow> r | None \<Rightarrow> []);
                       prompt = dropWhile (\<lambda>c. c = CHR 0x0A) after
                   in if trim prompt = [] then Inl EmptyPrompt else Inr (m', prompt)))))"

section \<open>Gating\<close>

record skill_host =
  sh_yaml :: "string \<Rightarrow> (string, skill_manifest) result"
  sh_hash :: "string \<Rightarrow> string"
  sh_compiles :: "string \<Rightarrow> bool"
  sh_binary_exists :: "string \<Rightarrow> bool"
  sh_env_set :: "string \<Rightarrow> bool"
  sh_path_exists :: "string \<Rightarrow> bool"

record gating_result =
  gt_passed :: bool
  gt_failures :: "string list"

definition check_requirements :: "skill_host \<Rightarrow> gating_requirements \<Rightarrow> gating_result" where
  "check_requirements h g =
     (let fs = map (\<lambda>b. ''required binary not found: '' @ b) (filter (\<lambda>b. \<not> sh_binary_exists h b) (gr_bins g))
             @ map (\<lambda>v. ''required env var not set: '' @ v) (filter (\<lambda>v. \<not> sh_env_set h v) (gr_env g))
             @ map (\<lambda>p. ''required config not found: '' @ p) (filter (\<lambda>p. \<not> sh_path_exists h p) (gr_config g))
      in \<lparr>gt_passed = (fs = []), gt_failures = fs\<rparr>)"

section \<open>Files and errors\<close>

datatype file_kind = Symlink | Directory | Regular

record 'd file_system =
  fs_entries :: "'d \<Rightarrow> string \<Rightarrow> string list option"
  fs_meta :: "'d \<Rightarrow> string \<Rightarrow> (string, file_kind) result"
  fs_exists :: "'d \<Rightarrow> string \<Rightarrow> bool"
  fs_read :: "'d \<Rightarrow> string \<Rightarrow> (string, string) result"
  fs_create_dir_all :: "'d \<Rightarrow> string \<Rightarrow> 'd \<times> string option"
  fs_write_file :: "'d \<Rightarrow> string \<Rightarrow> string \<Rightarrow> 'd \<times> string option"
  fs_remove_file :: "'d \<Rightarrow> string \<Rightarrow> 'd \<times> string option"
  fs_remove_dir :: "'d \<Rightarrow> string \<Rightarrow> 'd"

datatype skill_registry_error =
    Skill_not_found string
  | Read_error string string
  | Parse_error string string
  | File_too_large string nat nat
  | Symlink_detected string
  | Gating_failed string string
  | Token_budget_exceeded string nat nat
  | Already_exists string
  | Cannot_remove string string
  | Write_error string string

definition MAX_PROMPT_FILE_SIZE :: nat where "MAX_PROMPT_FILE_SIZE = 65536"
definition MAX_DISCOVERED_SKILLS :: nat where "MAX_DISCOVERED_SKILLS = 100"

definition path_join :: "string \<Rightarrow> string \<Rightarrow> string" where
  "path_join d n = d @ ''/'' @ n"

section \<open>Loading a file\<close>

definition load_and_validate_skill ::
  "skill_host \<Rightarrow> 'd file_system \<Rightarrow> 'd \<Rightarrow> string \<Rightarrow> skill_trust \<Rightarrow> skill_source
     \<Rightarrow> (skill_registry_error, string \<times> loaded_skill) result" where
  "load_and_validate_skill h fs d path trust source =
     (case fs_meta fs d path of
        Inl e \<Rightarrow> Inl (Read_error path e)
      | Inr k \<Rightarrow>
        if k = Symlink then Inl (Symlink_detected path)
        else case fs_read fs d path of
          Inl e \<Rightarrow> Inl (Read_error path e)
        | Inr raw \<Rightarrow>
          if length raw > MAX_PROMPT_FILE_SIZE then Inl (File_too_large path (length raw) MAX_PROMPT_FILE_SIZE)
          else case parse_skill_md (sh_yaml h) (normalize_line_endings raw) of
            Inl e \<Rightarrow> Inl (Parse_error (case e of InvalidName n \<Rightarrow> n | _ \<Rightarrow> path) (parse_error_text e))
          | Inr (m, prompt) \<Rightarrow>
             (case (case sm_requires m of Some g \<Rightarrow> check_requirements h g
                      | None \<Rightarrow> \<lparr>gt_passed = True, gt_failures = []\<rparr>) of g \<Rightarrow>
              if \<not> gt_passed g then Inl (Gating_failed (sm_name m) (join ''; '' (gt_failures g)))
              else
               (let declared = ac_max_context_tokens (sm_activation m) in
                if 0 < declared \<and> approx_tokens prompt > unat (declared * 2)
                then Inl (Token_budget_exceeded (sm_name m) (approx_tokens prompt) (unat declared))
                else Inr (sm_name m,
                  \<lparr>sk_manifest = m, sk_prompt_content = prompt, sk_trust = trust, sk_source = source,
                   sk_content_hash = sh_hash h prompt,
                   sk_patterns = compile_patterns (sh_compiles h) (ac_patterns (sm_activation m)),
                   sk_lowercased_keywords = map to_lower (ac_keywords (sm_activation m)),
                   sk_lowercased_tags = map to_lower (ac_tags (sm_activation m))\<rparr>))))"

section \<open>The registry\<close>

record skill_registry =
  rg_skills :: "loaded_skill list"
  rg_user_dir :: string
  rg_workspace_dir :: "string option"

definition new_skill_registry :: "string \<Rightarrow> skill_registry" where
  "new_skill_registry dir = \<lparr>rg_skills = [], rg_user_dir = dir, rg_workspace_dir = None\<rparr>"

definition with_workspace_dir :: "string \<Rightarrow> skill_registry \<Rightarrow> skill_registry" where
  "with_workspace_dir dir r = r\<lparr>rg_workspace_dir := Some dir\<rparr>"

definition skill_has :: "string \<Rightarrow> skill_registry \<Rightarrow> bool" where
  "skill_has n r = list_ex (\<lambda>s. sk_name s = n) (rg_skills r)"

definition find_by_name :: "string \<Rightarrow> skill_registry \<Rightarrow> loaded_skill option" where
  "find_by_name n r = find (\<lambda>s. sk_name s = n) (rg_skills r)"

text \<open>One directory entry: what it loads, when it counts as a skill.\<close>

definition discover_entry ::
  "skill_host \<Rightarrow> 'd file_system \<Rightarrow> 'd \<Rightarrow> string \<Rightarrow> skill_trust \<Rightarrow> (string \<Rightarrow> skill_source) \<Rightarrow> string
     \<Rightarrow> (skill_registry_error, string \<times> loaded_skill) result option" where
  "discover_entry h fs d dir trust mk name =
     (let path = path_join dir name in
      case fs_meta fs d path of
        Inl e \<Rightarrow> None
      | Inr Symlink \<Rightarrow> None
      | Inr Directory \<Rightarrow>
         (let md = path_join path ''SKILL.md'' in
          if fs_exists fs d md then Some (load_and_validate_skill h fs d md trust (mk path)) else None)
      | Inr Regular \<Rightarrow>
         (if name = ''SKILL.md'' then Some (load_and_validate_skill h fs d path trust (mk dir)) else None))"

fun discover_entries ::
  "skill_host \<Rightarrow> 'd file_system \<Rightarrow> 'd \<Rightarrow> string \<Rightarrow> skill_trust \<Rightarrow> (string \<Rightarrow> skill_source) \<Rightarrow> string list
     \<Rightarrow> nat \<Rightarrow> (string \<times> loaded_skill) list" where
  "discover_entries h fs d dir trust mk [] count = []"
| "discover_entries h fs d dir trust mk (n # ns) count =
     (if count \<ge> MAX_DISCOVERED_SKILLS then []
      else case discover_entry h fs d dir trust mk n of
        None \<Rightarrow> discover_entries h fs d dir trust mk ns count
      | Some (Inl e) \<Rightarrow> discover_entries h fs d dir trust mk ns (count + 1)
      | Some (Inr s) \<Rightarrow> s # discover_entries h fs d dir trust mk ns (count + 1))"

definition discover_from_dir ::
  "skill_host \<Rightarrow> 'd file_system \<Rightarrow> 'd \<Rightarrow> string \<Rightarrow> skill_trust \<Rightarrow> (string \<Rightarrow> skill_source)
     \<Rightarrow> (string \<times> loaded_skill) list" where
  "discover_from_dir h fs d dir trust mk =
     (if fs_exists fs d dir
      then (case fs_entries fs d dir of
              Some ns \<Rightarrow> discover_entries h fs d dir trust mk ns 0 | None \<Rightarrow> [])
      else [])"

text \<open>The loop that keeps the first skill of each name.\<close>

fun add_new ::
  "(string \<times> loaded_skill) list \<Rightarrow> string list \<Rightarrow> loaded_skill list \<Rightarrow> string list \<times> loaded_skill list" where
  "add_new [] seen ss = (seen, ss)"
| "add_new ((n, s) # found) seen ss =
     (if n \<in> set seen then add_new found seen ss else add_new found (seen @ [n]) (ss @ [s]))"

definition discover_all ::
  "skill_host \<Rightarrow> 'd file_system \<Rightarrow> 'd \<Rightarrow> skill_registry \<Rightarrow> string list \<times> skill_registry" where
  "discover_all h fs d r =
     (let (seen, ss) = (case rg_workspace_dir r of
            Some ws \<Rightarrow> add_new (discover_from_dir h fs d ws Trusted Workspace_source) [] (rg_skills r)
          | None \<Rightarrow> ([], rg_skills r));
          (seen', ss') = add_new (discover_from_dir h fs d (rg_user_dir r) Trusted User_source) seen ss
      in (seen', r\<lparr>rg_skills := ss'\<rparr>))"

definition reload_skills ::
  "skill_host \<Rightarrow> 'd file_system \<Rightarrow> 'd \<Rightarrow> skill_registry \<Rightarrow> string list \<times> skill_registry" where
  "reload_skills h fs d r = discover_all h fs d (r\<lparr>rg_skills := []\<rparr>)"

definition prepare_install_to_disk ::
  "skill_host \<Rightarrow> 'd file_system \<Rightarrow> string \<Rightarrow> string \<Rightarrow> string \<Rightarrow> 'd
     \<Rightarrow> 'd \<times> (skill_registry_error, string \<times> loaded_skill) result" where
  "prepare_install_to_disk h fs user_dir name txt d =
     (let dir = path_join user_dir name; path = path_join dir ''SKILL.md'' in
      case fs_create_dir_all fs d dir of
        (d1, Some e) \<Rightarrow> (d1, Inl (Write_error dir e))
      | (d1, None) \<Rightarrow>
         (case fs_write_file fs d1 path txt of
            (d2, Some e) \<Rightarrow> (d2, Inl (Write_error path e))
          | (d2, None) \<Rightarrow> (d2, load_and_validate_skill h fs d2 path Installed (User_source dir))))"

definition commit_install ::
  "string \<Rightarrow> loaded_skill \<Rightarrow> skill_registry \<Rightarrow> skill_registry \<times> (skill_registry_error, unit) result" where
  "commit_install n s r =
     (if skill_has n r then (r, Inl (Already_exists n)) else (r\<lparr>rg_skills := rg_skills r @ [s]\<rparr>, Inr ()))"

definition install_skill ::
  "skill_host \<Rightarrow> 'd file_system \<Rightarrow> string \<Rightarrow> 'd \<Rightarrow> skill_registry
     \<Rightarrow> 'd \<times> skill_registry \<times> (skill_registry_error, string) result" where
  "install_skill h fs txt d r =
     (let normalized = normalize_line_endings txt in
      case parse_skill_md (sh_yaml h) normalized of
        Inl e \<Rightarrow> (d, r, Inl (Parse_error (case e of InvalidName n \<Rightarrow> n | _ \<Rightarrow> ''(install)'') (parse_error_text e)))
      | Inr (m, prompt) \<Rightarrow>
         if skill_has (sm_name m) r then (d, r, Inl (Already_exists (sm_name m)))
         else case prepare_install_to_disk h fs (rg_user_dir r) (sm_name m) normalized d of
           (d', Inl e) \<Rightarrow> (d', r, Inl e)
         | (d', Inr (n, s)) \<Rightarrow>
            (case commit_install n s r of
               (r', Inl e) \<Rightarrow> (d', r', Inl e) | (r', Inr _) \<Rightarrow> (d', r', Inr n)))"

definition validate_remove :: "string \<Rightarrow> skill_registry \<Rightarrow> (skill_registry_error, string) result" where
  "validate_remove n r =
     (case find_by_name n r of
        None \<Rightarrow> Inl (Skill_not_found n)
      | Some s \<Rightarrow> (case sk_source s of
           User_source p \<Rightarrow> Inr p
         | Workspace_source _ \<Rightarrow> Inl (Cannot_remove n ''workspace skills cannot be removed via this interface'')
         | Bundled_source _ \<Rightarrow> Inl (Cannot_remove n ''bundled skills cannot be removed'')))"

definition delete_skill_files ::
  "'d file_system \<Rightarrow> string \<Rightarrow> 'd \<Rightarrow> 'd \<times> (skill_registry_error, unit) result" where
  "delete_skill_files fs path d =
     (let md = path_join path ''SKILL.md'' in
      if fs_exists fs d md then
        (case fs_remove_file fs d md of
           (d', Some e) \<Rightarrow> (d', Inl (Write_error md e))
         | (d', None) \<Rightarrow> (fs_remove_dir fs d' path, Inr ()))
      else (d, Inr ()))"

fun remove_first :: "('a \<Rightarrow> bool) \<Rightarrow> 'a list \<Rightarrow> 'a list" where
  "remove_first P [] = []"
| "remove_first P (x # xs) = (if P x then xs else x # remove_first P xs)"

definition commit_remove :: "string \<Rightarrow> skill_registry \<Rightarrow> skill_registry \<times> (skill_registry_error, unit) result" where
  "commit_remove n r =
     (if skill_has n r then (r\<lparr>rg_skills := remove_first (\<lambda>s. sk_name s = n) (rg_skills r)\<rparr>, Inr ())
      else (r, Inl (Skill_not_found n)))"

definition remove_skill ::
  "'d file_system \<Rightarrow> string \<Rightarrow> 'd \<Rightarrow> skill_registry \<Rightarrow> 'd \<times> skill_registry \<times> (skill_registry_error, unit) result" where
  "remove_skill fs n d r =
     (case validate_remove n r of
        Inl e \<Rightarrow> (d, r, Inl e)
      | Inr path \<Rightarrow>
         (case delete_skill_files fs path d of
            (d', Inl e) \<Rightarrow> (d', r, Inl e)
          | (d', Inr _) \<Rightarrow> (case commit_remove n r of (r', res) \<Rightarrow> (d', r', res))))"

section \<open>What loading guarantees\<close>

text \<open>A well-formed skill: a valid name, limits enforced, a prompt, and the cached lower-case lists.\<close>

definition skill_ok :: "loaded_skill \<Rightarrow> bool" where
  "skill_ok s \<longleftrightarrow> validate_skill_name (sk_name s)
     \<and> (let a = sm_activation (sk_manifest s) in
          length (ac_keywords a) \<le> 20 \<and> length (ac_patterns a) \<le> 5 \<and> length (ac_tags a) \<le> 10
          \<and> list_all (\<lambda>k. length k \<ge> 3) (ac_keywords a @ ac_tags a)
          \<and> sk_lowercased_keywords s = map to_lower (ac_keywords a)
          \<and> sk_lowercased_tags s = map to_lower (ac_tags a))
     \<and> trim (sk_prompt_content s) \<noteq> []"

definition registry_ok :: "skill_registry \<Rightarrow> bool" where
  "registry_ok r \<longleftrightarrow> distinct (map sk_name (rg_skills r)) \<and> list_all skill_ok (rg_skills r)"

lemma parse_Inr:
  "parse_skill_md yaml txt = Inr (m, prompt) \<Longrightarrow>
     validate_skill_name (sm_name m) \<and> trim prompt \<noteq> [] \<and> (\<exists>a. sm_activation m = enforce_limits a)"
  by (auto simp: parse_skill_md_def Let_def split: if_splits option.splits sum.splits prod.splits)

lemma set_take_filter: "x \<in> set (take n (filter P xs)) \<Longrightarrow> P x"
  by (auto dest: in_set_takeD)

lemma load_Inr:
  assumes "load_and_validate_skill h fs d path trust source = Inr (n, s)"
  shows "n = sk_name s \<and> sk_trust s = trust \<and> sk_source s = source \<and> skill_ok s"
proof -
  from assms obtain raw m prompt where
      p: "parse_skill_md (sh_yaml h) (normalize_line_endings raw) = Inr (m, prompt)"
      and s: "n = sm_name m" "sk_manifest s = m" "sk_prompt_content s = prompt" "sk_trust s = trust"
        "sk_source s = source" "sk_lowercased_keywords s = map to_lower (ac_keywords (sm_activation m))"
        "sk_lowercased_tags s = map to_lower (ac_tags (sm_activation m))"
    by (auto simp: load_and_validate_skill_def Let_def split: sum.splits if_splits prod.splits)
  from parse_Inr [OF p] s show ?thesis
    by (auto simp: skill_ok_def Let_def enforce_limits_def list_all_iff dest: set_take_filter)
qed

lemma discover_entry_loads:
  assumes "discover_entry h fs d dir trust mk x = Some res"
  obtains path source where "res = load_and_validate_skill h fs d path trust source"
proof (cases "fs_meta fs d (path_join dir x)")
  case (Inr k)
  with assms that show ?thesis by (cases k) (auto simp: discover_entry_def Let_def split: if_splits)
qed (use assms in \<open>simp add: discover_entry_def\<close>)

lemma discover_entries_all:
  "(n, s) \<in> set (discover_entries h fs d dir trust mk ns count) \<Longrightarrow>
     n = sk_name s \<and> sk_trust s = trust \<and> skill_ok s"
proof (induction ns arbitrary: count)
  case (Cons x ns)
  have "n = sk_name s \<and> sk_trust s = trust \<and> skill_ok s"
    if "discover_entry h fs d dir trust mk x = Some (Inr (n, s))"
    using discover_entry_loads [OF that] load_Inr by metis
  with Cons show ?case by (auto split: option.splits sum.splits if_splits)
qed simp

lemma discover_from_dir_all:
  assumes "(n, s) \<in> set (discover_from_dir h fs d dir trust mk)"
  shows "n = sk_name s \<and> sk_trust s = trust \<and> skill_ok s"
proof -
  from assms obtain ns where "(n, s) \<in> set (discover_entries h fs d dir trust mk ns 0)"
    by (cases "fs_exists fs d dir"; cases "fs_entries fs d dir") (auto simp: discover_from_dir_def)
  then show ?thesis by (rule discover_entries_all)
qed

definition trusted_set :: "loaded_skill list \<Rightarrow> bool" where
  "trusted_set ss \<longleftrightarrow> distinct (map sk_name ss) \<and> (\<forall>s \<in> set ss. sk_trust s = Trusted \<and> skill_ok s)"

lemma add_new_inv:
  "\<forall>(n, s) \<in> set found. n = sk_name s \<and> sk_trust s = Trusted \<and> skill_ok s \<Longrightarrow> trusted_set ss \<Longrightarrow>
   add_new found (map sk_name ss) ss = (seen', ss') \<Longrightarrow> map sk_name ss' = seen' \<and> trusted_set ss'"
proof (induction found arbitrary: ss)
  case (Cons ns found)
  obtain n s where ns: "ns = (n, s)" by (cases ns)
  show ?case
  proof (cases "n \<in> set (map sk_name ss)")
    case True
    with Cons ns show ?thesis by simp
  next
    case False
    have s: "n = sk_name s" "sk_trust s = Trusted" "skill_ok s" using Cons.prems(1) ns by simp_all
    have t: "trusted_set (ss @ [s])" using Cons.prems(2) False s by (simp add: trusted_set_def ball_Un)
    have "add_new found (map sk_name (ss @ [s])) (ss @ [s]) = (seen', ss')"
      using Cons.prems(3) ns False s(1) by simp
    moreover have "\<forall>(n, s) \<in> set found. n = sk_name s \<and> sk_trust s = Trusted \<and> skill_ok s"
      using Cons.prems(1) by simp
    ultimately show ?thesis using Cons.IH t by blast
  qed
qed (simp add: trusted_set_def)

lemma discovered_ok:
  "\<forall>(n, s) \<in> set (discover_from_dir h fs d dir Trusted mk). n = sk_name s \<and> sk_trust s = Trusted \<and> skill_ok s"
proof (rule ballI)
  fix x assume x: "x \<in> set (discover_from_dir h fs d dir Trusted mk)"
  obtain n s where ns: "x = (n, s)" by fastforce
  then show "case x of (n, s) \<Rightarrow> n = sk_name s \<and> sk_trust s = Trusted \<and> skill_ok s"
    using discover_from_dir_all [OF x [unfolded ns]] by simp
qed

lemma reload_inv:
  assumes "reload_skills h fs d r = (names, r')"
  shows "map sk_name (rg_skills r') = names \<and> trusted_set (rg_skills r')"
proof -
  let ?us = "discover_from_dir h fs d (rg_user_dir r) Trusted User_source"
  have n: "trusted_set []" by (simp add: trusted_set_def)
  obtain seen ss where a: "(case rg_workspace_dir r of
      Some ws \<Rightarrow> add_new (discover_from_dir h fs d ws Trusted Workspace_source) [] []
    | None \<Rightarrow> ([], [])) = (seen, ss)" by fastforce
  have m: "map sk_name ss = seen \<and> trusted_set ss"
  proof (cases "rg_workspace_dir r")
    case (Some ws)
    with a have "add_new (discover_from_dir h fs d ws Trusted Workspace_source) (map sk_name []) [] = (seen, ss)"
      by simp
    then show ?thesis by (rule add_new_inv [OF discovered_ok n])
  qed (use a n in simp)
  obtain seen' ss' where b: "add_new ?us (map sk_name ss) ss = (seen', ss')"
    by (cases "add_new ?us (map sk_name ss) ss")
  have b': "add_new ?us seen ss = (seen', ss')" using b m by simp
  have "discover_all h fs d (r\<lparr>rg_skills := []\<rparr>) = (seen', r\<lparr>rg_skills := ss'\<rparr>)"
    using a b' by (cases "rg_workspace_dir r") (simp_all add: discover_all_def)
  then have "names = seen'" "rg_skills r' = ss'" using assms by (auto simp: reload_skills_def)
  with add_new_inv [OF discovered_ok conjunct2 [OF m] b] show ?thesis by simp
qed

lemma prepare_Inr:
  "prepare_install_to_disk h fs dir n txt d = (d', Inr (n', s)) \<Longrightarrow>
     n' = sk_name s \<and> sk_trust s = Installed \<and> skill_ok s"
  by (auto simp: prepare_install_to_disk_def Let_def dest: load_Inr split: prod.splits option.splits)

lemma skill_has_iff: "skill_has n r \<longleftrightarrow> n \<in> set (map sk_name (rg_skills r))"
  by (auto simp: skill_has_def list_ex_iff)

lemma install_Inr:
  assumes "install_skill h fs txt d r = (d', r', Inr n)"
  obtains s where "r' = r\<lparr>rg_skills := rg_skills r @ [s]\<rparr>" "n = sk_name s" "sk_trust s = Installed"
    "skill_ok s" "\<not> skill_has n r"
  using assms
  by (auto simp: install_skill_def commit_install_def Let_def dest: prepare_Inr
      split: sum.splits prod.splits if_splits)

lemma install_Inl: "install_skill h fs txt d r = (d', r', Inl e) \<Longrightarrow> r' = r"
  by (auto simp: install_skill_def commit_install_def Let_def split: sum.splits prod.splits if_splits)

lemma remove_first_sub: "set (remove_first P xs) \<subseteq> set xs"
  by (induction xs) auto

lemma remove_first_map_distinct: "distinct (map f xs) \<Longrightarrow> distinct (map f (remove_first P xs))"
proof (induction xs)
  case (Cons x xs)
  then show ?case using remove_first_sub [of P xs] by auto
qed simp

lemma commit_remove_ok: "registry_ok r \<Longrightarrow> registry_ok (fst (commit_remove n r))"
  using remove_first_sub [of "\<lambda>s. sk_name s = n" "rg_skills r"]
  by (auto simp: registry_ok_def commit_remove_def remove_first_map_distinct list_all_iff)

text \<open>The registry and its disk under installs, removals and reloads.\<close>

datatype skill_event = Sk_install string | Sk_remove string | Sk_reload

fun skill_step :: "skill_host \<Rightarrow> 'd file_system \<Rightarrow> 'd \<times> skill_registry \<Rightarrow> skill_event \<Rightarrow> 'd \<times> skill_registry" where
  "skill_step h fs (d, r) (Sk_install txt) = (case install_skill h fs txt d r of (d', r', _) \<Rightarrow> (d', r'))"
| "skill_step h fs (d, r) (Sk_remove n) = (case remove_skill fs n d r of (d', r', _) \<Rightarrow> (d', r'))"
| "skill_step h fs (d, r) Sk_reload = (d, snd (reload_skills h fs d r))"

lemma skill_step_ok: "registry_ok (snd dr) \<Longrightarrow> registry_ok (snd (skill_step h fs dr e))"
proof (cases e)
  case (Sk_install f)
  assume ok: "registry_ok (snd dr)"
  obtain d' r' res where i: "install_skill h fs f (fst dr) (snd dr) = (d', r', res)"
    by (cases "install_skill h fs f (fst dr) (snd dr)")
  show ?thesis
  proof (cases res)
    case (Inl x)
    with i Sk_install ok install_Inl [of h fs f "fst dr" "snd dr" d' r' x] show ?thesis by (cases dr) simp
  next
    case (Inr n)
    from install_Inr [OF i [unfolded Inr]] obtain s where "r' = (snd dr)\<lparr>rg_skills := rg_skills (snd dr) @ [s]\<rparr>"
      "n = sk_name s" "skill_ok s" "\<not> skill_has n (snd dr)" by blast
    with i Sk_install ok show ?thesis by (cases dr) (auto simp: registry_ok_def skill_has_iff)
  qed
next
  case (Sk_remove n)
  assume "registry_ok (snd dr)"
  with Sk_remove commit_remove_ok [of "snd dr" n] show ?thesis
    by (cases dr) (auto simp: remove_skill_def split: sum.splits prod.splits)
next
  case Sk_reload
  obtain names r' where "reload_skills h fs (fst dr) (snd dr) = (names, r')"
    by (cases "reload_skills h fs (fst dr) (snd dr)")
  with Sk_reload reload_inv [OF this] show ?thesis
    by (cases dr) (auto simp: registry_ok_def trusted_set_def list_all_iff)
qed

interpretation skill_registry: transition_system "skill_step h fs" "\<lambda>dr. registry_ok (snd dr)" for h fs
  by unfold_locales (rule skill_step_ok)

section \<open>Files\<close>

abbreviation NL :: char where "NL \<equiv> CHR 0x0A"

lemma strip_cr_id: "CHR 0x0D \<notin> set l \<Longrightarrow> strip_cr l = l"
  by (auto simp: strip_cr_def strip_suffix_Some split: option.splits)

lemma str_lines_Cons: "NL \<notin> set l \<Longrightarrow> str_lines (l @ NL # s) = strip_cr l # str_lines s"
proof -
  assume "NL \<notin> set l"
  then have "split_on NL (l @ NL # s) = l # split_on NL s" by (intro split_by_append) auto
  then show ?thesis unfolding str_lines_def Let_def by simp
qed

definition unlines :: "string list \<Rightarrow> string" where
  "unlines ls = concat (map (\<lambda>l. l @ [NL]) ls)"

lemma closing_line_at:
  "\<forall>l \<in> set ls. NL \<notin> set l \<and> CHR 0x0D \<notin> set l \<and> trim l \<noteq> ''---'' \<Longrightarrow>
   closing_line pos (str_lines (unlines ls @ ''---'' @ NL # body)) = Some (pos + length (unlines ls))"
proof (induction ls arbitrary: pos)
  case Nil
  have "trim ''---'' = ''---''" "strip_cr ''---'' = ''---''" by code_simp+
  with str_lines_Cons [of "''---''" body] show ?case by (simp add: unlines_def)
next
  case (Cons l ls)
  have "unlines (l # ls) @ ''---'' @ NL # body = l @ NL # (unlines ls @ ''---'' @ NL # body)"
    by (simp add: unlines_def)
  with Cons show ?case using str_lines_Cons [of l "unlines ls @ ''---'' @ NL # body"]
    by (simp add: strip_cr_id)
qed

definition skill_file :: "string list \<Rightarrow> string \<Rightarrow> string" where
  "skill_file ls body = ''---'' @ NL # unlines ls @ ''---'' @ NL # body"

section \<open>Properties\<close>


text \<open>The front matter and the prompt of a skill file are read back as they were written: the decoder
  gets exactly the lines between the delimiters, and the prompt is the text behind them.\<close>
theorem skill_file_roundtrip:
  assumes "\<forall>l \<in> set ls. NL \<notin> set l \<and> CHR 0x0D \<notin> set l \<and> trim l \<noteq> ''---''"
    and "yaml (unlines ls) = Inr m" "validate_skill_name (sm_name m)"
    and "trim body \<noteq> []" "hd body \<noteq> NL"
  shows "parse_skill_md yaml (skill_file ls body)
     = Inr (m\<lparr>sm_activation := enforce_limits (sm_activation m)\<rparr>, body)"
proof -
  let ?rest = "unlines ls @ ''---'' @ NL # body"
  have c: "find_closing_delimiter ?rest = Some (length (unlines ls))"
    using closing_line_at [OF assms(1), of 0 body] by (simp add: find_closing_delimiter_def)
  have f: "split_once NL (drop 3 (skill_file ls body)) = Some ([], ?rest)"
    using split_once_split [of NL "[]" ?rest] by (simp add: skill_file_def)
  have g: "split_once NL (drop (length (unlines ls)) ?rest) = Some (''---'', body)"
    using split_once_split [of NL "''---''" body] by simp
  have d: "dropWhile (\<lambda>c. c = NL \<or> c = CHR 0x0D) (skill_file ls body) = skill_file ls body"
    "starts_with (skill_file ls body) ''---''"
    by (simp_all add: skill_file_def)
  have "body \<noteq> []" using assms(4) by (auto simp: trim_def trim_start_def trim_end_def)
  then have "dropWhile (\<lambda>c. c = NL) body = body" using assms(5) by (cases body) auto
  with c f g d assms(2-5) show ?thesis by (simp add: parse_skill_md_def Let_def)
qed

definition example_manifest :: skill_manifest where
  "example_manifest = sk_manifest (example_skill Installed)"

theorem skill_file_roundtrip_witness:
  "parse_skill_md (\<lambda>s. Inr example_manifest) (skill_file [''name: writer''] ''Help.'')
     = Inr (example_manifest\<lparr>sm_activation := enforce_limits (sm_activation example_manifest)\<rparr>, ''Help.'')"
proof (rule skill_file_roundtrip)
  show "\<forall>l \<in> set [''name: writer'']. NL \<notin> set l \<and> CHR 0x0D \<notin> set l \<and> trim l \<noteq> ''---''" by code_simp
  show "validate_skill_name (sm_name example_manifest)" by code_simp
  show "trim ''Help.'' \<noteq> []" by code_simp
qed
  (simp_all)

text \<open>An installed skill is restricted only until the next reload or start: a successful installation
  puts the skill into the registry as \<open>Installed\<close>, but discovery trusts every file below the user
  directory, also the one the installation wrote there, and after it no selection of skills
  takes any tool away.\<close>
theorem installed_trust_lost_on_reload:
  assumes "install_skill h fs txt d r = (d', r', Inr n)"
  shows "map_option sk_trust (find_by_name n r') = Some Installed
     \<and> at_tools (attenuate_tools tools
          (prefilter_skills rx msg (rg_skills (snd (reload_skills h fs d' r'))) m b)) = tools"
proof -
  from install_Inr [OF assms] obtain s where s: "r' = r\<lparr>rg_skills := rg_skills r @ [s]\<rparr>" "n = sk_name s"
      "sk_trust s = Installed" "\<not> skill_has n r" by blast
  have "find (\<lambda>x. sk_name x = n) (xs @ [s]) = Some s" if "n \<notin> set (map sk_name xs)" for xs
    using that s(2) by (induction xs) auto
  with s have "map_option sk_trust (find_by_name n r') = Some Installed"
    by (simp add: find_by_name_def skill_has_iff)
  moreover obtain names r2 where "reload_skills h fs d' r' = (names, r2)"
    by (cases "reload_skills h fs d' r'")
  with reload_inv [OF this] selection_within_budget [of rx msg "rg_skills r2" m b]
  have "at_tools (attenuate_tools tools
      (prefilter_skills rx msg (rg_skills (snd (reload_skills h fs d' r'))) m b)) = tools"
    by (intro attenuate_trusted) (auto simp: trusted_set_def)
  ultimately show ?thesis by simp
qed

definition example_fs :: "((string \<times> string) list) file_system" where
  "example_fs = \<lparr>fs_entries = \<lambda>d dir. Some (if d = [] then [] else [''writer'']),
     fs_meta = \<lambda>d p. Inr (if ends_with p ''SKILL.md'' then Regular else Directory),
     fs_exists = \<lambda>d p. True,
     fs_read = \<lambda>d p. (case map_of d p of Some c \<Rightarrow> Inr c | None \<Rightarrow> Inl []),
     fs_create_dir_all = \<lambda>d p. (d, None),
     fs_write_file = \<lambda>d p c. ((p, c) # d, None),
     fs_remove_file = \<lambda>d p. (filter (\<lambda>e. fst e \<noteq> p) d, None),
     fs_remove_dir = \<lambda>d p. d\<rparr>"

definition example_host :: skill_host where
  "example_host = \<lparr>sh_yaml = \<lambda>s. Inr example_manifest, sh_hash = \<lambda>s. [], sh_compiles = \<lambda>s. True,
     sh_binary_exists = \<lambda>s. True, sh_env_set = \<lambda>s. True, sh_path_exists = \<lambda>s. True\<rparr>"

definition example_file :: string where
  "example_file = skill_file [''name: writer''] ''Help.''"

definition example_loaded :: "loaded_skill" where
  "example_loaded = \<lparr>sk_manifest = example_manifest, sk_prompt_content = ''Help.'', sk_trust = Trusted,
     sk_source = User_source ''u/writer'', sk_content_hash = [], sk_patterns = [],
     sk_lowercased_keywords = [''write''], sk_lowercased_tags = []\<rparr>"

abbreviation example_disk :: "(string \<times> string) list" where
  "example_disk \<equiv> [(''u/writer/SKILL.md'', example_file)]"

lemma example_parse: "parse_skill_md (sh_yaml example_host) example_file = Inr (example_manifest, ''Help.'')"
  by code_simp

lemma example_text: "length example_file = 26" "normalize_line_endings example_file = example_file"
  by code_simp+

lemma example_read:
  "fs_meta example_fs example_disk ''u/writer/SKILL.md'' = Inr Regular"
  "fs_read example_fs example_disk ''u/writer/SKILL.md'' = Inr example_file"
  by code_simp+

lemma example_parts:
  "ac_max_context_tokens (sm_activation example_manifest) = 10" "sm_requires example_manifest = None"
  "approx_tokens ''Help.'' = 1" "map to_lower (ac_keywords (sm_activation example_manifest)) = [''write'']"
  "ac_tags (sm_activation example_manifest) = []" "ac_patterns (sm_activation example_manifest) = []"
  "sm_name example_manifest = ''writer''"
  by code_simp+

lemma example_load:
  "load_and_validate_skill example_host example_fs example_disk ''u/writer/SKILL.md'' t (User_source ''u/writer'')
     = Inr (''writer'', example_loaded\<lparr>sk_trust := t\<rparr>)"
  unfolding load_and_validate_skill_def example_read using example_parse example_text example_parts
  by (simp add: MAX_PROMPT_FILE_SIZE_def example_loaded_def example_host_def compile_patterns_def)

lemma example_write:
  "fs_create_dir_all example_fs d p = (d, None)" "fs_write_file example_fs d p c = ((p, c) # d, None)"
  by (simp_all add: example_fs_def)

definition example_registry :: skill_registry where
  "example_registry = \<lparr>rg_skills = [example_loaded\<lparr>sk_trust := Installed\<rparr>], rg_user_dir = ''u'',
     rg_workspace_dir = None\<rparr>"

lemma example_install:
  "install_skill example_host example_fs example_file [] (new_skill_registry ''u'')
     = (example_disk, example_registry, Inr ''writer'')"
  by (simp add: install_skill_def prepare_install_to_disk_def path_join_def commit_install_def
      new_skill_registry_def skill_has_def example_parse example_text example_parts example_load
      example_write example_registry_def)

lemma example_discover:
  "discover_from_dir example_host example_fs example_disk ''u'' Trusted User_source = [(''writer'', example_loaded)]"
proof -
  have e: "fs_exists example_fs d p" for d p by (simp add: example_fs_def)
  have m: "fs_meta example_fs d ''u/writer'' = Inr Directory" for d by code_simp
  have n: "fs_entries example_fs example_disk ''u'' = Some [''writer'']" by (simp add: example_fs_def)
  have "example_loaded\<lparr>sk_trust := Trusted\<rparr> = example_loaded" by (simp add: example_loaded_def)
  then show ?thesis
    by (simp add: discover_from_dir_def e n m discover_entry_def path_join_def example_load MAX_DISCOVERED_SKILLS_def)
qed

theorem installed_trust_lost_on_reload_witness:
  "map_option sk_trust (find_by_name ''writer'' example_registry) = Some Installed
   \<and> map_option sk_trust (find_by_name ''writer'' (snd (reload_skills example_host example_fs example_disk
         example_registry))) = Some Trusted
   \<and> at_tools (attenuate_tools [example_tool ''shell''] (prefilter_skills (\<lambda>p t. False) ''write this''
        (rg_skills (snd (reload_skills example_host example_fs example_disk example_registry))) 3 4000))
     = [example_tool ''shell'']"
proof -
  have "sk_name example_loaded = ''writer''" "sk_trust example_loaded = Trusted"
    by (simp_all add: example_loaded_def example_parts)
  then have "map_option sk_trust (find_by_name ''writer'' (snd (reload_skills example_host example_fs example_disk
      example_registry))) = Some Trusted"
    by (simp add: reload_skills_def discover_all_def example_registry_def example_discover find_by_name_def)
  with installed_trust_lost_on_reload [OF example_install] show ?thesis by blast
qed

end
