(* ===== verification/Submission.thy ===== *)
theory Submission
  imports Rust_Strings
begin

text \<open>
  What the agent can be told: the submissions and their parser, \<open>src/agent/submission.rs\<close>, and the
  router of explicit commands, \<open>src/agent/router.rs\<close>. \<open>Uuid::parse_str\<close> and the decoder of a
  structured approval (request, approved, always) are the parameters \<open>parse\<close> and \<open>approval\<close>.
\<close>

section \<open>Submissions\<close>

datatype submission =
    User_input string
  | Exec_approval uuid bool bool
  | Approval_response bool bool
  | Interrupt
  | Compact
  | Undo
  | Redo
  | Resume uuid
  | Clear
  | Switch_thread uuid
  | New_thread
  | Heartbeat
  | Summarize
  | Suggest
  | Quit
  | System_command string "string list"

datatype submission_result =
    Response string
  | Need_approval uuid string string json
  | Done "string option"
  | Failure string
  | Was_interrupted

definition starts_turn :: "submission \<Rightarrow> bool" where
  "starts_turn s = (case s of User_input _ \<Rightarrow> True | _ \<Rightarrow> False)"

definition is_control :: "submission \<Rightarrow> bool" where
  "is_control s = (case s of Interrupt \<Rightarrow> True | Compact \<Rightarrow> True | Undo \<Rightarrow> True | Redo \<Rightarrow> True
     | Clear \<Rightarrow> True | New_thread \<Rightarrow> True | Heartbeat \<Rightarrow> True | Summarize \<Rightarrow> True | Suggest \<Rightarrow> True
     | System_command _ _ \<Rightarrow> True | _ \<Rightarrow> False)"

section \<open>The parser\<close>

text \<open>The commands matched as a whole, in the order of the code.\<close>

definition control_words :: "(string list \<times> submission) list" where
  "control_words = [
     ([''/undo''], Undo),
     ([''/redo''], Redo),
     ([''/interrupt'', ''/stop''], Interrupt),
     ([''/compact''], Compact),
     ([''/clear''], Clear),
     ([''/heartbeat''], Heartbeat),
     ([''/summarize'', ''/summary''], Summarize),
     ([''/suggest''], Suggest),
     ([''/thread new'', ''/new''], New_thread),
     ([''/help'', ''/?''], System_command ''help'' []),
     ([''/version''], System_command ''version'' []),
     ([''/tools''], System_command ''tools'' []),
     ([''/ping''], System_command ''ping'' []),
     ([''/debug''], System_command ''debug'' [])]"

definition approve_words :: "string list" where
  "approve_words = [''yes'', ''y'', ''approve'', ''ok'']"

definition always_words :: "string list" where
  "always_words = [''always'', ''yes always'', ''approve always'']"

definition deny_words :: "string list" where
  "deny_words = [''no'', ''n'', ''deny'', ''reject'', ''cancel'']"

definition lookup_word :: "(string list \<times> 'a) list \<Rightarrow> string \<Rightarrow> 'a option" where
  "lookup_word tbl w = map_option snd (find (\<lambda>row. w \<in> set (fst row)) tbl)"

definition approval_words :: "(string list \<times> submission) list" where
  "approval_words = [(approve_words, Approval_response True False), (always_words, Approval_response True True),
     (deny_words, Approval_response False False)]"

definition parse_submission ::
  "(string \<Rightarrow> uuid option) \<Rightarrow> (string \<Rightarrow> (uuid \<times> bool \<times> bool) option) \<Rightarrow> string \<Rightarrow> submission" where
  "parse_submission parse approval txt =
     (let trimmed = trim txt; lower = to_lower trimmed in
      case lookup_word control_words lower of
        Some s \<Rightarrow> s
      | None \<Rightarrow>
        if starts_with lower ''/model'' then System_command ''model'' (drop 1 (split_ws trimmed))
        else if lower = ''/quit'' \<or> lower = ''/exit'' \<or> lower = ''/shutdown'' then Quit
        else case (case strip_prefix lower ''/thread '' of
                     Some rest \<Rightarrow> (if trim rest = ''new'' then None else parse (trim rest)) | None \<Rightarrow> None) of
          Some i \<Rightarrow> Switch_thread i
        | None \<Rightarrow>
          (case (case strip_prefix lower ''/resume '' of Some rest \<Rightarrow> parse (trim rest) | None \<Rightarrow> None) of
             Some i \<Rightarrow> Resume i
           | None \<Rightarrow>
             (case (if starts_with trimmed ''{'' then approval trimmed else None) of
                Some (rid, approved, always) \<Rightarrow> Exec_approval rid approved always
              | None \<Rightarrow>
                 (case lookup_word approval_words lower of
                    Some s \<Rightarrow> s
                  | None \<Rightarrow> User_input txt))))"

section \<open>The router\<close>

datatype message_intent =
    Create_job string string "string option"
  | Check_job_status "string option"
  | Cancel_job string
  | List_jobs "string option"
  | Help_job string
  | Chat string
  | Command string "string list"
  | Unknown_intent

text \<open>The arguments \<open>parts.get(1)\<close> and \<open>parts[1..]\<close>.\<close>

definition first_arg :: "string list \<Rightarrow> string option" where
  "first_arg ps = (case ps of _ # a # _ \<Rightarrow> Some a | _ \<Rightarrow> None)"

definition parse_command :: "string \<Rightarrow> string \<Rightarrow> message_intent" where
  "parse_command prefix content =
     (let parts = split_ws (case strip_prefix content prefix of Some r \<Rightarrow> r | None \<Rightarrow> content) in
      case parts of
        [] \<Rightarrow> Unknown_intent
      | w # args \<Rightarrow>
        (let cmd = to_lower w in
         if cmd = ''job'' \<or> cmd = ''create'' then Create_job (join '' '' args) (join '' '' args) None
         else if cmd = ''status'' then Check_job_status (first_arg parts)
         else if cmd = ''cancel'' then
           (case first_arg parts of Some i \<Rightarrow> Cancel_job i | None \<Rightarrow> Unknown_intent)
         else if cmd = ''list'' \<or> cmd = ''jobs'' then List_jobs (first_arg parts)
         else if cmd = ''help'' then
           (case first_arg parts of Some i \<Rightarrow> Help_job i | None \<Rightarrow> Command ''help'' [])
         else Command cmd args))"

definition is_command :: "string \<Rightarrow> string \<Rightarrow> bool" where
  "is_command prefix content \<longleftrightarrow> starts_with (trim content) prefix"

definition route_command :: "string \<Rightarrow> string \<Rightarrow> message_intent option" where
  "route_command prefix content =
     (let c = trim content in if starts_with c prefix then Some (parse_command prefix c) else None)"

section \<open>Lemmas\<close>

lemma lookup_word_Some: "lookup_word tbl w = Some s \<Longrightarrow> \<exists>ws. (ws, s) \<in> set tbl \<and> w \<in> set ws"
  by (auto simp: lookup_word_def dest!: find_Some_mem)

lemma lookup_word_None: "lookup_word tbl w = None \<longleftrightarrow> (\<forall>(ws, s) \<in> set tbl. w \<notin> set ws)"
  by (auto simp: lookup_word_def find_None_all)

definition approves :: "submission \<Rightarrow> bool" where
  "approves s = (case s of Exec_approval _ a _ \<Rightarrow> a | Approval_response a _ \<Rightarrow> a | _ \<Rightarrow> False)"

text \<open>A word of the control table approves nothing, and is no user input.\<close>

lemma control_words_plain:
  "(ws, s) \<in> set control_words \<Longrightarrow> \<not> approves s \<and> \<not> starts_turn s \<and> is_control s"
  by (auto simp: control_words_def approves_def starts_turn_def is_control_def)

lemma approval_words_mem:
  "(ws, s) \<in> set approval_words \<longleftrightarrow> (ws, s) \<in> {(approve_words, Approval_response True False),
     (always_words, Approval_response True True), (deny_words, Approval_response False False)}"
  by (auto simp: approval_words_def)

text \<open>What a submission can be read from.\<close>

lemma parse_submission_cases:
  fixes parse approval c
  defines "s \<equiv> parse_submission parse approval c" and "low \<equiv> to_lower (trim c)"
  obtains (control) "lookup_word control_words low = Some s"
  | (model) args where "s = System_command ''model'' args"
  | (quit) "s = Quit"
  | (thread) i where "s = Switch_thread i \<or> s = Resume i"
  | (structured) rid a always where "starts_with (trim c) ''{''" "approval (trim c) = Some (rid, a, always)"
      "s = Exec_approval rid a always"
  | (answer) "lookup_word approval_words low = Some s"
  | (input) "s = User_input c" "lookup_word control_words low = None" "lookup_word approval_words low = None"
      "\<not> starts_with low ''/model''" "low \<noteq> ''/quit''" "low \<noteq> ''/exit''" "low \<noteq> ''/shutdown''"
proof (cases "lookup_word control_words low")
  case None
  show ?thesis
  proof (cases "starts_with low ''/model'' \<or> low = ''/quit'' \<or> low = ''/exit'' \<or> low = ''/shutdown''")
    case True
    with None have "(\<exists>args. s = System_command ''model'' args) \<or> s = Quit"
      unfolding s_def parse_submission_def Let_def low_def [symmetric] by auto
    then show ?thesis using model quit by blast
  next
    case no_word: False
    let ?t = "case strip_prefix low ''/thread '' of
        Some rest \<Rightarrow> (if trim rest = ''new'' then None else parse (trim rest)) | None \<Rightarrow> None"
    let ?r = "case strip_prefix low ''/resume '' of Some rest \<Rightarrow> parse (trim rest) | None \<Rightarrow> None"
    let ?j = "if starts_with (trim c) ''{'' then approval (trim c) else None"
    from no_word None have s: "s = (case ?t of Some i \<Rightarrow> Switch_thread i | None \<Rightarrow>
        (case ?r of Some i \<Rightarrow> Resume i | None \<Rightarrow>
        (case ?j of Some (rid, approved, always) \<Rightarrow> Exec_approval rid approved always | None \<Rightarrow>
        (case lookup_word approval_words low of Some s \<Rightarrow> s | None \<Rightarrow> User_input c))))"
      unfolding s_def parse_submission_def Let_def low_def [symmetric] by simp
    show ?thesis
    proof (cases ?t)
      case t: None
      show ?thesis
      proof (cases ?r)
        case r: None
        show ?thesis
        proof (cases ?j)
          case j: None
          then show ?thesis
          proof (cases "lookup_word approval_words low")
            case a: None
            with s t r j have "s = User_input c" by (simp only: option.case)
            with input None a no_word show ?thesis by blast
          next
            case (Some x)
            with s t r j have "s = x" by (simp only: option.case)
            with Some answer show ?thesis by blast
          qed
        next
          case (Some x)
          obtain rid a always where x: "x = (rid, a, always)" by (cases x)
          with s t r Some have e: "s = Exec_approval rid a always" by (simp only: option.case prod.case)
          show ?thesis
          proof (cases "starts_with (trim c) ''{''")
            case True
            with Some x structured e show ?thesis by simp
          qed (use Some in simp)
        qed
      next
        case (Some i)
        with s t have "s = Resume i" by (simp only: option.case)
        with thread show ?thesis by blast
      qed
    next
      case (Some i)
      with s have "s = Switch_thread i" by (simp only: option.case)
      with thread show ?thesis by blast
    qed
  qed
next
  case (Some x)
  then have "s = x" unfolding s_def parse_submission_def Let_def low_def [symmetric] by simp
  with Some control show ?thesis by blast
qed

lemma control_no_input: "lookup_word control_words low = Some s \<Longrightarrow> \<not> approves s \<and> \<not> starts_turn s"
  using lookup_word_Some [of control_words low s] control_words_plain by blast

lemma answer_words: "lookup_word approval_words low = Some s \<Longrightarrow> approves s \<Longrightarrow> low \<in> set (approve_words @ always_words)"
  using lookup_word_Some [of approval_words low s]
  by (auto simp: approval_words_mem approves_def)

lemma answer_no_input: "lookup_word approval_words low = Some s \<Longrightarrow> \<not> starts_turn s"
  using lookup_word_Some [of approval_words low s] by (auto simp: approval_words_mem starts_turn_def)

section \<open>Properties\<close>

text \<open>Nothing is approved by accident: a text is read as an approval only when, blanks at its ends and
  case aside, it is one of the fixed words of assent, or it is a structured approval that says so.\<close>
theorem approval_needs_assent:
  assumes "approves (parse_submission parse approval c)"
  shows "to_lower (trim c) \<in> set (approve_words @ always_words)
     \<or> (\<exists>rid always. starts_with (trim c) ''{'' \<and> approval (trim c) = Some (rid, True, always))"
proof (cases rule: parse_submission_cases [where parse = parse and approval = approval and c = c])
  case control
  with assms control_no_input show ?thesis by simp
next
  case (structured rid a always)
  moreover have "a = True" using structured(3) assms by (simp add: approves_def)
  ultimately show ?thesis by simp
next
  case answer
  with assms show ?thesis by (blast intro: answer_words)
qed (use assms in \<open>auto simp: approves_def\<close>)

theorem approval_needs_assent_witness:
  "approves (parse_submission (\<lambda>s. None) (\<lambda>s. None) '' Yes '')
   \<and> (to_lower (trim '' Yes '') \<in> set (approve_words @ always_words)
      \<or> (\<exists>rid always. starts_with (trim '' Yes '') ''{'' \<and> (None :: (uuid \<times> bool \<times> bool) option) = Some (rid, True, always)))"
proof -
  have "approves (parse_submission (\<lambda>s. None) (\<lambda>s. None) '' Yes '')" by code_simp
  with approval_needs_assent [OF this] show ?thesis by blast
qed

text \<open>A text that starts a turn does so as it was typed, and only when it is none of the words the agent
  reserves, in any case and with any blanks around it.\<close>
theorem user_input_verbatim:
  assumes "parse_submission parse approval c = User_input c'"
  shows "c' = c \<and> \<not> starts_with (to_lower (trim c)) ''/model''
     \<and> to_lower (trim c) \<notin> set (concat (map fst (control_words @ approval_words))) \<union> {''/quit'', ''/exit'', ''/shutdown''}"
proof (cases rule: parse_submission_cases [where parse = parse and approval = approval and c = c])
  case control
  with assms control_no_input show ?thesis by (fastforce simp: starts_turn_def)
next
  case answer
  with assms answer_no_input show ?thesis by (fastforce simp: starts_turn_def)
next
  case input
  have "to_lower (trim c) \<notin> set (concat (map fst (control_words @ approval_words)))"
    using input(2,3) unfolding lookup_word_None by fastforce
  with input assms show ?thesis by simp
qed (use assms in auto)

theorem user_input_verbatim_witness:
  "parse_submission (\<lambda>s. None) (\<lambda>s. None) ''hello'' = User_input ''hello''
   \<and> to_lower (trim ''hello'') \<notin> set (concat (map fst (control_words @ approval_words)))"
proof -
  have "parse_submission (\<lambda>s. None) (\<lambda>s. None) ''hello'' = User_input ''hello''" by code_simp
  with user_input_verbatim [OF this] show ?thesis by blast
qed

end
