(* ===== verification/Hooks.thy ===== *)
theory Hooks
  imports Rust_Strings "HOL-Library.Multiset"
begin

text \<open>
  Lifecycle hooks, \<open>src/hooks/hook.rs\<close>, \<open>src/hooks/registry.rs\<close> and
  \<open>src/hooks/trusted_tools.rs\<close>. A hook (a trait object) is a record of what its methods answer;
  \<open>execute\<close> runs in a world \<open>'w\<close> it may change, and an answer that misses the timeout is
  \<open>Timed_out\<close>. The JSON decoder and encoder are the parameters \<open>dec\<close> and \<open>enc\<close>.
\<close>

section \<open>Events and outcomes\<close>

datatype hook_point = BeforeInbound | BeforeToolCall | BeforeOutbound | OnSessionStart
  | OnSessionEnd | TransformResponse

datatype hook_event =
    Inbound string string string "string option"
  | ToolCall string json string string
  | Outbound string string string "string option"
  | SessionStart string string
  | SessionEnd string string "uuid list"
  | ResponseTransform string string string

fun event_point :: "hook_event \<Rightarrow> hook_point" where
  "event_point (Inbound _ _ _ _) = BeforeInbound"
| "event_point (ToolCall _ _ _ _) = BeforeToolCall"
| "event_point (Outbound _ _ _ _) = BeforeOutbound"
| "event_point (SessionStart _ _) = OnSessionStart"
| "event_point (SessionEnd _ _ _) = OnSessionEnd"
| "event_point (ResponseTransform _ _ _) = TransformResponse"

fun apply_modification :: "(string \<Rightarrow> json option) \<Rightarrow> string \<Rightarrow> hook_event \<Rightarrow> hook_event" where
  "apply_modification dec m (Inbound u ch c t) = Inbound u ch m t"
| "apply_modification dec m (Outbound u ch c t) = Outbound u ch m t"
| "apply_modification dec m (ToolCall n ps u ctx) =
     ToolCall n (case dec m of Some p \<Rightarrow> p | None \<Rightarrow> ps) u ctx"
| "apply_modification dec m (ResponseTransform u t r) = ResponseTransform u t m"
| "apply_modification dec m ev = ev"

fun extract_content :: "(json \<Rightarrow> string) \<Rightarrow> hook_event \<Rightarrow> string" where
  "extract_content enc (Inbound u ch c t) = c"
| "extract_content enc (Outbound u ch c t) = c"
| "extract_content enc (ToolCall n ps u ctx) = enc ps"
| "extract_content enc (ResponseTransform u t r) = r"
| "extract_content enc (SessionStart u s) = s"
| "extract_content enc (SessionEnd u s ts) = s"

datatype hook_outcome = Continue "string option" | Reject string

datatype hook_error = Hook_failed string | Hook_timeout duration | Hook_rejected string

text \<open>The \<open>Display\<close> texts of the error.\<close>

definition hook_error_text :: "(duration \<Rightarrow> string) \<Rightarrow> hook_error \<Rightarrow> string" where
  "hook_error_text show_duration e = (case e of
     Hook_failed r \<Rightarrow> ''Hook execution failed: '' @ r
   | Hook_timeout d \<Rightarrow> ''Hook timed out after '' @ show_duration d
   | Hook_rejected r \<Rightarrow> ''Hook rejected: '' @ r)"

datatype failure_mode = FailOpen | FailClosed

datatype hook_reply = Replied "(hook_error, hook_outcome) result" | Timed_out

record 'w hook =
  hk_name :: string
  hk_points :: "hook_point list"
  hk_failure_mode :: failure_mode
  hk_timeout :: duration
  hk_trusted_tools :: "string list"
  hk_execute :: "'w \<Rightarrow> hook_event \<Rightarrow> 'w \<times> hook_reply"

section \<open>The registry\<close>

record 'w hook_entry =
  he_hook :: "'w hook"
  he_priority :: nat

type_synonym 'w registry = "'w hook_entry list"

definition register_with_priority :: "'w hook \<Rightarrow> nat \<Rightarrow> 'w registry \<Rightarrow> 'w registry" where
  "register_with_priority h p hs = sort_key he_priority (hs @ [\<lparr>he_hook = h, he_priority = p\<rparr>])"

definition register_hook :: "'w hook \<Rightarrow> 'w registry \<Rightarrow> 'w registry" where
  "register_hook h hs = register_with_priority h 100 hs"

definition unregister :: "string \<Rightarrow> 'w registry \<Rightarrow> 'w registry \<times> bool" where
  "unregister name hs =
     (let hs' = filter (\<lambda>e. hk_name (he_hook e) \<noteq> name) hs in (hs', length hs' < length hs))"

definition list_hooks :: "'w registry \<Rightarrow> string list" where
  "list_hooks hs = map (\<lambda>e. hk_name (he_hook e)) hs"

definition trusted_tools :: "'w registry \<Rightarrow> string set" where
  "trusted_tools hs = set (concat (map (\<lambda>e. hk_trusted_tools (he_hook e)) hs))"

definition is_tool_trusted :: "string \<Rightarrow> 'w registry \<Rightarrow> bool" where
  "is_tool_trusted t hs = list_ex (\<lambda>e. list_ex (\<lambda>x. x = t) (hk_trusted_tools (he_hook e))) hs"

text \<open>One hook of the chain: the chain goes on with an event or stops with an error.\<close>

definition hook_step ::
  "(string \<Rightarrow> json option) \<Rightarrow> (hook_error \<Rightarrow> string) \<Rightarrow> 'w hook \<Rightarrow> 'w \<Rightarrow> hook_event
     \<Rightarrow> 'w \<times> (hook_error, hook_event) result" where
  "hook_step dec txt h w ev =
     (let (w', reply) = hk_execute h w ev in
      (w', case reply of
         Replied (Inr (Reject reason)) \<Rightarrow> Inl (Hook_rejected reason)
       | Replied (Inr (Continue (Some v))) \<Rightarrow> Inr (apply_modification dec v ev)
       | Replied (Inr (Continue None)) \<Rightarrow> Inr ev
       | Replied (Inl err) \<Rightarrow>
           (case hk_failure_mode h of
              FailOpen \<Rightarrow> Inr ev
            | FailClosed \<Rightarrow> Inl (Hook_failed (''Hook '' @ [CHR 0x27] @ hk_name h @ [CHR 0x27]
                                 @ '' failed: '' @ txt err)))
       | Timed_out \<Rightarrow>
           (case hk_failure_mode h of FailOpen \<Rightarrow> Inr ev | FailClosed \<Rightarrow> Inl (Hook_timeout (hk_timeout h)))))"

fun run_chain ::
  "(string \<Rightarrow> json option) \<Rightarrow> (hook_error \<Rightarrow> string) \<Rightarrow> 'w hook list \<Rightarrow> 'w \<Rightarrow> hook_event
     \<Rightarrow> 'w \<times> (hook_error, hook_event) result" where
  "run_chain dec txt [] w ev = (w, Inr ev)"
| "run_chain dec txt (h # hs) w ev =
     (case hook_step dec txt h w ev of
        (w', Inl e) \<Rightarrow> (w', Inl e)
      | (w', Inr ev') \<Rightarrow> run_chain dec txt hs w' ev')"

definition matching_hooks :: "hook_point \<Rightarrow> 'w registry \<Rightarrow> 'w hook list" where
  "matching_hooks p hs = map he_hook (filter (\<lambda>e. p \<in> set (hk_points (he_hook e))) hs)"

definition hooks_run ::
  "(string \<Rightarrow> json option) \<Rightarrow> (json \<Rightarrow> string) \<Rightarrow> (hook_error \<Rightarrow> string) \<Rightarrow> 'w registry \<Rightarrow> 'w \<Rightarrow> hook_event
     \<Rightarrow> 'w \<times> (hook_error, hook_outcome) result" where
  "hooks_run dec enc txt hs w ev =
     (let ms = matching_hooks (event_point ev) hs in
      if ms = [] then (w, Inr (Continue None))
      else case run_chain dec txt ms w ev of
        (w', Inl e) \<Rightarrow> (w', Inl e)
      | (w', Inr ev') \<Rightarrow>
         (w', Inr (if extract_content enc ev' \<noteq> extract_content enc ev
                   then Continue (Some (extract_content enc ev')) else Continue None)))"

section \<open>The hook of trusted tools\<close>

definition trusted_tools_hook :: "string list \<Rightarrow> 'w hook" where
  "trusted_tools_hook ts =
     \<lparr>hk_name = ''trusted_tools'', hk_points = [BeforeToolCall], hk_failure_mode = FailOpen,
      hk_timeout = 100, hk_trusted_tools = ts,
      hk_execute = (\<lambda>w ev. (w, Replied (Inr (Continue None))))\<rparr>"

definition memory_tools_hook :: "'w hook" where
  "memory_tools_hook =
     trusted_tools_hook [''memory_search'', ''memory_write'', ''memory_read'', ''memory_tree'']"

section \<open>Lemmas\<close>

text \<open>The registry is sorted by priority.\<close>

definition by_priority :: "'w registry \<Rightarrow> bool" where
  "by_priority hs \<longleftrightarrow> sorted (map he_priority hs)"

lemma register_by_priority [keeps]: "by_priority (register_with_priority h p hs)"
  by (simp add: by_priority_def register_with_priority_def)

lemma unregister_by_priority [keeps]: "by_priority hs \<Longrightarrow> by_priority (fst (unregister n hs))"
  by (simp add: by_priority_def unregister_def Let_def sorted_filter)

text \<open>Registering behind the hooks of its priority: the order is that of an insertion.\<close>

lemma sort_snoc:
  assumes "sorted (map f xs)"
  shows "sort_key f (xs @ [x]) = filter (\<lambda>y. f y \<le> f x) xs @ x # filter (\<lambda>y. \<not> f y \<le> f x) xs"
    (is "_ = ?ys")
proof (rule properties_for_sort_key)
  show "mset ?ys = mset (xs @ [x])"
    by (simp flip: mset_filter) (simp add: multiset_partition [symmetric] mset_filter)
  show "filter (\<lambda>y. f k = f y) ?ys = filter (\<lambda>y. f k = f y) (xs @ [x])" if "k \<in> set ?ys" for k
  proof (cases "f k \<le> f x")
    case True
    then have "filter (\<lambda>y. f k = f y \<and> \<not> f y \<le> f x) xs = []"
      "filter (\<lambda>y. f k = f y \<and> f y \<le> f x) xs = filter (\<lambda>y. f k = f y) xs"
      by (auto simp: filter_empty_conv intro: filter_cong)
    then show ?thesis by (simp add: conj_commute)
  next
    case False
    then have "filter (\<lambda>y. f k = f y \<and> f y \<le> f x) xs = []"
      "filter (\<lambda>y. f k = f y \<and> \<not> f y \<le> f x) xs = filter (\<lambda>y. f k = f y) xs" "f k \<noteq> f x"
      by (auto simp: filter_empty_conv intro: filter_cong)
    then show ?thesis by (simp add: conj_commute)
  qed
  show "sorted (map f ?ys)"
    using assms by (auto simp: sorted_append sorted_filter)
qed

text \<open>Registrations and removals as the steps of a transition system.\<close>

datatype 'w registry_op = Register "'w hook" nat | Unregister string

fun registry_step :: "'w registry \<Rightarrow> 'w registry_op \<Rightarrow> 'w registry" where
  "registry_step hs (Register h p) = register_with_priority h p hs"
| "registry_step hs (Unregister n) = fst (unregister n hs)"

lemma registry_step_inv: "by_priority hs \<Longrightarrow> by_priority (registry_step hs op)"
  by (cases op) (simp_all add: keeps)

interpretation registry: transition_system registry_step by_priority
  by unfold_locales (rule registry_step_inv)

lemma run_chain_append:
  "run_chain dec txt (hs @ hs') w ev =
     (case run_chain dec txt hs w ev of
        (w', Inl e) \<Rightarrow> (w', Inl e) | (w', Inr ev') \<Rightarrow> run_chain dec txt hs' w' ev')"
  by (induction hs arbitrary: w ev) (auto split: prod.splits sum.splits)

lemma apply_modification_point [simp]: "event_point (apply_modification dec m ev) = event_point ev"
  by (cases ev) auto

lemma hook_step_point: "hook_step dec txt h w ev = (w', Inr ev') \<Longrightarrow> event_point ev' = event_point ev"
  by (auto simp: hook_step_def split: prod.splits hook_reply.splits sum.splits hook_outcome.splits
      option.splits failure_mode.splits)

lemma run_chain_point:
  "run_chain dec txt hs w ev = (w', Inr ev') \<Longrightarrow> event_point ev' = event_point ev"
proof (induction hs arbitrary: w ev)
  case (Cons h hs)
  then show ?case by (auto split: prod.splits sum.splits dest: hook_step_point)
qed simp

text \<open>What a modification may touch of a tool call: the parameters, never the tool or the user.\<close>

lemma hook_step_tool:
  "hook_step dec txt h w (ToolCall n ps u ctx) = (w', Inr ev') \<Longrightarrow> \<exists>ps'. ev' = ToolCall n ps' u ctx"
  by (auto simp: hook_step_def split: prod.splits hook_reply.splits sum.splits hook_outcome.splits
      option.splits failure_mode.splits)

lemma run_chain_tool:
  "run_chain dec txt hs w (ToolCall n ps u ctx) = (w', Inr ev') \<Longrightarrow> \<exists>ps'. ev' = ToolCall n ps' u ctx"
proof (induction hs arbitrary: w ps)
  case (Cons h hs)
  then show ?case by (fastforce split: prod.splits sum.splits dest: hook_step_tool)
qed auto

lemma is_tool_trusted_iff: "is_tool_trusted t hs \<longleftrightarrow> t \<in> trusted_tools hs"
  by (auto simp: is_tool_trusted_def trusted_tools_def list_ex_iff)

lemma trusted_register:
  "trusted_tools (register_with_priority h p hs) = trusted_tools hs \<union> set (hk_trusted_tools h)"
  by (auto simp: trusted_tools_def register_with_priority_def)

section \<open>Properties\<close>

text \<open>Whatever sequence of registrations and removals built the registry, it is ordered by priority,
  and a new hook goes behind the hooks of its own priority and before the later ones.\<close>
theorem registration_order:
  "sorted (map he_priority (foldl registry_step [] ops))
   \<and> register_with_priority h p (foldl registry_step [] ops)
     = filter (\<lambda>e. he_priority e \<le> p) (foldl registry_step [] ops) @ \<lparr>he_hook = h, he_priority = p\<rparr>
       # filter (\<lambda>e. \<not> he_priority e \<le> p) (foldl registry_step [] ops)"
proof -
  have s: "by_priority (foldl registry_step [] ops)"
    by (rule registry.run_inv) (simp add: by_priority_def)
  then show ?thesis
    using sort_snoc [of he_priority "foldl registry_step [] ops" "\<lparr>he_hook = h, he_priority = p\<rparr>"]
    by (simp add: by_priority_def register_with_priority_def)
qed

text \<open>A refusal ends the chain: once a hook rejects, or fails closed, the run ends with its error in
  the world it left, and no hook behind it is consulted.\<close>
theorem refusal_stops_chain:
  assumes "matching_hooks (event_point ev) hs = before @ h # behind"
    and "run_chain dec txt before w ev = (w1, Inr ev1)"
    and "hk_execute h w1 ev1 = (w2, reply)"
    and "(\<exists>r. reply = Replied (Inr (Reject r)))
       \<or> hk_failure_mode h = FailClosed \<and> (reply = Timed_out \<or> (\<exists>e. reply = Replied (Inl e)))"
  shows "\<exists>e. hooks_run dec enc txt hs w ev = (w2, Inl e)"
proof -
  obtain e where "hook_step dec txt h w1 ev1 = (w2, Inl e)"
    using assms(3,4) by (auto simp: hook_step_def)
  then show ?thesis using assms(1,2) by (simp add: hooks_run_def run_chain_append)
qed

theorem refusal_stops_chain_witness:
  "\<exists>e. hooks_run (\<lambda>s. None) (\<lambda>j. []) (\<lambda>e. [])
     [\<lparr>he_hook = (trusted_tools_hook [] :: nat hook)\<lparr>hk_failure_mode := FailClosed,
         hk_execute := \<lambda>w ev. (w + 1, Timed_out)\<rparr>, he_priority = 1\<rparr>,
      \<lparr>he_hook = memory_tools_hook, he_priority = 2\<rparr>] 0 (ToolCall ''shell'' JNull ''u'' ''chat'') = (1, Inl e)"
  by (rule refusal_stops_chain [where before = "[]" and reply = Timed_out and w = 0 and ?w1.0 = 0
        and ?ev1.0 = "ToolCall ''shell'' JNull ''u'' ''chat''" and behind = "[memory_tools_hook]"
        and h = "(trusted_tools_hook [] :: nat hook)\<lparr>hk_failure_mode := FailClosed,
           hk_execute := \<lambda>w ev. (w + 1, Timed_out)\<rparr>"])
     (simp_all add: matching_hooks_def trusted_tools_hook_def memory_tools_hook_def)

text \<open>Trust only grows by registering: after any registrations exactly the tools that were trusted
  before, or that a registered hook vouches for, are trusted.\<close>
theorem trust_is_additive:
  "is_tool_trusted t (foldl registry_step hs (map (\<lambda>(h, p). Register h p) new))
     \<longleftrightarrow> is_tool_trusted t hs \<or> t \<in> set (concat (map (\<lambda>(h, p). hk_trusted_tools h) new))"
  by (induction new arbitrary: hs) (auto simp: is_tool_trusted_iff trusted_register)

end
