(* ===== verification/Text_Util.thy ===== *)
theory Text_Util
  imports Rust_Strings
begin

text \<open>
  The shared helpers of \<open>src/util.rs\<close>: cutting a text at a character boundary, and the phrases
  by which a model says that a job is done. A text is the list of its UTF-8 bytes here, so that
  positions are byte positions.
\<close>

section \<open>Cutting a text\<close>

text \<open>A position is a boundary unless a continuation byte (\<open>10xxxxxx\<close>) stands there.\<close>

definition is_char_boundary :: "string \<Rightarrow> nat \<Rightarrow> bool" where
  "is_char_boundary s i \<longleftrightarrow> i = 0 \<or> i = length s
     \<or> (i < length s \<and> (code_of (s ! i) < 128 \<or> 192 \<le> code_of (s ! i)))"

fun boundary_below :: "string \<Rightarrow> nat \<Rightarrow> nat" where
  "boundary_below s 0 = 0"
| "boundary_below s (Suc i) = (if is_char_boundary s (Suc i) then Suc i else boundary_below s i)"

definition floor_char_boundary :: "string \<Rightarrow> nat \<Rightarrow> nat" where
  "floor_char_boundary s pos = (if length s \<le> pos then length s else boundary_below s pos)"

lemma boundary_below_le [simp]: "boundary_below s i \<le> i"
  by (induction i) (auto intro: le_SucI)

lemma boundary_below_boundary: "is_char_boundary s (boundary_below s i)"
  by (induction i) (simp_all add: is_char_boundary_def)

lemma boundary_below_greatest: "j \<le> i \<Longrightarrow> is_char_boundary s j \<Longrightarrow> j \<le> boundary_below s i"
  by (induction i) (auto simp: le_Suc_eq)

lemma floor_char_boundary_le [simp]: "floor_char_boundary s pos \<le> length s"
  by (simp add: floor_char_boundary_def order.trans [OF boundary_below_le])

lemma floor_char_boundary_bound: "floor_char_boundary s pos \<le> pos"
  by (simp add: floor_char_boundary_def)

text \<open>The cut is the largest boundary at or before the position.\<close>
theorem floor_is_largest_boundary:
  "floor_char_boundary s pos = Max {i. i \<le> pos \<and> i \<le> length s \<and> is_char_boundary s i}"
proof -
  let ?B = "{i. i \<le> pos \<and> i \<le> length s \<and> is_char_boundary s i}"
  have "finite ?B" by (rule finite_subset [of _ "{..pos}"]) auto
  moreover have "floor_char_boundary s pos \<in> ?B"
    using boundary_below_boundary [of s pos] floor_char_boundary_bound [of s pos] floor_char_boundary_le [of s pos]
    by (auto simp: floor_char_boundary_def is_char_boundary_def)
  moreover have "j \<le> floor_char_boundary s pos" if "j \<in> ?B" for j
    using that boundary_below_greatest [of j pos s] by (auto simp: floor_char_boundary_def)
  ultimately show ?thesis by (metis (no_types, lifting) Max_eqI)
qed

text \<open>The text \<open>&s[..end]\<close> that is kept, shorter than the limit.\<close>

definition cut_text :: "nat \<Rightarrow> string \<Rightarrow> string" where
  "cut_text n s = take (floor_char_boundary s n) s"

lemma length_cut_text: "length (cut_text n s) \<le> n"
  using floor_char_boundary_bound [of s n] by (simp add: cut_text_def)

lemma cut_text_short [simp]: "length s \<le> n \<Longrightarrow> cut_text n s = s"
  by (simp add: cut_text_def floor_char_boundary_def)

section \<open>The completion of a job\<close>

definition positive_phrases :: "string list" where
  "positive_phrases = [''job is complete'', ''job is done'', ''job is finished'', ''task is complete'',
     ''task is done'', ''task is finished'', ''work is complete'', ''work is done'', ''work is finished'',
     ''successfully completed'', ''have completed the job'', ''have completed the task'',
     ''have finished the job'', ''have finished the task'', ''all steps are complete'',
     ''all steps are done'', ''i have completed'', ''i'' @ [CHR 0x27] @ ''ve completed'', ''all done'',
     ''all tasks complete'']"

definition negative_phrases :: "string list" where
  "negative_phrases = [''not complete'', ''not done'', ''not finished'', ''incomplete'', ''unfinished'',
     ''isn'' @ [CHR 0x27] @ ''t done'', ''isn'' @ [CHR 0x27] @ ''t complete'',
     ''isn'' @ [CHR 0x27] @ ''t finished'', ''not yet done'', ''not yet complete'', ''not yet finished'']"

definition llm_signals_completion :: "string \<Rightarrow> bool" where
  "llm_signals_completion response =
     (let lower = to_lower response
      in if list_ex (contains_str lower) negative_phrases then False
         else list_ex (contains_str lower) positive_phrases)"

lemma denial_outweighs: "p \<in> set negative_phrases \<Longrightarrow> contains_str (to_lower response) p \<Longrightarrow>
   \<not> llm_signals_completion response"
  by (auto simp: llm_signals_completion_def list_ex_iff Let_def)

end
