(* ===== verification/Dispatcher.thy ===== *)
theory Dispatcher
  imports Session Job_Manager Hooks Skills Safety_Layer Cost_Guard Text_Util
begin

text \<open>
  The tool loop of the agent, \<open>src/agent/dispatcher.rs\<close>: ask the model, check approval, run hooks
  and tools, feed framed results back, until a text, an approval request or a limit. What is outside
  (the model, the tools, the channels, clocks and identifiers) is the environment \<open>agent_env\<close>, whose
  functions read or change a world \<open>'w\<close>; the theorems hold for every environment. Texts are ASCII,
  the few other characters of the code are their UTF-8 bytes.
\<close>

section \<open>Tools, errors and status updates\<close>

record tool_info =
  ti_description :: string
  ti_requires_approval :: bool
  ti_requires_approval_for :: "json \<Rightarrow> bool"

text \<open>How an execution ends: a result, an error text, or the timeout of the tool.\<close>

datatype tool_outcome = Tool_done json | Tool_failed string | Tool_late duration

datatype tool_error =
    Tool_not_found string
  | Tool_execution_failed string string
  | Tool_timed_out string duration
  | Invalid_parameters string string
  | Tool_auth_required string

datatype agent_error = Llm_failure llm_error | Tool_failure tool_error | Job_failure job_error

datatype channel_status =
    St_thinking string
  | St_tool_started string
  | St_tool_completed string bool
  | St_tool_result string string
  | St_stream_chunk string
  | St_status string
  | St_job_started string string string
  | St_approval_needed string string string json
  | St_auth_required string "string option" "string option" "string option"
  | St_auth_completed string bool string
  | St_agent_status string nat nat

definition tool_error_text :: "(duration \<Rightarrow> string) \<Rightarrow> tool_error \<Rightarrow> string" where
  "tool_error_text show_duration e = (case e of
     Tool_not_found n \<Rightarrow> ''Tool '' @ n @ '' not found''
   | Tool_execution_failed n r \<Rightarrow> ''Tool '' @ n @ '' execution failed: '' @ r
   | Tool_timed_out n t \<Rightarrow> ''Tool '' @ n @ '' timed out after '' @ show_duration t
   | Invalid_parameters n r \<Rightarrow> ''Invalid parameters for tool '' @ n @ '': '' @ r
   | Tool_auth_required n \<Rightarrow> ''Tool '' @ n @ '' requires authentication'')"

section \<open>The environment and the state of a run\<close>

datatype respond_result = Respond_text string | Respond_tools "tool_call list" "string option"

record respond_output =
  ro_result :: respond_result
  ro_input_tokens :: "32 word"
  ro_output_tokens :: "32 word"

text \<open>
  \<open>ae_respond\<close> is the reasoning engine: it gets the system prompt, the skill context, the messages and
  the tool definitions. \<open>ae_show_limit\<close> and the \<open>ae_show\<close> fields print what the code prints with
  library formatting.
\<close>

record 'w agent_env =
  ae_hooks :: "'w registry"
  ae_safety :: safety_layer
  ae_ac :: "string list \<Rightarrow> string \<Rightarrow> (nat \<times> nat \<times> nat) list"
  ae_aci :: "string list \<Rightarrow> string \<Rightarrow> (nat \<times> nat \<times> nat) list"
  ae_re :: "string \<Rightarrow> string \<Rightarrow> (nat \<times> nat) list"
  ae_dec :: "string \<Rightarrow> json option"
  ae_enc :: "json \<Rightarrow> string"
  ae_pretty :: "json \<Rightarrow> string"
  ae_show_uuid :: "uuid \<Rightarrow> string"
  ae_show_duration :: "duration \<Rightarrow> string"
  ae_show_retry :: "duration option \<Rightarrow> string"
  ae_show_limit :: "cost_limit \<Rightarrow> string"
  ae_now :: "'w \<Rightarrow> instant"
  ae_day :: "'w \<Rightarrow> int"
  ae_fresh :: "'w \<Rightarrow> 'w \<times> uuid"
  ae_find_tool :: "'w \<Rightarrow> string \<Rightarrow> tool_info option"
  ae_tool_defs :: "'w \<Rightarrow> tool_definition list"
  ae_execute :: "'w \<Rightarrow> string \<Rightarrow> json \<Rightarrow> 'w \<times> tool_outcome"
  ae_respond :: "'w \<Rightarrow> string option \<Rightarrow> string option \<Rightarrow> chat_message list \<Rightarrow> tool_definition list
     \<Rightarrow> 'w \<times> (llm_error, respond_output) result"
  ae_model_name :: "'w \<Rightarrow> string"
  ae_workspace_prompt :: "'w \<Rightarrow> string option"
  ae_identity_block :: "string option"
  ae_cognitive_prefix :: "string \<Rightarrow> string option"
  ae_recall :: "'w \<Rightarrow> string \<Rightarrow> (string \<times> string) list option"
  ae_skills :: "loaded_skill list"
  ae_rx :: "string \<Rightarrow> string \<Rightarrow> bool"
  ae_max_active_skills :: nat
  ae_max_skill_tokens :: nat

definition agent_error_text :: "'w agent_env \<Rightarrow> agent_error \<Rightarrow> string" where
  "agent_error_text env e = (case e of
     Llm_failure l \<Rightarrow> ''LLM error: '' @ llm_error_text (ae_show_retry env) l
   | Tool_failure t \<Rightarrow> ''Tool error: '' @ tool_error_text (ae_show_duration env) t
   | Job_failure j \<Rightarrow> ''Job error: '' @ job_error_text (ae_show_uuid env) (ae_show_duration env) j)"

text \<open>
  What a run leaves behind besides its state: the tool lists shown to the model, the executions (with
  the parameters the approval check saw and those the tool got) and the status updates.
\<close>

datatype agent_event =
    Ev_model "tool_definition list"
  | Ev_executed string json json
  | Ev_status channel_status

record 'w loop_state =
  ls_world :: 'w
  ls_session :: session
  ls_guard :: cost_guard
  ls_context :: "chat_message list"
  ls_events :: "agent_event list"

datatype agentic_result = Loop_response string | Loop_need_approval pending_approval

definition log_event :: "agent_event \<Rightarrow> 'w loop_state \<Rightarrow> 'w loop_state" where
  "log_event e st = st\<lparr>ls_events := ls_events st @ [e]\<rparr>"

definition push_message :: "chat_message \<Rightarrow> 'w loop_state \<Rightarrow> 'w loop_state" where
  "push_message m st = st\<lparr>ls_context := ls_context st @ [m]\<rparr>"

text \<open>An update of the last turn of the thread, when there are both.\<close>

definition update_last_turn :: "uuid \<Rightarrow> (turn \<Rightarrow> turn) \<Rightarrow> 'w loop_state \<Rightarrow> 'w loop_state" where
  "update_last_turn tid f st =
     st\<lparr>ls_session := update_thread tid (\<lambda>th. th\<lparr>turns := map_last f (turns th)\<rparr>) (ls_session st)\<rparr>"

section \<open>One tool\<close>

definition execute_chat_tool ::
  "'w agent_env \<Rightarrow> string \<Rightarrow> json \<Rightarrow> json \<Rightarrow> 'w loop_state \<Rightarrow> 'w loop_state \<times> (tool_error, string) result" where
  "execute_chat_tool env name checked params st =
     (case ae_find_tool env (ls_world st) name of
        None \<Rightarrow> (st, Inl (Tool_not_found name))
      | Some tool \<Rightarrow>
         (let v = validate_tool_params (sl_validator (ae_safety env)) params in
          if \<not> vr_is_valid v then
            (st, Inl (Invalid_parameters name (''Invalid tool parameters: ''
               @ join ''; '' (map (\<lambda>e. ve_field e @ '': '' @ ve_message e) (vr_errors v)))))
          else
            (let (w', out) = ae_execute env (ls_world st) name params;
                 st' = log_event (Ev_executed name checked params) (st\<lparr>ls_world := w'\<rparr>)
             in (st', case out of
                   Tool_late t \<Rightarrow> Inl (Tool_timed_out name t)
                 | Tool_failed r \<Rightarrow> Inl (Tool_execution_failed name r)
                 | Tool_done j \<Rightarrow> Inr (ae_pretty env j)))))"

definition parse_auth_result ::
  "(string \<Rightarrow> json option) \<Rightarrow> (tool_error, string) result \<Rightarrow> string option \<times> string option" where
  "parse_auth_result dec r =
     (let parsed = (case r of Inr s \<Rightarrow> dec s | Inl _ \<Rightarrow> None);
          field = (\<lambda>k. Option.bind parsed (\<lambda>v. Option.bind (json_get v k) json_str))
      in (field ''auth_url'', field ''setup_url''))"

definition detect_auth_awaiting ::
  "(string \<Rightarrow> json option) \<Rightarrow> string \<Rightarrow> (tool_error, string) result \<Rightarrow> (string \<times> string) option" where
  "detect_auth_awaiting dec name r =
     (if name \<noteq> ''tool_auth'' \<and> name \<noteq> ''tool_activate'' then None
      else case r of
        Inl _ \<Rightarrow> None
      | Inr s \<Rightarrow>
         (case dec s of
            None \<Rightarrow> None
          | Some v \<Rightarrow>
             (if json_get v ''awaiting_token'' \<noteq> Some (JBool True) then None
              else case Option.bind (json_get v ''name'') json_str of
                None \<Rightarrow> None
              | Some n \<Rightarrow> Some (n, json_field v ''instructions'' ''Please provide your API token/key.''))))"

text \<open>The answer of a tool as the model gets it: sanitized and framed, or the error text.\<close>

definition result_content :: "'w agent_env \<Rightarrow> string \<Rightarrow> (tool_error, string) result \<Rightarrow> string" where
  "result_content env name r = (case r of
     Inr out \<Rightarrow>
       (let s = sanitize_tool_output (ae_ac env) (ae_aci env) (ae_re env) (ae_safety env) name out
        in wrap_for_llm name (so_content s) (so_was_modified s))
   | Inl e \<Rightarrow> ''Error: '' @ agent_error_text env (Tool_failure e))"

text \<open>The approval check of the dispatcher, on the parameters of the model.\<close>

definition auto_approved :: "'w agent_env \<Rightarrow> session \<Rightarrow> tool_info \<Rightarrow> string \<Rightarrow> json \<Rightarrow> bool" where
  "auto_approved env s tool name args \<longleftrightarrow>
     (is_tool_auto_approved name s \<or> is_tool_trusted name (ae_hooks env))
     \<and> \<not> ti_requires_approval_for tool args"

definition approval_missing :: "'w agent_env \<Rightarrow> 'w loop_state \<Rightarrow> tool_call \<Rightarrow> tool_info option" where
  "approval_missing env st tc =
     (case ae_find_tool env (ls_world st) (tc_name tc) of
        Some tool \<Rightarrow>
          (if ti_requires_approval tool \<and> \<not> auto_approved env (ls_session st) tool (tc_name tc) (tc_arguments tc)
           then Some tool else None)
      | None \<Rightarrow> None)"

definition hook_text :: "'w agent_env \<Rightarrow> hook_error \<Rightarrow> string" where
  "hook_text env = hook_error_text (ae_show_duration env)"

definition run_hooks ::
  "'w agent_env \<Rightarrow> hook_event \<Rightarrow> 'w \<Rightarrow> 'w \<times> (hook_error, hook_outcome) result" where
  "run_hooks env ev w = hooks_run (ae_dec env) (ae_enc env) (hook_text env) (ae_hooks env) w ev"

text \<open>The parameters after the hooks: a modification that is no JSON is ignored.\<close>

definition hooked_arguments :: "'w agent_env \<Rightarrow> json \<Rightarrow> hook_outcome \<Rightarrow> json" where
  "hooked_arguments env args out = (case out of
     Continue (Some p) \<Rightarrow> (case ae_dec env p of Some j \<Rightarrow> j | None \<Rightarrow> args)
   | _ \<Rightarrow> args)"

definition record_outcome ::
  "'w agent_env \<Rightarrow> uuid \<Rightarrow> (tool_error, string) result \<Rightarrow> 'w loop_state \<Rightarrow> 'w loop_state" where
  "record_outcome env tid r st = update_last_turn tid (case r of
     Inr out \<Rightarrow> record_tool_result (JStr out)
   | Inl e \<Rightarrow> record_tool_error (agent_error_text env (Tool_failure e))) st"

text \<open>The status updates, the execution and the record of its result.\<close>

definition perform_tool ::
  "'w agent_env \<Rightarrow> uuid \<Rightarrow> string \<Rightarrow> json \<Rightarrow> json \<Rightarrow> 'w loop_state
     \<Rightarrow> 'w loop_state \<times> (tool_error, string) result" where
  "perform_tool env tid name checked params st =
     (let (st1, r) = execute_chat_tool env name checked params (log_event (Ev_status (St_tool_started name)) st);
          st2 = log_event (Ev_status (St_tool_completed name (is_ok r))) st1;
          st3 = (case r of
                   Inr out \<Rightarrow> (if out \<noteq> [] then log_event (Ev_status (St_tool_result name out)) st2 else st2)
                 | Inl _ \<Rightarrow> st2)
      in (record_outcome env tid r st3, r))"

definition enter_auth ::
  "'w agent_env \<Rightarrow> uuid \<Rightarrow> string \<Rightarrow> string \<Rightarrow> (tool_error, string) result \<Rightarrow> (thread \<Rightarrow> thread)
     \<Rightarrow> 'w loop_state \<Rightarrow> 'w loop_state" where
  "enter_auth env tid ext instructions r also_do st =
     (let (auth_url, setup_url) = parse_auth_result (ae_dec env) r in
      log_event (Ev_status (St_auth_required ext (Some instructions) auth_url setup_url))
        (st\<lparr>ls_session := update_thread tid (\<lambda>th. also_do (enter_auth_mode (ae_now env (ls_world st)) ext th))
             (ls_session st)\<rparr>))"

definition run_tool_call ::
  "'w agent_env \<Rightarrow> string \<Rightarrow> uuid \<Rightarrow> tool_call \<Rightarrow> 'w loop_state \<Rightarrow> 'w loop_state \<times> agentic_result option" where
  "run_tool_call env user tid tc st =
     (case approval_missing env st tc of
        Some tool \<Rightarrow>
          (let (w', rid) = ae_fresh env (ls_world st) in
           (st\<lparr>ls_world := w'\<rparr>,
            Some (Loop_need_approval \<lparr>request_id = rid, pa_tool_name = tc_name tc, pa_parameters = tc_arguments tc,
              pa_description = ti_description tool, pa_tool_call_id = tc_id tc,
              pa_context_messages = ls_context st\<rparr>)))
      | None \<Rightarrow>
         (case run_hooks env (ToolCall (tc_name tc) (tc_arguments tc) user ''chat'') (ls_world st) of
            (w', Inl (Hook_rejected reason)) \<Rightarrow>
              (push_message (msg_tool_result (tc_id tc) (tc_name tc)
                 (''Tool call rejected by hook: '' @ reason)) (st\<lparr>ls_world := w'\<rparr>), None)
          | (w', Inl e) \<Rightarrow>
              (push_message (msg_tool_result (tc_id tc) (tc_name tc)
                 (''Tool call blocked by hook policy: '' @ hook_text env e)) (st\<lparr>ls_world := w'\<rparr>), None)
          | (w', Inr out) \<Rightarrow>
             (let (st1, r) = perform_tool env tid (tc_name tc) (tc_arguments tc)
                    (hooked_arguments env (tc_arguments tc) out) (st\<lparr>ls_world := w'\<rparr>)
              in case detect_auth_awaiting (ae_dec env) (tc_name tc) r of
                Some (ext, instructions) \<Rightarrow>
                  (enter_auth env tid ext instructions r id st1, Some (Loop_response instructions))
              | None \<Rightarrow>
                  (push_message (msg_tool_result (tc_id tc) (tc_name tc) (result_content env (tc_name tc) r)) st1,
                   None))))"

fun run_tool_calls ::
  "'w agent_env \<Rightarrow> string \<Rightarrow> uuid \<Rightarrow> tool_call list \<Rightarrow> 'w loop_state \<Rightarrow> 'w loop_state \<times> agentic_result option" where
  "run_tool_calls env user tid [] st = (st, None)"
| "run_tool_calls env user tid (tc # tcs) st =
     (case run_tool_call env user tid tc st of
        (st', Some res) \<Rightarrow> (st', Some res)
      | (st', None) \<Rightarrow> run_tool_calls env user tid tcs st')"

section \<open>The prompt\<close>

definition select_active_skills :: "'w agent_env \<Rightarrow> string \<Rightarrow> loaded_skill list" where
  "select_active_skills env msg =
     prefilter_skills (ae_rx env) msg (ae_skills env) (ae_max_active_skills env) (ae_max_skill_tokens env)"

definition RECALL_EXCERPT_MAX_CHARS :: nat where
  "RECALL_EXCERPT_MAX_CHARS = 600"

definition escape_memory_fences :: "string \<Rightarrow> string" where
  "escape_memory_fences s = escape_tags memory_tag s"

text \<open>One search result: its printed score and its content.\<close>

definition recalled_memory :: "string \<times> string \<Rightarrow> string" where
  "recalled_memory r = (case r of (score, txt) \<Rightarrow>
     [CHR 0x0A] @ ''<memory score='' @ [CHR 0x22] @ score @ [CHR 0x22] @ ''>'' @ [CHR 0x0A]
     @ escape_memory_fences (cut_text RECALL_EXCERPT_MAX_CHARS txt)
     @ (if floor_char_boundary txt RECALL_EXCERPT_MAX_CHARS < length txt then [CHR 0xE2, CHR 0x80, CHR 0xA6] else [])
     @ [CHR 0x0A] @ ''</memory>'' @ [CHR 0x0A])"

definition format_recalled_memories :: "(string \<times> string) list \<Rightarrow> string" where
  "format_recalled_memories rs =
     ''<recalled_memories>'' @ [CHR 0x0A]
     @ ''Memories recalled from your persistent workspace based on the current message. They may or may not be relevant ''
     @ [CHR 0xE2, CHR 0x80, CHR 0x94] @ '' use your judgment, and ignore anything that doesn'' @ [CHR 0x27]
     @ ''t apply.'' @ [CHR 0x0A] @ concat (map recalled_memory rs) @ ''</recalled_memories>''"

definition non_empty :: "string option \<Rightarrow> string list" where
  "non_empty p = (case p of Some s \<Rightarrow> (if s = [] then [] else [s]) | None \<Rightarrow> [])"

definition system_prompt :: "'w agent_env \<Rightarrow> 'w \<Rightarrow> string \<Rightarrow> string option" where
  "system_prompt env w msg =
     (let parts = non_empty (ae_identity_block env) @ non_empty (ae_cognitive_prefix env msg)
        @ (case ae_recall env w msg of
             Some rs \<Rightarrow> (if rs = [] then [] else [format_recalled_memories rs]) | None \<Rightarrow> [])
        @ non_empty (ae_workspace_prompt env w)
      in if parts = [] then None
         else Some (join ([CHR 0x0A, CHR 0x0A] @ ''---'' @ [CHR 0x0A, CHR 0x0A]) parts))"

section \<open>The loop\<close>

definition MAX_TOOL_ITERATIONS :: nat where
  "MAX_TOOL_ITERATIONS = 10"

definition agent_refusal :: "string \<Rightarrow> agent_error" where
  "agent_refusal reason = Llm_failure (InvalidResponse ''agent'' reason)"

definition is_interrupted :: "uuid \<Rightarrow> session \<Rightarrow> bool" where
  "is_interrupted tid s = (case map_of (threads s) tid of
     Some th \<Rightarrow> thread_state th = Interrupted | None \<Rightarrow> False)"

text \<open>What the model is offered: all tools of the moment, attenuated by the active skills.\<close>

definition offered_tools :: "'w agent_env \<Rightarrow> 'w \<Rightarrow> loaded_skill list \<Rightarrow> tool_definition list" where
  "offered_tools env w active =
     (if active = [] then ae_tool_defs env w else at_tools (attenuate_tools (ae_tool_defs env w) active))"

text \<open>The record of the calls of a reply in the last turn, and their status update.\<close>

definition record_calls :: "uuid \<Rightarrow> tool_call list \<Rightarrow> 'w loop_state \<Rightarrow> 'w loop_state" where
  "record_calls tid tcs st = update_last_turn tid
     (\<lambda>t. foldl (\<lambda>t tc. record_tool_call (tc_name tc) (tc_arguments tc) t) t tcs) st"

definition record_usage :: "'w agent_env \<Rightarrow> respond_output \<Rightarrow> 'w loop_state \<Rightarrow> 'w loop_state" where
  "record_usage env out st =
     st\<lparr>ls_guard := fst (record_llm_call (ae_day env (ls_world st)) (ae_now env (ls_world st))
          (ae_model_name env (ls_world st)) (ro_input_tokens out) (ro_output_tokens out) (ls_guard st))\<rparr>"

text \<open>One round: it ends the loop with a result, or goes on, with or without tools executed so far.\<close>

datatype round_end = Ends "(agent_error, agentic_result) result" | Goes_on bool

definition handle_reply ::
  "'w agent_env \<Rightarrow> string \<Rightarrow> uuid \<Rightarrow> nat \<Rightarrow> bool \<Rightarrow> respond_result \<Rightarrow> 'w loop_state \<Rightarrow> 'w loop_state \<times> round_end" where
  "handle_reply env user tid it executed reply st =
     (case reply of
        Respond_text txt \<Rightarrow>
          (if \<not> executed \<and> it < 3 then
             (push_message (msg_user ''Please proceed and use the available tools to complete this task.'')
                (push_message (msg_assistant txt) st), Goes_on executed)
           else (st, Ends (Inr (Loop_response txt))))
      | Respond_tools tcs said \<Rightarrow>
          (let st1 = record_calls tid tcs (log_event (Ev_status (St_thinking
                  (''Executing '' @ show_nat (length tcs) @ '' tool(s)...'')))
                  (push_message (msg_assistant_with_tool_calls said tcs) st))
           in case run_tool_calls env user tid tcs st1 of
                (st2, Some res) \<Rightarrow> (st2, Ends (Inr res))
              | (st2, None) \<Rightarrow> (st2, Goes_on True)))"

definition loop_round ::
  "'w agent_env \<Rightarrow> string \<Rightarrow> uuid \<Rightarrow> loaded_skill list \<Rightarrow> string option \<Rightarrow> nat \<Rightarrow> bool \<Rightarrow> 'w loop_state
     \<Rightarrow> 'w loop_state \<times> round_end" where
  "loop_round env user tid active prompt it executed st =
     (if is_interrupted tid (ls_session st) then (st, Ends (Inl (Job_failure (Job_ContextError tid ''Interrupted''))))
      else case cost_check_allowed (ae_now env (ls_world st)) (ls_guard st) of
        (g, Inl limit) \<Rightarrow> (st\<lparr>ls_guard := g\<rparr>, Ends (Inl (agent_refusal (ae_show_limit env limit))))
      | (g, Inr _) \<Rightarrow>
         (let tools = offered_tools env (ls_world st) active;
              (w', reply) = ae_respond env (ls_world st) prompt (skill_context active) (ls_context st) tools;
              st1 = log_event (Ev_model tools) (st\<lparr>ls_world := w', ls_guard := g\<rparr>)
          in case reply of
            Inl e \<Rightarrow> (st1, Ends (Inl (Llm_failure e)))
          | Inr out \<Rightarrow> handle_reply env user tid it executed (ro_result out) (record_usage env out st1)))"

text \<open>The loop counts its rounds and gives up behind the last one.\<close>

function agentic_loop ::
  "'w agent_env \<Rightarrow> string \<Rightarrow> uuid \<Rightarrow> loaded_skill list \<Rightarrow> string option \<Rightarrow> nat \<Rightarrow> bool \<Rightarrow> 'w loop_state
     \<Rightarrow> 'w loop_state \<times> (agent_error, agentic_result) result" where
  "agentic_loop env user tid active prompt iteration executed st =
     (if iteration + 1 > MAX_TOOL_ITERATIONS then
        (st, Inl (agent_refusal (''Exceeded maximum tool iterations ('' @ show_nat MAX_TOOL_ITERATIONS @ '')'')))
      else case loop_round env user tid active prompt (iteration + 1) executed st of
        (st', Ends res) \<Rightarrow> (st', res)
      | (st', Goes_on executed') \<Rightarrow> agentic_loop env user tid active prompt (iteration + 1) executed' st')"
  by pat_completeness auto
termination
  by (relation "measure (\<lambda>(env, user, tid, active, prompt, iteration, executed, st). MAX_TOOL_ITERATIONS - iteration)")
     (auto simp: MAX_TOOL_ITERATIONS_def)

declare agentic_loop.simps [simp del]

definition run_agentic_loop ::
  "'w agent_env \<Rightarrow> string \<Rightarrow> string \<Rightarrow> uuid \<Rightarrow> bool \<Rightarrow> 'w loop_state
     \<Rightarrow> 'w loop_state \<times> (agent_error, agentic_result) result" where
  "run_agentic_loop env user msg tid resume_after_tool st =
     agentic_loop env user tid (select_active_skills env msg) (system_prompt env (ls_world st) msg) 0
       resume_after_tool st"

section \<open>What a run may change\<close>

text \<open>
  An execution is vouched for when the tool exists and needs no approval, or the session or a hook
  approved it and the parameters of the model call for no explicit approval.
\<close>

definition vouched :: "'w agent_env \<Rightarrow> (string \<Rightarrow> tool_info option) \<Rightarrow> string set \<Rightarrow> agent_event \<Rightarrow> bool" where
  "vouched env tools approved e = (case e of
     Ev_executed n checked params \<Rightarrow>
       (case tools n of
          Some tool \<Rightarrow> ti_requires_approval tool \<longrightarrow>
            (n \<in> approved \<or> is_tool_trusted n (ae_hooks env)) \<and> \<not> ti_requires_approval_for tool checked
        | None \<Rightarrow> False)
   | _ \<Rightarrow> True)"

text \<open>A run step adds events that satisfy a predicate and leaves the approvals of the session alone.\<close>

definition extends :: "(agent_event \<Rightarrow> bool) \<Rightarrow> 'w loop_state \<Rightarrow> 'w loop_state \<Rightarrow> bool" where
  "extends P st st' \<longleftrightarrow> auto_approved_tools (ls_session st') = auto_approved_tools (ls_session st)
     \<and> (\<exists>new. ls_events st' = ls_events st @ new \<and> list_all P new)"

lemma extends_refl [simp]: "extends P st st"
  by (simp add: extends_def)

lemma extends_trans: "extends P a b \<Longrightarrow> extends P b c \<Longrightarrow> extends P a c"
  by (force simp: extends_def)

lemma extends_log: "P e \<Longrightarrow> extends P st (log_event e st)"
  by (simp add: extends_def log_event_def)

lemma extends_world [simp]: "extends P st (st\<lparr>ls_world := w\<rparr>)"
  by (simp add: extends_def)

lemma extends_guard [simp]: "extends P st (st\<lparr>ls_guard := g\<rparr>)"
  by (simp add: extends_def)

lemma extends_push [simp]: "extends P st (push_message m st)"
  by (simp add: extends_def push_message_def)

lemma update_thread_approved [simp]: "auto_approved_tools (update_thread tid f s) = auto_approved_tools s"
  by (simp add: update_thread_def split: option.splits)

lemma extends_turn [simp]: "extends P st (update_last_turn tid f st)"
  by (simp add: extends_def update_last_turn_def)

lemma extends_calls [simp]: "extends P st (record_calls tid tcs st)"
  by (simp add: record_calls_def)

lemma extends_usage [simp]: "extends P st (record_usage env out st)"
  by (simp add: record_usage_def)

lemma extends_outcome [simp]: "extends P st (record_outcome env tid r st)"
  by (simp add: record_outcome_def)

lemma extends_auth:
  "(\<And>u. P (Ev_status u)) \<Longrightarrow> extends P st (enter_auth env tid ext ins r f st)"
  by (auto simp: extends_def enter_auth_def log_event_def split: prod.splits)

text \<open>Predicates that all status updates satisfy.\<close>

lemma extends_execute:
  assumes "\<And>w' out. ae_find_tool env (ls_world st) name \<noteq> None \<Longrightarrow> P (Ev_executed name checked params)"
  shows "extends P st (fst (execute_chat_tool env name checked params st))"
proof (cases "ae_find_tool env (ls_world st) name")
  case (Some tool)
  obtain w' out where e: "ae_execute env (ls_world st) name params = (w', out)"
    by (cases "ae_execute env (ls_world st) name params")
  have "extends P st (log_event (Ev_executed name checked params) (st\<lparr>ls_world := w'\<rparr>))"
    using assms Some by (intro extends_trans [OF extends_world extends_log]) simp
  with Some e show ?thesis by (simp add: execute_chat_tool_def Let_def)
qed (simp add: execute_chat_tool_def)

lemma extends_perform:
  assumes "\<And>u. P (Ev_status u)" "\<And>w. ae_find_tool env (ls_world st) name \<noteq> None \<Longrightarrow> P (Ev_executed name checked params)"
  shows "extends P st (fst (perform_tool env tid name checked params st))"
proof -
  let ?s0 = "log_event (Ev_status (St_tool_started name)) st"
  obtain s1 r where e: "execute_chat_tool env name checked params ?s0 = (s1, r)"
    by (cases "execute_chat_tool env name checked params ?s0")
  have "extends P ?s0 s1"
    using extends_execute [of env ?s0 name P checked params] assms(2) e by (simp add: log_event_def)
  then have s1: "extends P st s1" by (rule extends_trans [OF extends_log [of P, OF assms(1)]])
  have s2: "extends P st (log_event (Ev_status (St_tool_completed name (is_ok r))) s1)"
    by (rule extends_trans [OF s1 extends_log [of P, OF assms(1)]])
  have "extends P st (log_event (Ev_status (St_tool_result name out))
      (log_event (Ev_status (St_tool_completed name (is_ok r))) s1))" for out
    by (rule extends_trans [OF s2 extends_log [of P, OF assms(1)]])
  then have "extends P st (case r of Inr out \<Rightarrow> (if out \<noteq> []
        then log_event (Ev_status (St_tool_result name out)) (log_event (Ev_status (St_tool_completed name (is_ok r))) s1)
        else log_event (Ev_status (St_tool_completed name (is_ok r))) s1)
      | Inl _ \<Rightarrow> log_event (Ev_status (St_tool_completed name (is_ok r))) s1)" (is "extends P st ?s3")
    using s2 by (cases r) simp_all
  then have "extends P st (record_outcome env tid r ?s3)" by (rule extends_trans) simp
  then show ?thesis by (simp only: perform_tool_def e Let_def prod.case fst_conv)
qed

text \<open>One tool call, for a predicate of all status updates and of every execution it makes.\<close>

lemma extends_tool_call:
  assumes "\<And>u. P (Ev_status u)"
    and "\<And>w params. approval_missing env st tc = None \<Longrightarrow> ae_find_tool env w (tc_name tc) \<noteq> None \<Longrightarrow>
      P (Ev_executed (tc_name tc) (tc_arguments tc) params)"
  shows "extends P st (fst (run_tool_call env user tid tc st))"
proof (cases "approval_missing env st tc")
  case None
  obtain w' res where h: "run_hooks env (ToolCall (tc_name tc) (tc_arguments tc) user ''chat'') (ls_world st) = (w', res)"
    by (cases "run_hooks env (ToolCall (tc_name tc) (tc_arguments tc) user ''chat'') (ls_world st)")
  let ?s = "st\<lparr>ls_world := w'\<rparr>"
  show ?thesis
  proof (cases res)
    case (Inl e)
    have p: "extends P st (push_message m ?s)" for m
      by (rule extends_trans [OF extends_world extends_push])
    show ?thesis using None h Inl p by (cases e) (simp_all add: run_tool_call_def)
  next
    case (Inr out)
    let ?args = "hooked_arguments env (tc_arguments tc) out"
    obtain s1 r where e: "perform_tool env tid (tc_name tc) (tc_arguments tc) ?args ?s = (s1, r)"
      by (cases "perform_tool env tid (tc_name tc) (tc_arguments tc) ?args ?s")
    have "extends P ?s s1"
      using extends_perform [of P env ?s "tc_name tc" "tc_arguments tc" ?args tid] assms None e by simp
    then have s1: "extends P st s1" by (rule extends_trans [OF extends_world])
    have "extends P st (push_message m s1)" for m by (rule extends_trans [OF s1 extends_push])
    moreover have "extends P st (enter_auth env tid ext ins r f s1)" for ext ins f
      by (rule extends_trans [OF s1 extends_auth]) (rule assms(1))
    ultimately show ?thesis using None h Inr e
      by (simp add: run_tool_call_def Let_def split: option.split)
  qed
next
  case (Some tool)
  then show ?thesis by (simp add: run_tool_call_def split: prod.split)
qed

lemma extends_approved: "extends P st st' \<Longrightarrow> auto_approved_tools (ls_session st') = auto_approved_tools (ls_session st)"
  by (simp add: extends_def)

text \<open>What an execution may count on: the call was not in need of approval under the session's approvals.\<close>

definition allowed_call :: "(agent_event \<Rightarrow> bool) \<Rightarrow> 'w agent_env \<Rightarrow> string set \<Rightarrow> bool" where
  "allowed_call P env A \<longleftrightarrow> (\<forall>u. P (Ev_status u))
     \<and> (\<forall>st tc params w. auto_approved_tools (ls_session st) = A \<longrightarrow> approval_missing env st tc = None
          \<longrightarrow> ae_find_tool env w (tc_name tc) \<noteq> None \<longrightarrow> P (Ev_executed (tc_name tc) (tc_arguments tc) params))"

lemma extends_tool_calls:
  "allowed_call P env (auto_approved_tools (ls_session st)) \<Longrightarrow> extends P st (fst (run_tool_calls env user tid tcs st))"
proof (induction tcs arbitrary: st)
  case (Cons tc tcs)
  obtain st' r where e: "run_tool_call env user tid tc st = (st', r)"
    by (cases "run_tool_call env user tid tc st")
  have "extends P st (fst (run_tool_call env user tid tc st))"
    by (rule extends_tool_call) (use Cons.prems in \<open>unfold allowed_call_def, blast+\<close>)
  then have st': "extends P st st'" using e by simp
  with Cons.IH [of st'] Cons.prems have "extends P st' (fst (run_tool_calls env user tid tcs st'))"
    by (simp add: extends_approved)
  with st' have "extends P st (fst (run_tool_calls env user tid tcs st'))" by (rule extends_trans)
  with st' e show ?case by (cases r) simp_all
qed simp

lemma extends_reply:
  assumes "allowed_call P env (auto_approved_tools (ls_session st))"
  shows "extends P st (fst (handle_reply env user tid it executed reply st))"
proof (cases reply)
  case (Respond_text t)
  have "extends P st (push_message m (push_message m' st))" for m m'
    by (rule extends_trans [OF extends_push extends_push])
  with Respond_text show ?thesis by (simp add: handle_reply_def)
next
  case (Respond_tools tcs said)
  let ?st1 = "record_calls tid tcs (log_event (Ev_status (St_thinking
      (''Executing '' @ show_nat (length tcs) @ '' tool(s)...'')))
      (push_message (msg_assistant_with_tool_calls said tcs) st))"
  have "P (Ev_status u)" for u using assms by (simp add: allowed_call_def)
  then have "extends P m (record_calls tid tcs (log_event (Ev_status u) m))" for m :: "'a loop_state" and u
    by (rule extends_trans [OF extends_log extends_calls])
  then have s1: "extends P st ?st1" by (rule extends_trans [OF extends_push])
  obtain st2 r where e: "run_tool_calls env user tid tcs ?st1 = (st2, r)"
    by (cases "run_tool_calls env user tid tcs ?st1")
  have "extends P ?st1 (fst (run_tool_calls env user tid tcs ?st1))"
    using assms extends_approved [OF s1] by (intro extends_tool_calls) simp
  with s1 have "extends P st st2" unfolding e fst_conv by (rule extends_trans)
  with Respond_tools e show ?thesis by (cases r) (simp_all add: handle_reply_def Let_def)
qed

text \<open>A round is refused before the model is asked, or asks the model once and handles its reply.\<close>

lemma loop_round_cases [consumes 1, case_names refused asked]:
  assumes r: "loop_round env user tid active prompt it executed st = (st', e)"
  obtains (refused) g err where "st' = st\<lparr>ls_guard := g\<rparr>" "e = Ends (Inl err)"
  | (asked) w' g reply st1 where
      "st1 = log_event (Ev_model (offered_tools env (ls_world st) active)) (st\<lparr>ls_world := w', ls_guard := g\<rparr>)"
      "ae_respond env (ls_world st) prompt (skill_context active) (ls_context st)
         (offered_tools env (ls_world st) active) = (w', reply)"
      "case reply of Inl x \<Rightarrow> st' = st1 \<and> e = Ends (Inl (Llm_failure x))
         | Inr out \<Rightarrow> handle_reply env user tid it executed (ro_result out) (record_usage env out st1) = (st', e)"
proof -
  obtain g c where g: "cost_check_allowed (ae_now env (ls_world st)) (ls_guard st) = (g, c)"
    by (cases "cost_check_allowed (ae_now env (ls_world st)) (ls_guard st)")
  let ?tools = "offered_tools env (ls_world st) active"
  obtain w' reply where w: "ae_respond env (ls_world st) prompt (skill_context active) (ls_context st) ?tools = (w', reply)"
    by (cases "ae_respond env (ls_world st) prompt (skill_context active) (ls_context st) ?tools")
  show ?thesis
  proof (cases "is_interrupted tid (ls_session st)")
    case True
    then have "st' = st\<lparr>ls_guard := ls_guard st\<rparr>" "e = Ends (Inl (Job_failure (Job_ContextError tid ''Interrupted'')))"
      using r by (simp_all add: loop_round_def)
    then show ?thesis by (rule refused)
  next
    case False
    show ?thesis
    proof (cases c)
      case (Inl l)
      with False r g refused show ?thesis by (auto simp: loop_round_def)
    next
      case (Inr u)
      let ?st1 = "log_event (Ev_model ?tools) (st\<lparr>ls_world := w', ls_guard := g\<rparr>)"
      have "case reply of Inl x \<Rightarrow> st' = ?st1 \<and> e = Ends (Inl (Llm_failure x))
         | Inr out \<Rightarrow> handle_reply env user tid it executed (ro_result out) (record_usage env out ?st1) = (st', e)"
        using False r g w Inr by (cases reply) (auto simp: loop_round_def)
      with w asked show ?thesis by blast
    qed
  qed
qed

lemma extends_round:
  assumes "allowed_call P env (auto_approved_tools (ls_session st))" "\<And>ts. P (Ev_model ts)"
  shows "extends P st (fst (loop_round env user tid active prompt it executed st))"
proof -
  obtain st' e where r: "loop_round env user tid active prompt it executed st = (st', e)"
    by (cases "loop_round env user tid active prompt it executed st")
  from r have "extends P st st'"
  proof (cases rule: loop_round_cases)
    case (asked w' g reply st1)
    have "extends P st (st\<lparr>ls_world := w', ls_guard := g\<rparr>)" by (simp add: extends_def)
    then have s1: "extends P st st1" unfolding asked(1) by (rule extends_trans) (rule extends_log, rule assms(2))
    show ?thesis
    proof (cases reply)
      case (Inr out)
      let ?s2 = "record_usage env out st1"
      have s2: "extends P st ?s2" by (rule extends_trans [OF s1 extends_usage])
      have "extends P ?s2 (fst (handle_reply env user tid it executed (ro_result out) ?s2))"
        using assms(1) extends_approved [OF s2] by (intro extends_reply) simp
      with asked(3) Inr have "extends P ?s2 st'" by simp
      with s2 show ?thesis by (rule extends_trans)
    qed (use asked(3) s1 in simp)
  qed simp
  with r show ?thesis by simp
qed

lemma extends_loop:
  assumes "allowed_call P env (auto_approved_tools (ls_session st))" "\<And>ts. P (Ev_model ts)"
  shows "extends P st (fst (agentic_loop env user tid active prompt iteration executed st))"
  using assms
proof (induction env user tid active prompt iteration executed st rule: agentic_loop.induct)
  case (1 env user tid active prompt iteration executed st)
  obtain st' e where r: "loop_round env user tid active prompt (iteration + 1) executed st = (st', e)"
    by (cases "loop_round env user tid active prompt (iteration + 1) executed st")
  have st': "extends P st st'" using extends_round [OF 1(2,3)] r by (metis fst_conv)
  show ?case
  proof (cases "iteration + 1 > MAX_TOOL_ITERATIONS")
    case True
    then show ?thesis by (subst agentic_loop.simps) simp
  next
    case False
    show ?thesis
    proof (cases e)
      case (Ends res)
      with False r st' show ?thesis by (subst agentic_loop.simps) simp
    next
      case (Goes_on ex)
      have "extends P st' (fst (agentic_loop env user tid active prompt (iteration + 1) ex st'))"
        using 1(1) [OF False r [symmetric] Goes_on] 1(2,3) extends_approved [OF st'] by simp
      with st' have "extends P st (fst (agentic_loop env user tid active prompt (iteration + 1) ex st'))"
        by (rule extends_trans)
      with False r Goes_on show ?thesis by (subst agentic_loop.simps) simp
    qed
  qed
qed

text \<open>The number of model calls.\<close>

definition is_model :: "agent_event \<Rightarrow> bool" where
  "is_model e = (case e of Ev_model _ \<Rightarrow> True | _ \<Rightarrow> False)"

definition model_calls :: "'w loop_state \<Rightarrow> nat" where
  "model_calls st = length (filter is_model (ls_events st))"

lemma extends_no_model: "extends (\<lambda>e. \<not> is_model e) st st' \<Longrightarrow> model_calls st' = model_calls st"
  by (force simp: extends_def model_calls_def list_all_iff)

lemma no_model_allowed: "allowed_call (\<lambda>e. \<not> is_model e) env A"
  by (simp add: allowed_call_def is_model_def)

lemma round_model_calls:
  assumes r: "loop_round env user tid active prompt it executed st = (st', e)"
  shows "model_calls st' \<le> model_calls st + 1"
  using r
proof (cases rule: loop_round_cases)
  case (asked w' g reply st1)
  have s1: "model_calls st1 = model_calls st + 1"
    by (simp add: asked(1) model_calls_def log_event_def is_model_def)
  show ?thesis
  proof (cases reply)
    case (Inr out)
    have "extends (\<lambda>e. \<not> is_model e) (record_usage env out st1)
        (fst (handle_reply env user tid it executed (ro_result out) (record_usage env out st1)))"
      by (rule extends_reply [OF no_model_allowed])
    then have "extends (\<lambda>e. \<not> is_model e) st1 st'"
      using asked(3) Inr by (auto intro: extends_trans [OF extends_usage])
    with s1 show ?thesis by (simp add: extends_no_model)
  qed (use asked(3) s1 in simp)
qed (simp add: model_calls_def)

lemma loop_model_calls:
  "iteration \<le> MAX_TOOL_ITERATIONS \<Longrightarrow>
   model_calls (fst (agentic_loop env user tid active prompt iteration executed st)) + iteration
     \<le> model_calls st + MAX_TOOL_ITERATIONS"
proof (induction env user tid active prompt iteration executed st rule: agentic_loop.induct)
  case (1 env user tid active prompt iteration executed st)
  obtain st' e where r: "loop_round env user tid active prompt (iteration + 1) executed st = (st', e)"
    by (cases "loop_round env user tid active prompt (iteration + 1) executed st")
  have m: "model_calls st' \<le> model_calls st + 1" by (rule round_model_calls [OF r])
  show ?case
  proof (cases "iteration + 1 > MAX_TOOL_ITERATIONS")
    case True
    with 1(2) show ?thesis by (subst agentic_loop.simps) simp
  next
    case False
    show ?thesis
    proof (cases e)
      case (Ends res)
      with False r m show ?thesis by (subst agentic_loop.simps) simp
    next
      case (Goes_on ex)
      have "model_calls (fst (agentic_loop env user tid active prompt (iteration + 1) ex st')) + (iteration + 1)
          \<le> model_calls st' + MAX_TOOL_ITERATIONS"
        using 1(1) [OF False r [symmetric] Goes_on] False by simp
      with m have "model_calls (fst (agentic_loop env user tid active prompt (iteration + 1) ex st')) + iteration
          \<le> model_calls st + MAX_TOOL_ITERATIONS" by linarith
      with False r Goes_on show ?thesis by (subst agentic_loop.simps) simp
    qed
  qed
qed

section \<open>Answers to calls\<close>

lemma context_simps [simp]:
  "ls_context (log_event e st) = ls_context st"
  "ls_context (push_message m st) = ls_context st @ [m]"
  "ls_context (update_last_turn tid f st) = ls_context st"
  "ls_context (record_outcome env tid r st) = ls_context st"
  by (simp_all add: log_event_def push_message_def update_last_turn_def record_outcome_def)

lemma execute_context [simp]: "ls_context (fst (execute_chat_tool env n c p st)) = ls_context st"
  by (simp add: execute_chat_tool_def Let_def split: option.split prod.split)

lemma perform_context: "perform_tool env tid n c p st = (st', r) \<Longrightarrow> ls_context st' = ls_context st"
proof -
  assume a: "perform_tool env tid n c p st = (st', r)"
  let ?s0 = "log_event (Ev_status (St_tool_started n)) st"
  obtain s1 r1 where e: "execute_chat_tool env n c p ?s0 = (s1, r1)"
    by (cases "execute_chat_tool env n c p ?s0")
  have "ls_context (fst (execute_chat_tool env n c p ?s0)) = ls_context ?s0" by (rule execute_context)
  then have "ls_context s1 = ls_context st" unfolding e by simp
  with a e show ?thesis by (cases r1) (auto simp: perform_tool_def Let_def split: if_splits)
qed

text \<open>The message that answers a tool call.\<close>

definition answers_call :: "'w agent_env \<Rightarrow> tool_call \<Rightarrow> chat_message \<Rightarrow> bool" where
  "answers_call env tc m \<longleftrightarrow>
     (\<exists>txt. m = msg_tool_result (tc_id tc) (tc_name tc) txt
       \<and> ((\<exists>c b. txt = wrap_for_llm (tc_name tc) c b)
          \<or> starts_with txt ''Error: '' \<or> starts_with txt ''Tool call ''))"

lemma answers_notice:
  "starts_with txt ''Tool call '' \<or> starts_with txt ''Error: '' \<Longrightarrow>
   answers_call env tc (msg_tool_result (tc_id tc) (tc_name tc) txt)"
  by (auto simp: answers_call_def)

lemma result_content_form:
  "(\<exists>c b. result_content env n r = wrap_for_llm n c b) \<or> starts_with (result_content env n r) ''Error: ''"
  by (cases r) (auto simp: result_content_def Let_def)

lemma run_tool_call_answers:
  assumes "run_tool_call env user tid tc st = (st', None)"
  shows "\<exists>m. ls_context st' = ls_context st @ [m] \<and> answers_call env tc m"
proof -
  have a: "approval_missing env st tc = None"
    using assms by (auto simp: run_tool_call_def split: option.splits prod.splits)
  obtain w' res where h: "run_hooks env (ToolCall (tc_name tc) (tc_arguments tc) user ''chat'') (ls_world st) = (w', res)"
    by (cases "run_hooks env (ToolCall (tc_name tc) (tc_arguments tc) user ''chat'') (ls_world st)")
  show ?thesis
  proof (cases res)
    case (Inl e)
    obtain t where t: "st' = push_message (msg_tool_result (tc_id tc) (tc_name tc) t) (st\<lparr>ls_world := w'\<rparr>)"
        "starts_with t ''Tool call ''"
      using assms a h Inl by (cases e) (auto simp: run_tool_call_def)
    then show ?thesis using answers_notice [of t env tc] by simp
  next
    case (Inr out)
    let ?args = "hooked_arguments env (tc_arguments tc) out"
    obtain s1 r where e: "perform_tool env tid (tc_name tc) (tc_arguments tc) ?args (st\<lparr>ls_world := w'\<rparr>) = (s1, r)"
      by (cases "perform_tool env tid (tc_name tc) (tc_arguments tc) ?args (st\<lparr>ls_world := w'\<rparr>)")
    from assms a h Inr e have
      "st' = push_message (msg_tool_result (tc_id tc) (tc_name tc) (result_content env (tc_name tc) r)) s1"
      by (auto simp: run_tool_call_def Let_def split: option.splits)
    with perform_context [OF e] result_content_form [of env "tc_name tc" r] show ?thesis
      by (auto simp: answers_call_def)
  qed
qed

section \<open>Records of calls\<close>

text \<open>The recorded calls of the last turn of a thread.\<close>

definition recorded_calls :: "uuid \<Rightarrow> session \<Rightarrow> turn_tool_call list" where
  "recorded_calls tid s = (case map_of (threads s) tid of
     Some th \<Rightarrow> (case last_turn th of Some t \<Rightarrow> turn_tool_calls t | None \<Rightarrow> []) | None \<Rightarrow> [])"

lemma map_last_snoc [simp]: "map_last f (xs @ [x]) = xs @ [f x]"
  by (simp add: map_last_def)

lemma last_turn_map_last [simp]:
  "last_turn (th\<lparr>turns := map_last f (turns th)\<rparr>) = map_option f (last_turn th)"
  by (cases "turns th" rule: rev_cases) (simp_all add: last_turn_def map_last_def)

lemma recorded_update:
  "recorded_calls tid (update_thread tid f s) = (case map_of (threads s) tid of
     Some th \<Rightarrow> (case last_turn (f th) of Some t \<Rightarrow> turn_tool_calls t | None \<Rightarrow> []) | None \<Rightarrow> [])"
  by (simp add: recorded_calls_def update_thread_def split: option.split)

lemma recorded_last_turn:
  "(\<And>t. turn_tool_calls (f t) = g (turn_tool_calls t)) \<Longrightarrow> g [] = [] \<Longrightarrow>
   recorded_calls tid (ls_session (update_last_turn tid f st)) = g (recorded_calls tid (ls_session st))"
  by (simp add: update_last_turn_def recorded_update) (simp add: recorded_calls_def split: option.split)

lemma butlast_map_last [simp]: "butlast (map_last f xs) = butlast xs"
  by (simp add: map_last_def)

lemma recorded_outcome:
  "butlast (recorded_calls tid (ls_session (record_outcome env tid r st))) = butlast (recorded_calls tid (ls_session st))"
  and recorded_outcome_length:
  "length (recorded_calls tid (ls_session (record_outcome env tid r st))) = length (recorded_calls tid (ls_session st))"
proof -
  obtain g where "recorded_calls tid (ls_session (record_outcome env tid r st))
      = map_last g (recorded_calls tid (ls_session st))"
  proof (cases r)
    case (Inl e)
    have "recorded_calls tid (ls_session (update_last_turn tid (record_tool_error x) st))
        = map_last (\<lambda>c. c\<lparr>tt_error := Some x\<rparr>) (recorded_calls tid (ls_session st))" for x
      by (rule recorded_last_turn) (simp_all add: record_tool_error_def map_last_def)
    with Inl that show ?thesis by (simp add: record_outcome_def)
  next
    case (Inr x)
    have "recorded_calls tid (ls_session (update_last_turn tid (record_tool_result y) st))
        = map_last (\<lambda>c. c\<lparr>tt_result := Some y\<rparr>) (recorded_calls tid (ls_session st))" for y
      by (rule recorded_last_turn) (simp_all add: record_tool_result_def map_last_def)
    with Inr that show ?thesis by (simp add: record_outcome_def)
  qed
  then show "butlast (recorded_calls tid (ls_session (record_outcome env tid r st))) = butlast (recorded_calls tid (ls_session st))"
    and "length (recorded_calls tid (ls_session (record_outcome env tid r st))) = length (recorded_calls tid (ls_session st))"
    by simp_all
qed

text \<open>The steps of a tool call keep all recorded calls but the last.\<close>

definition keeps_records :: "uuid \<Rightarrow> 'w loop_state \<Rightarrow> 'w loop_state \<Rightarrow> bool" where
  "keeps_records tid st st' \<longleftrightarrow>
     butlast (recorded_calls tid (ls_session st')) = butlast (recorded_calls tid (ls_session st))
     \<and> length (recorded_calls tid (ls_session st')) = length (recorded_calls tid (ls_session st))"

lemma keeps_records_trans: "keeps_records tid a b \<Longrightarrow> keeps_records tid b c \<Longrightarrow> keeps_records tid a c"
  by (simp add: keeps_records_def)

lemma keeps_records_same: "ls_session st' = ls_session st \<Longrightarrow> keeps_records tid st st'"
  by (simp add: keeps_records_def)

lemma execute_session [simp]: "ls_session (fst (execute_chat_tool env n c p st)) = ls_session st"
  by (simp add: execute_chat_tool_def log_event_def Let_def split: option.split prod.split)

lemma session_simps [simp]:
  "ls_session (log_event e st) = ls_session st" "ls_session (push_message m st) = ls_session st"
  by (simp_all add: log_event_def push_message_def)

lemma perform_records: "perform_tool env tid n c p st = (st', r) \<Longrightarrow> keeps_records tid st st'"
proof -
  assume a: "perform_tool env tid n c p st = (st', r)"
  let ?s0 = "log_event (Ev_status (St_tool_started n)) st"
  obtain s1 r1 where e: "execute_chat_tool env n c p ?s0 = (s1, r1)"
    by (cases "execute_chat_tool env n c p ?s0")
  have "ls_session (fst (execute_chat_tool env n c p ?s0)) = ls_session ?s0" by (rule execute_session)
  then have s1: "ls_session s1 = ls_session st" unfolding e by simp
  with a e show ?thesis
    by (cases r1) (auto simp: perform_tool_def Let_def keeps_records_def recorded_outcome recorded_outcome_length
        split: if_splits)
qed

lemma auth_records: "keeps_records tid st (enter_auth env tid ext ins r id st)"
proof -
  have "recorded_calls tid (update_thread tid (\<lambda>th. enter_auth_mode now ext th) s) = recorded_calls tid s" for now s
    by (simp add: recorded_update enter_auth_mode_def last_turn_def)
       (simp add: recorded_calls_def last_turn_def split: option.split)
  then show ?thesis by (simp add: keeps_records_def enter_auth_def split: prod.split)
qed

lemma tool_call_records: "keeps_records tid st (fst (run_tool_call env user tid tc st))"
proof (cases "approval_missing env st tc")
  case None
  obtain w' res where h: "run_hooks env (ToolCall (tc_name tc) (tc_arguments tc) user ''chat'') (ls_world st) = (w', res)"
    by (cases "run_hooks env (ToolCall (tc_name tc) (tc_arguments tc) user ''chat'') (ls_world st)")
  show ?thesis
  proof (cases res)
    case (Inl e)
    with None h show ?thesis by (cases e) (simp_all add: run_tool_call_def keeps_records_same)
  next
    case (Inr out)
    let ?args = "hooked_arguments env (tc_arguments tc) out"
    obtain s1 r where e: "perform_tool env tid (tc_name tc) (tc_arguments tc) ?args (st\<lparr>ls_world := w'\<rparr>) = (s1, r)"
      by (cases "perform_tool env tid (tc_name tc) (tc_arguments tc) ?args (st\<lparr>ls_world := w'\<rparr>)")
    have "keeps_records tid st (st\<lparr>ls_world := w'\<rparr>)" by (simp add: keeps_records_same)
    then have s1: "keeps_records tid st s1" using perform_records [OF e] by (rule keeps_records_trans)
    have "keeps_records tid st (push_message m s1)" for m
      by (rule keeps_records_trans [OF s1]) (simp add: keeps_records_same)
    moreover have "keeps_records tid st (enter_auth env tid ext ins r id s1)" for ext ins
      by (rule keeps_records_trans [OF s1 auth_records])
    ultimately show ?thesis using None h Inr e by (simp add: run_tool_call_def Let_def split: option.split)
  qed
qed (simp add: run_tool_call_def keeps_records_same split: prod.split)

lemma tool_calls_records: "keeps_records tid st (fst (run_tool_calls env user tid tcs st))"
proof (induction tcs arbitrary: st)
  case (Cons tc tcs)
  obtain st' r where e: "run_tool_call env user tid tc st = (st', r)"
    by (cases "run_tool_call env user tid tc st")
  with tool_call_records [of tid st env user tc] have s: "keeps_records tid st st'" by simp
  from keeps_records_trans [OF s Cons.IH] s e show ?case by (cases r) simp_all
qed (simp add: keeps_records_same)

lemma record_calls_records:
  assumes "map_of (threads (ls_session st)) tid = Some th" "turns th \<noteq> []"
  shows "recorded_calls tid (ls_session (record_calls tid tcs st)) = recorded_calls tid (ls_session st)
     @ map (\<lambda>tc. \<lparr>tt_name = tc_name tc, tt_parameters = tc_arguments tc, tt_result = None, tt_error = None\<rparr>) tcs"
proof -
  have f: "turn_tool_calls (foldl (\<lambda>t tc. record_tool_call (tc_name tc) (tc_arguments tc) t) t tcs) = turn_tool_calls t
     @ map (\<lambda>tc. \<lparr>tt_name = tc_name tc, tt_parameters = tc_arguments tc, tt_result = None, tt_error = None\<rparr>) tcs" for t
    by (induction tcs arbitrary: t) (simp_all add: record_tool_call_def)
  have "last_turn th \<noteq> None" using assms(2) by (simp add: last_turn_def)
  with assms(1) show ?thesis
    by (auto simp: record_calls_def update_last_turn_def recorded_update f) (simp add: recorded_calls_def)
qed

lemma events_simps [simp]:
  "ls_events (log_event e st) = ls_events st @ [e]"
  "ls_events (push_message m st) = ls_events st"
  "ls_events (update_last_turn tid f st) = ls_events st"
  "ls_events (record_outcome env tid r st) = ls_events st"
  by (simp_all add: log_event_def push_message_def update_last_turn_def record_outcome_def)

lemma world_simps [simp]: "ls_world (log_event e st) = ls_world st"
  by (simp add: log_event_def)

text \<open>A call that passes the check and the hooks is executed, with the parameters of the hooks.\<close>

lemma passed_call_executed:
  assumes "approval_missing env st tc = None"
    and "run_hooks env (ToolCall (tc_name tc) (tc_arguments tc) user ''chat'') (ls_world st) = (w', Inr out)"
    and "ae_find_tool env w' (tc_name tc) = Some tool"
    and "vr_is_valid (validate_tool_params (sl_validator (ae_safety env)) (hooked_arguments env (tc_arguments tc) out))"
  shows "Ev_executed (tc_name tc) (tc_arguments tc) (hooked_arguments env (tc_arguments tc) out)
     \<in> set (ls_events (fst (run_tool_call env user tid tc st)))"
proof -
  let ?args = "hooked_arguments env (tc_arguments tc) out"
  let ?s = "st\<lparr>ls_world := w'\<rparr>"
  let ?started = "log_event (Ev_status (St_tool_started (tc_name tc))) ?s"
  obtain w2 res where x: "ae_execute env w' (tc_name tc) ?args = (w2, res)"
    by (cases "ae_execute env w' (tc_name tc) ?args")
  obtain s1 r where e: "perform_tool env tid (tc_name tc) (tc_arguments tc) ?args ?s = (s1, r)"
    by (cases "perform_tool env tid (tc_name tc) (tc_arguments tc) ?args ?s")
  obtain s0 r0 where e0: "execute_chat_tool env (tc_name tc) (tc_arguments tc) ?args ?started = (s0, r0)"
    by (cases "execute_chat_tool env (tc_name tc) (tc_arguments tc) ?args ?started")
  have "ls_events s0 = ls_events ?started @ [Ev_executed (tc_name tc) (tc_arguments tc) ?args]"
    using e0 assms(3,4) x by (auto simp: execute_chat_tool_def Let_def)
  with e e0 have "Ev_executed (tc_name tc) (tc_arguments tc) ?args \<in> set (ls_events s1)"
    by (cases r0) (auto simp: perform_tool_def Let_def split: if_splits)
  with assms(1,2) e show ?thesis
    by (simp add: run_tool_call_def Let_def enter_auth_def split: option.split prod.split)
qed

lemma extends_events: "extends P s s' \<Longrightarrow> set (ls_events s) \<subseteq> set (ls_events s')"
  by (auto simp: extends_def)

lemma any_allowed: "allowed_call (\<lambda>e. True) env A"
  by (simp add: allowed_call_def)

lemma first_call_events:
  "set (ls_events (fst (run_tool_call env user tid tc st))) \<subseteq> set (ls_events (fst (run_tool_calls env user tid (tc # tcs) st)))"
proof -
  obtain s c where call: "run_tool_call env user tid tc st = (s, c)"
    by (cases "run_tool_call env user tid tc st")
  have "set (ls_events s) \<subseteq> set (ls_events (fst (run_tool_calls env user tid tcs s)))"
    by (rule extends_events [OF extends_tool_calls [OF any_allowed]])
  with call show ?thesis by (cases c) simp_all
qed

section \<open>Properties\<close>

lemma vouched_allowed:
  assumes "\<forall>w. ae_find_tool env w = tools"
  shows "allowed_call (vouched env tools A) env A"
  using assms by (auto simp: allowed_call_def vouched_def approval_missing_def auto_approved_def
      is_tool_auto_approved_def split: if_splits option.splits)


definition shell_tool :: tool_info where
  "shell_tool = \<lparr>ti_description = ''Runs a command'', ti_requires_approval = True,
     ti_requires_approval_for = (\<lambda>p. p \<noteq> JStr ''ls'')\<rparr>"

definition shell_call :: tool_call where
  "shell_call = \<lparr>tc_id = ''c1'', tc_name = ''shell'', tc_arguments = JStr ''ls''\<rparr>"

text \<open>A model that calls a shell that fails, and a world that counts.\<close>

definition example_agent :: "nat registry \<Rightarrow> nat agent_env" where
  "example_agent hs = \<lparr>ae_hooks = hs,
     ae_safety = new_safety_layer \<lparr>sc_max_output_length = 100, sc_injection_check = True\<rparr>,
     ae_ac = \<lambda>_ _. [], ae_aci = \<lambda>_ _. [], ae_re = \<lambda>_ _. [],
     ae_dec = \<lambda>s. Some (JStr s), ae_enc = \<lambda>j. (case j of JStr s \<Rightarrow> s | _ \<Rightarrow> []), ae_pretty = \<lambda>j. [],
     ae_show_uuid = show_nat, ae_show_duration = show_nat, ae_show_retry = \<lambda>_. [], ae_show_limit = \<lambda>_. [],
     ae_now = int, ae_day = \<lambda>_. 0, ae_fresh = \<lambda>w. (w + 1, w),
     ae_find_tool = \<lambda>w n. if n = ''shell'' then Some shell_tool else None,
     ae_tool_defs = \<lambda>w. [example_tool ''shell'', example_tool ''time''],
     ae_execute = \<lambda>w n p. (w + 1, Tool_failed ''no shell''),
     ae_respond = \<lambda>w sys skills ms tools. (w + 1, Inr \<lparr>ro_result = Respond_tools [shell_call] None,
        ro_input_tokens = 1, ro_output_tokens = 1\<rparr>),
     ae_model_name = \<lambda>w. ''gpt-4o'', ae_workspace_prompt = \<lambda>w. None, ae_identity_block = None,
     ae_cognitive_prefix = \<lambda>m. None, ae_recall = \<lambda>w m. None, ae_skills = [], ae_rx = \<lambda>_ _. False,
     ae_max_active_skills = 3, ae_max_skill_tokens = 4000\<rparr>"

definition example_state :: "nat loop_state" where
  "example_state = \<lparr>ls_world = 0, ls_session = new_session 0 0 ''u'',
     ls_guard = new_cost_guard \<lparr>max_cost_per_day_cents = None, max_actions_per_hour = None\<rparr> 0,
     ls_context = [], ls_events = []\<rparr>"

definition shell_trusted :: "nat registry" where
  "shell_trusted = [\<lparr>he_hook = trusted_tools_hook [''shell''], he_priority = 1\<rparr>]"


text \<open>C3: The loop ends for every model and every tool: it asks the model at most ten times.\<close>
theorem loop_terminates_within_limit:
  "model_calls (fst (run_agentic_loop env user msg tid resume st)) \<le> model_calls st + 10"
  using loop_model_calls [of 0 env user tid "select_active_skills env msg"
      "system_prompt env (ls_world st) msg" resume st]
  by (simp add: run_agentic_loop_def MAX_TOOL_ITERATIONS_def)

text \<open>C28: A batch of calls that runs to its end is answered completely: the context grows by one tool message
  per call, in the order of the calls and under their identifiers and names, and what a message
  says is framed tool output, an error or the verdict of a hook.\<close>
theorem every_call_answered:
  assumes "run_tool_calls env user tid tcs st = (st', None)"
  shows "\<exists>answers. ls_context st' = ls_context st @ answers \<and> list_all2 (answers_call env) tcs answers"
  using assms
proof (induction tcs arbitrary: st)
  case (Cons tc tcs)
  obtain st1 r where e: "run_tool_call env user tid tc st = (st1, r)"
    by (cases "run_tool_call env user tid tc st")
  with Cons.prems have r: "r = None" "run_tool_calls env user tid tcs st1 = (st', None)"
    by (cases r; simp)+
  from run_tool_call_answers e r(1) obtain m where m: "ls_context st1 = ls_context st @ [m]" "answers_call env tc m"
    by blast
  from Cons.IH [OF r(2)] obtain answers where
    "ls_context st' = ls_context st1 @ answers" "list_all2 (answers_call env) tcs answers" by blast
  with m show ?case by (intro exI [of _ "m # answers"]) simp
qed simp

definition missing_call :: "string \<Rightarrow> tool_call" where
  "missing_call i = \<lparr>tc_id = i, tc_name = ''fly'', tc_arguments = JNull\<rparr>"

lemma missing_runs: "snd (run_tool_calls (example_agent []) user tid (map missing_call is) st) = None"
proof (induction "is" arbitrary: st)
  case (Cons i "is")
  have "snd (run_tool_call (example_agent []) user tid (missing_call i) st) = None"
    by (simp add: run_tool_call_def approval_missing_def example_agent_def missing_call_def run_hooks_def
        hooks_run_def matching_hooks_def perform_tool_def execute_chat_tool_def detect_auth_awaiting_def
        hooked_arguments_def Let_def)
  then obtain s' where "run_tool_call (example_agent []) user tid (missing_call i) st = (s', None)"
    by (cases "run_tool_call (example_agent []) user tid (missing_call i) st") auto
  with Cons show ?case by simp
qed simp

theorem every_call_answered_witness:
  "\<exists>st' answers. run_tool_calls (example_agent []) ''u'' 7 (map missing_call [''c1'', ''c2'']) example_state = (st', None)
     \<and> ls_context st' = ls_context example_state @ answers
     \<and> list_all2 (answers_call (example_agent [])) (map missing_call [''c1'', ''c2'']) answers"
proof -
  obtain st' r where e: "run_tool_calls (example_agent []) ''u'' 7 (map missing_call [''c1'', ''c2'']) example_state = (st', r)"
    by fastforce
  have "r = None"
    using missing_runs [of "''u''" 7 "[''c1'', ''c2'']" example_state] unfolding e by simp
  with every_call_answered [OF e [unfolded this]] e show ?thesis by blast
qed

text \<open>With several calls in one reply only the last of them can keep a result in the turn: results go to
  the last recorded call, so every earlier call stays without result and error.\<close>
theorem results_of_earlier_calls_lost:
  assumes "map_of (threads (ls_session st)) tid = Some th" "turns th \<noteq> []"
    and "recorded_calls tid (ls_session st) = []" "tcs \<noteq> []"
  shows "butlast (recorded_calls tid (ls_session (fst (handle_reply env user tid it executed (Respond_tools tcs said) st))))
     = map (\<lambda>tc. \<lparr>tt_name = tc_name tc, tt_parameters = tc_arguments tc, tt_result = None, tt_error = None\<rparr>) (butlast tcs)"
proof -
  let ?st1 = "record_calls tid tcs (log_event (Ev_status (St_thinking
      (''Executing '' @ show_nat (length tcs) @ '' tool(s)...'')))
      (push_message (msg_assistant_with_tool_calls said tcs) st))"
  obtain st2 r where e: "run_tool_calls env user tid tcs ?st1 = (st2, r)"
    by (cases "run_tool_calls env user tid tcs ?st1")
  have "recorded_calls tid (ls_session ?st1)
      = map (\<lambda>tc. \<lparr>tt_name = tc_name tc, tt_parameters = tc_arguments tc, tt_result = None, tt_error = None\<rparr>) tcs"
    using assms(1-3) by (subst record_calls_records) (simp_all del: last_turn_map_last)
  moreover have "butlast (recorded_calls tid (ls_session st2)) = butlast (recorded_calls tid (ls_session ?st1))"
    using tool_calls_records [of tid ?st1 env user tcs] e by (simp add: keeps_records_def)
  moreover have "fst (handle_reply env user tid it executed (Respond_tools tcs said) st) = st2"
    using e by (cases r) (simp_all add: handle_reply_def Let_def)
  ultimately show ?thesis by (simp add: map_butlast)
qed

definition example_thread :: thread where
  "example_thread = start_turn 0 ''hi'' (thread_with_id 0 7 0)"

definition threaded_state :: "nat loop_state" where
  "threaded_state = example_state\<lparr>ls_session := (new_session 0 0 ''u'')\<lparr>threads := [(7, example_thread)]\<rparr>\<rparr>"

theorem results_of_earlier_calls_lost_witness:
  "butlast (recorded_calls 7 (ls_session (fst (handle_reply (example_agent []) ''u'' 7 1 False
       (Respond_tools (map missing_call [''c1'', ''c2'']) None) threaded_state))))
     = [\<lparr>tt_name = ''fly'', tt_parameters = JNull, tt_result = None, tt_error = None\<rparr>]"
  using results_of_earlier_calls_lost [of threaded_state 7 example_thread "map missing_call [''c1'', ''c2'']"
      "example_agent []" "''u''" 1 False None]
  by (simp add: threaded_state_def example_thread_def start_turn_def thread_with_id_def recorded_calls_def
      last_turn_def new_turn_def missing_call_def)

text \<open>The parameters that run need not be those that were checked: for a trusted tool with harmless
  parameters a hook may put any parameters in their place, also ones that would have required
  explicit approval, and the tool runs with these.\<close>
theorem hooked_parameters_unchecked:
  assumes "ae_find_tool env (ls_world st) (tc_name tc) = Some tool"
    and "auto_approved env (ls_session st) tool (tc_name tc) (tc_arguments tc)"
    and "run_hooks env (ToolCall (tc_name tc) (tc_arguments tc) user ''chat'') (ls_world st)
       = (w', Inr (Continue (Some m)))"
    and "ae_dec env m = Some evil" "ae_find_tool env w' (tc_name tc) = Some tool'"
    and "vr_is_valid (validate_tool_params (sl_validator (ae_safety env)) evil)"
  shows "Ev_executed (tc_name tc) (tc_arguments tc) evil
     \<in> set (ls_events (fst (run_tool_call env user tid tc st)))"
proof -
  have "approval_missing env st tc = None" using assms(1,2) by (simp add: approval_missing_def)
  moreover have "hooked_arguments env (tc_arguments tc) (Continue (Some m)) = evil"
    using assms(4) by (simp add: hooked_arguments_def)
  ultimately show ?thesis using passed_call_executed [OF _ assms(3,5)] assms(6) by simp
qed

definition rewriting_hook :: "nat hook" where
  "rewriting_hook = (trusted_tools_hook [''shell''])\<lparr>hk_execute := \<lambda>w ev. (w, Replied (Inr (Continue (Some ''rm''))))\<rparr>"

theorem hooked_parameters_unchecked_witness:
  "ti_requires_approval_for shell_tool (JStr ''rm'')
   \<and> Ev_executed ''shell'' (JStr ''ls'') (JStr ''rm'') \<in> set (ls_events (fst (run_tool_call
        (example_agent [\<lparr>he_hook = rewriting_hook, he_priority = 1\<rparr>]) ''u'' 7 shell_call example_state)))"
proof -
  let ?env = "example_agent [\<lparr>he_hook = rewriting_hook, he_priority = 1\<rparr>]"
  have f: "ae_find_tool ?env w ''shell'' = Some shell_tool" for w by (simp add: example_agent_def)
  have "auto_approved ?env (ls_session example_state) shell_tool ''shell'' (JStr ''ls'')"
    by (simp add: auto_approved_def is_tool_trusted_def example_agent_def rewriting_hook_def
        trusted_tools_hook_def shell_tool_def)
  moreover have "run_hooks ?env (ToolCall ''shell'' (JStr ''ls'') ''u'' ''chat'') (ls_world example_state)
      = (0, Inr (Continue (Some ''rm'')))"
    by (simp add: run_hooks_def hooks_run_def matching_hooks_def example_agent_def rewriting_hook_def
        trusted_tools_hook_def hook_step_def example_state_def)
  moreover have "vr_is_valid (validate_tool_params (sl_validator (ae_safety ?env)) (JStr ''rm''))"
    by (simp add: validate_tool_params_def validate_text_valid acceptable_def example_agent_def
        new_safety_layer_def new_input_validator_def)
  moreover have "ae_dec ?env ''rm'' = Some (JStr ''rm'')" by (simp add: example_agent_def)
  ultimately have "Ev_executed (tc_name shell_call) (tc_arguments shell_call) (JStr ''rm'')
      \<in> set (ls_events (fst (run_tool_call ?env ''u'' 7 shell_call example_state)))"
    using f by (intro hooked_parameters_unchecked) (simp_all add: shell_call_def)
  then show ?thesis by (simp add: shell_call_def shell_tool_def)
qed

text \<open>Attenuation hides tools, it does not deny them: with an installed skill active the model is shown
  the read-only tools alone, yet a call it makes of any other existing tool that needs no approval
  is executed.\<close>
theorem attenuated_tool_still_runs:
  assumes "\<not> is_interrupted tid (ls_session st)"
    and "cost_check_allowed (ae_now env (ls_world st)) (ls_guard st) = (g, Inr ())"
    and "sk \<in> set active" "sk_trust sk = Installed"
    and "ae_respond env (ls_world st) prompt (skill_context active) (ls_context st)
        (offered_tools env (ls_world st) active) = (w', Inr out)" "ro_result out = Respond_tools (tc # tcs) said"
    and "tc_name tc \<notin> set READ_ONLY_TOOLS" "\<forall>w. ae_find_tool env w (tc_name tc) = Some tool"
    and "\<not> ti_requires_approval tool" "ae_hooks env = []"
    and "vr_is_valid (validate_tool_params (sl_validator (ae_safety env)) (tc_arguments tc))"
  shows "\<exists>tools. {Ev_model tools, Ev_executed (tc_name tc) (tc_arguments tc) (tc_arguments tc)}
        \<subseteq> set (ls_events (fst (loop_round env user tid active prompt it executed st)))
     \<and> tc_name tc \<notin> set (map td_name tools)"
proof -
  let ?tools = "offered_tools env (ls_world st) active"
  let ?s1 = "record_usage env out (log_event (Ev_model ?tools) (st\<lparr>ls_world := w', ls_guard := g\<rparr>))"
  let ?s2 = "record_calls tid (tc # tcs) (log_event (Ev_status (St_thinking
      (''Executing '' @ show_nat (length (tc # tcs)) @ '' tool(s)...'')))
      (push_message (msg_assistant_with_tool_calls said (tc # tcs)) ?s1))"
  let ?res = "run_tool_calls env user tid (tc # tcs) ?s2"
  have hidden: "tc_name tc \<notin> set (map td_name ?tools)"
    using assms(3,4,7) min_trust_installed [OF assms(3,4)]
    by (auto simp: offered_tools_def attenuate_tools_def split_tools_eq)
  have h: "run_hooks env ev w = (w, Inr (Continue None))" for ev w
    using assms(10) by (simp add: run_hooks_def hooks_run_def matching_hooks_def)
  have n: "hooked_arguments env args (Continue None) = args" for args by (simp add: hooked_arguments_def)
  have "approval_missing env ?s2 tc = None" using assms(8,9) by (simp add: approval_missing_def)
  then have "Ev_executed (tc_name tc) (tc_arguments tc) (tc_arguments tc)
      \<in> set (ls_events (fst (run_tool_call env user tid tc ?s2)))"
    using passed_call_executed [OF _ h, of ?s2 tc tool] assms(8,11) by (simp add: n)
  then have "Ev_executed (tc_name tc) (tc_arguments tc) (tc_arguments tc) \<in> set (ls_events (fst ?res))"
    using first_call_events by blast
  moreover have "Ev_model ?tools \<in> set (ls_events ?s2)"
    by (simp add: record_calls_def update_last_turn_def push_message_def record_usage_def log_event_def)
  then have "Ev_model ?tools \<in> set (ls_events (fst ?res))"
    using extends_events [OF extends_tool_calls [OF any_allowed]] by blast
  moreover have "fst (loop_round env user tid active prompt it executed st) = fst ?res"
    using assms(1,2,5,6) by (simp add: loop_round_def handle_reply_def Let_def split: prod.split option.split)
  ultimately show ?thesis using hidden by (intro exI [of _ ?tools]) simp
qed

definition time_tool :: tool_info where
  "time_tool = \<lparr>ti_description = [], ti_requires_approval = False, ti_requires_approval_for = \<lambda>p. False\<rparr>"

definition free_shell_agent :: "nat agent_env" where
  "free_shell_agent = (example_agent [])\<lparr>ae_find_tool := \<lambda>w n. Some time_tool\<rparr>"

theorem attenuated_tool_still_runs_witness:
  "\<exists>tools. {Ev_model tools, Ev_executed ''shell'' (JStr ''ls'') (JStr ''ls'')}
        \<subseteq> set (ls_events (fst (loop_round free_shell_agent ''u'' 7 [example_skill Installed] None 1 False example_state)))
     \<and> ''shell'' \<notin> set (map td_name tools)"
proof -
  have "vr_is_valid (validate_tool_params (sl_validator (ae_safety free_shell_agent)) (tc_arguments shell_call))"
    by (simp add: validate_tool_params_def validate_text_valid acceptable_def example_agent_def
        free_shell_agent_def shell_call_def new_safety_layer_def new_input_validator_def)
  then have "\<exists>tools. {Ev_model tools, Ev_executed (tc_name shell_call) (tc_arguments shell_call) (tc_arguments shell_call)}
        \<subseteq> set (ls_events (fst (loop_round free_shell_agent ''u'' 7 [example_skill Installed] None 1 False example_state)))
     \<and> tc_name shell_call \<notin> set (map td_name tools)"
    by (intro attenuated_tool_still_runs [where tcs = "[]" and said = None and sk = "example_skill Installed"
          and tool = time_tool and w' = 1 and g = "ls_guard example_state"
          and out = "\<lparr>ro_result = Respond_tools [shell_call] None, ro_input_tokens = 1, ro_output_tokens = 1\<rparr>"])
       (simp_all add: free_shell_agent_def example_agent_def example_state_def is_interrupted_def new_session_def
          new_cost_guard_def cost_check_allowed_def check_hourly_def example_skill_def time_tool_def
          shell_call_def READ_ONLY_TOOLS_def)
  then show ?thesis by (simp add: shell_call_def)
qed

end
