(* ===== verification/Session_Manager.thy ===== *)
theory Session_Manager
  imports Session Undo Hooks
begin

text \<open>
  Sessions of all users and the routing of messages to threads, \<open>src/agent/session_manager.rs\<close>, and
  the hydration of stored conversations, \<open>maybe_hydrate_thread\<close> of \<open>src/agent/thread_ops.rs\<close>. The
  maps are association lists; the session events a hook registry gets are logged. New identifiers
  and clock readings are arguments; \<open>su\<close> prints an identifier, \<open>parse\<close> is \<open>Uuid::parse_str\<close>.
\<close>

section \<open>The manager\<close>

record thread_key =
  tk_user :: string
  tk_channel :: string
  tk_external :: "string option"

record session_manager =
  mg_sessions :: "(string \<times> session) list"
  mg_thread_map :: "(thread_key \<times> uuid) list"
  mg_undo_managers :: "(uuid \<times> undo_manager) list"
  mg_has_hooks :: bool
  mg_fired :: "hook_event list"

definition new_session_manager :: "bool \<Rightarrow> session_manager" where
  "new_session_manager hooks = \<lparr>mg_sessions = [], mg_thread_map = [], mg_undo_managers = [],
     mg_has_hooks = hooks, mg_fired = []\<rparr>"

definition fire :: "hook_event list \<Rightarrow> session_manager \<Rightarrow> session_manager" where
  "fire evs m = (if mg_has_hooks m then m\<lparr>mg_fired := mg_fired m @ evs\<rparr> else m)"

definition put_session :: "string \<Rightarrow> session \<Rightarrow> session_manager \<Rightarrow> session_manager" where
  "put_session u s m = m\<lparr>mg_sessions := AList.update u s (mg_sessions m)\<rparr>"

definition get_or_create_session ::
  "(uuid \<Rightarrow> string) \<Rightarrow> uuid \<Rightarrow> instant \<Rightarrow> string \<Rightarrow> session_manager \<Rightarrow> session_manager \<times> session" where
  "get_or_create_session su fresh now u m =
     (case map_of (mg_sessions m) u of
        Some s \<Rightarrow> (m, s)
      | None \<Rightarrow> (let s = new_session fresh now u
                 in (fire [SessionStart u (su (ss_id s))] (put_session u s m), s)))"

record session_summary =
  sy_user_id :: string
  sy_session_id :: uuid
  sy_thread_count :: nat
  sy_last_active_at :: instant
  sy_awaiting_approval :: bool

definition list_sessions :: "session_manager \<Rightarrow> session_summary list" where
  "list_sessions m = sort_key (\<lambda>y. - sy_last_active_at y)
     (map (\<lambda>(u, s). \<lparr>sy_user_id = u, sy_session_id = ss_id s, sy_thread_count = length (threads s),
        sy_last_active_at = last_active_at s,
        sy_awaiting_approval = list_ex (\<lambda>(i, th). thread_state th = AwaitingApproval) (threads s)\<rparr>) (mg_sessions m))"

definition resolve_thread ::
  "(uuid \<Rightarrow> string) \<Rightarrow> uuid \<Rightarrow> uuid \<Rightarrow> instant \<Rightarrow> string \<Rightarrow> string \<Rightarrow> string option \<Rightarrow> session_manager
     \<Rightarrow> session_manager \<times> uuid" where
  "resolve_thread su fresh_session fresh_thread now u ch ext m =
     (let (m1, s) = get_or_create_session su fresh_session now u m;
          key = \<lparr>tk_user = u, tk_channel = ch, tk_external = ext\<rparr>;
          known = (case map_of (mg_thread_map m1) key of
                     Some i \<Rightarrow> (if map_of (threads s) i \<noteq> None then Some i else None) | None \<Rightarrow> None)
      in case known of
           Some i \<Rightarrow> (m1, i)
         | None \<Rightarrow>
            (let m2 = put_session u (create_thread fresh_thread now s) m1
             in (m2\<lparr>mg_thread_map := AList.update key fresh_thread (mg_thread_map m2),
                    mg_undo_managers := AList.update fresh_thread new_undo_manager (mg_undo_managers m2)\<rparr>,
                 fresh_thread)))"

definition register_thread ::
  "(uuid \<Rightarrow> string) \<Rightarrow> string \<Rightarrow> string \<Rightarrow> uuid \<Rightarrow> session \<Rightarrow> session_manager \<Rightarrow> session_manager" where
  "register_thread su u ch i s m =
     (let key = \<lparr>tk_user = u, tk_channel = ch, tk_external = Some (su i)\<rparr>;
          m1 = m\<lparr>mg_thread_map := AList.update key i (mg_thread_map m),
                 mg_undo_managers := (if map_of (mg_undo_managers m) i = None
                    then AList.update i new_undo_manager (mg_undo_managers m) else mg_undo_managers m)\<rparr>
      in if map_of (mg_sessions m1) u = None then put_session u s m1 else m1)"

definition get_undo_manager :: "uuid \<Rightarrow> session_manager \<Rightarrow> session_manager \<times> undo_manager" where
  "get_undo_manager i m =
     (case map_of (mg_undo_managers m) i of
        Some um \<Rightarrow> (m, um)
      | None \<Rightarrow> (m\<lparr>mg_undo_managers := AList.update i new_undo_manager (mg_undo_managers m)\<rparr>, new_undo_manager))"

text \<open>\<open>busy\<close> are the users whose session is locked while the pruning runs.\<close>

definition stale_sessions :: "instant \<Rightarrow> (string \<Rightarrow> bool) \<Rightarrow> session_manager \<Rightarrow> (string \<times> session) list" where
  "stale_sessions cutoff busy m = filter (\<lambda>(u, s). \<not> busy u \<and> last_active_at s < cutoff) (mg_sessions m)"

definition prune_stale_sessions ::
  "(uuid \<Rightarrow> string) \<Rightarrow> instant \<Rightarrow> duration \<Rightarrow> (string \<Rightarrow> bool) \<Rightarrow> session_manager \<Rightarrow> session_manager \<times> nat" where
  "prune_stale_sessions su now max_idle busy m =
     (let stale = stale_sessions (now - int max_idle) busy m;
          users = map fst stale;
          ids = concat (map (\<lambda>(u, s). map fst (threads s)) stale)
      in if users = [] then (m, 0)
         else
          (let m1 = fire (map (\<lambda>(u, s). SessionEnd u (su (ss_id s)) (map fst (threads s))) stale) m
           in (m1\<lparr>mg_sessions := filter (\<lambda>(u, s). u \<notin> set users) (mg_sessions m1),
                  mg_thread_map := filter (\<lambda>(k, i). tk_user k \<notin> set users) (mg_thread_map m1),
                  mg_undo_managers := filter (\<lambda>(i, um). i \<notin> set ids) (mg_undo_managers m1)\<rparr>,
               length (mg_sessions m1) - length (filter (\<lambda>(u, s). u \<notin> set users) (mg_sessions m1)))))"

section \<open>Hydration\<close>

text \<open>The database: the stored messages of a conversation, role and text, and the response identifier
  in its metadata. Without a store there are none.\<close>

record conversation_store =
  cs_messages :: "uuid \<Rightarrow> (string \<times> string) list"
  cs_response_id :: "uuid \<Rightarrow> string option"

fun stored_message :: "string \<times> string \<Rightarrow> chat_message option" where
  "stored_message (r, txt) = (if r = ''user'' then Some (msg_user txt)
     else if r = ''assistant'' then Some (msg_assistant txt) else None)"

text \<open>The thread made of what the store has under its identifier, and its registration.\<close>

definition hydrated ::
  "conversation_store option \<Rightarrow> instant \<Rightarrow> uuid \<Rightarrow> session \<Rightarrow> thread" where
  "hydrated store now i s =
     (let ms = (case store of Some db \<Rightarrow> List.map_filter stored_message (cs_messages db i) | None \<Rightarrow> []);
          th0 = thread_with_id now i (ss_id s);
          th1 = (if ms = [] then th0 else restore_from_messages now ms th0)
      in case store of
           Some db \<Rightarrow> (case cs_response_id db i of Some rid \<Rightarrow> th1\<lparr>last_response_id := Some rid\<rparr> | None \<Rightarrow> th1)
         | None \<Rightarrow> th1)"

definition maybe_hydrate_thread ::
  "(uuid \<Rightarrow> string) \<Rightarrow> (string \<Rightarrow> uuid option) \<Rightarrow> conversation_store option \<Rightarrow> uuid \<Rightarrow> instant \<Rightarrow> string \<Rightarrow> string
     \<Rightarrow> string \<Rightarrow> session_manager \<Rightarrow> session_manager" where
  "maybe_hydrate_thread su parse store fresh now u ch ext m =
     (case parse ext of
        None \<Rightarrow> m
      | Some i \<Rightarrow>
         (let (m1, s) = get_or_create_session su fresh now u m in
          if map_of (threads s) i \<noteq> None then m1
          else
           (let s' = s\<lparr>threads := AList.update i (hydrated store now i s) (threads s), active_thread := Some i,
                   last_active_at := now\<rparr>
            in register_thread su u ch i s' (put_session u s' m1))))"

section \<open>The operations on a user's session\<close>

text \<open>The commands of \<open>src/agent/thread_ops.rs\<close> that make or choose a thread.\<close>

definition process_new_thread ::
  "(uuid \<Rightarrow> string) \<Rightarrow> uuid \<Rightarrow> uuid \<Rightarrow> instant \<Rightarrow> string \<Rightarrow> session_manager \<Rightarrow> session_manager \<times> uuid" where
  "process_new_thread su fresh_session fresh_thread now u m =
     (let (m1, s) = get_or_create_session su fresh_session now u m
      in (put_session u (create_thread fresh_thread now s) m1, fresh_thread))"

definition process_switch_thread ::
  "(uuid \<Rightarrow> string) \<Rightarrow> uuid \<Rightarrow> instant \<Rightarrow> string \<Rightarrow> uuid \<Rightarrow> session_manager \<Rightarrow> session_manager \<times> bool" where
  "process_switch_thread su fresh now u target m =
     (let (m1, s) = get_or_create_session su fresh now u m; (ok, s') = switch_thread target now s
      in (put_session u s' m1, ok))"

text \<open>All that happens to the manager, and any operation on a thread of a session.\<close>

datatype routing_event =
    Mg_resolve uuid uuid instant string string "string option"
  | Mg_hydrate uuid instant string string string
  | Mg_new_thread uuid uuid instant string
  | Mg_switch uuid instant string uuid
  | Mg_undo uuid
  | Mg_session string session_event
  | Mg_prune instant duration "string list"

fun routing_step ::
  "(uuid \<Rightarrow> string) \<Rightarrow> (string \<Rightarrow> uuid option) \<Rightarrow> conversation_store option \<Rightarrow> session_manager \<Rightarrow> routing_event \<Rightarrow> session_manager" where
  "routing_step su parse store m (Mg_resolve fs ft now u ch ext) = fst (resolve_thread su fs ft now u ch ext m)"
| "routing_step su parse store m (Mg_hydrate fresh now u ch ext) = maybe_hydrate_thread su parse store fresh now u ch ext m"
| "routing_step su parse store m (Mg_new_thread fs ft now u) = fst (process_new_thread su fs ft now u m)"
| "routing_step su parse store m (Mg_switch fresh now u t) = fst (process_switch_thread su fresh now u t m)"
| "routing_step su parse store m (Mg_undo i) = fst (get_undo_manager i m)"
| "routing_step su parse store m (Mg_session u e) = (case map_of (mg_sessions m) u of
     Some s \<Rightarrow> put_session u (session_step s e) m | None \<Rightarrow> m)"
| "routing_step su parse store m (Mg_prune now idle busy) = fst (prune_stale_sessions su now idle (\<lambda>u. u \<in> set busy) m)"

section \<open>Invariant\<close>

text \<open>Sessions are stored under their users, and every routed key leads to a thread of its user's session.\<close>

definition routing_inv :: "session_manager \<Rightarrow> bool" where
  "routing_inv m \<longleftrightarrow> dkeys (mg_sessions m) \<and> dkeys (mg_thread_map m)
     \<and> (\<forall>(u, s) \<in> set (mg_sessions m). ss_user_id s = u \<and> session_inv s)
     \<and> (\<forall>(k, i) \<in> set (mg_thread_map m). \<exists>s. map_of (mg_sessions m) (tk_user k) = Some s \<and> map_of (threads s) i \<noteq> None)"

lemma fire_simps [simp]:
  "mg_sessions (fire evs m) = mg_sessions m" "mg_thread_map (fire evs m) = mg_thread_map m"
  "mg_undo_managers (fire evs m) = mg_undo_managers m"
  by (simp_all add: fire_def)

lemma routing_inv_fire [simp]: "routing_inv (fire evs m) = routing_inv m"
  by (simp add: routing_inv_def)

lemma put_session_simps [simp]:
  "mg_sessions (put_session u s m) = AList.update u s (mg_sessions m)"
  "mg_thread_map (put_session u s m) = mg_thread_map m"
  "mg_undo_managers (put_session u s m) = mg_undo_managers m"
  by (simp_all add: put_session_def)

text \<open>A session may be replaced by one of the same user that keeps its threads.\<close>

definition grows :: "session \<Rightarrow> session \<Rightarrow> bool" where
  "grows s s' \<longleftrightarrow> ss_user_id s' = ss_user_id s \<and> (session_inv s \<longrightarrow> session_inv s')
     \<and> (\<forall>i. map_of (threads s) i \<noteq> None \<longrightarrow> map_of (threads s') i \<noteq> None)"

lemma put_session_inv:
  assumes "routing_inv m" "map_of (mg_sessions m) u = Some s" "grows s s'"
  shows "routing_inv (put_session u s' m)"
proof -
  have "ss_user_id s' = u" "session_inv s'"
    using assms by (auto simp: routing_inv_def grows_def dest: map_of_SomeD)
  then have "\<forall>(v, t) \<in> set (AList.update u s' (mg_sessions m)). ss_user_id t = v \<and> session_inv t"
    using assms(1) by (auto simp: routing_inv_def dest!: set_update_cases)
  moreover have "\<exists>t. map_of (AList.update u s' (mg_sessions m)) (tk_user k) = Some t \<and> map_of (threads t) i \<noteq> None"
    if "(k, i) \<in> set (mg_thread_map m)" for k i
    using that assms by (cases "tk_user k = u") (fastforce simp: routing_inv_def grows_def)+
  ultimately show ?thesis using assms(1) by (auto simp: routing_inv_def)
qed

lemma grows_create: "grows s (create_thread i now s)"
  by (simp add: grows_def create_thread_inv) (simp add: create_thread_def)

lemma grows_switch: "grows s (snd (switch_thread i now s))"
  by (simp add: grows_def switch_thread_inv) (simp add: switch_thread_def)

lemma grows_update_thread:
  "(\<And>th. thread_id (f th) = thread_id th) \<Longrightarrow> grows s (update_thread i f s)"
  by (simp add: grows_def update_thread_inv) (auto simp: update_thread_def split: option.splits)

lemma grows_step: "grows s (session_step s e)"
proof (cases e)
  case (Se_get_or_create i now)
  then show ?thesis
    by (simp add: grows_def get_or_create_inv) (simp add: get_or_create_thread_def create_thread_def Let_def)
next
  case (Se_auto_approve t)
  then show ?thesis by (simp add: grows_def auto_approve_inv) (simp add: auto_approve_tool_def)
qed (simp_all add: grows_create grows_switch grows_update_thread thread_step_id)

lemma new_session_grows: "routing_inv m \<Longrightarrow> map_of (mg_sessions m) u = None \<Longrightarrow>
   routing_inv (put_session u (new_session fresh now u) m)"
proof -
  assume a: "routing_inv m" "map_of (mg_sessions m) u = None"
  let ?s = "new_session fresh now u"
  have "\<forall>(v, t) \<in> set (AList.update u ?s (mg_sessions m)). ss_user_id t = v \<and> session_inv t"
    using a(1) by (auto simp: routing_inv_def new_session_def dest!: set_update_cases)
      (simp add: session_inv_def)
  moreover have "\<exists>t. map_of (AList.update u ?s (mg_sessions m)) (tk_user k) = Some t \<and> map_of (threads t) i \<noteq> None"
    if "(k, i) \<in> set (mg_thread_map m)" for k i
    using that a by (fastforce simp: routing_inv_def)
  ultimately show ?thesis using a(1) by (auto simp: routing_inv_def)
qed

lemma get_or_create_session_inv:
  assumes "routing_inv m" "get_or_create_session su fresh now u m = (m', s)"
  shows "routing_inv m' \<and> map_of (mg_sessions m') u = Some s \<and> mg_thread_map m' = mg_thread_map m"
  using assms new_session_grows [OF assms(1)]
  by (auto simp: get_or_create_session_def Let_def split: option.splits)

lemma map_thread_inv:
  assumes "routing_inv m" "map_of (mg_sessions m) (tk_user k) = Some s" "map_of (threads s) i \<noteq> None"
  shows "routing_inv (m\<lparr>mg_thread_map := AList.update k i (mg_thread_map m), mg_undo_managers := ums\<rparr>)"
  using assms by (auto simp: routing_inv_def dest!: set_update_cases)

lemma resolve_spec:
  assumes "routing_inv m" "resolve_thread su fs ft now u ch ext m = (m', i)"
  shows "routing_inv m' \<and> map_of (mg_thread_map m') \<lparr>tk_user = u, tk_channel = ch, tk_external = ext\<rparr> = Some i"
proof -
  let ?k = "\<lparr>tk_user = u, tk_channel = ch, tk_external = ext\<rparr>"
  obtain m1 s where g: "get_or_create_session su fs now u m = (m1, s)"
    by (cases "get_or_create_session su fs now u m")
  have m1: "routing_inv m1" "map_of (mg_sessions m1) u = Some s" "mg_thread_map m1 = mg_thread_map m"
    using get_or_create_session_inv [OF assms(1) g] by simp_all
  show ?thesis
  proof (cases "\<exists>j. map_of (mg_thread_map m1) ?k = Some j \<and> map_of (threads s) j \<noteq> None")
    case True
    then show ?thesis using assms(2) g m1 by (auto simp: resolve_thread_def Let_def)
  next
    case False
    let ?s = "create_thread ft now s"
    let ?m = "put_session u ?s m1"
    have e: "m' = ?m\<lparr>mg_thread_map := AList.update ?k ft (mg_thread_map ?m),
        mg_undo_managers := AList.update ft new_undo_manager (mg_undo_managers ?m)\<rparr>" "i = ft"
      using False assms(2) g by (simp_all add: resolve_thread_def Let_def split: option.splits if_splits)
    have "routing_inv ?m" by (rule put_session_inv [OF m1(1,2) grows_create])
    then have "routing_inv m'" unfolding e
      by (rule map_thread_inv [of _ ?k ?s]) (simp_all add: create_thread_def)
    then show ?thesis by (simp add: e)
  qed
qed

lemma register_inv:
  assumes "routing_inv m" "map_of (mg_sessions m) u = Some s" "map_of (threads s) i \<noteq> None"
  shows "routing_inv (register_thread su u ch i s m)"
  using map_thread_inv [OF assms(1), of "\<lparr>tk_user = u, tk_channel = ch, tk_external = Some (su i)\<rparr>" s i] assms(2,3)
  by (simp add: register_thread_def Let_def)

lemma hydrated_id [simp]: "thread_id (hydrated store now i s) = i"
  by (simp add: hydrated_def Let_def thread_with_id_def restore_from_messages_def split: option.split)

lemma grows_hydrate:
  "grows s (s\<lparr>threads := AList.update i (hydrated store now i s) (threads s), active_thread := Some i, last_active_at := now\<rparr>)"
  by (auto simp: grows_def session_inv_def in_keys_update dest!: set_update_cases)

lemma hydrate_inv:
  assumes "routing_inv m"
  shows "routing_inv (maybe_hydrate_thread su parse store fresh now u ch ext m)"
proof (cases "parse ext")
  case (Some i)
  obtain m1 s where g: "get_or_create_session su fresh now u m = (m1, s)"
    by (cases "get_or_create_session su fresh now u m")
  have m1: "routing_inv m1" "map_of (mg_sessions m1) u = Some s"
    using get_or_create_session_inv [OF assms g] by simp_all
  let ?s = "s\<lparr>threads := AList.update i (hydrated store now i s) (threads s), active_thread := Some i, last_active_at := now\<rparr>"
  have "routing_inv (put_session u ?s m1)" by (rule put_session_inv [OF m1 grows_hydrate])
  then have "routing_inv (register_thread su u ch i ?s (put_session u ?s m1))"
    by (rule register_inv) simp_all
  with Some g m1(1) show ?thesis by (simp add: maybe_hydrate_thread_def Let_def)
qed (use assms in \<open>simp add: maybe_hydrate_thread_def\<close>)

lemma map_of_filter_keys:
  "dkeys al \<Longrightarrow> map_of (filter (\<lambda>(k, v). P k) al) k = (if P k then map_of al k else None)"
  by (auto simp: dkeys_map_of_filter case_prod_beta split: option.split)

lemma prune_inv: "routing_inv m \<Longrightarrow> routing_inv (fst (prune_stale_sessions su now idle busy m))"
  by (auto simp: prune_stale_sessions_def Let_def routing_inv_def map_of_filter_keys split: if_splits)

lemma routing_step_inv: "routing_inv m \<Longrightarrow> routing_inv (routing_step su parse store m e)"
proof (cases e)
  case (Mg_resolve fs ft now u ch ext)
  assume "routing_inv m"
  with Mg_resolve resolve_spec [of m su fs ft now u ch ext] show ?thesis
    by (cases "resolve_thread su fs ft now u ch ext m") simp
next
  case (Mg_new_thread fs ft now u)
  assume a: "routing_inv m"
  obtain m1 s where g: "get_or_create_session su fs now u m = (m1, s)"
    by (cases "get_or_create_session su fs now u m")
  with get_or_create_session_inv [OF a g] Mg_new_thread show ?thesis
    by (auto simp: process_new_thread_def intro: put_session_inv grows_create)
next
  case (Mg_switch fresh now u t)
  assume a: "routing_inv m"
  obtain m1 s where g: "get_or_create_session su fresh now u m = (m1, s)"
    by (cases "get_or_create_session su fresh now u m")
  obtain ok s' where w: "switch_thread t now s = (ok, s')" by (cases "switch_thread t now s")
  have "routing_inv (put_session u s' m1)"
    using get_or_create_session_inv [OF a g] grows_switch [of s t now] w by (auto intro: put_session_inv)
  with g w Mg_switch show ?thesis by (simp add: process_switch_thread_def)
next
  case (Mg_session u x)
  assume "routing_inv m"
  with Mg_session show ?thesis by (auto split: option.split intro: put_session_inv grows_step)
next
  case (Mg_undo i)
  assume "routing_inv m"
  with Mg_undo show ?thesis by (auto simp: get_undo_manager_def routing_inv_def split: option.split)
qed (simp_all add: hydrate_inv prune_inv)

interpretation routing: transition_system "routing_step su parse store" routing_inv for su parse store
  by unfold_locales (rule routing_step_inv)

lemma new_routing_inv [simp]: "routing_inv (new_session_manager hooks)"
  by (simp add: routing_inv_def new_session_manager_def)

section \<open>Properties\<close>

text \<open>C5: After any history every message is routed to a thread of its own user's session, and routed there
  again: the thread exists, the session is the user's, and resolving the same key once more changes
  nothing and gives the same thread.\<close>
theorem messages_routed_to_own_session:
  assumes "m = foldl (routing_step su parse store) (new_session_manager hooks) es"
    and "resolve_thread su fs ft now u ch ext m = (m', i)"
  shows "\<exists>s. map_of (mg_sessions m') u = Some s \<and> ss_user_id s = u \<and> map_of (threads s) i \<noteq> None
     \<and> resolve_thread su fs' ft' now' u ch ext m' = (m', i)"
proof -
  let ?k = "\<lparr>tk_user = u, tk_channel = ch, tk_external = ext\<rparr>"
  have "routing_inv m" unfolding assms(1) by (rule routing.run_inv) simp
  from resolve_spec [OF this assms(2)] have m': "routing_inv m'" "map_of (mg_thread_map m') ?k = Some i" by simp_all
  then obtain s where s: "map_of (mg_sessions m') u = Some s" "map_of (threads s) i \<noteq> None"
    by (fastforce simp: routing_inv_def dest: map_of_SomeD)
  moreover have "ss_user_id s = u" using m'(1) s(1) by (auto simp: routing_inv_def dest: map_of_SomeD)
  moreover have "resolve_thread su fs' ft' now' u ch ext m' = (m', i)"
    using s m'(2) by (simp add: resolve_thread_def get_or_create_session_def Let_def)
  ultimately show ?thesis by blast
qed

theorem messages_routed_to_own_session_witness:
  "\<exists>m' s. resolve_thread show_nat 0 7 0 ''ann'' ''web'' None
       (foldl (routing_step show_nat (\<lambda>s. None) None) (new_session_manager False)
          [Mg_resolve 1 5 0 ''bob'' ''cli'' None]) = (m', 7)
     \<and> map_of (mg_sessions m') ''ann'' = Some s \<and> map_of (threads s) 7 \<noteq> None"
proof -
  let ?m = "foldl (routing_step show_nat (\<lambda>s. None) None) (new_session_manager False)
      [Mg_resolve 1 5 0 ''bob'' ''cli'' None]"
  obtain m' i where r: "resolve_thread show_nat 0 7 0 ''ann'' ''web'' None ?m = (m', i)" by fastforce
  have "snd (resolve_thread show_nat 0 7 0 ''ann'' ''web'' None ?m) = 7" by code_simp
  with r have "i = 7" by simp
  with messages_routed_to_own_session [OF refl r] r show ?thesis by blast
qed

text \<open>Choosing a thread does not move the conversation: after \<open>/thread <id>\<close> or \<open>/new\<close> the messages of a
  channel go to the thread they went to before.\<close>
theorem switching_does_not_redirect:
  assumes "routing_inv m" "resolve_thread su fs ft now u ch ext m = (m1, i)"
  shows "snd (resolve_thread su fs' ft' now' u ch ext (fst (process_switch_thread su f0 n0 u target m1))) = i
     \<and> snd (resolve_thread su fs' ft' now' u ch ext (fst (process_new_thread su f0 f1 n0 u m1))) = i"
proof -
  let ?k = "\<lparr>tk_user = u, tk_channel = ch, tk_external = ext\<rparr>"
  from resolve_spec [OF assms] have m1: "routing_inv m1" "map_of (mg_thread_map m1) ?k = Some i" by simp_all
  then obtain s where s: "map_of (mg_sessions m1) u = Some s" "map_of (threads s) i \<noteq> None"
    by (fastforce simp: routing_inv_def dest: map_of_SomeD)
  have stays: "snd (resolve_thread su fs' ft' now' u ch ext (put_session u s' m1)) = i"
    if "grows s s'" for s'
    using that m1(2) s(2) by (simp add: resolve_thread_def get_or_create_session_def grows_def Let_def)
  obtain ok s' where w: "switch_thread target n0 s = (ok, s')" by (cases "switch_thread target n0 s")
  show ?thesis
    using stays [of s'] stays [OF grows_create] grows_switch [of s target n0] s(1) w
    by (simp add: process_switch_thread_def process_new_thread_def get_or_create_session_def)
qed

theorem switching_does_not_redirect_witness:
  "\<exists>m1. routing_inv m1 \<and> snd (resolve_thread show_nat 0 0 0 ''ann'' ''cli'' None
        (fst (process_new_thread show_nat 0 9 0 ''ann'' m1))) = 7"
proof -
  obtain m1 i where r: "resolve_thread show_nat 0 7 0 ''ann'' ''cli'' None (new_session_manager False) = (m1, i)" by fastforce
  have "snd (resolve_thread show_nat 0 7 0 ''ann'' ''cli'' None (new_session_manager False)) = 7" by code_simp
  with r have "i = 7" by simp
  with resolve_spec [OF new_routing_inv r] switching_does_not_redirect [OF new_routing_inv r] show ?thesis by blast
qed

text \<open>A thread that was made in memory only is never found again: a message addressed to it by its own
  identifier, as the front end does after it made the thread, is put into yet another new thread.\<close>
theorem new_thread_not_addressable:
  assumes "routing_inv m" "parse ext = Some i"
    and "map_of (mg_sessions m) u = Some s" "map_of (threads s) i \<noteq> None"
    and "map_of (mg_thread_map m) \<lparr>tk_user = u, tk_channel = ch, tk_external = Some ext\<rparr> = None"
  shows "snd (resolve_thread su fs ft now u ch (Some ext)
       (maybe_hydrate_thread su parse store fresh now u ch ext m)) = ft"
  using assms by (simp add: maybe_hydrate_thread_def get_or_create_session_def resolve_thread_def Let_def)

theorem new_thread_not_addressable_witness:
  "\<exists>m s. routing_inv m \<and> map_of (mg_sessions m) ''ann'' = Some s \<and> map_of (threads s) 9 \<noteq> None
     \<and> snd (resolve_thread show_nat 0 11 0 ''ann'' ''web'' (Some ''9'')
          (maybe_hydrate_thread show_nat (\<lambda>s. Some 9) None 0 0 ''ann'' ''web'' ''9'' m)) = 11"
proof -
  let ?s = "create_thread 9 0 (new_session 0 0 ''ann'')"
  let ?m = "put_session ''ann'' ?s (new_session_manager False)"
  have "session_inv ?s" by (rule create_thread_inv) (simp add: new_session_def session_inv_def)
  then have "routing_inv ?m"
    by (simp add: routing_inv_def new_session_manager_def dkeys_def) (simp add: create_thread_def new_session_def)
  moreover have "map_of (mg_sessions ?m) ''ann'' = Some ?s" "map_of (threads ?s) 9 \<noteq> None"
    by (simp_all add: new_session_manager_def create_thread_def)
  moreover have "snd (resolve_thread show_nat 0 11 0 ''ann'' ''web'' (Some ''9'')
      (maybe_hydrate_thread show_nat (\<lambda>s. Some 9) None 0 0 ''ann'' ''web'' ''9'' ?m)) = 11"
    by (rule new_thread_not_addressable [of ?m _ _ 9 _ ?s])
       (use calculation in \<open>simp_all add: new_session_manager_def\<close>)
  ultimately show ?thesis by blast
qed

text \<open>Pruning goes by the time a thread was last made or chosen, not by use: whatever turns, approvals
  and answers a session saw since, it is removed with its routes once that time is past.\<close>
theorem active_session_pruned:
  assumes "routing_inv m" "map_of (mg_sessions m) u = Some s"
    and "last_active_at s < now - int idle" "\<not> busy u"
    and "\<forall>e \<in> set es. (\<exists>i op. e = Se_thread i op) \<or> (\<exists>t. e = Se_auto_approve t)"
  shows "map_of (mg_sessions (fst (prune_stale_sessions su now idle busy (put_session u (foldl session_step s es) m)))) u = None
     \<and> (\<forall>k. tk_user k = u \<longrightarrow> map_of (mg_thread_map (fst (prune_stale_sessions su now idle busy
           (put_session u (foldl session_step s es) m)))) k = None)"
proof -
  let ?s = "foldl session_step s es"
  let ?m = "put_session u ?s m"
  have "last_active_at ?s = last_active_at s"
    using assms(5) by (induction es arbitrary: s) (auto simp: update_thread_def auto_approve_tool_def split: option.splits)
  moreover have "grows s ?s"
  proof (induction es arbitrary: s)
    case (Cons e es)
    have "grows s (session_step s e)" by (rule grows_step)
    with Cons [of "session_step s e"] show ?case by (auto simp: grows_def)
  qed (simp add: grows_def)
  ultimately have inv: "routing_inv ?m" and old: "last_active_at ?s < now - int idle"
    using put_session_inv [OF assms(1,2)] assms(3) by simp_all
  have "(u, ?s) \<in> set (mg_sessions ?m)" using map_of_SomeD [of "mg_sessions ?m" u ?s] by simp
  with old assms(4) have "u \<in> set (map fst (stale_sessions (now - int idle) busy ?m))"
    by (force simp: stale_sessions_def)
  with inv show ?thesis
    by (auto simp: prune_stale_sessions_def Let_def routing_inv_def map_of_filter_keys dkeys_map_of_filter
        split: option.split)
qed

theorem active_session_pruned_witness:
  "map_of (mg_sessions (fst (prune_stale_sessions show_nat 1000 100 (\<lambda>u. False)
      (put_session ''ann'' (foldl session_step (new_session 0 0 ''ann'') [Se_auto_approve ''shell''])
         (put_session ''ann'' (new_session 0 0 ''ann'') (new_session_manager False)))))) ''ann'' = None"
proof -
  let ?m = "put_session ''ann'' (new_session 0 0 ''ann'') (new_session_manager False)"
  have inv: "routing_inv ?m"
    by (rule new_session_grows [OF new_routing_inv]) (simp add: new_session_manager_def)
  show ?thesis
    by (rule active_session_pruned [OF inv, THEN conjunct1])
       (simp_all add: new_session_manager_def new_session_def)
qed

end
