(* ===== verification/Context_Compaction.thy ===== *)
theory Context_Compaction
  imports Session
begin

text \<open>
  The size of a conversation, \<open>src/agent/context_monitor.rs\<close>, and its compaction,
  \<open>src/agent/compaction.rs\<close>. The floating-point numbers of the code are rationals: a token count is
  1.3 words rounded down, which the \<open>f64\<close> product gives for every count below \<open>2^45\<close>. The model call,
  the workspace and the clock's texts are the environment \<open>compact_env\<close>; a text other than ASCII is its
  UTF-8 bytes.
\<close>

section \<open>The monitor\<close>

datatype compaction_strategy = Summarize_turns nat | Truncate_turns nat | Move_to_workspace

record context_monitor =
  cx_context_limit :: nat
  cx_threshold_ratio :: rat

definition new_context_monitor :: context_monitor where
  "new_context_monitor = \<lparr>cx_context_limit = 100000, cx_threshold_ratio = 4 / 5\<rparr>"

definition with_context_limit :: "nat \<Rightarrow> context_monitor \<Rightarrow> context_monitor" where
  "with_context_limit l m = m\<lparr>cx_context_limit := l\<rparr>"

definition with_threshold :: "rat \<Rightarrow> context_monitor \<Rightarrow> context_monitor" where
  "with_threshold r m = m\<lparr>cx_threshold_ratio := min (max r (1 / 2)) (19 / 20)\<rparr>"

definition text_tokens :: "string \<Rightarrow> nat" where
  "text_tokens s = 13 * length (split_ws s) div 10"

definition message_tokens :: "chat_message \<Rightarrow> nat" where
  "message_tokens m = text_tokens (content m) + 4"

definition estimate_tokens :: "chat_message list \<Rightarrow> nat" where
  "estimate_tokens ms = sum_list (map message_tokens ms)"

definition cx_threshold :: "context_monitor \<Rightarrow> nat" where
  "cx_threshold m = nat \<lfloor>of_nat (cx_context_limit m) * cx_threshold_ratio m\<rfloor>"

definition needs_compaction :: "context_monitor \<Rightarrow> chat_message list \<Rightarrow> bool" where
  "needs_compaction m ms \<longleftrightarrow> cx_threshold m \<le> estimate_tokens ms"

definition usage_percent :: "context_monitor \<Rightarrow> chat_message list \<Rightarrow> rat" where
  "usage_percent m ms = of_nat (estimate_tokens ms) / of_nat (cx_context_limit m) * 100"

text \<open>The comparisons of the overage are multiplied out, so that a limit of zero counts as exceeded.\<close>

definition suggest_compaction :: "context_monitor \<Rightarrow> chat_message list \<Rightarrow> compaction_strategy option" where
  "suggest_compaction m ms =
     (if \<not> needs_compaction m ms then None
      else if 100 * estimate_tokens ms > 95 * cx_context_limit m then Some (Truncate_turns 3)
      else if 100 * estimate_tokens ms > 85 * cx_context_limit m then Some (Summarize_turns 5)
      else Some Move_to_workspace)"

record context_breakdown =
  bd_total :: nat
  bd_system :: nat
  bd_user :: nat
  bd_assistant :: nat
  bd_tool :: nat
  bd_message_count :: nat

definition add_tokens_of :: "context_breakdown \<Rightarrow> chat_message \<Rightarrow> context_breakdown" where
  "add_tokens_of b m =
     (let t = message_tokens m; b1 = b\<lparr>bd_total := bd_total b + t\<rparr>
      in case role m of
           System \<Rightarrow> b1\<lparr>bd_system := bd_system b1 + t\<rparr>
         | User \<Rightarrow> b1\<lparr>bd_user := bd_user b1 + t\<rparr>
         | Assistant \<Rightarrow> b1\<lparr>bd_assistant := bd_assistant b1 + t\<rparr>
         | Tool \<Rightarrow> b1\<lparr>bd_tool := bd_tool b1 + t\<rparr>)"

definition analyze :: "chat_message list \<Rightarrow> context_breakdown" where
  "analyze ms = foldl add_tokens_of
     \<lparr>bd_total = 0, bd_system = 0, bd_user = 0, bd_assistant = 0, bd_tool = 0, bd_message_count = length ms\<rparr> ms"

section \<open>The compactor\<close>

record 'w compact_env =
  ct_complete :: "'w \<Rightarrow> chat_message list \<Rightarrow> 'w \<times> (llm_error, string) result"
  ct_append :: "('w \<Rightarrow> string \<Rightarrow> string \<Rightarrow> 'w \<times> bool) option"
  ct_date :: "'w \<Rightarrow> string"
  ct_time :: "'w \<Rightarrow> string"

record compaction_result =
  cr_turns_removed :: nat
  cr_tokens_before :: nat
  cr_tokens_after :: nat
  cr_summary_written :: bool
  cr_summary :: "string option"

text \<open>A partial result: turns removed, summary written, summary.\<close>

type_synonym compaction_partial = "nat \<times> bool \<times> string option"

abbreviation LF :: char where "LF \<equiv> CHR 0x0A"

definition said_by :: "chat_message \<Rightarrow> string" where
  "said_by m = (case role m of
     User \<Rightarrow> ''User: '' @ content m
   | Assistant \<Rightarrow> ''Assistant: '' @ content m
   | System \<Rightarrow> ''System: '' @ content m
   | Tool \<Rightarrow> ''Tool '' @ (case cm_name m of Some n \<Rightarrow> n | None \<Rightarrow> ''unknown'') @ '': '' @ content m)"

definition summary_prompt :: string where
  "summary_prompt = ''Summarize the following conversation concisely. Focus on:'' @ [LF]
     @ ''- Key decisions made'' @ [LF] @ ''- Important information exchanged'' @ [LF]
     @ ''- Actions taken'' @ [LF] @ ''- Outcomes achieved'' @ [LF, LF]
     @ ''Be brief but capture all important details. Use bullet points.''"

definition generate_summary ::
  "'w compact_env \<Rightarrow> chat_message list \<Rightarrow> 'w \<Rightarrow> 'w \<times> (llm_error, string) result" where
  "generate_summary env ms w = ct_complete env w
     [msg_system summary_prompt,
      msg_user (''Please summarize this conversation:'' @ [LF, LF] @ join [LF, LF] (map said_by ms))]"

text \<open>An entry of the daily log; without a workspace nothing is written.\<close>

definition append_daily :: "'w compact_env \<Rightarrow> string \<Rightarrow> string \<Rightarrow> 'w \<Rightarrow> 'w \<times> bool" where
  "append_daily env title txt w = (case ct_append env of
     None \<Rightarrow> (w, False)
   | Some put \<Rightarrow> put w (''daily/'' @ ct_date env w @ ''.md'')
       ([LF] @ ''## '' @ title @ '' ('' @ ct_time env w @ '')'' @ [LF, LF] @ txt @ [LF]))"

definition compact_truncate :: "nat \<Rightarrow> thread \<Rightarrow> thread \<times> compaction_partial" where
  "compact_truncate keep th =
     (let th' = truncate_turns keep th in (th', (length (turns th) - length (turns th'), False, None)))"

definition compact_with_summary ::
  "'w compact_env \<Rightarrow> nat \<Rightarrow> thread \<Rightarrow> 'w \<Rightarrow> 'w \<times> thread \<times> (llm_error, compaction_partial) result" where
  "compact_with_summary env keep th w =
     (if length (turns th) \<le> keep then (w, th, Inr (0, False, None))
      else
       (let n = length (turns th) - keep;
            old = concat (map turn_messages (take n (turns th)))
        in case generate_summary env old w of
             (w1, Inl e) \<Rightarrow> (w1, th, Inl e)
           | (w1, Inr summary) \<Rightarrow>
              (let (w2, written) = append_daily env ''Context Summary'' summary w1
               in (w2, truncate_turns keep th, Inr (n, written, Some summary)))))"

definition stored_turn :: "turn \<Rightarrow> string" where
  "stored_turn t = ''**Turn '' @ show_nat (turn_number t + 1) @ ''**'' @ [LF]
     @ ''User: '' @ user_input t @ [LF]
     @ (case response t of Some r \<Rightarrow> ''Agent: '' @ r @ [LF] | None \<Rightarrow> [])
     @ (if turn_tool_calls t = [] then []
        else ''Tools: '' @ join '', '' (map tt_name (turn_tool_calls t)) @ [LF])"

definition format_turns_for_storage :: "turn list \<Rightarrow> string" where
  "format_turns_for_storage ts = join [LF] (map stored_turn ts)"

definition compact_to_workspace ::
  "'w compact_env \<Rightarrow> thread \<Rightarrow> 'w \<Rightarrow> 'w \<times> thread \<times> compaction_partial" where
  "compact_to_workspace env th w =
     (if ct_append env = None then (w, compact_truncate 5 th)
      else if length (turns th) \<le> 10 then (w, th, (0, False, None))
      else
       (let n = length (turns th) - 10;
            (w', written) = append_daily env ''Archived Context'' (format_turns_for_storage (take n (turns th))) w
        in (w', truncate_turns 10 th, (n, written, None))))"

definition compact ::
  "'w compact_env \<Rightarrow> compaction_strategy \<Rightarrow> thread \<Rightarrow> 'w \<Rightarrow> 'w \<times> thread \<times> (llm_error, compaction_result) result" where
  "compact env strategy th w =
     (let before = bd_total (analyze (thread_messages th));
          (w', th', partial) = (case strategy of
             Summarize_turns keep \<Rightarrow> compact_with_summary env keep th w
           | Truncate_turns keep \<Rightarrow> (let (t, p) = compact_truncate keep th in (w, t, Inr p))
           | Move_to_workspace \<Rightarrow> (let (w1, t, p) = compact_to_workspace env th w in (w1, t, Inr p)))
      in case partial of
           Inl e \<Rightarrow> (w', th', Inl e)
         | Inr (removed, written, summary) \<Rightarrow>
            (w', th', Inr \<lparr>cr_turns_removed = removed, cr_tokens_before = before,
               cr_tokens_after = bd_total (analyze (thread_messages th')),
               cr_summary_written = written, cr_summary = summary\<rparr>))"

section \<open>Lemmas\<close>

text \<open>The total of a breakdown is the estimate, and the roles make it up.\<close>

lemma add_tokens_total [simp]: "bd_total (add_tokens_of b m) = bd_total b + message_tokens m"
  by (simp add: add_tokens_of_def Let_def split: role.split)

lemma foldl_total: "bd_total (foldl add_tokens_of b ms) = bd_total b + estimate_tokens ms"
  by (induction ms arbitrary: b) (simp_all add: estimate_tokens_def)

lemma analyze_total: "bd_total (analyze ms) = estimate_tokens ms"
  by (simp add: analyze_def foldl_total)

definition parts_sum :: "context_breakdown \<Rightarrow> bool" where
  "parts_sum b \<longleftrightarrow> bd_total b = bd_system b + bd_user b + bd_assistant b + bd_tool b"

lemma parts_sum_step: "parts_sum b \<Longrightarrow> parts_sum (add_tokens_of b m)"
  by (simp add: parts_sum_def add_tokens_of_def Let_def split: role.split)

lemma analyze_parts: "parts_sum (analyze ms)"
proof -
  have "parts_sum b \<Longrightarrow> parts_sum (foldl add_tokens_of b ms)" for b
    by (induction ms arbitrary: b) (simp_all add: parts_sum_step)
  then show ?thesis by (simp add: analyze_def parts_sum_def)
qed

lemma estimate_append: "estimate_tokens (as @ bs) = estimate_tokens as + estimate_tokens bs"
  by (simp add: estimate_tokens_def)

text \<open>Renumbering changes no message, so a truncated thread has the last messages.\<close>

lemma renumber_messages [simp]: "map turn_messages (renumber n ts) = map turn_messages ts"
  by (induction ts arbitrary: n) (auto simp: turn_messages_def)

definition older_messages :: "nat \<Rightarrow> thread \<Rightarrow> chat_message list" where
  "older_messages keep th = concat (map turn_messages (take (length (turns th) - keep) (turns th)))"

lemma truncate_messages:
  "thread_messages th = older_messages keep th @ thread_messages (truncate_turns keep th)"
proof -
  let ?n = "length (turns th) - keep"
  have "map turn_messages (turns th) = map turn_messages (take ?n (turns th)) @ map turn_messages (drop ?n (turns th))"
    by (simp flip: map_append)
  then have "thread_messages th = older_messages keep th @ concat (map turn_messages (drop ?n (turns th)))"
    by (simp add: thread_messages_def older_messages_def)
  moreover have "thread_messages (truncate_turns keep th) = concat (map turn_messages (drop ?n (turns th)))"
    by (simp add: thread_messages_def truncate_turns_def last_n_def)
  ultimately show ?thesis by (rule trans [OF _ arg_cong2 [OF refl sym]])
qed

lemma truncate_length [simp]: "length (turns (truncate_turns keep th)) = min keep (length (turns th))"
  by (simp add: truncate_turns_def)

text \<open>What a strategy does to the thread: nothing, or it keeps a number of turns.\<close>

lemma compact_thread:
  assumes "compact env strategy th w = (w', th', r)"
  shows "th' = th \<or> (\<exists>keep. th' = truncate_turns keep th)"
  using assms
  by (cases strategy)
     (auto simp: compact_def compact_with_summary_def compact_truncate_def compact_to_workspace_def Let_def
        split: if_splits prod.splits sum.splits)

section \<open>Properties\<close>

text \<open>Compaction forgets old messages only: whatever the strategy, the model and the workspace do, the
  conversation afterwards is the end of the conversation before, its turns are numbered from zero if
  they were, and its estimate is not larger.\<close>
theorem compaction_keeps_recent:
  assumes "compact env strategy th w = (w', th', r)"
  shows "\<exists>old. thread_messages th = old @ thread_messages th' \<and> (turns_wf th \<longrightarrow> turns_wf th')
     \<and> estimate_tokens (thread_messages th') \<le> estimate_tokens (thread_messages th)"
  using compact_thread [OF assms]
proof
  assume "\<exists>keep. th' = truncate_turns keep th"
  then obtain keep where k: "th' = truncate_turns keep th" ..
  with truncate_messages [of th keep] have m: "thread_messages th = older_messages keep th @ thread_messages th'" by simp
  have "turns_wf th \<Longrightarrow> turns_wf th'" unfolding k by (rule truncate_turns_wf)
  with m show ?thesis by (auto simp: estimate_append)
qed auto

definition example_talk :: "nat \<Rightarrow> thread" where
  "example_talk n = restore_from_messages 0 (map (\<lambda>i. msg_user (show_nat i)) [0 ..< n]) (new_thread 1 0 2)"

definition silent_env :: "nat compact_env" where
  "silent_env = \<lparr>ct_complete = (\<lambda>w ms. (w, Inl (AuthFailed ''p''))), ct_append = Some (\<lambda>w p e. (w, False)),
     ct_date = (\<lambda>w. ''2025-01-01''), ct_time = (\<lambda>w. ''10:00 UTC'')\<rparr>"

theorem compaction_keeps_recent_witness:
  "\<exists>old w' th' r. compact silent_env (Truncate_turns 2) (example_talk 4) 0 = (w', th', r)
     \<and> thread_messages (example_talk 4) = old @ thread_messages th'"
proof -
  obtain w' th' r where c: "compact silent_env (Truncate_turns 2) (example_talk 4) 0 = (w', th', r)"
    by (cases "compact silent_env (Truncate_turns 2) (example_talk 4) 0") auto
  from compaction_keeps_recent [OF c] c show ?thesis by blast
qed

text \<open>When the summary fails nothing is lost: the error is returned and the thread is as it was.\<close>
theorem summary_failure_harmless:
  assumes "keep < length (turns th)"
    and "generate_summary env (concat (map turn_messages (take (length (turns th) - keep) (turns th)))) w = (w', Inl e)"
  shows "compact env (Summarize_turns keep) th w = (w', th, Inl e)"
  using assms by (simp add: compact_def compact_with_summary_def Let_def)

theorem summary_failure_harmless_witness:
  "\<exists>w'. compact silent_env (Summarize_turns 2) (example_talk 4) 0 = (w', example_talk 4, Inl (AuthFailed ''p''))"
proof -
  have "(2::nat) < length (turns (example_talk 4))" by code_simp
  moreover have "generate_summary silent_env ms 0 = (0, Inl (AuthFailed ''p''))" for ms
    by (simp add: generate_summary_def silent_env_def)
  ultimately show ?thesis by (intro exI) (rule summary_failure_harmless)
qed

text \<open>The archive is no backup: when every write of the workspace fails, moving the context there
  drops all but ten turns all the same, reports success and leaves no copy.\<close>
theorem archive_failure_loses_turns:
  assumes "ct_append env = Some (\<lambda>w path entry. (w, False))" "10 < length (turns th)"
  shows "\<exists>r. compact env Move_to_workspace th w = (w, truncate_turns 10 th, Inr r)
     \<and> cr_turns_removed r = length (turns th) - 10 \<and> \<not> cr_summary_written r"
  using assms by (simp add: compact_def compact_to_workspace_def append_daily_def Let_def)

theorem archive_failure_loses_turns_witness:
  "\<exists>r. compact silent_env Move_to_workspace (example_talk 12) 0 = (0, truncate_turns 10 (example_talk 12), Inr r)
     \<and> cr_turns_removed r = 2"
proof -
  have "length (turns (example_talk 12)) = 12" by code_simp
  with archive_failure_loses_turns [of silent_env "example_talk 12" 0] show ?thesis by (auto simp: silent_env_def)
qed

text \<open>The bands of the default monitor: nothing below 80000 estimated tokens, then archiving,
  summarizing above 85000 and cutting above 95000.\<close>
theorem compaction_bands:
  "suggest_compaction new_context_monitor ms =
     (if estimate_tokens ms < 80000 then None
      else if estimate_tokens ms \<le> 85000 then Some Move_to_workspace
      else if estimate_tokens ms \<le> 95000 then Some (Summarize_turns 5)
      else Some (Truncate_turns 3))"
  by (simp add: suggest_compaction_def needs_compaction_def cx_threshold_def new_context_monitor_def)

end
