(* ===== verification/Scheduler.thy ===== *)
theory Scheduler
  imports Job_Manager
begin

text \<open>
  The job scheduler, \<open>src/agent/scheduler.rs\<close>, over the job manager, and the marks by which a worker
  ends a job, \<open>src/agent/worker.rs\<close>. A worker task is an entry of \<open>js_running\<close> with a flag that is set
  when the task has finished; the entry stays until it is cleaned up. What is sent to the database
  (fire and forget) is logged in \<open>js_stored\<close> and \<open>js_saved\<close>.
\<close>

section \<open>State\<close>

record job_system =
  js_manager :: manager
  js_max_parallel :: nat
  js_running :: "(uuid \<times> bool) list"
  js_subtasks :: "(uuid \<times> bool) list"
  js_has_store :: bool
  js_stored :: "(uuid \<times> job_state \<times> string option) list"
  js_saved :: "job_context list"

definition new_job_system :: "nat \<Rightarrow> nat \<Rightarrow> bool \<Rightarrow> job_system" where
  "new_job_system max_jobs max_parallel has_store =
     \<lparr>js_manager = new_manager max_jobs, js_max_parallel = max_parallel, js_running = [], js_subtasks = [],
      js_has_store = has_store, js_stored = [], js_saved = []\<rparr>"

text \<open>\<open>update_context(id, |c| c.transition_to(..)).await?.map_err(ContextError)\<close>.\<close>

definition context_result ::
  "uuid \<Rightarrow> (job_error, (string, unit) result) result \<times> manager \<Rightarrow> (job_error, unit) result \<times> manager" where
  "context_result i r = (case r of
     (Inl e, m) \<Rightarrow> (Inl e, m)
   | (Inr (Inl why), m) \<Rightarrow> (Inl (Job_ContextError i why), m)
   | (Inr (Inr u), m) \<Rightarrow> (Inr (), m))"

definition change_state ::
  "uuid \<Rightarrow> job_state \<Rightarrow> string \<Rightarrow> instant \<Rightarrow> instant \<Rightarrow> manager \<Rightarrow> (job_error, unit) result \<times> manager" where
  "change_state i new why t1 t2 m =
     context_result i (update_context i (\<lambda>c. transition_to c new (Some why) t1 t2) m)"

definition persist_status :: "uuid \<Rightarrow> job_state \<Rightarrow> string option \<Rightarrow> job_system \<Rightarrow> job_system" where
  "persist_status i st why s =
     (if js_has_store s then s\<lparr>js_stored := js_stored s @ [(i, st, why)]\<rparr> else s)"

section \<open>Operations\<close>

definition schedule :: "uuid \<Rightarrow> instant \<Rightarrow> instant \<Rightarrow> job_system \<Rightarrow> job_system \<times> (job_error, unit) result" where
  "schedule i t1 t2 s =
     (if map_of (js_running s) i \<noteq> None then (s, Inr ())
      else if length (js_running s) \<ge> js_max_parallel s then (s, Inl (Job_MaxJobsExceeded (js_max_parallel s)))
      else case change_state i InProgress ''Scheduled for execution'' t1 t2 (js_manager s) of
        (Inl e, m) \<Rightarrow> (s\<lparr>js_manager := m\<rparr>, Inl e)
      | (Inr _, m) \<Rightarrow> (s\<lparr>js_manager := m, js_running := AList.update i False (js_running s)\<rparr>, Inr ()))"

text \<open>The transition to Cancelled may be refused; the cancellation is stored all the same.\<close>

definition stop_job :: "uuid \<Rightarrow> instant \<Rightarrow> instant \<Rightarrow> job_system \<Rightarrow> job_system \<times> (job_error, unit) result" where
  "stop_job i t1 t2 s =
     (if map_of (js_running s) i = None then (s, Inr ())
      else
       (let s1 = s\<lparr>js_running := AList.delete i (js_running s)\<rparr>
        in case update_context i (\<lambda>c. transition_to c Cancelled (Some ''Stopped by scheduler'') t1 t2) (js_manager s) of
             (Inl e, m) \<Rightarrow> (s1\<lparr>js_manager := m\<rparr>, Inl e)
           | (Inr _, m) \<Rightarrow>
               (persist_status i Cancelled (Some ''Stopped by scheduler'') (s1\<lparr>js_manager := m\<rparr>), Inr ())))"

definition is_running :: "uuid \<Rightarrow> job_system \<Rightarrow> bool" where
  "is_running i s \<longleftrightarrow> map_of (js_running s) i \<noteq> None"

definition running_count :: "job_system \<Rightarrow> nat" where
  "running_count s = length (js_running s)"

definition subtask_count :: "job_system \<Rightarrow> nat" where
  "subtask_count s = length (js_subtasks s)"

definition running_jobs :: "job_system \<Rightarrow> uuid list" where
  "running_jobs s = map fst (js_running s)"

text \<open>The task that waits for one job, and the sweep over all.\<close>

definition reap_job :: "uuid \<Rightarrow> job_system \<Rightarrow> job_system" where
  "reap_job i s =
     (if map_of (js_running s) i = Some False then s
      else s\<lparr>js_running := AList.delete i (js_running s)\<rparr>)"

definition cleanup_finished :: "job_system \<Rightarrow> job_system" where
  "cleanup_finished s = s\<lparr>js_running := filter (\<lambda>(i, finished). \<not> finished) (js_running s),
     js_subtasks := filter (\<lambda>(i, finished). \<not> finished) (js_subtasks s)\<rparr>"

definition stop_all :: "instant \<Rightarrow> instant \<Rightarrow> job_system \<Rightarrow> job_system" where
  "stop_all t1 t2 s =
     (foldl (\<lambda>s i. fst (stop_job i t1 t2 s)) s (running_jobs s))\<lparr>js_subtasks := []\<rparr>"

section \<open>Sub-tasks\<close>

datatype task =
    Job_task uuid string string
  | Tool_exec uuid string json
  | Background uuid

definition task_id :: "task \<Rightarrow> uuid option" where
  "task_id t = (case t of Job_task i _ _ \<Rightarrow> Some i | Tool_exec _ _ _ \<Rightarrow> None | Background i \<Rightarrow> Some i)"

definition task_parent :: "task \<Rightarrow> uuid option" where
  "task_parent t = (case t of Tool_exec p _ _ \<Rightarrow> Some p | _ \<Rightarrow> None)"

definition spawn_subtask :: "uuid \<Rightarrow> uuid \<Rightarrow> task \<Rightarrow> job_system \<Rightarrow> job_system \<times> (job_error, unit) result" where
  "spawn_subtask fresh parent t s =
     (case t of
        Job_task _ _ _ \<Rightarrow>
          (s, Inl (Job_ContextError parent ''Use schedule() for Job tasks, not spawn_subtask()''))
      | _ \<Rightarrow> (s\<lparr>js_subtasks := AList.update fresh False (js_subtasks s)\<rparr>, Inr ()))"

text \<open>
  A batch: every task is spawned, with its fresh identifier, then the answers are awaited in the order
  of the tasks; \<open>None\<close> is a task that ended without an answer (its channel closed).
\<close>

fun spawn_all :: "uuid \<Rightarrow> (uuid \<times> task) list \<Rightarrow> job_system \<Rightarrow> job_system \<times> bool list" where
  "spawn_all parent [] s = (s, [])"
| "spawn_all parent ((i, t) # ts) s =
     (let (s1, r) = spawn_subtask i parent t s; (s2, bs) = spawn_all parent ts s1
      in (s2, (case r of Inr _ \<Rightarrow> True | Inl _ \<Rightarrow> False) # bs))"

definition batch_answer :: "uuid \<Rightarrow> bool \<Rightarrow> (job_error + 'a) option \<Rightarrow> job_error + 'a" where
  "batch_answer parent spawned answer =
     (if spawned
      then (case answer of
              Some r \<Rightarrow> r | None \<Rightarrow> Inl (Job_ContextError parent ''Subtask channel closed unexpectedly''))
      else Inl (Job_ContextError parent ''Subtask failed to spawn''))"

definition spawn_batch ::
  "uuid \<Rightarrow> (uuid \<Rightarrow> (job_error + 'a) option) \<Rightarrow> (uuid \<times> task) list \<Rightarrow> job_system
     \<Rightarrow> job_system \<times> (job_error + 'a) list" where
  "spawn_batch parent answers ts s =
     (let (s', bs) = spawn_all parent ts s
      in (s', map2 (\<lambda>(i, t) b. batch_answer parent b (answers i)) ts bs))"

section \<open>The end of a worker\<close>

datatype worker_end = Ends_completed | Ends_failed string | Ends_stuck string

definition mark_completed :: "uuid \<Rightarrow> instant \<Rightarrow> instant \<Rightarrow> job_system \<Rightarrow> job_system \<times> (job_error, unit) result" where
  "mark_completed i t1 t2 s =
     (case change_state i Completed ''Job completed successfully'' t1 t2 (js_manager s) of
        (Inl e, m) \<Rightarrow> (s\<lparr>js_manager := m\<rparr>, Inl e)
      | (Inr _, m) \<Rightarrow>
          (persist_status i Completed (Some ''Job completed successfully'') (s\<lparr>js_manager := m\<rparr>), Inr ()))"

definition mark_failed ::
  "uuid \<Rightarrow> string \<Rightarrow> instant \<Rightarrow> instant \<Rightarrow> job_system \<Rightarrow> job_system \<times> (job_error, unit) result" where
  "mark_failed i why t1 t2 s =
     (case change_state i Failed why t1 t2 (js_manager s) of
        (Inl e, m) \<Rightarrow> (s\<lparr>js_manager := m\<rparr>, Inl e)
      | (Inr _, m) \<Rightarrow> (persist_status i Failed (Some why) (s\<lparr>js_manager := m\<rparr>), Inr ()))"

definition worker_mark_stuck ::
  "uuid \<Rightarrow> string \<Rightarrow> instant \<Rightarrow> instant \<Rightarrow> job_system \<Rightarrow> job_system \<times> (job_error, unit) result" where
  "worker_mark_stuck i why t1 t2 s =
     (case context_result i (update_context i (\<lambda>c. mark_stuck c why t1 t2) (js_manager s)) of
        (Inl e, m) \<Rightarrow> (s\<lparr>js_manager := m\<rparr>, Inl e)
      | (Inr _, m) \<Rightarrow> (persist_status i Stuck (Some why) (s\<lparr>js_manager := m\<rparr>), Inr ()))"

text \<open>A worker task that ends: its mark, and its entry is finished.\<close>

definition worker_ends :: "uuid \<Rightarrow> worker_end \<Rightarrow> instant \<Rightarrow> instant \<Rightarrow> job_system \<Rightarrow> job_system" where
  "worker_ends i e t1 t2 s =
     (let s1 = fst (case e of
            Ends_completed \<Rightarrow> mark_completed i t1 t2 s
          | Ends_failed why \<Rightarrow> mark_failed i why t1 t2 s
          | Ends_stuck why \<Rightarrow> worker_mark_stuck i why t1 t2 s)
      in s1\<lparr>js_running := AList.update i True (js_running s1)\<rparr>)"

section \<open>Histories\<close>

text \<open>A new job gets an identifier that no job has; a worker ends only while it runs.\<close>

datatype job_event =
    Je_create uuid instant string string string
  | Je_schedule uuid instant instant
  | Je_stop uuid instant instant
  | Je_stop_all instant instant
  | Je_worker uuid worker_end instant instant
  | Je_cleanup uuid
  | Je_sweep
  | Je_subtask uuid uuid task

fun system_step :: "job_system \<Rightarrow> job_event \<Rightarrow> job_system" where
  "system_step s (Je_create i now u t d) =
     (if map_of (mg_contexts (js_manager s)) i = None
      then s\<lparr>js_manager := snd (create_job_for_user i now u t d (js_manager s))\<rparr> else s)"
| "system_step s (Je_schedule i t1 t2) = fst (schedule i t1 t2 s)"
| "system_step s (Je_stop i t1 t2) = fst (stop_job i t1 t2 s)"
| "system_step s (Je_stop_all t1 t2) = stop_all t1 t2 s"
| "system_step s (Je_worker i e t1 t2) =
     (if map_of (js_running s) i = Some False then worker_ends i e t1 t2 s else s)"
| "system_step s (Je_cleanup i) = reap_job i s"
| "system_step s Je_sweep = cleanup_finished s"
| "system_step s (Je_subtask fresh parent t) = fst (spawn_subtask fresh parent t s)"

section \<open>Consistency\<close>

definition state_of :: "uuid \<Rightarrow> manager \<Rightarrow> job_state option" where
  "state_of i m = map_option jstate (map_of (mg_contexts m) i)"

definition may_become :: "uuid \<Rightarrow> job_state \<Rightarrow> manager \<Rightarrow> bool" where
  "may_become i new m \<longleftrightarrow> (case state_of i m of Some st \<Rightarrow> can_transition_to st new | None \<Rightarrow> False)"

lemma state_of_update:
  "state_of j (snd (update_context i f m)) =
     (if j = i then map_option (\<lambda>c. jstate (snd (f c))) (map_of (mg_contexts m) i) else state_of j m)"
  by (auto simp: state_of_def update_context_def update_conv' split: option.split)

lemma transition_state:
  "jstate (snd (transition_to c new why t1 t2)) = (if can_transition_to (jstate c) new then new else jstate c)"
  using transition_ok [of c new why t1 t2] transition_refused [of c new why t1 t2] by auto

lemma state_of_transition:
  "state_of j (snd (update_context i (\<lambda>c. transition_to c new why t1 t2) m)) =
     (if j = i \<and> may_become i new m then Some new else state_of j m)"
  by (simp add: state_of_update transition_state may_become_def) (auto simp: state_of_def split: option.split)

lemma transition_inv:
  assumes "manager_inv m"
  shows "manager_inv (snd (update_context i (\<lambda>c. transition_to c new why t1 t2) m))"
proof -
  have "snd (update_context i (\<lambda>c. transition_to c new why t1 t2) m) =
      snd (update_context i (\<lambda>c. ((), job_step c (Op_transition new why t1 t2))) m)"
    by (simp add: update_context_def split: option.split)
  then show ?thesis using update_context_inv [OF assms, of i "()" "Op_transition new why t1 t2"] by simp
qed

lemma snd_context_result [simp]: "snd (context_result i r) = snd r"
  by (auto simp: context_result_def split: prod.split sum.split)

lemma change_state_state:
  "state_of j (snd (change_state i new why t1 t2 m)) = (if j = i \<and> may_become i new m then Some new else state_of j m)"
  by (simp add: change_state_def state_of_transition)

lemma change_state_inv: "manager_inv m \<Longrightarrow> manager_inv (snd (change_state i new why t1 t2 m))"
  by (simp add: change_state_def transition_inv)

lemma change_state_ok: "fst (change_state i new why t1 t2 m) = Inr () \<longleftrightarrow> may_become i new m"
  by (auto simp: change_state_def context_result_def update_context_def transition_to_def may_become_def
      state_of_def Let_def split: option.split)

lemma change_state_cases:
  obtains e m' where "change_state i new why t1 t2 m = (Inl e, m')" "\<not> may_become i new m"
  | m' where "change_state i new why t1 t2 m = (Inr (), m')" "may_become i new m"
  using change_state_ok [of i new why t1 t2 m]
  by (cases "change_state i new why t1 t2 m"; cases "fst (change_state i new why t1 t2 m)") auto

text \<open>The invariant: a job is in progress exactly when a live worker has it, and there are never more
  entries than the limit.\<close>

definition system_inv :: "job_system \<Rightarrow> bool" where
  "system_inv s \<longleftrightarrow> manager_inv (js_manager s) \<and> dkeys (js_running s)
     \<and> length (js_running s) \<le> js_max_parallel s
     \<and> (\<forall>i. map_of (js_running s) i = Some False \<longleftrightarrow> state_of i (js_manager s) = Some InProgress)"

lemma persist_simps [simp]:
  "js_manager (persist_status i st why s) = js_manager s" "js_running (persist_status i st why s) = js_running s"
  "js_max_parallel (persist_status i st why s) = js_max_parallel s"
  by (simp_all add: persist_status_def)

lemma system_inv_persist [simp]: "system_inv (persist_status i st why s) = system_inv s"
  by (simp add: system_inv_def)

lemma length_update_new: "map_of al k = None \<Longrightarrow> length (AList.update k v al) = Suc (length al)"
  by (induction al) (auto split: if_splits)

lemma length_update_old: "map_of al k \<noteq> None \<Longrightarrow> length (AList.update k v al) = length al"
  by (induction al) (auto split: if_splits)

lemma schedule_inv: "system_inv s \<Longrightarrow> system_inv (fst (schedule i t1 t2 s))"
proof -
  assume inv: "system_inv s"
  show ?thesis
  proof (cases rule: change_state_cases [of i InProgress "''Scheduled for execution''" t1 t2 "js_manager s"])
    case (1 e m')
    have st: "state_of j m' = state_of j (js_manager s)" for j
      using change_state_state [of j i InProgress "''Scheduled for execution''" t1 t2 "js_manager s"] 1 by simp
    have "manager_inv m'"
      using change_state_inv [of "js_manager s" i InProgress "''Scheduled for execution''" t1 t2] inv 1
      by (simp add: system_inv_def)
    with inv 1 st show ?thesis by (auto simp: schedule_def system_inv_def)
  next
    case (2 m')
    have st: "state_of j m' = (if j = i then Some InProgress else state_of j (js_manager s))" for j
      using change_state_state [of j i InProgress "''Scheduled for execution''" t1 t2 "js_manager s"] 2 by simp
    have "manager_inv m'"
      using change_state_inv [of "js_manager s" i InProgress "''Scheduled for execution''" t1 t2] inv 2
      by (simp add: system_inv_def)
    with inv 2 st show ?thesis
      by (auto simp: schedule_def system_inv_def update_conv' length_update_new)
  qed
qed

lemma stop_inv: "system_inv s \<Longrightarrow> system_inv (fst (stop_job i t1 t2 s))"
proof -
  assume inv: "system_inv s"
  let ?r = "update_context i (\<lambda>c. transition_to c Cancelled (Some ''Stopped by scheduler'') t1 t2) (js_manager s)"
  let ?s = "s\<lparr>js_running := AList.delete i (js_running s), js_manager := snd ?r\<rparr>"
  have "manager_inv (snd ?r)" using inv by (simp add: system_inv_def transition_inv)
  moreover have "state_of j (snd ?r) = Some InProgress \<longleftrightarrow> j \<noteq> i \<and> state_of j (js_manager s) = Some InProgress" for j
    by (auto simp: state_of_transition may_become_def)
  ultimately have "system_inv ?s"
    using inv length_delete_le [of i "js_running s"]
    by (auto simp: system_inv_def delete_conv' restrict_map_def intro: order.trans)
  then show ?thesis
    using inv by (cases ?r) (auto simp: stop_job_def Let_def split: sum.split)
qed

lemma stop_all_inv: "system_inv s \<Longrightarrow> system_inv (stop_all t1 t2 s)"
proof -
  have "system_inv s \<Longrightarrow> system_inv (foldl (\<lambda>s i. fst (stop_job i t1 t2 s)) s is')" for is'
    by (induction is' arbitrary: s) (simp_all add: stop_inv)
  then show "system_inv s \<Longrightarrow> system_inv (stop_all t1 t2 s)"
    by (simp add: stop_all_def system_inv_def)
qed

text \<open>What the marks of a worker do to the manager.\<close>

lemma stuck_change: "context_result i (update_context i (\<lambda>c. mark_stuck c why t1 t2) m) = change_state i Stuck why t1 t2 m"
  by (simp add: change_state_def mark_stuck_def)

lemma mark_manager [simp]:
  "js_manager (fst (mark_completed i t1 t2 s)) = snd (change_state i Completed ''Job completed successfully'' t1 t2 (js_manager s))"
  "js_manager (fst (mark_failed i why t1 t2 s)) = snd (change_state i Failed why t1 t2 (js_manager s))"
  "js_manager (fst (worker_mark_stuck i why t1 t2 s)) = snd (change_state i Stuck why t1 t2 (js_manager s))"
  by (auto simp: mark_completed_def mark_failed_def worker_mark_stuck_def stuck_change split: prod.split sum.split)

lemma mark_running [simp]:
  "js_running (fst (mark_completed i t1 t2 s)) = js_running s"
  "js_running (fst (mark_failed i why t1 t2 s)) = js_running s"
  "js_running (fst (worker_mark_stuck i why t1 t2 s)) = js_running s"
  by (simp_all add: mark_completed_def mark_failed_def worker_mark_stuck_def split: prod.split sum.split)

text \<open>A worker's mark always takes effect, since its job is in progress.\<close>

lemma worker_end_inv:
  assumes inv: "system_inv s" and live: "map_of (js_running s) i = Some False"
  shows "system_inv (worker_ends i e t1 t2 s)"
proof -
  have p: "state_of i (js_manager s) = Some InProgress" using inv live by (simp add: system_inv_def)
  obtain new why where e: "new \<in> {Completed, Failed, Stuck}"
    "worker_ends i e t1 t2 s = (case change_state i new why t1 t2 (js_manager s) of
        (Inl _, m) \<Rightarrow> s\<lparr>js_manager := m, js_running := AList.update i True (js_running s)\<rparr>
      | (Inr _, m) \<Rightarrow> (persist_status i new (Some why) (s\<lparr>js_manager := m\<rparr>))
           \<lparr>js_running := AList.update i True (js_running s)\<rparr>)"
  proof (cases e)
    case Ends_completed
    then show ?thesis
      by (intro that [of Completed "''Job completed successfully''"])
        (auto simp: worker_ends_def mark_completed_def Let_def split: prod.split sum.split)
  next
    case (Ends_failed why)
    then show ?thesis
      by (intro that [of Failed why]) (auto simp: worker_ends_def mark_failed_def Let_def split: prod.split sum.split)
  next
    case (Ends_stuck why)
    then show ?thesis
      by (intro that [of Stuck why])
        (auto simp: worker_ends_def worker_mark_stuck_def mark_stuck_def change_state_def Let_def
          split: prod.split sum.split)
  qed
  have "may_become i new (js_manager s)" using e(1) p by (auto simp: may_become_def)
  then obtain m' where m': "change_state i new why t1 t2 (js_manager s) = (Inr (), m')"
    by (cases rule: change_state_cases [of i new why t1 t2 "js_manager s"]) auto
  have "manager_inv m'"
    using change_state_inv [of "js_manager s" i new why t1 t2] inv m' by (simp add: system_inv_def)
  moreover have "state_of j m' = (if j = i then Some new else state_of j (js_manager s))" for j
    using change_state_state [of j i new why t1 t2 "js_manager s"] \<open>may_become i new (js_manager s)\<close> m' by simp
  moreover have "length (AList.update i True (js_running s)) = length (js_running s)"
    using live by (simp add: length_update_old)
  ultimately show ?thesis
    using inv live e(1) unfolding e(2) m'
    by (auto simp: system_inv_def update_conv')
qed

lemma create_inv:
  assumes inv: "system_inv s" and new: "map_of (mg_contexts (js_manager s)) i = None"
  shows "system_inv (s\<lparr>js_manager := snd (create_job_for_user i now u t d (js_manager s))\<rparr>)"
proof -
  let ?m = "snd (create_job_for_user i now u t d (js_manager s))"
  have "?m = manager_step (js_manager s) (Mg_create_context i now u t d) \<or>
      ?m = manager_step (manager_step (js_manager s) (Mg_create_context i now u t d)) (Mg_create_memory i)"
    by (auto simp: create_job_for_user_def create_context_def)
  then have "manager_inv ?m" using inv by (auto simp: system_inv_def intro!: manager_step_inv simp del: manager_step.simps)
  moreover have "state_of j ?m = Some InProgress \<longleftrightarrow> state_of j (js_manager s) = Some InProgress" for j
    using new by (auto simp: state_of_def create_job_for_user_def create_context_def create_memory_def
        update_conv' with_user_def split: prod.split sum.split)
  ultimately show ?thesis using inv by (simp add: system_inv_def)
qed

lemma system_step_inv: "system_inv s \<Longrightarrow> system_inv (system_step s e)"
proof (cases e)
  case (Je_cleanup i)
  assume "system_inv s"
  with Je_cleanup length_delete_le [of i "js_running s"] show ?thesis
    by (auto simp: reap_job_def system_inv_def delete_conv' restrict_map_def intro: order.trans)
next
  case Je_sweep
  assume "system_inv s"
  moreover from this have "dkeys (js_running s)" by (simp add: system_inv_def)
  then have "map_of (filter (\<lambda>(i, finished). \<not> finished) (js_running s)) i = Some False \<longleftrightarrow>
      map_of (js_running s) i = Some False" for i
    by (auto simp: dkeys_map_of_filter split: option.splits)
  ultimately show ?thesis using Je_sweep
    by (auto simp: cleanup_finished_def system_inv_def intro: order.trans [OF length_filter_le])
next
  case (Je_subtask fresh parent t)
  assume "system_inv s"
  with Je_subtask show ?thesis by (auto simp: spawn_subtask_def system_inv_def split: task.split)
qed (simp_all add: schedule_inv stop_inv stop_all_inv worker_end_inv create_inv)

interpretation job_system: transition_system system_step system_inv
  by unfold_locales (rule system_step_inv)

lemma new_job_system_inv [simp]: "system_inv (new_job_system max_jobs max_parallel db)"
  by (simp add: system_inv_def new_job_system_def new_manager_inv) (simp add: state_of_def new_manager_def)

lemma system_step_max [simp]: "js_max_parallel (system_step s e) = js_max_parallel s"
proof -
  have stop: "js_max_parallel (fst (stop_job i t1 t2 s)) = js_max_parallel s" for i t1 t2 s
    by (auto simp: stop_job_def Let_def split: prod.split sum.split)
  have "js_max_parallel (foldl (\<lambda>s i. fst (stop_job i t1 t2 s)) s is') = js_max_parallel s" for t1 t2 is' s
    by (induction is' arbitrary: s) (simp_all add: stop)
  then show ?thesis
    by (cases e) (auto simp: schedule_def stop stop_all_def worker_ends_def mark_completed_def mark_failed_def
        worker_mark_stuck_def reap_job_def cleanup_finished_def spawn_subtask_def Let_def
        split: prod.split sum.split worker_end.split task.split)
qed

section \<open>Properties\<close>

text \<open>C36: After any history of creations, schedulings, stops, worker ends and cleanups, at most the
  configured number of workers is there, and a job is in progress exactly when a live worker has it.\<close>
theorem in_progress_iff_worker:
  "length (js_running (foldl system_step (new_job_system max_jobs max_parallel db) es)) \<le> max_parallel
   \<and> (map_of (js_running (foldl system_step (new_job_system max_jobs max_parallel db) es)) i = Some False
        \<longleftrightarrow> state_of i (js_manager (foldl system_step (new_job_system max_jobs max_parallel db) es)) = Some InProgress)"
proof -
  have "js_max_parallel (foldl system_step s es) = js_max_parallel s" for s
    by (induction es arbitrary: s) simp_all
  then show ?thesis
    using job_system.run_inv [OF new_job_system_inv, of max_jobs max_parallel db es]
    by (simp add: system_inv_def) (simp add: new_job_system_def)
qed

text \<open>A job that was completed but whose entry was not cleaned up yet cannot be cancelled; stopping it
  reports success and stores it as cancelled although it stays completed.\<close>
theorem stop_stores_refused_cancellation:
  assumes "map_of (js_running s) i \<noteq> None" "state_of i (js_manager s) = Some Completed" "js_has_store s"
  shows "\<exists>s'. stop_job i t1 t2 s = (s', Inr ()) \<and> state_of i (js_manager s') = Some Completed
     \<and> js_stored s' = js_stored s @ [(i, Cancelled, Some ''Stopped by scheduler'')]"
proof -
  let ?r = "update_context i (\<lambda>c. transition_to c Cancelled (Some ''Stopped by scheduler'') t1 t2) (js_manager s)"
  have "state_of i (snd ?r) = Some Completed"
    using assms(2) by (simp add: state_of_transition may_become_def)
  moreover obtain x where "fst ?r = Inr x"
    using assms(2) by (auto simp: update_context_def state_of_def)
  ultimately show ?thesis
    using assms(1,3) by (cases ?r) (auto simp: stop_job_def persist_status_def Let_def)
qed

theorem stop_stores_refused_cancellation_witness:
  "\<exists>s'. stop_job 7 5 6 (foldl system_step (new_job_system 2 2 True)
       [Je_create 7 0 ''ann'' ''t'' ''d'', Je_schedule 7 1 2, Je_worker 7 Ends_completed 3 4]) = (s', Inr ())
     \<and> state_of 7 (js_manager s') = Some Completed \<and> last (js_stored s') = (7, Cancelled, Some ''Stopped by scheduler'')"
proof -
  let ?s = "foldl system_step (new_job_system 2 2 True)
       [Je_create 7 0 ''ann'' ''t'' ''d'', Je_schedule 7 1 2, Je_worker 7 Ends_completed 3 4]"
  have "map_of (js_running ?s) 7 \<noteq> None \<and> state_of 7 (js_manager ?s) = Some Completed \<and> js_has_store ?s" by code_simp
  with stop_stores_refused_cancellation [of ?s 7 5 6] show ?thesis by fastforce
qed

end
