(* ===== verification/Self_Repair.thy ===== *)
theory Self_Repair
  imports Scheduler
begin

text \<open>
  The repair of stuck jobs and broken tools, \<open>src/agent/self_repair.rs\<close>. The software builder and the
  store of tool failures are parameters; what is told to the store is returned as a list of notes. The
  clock counts nanoseconds.
\<close>

section \<open>Stuck jobs\<close>

record stuck_job =
  sj_job_id :: uuid
  sj_last_activity :: instant
  sj_stuck_duration :: duration
  sj_last_error :: "string option"
  sj_repair_attempts :: "32 word"

datatype repair_result =
    Repair_success string
  | Repair_retry string
  | Repair_failed string
  | Manual_required string

record self_repair =
  sr_max_repair_attempts :: "32 word"
  sr_has_store :: bool
  sr_show_uuid :: "uuid \<Rightarrow> string"
  sr_show_duration :: "duration \<Rightarrow> string"

definition stuck_entry :: "instant \<Rightarrow> uuid \<Rightarrow> job_context \<Rightarrow> stuck_job" where
  "stuck_entry now i c =
     \<lparr>sj_job_id = i,
      sj_last_activity = (case started_at c of Some t \<Rightarrow> t | None \<Rightarrow> created_at c),
      sj_stuck_duration = (case started_at c of Some t \<Rightarrow> nat (now - t) div 10 ^ 9 | None \<Rightarrow> 0),
      sj_last_error = None, sj_repair_attempts = repair_attempts c\<rparr>"

definition detect_stuck_jobs :: "instant \<Rightarrow> job_system \<Rightarrow> stuck_job list" where
  "detect_stuck_jobs now s = List.map_filter (\<lambda>i. case get_context i (js_manager s) of
       Inr c \<Rightarrow> (if jstate c = Stuck then Some (stuck_entry now i c) else None)
     | Inl _ \<Rightarrow> None) (find_stuck_jobs (js_manager s))"

text \<open>The job is the snapshot of the detection. The error is the reason of \<open>RepairError::Failed\<close>.\<close>

definition repair_stuck_job ::
  "self_repair \<Rightarrow> stuck_job \<Rightarrow> instant \<Rightarrow> instant \<Rightarrow> job_system \<Rightarrow> job_system \<times> (string, repair_result) result" where
  "repair_stuck_job r j t1 t2 s =
     (let i = sj_job_id j in
      if sj_repair_attempts j \<ge> sr_max_repair_attempts r then
       (let limit = show_nat (unat (sr_max_repair_attempts r));
            why = ''exceeded maximum repair attempts ('' @ limit @ '')'';
            (res, m) = change_state i Failed why t1 t2 (js_manager s);
            s1 = s\<lparr>js_manager := m\<rparr>;
            s2 = (case res of
                    Inr _ \<Rightarrow> (if sr_has_store r then s1\<lparr>js_stored := js_stored s1 @ [(i, Failed, Some why)]\<rparr> else s1)
                  | Inl _ \<Rightarrow> s1)
        in (s2, Inr (Manual_required (''Job '' @ sr_show_uuid r i
              @ '' has exceeded maximum repair attempts ('' @ limit @ ''); marked Failed''))))
      else case update_context i (\<lambda>c. attempt_recovery c t1 t2) (js_manager s) of
        (Inr (Inr _), m) \<Rightarrow> (s\<lparr>js_manager := m\<rparr>,
           Inr (Repair_success (''Job '' @ sr_show_uuid r i @ '' recovered and will be retried'')))
      | (Inr (Inl e), m) \<Rightarrow> (s\<lparr>js_manager := m\<rparr>, Inr (Repair_retry (''Recovery attempt failed: '' @ e)))
      | (Inl e, m) \<Rightarrow> (s\<lparr>js_manager := m\<rparr>, Inl (job_error_text (sr_show_uuid r) (sr_show_duration r) e)))"

section \<open>Broken tools\<close>

record broken_tool =
  bt_name :: string
  bt_failure_count :: "32 word"
  bt_last_error :: "string option"
  bt_repair_attempts :: "32 word"

record build_result =
  br_success :: bool
  br_registered :: bool
  br_iterations :: "32 word"
  br_error :: "string option"

datatype store_note = Note_attempt string | Note_repaired string

text \<open>\<open>detect\<close> is the store's list of tools with at least five failures; \<open>build\<close> runs the builder on a
  description of the repair.\<close>

definition detect_broken_tools :: "(nat \<Rightarrow> (string, broken_tool list) result) option \<Rightarrow> broken_tool list" where
  "detect_broken_tools store = (case store of
     None \<Rightarrow> []
   | Some tools_over \<Rightarrow> (case tools_over 5 of Inr ts \<Rightarrow> ts | Inl _ \<Rightarrow> []))"

definition repair_description :: "broken_tool \<Rightarrow> string" where
  "repair_description t = ''Repair broken WASM tool.'' @ [CHR 0x0A, CHR 0x0A]
     @ ''Tool name: '' @ bt_name t @ [CHR 0x0A]
     @ ''Previous error: '' @ (case bt_last_error t of Some e \<Rightarrow> e | None \<Rightarrow> ''Unknown error'') @ [CHR 0x0A]
     @ ''Failure count: '' @ show_nat (unat (bt_failure_count t)) @ [CHR 0x0A, CHR 0x0A]
     @ ''Analyze the error, fix the implementation, and rebuild.''"

definition quoted :: "string \<Rightarrow> string" where
  "quoted s = [CHR 0x27] @ s @ [CHR 0x27]"

definition repair_broken_tool ::
  "self_repair \<Rightarrow> ('w \<Rightarrow> string \<Rightarrow> string \<Rightarrow> 'w \<times> (string, build_result) result) option \<Rightarrow> broken_tool \<Rightarrow> 'w
     \<Rightarrow> 'w \<times> store_note list \<times> repair_result" where
  "repair_broken_tool r builder t w =
     (case builder of
        None \<Rightarrow> (w, [], Manual_required (''Builder not available for repairing tool '' @ quoted (bt_name t)))
      | Some build \<Rightarrow>
         (if \<not> sr_has_store r then (w, [], Manual_required ''Store not available for tracking repair'')
          else if bt_repair_attempts t \<ge> sr_max_repair_attempts r then
            (w, [], Manual_required (''Tool '' @ quoted (bt_name t) @ '' exceeded max repair attempts (''
               @ show_nat (unat (sr_max_repair_attempts r)) @ '')''))
          else
            (let attempt = Note_attempt (bt_name t); (w', res) = build w (bt_name t) (repair_description t)
             in case res of
                  Inl e \<Rightarrow> (w', [attempt], Repair_retry (''Repair build error: '' @ e))
                | Inr b \<Rightarrow>
                   (if br_success b then
                      (w', [attempt, Note_repaired (bt_name t)],
                       Repair_success (''Tool '' @ quoted (bt_name t) @ '' repaired successfully after ''
                         @ show_nat (unat (br_iterations b)) @ '' iterations''))
                    else
                      (w', [attempt],
                       Repair_retry (''Repair attempt '' @ show_nat (unat (bt_repair_attempts t + 1)) @ '' for ''
                         @ quoted (bt_name t) @ '' failed: ''
                         @ (case br_error b of Some e \<Rightarrow> e | None \<Rightarrow> ''Unknown error'')))))))"

section \<open>Lemmas\<close>

lemma recovery_state:
  "jstate c = Stuck \<Longrightarrow> fst (attempt_recovery c t1 t2) = Inr () \<and> jstate (snd (attempt_recovery c t1 t2)) = InProgress"
  by (simp add: attempt_recovery_def transition_to_def Let_def)

text \<open>A job in progress without a worker stays like that, whatever the scheduler is told.\<close>

definition abandoned :: "uuid \<Rightarrow> job_system \<Rightarrow> bool" where
  "abandoned i s \<longleftrightarrow> state_of i (js_manager s) = Some InProgress \<and> map_of (js_running s) i = None"

lemma change_state_other: "j \<noteq> i \<Longrightarrow> state_of i (snd (change_state j new why t1 t2 m)) = state_of i m"
  by (simp add: change_state_state)

lemma abandoned_stop: "abandoned i s \<Longrightarrow> abandoned i (fst (stop_job j t1 t2 s))"
proof (cases "j = i")
  case False
  assume a: "abandoned i s"
  let ?r = "update_context j (\<lambda>c. transition_to c Cancelled (Some ''Stopped by scheduler'') t1 t2) (js_manager s)"
  have "state_of i (snd ?r) = state_of i (js_manager s)" using False by (simp add: state_of_transition)
  with a False show ?thesis
    by (cases ?r) (auto simp: abandoned_def stop_job_def delete_conv' restrict_map_def persist_status_def Let_def
        split: sum.split)
qed (simp add: abandoned_def stop_job_def)

lemma abandoned_worker: "abandoned i s \<Longrightarrow> j \<noteq> i \<Longrightarrow> abandoned i (worker_ends j e t1 t2 s)"
  by (cases e) (simp_all add: abandoned_def worker_ends_def Let_def change_state_other update_conv')

lemma abandoned_schedule: "abandoned i s \<Longrightarrow> abandoned i (fst (schedule j t1 t2 s))"
proof (cases "j = i")
  case False
  assume "abandoned i s"
  with change_state_other [OF False, of InProgress "''Scheduled for execution''" t1 t2 "js_manager s"] False
  show ?thesis by (auto simp: abandoned_def schedule_def update_conv' split: prod.split sum.split)
next
  case True
  assume "abandoned i s"
  then have "\<not> may_become i InProgress (js_manager s)" by (simp add: abandoned_def may_become_def)
  then obtain e m' where c: "change_state i InProgress ''Scheduled for execution'' t1 t2 (js_manager s) = (Inl e, m')"
    by (cases rule: change_state_cases [of i InProgress "''Scheduled for execution''" t1 t2 "js_manager s"]) auto
  moreover have "state_of i m' = state_of i (js_manager s)"
    using change_state_state [of i i InProgress "''Scheduled for execution''" t1 t2 "js_manager s"] c
      \<open>\<not> may_become i InProgress (js_manager s)\<close> by simp
  ultimately show ?thesis using True \<open>abandoned i s\<close> by (auto simp: abandoned_def schedule_def)
qed

lemma abandoned_step: "abandoned i s \<Longrightarrow> abandoned i (system_step s e)"
proof (cases e)
  case (Je_create j now u t d)
  assume "abandoned i s"
  with Je_create show ?thesis
    by (auto simp: abandoned_def state_of_def create_job_for_user_def create_context_def create_memory_def
        update_conv' split: prod.split sum.split)
next
  case (Je_stop_all t1 t2)
  assume a: "abandoned i s"
  have "abandoned i s \<Longrightarrow> abandoned i (foldl (\<lambda>s i. fst (stop_job i t1 t2 s)) s js)" for js
    by (induction js arbitrary: s) (simp_all add: abandoned_stop)
  with a Je_stop_all show ?thesis by (simp add: stop_all_def abandoned_def)
next
  case (Je_worker j x t1 t2)
  assume a: "abandoned i s"
  show ?thesis
  proof (cases "j = i")
    case True
    with a Je_worker show ?thesis by (simp add: abandoned_def)
  next
    case False
    with a Je_worker abandoned_worker [OF a False] show ?thesis by simp
  qed
next
  case (Je_cleanup j)
  assume "abandoned i s"
  with Je_cleanup show ?thesis by (simp add: abandoned_def reap_job_def delete_conv' restrict_map_def)
next
  case Je_sweep
  assume a: "abandoned i s"
  have "map_of (filter P al) k = None" if "map_of al k = None" for P :: "uuid \<times> bool \<Rightarrow> bool" and al k
    using that by (induction al) (auto split: if_splits)
  with a Je_sweep show ?thesis by (simp add: abandoned_def cleanup_finished_def)
next
  case (Je_subtask f p t)
  assume "abandoned i s"
  with Je_subtask show ?thesis by (simp add: abandoned_def spawn_subtask_def split: task.split)
qed (simp_all add: abandoned_schedule abandoned_stop)

section \<open>Properties\<close>


definition example_repair :: self_repair where
  "example_repair = \<lparr>sr_max_repair_attempts = 3, sr_has_store = False, sr_show_uuid = show_nat, sr_show_duration = show_nat\<rparr>"

definition stuck_system :: job_system where
  "stuck_system = foldl system_step (new_job_system 2 2 True)
     [Je_create 7 0 ''ann'' ''t'' ''d'', Je_schedule 7 1 2, Je_worker 7 (Ends_stuck ''Execution timeout'') 3 4, Je_sweep]"


text \<open>The budget of repairs ends a job: once it is used up, a stuck job is marked failed, and a job that
  left the stuck state meanwhile is not touched when failing is not a legal transition of its state.\<close>
theorem repair_budget_fails_job:
  assumes "sr_max_repair_attempts r \<le> sj_repair_attempts j"
  shows "state_of (sj_job_id j) (js_manager (fst (repair_stuck_job r j t1 t2 s))) =
     (if may_become (sj_job_id j) Failed (js_manager s) then Some Failed else state_of (sj_job_id j) (js_manager s))"
proof -
  let ?w = "''exceeded maximum repair attempts ('' @ show_nat (unat (sr_max_repair_attempts r)) @ '')''"
  have "js_manager (fst (repair_stuck_job r j t1 t2 s)) = snd (change_state (sj_job_id j) Failed ?w t1 t2 (js_manager s))"
    using assms by (auto simp: repair_stuck_job_def Let_def split: prod.split sum.split)
  then show ?thesis by (simp add: change_state_state)
qed

theorem repair_budget_fails_job_witness:
  "state_of 7 (js_manager (fst (repair_stuck_job (example_repair\<lparr>sr_max_repair_attempts := 0\<rparr>)
     (stuck_entry 9 7 (with_user 7 0 ''ann'' ''t'' ''d'')) 10 11 stuck_system))) = Some Failed"
proof -
  have "may_become 7 Failed (js_manager stuck_system)" by code_simp
  then show ?thesis
    using repair_budget_fails_job [of "example_repair\<lparr>sr_max_repair_attempts := 0\<rparr>"
        "stuck_entry 9 7 (with_user 7 0 ''ann'' ''t'' ''d'')" 10 11 stuck_system]
    by (simp add: stuck_entry_def with_user_def)
qed

end
