(* ===== verification/Job_Commands.thy ===== *)
theory Job_Commands
  imports Scheduler Submission
begin

text \<open>
  The job commands of the agent, \<open>src/agent/commands.rs\<close>: create, status, cancel, list and help, over
  the job system. What the code prints with library formatting (identifiers, times, amounts) are the
  functions of \<open>command_env\<close>; \<open>cv_parse\<close> is \<open>Uuid::parse_str\<close>, the nil identifier is 0.
\<close>

section \<open>Commands\<close>

record command_env =
  cv_show_uuid :: "uuid \<Rightarrow> string"
  cv_parse :: "string \<Rightarrow> uuid option"
  cv_show_time :: "instant \<Rightarrow> string"
  cv_show_cost :: "rat \<Rightarrow> string"

abbreviation EOL :: char where "EOL \<equiv> CHR 0x0A"

text \<open>\<open>{:?}\<close> of a state.\<close>

fun debug_state :: "job_state \<Rightarrow> string" where
  "debug_state Pending = ''Pending''"
| "debug_state InProgress = ''InProgress''"
| "debug_state Completed = ''Completed''"
| "debug_state Submitted = ''Submitted''"
| "debug_state Accepted = ''Accepted''"
| "debug_state Failed = ''Failed''"
| "debug_state Stuck = ''Stuck''"
| "debug_state Cancelled = ''Cancelled''"

text \<open>The saved context is the one before the job is scheduled.\<close>

definition handle_create_job ::
  "command_env \<Rightarrow> uuid \<Rightarrow> instant \<Rightarrow> instant \<Rightarrow> instant \<Rightarrow> string \<Rightarrow> string \<Rightarrow> string \<Rightarrow> string option
     \<Rightarrow> job_system \<Rightarrow> job_system \<times> (job_error, string) result" where
  "handle_create_job env fresh now t1 t2 u ttl descr cat s =
     (case create_job_for_user fresh now u ttl descr (js_manager s) of
        (Inl e, m) \<Rightarrow> (s\<lparr>js_manager := m\<rparr>, Inl e)
      | (Inr i, m) \<Rightarrow>
         (case (case cat of
                  Some c \<Rightarrow> update_context i (\<lambda>x. ((), x\<lparr>category := Some c\<rparr>)) m
                | None \<Rightarrow> (Inr (), m)) of
            (Inl e, m1) \<Rightarrow> (s\<lparr>js_manager := m1\<rparr>, Inl e)
          | (Inr _, m1) \<Rightarrow>
             (let s1 = s\<lparr>js_manager := m1\<rparr>;
                  s2 = (case get_context i m1 of
                          Inr c \<Rightarrow> (if js_has_store s1 then s1\<lparr>js_saved := js_saved s1 @ [c]\<rparr> else s1)
                        | Inl _ \<Rightarrow> s1)
              in case schedule i t1 t2 s2 of
                   (s3, Inl e) \<Rightarrow> (s3, Inl e)
                 | (s3, Inr _) \<Rightarrow> (s3, Inr (''Created job: '' @ ttl @ [EOL] @ ''ID: '' @ cv_show_uuid env i
                     @ [EOL, EOL] @ ''The job has been scheduled and is now running.'')))))"

text \<open>The job a user names: it has to exist and to be the user's own.\<close>

definition own_job :: "command_env \<Rightarrow> string \<Rightarrow> string \<Rightarrow> job_system \<Rightarrow> (job_error, uuid \<times> job_context) result" where
  "own_job env u txt s =
     (case cv_parse env txt of
        None \<Rightarrow> Inl (Job_NotFound 0)
      | Some i \<Rightarrow>
         (case get_context i (js_manager s) of
            Inl e \<Rightarrow> Inl e
          | Inr c \<Rightarrow> (if user_id c \<noteq> u then Inl (Job_NotFound i) else Inr (i, c))))"

definition show_summary :: "context_summary \<Rightarrow> string" where
  "show_summary y = ''Jobs summary:'' @ [EOL]
     @ ''  Total: '' @ show_nat (su_total y) @ [EOL]
     @ ''  In Progress: '' @ show_nat (su_in_progress y) @ [EOL]
     @ ''  Completed: '' @ show_nat (su_completed y) @ [EOL]
     @ ''  Failed: '' @ show_nat (su_failed y) @ [EOL]
     @ ''  Stuck: '' @ show_nat (su_stuck y)"

definition handle_check_status ::
  "command_env \<Rightarrow> string \<Rightarrow> string option \<Rightarrow> job_system \<Rightarrow> (job_error, string) result" where
  "handle_check_status env u which s =
     (case which of
        Some txt \<Rightarrow>
         (case own_job env u txt s of
            Inl e \<Rightarrow> Inl e
          | Inr (i, c) \<Rightarrow> Inr (''Job: '' @ title c @ [EOL] @ ''Status: '' @ debug_state (jstate c) @ [EOL]
              @ ''Created: '' @ cv_show_time env (created_at c) @ [EOL]
              @ ''Started: '' @ (case started_at c of Some t \<Rightarrow> cv_show_time env t | None \<Rightarrow> ''Not started'') @ [EOL]
              @ ''Actual cost: '' @ cv_show_cost env (actual_cost c)))
      | None \<Rightarrow> Inr (show_summary (summary_for u (js_manager s))))"

definition handle_cancel_job ::
  "command_env \<Rightarrow> instant \<Rightarrow> instant \<Rightarrow> string \<Rightarrow> string \<Rightarrow> job_system \<Rightarrow> job_system \<times> (job_error, string) result" where
  "handle_cancel_job env t1 t2 u txt s =
     (case own_job env u txt s of
        Inl e \<Rightarrow> (s, Inl e)
      | Inr (i, c) \<Rightarrow>
         (case stop_job i t1 t2 s of
            (s', Inl e) \<Rightarrow> (s', Inl e)
          | (s', Inr _) \<Rightarrow> (s', Inr (''Job '' @ txt @ '' has been cancelled.''))))"

definition handle_list_jobs :: "command_env \<Rightarrow> string \<Rightarrow> job_system \<Rightarrow> string" where
  "handle_list_jobs env u s =
     (let jobs = all_jobs_for u (js_manager s) in
      if jobs = [] then ''No jobs found.''
      else ''Jobs:'' @ [EOL] @ concat (map (\<lambda>i. case get_context i (js_manager s) of
           Inr c \<Rightarrow> (if user_id c = u
                     then ''  '' @ cv_show_uuid env i @ '' - '' @ title c @ '' ('' @ debug_state (jstate c) @ '')'' @ [EOL]
                     else [])
         | Inl _ \<Rightarrow> []) jobs))"

definition handle_help_job ::
  "command_env \<Rightarrow> instant \<Rightarrow> instant \<Rightarrow> instant \<Rightarrow> instant \<Rightarrow> string \<Rightarrow> string \<Rightarrow> job_system
     \<Rightarrow> job_system \<times> (job_error, string) result" where
  "handle_help_job env t1 t2 t3 t4 u txt s =
     (case own_job env u txt s of
        Inl e \<Rightarrow> (s, Inl e)
      | Inr (i, c) \<Rightarrow>
         (if jstate c = Stuck then
            (case context_result i (update_context i (\<lambda>x. attempt_recovery x t1 t2) (js_manager s)) of
               (Inl e, m) \<Rightarrow> (s\<lparr>js_manager := m\<rparr>, Inl e)
             | (Inr _, m) \<Rightarrow>
                (case schedule i t3 t4 (s\<lparr>js_manager := m\<rparr>) of
                   (s', Inl e) \<Rightarrow> (s', Inl e)
                 | (s', Inr _) \<Rightarrow> (s', Inr (''Job '' @ txt @ '' was stuck. Attempting recovery (attempt #''
                     @ show_nat (unat (repair_attempts c + 1)) @ '').''))))
          else (s, Inr (''Job '' @ txt @ '' is not stuck (current state: '' @ debug_state (jstate c)
             @ ''). No help needed.''))))"

section \<open>Lemmas\<close>

lemma own_job_Inr:
  "own_job env u txt s = Inr (i, c) \<longleftrightarrow>
     cv_parse env txt = Some i \<and> map_of (mg_contexts (js_manager s)) i = Some c \<and> user_id c = u"
  by (auto simp: own_job_def get_context_def split: option.splits if_splits)

text \<open>The job of another user is answered like a job that is not there.\<close>

lemma own_job_foreign:
  "cv_parse env txt = Some i \<Longrightarrow> map_of (mg_contexts (js_manager s)) i = Some c \<Longrightarrow> user_id c \<noteq> u \<Longrightarrow>
   own_job env u txt s = Inl (Job_NotFound i)"
  by (simp add: own_job_def get_context_def)

definition without_job :: "uuid \<Rightarrow> job_system \<Rightarrow> job_system" where
  "without_job i s = s\<lparr>js_manager := (js_manager s)\<lparr>mg_contexts := AList.delete i (mg_contexts (js_manager s))\<rparr>\<rparr>"

lemma own_job_without: "cv_parse env txt = Some i \<Longrightarrow> own_job env u txt (without_job i s) = Inl (Job_NotFound i)"
  by (simp add: own_job_def get_context_def without_job_def delete_conv' restrict_map_def)

lemma summary_without:
  assumes "dkeys (mg_contexts (js_manager s))" "map_of (mg_contexts (js_manager s)) i = Some c" "user_id c \<noteq> u"
  shows "filter (\<lambda>(j, c). user_id c = u) (mg_contexts (js_manager (without_job i s)))
       = filter (\<lambda>(j, c). user_id c = u) (mg_contexts (js_manager s))"
proof -
  have "filter (\<lambda>(j, c). user_id c = u) (AList.delete i al) = filter (\<lambda>(j, c). user_id c = u) al"
    if "\<forall>c. (i, c) \<in> set al \<longrightarrow> user_id c \<noteq> u" for al
    using that by (induction al) (auto simp: AList.delete_eq)
  moreover have "\<forall>x. (i, x) \<in> set (mg_contexts (js_manager s)) \<longrightarrow> user_id x \<noteq> u"
    using assms by (metis dkeys_map_of option.inject)
  ultimately show ?thesis by (simp add: without_job_def)
qed

lemma get_context_without:
  "get_context j (js_manager (without_job i s)) = (if j = i then Inl (Job_NotFound i) else get_context j (js_manager s))"
  by (simp add: get_context_def without_job_def delete_conv' restrict_map_def)

section \<open>Properties\<close>

text \<open>Another user's jobs are invisible: with the job of somebody else in the manager, status and list
  answer as if it were not there, and cancelling it or helping it changes nothing and is answered as
  for a job that does not exist.\<close>
theorem foreign_jobs_hidden:
  assumes "dkeys (mg_contexts (js_manager s))" "map_of (mg_contexts (js_manager s)) i = Some c" "user_id c \<noteq> u"
    and "cv_parse env txt = Some i"
  shows "handle_check_status env u which s = handle_check_status env u which (without_job i s)
     \<and> handle_list_jobs env u s = handle_list_jobs env u (without_job i s)
     \<and> handle_cancel_job env t1 t2 u txt s = (s, snd (handle_cancel_job env t1 t2 u txt (without_job i s)))
     \<and> handle_help_job env t1 t2 t3 t4 u txt s = (s, snd (handle_help_job env t1 t2 t3 t4 u txt (without_job i s)))"
proof (intro conjI)
  have own: "own_job env u x s = own_job env u x (without_job i s)" for x
    using assms(2,3) by (auto simp: own_job_def get_context_without split: option.split)
      (simp add: get_context_def)
  have sum: "summary_for u (js_manager s) = summary_for u (js_manager (without_job i s))"
    by (simp add: summary_for_def summary_without [OF assms(1-3)])
  show "handle_check_status env u which s = handle_check_status env u which (without_job i s)"
    by (cases which) (simp_all add: handle_check_status_def own sum)
  have all: "all_jobs_for u (js_manager s) = all_jobs_for u (js_manager (without_job i s))"
    by (simp add: all_jobs_for_def summary_without [OF assms(1-3)])
  have "i \<notin> set (all_jobs_for u (js_manager s))"
    using assms(1-3) by (fastforce simp: all_jobs_for_def dkeys_map_of [symmetric])
  then show "handle_list_jobs env u s = handle_list_jobs env u (without_job i s)"
    by (auto simp: handle_list_jobs_def Let_def get_context_without all intro!: arg_cong [of _ _ concat] map_cong)
  show "handle_cancel_job env t1 t2 u txt s = (s, snd (handle_cancel_job env t1 t2 u txt (without_job i s)))"
    using assms by (simp add: handle_cancel_job_def own_job_foreign own_job_without)
  show "handle_help_job env t1 t2 t3 t4 u txt s = (s, snd (handle_help_job env t1 t2 t3 t4 u txt (without_job i s)))"
    using assms by (simp add: handle_help_job_def own_job_foreign own_job_without)
qed

definition example_commands :: command_env where
  "example_commands = \<lparr>cv_show_uuid = show_nat, cv_parse = (\<lambda>s. if s = ''7'' then Some 7 else None),
     cv_show_time = (\<lambda>t. ''now''), cv_show_cost = (\<lambda>c. ''0'')\<rparr>"

definition one_job :: job_system where
  "one_job = fst (handle_create_job example_commands 7 0 1 2 ''ann'' ''t'' ''d'' None (new_job_system 3 1 True))"

lemma one_job_ann: "dkeys (mg_contexts (js_manager one_job))"
  "map_option user_id (map_of (mg_contexts (js_manager one_job)) 7) = Some ''ann''"
  by code_simp+

theorem foreign_jobs_hidden_witness:
  "handle_cancel_job example_commands 5 6 ''bob'' ''7'' one_job = (one_job, Inl (Job_NotFound 7))"
proof -
  obtain c where c: "map_of (mg_contexts (js_manager one_job)) 7 = Some c" "user_id c \<noteq> ''bob''"
    using one_job_ann(2) by auto
  have p: "cv_parse example_commands ''7'' = Some 7" by (simp add: example_commands_def)
  from foreign_jobs_hidden [OF one_job_ann(1) c p] have
    "handle_cancel_job example_commands 5 6 ''bob'' ''7'' one_job
       = (one_job, snd (handle_cancel_job example_commands 5 6 ''bob'' ''7'' (without_job 7 one_job)))" by blast
  then show ?thesis using own_job_without [OF p, of "''bob''" one_job] by (simp add: handle_cancel_job_def)
qed

text \<open>A job that is not running cannot be cancelled: the user is told that it has been cancelled, and
  nothing has changed.\<close>
theorem cancel_of_idle_job_ignored:
  assumes "own_job env u txt s = Inr (i, c)" "map_of (js_running s) i = None"
  shows "handle_cancel_job env t1 t2 u txt s = (s, Inr (''Job '' @ txt @ '' has been cancelled.''))"
  using assms by (simp add: handle_cancel_job_def stop_job_def)

text \<open>A creation that finds all workers busy fails but leaves its job: it is pending, counts as active,
  and the cancel command, which reports success, leaves it pending.\<close>
theorem failed_creation_leaves_job:
  assumes "active_count (js_manager s) < mg_max_jobs (js_manager s)"
    and "js_max_parallel s \<le> length (js_running s)" "map_of (js_running s) i = None"
    and "handle_create_job env i now t1 t2 u ttl descr None s = (s', res)" "cv_parse env txt = Some i"
  shows "res = Inl (Job_MaxJobsExceeded (js_max_parallel s)) \<and> state_of i (js_manager s') = Some Pending
     \<and> handle_cancel_job env t3 t4 u txt s' = (s', Inr (''Job '' @ txt @ '' has been cancelled.''))"
proof -
  let ?m = "create_memory i ((js_manager s)\<lparr>mg_contexts :=
      AList.update i (with_user i now u ttl descr) (mg_contexts (js_manager s))\<rparr>)"
  have "create_job_for_user i now u ttl descr (js_manager s) = (Inr i, ?m)"
    using assms(1) by (simp add: create_job_for_user_def create_context_def)
  moreover have "map_of (mg_contexts ?m) i = Some (with_user i now u ttl descr)"
    by (simp add: create_memory_def)
  ultimately have r: "res = Inl (Job_MaxJobsExceeded (js_max_parallel s)) \<and> js_manager s' = ?m
      \<and> js_running s' = js_running s"
    using assms(2-4) by (auto simp: handle_create_job_def schedule_def get_context_def Let_def split: if_splits)
  with \<open>map_of (mg_contexts ?m) i = _\<close> have "own_job env u txt s' = Inr (i, with_user i now u ttl descr)"
    using assms(5) by (simp add: own_job_Inr) (simp add: with_user_def)
  then have "handle_cancel_job env t3 t4 u txt s' = (s', Inr (''Job '' @ txt @ '' has been cancelled.''))"
    using r assms(3) by (simp add: handle_cancel_job_def stop_job_def)
  with r \<open>map_of (mg_contexts ?m) i = _\<close> show ?thesis by (simp add: state_of_def with_user_def)
qed

text \<open>Help does not restart a stuck job whose worker is gone: the recovery puts it in progress, the
  scheduler then refuses it for being in progress, and the user gets that error.\<close>
theorem help_cannot_restart:
  assumes "own_job env u txt s = Inr (i, c)" "jstate c = Stuck"
    and "map_of (js_running s) i = None" "length (js_running s) < js_max_parallel s"
    and "handle_help_job env t1 t2 t3 t4 u txt s = (s', res)"
  shows "(\<exists>why. res = Inl (Job_ContextError i why)) \<and> state_of i (js_manager s') = Some InProgress
     \<and> map_of (js_running s') i = None"
proof -
  have c: "map_of (mg_contexts (js_manager s)) i = Some c" using assms(1) by (simp add: own_job_Inr)
  obtain c' where r: "attempt_recovery c t1 t2 = (Inr (), c')" "jstate c' = InProgress"
    using assms(2) by (simp add: attempt_recovery_def transition_to_def Let_def)
  let ?m = "(js_manager s)\<lparr>mg_contexts := AList.update i c' (mg_contexts (js_manager s))\<rparr>"
  have u: "update_context i (\<lambda>x. attempt_recovery x t1 t2) (js_manager s) = (Inr (Inr ()), ?m)"
    using c r(1) by (simp add: update_context_def)
  have m: "map_of (mg_contexts ?m) i = Some c'" by simp
  then have "\<not> may_become i InProgress ?m" using r(2) by (simp add: may_become_def state_of_def)
  obtain why m' where ch: "change_state i InProgress ''Scheduled for execution'' t3 t4 ?m = (Inl (Job_ContextError i why), m')"
    using m r(2) by (simp add: change_state_def update_context_def transition_to_def context_result_def)
  have m': "state_of i m' = Some InProgress"
    using change_state_state [of i i InProgress "''Scheduled for execution''" t3 t4 ?m] ch m r(2)
    by (simp add: state_of_def may_become_def)
  have "schedule i t3 t4 (s\<lparr>js_manager := ?m\<rparr>) = (s\<lparr>js_manager := m'\<rparr>, Inl (Job_ContextError i why))"
    using assms(3,4) ch by (simp add: schedule_def)
  then have "handle_help_job env t1 t2 t3 t4 u txt s = (s\<lparr>js_manager := m'\<rparr>, Inl (Job_ContextError i why))"
    using assms(1,2) by (simp add: handle_help_job_def u context_result_def)
  with assms(3,5) m' show ?thesis by auto
qed

text \<open>The three theorems at a concrete system: one job of ann, one worker slot.\<close>

lemma one_job_facts:
  "active_count (js_manager one_job) < mg_max_jobs (js_manager one_job)"
  "js_max_parallel one_job \<le> length (js_running one_job)" "map_of (js_running one_job) 8 = None"
  by code_simp+

definition parse_any :: command_env where
  "parse_any = example_commands\<lparr>cv_parse := (\<lambda>s. if s = ''7'' then Some 7 else if s = ''8'' then Some 8 else None)\<rparr>"

theorem failed_creation_leaves_job_witness:
  "\<exists>s' res. handle_create_job parse_any 8 3 4 5 ''ann'' ''t'' ''d'' None one_job = (s', res)
     \<and> state_of 8 (js_manager s') = Some Pending
     \<and> handle_cancel_job parse_any 6 7 ''ann'' ''8'' s' = (s', Inr (''Job 8 has been cancelled.''))"
proof -
  obtain s' res where r: "handle_create_job parse_any 8 3 4 5 ''ann'' ''t'' ''d'' None one_job = (s', res)" by fastforce
  have p: "cv_parse parse_any ''8'' = Some 8" by (simp add: parse_any_def)
  from failed_creation_leaves_job [OF one_job_facts r p, of 6 7] r show ?thesis by auto
qed

theorem cancel_of_idle_job_ignored_witness:
  "\<exists>s. state_of 8 (js_manager s) = Some Pending
     \<and> handle_cancel_job parse_any 6 7 ''ann'' ''8'' s = (s, Inr (''Job 8 has been cancelled.''))"
proof -
  let ?s = "fst (handle_create_job parse_any 8 3 4 5 ''ann'' ''t'' ''d'' None one_job)"
  have st: "state_of 8 (js_manager ?s) = Some Pending \<and> map_of (js_running ?s) 8 = None
      \<and> map_option user_id (map_of (mg_contexts (js_manager ?s)) 8) = Some ''ann''" by code_simp
  then obtain c where "own_job parse_any ''ann'' ''8'' ?s = Inr (8, c)"
    by (auto simp: own_job_Inr parse_any_def)
  from cancel_of_idle_job_ignored [OF this, of 6 7] st show ?thesis by auto
qed

definition stuck_job_system :: job_system where
  "stuck_job_system = foldl system_step one_job [Je_worker 7 (Ends_stuck ''Execution timeout'') 3 4, Je_sweep]"

theorem help_cannot_restart_witness:
  "\<exists>s' why. handle_help_job parse_any 5 6 7 8 ''ann'' ''7'' stuck_job_system = (s', Inl (Job_ContextError 7 why))
     \<and> state_of 7 (js_manager s') = Some InProgress \<and> map_of (js_running s') 7 = None"
proof -
  have st: "state_of 7 (js_manager stuck_job_system) = Some Stuck \<and> map_of (js_running stuck_job_system) 7 = None
      \<and> map_option user_id (map_of (mg_contexts (js_manager stuck_job_system)) 7) = Some ''ann''
      \<and> length (js_running stuck_job_system) < js_max_parallel stuck_job_system" by code_simp
  then obtain c where c: "own_job parse_any ''ann'' ''7'' stuck_job_system = Inr (7, c)" "jstate c = Stuck"
    by (auto simp: own_job_Inr parse_any_def state_of_def)
  obtain s' res where "handle_help_job parse_any 5 6 7 8 ''ann'' ''7'' stuck_job_system = (s', res)" by fastforce
  with help_cannot_restart [OF c] st show ?thesis by blast
qed

end
