(* ===== verification/Heartbeat.thy ===== *)
theory Heartbeat
  imports Llm_Types
begin

text \<open>
  The heartbeat, \<open>src/agent/heartbeat.rs\<close>, and the structured report it asks the model for,
  \<open>src/agent/attention.rs\<close>. The workspace and the model are the environment \<open>heartbeat_env\<close>; \<open>wire\<close>
  decodes a JSON report into its flag and summary.
\<close>

section \<open>Reports\<close>

record attention_report =
  ar_needs_attention :: bool
  ar_summary :: "string option"

abbreviation NLC :: char where "NLC \<equiv> CHR 0x0A"

definition ATTENTION_FORMAT_INSTRUCTIONS :: string where
  "ATTENTION_FORMAT_INSTRUCTIONS = ''Respond with a single JSON object and nothing else:'' @ [NLC]
     @ ''{'' @ [CHR 0x22] @ ''needs_attention'' @ [CHR 0x22] @ '': <true|false>, '' @ [CHR 0x22] @ ''summary''
     @ [CHR 0x22] @ '': '' @ [CHR 0x22]
     @ ''<if true: a concise summary of what needs action; if false: empty string>'' @ [CHR 0x22] @ ''}''"

definition find_char :: "char \<Rightarrow> string \<Rightarrow> nat option" where
  "find_char c s = (if c \<in> set s then Some (length (takeWhile (\<lambda>d. d \<noteq> c) s)) else None)"

definition rfind_char :: "char \<Rightarrow> string \<Rightarrow> nat option" where
  "rfind_char c s = (if c \<in> set s then Some (length s - 1 - length (takeWhile (\<lambda>d. d \<noteq> c) (rev s))) else None)"

definition FENCE :: string where
  "FENCE = [CHR 0x60, CHR 0x60, CHR 0x60]"

definition strip_report_fence :: "string \<Rightarrow> string" where
  "strip_report_fence s = (case strip_prefix s FENCE of
     None \<Rightarrow> s
   | Some rest \<Rightarrow>
      (let body = (case split_once NLC rest of Some (lang, b) \<Rightarrow> b | None \<Rightarrow> rest)
       in case strip_suffix body FENCE of Some b \<Rightarrow> trim b | None \<Rightarrow> s))"

text \<open>\<open>s.get(start..=end)\<close> of the outermost braces; nothing when they are the wrong way round.\<close>

definition brace_span :: "string \<Rightarrow> string option" where
  "brace_span s = (case (find_char (CHR ''{'') s, rfind_char (CHR ''}'') s) of
     (Some a, Some b) \<Rightarrow> (if a \<le> b + 1 then Some (take (b + 1 - a) (drop a s)) else None)
   | _ \<Rightarrow> None)"

definition parse_attention_report ::
  "(string \<Rightarrow> (bool \<times> string) option) \<Rightarrow> string \<Rightarrow> attention_report" where
  "parse_attention_report wire txt =
     (let trimmed = trim txt; candidate = strip_report_fence trimmed;
          parsed = (case wire candidate of
                      Some w \<Rightarrow> Some w
                    | None \<Rightarrow> (case brace_span candidate of Some j \<Rightarrow> wire j | None \<Rightarrow> None))
      in case parsed of
           Some (flag, said) \<Rightarrow>
             \<lparr>ar_needs_attention = flag, ar_summary = (if trim said = [] then None else Some (trim said))\<rparr>
         | None \<Rightarrow> \<lparr>ar_needs_attention = True, ar_summary = Some trimmed\<rparr>)"

section \<open>The checklist\<close>

lemma find_str_nonempty: "p \<noteq> [] \<Longrightarrow> find_str s p = Some i \<Longrightarrow> s \<noteq> []"
  by (cases s; cases p) auto

function strip_html_comments :: "string \<Rightarrow> string" where
  "strip_html_comments rest = (case find_str rest ''<!--'' of
     None \<Rightarrow> rest
   | Some start \<Rightarrow>
      (case find_str (drop start rest) ''-->'' of
         None \<Rightarrow> take start rest
       | Some stop \<Rightarrow> take start rest @ strip_html_comments (drop (start + stop + 3) rest)))"
  by pat_completeness auto
termination
  by (relation "measure length") (auto dest!: find_str_nonempty [rotated])

declare strip_html_comments.simps [simp del]

definition blank_line :: "string \<Rightarrow> bool" where
  "blank_line line \<longleftrightarrow> (let t = trim line in t = [] \<or> starts_with t ''#'' \<or> t = ''- [ ]'' \<or> t = ''- [x]''
     \<or> t = ''-'' \<or> t = ''*'')"

definition is_effectively_empty :: "string \<Rightarrow> bool" where
  "is_effectively_empty txt \<longleftrightarrow> list_all blank_line (str_lines (strip_html_comments txt))"

section \<open>A check\<close>

datatype heartbeat_result = Hb_ok | Hb_needs_attention string | Hb_skipped | Hb_failed string

record 'w heartbeat_env =
  hb_checklist :: "'w \<Rightarrow> (string, string option) result"
  hb_system_prompt :: "'w \<Rightarrow> (string, string) result"
  hb_context_length :: "'w \<Rightarrow> (llm_error, 32 word option) result"
  hb_complete :: "'w \<Rightarrow> chat_message list \<Rightarrow> 32 word \<Rightarrow> 'w \<times> (llm_error, completion_response) result"
  hb_show_error :: "llm_error \<Rightarrow> string"
  hb_wire :: "string \<Rightarrow> (bool \<times> string) option"

definition heartbeat_prompt :: "string \<Rightarrow> string" where
  "heartbeat_prompt checklist = ''Read the HEARTBEAT.md checklist below and follow it strictly. ''
     @ ''Do not infer or repeat old tasks. Check each item and report findings.'' @ [NLC, NLC]
     @ ATTENTION_FORMAT_INSTRUCTIONS @ [NLC, NLC] @ ''## HEARTBEAT.md'' @ [NLC, NLC] @ checklist"

text \<open>Half the context window, at least 4096 tokens.\<close>

definition heartbeat_max_tokens :: "(llm_error, 32 word option) result \<Rightarrow> 32 word" where
  "heartbeat_max_tokens meta = (case meta of
     Inr l \<Rightarrow> max (case l of Some ctx \<Rightarrow> ctx div 2 | None \<Rightarrow> 4096) 4096
   | Inl _ \<Rightarrow> 4096)"

definition check_heartbeat :: "'w heartbeat_env \<Rightarrow> 'w \<Rightarrow> 'w \<times> heartbeat_result" where
  "check_heartbeat env w =
     (case hb_checklist env w of
        Inl e \<Rightarrow> (w, Hb_failed (''Failed to read checklist: '' @ e))
      | Inr None \<Rightarrow> (w, Hb_skipped)
      | Inr (Some checklist) \<Rightarrow>
         (if is_effectively_empty checklist then (w, Hb_skipped)
          else
           (let prompt = heartbeat_prompt checklist;
                sys = (case hb_system_prompt env w of Inr p \<Rightarrow> p | Inl _ \<Rightarrow> []);
                ms = (if sys = [] then [msg_user prompt] else [msg_system sys, msg_user prompt])
            in case hb_complete env w ms (heartbeat_max_tokens (hb_context_length env w)) of
                 (w', Inl e) \<Rightarrow> (w', Hb_failed (''LLM call failed: '' @ hb_show_error env e))
               | (w', Inr r) \<Rightarrow>
                  (let txt = trim (rs_content r) in
                   (w',
                    if txt = [] then
                      (if rs_finish_reason r = Length
                       then Hb_failed (''LLM response was truncated (finish_reason=length) with no content. ''
                         @ ''The model may have exhausted its token budget on reasoning.'')
                       else Hb_failed ''LLM returned empty content.'')
                    else
                      (let report = parse_attention_report (hb_wire env) txt
                       in if ar_needs_attention report
                          then Hb_needs_attention (case ar_summary report of Some s \<Rightarrow> s | None \<Rightarrow> txt)
                          else Hb_ok))))))"

section \<open>The loop\<close>

record heartbeat_config =
  hc_interval :: duration
  hc_enabled :: bool
  hc_max_failures :: "32 word"
  hc_notify_user_id :: "string option"
  hc_notify_channel :: "string option"

definition default_heartbeat :: heartbeat_config where
  "default_heartbeat = \<lparr>hc_interval = 1800, hc_enabled = True, hc_max_failures = 3, hc_notify_user_id = None,
     hc_notify_channel = None\<rparr>"

record heartbeat_runner =
  hr_failures :: "32 word"
  hr_running :: bool
  hr_sent :: "string list"

text \<open>One tick with the result of its check; a runner that has stopped makes no more checks. The first
  six bytes and the stars are the title of the notification.\<close>

definition heartbeat_notification :: "string \<Rightarrow> string" where
  "heartbeat_notification m = [CHR 0xF0, CHR 0x9F, CHR 0x94, CHR 0x94] @ '' *Heartbeat Alert*'' @ [NLC, NLC] @ m"

definition heartbeat_tick :: "heartbeat_config \<Rightarrow> heartbeat_runner \<Rightarrow> heartbeat_result \<Rightarrow> heartbeat_runner" where
  "heartbeat_tick c r res =
     (if \<not> hr_running r then r
      else case res of
        Hb_ok \<Rightarrow> r\<lparr>hr_failures := 0\<rparr>
      | Hb_needs_attention m \<Rightarrow> r\<lparr>hr_failures := 0, hr_sent := hr_sent r @ [heartbeat_notification m]\<rparr>
      | Hb_skipped \<Rightarrow> r
      | Hb_failed e \<Rightarrow>
         (let n = hr_failures r + 1
          in r\<lparr>hr_failures := n, hr_running := (n < hc_max_failures c)\<rparr>))"

definition heartbeat_run :: "heartbeat_config \<Rightarrow> heartbeat_result list \<Rightarrow> heartbeat_runner" where
  "heartbeat_run c rs = foldl (heartbeat_tick c) \<lparr>hr_failures = 0, hr_running = hc_enabled c, hr_sent = []\<rparr> rs"

section \<open>Lemmas\<close>

text \<open>What a parser looks at is a part of the response.\<close>

lemma contains_trans: "contains_str s t \<Longrightarrow> contains_str t u \<Longrightarrow> contains_str s u"
  by (auto simp: contains_iff) (metis append.assoc)

lemma contains_refl [simp]: "contains_str s s"
  by (simp add: contains_iff) (metis append_Nil append_Nil2)

lemma contains_take_drop: "contains_str s (take n (drop m s))"
  unfolding contains_iff by (metis append_take_drop_id)

lemma contains_trim: "contains_str s (trim s)"
proof -
  have "s = takeWhile is_ws s @ trim_start s" by (simp add: trim_start_def)
  moreover have "trim_start s = trim_end (trim_start s) @ rev (takeWhile is_ws (rev (trim_start s)))"
    by (metis rev_append rev_rev_ident takeWhile_dropWhile_id trim_end_def)
  ultimately show ?thesis unfolding contains_iff trim_def by metis
qed

lemma contains_split_once: "split_once d s = Some (l, r) \<Longrightarrow> contains_str s r"
proof -
  assume "split_once d s = Some (l, r)"
  then have "s = takeWhile (\<lambda>c. c \<noteq> d) s @ [hd (dropWhile (\<lambda>c. c \<noteq> d) s)] @ r"
    by (auto simp: split_once_def split: list.splits)
       (metis append.assoc append_Cons append_Nil list.sel(1) takeWhile_dropWhile_id)
  then show ?thesis unfolding contains_iff by (metis append.assoc append_Nil2)
qed

lemma contains_fence: "contains_str s (strip_report_fence s)"
proof (cases "strip_prefix s FENCE")
  case (Some rest)
  then have s: "s = FENCE @ rest" by (simp add: strip_prefix_Some)
  then have 1: "contains_str s rest" unfolding contains_iff by (metis append_Nil2)
  define body where "body = (case split_once NLC rest of Some (lang, b) \<Rightarrow> b | None \<Rightarrow> rest)"
  have 2: "contains_str rest body"
    using contains_split_once [of NLC rest] by (auto simp: body_def split: option.split)
  show ?thesis
  proof (cases "strip_suffix body FENCE")
    case None
    then show ?thesis using Some by (simp add: strip_report_fence_def body_def Let_def)
  next
    case b: (Some b)
    then have "contains_str body b" unfolding contains_iff strip_suffix_Some by (metis append_Nil)
    with 1 2 have "contains_str s (trim b)" by (metis contains_trans contains_trim)
    with b Some show ?thesis by (simp add: strip_report_fence_def body_def Let_def)
  qed
qed (simp add: strip_report_fence_def)

lemma contains_brace_span: "brace_span s = Some j \<Longrightarrow> contains_str s j"
  by (auto simp: brace_span_def contains_take_drop split: option.splits if_splits)

lemma report_quiet:
  assumes "\<not> ar_needs_attention (parse_attention_report wire txt)"
  shows "\<exists>j said. contains_str txt j \<and> wire j = Some (False, said)"
proof -
  let ?c = "strip_report_fence (trim txt)"
  have c: "contains_str txt ?c" by (metis contains_trans contains_trim contains_fence)
  show ?thesis
  proof (cases "wire ?c")
    case (Some w)
    then show ?thesis using assms c
      by (cases w) (auto simp: parse_attention_report_def Let_def split: if_splits)
  next
    case None
    then obtain j where j: "brace_span ?c = Some j" "wire j \<noteq> None"
      using assms by (auto simp: parse_attention_report_def Let_def split: option.splits)
    with contains_brace_span [OF j(1)] have "contains_str txt j" using c contains_trans by blast
    with None j assms show ?thesis
      by (auto simp: parse_attention_report_def Let_def split: option.splits)
  qed
qed

text \<open>The failures since the last good check; a skipped check counts for nothing.\<close>

definition is_good :: "heartbeat_result \<Rightarrow> bool" where
  "is_good r \<longleftrightarrow> (case r of Hb_ok \<Rightarrow> True | Hb_needs_attention m \<Rightarrow> True | _ \<Rightarrow> False)"

definition is_failure :: "heartbeat_result \<Rightarrow> bool" where
  "is_failure r \<longleftrightarrow> (case r of Hb_failed e \<Rightarrow> True | _ \<Rightarrow> False)"

definition streak :: "heartbeat_result list \<Rightarrow> nat" where
  "streak rs = length (filter is_failure (takeWhile (\<lambda>r. \<not> is_good r) (rev rs)))"

lemma streak_snoc:
  "streak (rs @ [r]) = (if is_good r then 0 else if is_failure r then Suc (streak rs) else streak rs)"
  by (auto simp: streak_def is_good_def is_failure_def)

definition below_limit :: "heartbeat_config \<Rightarrow> heartbeat_result list \<Rightarrow> bool" where
  "below_limit c rs \<longleftrightarrow> (\<forall>k \<le> length rs. streak (take k rs) < unat (hc_max_failures c))"

lemma below_limit_snoc:
  "below_limit c (rs @ [r]) \<longleftrightarrow> below_limit c rs \<and> streak (rs @ [r]) < unat (hc_max_failures c)"
  by (auto simp: below_limit_def le_Suc_eq)

lemma heartbeat_run_snoc: "heartbeat_run c (rs @ [r]) = heartbeat_tick c (heartbeat_run c rs) r"
  by (simp add: heartbeat_run_def)

lemma heartbeat_run_state:
  assumes "hc_enabled c" "0 < hc_max_failures c"
  shows "hr_running (heartbeat_run c rs) = below_limit c rs
     \<and> (below_limit c rs \<longrightarrow> unat (hr_failures (heartbeat_run c rs)) = streak rs)"
proof (induction rs rule: rev_induct)
  case Nil
  then show ?case using assms by (simp add: heartbeat_run_def below_limit_def streak_def word_less_nat_alt)
next
  case (snoc r rs)
  let ?r = "heartbeat_run c rs"
  show ?case
  proof (cases "below_limit c rs")
    case False
    with snoc show ?thesis by (simp add: heartbeat_run_snoc heartbeat_tick_def below_limit_snoc)
  next
    case True
    then have f: "unat (hr_failures ?r) = streak rs" "hr_running ?r" using snoc by simp_all
    have lt: "streak rs < unat (hc_max_failures c)" using True by (auto simp: below_limit_def)
    then have "unat (hr_failures ?r) + 1 < 2 ^ 32"
      using f(1) unat_less_power [of "hc_max_failures c"] by simp
    then have n: "unat (hr_failures ?r + 1) = Suc (streak rs)"
      using f(1) by (simp add: unat_word_ariths)
    show ?thesis
    proof (cases r)
      case (Hb_failed e)
      with True f n show ?thesis
        by (auto simp: heartbeat_run_snoc heartbeat_tick_def below_limit_snoc streak_snoc is_good_def is_failure_def
            Let_def word_less_nat_alt)
    qed (use True f lt in \<open>simp_all add: heartbeat_run_snoc heartbeat_tick_def below_limit_snoc streak_snoc
        is_good_def is_failure_def assms\<close>)
  qed
qed

section \<open>Properties\<close>

text \<open>No alert is dropped: a check is quiet only when the model's response contains a well-formed
  report that says that nothing needs attention.\<close>
theorem quiet_check_was_reported:
  assumes "check_heartbeat env w = (w', Hb_ok)"
  shows "\<exists>ms r j said. hb_complete env w ms (heartbeat_max_tokens (hb_context_length env w)) = (w', Inr r)
     \<and> contains_str (rs_content r) j \<and> hb_wire env j = Some (False, said)"
proof -
  obtain ms r where r: "hb_complete env w ms (heartbeat_max_tokens (hb_context_length env w)) = (w', Inr r)"
    and quiet: "\<not> ar_needs_attention (parse_attention_report (hb_wire env) (trim (rs_content r)))"
    using assms by (auto simp: check_heartbeat_def Let_def split: sum.splits option.splits if_splits prod.splits)
  from report_quiet [OF quiet] obtain j said
    where "contains_str (trim (rs_content r)) j" "hb_wire env j = Some (False, said)" by blast
  with r contains_trim [of "rs_content r"] contains_trans show ?thesis by blast
qed

definition example_heartbeat :: "nat heartbeat_env" where
  "example_heartbeat = \<lparr>hb_checklist = (\<lambda>w. Inr (Some ''- [ ] water plants'')), hb_system_prompt = (\<lambda>w. Inr []),
     hb_context_length = (\<lambda>w. Inr None),
     hb_complete = (\<lambda>w ms n. (w + 1, Inr \<lparr>rs_content = ''Fine: {no} bye'', rs_input_tokens = 0, rs_output_tokens = 0,
        rs_finish_reason = Stop, rs_response_id = None\<rparr>)),
     hb_show_error = (\<lambda>e. []), hb_wire = (\<lambda>s. if s = ''{no}'' then Some (False, []) else None)\<rparr>"

theorem quiet_check_was_reported_witness:
  "check_heartbeat example_heartbeat 0 = (1, Hb_ok) \<and> (\<exists>j said. hb_wire example_heartbeat j = Some (False, said))"
proof -
  have c: "check_heartbeat example_heartbeat 0 = (1, Hb_ok)" by code_simp
  with quiet_check_was_reported [OF c] show ?thesis by blast
qed

text \<open>The loop gives up exactly after the configured number of failures with no good check between
  them: it runs as long as no earlier moment had that many.\<close>
theorem heartbeat_runs_iff:
  assumes "hc_enabled c" "0 < hc_max_failures c"
  shows "hr_running (heartbeat_run c rs) \<longleftrightarrow> (\<forall>k \<le> length rs. streak (take k rs) < unat (hc_max_failures c))"
  using heartbeat_run_state [OF assms, of rs] by (simp add: below_limit_def)

theorem heartbeat_runs_iff_witness:
  "\<not> hr_running (heartbeat_run default_heartbeat [Hb_failed [], Hb_skipped, Hb_failed [], Hb_failed [], Hb_ok])"
proof -
  have "3 \<le> streak (take 4 [Hb_failed [], Hb_skipped, Hb_failed [], Hb_failed [], Hb_ok])"
    by (simp add: streak_def is_good_def is_failure_def)
  with heartbeat_runs_iff [of default_heartbeat "[Hb_failed [], Hb_skipped, Hb_failed [], Hb_failed [], Hb_ok]"]
  show ?thesis by (force simp: default_heartbeat_def)
qed

end
