(* ===== verification/Thread_Ops.thy ===== *)
theory Thread_Ops
  imports Dispatcher Session_Manager Context_Compaction Job_Commands Heartbeat
begin

text \<open>
  The operations of a chat message on its thread, \<open>src/agent/thread_ops.rs\<close>, and the chat commands of
  \<open>src/agent/commands.rs\<close>. The session handle that the code passes around is the session of the user in
  the session manager; the locks of the code are held by one message at a time, because the main loop
  awaits every message. The writes to the database are fire and forget: \<open>ce_written\<close> says how many of
  the two messages of a turn arrive.
\<close>

section \<open>Messages, environment and state\<close>

record incoming_message =
  im_user_id :: string
  im_channel :: string
  im_content :: string
  im_thread_id :: "string option"

text \<open>The answer of the extension manager to a token: status, instructions, the two URLs.\<close>

record auth_answer =
  au_status :: string
  au_instructions :: "string option"
  au_auth_url :: "string option"
  au_setup_url :: "string option"

record 'w extension_manager =
  xm_auth :: "'w \<Rightarrow> string \<Rightarrow> string \<Rightarrow> 'w \<times> (string, auth_answer) result"
  xm_activate :: "'w \<Rightarrow> string \<Rightarrow> 'w \<times> (string, string list) result"

record 'w chat_env =
  ce_agent :: "'w agent_env"
  ce_compact :: "'w compact_env"
  ce_monitor :: context_monitor
  ce_commands :: command_env
  ce_heartbeat :: "'w heartbeat_env option"
  ce_extensions :: "'w extension_manager option"
  ce_prefix :: string
  ce_parse_approval :: "string \<Rightarrow> (uuid \<times> bool \<times> bool) option"
  ce_show_percent :: "nat \<Rightarrow> rat \<Rightarrow> string"
  ce_chain_id :: "'w \<Rightarrow> string \<Rightarrow> string option"
  ce_remember :: "'w \<Rightarrow> string \<Rightarrow> 'w \<times> (string \<times> nat \<times> nat) option"
  ce_written :: "'w \<Rightarrow> nat"
  ce_chain_written :: "'w \<Rightarrow> bool"
  ce_complete :: "'w \<Rightarrow> chat_message list \<Rightarrow> nat \<Rightarrow> rat \<Rightarrow> 'w \<times> (llm_error, string) result"
  ce_list_models :: "'w \<Rightarrow> (llm_error, string list) result"
  ce_set_model :: "'w \<Rightarrow> string \<Rightarrow> 'w \<times> (llm_error, unit) result"
  ce_tool_names :: "'w \<Rightarrow> string list"
  ce_package :: "string \<times> string"

record 'w chat_state =
  ch_world :: 'w
  ch_manager :: session_manager
  ch_guard :: cost_guard
  ch_jobs :: job_system
  ch_store :: "conversation_store option"
  ch_events :: "agent_event list"

type_synonym 'w op_result = "'w chat_state \<times> (agent_error, submission_result) result"

abbreviation CR_LF :: char where "CR_LF \<equiv> CHR 0x0A"

definition chat_now :: "'w chat_env \<Rightarrow> 'w chat_state \<Rightarrow> instant" where
  "chat_now env st = ae_now (ce_agent env) (ch_world st)"

definition chat_fresh :: "'w chat_env \<Rightarrow> 'w chat_state \<Rightarrow> 'w chat_state \<times> uuid" where
  "chat_fresh env st = (let (w, i) = ae_fresh (ce_agent env) (ch_world st) in (st\<lparr>ch_world := w\<rparr>, i))"

definition say :: "channel_status \<Rightarrow> 'w chat_state \<Rightarrow> 'w chat_state" where
  "say s st = st\<lparr>ch_events := ch_events st @ [Ev_status s]\<rparr>"

text \<open>The session a handle stands for; it is there once the thread of a message is resolved.\<close>

definition user_session :: "string \<Rightarrow> 'w chat_state \<Rightarrow> session" where
  "user_session u st = (case map_of (mg_sessions (ch_manager st)) u of Some s \<Rightarrow> s | None \<Rightarrow> new_session 0 0 u)"

definition change_session :: "string \<Rightarrow> (session \<Rightarrow> session) \<Rightarrow> 'w chat_state \<Rightarrow> 'w chat_state" where
  "change_session u f st = (case map_of (mg_sessions (ch_manager st)) u of
     Some s \<Rightarrow> st\<lparr>ch_manager := put_session u (f s) (ch_manager st)\<rparr> | None \<Rightarrow> st)"

definition thread_of :: "string \<Rightarrow> uuid \<Rightarrow> 'w chat_state \<Rightarrow> thread option" where
  "thread_of u tid st = map_of (threads (user_session u st)) tid"

definition change_thread :: "string \<Rightarrow> uuid \<Rightarrow> (thread \<Rightarrow> thread) \<Rightarrow> 'w chat_state \<Rightarrow> 'w chat_state" where
  "change_thread u tid f st = change_session u (update_thread tid f) st"

definition missing_thread :: "uuid \<Rightarrow> (agent_error, submission_result) result" where
  "missing_thread tid = Inl (Job_failure (Job_NotFound tid))"

text \<open>A run of the tool loop on the session of the user.\<close>

definition loop_view :: "string \<Rightarrow> chat_message list \<Rightarrow> 'w chat_state \<Rightarrow> 'w loop_state" where
  "loop_view u ctx st = \<lparr>ls_world = ch_world st, ls_session = user_session u st, ls_guard = ch_guard st,
     ls_context = ctx, ls_events = ch_events st\<rparr>"

definition loop_back :: "string \<Rightarrow> 'w loop_state \<Rightarrow> 'w chat_state \<Rightarrow> 'w chat_state" where
  "loop_back u ls st = change_session u (\<lambda>_. ls_session ls)
     (st\<lparr>ch_world := ls_world ls, ch_guard := ls_guard ls, ch_events := ls_events ls\<rparr>)"

definition run_loop ::
  "'w chat_env \<Rightarrow> incoming_message \<Rightarrow> uuid \<Rightarrow> bool \<Rightarrow> chat_message list \<Rightarrow> 'w chat_state
     \<Rightarrow> 'w chat_state \<times> (agent_error, agentic_result) result" where
  "run_loop env msg tid resumed ctx st =
     (let (ls, r) = run_agentic_loop (ce_agent env) (im_user_id msg) (im_content msg) tid resumed
                      (loop_view (im_user_id msg) ctx st)
      in (loop_back (im_user_id msg) ls st, r))"

section \<open>Persistence\<close>

definition persist_turn ::
  "'w chat_env \<Rightarrow> uuid \<Rightarrow> string \<Rightarrow> string option \<Rightarrow> 'w chat_state \<Rightarrow> 'w chat_state" where
  "persist_turn env tid inp resp st = (case ch_store st of
     None \<Rightarrow> st
   | Some db \<Rightarrow>
      (let new = (''user'', inp) # (case resp of Some r \<Rightarrow> [(''assistant'', r)] | None \<Rightarrow> [])
       in st\<lparr>ch_store := Some (db\<lparr>cs_messages := (cs_messages db)
            (tid := cs_messages db tid @ take (ce_written env (ch_world st)) new)\<rparr>)\<rparr>))"

definition persist_response_chain :: "'w chat_env \<Rightarrow> string \<Rightarrow> uuid \<Rightarrow> 'w chat_state \<Rightarrow> 'w chat_state" where
  "persist_response_chain env u tid st =
     (case ce_chain_id env (ch_world st) (ae_show_uuid (ce_agent env) tid) of
        None \<Rightarrow> st
      | Some rid \<Rightarrow>
         (let st1 = change_thread u tid (\<lambda>th. th\<lparr>last_response_id := Some rid\<rparr>) st
          in case ch_store st1 of
               None \<Rightarrow> st1
             | Some db \<Rightarrow> (if ce_chain_written env (ch_world st1)
                 then st1\<lparr>ch_store := Some (db\<lparr>cs_response_id := (cs_response_id db)(tid := Some rid)\<rparr>)\<rparr>
                 else st1)))"

section \<open>A turn\<close>

definition state_refusal :: "thread_state \<Rightarrow> string option" where
  "state_refusal s = (case s of
     Processing \<Rightarrow> Some ''Turn in progress. Use /interrupt to cancel.''
   | AwaitingApproval \<Rightarrow> Some ''Waiting for approval. Use /interrupt to cancel.''
   | thread_state.Completed \<Rightarrow> Some ''Thread completed. Use /thread new.''
   | Idle \<Rightarrow> None
   | Interrupted \<Rightarrow> None)"

definition auto_compact :: "'w chat_env \<Rightarrow> string \<Rightarrow> uuid \<Rightarrow> 'w chat_state \<Rightarrow> 'w chat_state" where
  "auto_compact env u tid st = (case thread_of u tid st of
     None \<Rightarrow> st
   | Some th \<Rightarrow>
      (case suggest_compaction (ce_monitor env) (thread_messages th) of
         None \<Rightarrow> st
       | Some strategy \<Rightarrow>
          (let st1 = say (St_status (''Context at ''
                 @ ce_show_percent env 0 (usage_percent (ce_monitor env) (thread_messages th))
                 @ ''% capacity, compacting...'')) st;
               (w', th', res) = compact (ce_compact env) strategy th (ch_world st1)
           in change_thread u tid (\<lambda>_. th') (st1\<lparr>ch_world := w'\<rparr>))))"

definition undo_manager_of :: "uuid \<Rightarrow> 'w chat_state \<Rightarrow> 'w chat_state \<times> undo_manager" where
  "undo_manager_of tid st =
     (let (m, um) = get_undo_manager tid (ch_manager st) in (st\<lparr>ch_manager := m\<rparr>, um))"

definition put_undo :: "uuid \<Rightarrow> undo_manager \<Rightarrow> 'w chat_state \<Rightarrow> 'w chat_state" where
  "put_undo tid um st = st\<lparr>ch_manager := (ch_manager st)
     \<lparr>mg_undo_managers := AList.update tid um (mg_undo_managers (ch_manager st))\<rparr>\<rparr>"

definition checkpoint_turn :: "'w chat_env \<Rightarrow> string \<Rightarrow> uuid \<Rightarrow> 'w chat_state \<Rightarrow> 'w chat_state" where
  "checkpoint_turn env u tid st =
     (let (st1, um) = undo_manager_of tid st in
      case thread_of u tid st1 of
        None \<Rightarrow> st1
      | Some th \<Rightarrow>
         (let (st2, fresh) = chat_fresh env st1; n = thread_turn_number th
          in put_undo tid (um_checkpoint fresh n (thread_messages th) (''Before turn '' @ show_nat n) um) st2))"

text \<open>The response after the hooks that may transform it.\<close>

definition transformed :: "'w chat_env \<Rightarrow> string \<Rightarrow> (hook_error, hook_outcome) result \<Rightarrow> string" where
  "transformed env txt h = (case h of
     Inl (Hook_rejected reason) \<Rightarrow> ''[Response filtered: '' @ reason @ '']''
   | Inl e \<Rightarrow> ''[Response blocked by hook policy: '' @ hook_text (ce_agent env) e @ '']''
   | Inr (Continue (Some new)) \<Rightarrow> new
   | Inr _ \<Rightarrow> txt)"

definition remember :: "'w chat_env \<Rightarrow> bool \<Rightarrow> string \<Rightarrow> 'w chat_state \<Rightarrow> 'w chat_state" where
  "remember env report txt st =
     (let (w, status) = ce_remember env (ch_world st) txt; st1 = st\<lparr>ch_world := w\<rparr>
      in case status of
           Some (agent, memories, depth) \<Rightarrow>
             (if report then say (St_agent_status agent memories depth) st1 else st1)
         | None \<Rightarrow> st1)"

definition ask_approval :: "'w chat_env \<Rightarrow> string \<Rightarrow> uuid \<Rightarrow> pending_approval \<Rightarrow> 'w chat_state \<Rightarrow> 'w op_result" where
  "ask_approval env u tid p st =
     (say (St_status ''Awaiting approval'') (change_thread u tid (await_approval (chat_now env st) p) st),
      Inr (Need_approval (request_id p) (pa_tool_name p) (pa_description p) (pa_parameters p)))"

definition finish_turn ::
  "'w chat_env \<Rightarrow> incoming_message \<Rightarrow> uuid \<Rightarrow> string \<Rightarrow> (agent_error, agentic_result) result
     \<Rightarrow> 'w chat_state \<Rightarrow> 'w op_result" where
  "finish_turn env msg tid inp r st =
     (let u = im_user_id msg in
      case thread_of u tid st of
        None \<Rightarrow> (st, missing_thread tid)
      | Some th \<Rightarrow>
         (if thread_state th = Interrupted then (say (St_status ''Interrupted'') st, Inr Was_interrupted)
          else case r of
            Inr (Loop_response txt) \<Rightarrow>
              (let (w, h) = run_hooks (ce_agent env)
                     (ResponseTransform u (ae_show_uuid (ce_agent env) tid) txt) (ch_world st);
                   resp = transformed env txt h;
                   st1 = st\<lparr>ch_world := w\<rparr>;
                   st2 = change_thread u tid (complete_turn (chat_now env st1) resp) st1;
                   st3 = remember env True resp (persist_response_chain env u tid st2)
               in (persist_turn env tid inp (Some resp) (say (St_status ''Done'') st3), Inr (Response resp)))
          | Inr (Loop_need_approval p) \<Rightarrow> ask_approval env u tid p st
          | Inl e \<Rightarrow>
              (persist_turn env tid inp None
                 (change_thread u tid (fail_turn (chat_now env st) (agent_error_text (ce_agent env) e)) st),
               Inr (Failure (agent_error_text (ce_agent env) e)))))"

definition chat_turn :: "'w chat_env \<Rightarrow> incoming_message \<Rightarrow> uuid \<Rightarrow> string \<Rightarrow> 'w chat_state \<Rightarrow> 'w op_result" where
  "chat_turn env msg tid inp st =
     (let u = im_user_id msg;
          st1 = checkpoint_turn env u tid (auto_compact env u tid st);
          st2 = change_thread u tid (start_turn (chat_now env st1) inp) st1
      in case thread_of u tid st2 of
           None \<Rightarrow> (st2, missing_thread tid)
         | Some th \<Rightarrow>
            (let (st3, r) = run_loop env msg tid False (thread_messages th) (say (St_thinking ''Processing...'') st2)
             in finish_turn env msg tid inp r st3))"

section \<open>Undo, redo and checkpoints\<close>

definition process_undo :: "'w chat_env \<Rightarrow> string \<Rightarrow> uuid \<Rightarrow> 'w chat_state \<Rightarrow> 'w op_result" where
  "process_undo env u tid st =
     (let (st1, um) = undo_manager_of tid st in
      if \<not> can_undo um then (st1, Inr (Done (Some ''Nothing to undo.'')))
      else case thread_of u tid st1 of
        None \<Rightarrow> (st1, missing_thread tid)
      | Some th \<Rightarrow>
         (let (st2, fresh) = chat_fresh env st1;
              (c, um') = um_undo fresh (thread_turn_number th) (thread_messages th) um
          in case c of
               Some c \<Rightarrow>
                 (change_thread u tid (restore_from_messages (chat_now env st2) (cp_messages c)) (put_undo tid um' st2),
                  Inr (Done (Some (''Undone to turn '' @ show_nat (cp_turn_number c) @ ''. ''
                    @ show_nat (undo_count um') @ '' undo(s) remaining.''))))
             | None \<Rightarrow> (put_undo tid um' st2, Inr (Failure ''Undo failed.''))))"

definition process_redo :: "'w chat_env \<Rightarrow> string \<Rightarrow> uuid \<Rightarrow> 'w chat_state \<Rightarrow> 'w op_result" where
  "process_redo env u tid st =
     (let (st1, um) = undo_manager_of tid st in
      if \<not> can_redo um then (st1, Inr (Done (Some ''Nothing to redo.'')))
      else case thread_of u tid st1 of
        None \<Rightarrow> (st1, missing_thread tid)
      | Some th \<Rightarrow>
         (let (st2, fresh) = chat_fresh env st1;
              (c, um') = um_redo fresh (thread_turn_number th) (thread_messages th) um
          in case c of
               Some c \<Rightarrow>
                 (change_thread u tid (restore_from_messages (chat_now env st2) (cp_messages c)) (put_undo tid um' st2),
                  Inr (Done (Some (''Redone to turn '' @ show_nat (cp_turn_number c) @ ''.''))))
             | None \<Rightarrow> (put_undo tid um' st2, Inr (Failure ''Redo failed.''))))"

definition process_resume :: "'w chat_env \<Rightarrow> string \<Rightarrow> uuid \<Rightarrow> uuid \<Rightarrow> 'w chat_state \<Rightarrow> 'w op_result" where
  "process_resume env u tid cid st =
     (let (st1, um) = undo_manager_of tid st; (c, um') = um_restore cid um; st2 = put_undo tid um' st1
      in case c of
           Some c \<Rightarrow>
             (case thread_of u tid st2 of
                None \<Rightarrow> (st2, missing_thread tid)
              | Some th \<Rightarrow>
                 (change_thread u tid (restore_from_messages (chat_now env st2) (cp_messages c)) st2,
                  Inr (Done (Some (''Resumed from checkpoint: '' @ cp_description c)))))
         | None \<Rightarrow> (st2, Inr (Failure ''Checkpoint not found.'')))"

section \<open>Interrupt, compact, clear\<close>

definition process_interrupt :: "'w chat_env \<Rightarrow> string \<Rightarrow> uuid \<Rightarrow> 'w chat_state \<Rightarrow> 'w op_result" where
  "process_interrupt env u tid st = (case thread_of u tid st of
     None \<Rightarrow> (st, missing_thread tid)
   | Some th \<Rightarrow>
      (if thread_state th = Processing \<or> thread_state th = AwaitingApproval
       then (change_thread u tid (thread_interrupt (chat_now env st)) st, Inr (Done (Some ''Interrupted.'')))
       else (st, Inr (Done (Some ''Nothing to interrupt.'')))))"

text \<open>The arrow of the code is its three bytes.\<close>

definition process_compact :: "'w chat_env \<Rightarrow> string \<Rightarrow> uuid \<Rightarrow> 'w chat_state \<Rightarrow> 'w op_result" where
  "process_compact env u tid st = (case thread_of u tid st of
     None \<Rightarrow> (st, missing_thread tid)
   | Some th \<Rightarrow>
      (let usage = usage_percent (ce_monitor env) (thread_messages th);
           strategy = (case suggest_compaction (ce_monitor env) (thread_messages th) of
              Some s \<Rightarrow> s | None \<Rightarrow> Summarize_turns 5);
           (w', th', res) = compact (ce_compact env) strategy th (ch_world st);
           st1 = change_thread u tid (\<lambda>_. th') (st\<lparr>ch_world := w'\<rparr>)
       in case res of
            Inr r \<Rightarrow> (st1, Inr (Done (Some (''Compacted: '' @ show_nat (cr_turns_removed r) @ '' turns removed, ''
              @ show_nat (cr_tokens_before r) @ '' '' @ [CHR 0xE2, CHR 0x86, CHR 0x92] @ '' ''
              @ show_nat (cr_tokens_after r) @ '' tokens (was '' @ ce_show_percent env 1 usage @ ''% full)''
              @ (if cr_summary_written r then '', summary saved to workspace'' else [])))))
          | Inl e \<Rightarrow> (st1, Inr (Failure (''Compaction failed: ''
              @ agent_error_text (ce_agent env) (Llm_failure e))))))"

definition process_clear :: "'w chat_env \<Rightarrow> string \<Rightarrow> uuid \<Rightarrow> 'w chat_state \<Rightarrow> 'w op_result" where
  "process_clear env u tid st = (case thread_of u tid st of
     None \<Rightarrow> (st, missing_thread tid)
   | Some th \<Rightarrow>
      (let st1 = change_thread u tid (\<lambda>th. th\<lparr>turns := [], thread_state := Idle\<rparr>) st;
           (st2, um) = undo_manager_of tid st1
       in (put_undo tid (um_clear um) st2, Inr (Done (Some ''Thread cleared.'')))))"

section \<open>Approvals\<close>

definition finish_approved ::
  "'w chat_env \<Rightarrow> string \<Rightarrow> uuid \<Rightarrow> (agent_error, agentic_result) result \<Rightarrow> 'w chat_state \<Rightarrow> 'w op_result" where
  "finish_approved env u tid r st = (case thread_of u tid st of
     None \<Rightarrow> (st, missing_thread tid)
   | Some th \<Rightarrow>
      (case r of
         Inr (Loop_response txt) \<Rightarrow>
           (let st1 = persist_response_chain env u tid (change_thread u tid (complete_turn (chat_now env st) txt) st)
            in (say (St_status ''Done'') (remember env False txt st1), Inr (Response txt)))
       | Inr (Loop_need_approval p) \<Rightarrow> ask_approval env u tid p st
       | Inl e \<Rightarrow>
           (change_thread u tid (fail_turn (chat_now env st) (agent_error_text (ce_agent env) e)) st,
            Inr (Failure (agent_error_text (ce_agent env) e)))))"

text \<open>The approved tool runs with the parameters of the request, and the loop goes on behind it.\<close>

definition run_approved ::
  "'w chat_env \<Rightarrow> incoming_message \<Rightarrow> uuid \<Rightarrow> pending_approval \<Rightarrow> bool \<Rightarrow> 'w chat_state \<Rightarrow> 'w op_result" where
  "run_approved env msg tid p always st =
     (let u = im_user_id msg; name = pa_tool_name p;
          st1 = (if always then change_session u (auto_approve_tool name) st else st);
          st2 = change_thread u tid (\<lambda>th. th\<lparr>thread_state := Processing\<rparr>) st1;
          (ls, r) = perform_tool (ce_agent env) tid name (pa_parameters p) (pa_parameters p)
                      (loop_view u (pa_context_messages p) st2)
      in case detect_auth_awaiting (ae_dec (ce_agent env)) name r of
           Some (ext, instructions) \<Rightarrow>
             (loop_back u (enter_auth (ce_agent env) tid ext instructions r
                 (complete_turn (ae_now (ce_agent env) (ls_world ls)) instructions) ls) st2,
              Inr (Response instructions))
         | None \<Rightarrow>
             (let ctx = pa_context_messages p
                    @ [msg_tool_result (pa_tool_call_id p) name (result_content (ce_agent env) name r)];
                  (st3, r') = run_loop env msg tid True ctx (loop_back u ls st2)
              in finish_approved env u tid r' st3))"

definition reject_pending ::
  "'w chat_env \<Rightarrow> string \<Rightarrow> uuid \<Rightarrow> pending_approval \<Rightarrow> 'w chat_state \<Rightarrow> 'w op_result" where
  "reject_pending env u tid p st =
     (say (St_status ''Rejected'') (change_thread u tid (clear_pending_approval (chat_now env st)) st),
      Inr (Response (''Tool '' @ [CHR 0x27] @ pa_tool_name p @ [CHR 0x27]
        @ '' was rejected. The agent will not execute this tool.'' @ [CR_LF, CR_LF]
        @ ''You can continue the conversation or try a different approach.'')))"

definition process_approval ::
  "'w chat_env \<Rightarrow> incoming_message \<Rightarrow> uuid \<Rightarrow> uuid option \<Rightarrow> bool \<Rightarrow> bool \<Rightarrow> 'w chat_state \<Rightarrow> 'w op_result" where
  "process_approval env msg addressed rq approved always st =
     (let u = im_user_id msg in
      case resolve_approval_thread addressed rq (user_session u st) of
        Approval_NotFound \<Rightarrow> (st, Inr (Failure ''No pending approval request.''))
      | Ambiguous ids \<Rightarrow> (st, Inr (Failure (''Multiple approvals are pending. Include the request ID ''
            @ ''to say which one you are answering.'')))
      | Found tid \<Rightarrow>
         (case thread_of u tid st of
            None \<Rightarrow> (st, missing_thread tid)
          | Some th \<Rightarrow>
             (if thread_state th \<noteq> AwaitingApproval then (st, Inr (Failure ''No pending approval request.''))
              else
               (let st1 = change_thread u tid (\<lambda>t. snd (take_pending_approval t)) st in
                case pending_approval th of
                  None \<Rightarrow> (st1, Inr (Failure ''No pending approval request.''))
                | Some p \<Rightarrow>
                   (if (case rq of Some rid \<Rightarrow> rid \<noteq> request_id p | None \<Rightarrow> False) then
                      (change_thread u tid (await_approval (chat_now env st) p) st1,
                       Inr (Failure ''Request ID mismatch. Use the correct request ID.''))
                    else if approved then run_approved env msg tid p always st1
                    else reject_pending env u tid p st1)))))"

section \<open>A token for an extension\<close>

text \<open>The result is the answer to the user; the token goes to the extension manager only.\<close>

definition process_auth_token ::
  "'w chat_env \<Rightarrow> string \<Rightarrow> uuid \<Rightarrow> string \<Rightarrow> string \<Rightarrow> 'w chat_state \<Rightarrow> 'w chat_state \<times> string" where
  "process_auth_token env u tid ext token st =
     (let st0 = change_thread u tid (\<lambda>th. th\<lparr>pending_auth := None\<rparr>) st in
      case ce_extensions env of
        None \<Rightarrow> (st0, ''Extension manager not available.'')
      | Some xm \<Rightarrow>
         (let (w1, res) = xm_auth xm (ch_world st0) ext (trim token); st1 = st0\<lparr>ch_world := w1\<rparr> in
          case res of
            Inl e \<Rightarrow>
              (let m = ''Authentication failed for '' @ ext @ '': '' @ e
               in (say (St_auth_completed ext False m) st1, m))
          | Inr a \<Rightarrow>
             (if au_status a = ''authenticated'' then
                (let (w2, act) = xm_activate xm w1 ext; st2 = st1\<lparr>ch_world := w2\<rparr>;
                     m = (case act of
                       Inr tools \<Rightarrow> ext @ '' authenticated and activated ('' @ show_nat (length tools)
                         @ '' tools loaded).''
                         @ (if tools = [] then [] else [CR_LF, CR_LF] @ ''Tools: '' @ join '', '' tools)
                     | Inl e \<Rightarrow> ext @ '' authenticated successfully, but activation failed: '' @ e
                         @ ''. Try activating manually.'')
                 in (say (St_auth_completed ext True m) st2, m))
              else
                (let m = (case au_instructions a of Some i \<Rightarrow> i | None \<Rightarrow> ''Invalid token. Please try again.'')
                 in (say (St_auth_required ext (Some m) (au_auth_url a) (au_setup_url a))
                       (change_thread u tid (enter_auth_mode (chat_now env st1) ext) st1), m)))))"

end
