(* ===== verification/Chat_Commands.thy ===== *)
theory Chat_Commands
  imports Thread_Ops
begin

text \<open>
  The chat commands of \<open>src/agent/commands.rs\<close> that are no job commands: heartbeat, summary, suggestions
  and the system commands, and the dispatch of a routed command to its handler.
\<close>

section \<open>Heartbeat, summary and suggestions\<close>

definition process_heartbeat :: "'w chat_env \<Rightarrow> 'w chat_state \<Rightarrow> 'w chat_state \<times> submission_result" where
  "process_heartbeat env st = (case ce_heartbeat env of
     None \<Rightarrow> (st, Failure ''Heartbeat requires a workspace (database must be connected).'')
   | Some hb \<Rightarrow>
      (let (w, res) = check_heartbeat hb (ch_world st)
       in (st\<lparr>ch_world := w\<rparr>, case res of
            Hb_ok \<Rightarrow> Done (Some ''Heartbeat: all clear, nothing needs attention.'')
          | Hb_needs_attention m \<Rightarrow> Response (''Heartbeat findings:'' @ [CR_LF, CR_LF] @ m)
          | Hb_skipped \<Rightarrow> Done (Some ''Heartbeat skipped: no HEARTBEAT.md checklist found in workspace.'')
          | Hb_failed e \<Rightarrow> Failure (''Heartbeat failed: '' @ e))))"

text \<open>The prompt of a summary or of suggestions: the instruction, the last twenty messages, the question.\<close>

definition about_thread :: "string \<Rightarrow> string \<Rightarrow> chat_message list \<Rightarrow> chat_message list" where
  "about_thread instruction question ms = msg_system instruction # last_n 20 ms @ [msg_user question]"

definition ask_about ::
  "'w chat_env \<Rightarrow> string \<Rightarrow> uuid \<Rightarrow> string \<Rightarrow> string \<Rightarrow> string \<Rightarrow> rat \<Rightarrow> string \<Rightarrow> string \<Rightarrow> 'w chat_state
     \<Rightarrow> 'w op_result" where
  "ask_about env u tid empty_text instruction question temperature heading failing st =
     (case thread_of u tid st of
        None \<Rightarrow> (st, missing_thread tid)
      | Some th \<Rightarrow>
         (if thread_messages th = [] then (st, Inr (Done (Some empty_text)))
          else
           (let (w, res) = ce_complete env (ch_world st)
                  (about_thread instruction question (thread_messages th)) 512 temperature
            in (st\<lparr>ch_world := w\<rparr>, Inr (case res of
                 Inr txt \<Rightarrow> Response (heading @ [CR_LF, CR_LF] @ trim txt)
               | Inl e \<Rightarrow> Failure (failing @ llm_error_text (ae_show_retry (ce_agent env)) e))))))"

definition process_summarize :: "'w chat_env \<Rightarrow> string \<Rightarrow> uuid \<Rightarrow> 'w chat_state \<Rightarrow> 'w op_result" where
  "process_summarize env u tid st = ask_about env u tid ''Nothing to summarize (empty thread).''
     (''Summarize the conversation so far in 3-5 concise bullet points. ''
       @ ''Focus on decisions made, actions taken, and key outcomes. Be brief and factual.'')
     ''Summarize this conversation.'' (3 / 10) ''Thread Summary:'' ''Summarize failed: '' st"

definition process_suggest :: "'w chat_env \<Rightarrow> string \<Rightarrow> uuid \<Rightarrow> 'w chat_state \<Rightarrow> 'w op_result" where
  "process_suggest env u tid st = ask_about env u tid ''Nothing to suggest from (empty thread).''
     (''Based on the conversation so far, suggest 2-4 concrete next steps the user could take. ''
       @ ''Be actionable and specific. Format as a numbered list.'')
     ''What should I do next?'' (1 / 2) ''Suggested Next Steps:'' ''Suggest failed: '' st"

section \<open>System commands\<close>

definition help_lines :: "string list" where
  "help_lines = [
     ''System:'',
     ''  /help             Show this help'',
     ''  /model [name]     Show or switch the active model'',
     ''  /version          Show version info'',
     ''  /tools            List available tools'',
     ''  /debug            Toggle debug mode'',
     ''  /ping             Connectivity check'',
     [],
     ''Jobs:'',
     ''  /job <desc>       Create a new job'',
     ''  /status [id]      Check job status'',
     ''  /cancel <id>      Cancel a job'',
     ''  /list             List all jobs'',
     [],
     ''Session:'',
     ''  /undo             Undo last turn'',
     ''  /redo             Redo undone turn'',
     ''  /compact          Compress context window'',
     ''  /clear            Clear current thread'',
     ''  /interrupt        Stop current operation'',
     ''  /new              New conversation thread'',
     ''  /thread <id>      Switch to thread'',
     ''  /resume <id>      Resume from checkpoint'',
     [],
     ''Agent:'',
     ''  /heartbeat        Run heartbeat check'',
     ''  /summarize        Summarize current thread'',
     ''  /suggest          Suggest next steps'',
     [],
     ''  /quit             Exit'']"

definition show_models :: "'w chat_env \<Rightarrow> 'w \<Rightarrow> string" where
  "show_models env w =
     (let current = ae_model_name (ce_agent env) w in
      ''Active model: '' @ current @ [CR_LF]
      @ (case ce_list_models env w of
           Inr models \<Rightarrow>
             (if models = [] then [CR_LF] @ ''Could not fetch model list. Use /model <name> to switch.''
              else [CR_LF] @ ''Available models:'' @ [CR_LF]
                @ concat (map (\<lambda>m. ''  '' @ m @ (if m = current then '' (active)'' else []) @ [CR_LF]) models)
                @ [CR_LF] @ ''Use /model <name> to switch.'')
         | Inl e \<Rightarrow> [CR_LF] @ ''Could not fetch models: '' @ llm_error_text (ae_show_retry (ce_agent env)) e
             @ ''. Use /model <name> to switch.''))"

definition switch_model :: "'w chat_env \<Rightarrow> string \<Rightarrow> 'w \<Rightarrow> 'w \<times> submission_result" where
  "switch_model env requested w =
     (case ce_list_models env w of
        Inr models \<Rightarrow>
          (if models \<noteq> [] \<and> requested \<notin> set models then
             (w, Failure (''Unknown model: '' @ requested @ ''. Available models:'' @ [CR_LF] @ ''  ''
                @ join ([CR_LF] @ ''  '') models))
           else (case ce_set_model env w requested of
              (w', Inr _) \<Rightarrow> (w', Response (''Switched model to: '' @ requested))
            | (w', Inl e) \<Rightarrow> (w', Failure (''Failed to switch model: ''
                @ llm_error_text (ae_show_retry (ce_agent env)) e))))
      | Inl _ \<Rightarrow>
          (case ce_set_model env w requested of
              (w', Inr _) \<Rightarrow> (w', Response (''Switched model to: '' @ requested))
            | (w', Inl e) \<Rightarrow> (w', Failure (''Failed to switch model: ''
                @ llm_error_text (ae_show_retry (ce_agent env)) e))))"

definition handle_system_command ::
  "'w chat_env \<Rightarrow> string \<Rightarrow> string list \<Rightarrow> 'w chat_state \<Rightarrow> 'w chat_state \<times> submission_result" where
  "handle_system_command env cmd args st =
     (if cmd = ''help'' then (st, Response (join [CR_LF] help_lines))
      else if cmd = ''ping'' then (st, Response ''pong!'')
      else if cmd = ''version'' then
        (st, Response (fst (ce_package env) @ '' v'' @ snd (ce_package env)))
      else if cmd = ''tools'' then
        (st, Response (''Available tools: '' @ join '', '' (ce_tool_names env (ch_world st))))
      else if cmd = ''debug'' then (st, Done (Some ''Debug toggle is handled by your client.''))
      else if cmd = ''model'' then
        (case args of
           [] \<Rightarrow> (st, Response (show_models env (ch_world st)))
         | requested # _ \<Rightarrow>
            (let (w, res) = switch_model env requested (ch_world st) in (st\<lparr>ch_world := w\<rparr>, res)))
      else (st, Failure (''Unknown command: '' @ cmd @ ''. Try /help'')))"

text \<open>A command of the router; nothing (\<open>None\<close>) would be the signal to shut down.\<close>

definition handle_command ::
  "'w chat_env \<Rightarrow> string \<Rightarrow> string list \<Rightarrow> 'w chat_state \<Rightarrow> 'w chat_state \<times> string option" where
  "handle_command env cmd args st = (case handle_system_command env cmd args st of
     (st', Response txt) \<Rightarrow> (st', Some txt)
   | (st', Done m) \<Rightarrow> (st', m)
   | (st', Failure m) \<Rightarrow> (st', Some (''Error: '' @ m))
   | (st', _) \<Rightarrow> (st', None))"

section \<open>Routed commands\<close>

definition job_answer ::
  "'w chat_state \<Rightarrow> job_system \<times> (job_error, string) result \<Rightarrow> 'w op_result" where
  "job_answer st r = (st\<lparr>ch_jobs := fst r\<rparr>,
     case snd r of Inl e \<Rightarrow> Inl (Job_failure e) | Inr txt \<Rightarrow> Inr (Response txt))"

definition handle_job_or_command ::
  "'w chat_env \<Rightarrow> incoming_message \<Rightarrow> message_intent \<Rightarrow> 'w chat_state \<Rightarrow> 'w op_result" where
  "handle_job_or_command env msg intent st =
     (let u = im_user_id msg; cv = ce_commands env; now = chat_now env st in
      case intent of
        Create_job ttl descr cat \<Rightarrow>
          (let (st1, fresh) = chat_fresh env (say (St_thinking ''Processing...'') st)
           in job_answer st1 (handle_create_job cv fresh now now now u ttl descr cat (ch_jobs st1)))
      | Check_job_status which \<Rightarrow> job_answer st (ch_jobs st, handle_check_status cv u which (ch_jobs st))
      | Cancel_job which \<Rightarrow> job_answer st (handle_cancel_job cv now now u which (ch_jobs st))
      | List_jobs filtering \<Rightarrow> job_answer st (ch_jobs st, Inr (handle_list_jobs cv u (ch_jobs st)))
      | Help_job which \<Rightarrow> job_answer st (handle_help_job cv now now now now u which (ch_jobs st))
      | Command cmd args \<Rightarrow>
          (case handle_command env cmd args st of
             (st', Some txt) \<Rightarrow> (st', Inr (Response txt))
           | (st', None) \<Rightarrow> (st', Inr (Done None)))
      | Chat txt \<Rightarrow> (st, Inr (Response ''Unknown intent''))
      | Unknown_intent \<Rightarrow> (st, Inr (Response ''Unknown intent'')))"

section \<open>User input\<close>

definition input_problems :: "'w chat_env \<Rightarrow> string \<Rightarrow> string option" where
  "input_problems env inp =
     (let v = validate_input (ae_safety (ce_agent env)) inp in
      if \<not> vr_is_valid v then
        Some (''Input rejected by safety validation: ''
          @ join ''; '' (map (\<lambda>e. ve_field e @ '': '' @ ve_message e) (vr_errors v)))
      else if list_ex (\<lambda>r. pr_action r = Policy_block)
             (layer_check_policy (ae_re (ce_agent env)) (ae_safety (ce_agent env)) inp)
      then Some ''Input rejected by safety policy.''
      else None)"

definition process_user_input ::
  "'w chat_env \<Rightarrow> incoming_message \<Rightarrow> uuid \<Rightarrow> string \<Rightarrow> 'w chat_state \<Rightarrow> 'w op_result" where
  "process_user_input env msg tid inp st = (case thread_of (im_user_id msg) tid st of
     None \<Rightarrow> (st, missing_thread tid)
   | Some th \<Rightarrow>
      (case state_refusal (thread_state th) of
         Some m \<Rightarrow> (st, Inr (Failure m))
       | None \<Rightarrow>
          (case input_problems env inp of
             Some m \<Rightarrow> (st, Inr (Failure m))
           | None \<Rightarrow>
              (case route_command (ce_prefix env) inp of
                 Some intent \<Rightarrow> handle_job_or_command env msg intent st
               | None \<Rightarrow> chat_turn env msg tid inp st))))"

end
