(* ===== verification/Message_Loop.thy ===== *)
theory Message_Loop
  imports Chat_Commands
begin

text \<open>
  The main loop of the agent, \<open>handle_message\<close> and the message loop of \<open>src/agent/agent_loop.rs\<close>: a
  message is parsed, shown to the inbound hooks, routed to its thread, handled, and its answer is shown to
  the outbound hooks and sent. The loop awaits every message before it takes the next. The triggers of
  routines that run behind a message are not modelled.
\<close>

section \<open>One message\<close>

text \<open>The inbound hooks see user input only: they answer in its place, or change it.\<close>

definition inbound ::
  "'w chat_env \<Rightarrow> incoming_message \<Rightarrow> 'w chat_state \<Rightarrow> 'w chat_state \<times> (string, submission) result" where
  "inbound env msg st =
     (case parse_submission (cv_parse (ce_commands env)) (ce_parse_approval env) (im_content msg) of
        User_input txt \<Rightarrow>
          (let (w, h) = run_hooks (ce_agent env)
                 (Inbound (im_user_id msg) (im_channel msg) txt (im_thread_id msg)) (ch_world st)
           in (st\<lparr>ch_world := w\<rparr>,
               case h of
                 Inl (Hook_rejected reason) \<Rightarrow> Inl (''[Message rejected: '' @ reason @ '']'')
               | Inl e \<Rightarrow> Inl (''[Message blocked by hook policy: '' @ hook_text (ce_agent env) e @ '']'')
               | Inr (Continue (Some new)) \<Rightarrow> Inr (User_input new)
               | Inr _ \<Rightarrow> Inr (User_input txt)))
      | sub \<Rightarrow> (st, Inr sub))"

definition hydrate_step :: "'w chat_env \<Rightarrow> incoming_message \<Rightarrow> 'w chat_state \<Rightarrow> 'w chat_state" where
  "hydrate_step env msg st = (case im_thread_id msg of
     None \<Rightarrow> st
   | Some ext \<Rightarrow>
      (let (st1, fresh) = chat_fresh env st
       in st1\<lparr>ch_manager := maybe_hydrate_thread (ae_show_uuid (ce_agent env)) (cv_parse (ce_commands env))
            (ch_store st1) fresh (chat_now env st1) (im_user_id msg) (im_channel msg) ext (ch_manager st1)\<rparr>))"

definition resolve_step :: "'w chat_env \<Rightarrow> incoming_message \<Rightarrow> 'w chat_state \<Rightarrow> 'w chat_state \<times> uuid" where
  "resolve_step env msg st =
     (let (st1, fs) = chat_fresh env st; (st2, ft) = chat_fresh env st1;
          (m, tid) = resolve_thread (ae_show_uuid (ce_agent env)) fs ft (chat_now env st2) (im_user_id msg)
                       (im_channel msg) (im_thread_id msg) (ch_manager st2)
      in (st2\<lparr>ch_manager := m\<rparr>, tid))"

definition new_thread_step :: "'w chat_env \<Rightarrow> incoming_message \<Rightarrow> 'w chat_state \<Rightarrow> 'w op_result" where
  "new_thread_step env msg st =
     (let (st1, fs) = chat_fresh env st; (st2, ft) = chat_fresh env st1;
          (m, tid) = process_new_thread (ae_show_uuid (ce_agent env)) fs ft (chat_now env st2) (im_user_id msg)
                       (ch_manager st2)
      in (st2\<lparr>ch_manager := m\<rparr>, Inr (Done (Some (''New thread: '' @ ae_show_uuid (ce_agent env) tid)))))"

definition switch_step :: "'w chat_env \<Rightarrow> incoming_message \<Rightarrow> uuid \<Rightarrow> 'w chat_state \<Rightarrow> 'w op_result" where
  "switch_step env msg target st =
     (let (st1, fs) = chat_fresh env st;
          (m, ok) = process_switch_thread (ae_show_uuid (ce_agent env)) fs (chat_now env st1) (im_user_id msg)
                      target (ch_manager st1)
      in (st1\<lparr>ch_manager := m\<rparr>,
          Inr (if ok then Done (Some (''Switched to thread '' @ ae_show_uuid (ce_agent env) target))
               else Failure ''Thread not found.'')))"

text \<open>The handler of a submission on its thread; nothing for the signal to quit.\<close>

definition process_submission ::
  "'w chat_env \<Rightarrow> incoming_message \<Rightarrow> uuid \<Rightarrow> submission \<Rightarrow> 'w chat_state \<Rightarrow> 'w op_result option" where
  "process_submission env msg tid sub st =
     (let u = im_user_id msg; plain = (\<lambda>(st', r). Some (st', Inr r)) in
      case sub of
        User_input txt \<Rightarrow> Some (process_user_input env msg tid txt st)
      | System_command cmd args \<Rightarrow> plain (handle_system_command env cmd args st)
      | Undo \<Rightarrow> Some (process_undo env u tid st)
      | Redo \<Rightarrow> Some (process_redo env u tid st)
      | Interrupt \<Rightarrow> Some (process_interrupt env u tid st)
      | Compact \<Rightarrow> Some (process_compact env u tid st)
      | Clear \<Rightarrow> Some (process_clear env u tid st)
      | New_thread \<Rightarrow> Some (new_thread_step env msg st)
      | Heartbeat \<Rightarrow> plain (process_heartbeat env st)
      | Summarize \<Rightarrow> Some (process_summarize env u tid st)
      | Suggest \<Rightarrow> Some (process_suggest env u tid st)
      | Quit \<Rightarrow> None
      | Switch_thread target \<Rightarrow> Some (switch_step env msg target st)
      | Resume cid \<Rightarrow> Some (process_resume env u tid cid st)
      | Exec_approval rid approved always \<Rightarrow> Some (process_approval env msg tid (Some rid) approved always st)
      | Approval_response approved always \<Rightarrow> Some (process_approval env msg tid None approved always st))"

text \<open>The answer to the user; the prompt of an approval goes out as a status update instead.\<close>

definition answer_of ::
  "'w chat_env \<Rightarrow> 'w op_result \<Rightarrow> 'w chat_state \<times> (agent_error, string option) result" where
  "answer_of env r = (case r of
     (st, Inl e) \<Rightarrow> (st, Inl e)
   | (st, Inr (Response txt)) \<Rightarrow> (st, Inr (Some txt))
   | (st, Inr (Done m)) \<Rightarrow> (st, Inr m)
   | (st, Inr (Failure m)) \<Rightarrow> (st, Inr (Some (''Error: '' @ m)))
   | (st, Inr Was_interrupted) \<Rightarrow> (st, Inr (Some ''Interrupted.''))
   | (st, Inr (Need_approval rid name descr params)) \<Rightarrow>
       (say (St_approval_needed (ae_show_uuid (ce_agent env) rid) name descr params) st, Inr (Some [])))"

definition handle_submission ::
  "'w chat_env \<Rightarrow> incoming_message \<Rightarrow> uuid \<Rightarrow> submission \<Rightarrow> 'w chat_state
     \<Rightarrow> 'w chat_state \<times> (agent_error, string option) result" where
  "handle_submission env msg tid sub st = (case process_submission env msg tid sub st of
     None \<Rightarrow> (st, Inr None) | Some r \<Rightarrow> answer_of env r)"

definition handle_message ::
  "'w chat_env \<Rightarrow> incoming_message \<Rightarrow> 'w chat_state \<Rightarrow> 'w chat_state \<times> (agent_error, string option) result" where
  "handle_message env msg st =
     (case inbound env msg st of
        (st1, Inl txt) \<Rightarrow> (st1, Inr (Some txt))
      | (st1, Inr sub) \<Rightarrow>
         (let u = im_user_id msg; (st2, tid) = resolve_step env msg (hydrate_step env msg st1) in
          case Option.bind (thread_of u tid st2) pending_auth of
            Some ext \<Rightarrow>
              (case sub of
                 User_input token \<Rightarrow>
                   (let (st3, txt) = process_auth_token env u tid ext token st2 in (st3, Inr (Some txt)))
               | _ \<Rightarrow> handle_submission env msg tid sub
                        (change_thread u tid (\<lambda>th. th\<lparr>pending_auth := None\<rparr>) st2))
          | None \<Rightarrow> handle_submission env msg tid sub st2))"

section \<open>The loop\<close>

text \<open>What is sent for a message, and whether the loop goes on.\<close>

definition serve ::
  "'w chat_env \<Rightarrow> incoming_message \<Rightarrow> 'w chat_state \<Rightarrow> 'w chat_state \<times> string list \<times> bool" where
  "serve env msg st = (case handle_message env msg st of
     (st1, Inl e) \<Rightarrow> (st1, [''Error: '' @ agent_error_text (ce_agent env) e], True)
   | (st1, Inr None) \<Rightarrow> (st1, [], False)
   | (st1, Inr (Some txt)) \<Rightarrow>
       (if txt = [] then (st1, [], True)
        else
         (let (w, h) = run_hooks (ce_agent env)
                (Outbound (im_user_id msg) (im_channel msg) txt (im_thread_id msg)) (ch_world st1)
          in (st1\<lparr>ch_world := w\<rparr>,
              case h of Inl _ \<Rightarrow> [] | Inr (Continue (Some new)) \<Rightarrow> [new] | Inr _ \<Rightarrow> [txt], True))))"

fun serve_all ::
  "'w chat_env \<Rightarrow> incoming_message list \<Rightarrow> 'w chat_state \<Rightarrow> 'w chat_state \<times> string list" where
  "serve_all env [] st = (st, [])"
| "serve_all env (msg # msgs) st = (case serve env msg st of
     (st1, out, True) \<Rightarrow> (let (st2, out') = serve_all env msgs st1 in (st2, out @ out'))
   | (st1, out, False) \<Rightarrow> (st1, out))"

end
