(* ===== verification/Loop_Frame.thy ===== *)
theory Loop_Frame
  imports Dispatcher
begin

text \<open>
  What a run of the tool loop of \<open>src/agent/dispatcher.rs\<close> can do to the session it works on: a relation
  between the states before and after that is closed under the few updates a run makes holds between the
  start and the end of every run. The instance of this library says that a run only touches its own
  thread, and there neither the state nor the talk.
\<close>

section \<open>Relations kept by a run\<close>

locale loop_relation =
  fixes tid :: uuid and rel :: "'w loop_state \<Rightarrow> 'w loop_state \<Rightarrow> bool"
  assumes rel_same: "ls_session st' = ls_session st \<Longrightarrow> rel st st'"
    and rel_trans: "rel a b \<Longrightarrow> rel b c \<Longrightarrow> rel a c"
    and rel_turn: "(\<And>t. \<exists>cs. f t = t\<lparr>turn_tool_calls := cs\<rparr>) \<Longrightarrow> rel st (update_last_turn tid f st)"
    and rel_auth: "rel st (st\<lparr>ls_session := update_thread tid (enter_auth_mode now ext) (ls_session st)\<rparr>)"
begin

lemma rel_refl: "rel st st"
  by (rule rel_same) simp

lemma rel_log: "rel st (log_event e st)"
  by (rule rel_same) (simp add: log_event_def)

lemma rel_push: "rel st (push_message m st)"
  by (rule rel_same) (simp add: push_message_def)

lemma rel_world: "rel st (st\<lparr>ls_world := w\<rparr>)"
  by (rule rel_same) simp

lemma rel_usage: "rel st (record_usage env out st)"
  by (rule rel_same) (simp add: record_usage_def)

lemma rel_outcome: "rel st (record_outcome env tid r st)"
  unfolding record_outcome_def
  by (rule rel_turn) (cases r; auto simp: record_tool_result_def record_tool_error_def)

lemma recorded_only_calls: "\<exists>cs. foldl (\<lambda>t tc. record_tool_call (tc_name tc) (tc_arguments tc) t) t tcs = t\<lparr>turn_tool_calls := cs\<rparr>"
proof (induction tcs arbitrary: t)
  case Nil
  show ?case by (rule exI [of _ "turn_tool_calls t"]) simp
next
  case (Cons tc tcs)
  obtain cs where "foldl (\<lambda>t tc. record_tool_call (tc_name tc) (tc_arguments tc) t)
      (record_tool_call (tc_name tc) (tc_arguments tc) t) tcs
    = record_tool_call (tc_name tc) (tc_arguments tc) t\<lparr>turn_tool_calls := cs\<rparr>"
    using Cons by blast
  then show ?case by (auto simp: record_tool_call_def)
qed

lemma rel_calls: "rel st (record_calls tid tcs st)"
  unfolding record_calls_def by (rule rel_turn) (rule recorded_only_calls)

lemma rel_enter: "rel st (enter_auth env tid ext ins r id st)"
proof -
  obtain a s where p: "parse_auth_result (ae_dec env) r = (a, s)" by (cases "parse_auth_result (ae_dec env) r")
  let ?st1 = "st\<lparr>ls_session := update_thread tid (enter_auth_mode (ae_now env (ls_world st)) ext) (ls_session st)\<rparr>"
  have "rel st ?st1" by (rule rel_auth)
  then have "rel st (log_event (Ev_status (St_auth_required ext (Some ins) a s)) ?st1)"
    by (rule rel_trans) (rule rel_log)
  then show ?thesis using p by (simp add: enter_auth_def)
qed

lemma rel_perform: "rel st (fst (perform_tool env tid name checked params st))"
proof -
  let ?s0 = "log_event (Ev_status (St_tool_started name)) st"
  obtain s1 r where e: "execute_chat_tool env name checked params ?s0 = (s1, r)"
    by (cases "execute_chat_tool env name checked params ?s0")
  have "ls_session (fst (execute_chat_tool env name checked params ?s0)) = ls_session ?s0"
    by (simp add: execute_chat_tool_def Let_def log_event_def split: option.split prod.split)
  then have "ls_session s1 = ls_session st" unfolding e by (simp add: log_event_def)
  then have "rel st (log_event (Ev_status (St_tool_completed name (is_ok r))) s1)"
    and "rel st (log_event x (log_event (Ev_status (St_tool_completed name (is_ok r))) s1))" for x
    by (auto intro!: rel_same simp: log_event_def)
  then show ?thesis using e
    by (cases r) (auto simp: perform_tool_def Let_def intro: rel_trans [OF _ rel_outcome])
qed

lemma rel_tool_call: "rel st (fst (run_tool_call env user tid tc st))"
proof (cases "approval_missing env st tc")
  case None
  obtain w' res where h: "run_hooks env (ToolCall (tc_name tc) (tc_arguments tc) user ''chat'') (ls_world st) = (w', res)"
    by (cases "run_hooks env (ToolCall (tc_name tc) (tc_arguments tc) user ''chat'') (ls_world st)")
  let ?s = "st\<lparr>ls_world := w'\<rparr>"
  show ?thesis
  proof (cases res)
    case (Inl e)
    have p: "rel st (push_message m ?s)" for m by (rule rel_trans [OF rel_world rel_push])
    show ?thesis using None h Inl p by (cases e) (simp_all add: run_tool_call_def)
  next
    case (Inr out)
    let ?args = "hooked_arguments env (tc_arguments tc) out"
    obtain s1 r where e: "perform_tool env tid (tc_name tc) (tc_arguments tc) ?args ?s = (s1, r)"
      by (cases "perform_tool env tid (tc_name tc) (tc_arguments tc) ?args ?s")
    have "rel ?s s1" using rel_perform [of ?s env "tc_name tc" "tc_arguments tc" ?args] e by simp
    then have s1: "rel st s1" by (rule rel_trans [OF rel_world])
    have "rel st (push_message m s1)" for m by (rule rel_trans [OF s1 rel_push])
    moreover have "rel st (enter_auth env tid ext ins r id s1)" for ext ins by (rule rel_trans [OF s1 rel_enter])
    ultimately show ?thesis using None h Inr e
      by (simp add: run_tool_call_def Let_def split: option.split)
  qed
next
  case (Some tool)
  then show ?thesis by (auto simp: run_tool_call_def intro: rel_world split: prod.split)
qed

lemma rel_tool_calls: "rel st (fst (run_tool_calls env user tid tcs st))"
proof (induction tcs arbitrary: st)
  case (Cons tc tcs)
  obtain st' r where e: "run_tool_call env user tid tc st = (st', r)"
    by (cases "run_tool_call env user tid tc st")
  have st': "rel st st'" using rel_tool_call [of st env user tc] e by simp
  have "rel st (fst (run_tool_calls env user tid tcs st'))" by (rule rel_trans [OF st' Cons.IH])
  with st' e show ?case by (cases r) simp_all
qed (simp add: rel_refl)

lemma rel_reply: "rel st (fst (handle_reply env user tid it executed reply st))"
proof (cases reply)
  case (Respond_text t)
  have "rel st (push_message m (push_message m' st))" for m m' by (rule rel_trans [OF rel_push rel_push])
  with Respond_text show ?thesis by (simp add: handle_reply_def rel_refl)
next
  case (Respond_tools tcs said)
  let ?st1 = "record_calls tid tcs (log_event (Ev_status (St_thinking
      (''Executing '' @ show_nat (length tcs) @ '' tool(s)...'')))
      (push_message (msg_assistant_with_tool_calls said tcs) st))"
  have s1: "rel st ?st1" by (rule rel_trans [OF rel_push]) (rule rel_trans [OF rel_log rel_calls])
  obtain st2 r where e: "run_tool_calls env user tid tcs ?st1 = (st2, r)"
    by (cases "run_tool_calls env user tid tcs ?st1")
  have "rel ?st1 st2" using rel_tool_calls [of ?st1 env user tcs] unfolding e by simp
  with s1 have "rel st st2" by (rule rel_trans)
  with Respond_tools e show ?thesis by (cases r) (simp_all add: handle_reply_def Let_def)
qed

lemma rel_round: "rel st (fst (loop_round env user tid active prompt it executed st))"
proof -
  obtain st' e where r: "loop_round env user tid active prompt it executed st = (st', e)"
    by (cases "loop_round env user tid active prompt it executed st")
  from r have "rel st st'"
  proof (cases rule: loop_round_cases)
    case (refused g err)
    then show ?thesis by (simp add: rel_same)
  next
    case (asked w' g reply st1)
    have s1: "rel st st1" unfolding asked(1) by (rule rel_same) (simp add: log_event_def)
    show ?thesis
    proof (cases reply)
      case (Inr out)
      have "rel (record_usage env out st1) st'"
        using rel_reply [of "record_usage env out st1" env user it executed "ro_result out"] asked(3) Inr by simp
      then show ?thesis by (rule rel_trans [OF rel_trans [OF s1 rel_usage]])
    qed (use asked(3) s1 in simp)
  qed
  with r show ?thesis by simp
qed

lemma rel_loop: "rel st (fst (agentic_loop env user tid active prompt iteration executed st))"
proof (induction "MAX_TOOL_ITERATIONS - iteration" arbitrary: iteration executed st rule: less_induct)
  case less
  obtain st' e where r: "loop_round env user tid active prompt (iteration + 1) executed st = (st', e)"
    by (cases "loop_round env user tid active prompt (iteration + 1) executed st")
  have st': "rel st st'" using rel_round [of st env user active prompt "iteration + 1" executed] r by simp
  show ?case
  proof (cases "iteration + 1 > MAX_TOOL_ITERATIONS")
    case True
    then show ?thesis by (subst agentic_loop.simps) (simp add: rel_refl)
  next
    case False
    then have "rel st (fst (agentic_loop env user tid active prompt (iteration + 1) ex st'))" for ex
      by (intro rel_trans [OF st'] less) simp
    with False r st' show ?thesis
      by (subst agentic_loop.simps) (auto split: round_end.split)
  qed
qed

lemma rel_run: "rel st (fst (run_agentic_loop env user msg tid resumed st))"
  unfolding run_agentic_loop_def by (rule rel_loop)

end

section \<open>A run changes its own thread only\<close>

text \<open>What a run keeps of its thread: all but the calls of the last turn, the auth mode and the time.\<close>

definition keeps_talk :: "(thread \<Rightarrow> thread) \<Rightarrow> bool" where
  "keeps_talk f \<longleftrightarrow> (\<forall>th. thread_id (f th) = thread_id th \<and> thread_state (f th) = thread_state th
     \<and> pending_approval (f th) = pending_approval th
     \<and> map turn_messages (turns (f th)) = map turn_messages (turns th)
     \<and> length (turns (f th)) = length (turns th) \<and> map user_input (turns (f th)) = map user_input (turns th)
     \<and> last_response_id (f th) = last_response_id th)"

definition same_talk :: "uuid \<Rightarrow> 'w loop_state \<Rightarrow> 'w loop_state \<Rightarrow> bool" where
  "same_talk tid st st' \<longleftrightarrow> (\<exists>f. keeps_talk f \<and> ls_session st' = update_thread tid f (ls_session st))"

lemma update_thread_id [simp]: "update_thread tid (\<lambda>th. th) s = s"
  by (auto simp: update_thread_def update_triv split: option.split)

lemma update_thread_twice: "update_thread tid g (update_thread tid f s) = update_thread tid (\<lambda>th. g (f th)) s"
  by (auto simp: update_thread_def split: option.split)

lemma map_last_messages:
  "(\<And>t. \<exists>cs. f t = t\<lparr>turn_tool_calls := cs\<rparr>) \<Longrightarrow> map turn_messages (map_last f ts) = map turn_messages ts"
  "(\<And>t. \<exists>cs. f t = t\<lparr>turn_tool_calls := cs\<rparr>) \<Longrightarrow> map user_input (map_last f ts) = map user_input ts"
proof -
  assume a: "\<And>t. \<exists>cs. f t = t\<lparr>turn_tool_calls := cs\<rparr>"
  have "turn_messages (f t) = turn_messages t" "user_input (f t) = user_input t" for t
    using a [of t] by (auto simp: turn_messages_def split: option.split)
  then show "map turn_messages (map_last f ts) = map turn_messages ts"
    "map user_input (map_last f ts) = map user_input ts"
    by (simp_all add: map_last_map)
qed

interpretation session_frame: loop_relation tid "same_talk tid" for tid
proof unfold_locales
  fix st st' :: "'a loop_state"
  assume "ls_session st' = ls_session st"
  then show "same_talk tid st st'"
    by (auto simp: same_talk_def keeps_talk_def intro!: exI [of _ "\<lambda>th. th"])
next
  fix a b c :: "'a loop_state"
  assume "same_talk tid a b" "same_talk tid b c"
  then show "same_talk tid a c"
  proof (unfold same_talk_def, elim exE conjE)
    fix f g
    assume "keeps_talk f" "ls_session b = update_thread tid f (ls_session a)"
      and "keeps_talk g" "ls_session c = update_thread tid g (ls_session b)"
    then have "keeps_talk (\<lambda>th. g (f th)) \<and> ls_session c = update_thread tid (\<lambda>th. g (f th)) (ls_session a)"
      by (simp add: keeps_talk_def update_thread_twice)
    then show "\<exists>h. keeps_talk h \<and> ls_session c = update_thread tid h (ls_session a)" by blast
  qed
next
  fix f :: "turn \<Rightarrow> turn" and st :: "'a loop_state"
  assume "\<And>t. \<exists>cs. f t = t\<lparr>turn_tool_calls := cs\<rparr>"
  then have "keeps_talk (\<lambda>th. th\<lparr>turns := map_last f (turns th)\<rparr>)"
    by (auto simp: keeps_talk_def map_last_messages)
  then show "same_talk tid st (update_last_turn tid f st)"
    by (auto simp: same_talk_def update_last_turn_def)
next
  fix st :: "'a loop_state" and now ext
  have "keeps_talk (enter_auth_mode now ext)"
    by (simp add: keeps_talk_def enter_auth_mode_def)
  then show "same_talk tid st (st\<lparr>ls_session := update_thread tid (enter_auth_mode now ext) (ls_session st)\<rparr>)"
    by (auto simp: same_talk_def)
qed

end
