(* ===== verification/Chat_Frame.thy ===== *)
theory Chat_Frame
  imports Message_Loop Loop_Frame
begin

text \<open>
  What the operations of a chat message may change: the sessions of the manager seen as a map, the effect
  of every helper of \<open>src/agent/thread_ops.rs\<close> on it, and the relation \<open>moves\<close>, by which an operation
  changes one thread of one user.
\<close>

section \<open>Sessions of a state\<close>

definition sessions_of :: "'w chat_state \<Rightarrow> string \<Rightarrow> session option" where
  "sessions_of st = map_of (mg_sessions (ch_manager st))"

lemma sessions_of_updates [simp]:
  "sessions_of (st\<lparr>ch_world := w\<rparr>) = sessions_of st"
  "sessions_of (st\<lparr>ch_guard := g\<rparr>) = sessions_of st"
  "sessions_of (st\<lparr>ch_jobs := j\<rparr>) = sessions_of st"
  "sessions_of (st\<lparr>ch_store := d\<rparr>) = sessions_of st"
  "sessions_of (st\<lparr>ch_events := es\<rparr>) = sessions_of st"
  "sessions_of (say s st) = sessions_of st"
  "sessions_of (put_undo tid um st) = sessions_of st"
  "sessions_of (persist_turn env tid inp resp st) = sessions_of st"
  by (simp_all add: sessions_of_def say_def put_undo_def persist_turn_def Let_def split: option.split)

lemma sessions_of_fresh [simp]: "sessions_of (fst (chat_fresh env st)) = sessions_of st"
  by (simp add: chat_fresh_def split: prod.split)

lemma sessions_of_undo [simp]: "sessions_of (fst (undo_manager_of tid st)) = sessions_of st"
  by (simp add: undo_manager_of_def get_undo_manager_def sessions_of_def split: option.split)

lemma sessions_of_remember [simp]: "sessions_of (remember env b txt st) = sessions_of st"
  by (simp add: remember_def Let_def split: prod.split option.split)

lemma map_of_put [simp]: "map_of (mg_sessions (put_session u s m)) = (map_of (mg_sessions m))(u \<mapsto> s)"
  by (simp add: update_conv')

lemma sessions_of_session [simp]:
  "sessions_of (change_session u f st) = (sessions_of st)(u := map_option f (sessions_of st u))"
  by (auto simp: change_session_def sessions_of_def fun_eq_iff put_session_def update_conv' split: option.split)

lemma sessions_of_thread [simp]:
  "sessions_of (change_thread u tid f st) = (sessions_of st)(u := map_option (update_thread tid f) (sessions_of st u))"
  by (simp add: change_thread_def)

lemma user_session_of: "user_session u st = (case sessions_of st u of Some s \<Rightarrow> s | None \<Rightarrow> new_session 0 0 u)"
  by (simp add: user_session_def sessions_of_def)

lemma thread_of_sessions: "thread_of u tid st = Option.bind (sessions_of st u) (\<lambda>s. map_of (threads s) tid)"
  by (simp add: thread_of_def user_session_of new_session_def split: option.split)

lemma threads_update_thread:
  "map_of (threads (update_thread tid f s)) = (map_of (threads s))(tid := map_option f (map_of (threads s) tid))"
  by (auto simp: update_thread_def update_conv' fun_eq_iff split: option.split)

lemma thread_of_change [simp]:
  "thread_of v j (change_thread u tid f st) =
     (if v = u \<and> j = tid then map_option f (thread_of u tid st) else thread_of v j st)"
  by (cases "sessions_of st u") (auto simp: thread_of_sessions threads_update_thread)

lemma thread_of_same: "sessions_of st' = sessions_of st \<Longrightarrow> thread_of u tid st' = thread_of u tid st"
  by (simp add: thread_of_sessions)

lemma thread_of_updates [simp]:
  "thread_of u i (st\<lparr>ch_world := w\<rparr>) = thread_of u i st"
  "thread_of u i (st\<lparr>ch_store := d\<rparr>) = thread_of u i st"
  "thread_of u i (st\<lparr>ch_jobs := jb\<rparr>) = thread_of u i st"
  "thread_of u i (say s st) = thread_of u i st"
  "thread_of u i (put_undo tid um st) = thread_of u i st"
  "thread_of u i (persist_turn env tid inp resp st) = thread_of u i st"
  "thread_of u i (fst (chat_fresh env st)) = thread_of u i st"
  "thread_of u i (fst (undo_manager_of tid st)) = thread_of u i st"
  "thread_of u i (remember env b txt st) = thread_of u i st"
  by (rule thread_of_same; simp)+

lemma sessions_of_chain:
  "\<exists>f. keeps_talk (\<lambda>th. f th\<lparr>last_response_id := last_response_id th\<rparr>)
     \<and> sessions_of (persist_response_chain env u tid st)
       = (sessions_of st)(u := map_option (update_thread tid f) (sessions_of st u))"
proof (cases "ce_chain_id env (ch_world st) (ae_show_uuid (ce_agent env) tid)")
  case None
  moreover have "map_option (update_thread tid (\<lambda>th. th)) x = x" for x by (cases x) simp_all
  ultimately show ?thesis
    by (intro exI [of _ "\<lambda>th. th"]) (simp add: persist_response_chain_def keeps_talk_def)
next
  case (Some rid)
  then show ?thesis
    by (intro exI [of _ "\<lambda>th. th\<lparr>last_response_id := Some rid\<rparr>"])
      (auto simp: persist_response_chain_def keeps_talk_def Let_def split: option.split)
qed

section \<open>One thread of one user\<close>

text \<open>The state changes at most in the session of the user, and there only in the thread.\<close>

definition moves :: "string \<Rightarrow> uuid \<Rightarrow> 'w chat_state \<Rightarrow> 'w chat_state \<Rightarrow> bool" where
  "moves u tid st st' \<longleftrightarrow> (\<forall>v. v \<noteq> u \<longrightarrow> sessions_of st' v = sessions_of st v)
     \<and> (\<forall>j. j \<noteq> tid \<longrightarrow> thread_of u j st' = thread_of u j st)"

lemma moves_trans [trans]: "moves u tid a b \<Longrightarrow> moves u tid b c \<Longrightarrow> moves u tid a c"
  by (simp add: moves_def)

lemma moves_same: "sessions_of st' = sessions_of st \<Longrightarrow> moves u tid st st'"
  by (simp add: moves_def thread_of_sessions)

lemma moves_update:
  "sessions_of st' = (sessions_of st)(u := map_option (update_thread tid f) (sessions_of st u)) \<Longrightarrow> moves u tid st st'"
  by (cases "sessions_of st u") (auto simp: moves_def thread_of_sessions threads_update_thread)

lemma moves_session:
  "(\<And>s. threads (f s) = threads s) \<Longrightarrow> moves u tid st (change_session u f st)"
  by (cases "sessions_of st u") (auto simp: moves_def thread_of_sessions)

lemma moves_refl [simp]: "moves u tid st st"
  by (simp add: moves_def)

text \<open>No helper that works on the thread matters for the relation.\<close>

lemma moves_alike:
  "moves u tid a b \<Longrightarrow> moves u tid st b \<longleftrightarrow> moves u tid st a"
  by (auto simp: moves_def)

lemma moves_updates [simp]:
  "moves u tid st (st'\<lparr>ch_world := w\<rparr>) \<longleftrightarrow> moves u tid st st'"
  "moves u tid st (st'\<lparr>ch_jobs := jb\<rparr>) \<longleftrightarrow> moves u tid st st'"
  "moves u tid st (say s st') \<longleftrightarrow> moves u tid st st'"
  "moves u tid st (put_undo i um st') \<longleftrightarrow> moves u tid st st'"
  "moves u tid st (persist_turn env i inp resp st') \<longleftrightarrow> moves u tid st st'"
  "moves u tid st (remember env b txt st') \<longleftrightarrow> moves u tid st st'"
  "moves u tid st (fst (chat_fresh env st')) \<longleftrightarrow> moves u tid st st'"
  "moves u tid st (fst (undo_manager_of i st')) \<longleftrightarrow> moves u tid st st'"
  by (rule moves_alike, rule moves_same, simp)+

lemma moves_thread [simp]: "moves u tid st (change_thread u tid f st') \<longleftrightarrow> moves u tid st st'"
  by (rule moves_alike, rule moves_update [of _ _ u tid f]) simp

lemma moves_chain [simp]: "moves u tid st (persist_response_chain env u tid st') \<longleftrightarrow> moves u tid st st'"
proof (rule moves_alike)
  show "moves u tid st' (persist_response_chain env u tid st')"
    using sessions_of_chain [of env u tid st'] by (blast intro: moves_update)
qed

lemma moves_approve [simp]: "moves u tid st (change_session u (auto_approve_tool t) st') \<longleftrightarrow> moves u tid st st'"
  by (rule moves_alike, rule moves_session) (simp add: auto_approve_tool_def)

section \<open>Runs of the tool loop\<close>

lemma session_view: "sessions_of st u \<noteq> None \<Longrightarrow> sessions_of st u = Some (user_session u st)"
  by (auto simp: user_session_of)

lemma loop_back_sessions:
  assumes "ls_session ls = update_thread tid f (user_session u st)"
  shows "sessions_of (loop_back u ls st) = (sessions_of st)(u := map_option (update_thread tid f) (sessions_of st u))"
  using assms by (cases "sessions_of st u") (auto simp: loop_back_def user_session_of)

text \<open>A run keeps all of the state but its thread, the world, the cost guard and the events.\<close>

definition ran :: "string \<Rightarrow> uuid \<Rightarrow> 'w chat_state \<Rightarrow> 'w chat_state \<Rightarrow> bool" where
  "ran u tid st st' \<longleftrightarrow> (\<exists>f. keeps_talk f
     \<and> sessions_of st' = (sessions_of st)(u := map_option (update_thread tid f) (sessions_of st u)))
     \<and> mg_undo_managers (ch_manager st') = mg_undo_managers (ch_manager st)
     \<and> ch_store st' = ch_store st \<and> ch_jobs st' = ch_jobs st"

lemma ran_back:
  assumes "same_talk tid (loop_view u ctx st) ls"
  shows "ran u tid st (loop_back u ls st)"
proof -
  obtain f where f: "keeps_talk f" "ls_session ls = update_thread tid f (user_session u st)"
    using assms by (auto simp: same_talk_def loop_view_def)
  then show ?thesis
    using loop_back_sessions [OF f(2)]
    by (auto simp: ran_def) (simp_all add: loop_back_def change_session_def split: option.split)
qed

lemma ran_loop: "ran (im_user_id msg) tid st (fst (run_loop env msg tid resumed ctx st))"
proof -
  let ?u = "im_user_id msg"
  obtain ls r where e: "run_agentic_loop (ce_agent env) ?u (im_content msg) tid resumed (loop_view ?u ctx st) = (ls, r)"
    by (cases "run_agentic_loop (ce_agent env) ?u (im_content msg) tid resumed (loop_view ?u ctx st)")
  then have "same_talk tid (loop_view ?u ctx st) ls"
    using session_frame.rel_run [of tid "loop_view ?u ctx st" "ce_agent env" ?u "im_content msg" resumed] by simp
  then show ?thesis using e by (simp add: run_loop_def ran_back)
qed

lemma ran_moves: "ran u tid st st' \<Longrightarrow> moves u tid st st'"
  by (auto simp: ran_def intro: moves_update)

lemma run_moves [simp]:
  "moves (im_user_id msg) tid st (fst (run_loop env msg tid resumed ctx st')) \<longleftrightarrow> moves (im_user_id msg) tid st st'"
  by (rule moves_alike, rule ran_moves, rule ran_loop)

lemma ran_thread:
  assumes "ran u tid st st'"
  shows "\<exists>f. keeps_talk f \<and> thread_of u tid st' = map_option f (thread_of u tid st)"
  using assms by (cases "sessions_of st u") (auto simp: ran_def thread_of_sessions threads_update_thread)

lemma ran_messages:
  "ran u tid st st' \<Longrightarrow> map_option (\<lambda>th. map turn_messages (turns th)) (thread_of u tid st')
      = map_option (\<lambda>th. map turn_messages (turns th)) (thread_of u tid st)
    \<and> map_option thread_state (thread_of u tid st') = map_option thread_state (thread_of u tid st)"
  by (drule ran_thread) (auto simp: keeps_talk_def option.map_comp o_def)

section \<open>The operations on a thread\<close>

lemma moves_compact [simp]: "moves u tid st (auto_compact env u tid st') \<longleftrightarrow> moves u tid st st'"
  by (simp add: auto_compact_def Let_def split_beta split: option.split)

lemma moves_checkpoint [simp]: "moves u tid st (checkpoint_turn env u tid st') \<longleftrightarrow> moves u tid st st'"
  by (simp add: checkpoint_turn_def Let_def split_beta split: option.split)

lemma moves_ask [simp]: "moves u tid st (fst (ask_approval env u tid p st')) \<longleftrightarrow> moves u tid st st'"
  by (simp add: ask_approval_def)

lemma moves_finish [simp]:
  "moves (im_user_id msg) tid st (fst (finish_turn env msg tid inp r st')) \<longleftrightarrow> moves (im_user_id msg) tid st st'"
  by (simp add: finish_turn_def Let_def split_beta split: option.split sum.split agentic_result.split)

lemma moves_chat_turn [simp]: "moves (im_user_id msg) tid st (fst (chat_turn env msg tid inp st))"
  by (simp add: chat_turn_def Let_def split_beta split: option.split)

lemma moves_history [simp]:
  "moves u tid st (fst (process_undo env u tid st))"
  "moves u tid st (fst (process_redo env u tid st))"
  "moves u tid st (fst (process_resume env u tid cid st))"
  "moves u tid st (fst (process_interrupt env u tid st))"
  "moves u tid st (fst (process_clear env u tid st))"
  by (simp_all add: process_undo_def process_redo_def process_resume_def process_interrupt_def
      process_clear_def Let_def split_beta split: option.split)

lemma moves_process_compact [simp]: "moves u tid st (fst (process_compact env u tid st))"
  by (simp add: process_compact_def Let_def split_beta split: option.split sum.split)

lemma moves_finish_approved [simp]:
  "moves u tid st (fst (finish_approved env u tid r st')) \<longleftrightarrow> moves u tid st st'"
  by (simp add: finish_approved_def Let_def split_beta split: option.split sum.split agentic_result.split)

lemma moves_reject [simp]: "moves u tid st (fst (reject_pending env u tid p st')) \<longleftrightarrow> moves u tid st st'"
  by (simp add: reject_pending_def)

lemma moves_auth_token [simp]: "moves u tid st (fst (process_auth_token env u tid ext token st))"
  by (simp add: process_auth_token_def Let_def split_beta split: option.split sum.split)

text \<open>An approved tool: its execution and the auth mode it may lead to stay on the thread.\<close>

lemma perform_view:
  assumes "perform_tool env tid name checked params (loop_view u ctx st) = (ls, r)"
  shows "same_talk tid (loop_view u ctx st) ls"
  using session_frame.rel_perform [of tid "loop_view u ctx st" env name checked params] assms by simp

lemma moves_back:
  assumes "ls_session ls = update_thread tid f (user_session u st')"
  shows "moves u tid st (loop_back u ls st') \<longleftrightarrow> moves u tid st st'"
  by (rule moves_alike, rule moves_update [OF loop_back_sessions [OF assms]])

lemma enter_auth_session:
  "\<exists>h. (\<forall>th. h th = f (enter_auth_mode (ae_now env (ls_world ls)) ext th))
     \<and> ls_session (enter_auth env tid ext ins r f ls) = update_thread tid h (ls_session ls)"
  by (auto simp: enter_auth_def log_event_def split: prod.split)

lemma moves_run_approved [simp]:
  "moves (im_user_id msg) tid st (fst (run_approved env msg tid p always st')) \<longleftrightarrow> moves (im_user_id msg) tid st st'"
proof -
  let ?u = "im_user_id msg" and ?g = "ce_agent env" and ?n = "pa_tool_name p"
  let ?st2 = "change_thread ?u tid (\<lambda>th. th\<lparr>thread_state := Processing\<rparr>)
      (if always then change_session ?u (auto_approve_tool ?n) st' else st')"
  obtain ls r where e: "perform_tool ?g tid ?n (pa_parameters p) (pa_parameters p)
      (loop_view ?u (pa_context_messages p) ?st2) = (ls, r)"
    by (cases "perform_tool ?g tid ?n (pa_parameters p) (pa_parameters p) (loop_view ?u (pa_context_messages p) ?st2)")
  obtain f where f: "ls_session ls = update_thread tid f (user_session ?u ?st2)"
    using perform_view [OF e] by (auto simp: same_talk_def loop_view_def)
  have stays: "moves ?u tid st (loop_back ?u ls ?st2) \<longleftrightarrow> moves ?u tid st st'"
    by (subst moves_back [OF f]) simp
  show ?thesis
  proof (cases "detect_auth_awaiting (ae_dec ?g) ?n r")
    case None
    then show ?thesis using e stays by (simp add: run_approved_def Let_def split_beta)
  next
    case (Some x)
    obtain ext ins where x: "x = (ext, ins)" by (cases x)
    let ?done = "complete_turn (ae_now ?g (ls_world ls)) ins"
    obtain h where "ls_session (enter_auth ?g tid ext ins r ?done ls) = update_thread tid h (ls_session ls)"
      using enter_auth_session [of ?done ?g ls ext tid ins r] by blast
    then have h: "ls_session (enter_auth ?g tid ext ins r ?done ls) = update_thread tid (\<lambda>th. h (f th)) (user_session ?u ?st2)"
      by (simp add: f update_thread_twice)
    have "moves ?u tid st (loop_back ?u (enter_auth ?g tid ext ins r ?done ls) ?st2) \<longleftrightarrow> moves ?u tid st st'"
      by (subst moves_back [OF h]) simp
    then show ?thesis using e Some x by (simp add: run_approved_def Let_def split_beta)
  qed
qed

end
