(* ===== verification/Chat_Props.thy ===== *)
theory Chat_Props
  imports Chat_Frame
begin

text \<open>
  The properties of the chat: what a message may touch (\<open>src/agent/agent_loop.rs\<close>,
  \<open>src/agent/thread_ops.rs\<close>), in which state it leaves a thread, what undo restores, what is
  persisted, and what an approval or a token leads to.
\<close>

section \<open>Only the session of the sender\<close>

text \<open>The sessions after an operation, up to the sender's.\<close>

definition elsewhere :: "string \<Rightarrow> 'w chat_state \<Rightarrow> 'w chat_state \<Rightarrow> bool" where
  "elsewhere u st st' \<longleftrightarrow> (\<forall>v. v \<noteq> u \<longrightarrow> sessions_of st' v = sessions_of st v)"

text \<open>A thread after an operation is the thread before, or one that was just made and is idle.\<close>

definition idles :: "'w chat_state \<Rightarrow> 'w chat_state \<Rightarrow> bool" where
  "idles st st' \<longleftrightarrow> (\<forall>v j th. thread_of v j st' = Some th \<longrightarrow> thread_of v j st = Some th \<or> thread_state th = Idle)"

lemma moves_elsewhere: "moves u tid st st' \<Longrightarrow> elsewhere u st st'"
  by (simp add: moves_def elsewhere_def)

lemma elsewhere_trans: "elsewhere u a b \<Longrightarrow> elsewhere u b c \<Longrightarrow> elsewhere u a c"
  by (simp add: elsewhere_def)

lemma idles_trans: "idles a b \<Longrightarrow> idles b c \<Longrightarrow> idles a c"
  by (auto simp: idles_def) metis

lemma same_sessions: "sessions_of st' = sessions_of st \<Longrightarrow> elsewhere u st st' \<and> idles st st'"
  by (simp add: elsewhere_def idles_def thread_of_sessions)

text \<open>Operations of the session manager, as changes of the session of one user.\<close>

lemma manager_change:
  assumes "map_of (mg_sessions m') = (map_of (mg_sessions (ch_manager st)))(u \<mapsto> s')"
    and "\<And>j th. map_of (threads s') j = Some th \<Longrightarrow> thread_of u j st = Some th \<or> thread_state th = Idle"
  shows "elsewhere u st (st\<lparr>ch_manager := m'\<rparr>) \<and> idles st (st\<lparr>ch_manager := m'\<rparr>)"
proof -
  have s: "sessions_of (st\<lparr>ch_manager := m'\<rparr>) = (sessions_of st)(u \<mapsto> s')"
    using assms(1) by (simp add: sessions_of_def)
  show ?thesis
  proof
    show "elsewhere u st (st\<lparr>ch_manager := m'\<rparr>)" by (simp add: elsewhere_def s)
    show "idles st (st\<lparr>ch_manager := m'\<rparr>)"
      using assms(2) by (auto simp: idles_def thread_of_sessions s split: if_splits)
  qed
qed

lemma get_or_create_sessions:
  assumes "get_or_create_session su fresh now u m = (m', s)"
  shows "map_of (mg_sessions m') = (map_of (mg_sessions m))(u \<mapsto> s)
    \<and> (map_of (mg_sessions m) u = Some s \<or> map_of (mg_sessions m) u = None \<and> threads s = [])"
  using assms by (auto simp: get_or_create_session_def fire_def new_session_def Let_def fun_upd_idem split: option.splits if_splits)

lemma created_thread:
  "map_of (threads (create_thread i now s)) j = Some th \<Longrightarrow> map_of (threads s) j = Some th \<or> thread_state th = Idle"
  by (auto simp: create_thread_def update_conv' new_thread_def thread_with_id_def split: if_splits)

lemma hydrated_idle: "thread_state (hydrated store now i s) = Idle"
  by (auto simp: hydrated_def Let_def thread_with_id_def restore_from_messages_def split: option.split)

text \<open>The steps that find or make a thread.\<close>

lemma fresh_keeps [simp]:
  "ch_manager (fst (chat_fresh env st)) = ch_manager st" "ch_store (fst (chat_fresh env st)) = ch_store st"
  by (simp_all add: chat_fresh_def split: prod.split)

lemma register_sessions:
  "map_of (mg_sessions (register_thread su u ch i s m)) =
     (if map_of (mg_sessions m) u = None then (map_of (mg_sessions m))(u \<mapsto> s) else map_of (mg_sessions m))"
  by (simp add: register_thread_def Let_def update_conv' put_session_def)

lemma hydrate_sessions:
  "\<exists>s'. map_of (mg_sessions (maybe_hydrate_thread su parse store fresh now u ch ext m)) \<in>
       {map_of (mg_sessions m), (map_of (mg_sessions m))(u \<mapsto> s')}
     \<and> (\<forall>j th. map_of (threads s') j = Some th \<longrightarrow>
          (\<exists>s. map_of (mg_sessions m) u = Some s \<and> map_of (threads s) j = Some th) \<or> thread_state th = Idle)"
proof (cases "parse ext")
  case None
  then show ?thesis
    by (intro exI [of _ "new_session 0 0 u"]) (simp add: maybe_hydrate_thread_def new_session_def)
next
  case (Some i)
  obtain m1 s where g: "get_or_create_session su fresh now u m = (m1, s)"
    by (cases "get_or_create_session su fresh now u m")
  let ?s' = "s\<lparr>threads := AList.update i (hydrated store now i s) (threads s), active_thread := Some i,
      last_active_at := now\<rparr>"
  note c = get_or_create_sessions [OF g]
  show ?thesis
  proof (cases "map_of (threads s) i = None")
    case True
    have "map_of (mg_sessions (maybe_hydrate_thread su parse store fresh now u ch ext m)) = (map_of (mg_sessions m))(u \<mapsto> ?s')"
      using Some g True c by (simp add: maybe_hydrate_thread_def Let_def register_sessions update_conv')
    moreover have "(\<exists>t. map_of (mg_sessions m) u = Some t \<and> map_of (threads t) j = Some th) \<or> thread_state th = Idle"
      if "map_of (threads ?s') j = Some th" for j th
      using that c by (auto simp: update_conv' hydrated_idle split: if_splits)
    ultimately show ?thesis by (intro exI [of _ ?s']) simp
  next
    case False
    have "map_of (mg_sessions (maybe_hydrate_thread su parse store fresh now u ch ext m)) = (map_of (mg_sessions m))(u \<mapsto> s)"
      using Some g False c by (auto simp: maybe_hydrate_thread_def Let_def)
    moreover have "(\<exists>t. map_of (mg_sessions m) u = Some t \<and> map_of (threads t) j = Some th) \<or> thread_state th = Idle"
      if "map_of (threads s) j = Some th" for j th
      using that c by auto
    ultimately show ?thesis by (intro exI [of _ s]) simp
  qed
qed

lemma hydrate_safe: "elsewhere (im_user_id msg) st (hydrate_step env msg st) \<and> idles st (hydrate_step env msg st)"
proof (cases "im_thread_id msg")
  case None
  then show ?thesis by (simp add: hydrate_step_def same_sessions)
next
  case (Some ext)
  let ?st1 = "fst (chat_fresh env st)" and ?u = "im_user_id msg"
  let ?m = "maybe_hydrate_thread (ae_show_uuid (ce_agent env)) (cv_parse (ce_commands env)) (ch_store ?st1)
      (snd (chat_fresh env st)) (chat_now env ?st1) ?u (im_channel msg) ext (ch_manager ?st1)"
  have h: "hydrate_step env msg st = ?st1\<lparr>ch_manager := ?m\<rparr>"
    by (simp add: hydrate_step_def Some split_beta)
  have base: "elsewhere ?u st ?st1 \<and> idles st ?st1" by (rule same_sessions) simp
  have map: "map_of (mg_sessions (ch_manager ?st1)) = sessions_of ?st1" by (simp only: sessions_of_def)
  have "elsewhere ?u ?st1 (?st1\<lparr>ch_manager := ?m\<rparr>) \<and> idles ?st1 (?st1\<lparr>ch_manager := ?m\<rparr>)"
    using hydrate_sessions [of "ae_show_uuid (ce_agent env)" "cv_parse (ce_commands env)" "ch_store ?st1"
        "snd (chat_fresh env st)" "chat_now env ?st1" ?u "im_channel msg" ext "ch_manager ?st1"]
    unfolding map
  proof (elim exE conjE insertE emptyE)
    assume "map_of (mg_sessions ?m) = sessions_of ?st1"
    then have "sessions_of (?st1\<lparr>ch_manager := ?m\<rparr>) = sessions_of ?st1" by (simp add: sessions_of_def)
    then show ?thesis by (rule same_sessions)
  next
    fix s' assume a: "map_of (mg_sessions ?m) = (sessions_of ?st1)(?u \<mapsto> s')"
      and i: "\<forall>j th. map_of (threads s') j = Some th \<longrightarrow>
        (\<exists>s. sessions_of ?st1 ?u = Some s \<and> map_of (threads s) j = Some th) \<or> thread_state th = Idle"
    show ?thesis
    proof (rule manager_change [of _ _ ?u s'])
      show "map_of (mg_sessions ?m) = (map_of (mg_sessions (ch_manager ?st1)))(?u \<mapsto> s')" using a map by simp
    next
      fix j th assume "map_of (threads s') j = Some th"
      with i have "(\<exists>s. sessions_of ?st1 ?u = Some s \<and> map_of (threads s) j = Some th) \<or> thread_state th = Idle" by blast
      then show "thread_of ?u j ?st1 = Some th \<or> thread_state th = Idle" by (auto simp: thread_of_sessions)
    qed
  qed
  with base h show ?thesis by (auto intro: elsewhere_trans idles_trans)
qed

lemma resolve_sessions:
  assumes "resolve_thread su fs ft now u ch ext m = (m', tid)"
  shows "\<exists>s'. map_of (mg_sessions m') = (map_of (mg_sessions m))(u \<mapsto> s') \<and> map_of (threads s') tid \<noteq> None
     \<and> (\<forall>j th. map_of (threads s') j = Some th \<longrightarrow>
          (\<exists>s. map_of (mg_sessions m) u = Some s \<and> map_of (threads s) j = Some th) \<or> thread_state th = Idle)"
proof -
  obtain m1 s where g: "get_or_create_session su fs now u m = (m1, s)"
    by (cases "get_or_create_session su fs now u m")
  note c = get_or_create_sessions [OF g]
  let ?known = "case map_of (mg_thread_map m1) \<lparr>tk_user = u, tk_channel = ch, tk_external = ext\<rparr> of
      Some i \<Rightarrow> if map_of (threads s) i \<noteq> None then Some i else None | None \<Rightarrow> None"
  show ?thesis
  proof (cases ?known)
    case (Some i)
    then have r: "m' = m1" "tid = i" using assms g by (auto simp: resolve_thread_def)
    have "map_of (threads s) i \<noteq> None" using Some by (auto split: option.splits if_splits)
    with c r show ?thesis by (intro exI [of _ s]) auto
  next
    case None
    let ?s' = "create_thread ft now s"
    have r: "map_of (mg_sessions m') = (map_of (mg_sessions m1))(u \<mapsto> ?s')" "tid = ft"
      using assms g None by (auto simp: resolve_thread_def Let_def update_conv')
    have "map_of (threads ?s') ft \<noteq> None" by (simp add: create_thread_def)
    moreover have "(\<exists>t. map_of (mg_sessions m) u = Some t \<and> map_of (threads t) j = Some th) \<or> thread_state th = Idle"
      if "map_of (threads ?s') j = Some th" for j th
      using created_thread [OF that] c by auto
    ultimately show ?thesis using c r by (intro exI [of _ ?s']) simp
  qed
qed

text \<open>A manager operation with fresh identifiers that changes the session of the user.\<close>

lemma manager_step:
  assumes "sessions_of st1 = sessions_of st" "map_of (mg_sessions m') = (sessions_of st)(u \<mapsto> s')"
    and "\<And>j th. map_of (threads s') j = Some th \<Longrightarrow>
      (\<exists>s. sessions_of st u = Some s \<and> map_of (threads s) j = Some th) \<or> thread_state th = Idle"
  shows "elsewhere u st (st1\<lparr>ch_manager := m'\<rparr>) \<and> idles st (st1\<lparr>ch_manager := m'\<rparr>)
    \<and> sessions_of (st1\<lparr>ch_manager := m'\<rparr>) u = Some s'"
proof -
  have s: "sessions_of (st1\<lparr>ch_manager := m'\<rparr>) = (sessions_of st)(u \<mapsto> s')" using assms(2) by (simp add: sessions_of_def)
  have "thread_of v j st = Some th \<or> thread_state th = Idle"
    if "thread_of v j (st1\<lparr>ch_manager := m'\<rparr>) = Some th" for v j th
    using that assms(3) [of j th] by (cases "v = u") (auto simp: thread_of_sessions s)
  then show ?thesis by (auto simp: elsewhere_def idles_def s)
qed

lemma resolve_safe:
  assumes "resolve_step env msg st = (st', tid)"
  shows "elsewhere (im_user_id msg) st st' \<and> idles st st' \<and> thread_of (im_user_id msg) tid st' \<noteq> None"
proof -
  let ?u = "im_user_id msg"
  let ?st1 = "fst (chat_fresh env st)"
  let ?st2 = "fst (chat_fresh env ?st1)"
  let ?r = "resolve_thread (ae_show_uuid (ce_agent env)) (snd (chat_fresh env st)) (snd (chat_fresh env ?st1))
      (chat_now env ?st2) ?u (im_channel msg) (im_thread_id msg) (ch_manager st)"
  have st': "st' = ?st2\<lparr>ch_manager := fst ?r\<rparr>" and tid: "tid = snd ?r"
    using assms by (auto simp: resolve_step_def Let_def split_beta)
  have r: "?r = (fst ?r, tid)" by (simp add: tid)
  obtain s' where s': "map_of (mg_sessions (fst ?r)) = (sessions_of st)(?u \<mapsto> s')" "map_of (threads s') tid \<noteq> None"
      "\<And>j th. map_of (threads s') j = Some th \<Longrightarrow>
        (\<exists>s. sessions_of st ?u = Some s \<and> map_of (threads s) j = Some th) \<or> thread_state th = Idle"
    using resolve_sessions [OF r] by (auto simp: sessions_of_def)
  have "elsewhere ?u st st' \<and> idles st st' \<and> sessions_of st' ?u = Some s'"
    unfolding st' by (rule manager_step [OF _ s'(1,3)]) simp_all
  with s'(2) show ?thesis by (auto simp: thread_of_sessions)
qed

lemma new_thread_safe: "elsewhere (im_user_id msg) st (fst (new_thread_step env msg st))
    \<and> idles st (fst (new_thread_step env msg st))"
proof -
  let ?u = "im_user_id msg"
  let ?st1 = "fst (chat_fresh env st)"
  let ?st2 = "fst (chat_fresh env ?st1)"
  let ?now = "chat_now env ?st2" and ?ft = "snd (chat_fresh env ?st1)"
  obtain m1 s where g: "get_or_create_session (ae_show_uuid (ce_agent env)) (snd (chat_fresh env st)) ?now ?u (ch_manager st) = (m1, s)"
    by (cases "get_or_create_session (ae_show_uuid (ce_agent env)) (snd (chat_fresh env st)) ?now ?u (ch_manager st)")
  note c = get_or_create_sessions [OF g]
  let ?m' = "put_session ?u (create_thread ?ft ?now s) m1"
  have e: "fst (new_thread_step env msg st) = ?st2\<lparr>ch_manager := ?m'\<rparr>"
    using g by (simp add: new_thread_step_def process_new_thread_def Let_def split_beta)
  have "map_of (mg_sessions ?m') = (sessions_of st)(?u \<mapsto> create_thread ?ft ?now s)"
    using c by (simp add: sessions_of_def update_conv')
  then have "elsewhere ?u st (?st2\<lparr>ch_manager := ?m'\<rparr>) \<and> idles st (?st2\<lparr>ch_manager := ?m'\<rparr>)
      \<and> sessions_of (?st2\<lparr>ch_manager := ?m'\<rparr>) ?u = Some (create_thread ?ft ?now s)"
    by (rule manager_step [rotated]) (use c created_thread in \<open>auto simp: sessions_of_def dest: created_thread\<close>)
  then show ?thesis unfolding e by simp
qed

lemma switch_safe: "elsewhere (im_user_id msg) st (fst (switch_step env msg target st))
    \<and> idles st (fst (switch_step env msg target st))"
proof -
  let ?u = "im_user_id msg"
  let ?st1 = "fst (chat_fresh env st)"
  let ?now = "chat_now env ?st1"
  obtain m1 s where g: "get_or_create_session (ae_show_uuid (ce_agent env)) (snd (chat_fresh env st)) ?now ?u (ch_manager st) = (m1, s)"
    by (cases "get_or_create_session (ae_show_uuid (ce_agent env)) (snd (chat_fresh env st)) ?now ?u (ch_manager st)")
  note c = get_or_create_sessions [OF g]
  let ?s' = "snd (switch_thread target ?now s)"
  let ?m' = "put_session ?u ?s' m1"
  have e: "fst (switch_step env msg target st) = ?st1\<lparr>ch_manager := ?m'\<rparr>"
    using g by (simp add: switch_step_def process_switch_thread_def Let_def split_beta)
  have t: "threads ?s' = threads s" by (simp add: switch_thread_def)
  have "map_of (mg_sessions ?m') = (sessions_of st)(?u \<mapsto> ?s')"
    using c by (simp add: sessions_of_def update_conv')
  then have "elsewhere ?u st (?st1\<lparr>ch_manager := ?m'\<rparr>) \<and> idles st (?st1\<lparr>ch_manager := ?m'\<rparr>)
      \<and> sessions_of (?st1\<lparr>ch_manager := ?m'\<rparr>) ?u = Some ?s'"
    by (rule manager_step [rotated]) (use c t in \<open>auto simp: sessions_of_def\<close>)
  then show ?thesis unfolding e by simp
qed

section \<open>No thread is left in the middle of a turn\<close>

definition calm :: "string \<Rightarrow> uuid \<Rightarrow> 'w chat_state \<Rightarrow> bool" where
  "calm u tid st \<longleftrightarrow> (\<forall>th. thread_of u tid st = Some th \<longrightarrow> thread_state th \<noteq> Processing)"

definition quiet :: "'w chat_state \<Rightarrow> bool" where
  "quiet st \<longleftrightarrow> (\<forall>v j. calm v j st)"

lemma moves_other: "moves u tid st st' \<Longrightarrow> v \<noteq> u \<or> j \<noteq> tid \<Longrightarrow> thread_of v j st' = thread_of v j st"
  by (cases "v = u") (auto simp: moves_def thread_of_sessions)

lemma quiet_moves: "quiet st \<Longrightarrow> moves u tid st st' \<Longrightarrow> calm u tid st' \<Longrightarrow> quiet st'"
  unfolding quiet_def by (metis calm_def moves_other)

lemma quiet_idles: "quiet st \<Longrightarrow> idles st st' \<Longrightarrow> quiet st'"
  by (fastforce simp: quiet_def calm_def idles_def)

lemma quiet_calm: "quiet st \<Longrightarrow> calm u tid st"
  by (simp add: quiet_def)

lemma calm_updates [simp]:
  "calm u i (st\<lparr>ch_world := w\<rparr>) = calm u i st"
  "calm u i (st\<lparr>ch_jobs := jb\<rparr>) = calm u i st"
  "calm u i (say s st) = calm u i st"
  "calm u i (put_undo tid um st) = calm u i st"
  "calm u i (persist_turn env tid inp resp st) = calm u i st"
  "calm u i (fst (chat_fresh env st)) = calm u i st"
  "calm u i (fst (undo_manager_of tid st)) = calm u i st"
  "calm u i (remember env b txt st) = calm u i st"
  by (simp_all add: calm_def)

lemma calm_thread [simp]:
  "calm u i (change_thread u i f st) \<longleftrightarrow>
     (\<forall>th. thread_of u i st = Some th \<longrightarrow> thread_state (f th) \<noteq> Processing)"
  by (auto simp: calm_def)

lemma calm_chain [simp]: "calm u tid (persist_response_chain env u tid st) = calm u tid st"
proof -
  obtain f where f: "keeps_talk (\<lambda>th. f th\<lparr>last_response_id := last_response_id th\<rparr>)"
      "sessions_of (persist_response_chain env u tid st) = (sessions_of st)(u := map_option (update_thread tid f) (sessions_of st u))"
    using sessions_of_chain [of env u tid st] by blast
  have "thread_state (f th) = thread_state th" for th
    using f(1) by (simp add: keeps_talk_def)
  then show ?thesis
    by (cases "sessions_of st u") (auto simp: calm_def thread_of_sessions f(2) threads_update_thread)
qed

lemma state_simps [simp]:
  "thread_state (complete_turn now r th) = Idle" "thread_state (fail_turn now e th) = Idle"
  "thread_state (await_approval now p th) = AwaitingApproval" "thread_state (restore_from_messages now ms th) = Idle"
  "thread_state (thread_interrupt now th) = Interrupted" "thread_state (clear_pending_approval now th) = Idle"
  "thread_state (enter_auth_mode now ext th) = thread_state th"
  "thread_state (truncate_turns keep th) = thread_state th"
  by (simp_all add: complete_turn_def fail_turn_def await_approval_def restore_from_messages_def
      thread_interrupt_def clear_pending_approval_def enter_auth_mode_def truncate_turns_def)

lemma compact_state: "compact env strategy th w = (w', th', r) \<Longrightarrow> thread_state th' = thread_state th"
  by (drule compact_thread) auto

lemma calm_none: "thread_of u tid st = None \<Longrightarrow> calm u tid st"
  by (simp add: calm_def)

lemma calm_ask: "calm u tid (fst (ask_approval env u tid p st))"
  by (simp add: ask_approval_def)

lemma calm_finish: "calm (im_user_id msg) tid (fst (finish_turn env msg tid inp r st))"
proof (cases "thread_of (im_user_id msg) tid st")
  case None
  then show ?thesis by (simp add: finish_turn_def calm_none)
next
  case (Some th)
  show ?thesis
  proof (cases "thread_state th = Interrupted")
    case True
    with Some show ?thesis by (simp add: finish_turn_def calm_def)
  next
    case False
    with Some show ?thesis
      by (simp add: finish_turn_def Let_def split_beta calm_ask split: sum.split agentic_result.split)
  qed
qed

lemma calm_chat_turn: "calm (im_user_id msg) tid (fst (chat_turn env msg tid inp st))"
  by (simp add: chat_turn_def Let_def split_beta calm_finish split: option.split)

lemma calm_history:
  assumes "calm u tid st"
  shows "calm u tid (fst (process_undo env u tid st))" "calm u tid (fst (process_redo env u tid st))"
    "calm u tid (fst (process_resume env u tid cid st))" "calm u tid (fst (process_interrupt env u tid st))"
    "calm u tid (fst (process_clear env u tid st))"
  using assms
  by (simp_all add: process_undo_def process_redo_def process_resume_def process_interrupt_def
      process_clear_def Let_def split_beta split: option.split)

lemma calm_compact: "calm u tid st \<Longrightarrow> calm u tid (fst (process_compact env u tid st))"
proof (cases "thread_of u tid st")
  case (Some th)
  assume c: "calm u tid st"
  let ?strategy = "case suggest_compaction (ce_monitor env) (thread_messages th) of Some s \<Rightarrow> s | None \<Rightarrow> Summarize_turns 5"
  obtain w' th' r where e: "compact (ce_compact env) ?strategy th (ch_world st) = (w', th', r)"
    by (cases "compact (ce_compact env) ?strategy th (ch_world st)")
  have "thread_state th' \<noteq> Processing" using compact_state [OF e] c Some by (simp add: calm_def)
  with Some e show ?thesis by (simp add: process_compact_def Let_def split: sum.split)
qed (simp add: process_compact_def)

lemma calm_finish_approved: "calm u tid (fst (finish_approved env u tid r st))"
  by (simp add: finish_approved_def Let_def split_beta calm_ask calm_none split: option.split sum.split agentic_result.split)

lemma calm_auth_token: "calm u tid st \<Longrightarrow> calm u tid (fst (process_auth_token env u tid ext token st))"
  by (simp add: process_auth_token_def Let_def split_beta split: option.split sum.split) (auto simp: calm_def)

lemma loop_back_thread:
  "sessions_of st u \<noteq> None \<Longrightarrow> thread_of u tid (loop_back u ls st) = map_of (threads (ls_session ls)) tid"
  by (auto simp: loop_back_def thread_of_sessions)

lemma loop_back_none: "sessions_of st u = None \<Longrightarrow> thread_of u tid (loop_back u ls st) = None"
  by (simp add: loop_back_def thread_of_sessions)

lemma calm_auth:
  "calm u tid (loop_back u (enter_auth env tid ext ins r (complete_turn now ins) ls) st)"
proof (cases "sessions_of st u = None")
  case True
  then show ?thesis by (simp add: calm_none loop_back_none)
next
  case False
  obtain h where "\<forall>th. h th = complete_turn now ins (enter_auth_mode (ae_now env (ls_world ls)) ext th)"
      "ls_session (enter_auth env tid ext ins r (complete_turn now ins) ls) = update_thread tid h (ls_session ls)"
    using enter_auth_session [of "complete_turn now ins" env ls ext tid ins r] by blast
  with False show ?thesis
    by (auto simp: calm_def loop_back_thread threads_update_thread)
qed

lemma calm_run_approved: "calm (im_user_id msg) tid (fst (run_approved env msg tid p always st))"
  by (simp add: run_approved_def Let_def split_beta calm_finish_approved calm_auth split: option.split)

text \<open>What every operation guarantees, for a user.\<close>

definition safe :: "string \<Rightarrow> 'w chat_state \<Rightarrow> 'w chat_state \<Rightarrow> bool" where
  "safe u st st' \<longleftrightarrow> elsewhere u st st' \<and> (quiet st \<longrightarrow> quiet st')"

lemma safe_trans: "safe u a b \<Longrightarrow> safe u b c \<Longrightarrow> safe u a c"
  by (auto simp: safe_def intro: elsewhere_trans)

lemma safe_moves: "moves u tid st st' \<Longrightarrow> (calm u tid st \<Longrightarrow> calm u tid st') \<Longrightarrow> safe u st st'"
  by (auto simp: safe_def intro: moves_elsewhere quiet_moves quiet_calm)

lemma safe_idles: "elsewhere u st st' \<and> idles st st' \<Longrightarrow> safe u st st'"
  by (auto simp: safe_def intro: quiet_idles)

lemma safe_same: "sessions_of st' = sessions_of st \<Longrightarrow> safe u st st'"
  by (rule safe_idles) (rule same_sessions)

lemma safe_refl [simp]: "safe u st st"
  by (rule safe_same) simp

lemma approval_safe: "safe (im_user_id msg) st (fst (process_approval env msg addressed rq approved always st))"
proof -
  let ?u = "im_user_id msg"
  have "safe ?u st (fst (process_approval env msg addressed rq approved always st))"
    if "resolve_approval_thread addressed rq (user_session ?u st) = Found tid" for tid
  proof (rule safe_moves [of ?u tid])
    show "moves ?u tid st (fst (process_approval env msg addressed rq approved always st))"
      using that by (simp add: process_approval_def Let_def split: option.split)
    show "calm ?u tid (fst (process_approval env msg addressed rq approved always st))" if c: "calm ?u tid st"
    proof (cases "thread_of ?u tid st")
      case None
      with that \<open>resolve_approval_thread addressed rq (user_session ?u st) = Found tid\<close> show ?thesis
        by (simp add: process_approval_def)
    next
      case (Some th)
      have t: "thread_state (snd (take_pending_approval th)) = thread_state th" for th
        by (simp add: take_pending_approval_def)
      show ?thesis
        using Some c \<open>resolve_approval_thread addressed rq (user_session ?u st) = Found tid\<close>
        by (cases "pending_approval th")
          (simp_all add: process_approval_def Let_def calm_run_approved reject_pending_def t calm_def [of ?u tid st])
    qed
  qed
  then show ?thesis
    by (cases "resolve_approval_thread addressed rq (user_session ?u st)") (simp_all add: process_approval_def)
qed

lemma command_sessions:
  "sessions_of (fst (handle_system_command env cmd args st)) = sessions_of st"
  "sessions_of (fst (handle_command env cmd args st)) = sessions_of st"
  "sessions_of (fst (process_heartbeat env st)) = sessions_of st"
  "sessions_of (fst (process_summarize env u tid st)) = sessions_of st"
  "sessions_of (fst (process_suggest env u tid st)) = sessions_of st"
proof -
  show c: "sessions_of (fst (handle_system_command env cmd args st)) = sessions_of st"
    by (simp add: handle_system_command_def Let_def split_beta split: list.split)
  have "fst (handle_command env cmd args st) = fst (handle_system_command env cmd args st)"
    by (simp add: handle_command_def split: prod.split submission_result.split)
  with c show "sessions_of (fst (handle_command env cmd args st)) = sessions_of st" by simp
qed (simp_all add: process_heartbeat_def process_summarize_def process_suggest_def ask_about_def Let_def split_beta
    split: option.split)

lemma job_answer_sessions [simp]: "sessions_of (fst (job_answer st r)) = sessions_of st"
  by (simp add: job_answer_def)

lemma intent_sessions: "sessions_of (fst (handle_job_or_command env msg intent st)) = sessions_of st"
proof (cases intent)
  case (Command cmd args)
  have "fst (handle_job_or_command env msg intent st) = fst (handle_command env cmd args st)"
    using Command by (simp add: handle_job_or_command_def split: prod.split option.split)
  then show ?thesis by (simp add: command_sessions)
qed (simp_all add: handle_job_or_command_def Let_def split_beta)

lemma user_input_safe: "safe (im_user_id msg) st (fst (process_user_input env msg tid inp st))"
proof -
  have "safe (im_user_id msg) st (fst (chat_turn env msg tid inp st))"
    by (rule safe_moves [of _ tid]) (simp_all add: calm_chat_turn)
  moreover have "safe (im_user_id msg) st (fst (handle_job_or_command env msg intent st))" for intent
    by (rule safe_same) (rule intent_sessions)
  ultimately show ?thesis by (simp add: process_user_input_def split: option.split)
qed

lemma operation_safe:
  "safe u st (fst (process_undo env u tid st))" "safe u st (fst (process_redo env u tid st))"
  "safe u st (fst (process_resume env u tid cid st))" "safe u st (fst (process_interrupt env u tid st))"
  "safe u st (fst (process_compact env u tid st))" "safe u st (fst (process_clear env u tid st))"
  "safe u st (fst (process_auth_token env u tid ext token st))"
  by (rule safe_moves [of _ tid]; simp add: calm_history calm_compact calm_auth_token)+

lemma command_safe:
  "safe u st (fst (handle_system_command env cmd args st))" "safe u st (fst (process_heartbeat env st))"
  "safe u st (fst (process_summarize env v tid st))" "safe u st (fst (process_suggest env v tid st))"
  by (rule safe_same, simp add: command_sessions)+

lemma submission_safe: "process_submission env msg tid sub st = Some x \<Longrightarrow> safe (im_user_id msg) st (fst x)"
  by (cases sub)
    (auto simp: process_submission_def Let_def split_beta operation_safe command_safe user_input_safe approval_safe
       safe_idles [OF new_thread_safe] safe_idles [OF switch_safe])

lemma answer_safe: "safe u st (fst (answer_of env x)) \<longleftrightarrow> safe u st (fst x)"
proof -
  have "sessions_of (fst (answer_of env x)) = sessions_of (fst x)"
    by (auto simp: answer_of_def split: prod.split sum.split submission_result.split)
  then have "safe u (fst x) (fst (answer_of env x))" "safe u (fst (answer_of env x)) (fst x)"
    by (simp_all add: safe_same)
  then show ?thesis by (blast intro: safe_trans)
qed

lemma handled_safe: "safe (im_user_id msg) st (fst (handle_submission env msg tid sub st))"
  using submission_safe [of env msg tid sub st]
  by (cases "process_submission env msg tid sub st") (simp_all add: handle_submission_def answer_safe)

lemma inbound_sessions: "sessions_of (fst (inbound env msg st)) = sessions_of st"
  by (simp add: inbound_def Let_def split_beta split: submission.split)

lemma message_safe: "safe (im_user_id msg) st (fst (handle_message env msg st))"
proof -
  let ?u = "im_user_id msg"
  obtain st1 g where i: "inbound env msg st = (st1, g)" by (cases "inbound env msg st")
  have s1: "safe ?u st st1" using inbound_sessions [of env msg st] i by (simp add: safe_same)
  show ?thesis
  proof (cases g)
    case (Inl reply)
    with i s1 show ?thesis by (simp add: handle_message_def)
  next
    case (Inr sub)
    obtain st2 tid where r: "resolve_step env msg (hydrate_step env msg st1) = (st2, tid)"
      by (cases "resolve_step env msg (hydrate_step env msg st1)")
    have "safe ?u st1 (hydrate_step env msg st1)" by (rule safe_idles) (rule hydrate_safe)
    moreover have "safe ?u (hydrate_step env msg st1) st2" by (rule safe_idles) (use resolve_safe [OF r] in blast)
    ultimately have s2: "safe ?u st st2" using s1 by (blast intro: safe_trans)
    have "safe ?u st2 (change_thread ?u tid (\<lambda>th. th\<lparr>pending_auth := None\<rparr>) st2)"
      by (rule safe_moves [of _ tid]) (auto simp: calm_def)
    then have cleared: "safe ?u st (fst (handle_submission env msg tid sub
        (change_thread ?u tid (\<lambda>th. th\<lparr>pending_auth := None\<rparr>) st2)))"
      by (blast intro: safe_trans s2 handled_safe)
    have plain: "safe ?u st (fst (handle_submission env msg tid sub st2))"
      by (blast intro: safe_trans s2 handled_safe)
    have token: "safe ?u st (fst (process_auth_token env ?u tid ext t st2))" for ext t
      by (blast intro: safe_trans s2 operation_safe)
    show ?thesis
      using i Inr r cleared plain token
      by (cases sub) (simp_all add: handle_message_def Let_def split_beta split: option.split)
  qed
qed

lemma serve_safe: "safe (im_user_id msg) st (fst (serve env msg st))"
proof -
  have "sessions_of (fst (serve env msg st)) = sessions_of (fst (handle_message env msg st))"
    by (simp add: serve_def Let_def split_beta split: prod.split sum.split option.split)
  then have "safe (im_user_id msg) (fst (handle_message env msg st)) (fst (serve env msg st))" by (rule safe_same)
  then show ?thesis by (rule safe_trans [OF message_safe])
qed

lemma serve_all_quiet: "quiet st \<Longrightarrow> quiet (fst (serve_all env msgs st))"
proof (induction msgs arbitrary: st)
  case (Cons m msgs)
  obtain st1 out on where e: "serve env m st = (st1, out, on)" by (cases "serve env m st")
  have "quiet st1" using serve_safe [of m st env] Cons.prems e by (simp add: safe_def)
  with Cons.IH e show ?case by (cases on) (simp_all add: Let_def split_beta)
qed simp

lemma serve_all_elsewhere:
  "\<forall>m \<in> set msgs. im_user_id m \<noteq> v \<Longrightarrow> sessions_of (fst (serve_all env msgs st)) v = sessions_of st v"
proof (induction msgs arbitrary: st)
  case (Cons m msgs)
  obtain st1 out on where e: "serve env m st = (st1, out, on)" by (cases "serve env m st")
  have "sessions_of st1 v = sessions_of st v"
    using serve_safe [of m st env] Cons.prems e by (auto simp: safe_def elsewhere_def)
  with Cons e show ?case by (cases on) (simp_all add: Let_def split_beta)
qed simp

section \<open>The signal to stop\<close>

lemma system_command_result:
  "\<exists>txt. snd (handle_system_command env cmd args st) \<in> {Response txt, Done (Some txt), Failure txt}"
  by (auto simp: handle_system_command_def switch_model_def Let_def split: list.split prod.split sum.split)

lemma command_answer: "snd (handle_command env cmd args st) \<noteq> None"
  using system_command_result [of env cmd args st]
  by (auto simp: handle_command_def split: prod.splits submission_result.splits)

lemma intent_answer: "snd (handle_job_or_command env msg intent st) \<noteq> Inr (Done None)"
proof (cases intent)
  case (Command cmd args)
  with command_answer [of env cmd args st] show ?thesis
    by (auto simp: handle_job_or_command_def split: prod.splits option.splits)
qed (auto simp: handle_job_or_command_def job_answer_def Let_def split_beta split: sum.split)

lemma finish_answers:
  "snd (finish_turn env msg tid inp r st) \<noteq> Inr (Done None)"
  "snd (finish_approved env u tid r st) \<noteq> Inr (Done None)"
  by (auto simp: finish_turn_def finish_approved_def ask_approval_def missing_thread_def Let_def split_beta
      split: option.split sum.split agentic_result.split)

lemma chat_turn_answer: "snd (chat_turn env msg tid inp st) \<noteq> Inr (Done None)"
  by (auto simp: chat_turn_def missing_thread_def Let_def split_beta finish_answers split: option.split)

lemma user_input_answer: "snd (process_user_input env msg tid inp st) \<noteq> Inr (Done None)"
  by (auto simp: process_user_input_def missing_thread_def intent_answer chat_turn_answer split: option.split)

lemma approval_answer: "snd (process_approval env msg addressed rq approved always st) \<noteq> Inr (Done None)"
  by (auto simp: process_approval_def run_approved_def reject_pending_def missing_thread_def Let_def split_beta
      finish_answers split: option.split approval_resolution.split)

lemma operation_answer:
  "snd (process_undo env u tid st) \<noteq> Inr (Done None)" "snd (process_redo env u tid st) \<noteq> Inr (Done None)"
  "snd (process_resume env u tid cid st) \<noteq> Inr (Done None)" "snd (process_interrupt env u tid st) \<noteq> Inr (Done None)"
  "snd (process_compact env u tid st) \<noteq> Inr (Done None)" "snd (process_clear env u tid st) \<noteq> Inr (Done None)"
  "snd (process_summarize env u tid st) \<noteq> Inr (Done None)" "snd (process_suggest env u tid st) \<noteq> Inr (Done None)"
  "snd (new_thread_step env msg st) \<noteq> Inr (Done None)" "snd (switch_step env msg t st) \<noteq> Inr (Done None)"
  "snd (process_heartbeat env st) \<noteq> Done None"
  by (auto simp: process_undo_def process_redo_def process_resume_def process_interrupt_def process_compact_def
      process_clear_def process_summarize_def process_suggest_def ask_about_def new_thread_step_def switch_step_def
      process_heartbeat_def missing_thread_def Let_def split_beta
      split: option.split sum.split heartbeat_result.split)

lemma submission_answer:
  assumes "process_submission env msg tid sub st = Some x"
  shows "snd (answer_of env x) \<noteq> Inr None"
proof -
  have "snd x \<noteq> Inr (Done None)"
  proof (cases sub)
    case (System_command cmd args)
    with assms system_command_result [of env cmd args st] show ?thesis
      by (auto simp: process_submission_def split_beta)
  next
    case Heartbeat
    with assms operation_answer(11) [of env st] show ?thesis
      by (auto simp: process_submission_def split_beta)
  qed (use assms in \<open>auto simp: process_submission_def Let_def user_input_answer approval_answer operation_answer\<close>)
  then show ?thesis
    by (auto simp: answer_of_def split: prod.splits sum.splits submission_result.splits)
qed

lemma handled_none: "snd (handle_submission env msg tid sub st) = Inr None \<longleftrightarrow> sub = Quit"
proof -
  have "process_submission env msg tid sub st = None \<longleftrightarrow> sub = Quit"
    by (cases sub) (auto simp: process_submission_def Let_def split_beta)
  then show ?thesis
    using submission_answer [of env msg tid sub st]
    by (cases "process_submission env msg tid sub st") (auto simp: handle_submission_def)
qed

section \<open>Properties\<close>

text \<open>C2: Serving messages of other users never changes the session of a user: neither its threads, nor its
  approvals, nor its active thread.\<close>
theorem sessions_stay_apart:
  assumes "\<forall>m \<in> set msgs. im_user_id m \<noteq> v"
  shows "map_of (mg_sessions (ch_manager (fst (serve_all env msgs st)))) v = map_of (mg_sessions (ch_manager st)) v"
  using serve_all_elsewhere [OF assms, of env st] by (simp add: sessions_of_def)

text \<open>C11: After any messages, served from the start, no thread of any user is still processing a turn:
  every turn is completed, failed, interrupted or waits for an approval.\<close>
theorem no_turn_left_running:
  "map_option thread_state (thread_of u i (fst (serve_all env msgs
     (st\<lparr>ch_manager := new_session_manager hooks\<rparr>)))) \<noteq> Some Processing"
proof -
  have "quiet (st\<lparr>ch_manager := new_session_manager hooks\<rparr>)"
    by (simp add: quiet_def calm_def thread_of_sessions sessions_of_def new_session_manager_def)
  then have "quiet (fst (serve_all env msgs (st\<lparr>ch_manager := new_session_manager hooks\<rparr>)))"
    by (rule serve_all_quiet)
  then show ?thesis by (auto simp: quiet_def calm_def)
qed

text \<open>The loop stops for the messages that are parsed as quit, and for no other message, whatever the
  commands, the hooks and the model answer.\<close>
theorem stops_only_on_quit:
  "snd (handle_message env msg st) = Inr None \<longleftrightarrow>
     parse_submission (cv_parse (ce_commands env)) (ce_parse_approval env) (im_content msg) = Quit"
proof -
  let ?p = "parse_submission (cv_parse (ce_commands env)) (ce_parse_approval env) (im_content msg)"
  obtain st1 g where i: "inbound env msg st = (st1, g)" by (cases "inbound env msg st")
  have q: "g = Inr Quit \<longleftrightarrow> ?p = Quit"
    using i by (cases ?p) (auto simp: inbound_def Let_def split_beta split: sum.splits hook_error.splits hook_outcome.splits option.splits)
  show ?thesis
  proof (cases g)
    case (Inl reply)
    with i q show ?thesis by (auto simp: handle_message_def)
  next
    case (Inr sub)
    obtain st2 tid where r: "resolve_step env msg (hydrate_step env msg st1) = (st2, tid)"
      by (cases "resolve_step env msg (hydrate_step env msg st1)")
    have "snd (handle_message env msg st) = Inr None \<longleftrightarrow> sub = Quit"
      using i Inr r
      by (cases sub) (auto simp: handle_message_def Let_def split_beta handled_none split: option.split)
    with q Inr show ?thesis by simp
  qed
qed

end
