(* ===== verification/Chat_History.thy ===== *)
theory Chat_History
  imports Chat_Frame
begin

text \<open>
  The history of a chat: what undo and redo do to the conversation of a thread after a turn, and what the
  database knows of it (\<open>process_undo\<close>, \<open>process_redo\<close>, \<open>persist_turn\<close> and \<open>maybe_hydrate_thread\<close> of
  \<open>src/agent/thread_ops.rs\<close>).
\<close>

section \<open>Undo managers of a state\<close>

definition undo_of :: "'w chat_state \<Rightarrow> uuid \<Rightarrow> undo_manager option" where
  "undo_of st = map_of (mg_undo_managers (ch_manager st))"

lemma undo_of_updates [simp]:
  "undo_of (st\<lparr>ch_world := w\<rparr>) = undo_of st"
  "undo_of (st\<lparr>ch_store := d\<rparr>) = undo_of st"
  "undo_of (say s st) = undo_of st"
  "undo_of (persist_turn env tid inp resp st) = undo_of st"
  "undo_of (remember env b txt st) = undo_of st"
  "undo_of (change_thread u tid f st) = undo_of st"
  "undo_of (put_undo tid um st) = (undo_of st)(tid \<mapsto> um)"
  by (simp_all add: undo_of_def say_def persist_turn_def remember_def change_thread_def change_session_def
      put_undo_def update_conv' Let_def split_beta split: option.split)

lemma undo_of_fresh [simp]: "undo_of (fst (chat_fresh env st)) = undo_of st"
  by (simp add: chat_fresh_def undo_of_def split_beta)

lemma undo_of_chain [simp]: "undo_of (persist_response_chain env u tid st) = undo_of st"
  by (simp add: persist_response_chain_def Let_def split: option.split)

lemma undo_of_run [simp]: "undo_of (fst (run_loop env msg tid resumed ctx st)) = undo_of st"
  using ran_loop [of msg tid st env resumed ctx] by (simp add: ran_def undo_of_def)

lemma undo_of_finish [simp]: "undo_of (fst (finish_turn env msg tid inp r st)) = undo_of st"
  by (simp add: finish_turn_def ask_approval_def Let_def split_beta
      split: option.split sum.split agentic_result.split)

lemma undo_of_compact [simp]: "undo_of (auto_compact env u tid st) = undo_of st"
  by (simp add: auto_compact_def Let_def split_beta split: option.split)

text \<open>The undo manager of a thread, which is made when it is asked for.\<close>

definition manager_at :: "uuid \<Rightarrow> 'w chat_state \<Rightarrow> undo_manager" where
  "manager_at tid st = (case undo_of st tid of Some um \<Rightarrow> um | None \<Rightarrow> new_undo_manager)"

lemma undo_manager_of_eq:
  "undo_manager_of tid st = (st', um) \<longleftrightarrow> um = manager_at tid st \<and> st' = fst (undo_manager_of tid st)"
  by (auto simp: undo_manager_of_def get_undo_manager_def manager_at_def undo_of_def split: option.split)

lemma snd_undo_manager [simp]: "snd (undo_manager_of tid st) = manager_at tid st"
  by (simp add: undo_manager_of_def get_undo_manager_def manager_at_def undo_of_def split: option.split)

lemma manager_at_put [simp]: "manager_at tid (put_undo tid um st) = um"
  by (simp add: manager_at_def)

lemma manager_at_same: "undo_of st' tid = undo_of st tid \<Longrightarrow> manager_at tid st' = manager_at tid st"
  by (simp add: manager_at_def)

lemma manager_at_thread [simp]: "manager_at i (change_thread u tid f st) = manager_at i st"
  by (rule manager_at_same) simp

section \<open>The conversation of a thread\<close>

definition talk :: "string \<Rightarrow> uuid \<Rightarrow> 'w chat_state \<Rightarrow> chat_message list option" where
  "talk u tid st = map_option thread_messages (thread_of u tid st)"

lemma restored_messages:
  "thread_messages (restore_from_messages now (thread_messages th) th') = thread_messages th"
  using rebuild_turn_messages [of now 0 "turns th"] by (simp add: thread_messages_def restore_from_messages_def)

text \<open>A checkpoint is on top of the stack, and the thread is as it was.\<close>

lemma push_top:
  "0 < um_max_checkpoints um \<Longrightarrow> \<exists>cs. um_undo_stack (push_undo c um) = cs @ [c]"
  by (auto simp: push_undo_def last_n_def)

lemma checkpoint_top:
  assumes "thread_of u tid st = Some th" "0 < um_max_checkpoints (manager_at tid st)"
  shows "\<exists>c cs. um_undo_stack (manager_at tid (checkpoint_turn env u tid st)) = cs @ [c]
     \<and> cp_messages c = thread_messages th
     \<and> um_max_checkpoints (manager_at tid (checkpoint_turn env u tid st)) = um_max_checkpoints (manager_at tid st)"
proof -
  let ?c = "new_checkpoint (snd (chat_fresh env (fst (undo_manager_of tid st)))) (thread_turn_number th)
      (thread_messages th) (''Before turn '' @ show_nat (thread_turn_number th))"
  let ?um = "push_undo ?c (manager_at tid st\<lparr>um_redo_stack := []\<rparr>)"
  have m: "manager_at tid (checkpoint_turn env u tid st) = ?um"
    using assms(1) by (simp add: checkpoint_turn_def Let_def split_beta um_checkpoint_def)
  obtain cs where "um_undo_stack ?um = cs @ [?c]"
    using push_top [of "manager_at tid st\<lparr>um_redo_stack := []\<rparr>" ?c] assms(2) by auto
  moreover have "cp_messages ?c = thread_messages th" by (simp add: new_checkpoint_def)
  moreover have "um_max_checkpoints ?um = um_max_checkpoints (manager_at tid st)" by (simp add: push_undo_def)
  ultimately show ?thesis unfolding m by blast
qed

lemma checkpoint_thread [simp]: "thread_of u j (checkpoint_turn env v tid st) = thread_of u j st"
  by (simp add: checkpoint_turn_def Let_def split_beta split: option.split)

lemma no_compaction:
  "thread_of u tid st = Some th \<Longrightarrow> suggest_compaction (ce_monitor env) (thread_messages th) = None \<Longrightarrow>
   auto_compact env u tid st = st"
  by (simp add: auto_compact_def)

text \<open>A turn keeps the thread and the undo manager that its checkpoint left.\<close>

lemma finish_thread: "thread_of (im_user_id msg) tid st \<noteq> None \<Longrightarrow>
   thread_of (im_user_id msg) tid (fst (finish_turn env msg tid inp r st)) \<noteq> None"
proof -
  have "thread_of u tid (persist_response_chain env u tid st) \<noteq> None" if "thread_of u tid st \<noteq> None" for u st
  proof -
    obtain f where "sessions_of (persist_response_chain env u tid st) = (sessions_of st)(u := map_option (update_thread tid f) (sessions_of st u))"
      using sessions_of_chain [of env u tid st] by blast
    with that show ?thesis by (cases "sessions_of st u") (auto simp: thread_of_sessions threads_update_thread)
  qed
  then show "thread_of (im_user_id msg) tid st \<noteq> None \<Longrightarrow>
     thread_of (im_user_id msg) tid (fst (finish_turn env msg tid inp r st)) \<noteq> None"
    by (auto simp: finish_turn_def ask_approval_def Let_def split_beta
        split: option.split sum.split agentic_result.split)
qed

lemma turn_undo:
  assumes "thread_of (im_user_id msg) tid st = Some th"
    and "suggest_compaction (ce_monitor env) (thread_messages th) = None"
  shows "undo_of (fst (chat_turn env msg tid inp st)) = undo_of (checkpoint_turn env (im_user_id msg) tid st)
     \<and> thread_of (im_user_id msg) tid (fst (chat_turn env msg tid inp st)) \<noteq> None"
proof -
  let ?u = "im_user_id msg"
  let ?st1 = "checkpoint_turn env ?u tid st"
  let ?st2 = "change_thread ?u tid (start_turn (chat_now env ?st1) inp) ?st1"
  let ?th = "start_turn (chat_now env ?st1) inp th"
  obtain st3 r where e: "run_loop env msg tid False (thread_messages ?th) (say (St_thinking ''Processing...'') ?st2) = (st3, r)"
    by (cases "run_loop env msg tid False (thread_messages ?th) (say (St_thinking ''Processing...'') ?st2)")
  have t: "chat_turn env msg tid inp st = finish_turn env msg tid inp r st3"
    using assms e by (simp add: chat_turn_def no_compaction)
  have "undo_of st3 = undo_of ?st1"
    using undo_of_run [of env msg tid False "thread_messages ?th" "say (St_thinking ''Processing...'') ?st2"] e by simp
  moreover have "thread_of ?u tid st3 \<noteq> None"
    using ran_thread [OF ran_loop [of msg tid "say (St_thinking ''Processing...'') ?st2" env False "thread_messages ?th"]] e assms
    by auto
  ultimately show ?thesis unfolding t by (simp add: finish_thread)
qed

text \<open>The results of undo and redo on a thread that has something to undo or redo.\<close>

lemma undo_effect:
  assumes "thread_of u tid st = Some th" "um_undo_stack (manager_at tid st) = cs @ [c]"
    and "process_undo env u tid st = (st', r)"
  shows "thread_of u tid st' = Some (restore_from_messages (chat_now env (fst (chat_fresh env (fst (undo_manager_of tid st))))) (cp_messages c) th)
     \<and> um_max_checkpoints (manager_at tid st') = um_max_checkpoints (manager_at tid st)
     \<and> (\<exists>n i l. um_redo_stack (manager_at tid st') = um_redo_stack (manager_at tid st) @ [new_checkpoint i n (thread_messages th) l])"
proof -
  have f: "st' = fst (process_undo env u tid st)" using assms(3) by simp
  show ?thesis unfolding f
    using assms(1,2)
    by (auto simp: process_undo_def can_undo_def um_undo_def pop_undo_def Let_def split_beta)
qed

lemma redo_effect:
  assumes "thread_of u tid st = Some th" "um_redo_stack (manager_at tid st) = cs @ [c]"
    and "process_redo env u tid st = (st', r)"
  shows "thread_of u tid st' = Some (restore_from_messages (chat_now env (fst (chat_fresh env (fst (undo_manager_of tid st))))) (cp_messages c) th)"
proof -
  have f: "st' = fst (process_redo env u tid st)" using assms(3) by simp
  show ?thesis unfolding f
    using assms(1,2)
    by (auto simp: process_redo_def can_redo_def um_redo_def push_undo_def Let_def split_beta)
qed

section \<open>What the database knows\<close>

definition stored :: "'w chat_state \<Rightarrow> (uuid \<Rightarrow> (string \<times> string) list) option" where
  "stored st = map_option cs_messages (ch_store st)"

lemma stored_updates [simp]:
  "stored (st\<lparr>ch_world := w\<rparr>) = stored st"
  "stored (st\<lparr>ch_manager := m\<rparr>) = stored st"
  "stored (say s st) = stored st"
  "stored (remember env b txt st) = stored st"
  "stored (change_session u g st) = stored st"
  "stored (change_thread u tid f st) = stored st"
  "stored (put_undo tid um st) = stored st"
  "stored (fst (chat_fresh env st)) = stored st"
  "stored (fst (undo_manager_of tid st)) = stored st"
  by (simp_all add: stored_def say_def remember_def change_thread_def change_session_def put_undo_def
      chat_fresh_def undo_manager_of_def Let_def split_beta split: option.split)

lemma store_change [simp]: "ch_store (change_thread u tid f st) = ch_store st"
  by (simp add: change_thread_def change_session_def split: option.split)

lemma stored_chain [simp]: "stored (persist_response_chain env u tid st) = stored st"
  by (auto simp: persist_response_chain_def stored_def Let_def split: option.split)

lemma stored_back [simp]: "stored (loop_back u ls st) = stored st"
  by (simp add: loop_back_def stored_def change_session_def split: option.split)

lemma stored_run [simp]: "stored (fst (run_loop env msg tid resumed ctx st)) = stored st"
  by (simp add: run_loop_def split_beta)

lemma stored_compact [simp]: "stored (auto_compact env u tid st) = stored st"
  by (simp add: auto_compact_def Let_def split_beta split: option.split)

lemma stored_checkpoint [simp]: "stored (checkpoint_turn env u tid st) = stored st"
  by (simp add: checkpoint_turn_def Let_def split_beta split: option.split)

lemma stored_turn_messages:
  "stored (persist_turn env tid inp resp st) = map_option (\<lambda>c. c(tid := c tid @ take (ce_written env (ch_world st))
     ((''user'', inp) # (case resp of Some r \<Rightarrow> [(''assistant'', r)] | None \<Rightarrow> [])))) (stored st)"
  by (simp add: stored_def persist_turn_def Let_def split: option.split)

text \<open>A turn that was completed: its response is the last message.\<close>

lemma completed_messages:
  assumes "map turn_messages (turns th') = map turn_messages (turns th @ [new_turn t n inp])"
  shows "thread_messages (complete_turn now resp th') = thread_messages th @ [msg_user inp, msg_assistant resp]"
proof -
  have "length (turns th') = length (turns th @ [new_turn t n inp])"
    using arg_cong [OF assms, of length] by simp
  then obtain ts x where ts: "turns th' = ts @ [x]" by (cases "turns th'" rule: rev_cases) auto
  have "turn_messages (new_turn t n inp) = [msg_user inp]" by (simp add: turn_messages_def new_turn_def)
  with assms have m: "map turn_messages ts = map turn_messages (turns th)" "turn_messages x = [msg_user inp]"
    by (simp_all add: ts)
  then have "msg_user (user_input x) = msg_user inp" by (simp add: turn_messages_def)
  with m(1) show ?thesis
    by (simp add: thread_messages_def complete_turn_def ts turn_complete_def
        turn_messages_def [of "x\<lparr>response := r, turn_state := s, turn_completed_at := c\<rparr>" for r s c])
qed

lemma chain_messages:
  "map_option (\<lambda>th. thread_messages th) (thread_of u tid (persist_response_chain env u tid st))
     = map_option thread_messages (thread_of u tid st)"
proof -
  obtain f where f: "keeps_talk (\<lambda>th. f th\<lparr>last_response_id := last_response_id th\<rparr>)"
      "sessions_of (persist_response_chain env u tid st) = (sessions_of st)(u := map_option (update_thread tid f) (sessions_of st u))"
    using sessions_of_chain [of env u tid st] by blast
  have "thread_messages (f th) = thread_messages th" for th
    using f(1) by (simp add: keeps_talk_def thread_messages_def)
  then show ?thesis
    by (cases "sessions_of st u") (auto simp: thread_of_sessions f(2) threads_update_thread option.map_comp o_def)
qed

lemma finish_response:
  assumes "finish_turn env msg tid inp r st = (st', Inr (Response resp))" "thread_of (im_user_id msg) tid st = Some th"
  shows "\<exists>now w. talk (im_user_id msg) tid st' = Some (thread_messages (complete_turn now resp th))
    \<and> stored st' = map_option (\<lambda>c. c(tid := c tid @ take (ce_written env w) [(''user'', inp), (''assistant'', resp)])) (stored st)"
proof -
  have "thread_state th \<noteq> Interrupted" using assms by (auto simp: finish_turn_def)
  moreover obtain said where r: "r = Inr (Loop_response said)"
    using assms calculation
    by (cases r) (auto simp: finish_turn_def ask_approval_def Let_def split: agentic_result.splits)
  let ?u = "im_user_id msg"
  let ?h = "run_hooks (ce_agent env) (ResponseTransform ?u (ae_show_uuid (ce_agent env) tid) said) (ch_world st)"
  let ?st1 = "st\<lparr>ch_world := fst ?h\<rparr>"
  let ?now = "chat_now env ?st1"
  let ?st2 = "change_thread ?u tid (complete_turn ?now resp) ?st1"
  let ?st3 = "say (St_status ''Done'') (remember env True resp (persist_response_chain env ?u tid ?st2))"
  have st': "st' = persist_turn env tid inp (Some resp) ?st3"
    using assms calculation r by (auto simp: finish_turn_def Let_def split_beta)
  have "talk ?u tid st' = Some (thread_messages (complete_turn ?now resp th))"
    using chain_messages [of ?u tid env ?st2] assms(2) by (simp add: st' talk_def)
  moreover have "stored st' = map_option (\<lambda>c. c(tid := c tid @ take (ce_written env (ch_world ?st3))
      [(''user'', inp), (''assistant'', resp)])) (stored st)"
    by (simp add: st' stored_turn_messages)
  ultimately show ?thesis by blast
qed

lemma hydrated_messages:
  assumes "List.map_filter stored_message (cs_messages db tid) = thread_messages th"
  shows "thread_messages (hydrated (Some db) now tid s) = thread_messages th"
proof -
  have e: "thread_messages (th'\<lparr>last_response_id := x\<rparr>) = thread_messages th'" for th' x
    by (simp add: thread_messages_def)
  have n: "thread_messages (thread_with_id now tid i) = []" for i
    by (simp add: thread_messages_def thread_with_id_def)
  show ?thesis
    using assms by (auto simp: hydrated_def Let_def e n restored_messages split: option.split)
qed

text \<open>The state behind a turn and its undo.\<close>

lemma undone_turn:
  assumes "thread_of (im_user_id msg) tid st = Some th"
    and "suggest_compaction (ce_monitor env) (thread_messages th) = None"
    and "0 < um_max_checkpoints (manager_at tid st)"
    and "chat_turn env msg tid inp st = (st1, r1)"
    and "process_undo env (im_user_id msg) tid st1 = (st2, r2)"
  shows "\<exists>th1 th2 cs c. thread_of (im_user_id msg) tid st1 = Some th1 \<and> thread_of (im_user_id msg) tid st2 = Some th2
     \<and> thread_messages th2 = thread_messages th
     \<and> um_redo_stack (manager_at tid st2) = cs @ [c] \<and> cp_messages c = thread_messages th1"
proof -
  let ?u = "im_user_id msg"
  have t: "undo_of st1 = undo_of (checkpoint_turn env ?u tid st)" "thread_of ?u tid st1 \<noteq> None"
    using turn_undo [OF assms(1,2), of inp] assms(4) by simp_all
  then obtain th1 where th1: "thread_of ?u tid st1 = Some th1" by blast
  have "manager_at tid st1 = manager_at tid (checkpoint_turn env ?u tid st)" by (rule manager_at_same) (simp add: t(1))
  then obtain c cs where c: "um_undo_stack (manager_at tid st1) = cs @ [c]" "cp_messages c = thread_messages th"
    using checkpoint_top [OF assms(1,3), of env] by auto
  note u = undo_effect [OF th1 c(1) assms(5)]
  then obtain th2 where th2: "thread_of ?u tid st2 = Some th2" "thread_messages th2 = thread_messages th"
    by (simp add: c(2) restored_messages)
  obtain n i l where "um_redo_stack (manager_at tid st2) = um_redo_stack (manager_at tid st1) @ [new_checkpoint i n (thread_messages th1) l]"
    using u by blast
  moreover have "cp_messages (new_checkpoint i n (thread_messages th1) l) = thread_messages th1" by (simp add: new_checkpoint_def)
  ultimately show ?thesis using th1 th2 by blast
qed

lemma process_undo_store: "ch_store (fst (process_undo env u tid st)) = ch_store st"
  by (simp add: process_undo_def put_undo_def undo_manager_of_def chat_fresh_def Let_def split_beta split: option.split)

text \<open>A turn that was answered and stored, and the thread made from the database.\<close>

lemma stored_turn:
  assumes "thread_of (im_user_id msg) tid st = Some th"
    and "suggest_compaction (ce_monitor env) (thread_messages th) = None"
    and "ch_store st = Some db" "List.map_filter stored_message (cs_messages db tid) = thread_messages th"
    and "\<forall>w. 2 \<le> ce_written env w"
    and "chat_turn env msg tid inp st = (st1, Inr (Response resp))"
  shows "\<exists>db1. ch_store st1 = Some db1
     \<and> talk (im_user_id msg) tid st1 = Some (thread_messages (hydrated (Some db1) now tid s))
     \<and> thread_messages (hydrated (Some db1) now tid s) = thread_messages th @ [msg_user inp, msg_assistant resp]"
proof -
  let ?u = "im_user_id msg"
  let ?st1 = "checkpoint_turn env ?u tid st"
  let ?th = "start_turn (chat_now env ?st1) inp th"
  let ?st2 = "say (St_thinking ''Processing...'') (change_thread ?u tid (start_turn (chat_now env ?st1) inp) ?st1)"
  obtain st3 r where e: "run_loop env msg tid False (thread_messages ?th) ?st2 = (st3, r)"
    by (cases "run_loop env msg tid False (thread_messages ?th) ?st2")
  have f: "finish_turn env msg tid inp r st3 = (st1, Inr (Response resp))"
    using assms(1,2,6) e by (simp add: chat_turn_def no_compaction)
  have "map_option (\<lambda>t. map turn_messages (turns t)) (thread_of ?u tid st3) = Some (map turn_messages (turns ?th))"
    using ran_messages [OF ran_loop [of msg tid ?st2 env False "thread_messages ?th"]] e assms(1) by simp
  then obtain th3 where th3: "thread_of ?u tid st3 = Some th3"
      "map turn_messages (turns th3) = map turn_messages (turns th @ [new_turn (chat_now env ?st1) (length (turns th)) inp])"
    by (auto simp: start_turn_def)
  have "stored st3 = stored ?st2" using stored_run [of env msg tid False "thread_messages ?th" ?st2] e by simp
  then have "stored st3 = Some (cs_messages db)" by (simp add: stored_def [of st] assms(3))
  with finish_response [OF f th3(1)] obtain w where
    t: "talk ?u tid st1 = Some (thread_messages th @ [msg_user inp, msg_assistant resp])" and
    d: "stored st1 = Some ((cs_messages db)(tid := cs_messages db tid @ take (ce_written env w) [(''user'', inp), (''assistant'', resp)]))"
    by (auto simp: completed_messages [OF th3(2)])
  have "take (ce_written env w) [(''user'', inp), (''assistant'', resp)] = [(''user'', inp), (''assistant'', resp)]"
    using assms(5) [rule_format, of w] by (intro take_all) simp
  with d obtain db1 where db1: "ch_store st1 = Some db1"
      "cs_messages db1 tid = cs_messages db tid @ [(''user'', inp), (''assistant'', resp)]"
    by (auto simp: stored_def)
  obtain th1 where th1: "thread_of ?u tid st1 = Some th1" "thread_messages th1 = thread_messages th @ [msg_user inp, msg_assistant resp]"
    using t by (auto simp: talk_def)
  have "List.map_filter stored_message (cs_messages db1 tid) = thread_messages th1"
    using assms(4) by (simp add: db1(2) th1(2) List.map_filter_def)
  from hydrated_messages [OF this] db1(1) t th1(2) show ?thesis by simp
qed

section \<open>Properties\<close>


text \<open>C16: A turn that was answered and stored survives a restart: a database in step with the thread is in step
  with it behind the turn, and the thread made from it has the live conversation, which is the old one,
  the input and the response.\<close>
theorem turn_survives_restart:
  assumes "thread_of (im_user_id msg) tid st = Some th"
    and "suggest_compaction (ce_monitor env) (thread_messages th) = None"
    and "ch_store st = Some db" "List.map_filter stored_message (cs_messages db tid) = thread_messages th"
    and "\<forall>w. 2 \<le> ce_written env w"
    and "chat_turn env msg tid inp st = (st1, Inr (Response resp))"
  shows "\<exists>db1. ch_store st1 = Some db1
     \<and> talk (im_user_id msg) tid st1 = Some (thread_messages (hydrated (Some db1) now tid s))
     \<and> thread_messages (hydrated (Some db1) now tid s) = thread_messages th @ [msg_user inp, msg_assistant resp]"
  by (rule stored_turn [OF assms])

text \<open>Undo is not stored: a turn that was answered, stored and undone is gone from the conversation, but a
  restart brings it back.\<close>
theorem undone_turn_returns:
  assumes "thread_of (im_user_id msg) tid st = Some th"
    and "suggest_compaction (ce_monitor env) (thread_messages th) = None"
    and "ch_store st = Some db" "List.map_filter stored_message (cs_messages db tid) = thread_messages th"
    and "\<forall>w. 2 \<le> ce_written env w" "0 < um_max_checkpoints (manager_at tid st)"
    and "chat_turn env msg tid inp st = (st1, Inr (Response resp))"
    and "process_undo env (im_user_id msg) tid st1 = (st2, r2)"
  shows "talk (im_user_id msg) tid st2 = Some (thread_messages th)
     \<and> thread_messages (hydrated (ch_store st2) now tid s) = thread_messages th @ [msg_user inp, msg_assistant resp]"
proof -
  have "ch_store st2 = ch_store st1"
    using process_undo_store [of env "im_user_id msg" tid st1] assms(8) by simp
  moreover have "talk (im_user_id msg) tid st2 = Some (thread_messages th)"
    using undone_turn [OF assms(1,2,6,7,8)] by (auto simp: talk_def)
  ultimately show ?thesis using stored_turn [OF assms(1-5,7), of now s] by auto
qed

end
