(* ===== verification/Chat_Approval.thy ===== *)
theory Chat_Approval
  imports Chat_History
begin

text \<open>
  Approvals and tokens in the chat (\<open>process_approval\<close> and \<open>process_auth_token\<close> of
  \<open>src/agent/thread_ops.rs\<close>): which approvals a message may leave in a session, what is stored of an
  approved turn, and who gets to see a token.
\<close>

section \<open>Approvals of a session\<close>

definition approvals_of :: "string \<Rightarrow> 'w chat_state \<Rightarrow> string set" where
  "approvals_of u st = (case sessions_of st u of Some s \<Rightarrow> auto_approved_tools s | None \<Rightarrow> {})"

lemma approvals_same: "sessions_of st' = sessions_of st \<Longrightarrow> approvals_of u st' = approvals_of u st"
  by (simp add: approvals_of_def)

lemma approvals_updates [simp]:
  "approvals_of u (st\<lparr>ch_world := w\<rparr>) = approvals_of u st"
  "approvals_of u (say s st) = approvals_of u st"
  "approvals_of u (remember env b txt st) = approvals_of u st"
  by (rule approvals_same; simp)+

lemma approvals_thread [simp]: "approvals_of u (change_thread u tid f st) = approvals_of u st"
  by (cases "sessions_of st u") (simp_all add: approvals_of_def)

lemma approvals_chain [simp]: "approvals_of u (persist_response_chain env u tid st) = approvals_of u st"
  using sessions_of_chain [of env u tid st] by (cases "sessions_of st u") (auto simp: approvals_of_def)

lemma approvals_approve [simp]:
  "approvals_of u (change_session u (auto_approve_tool t) st) =
     (if sessions_of st u = None then {} else insert t (approvals_of u st))"
  by (auto simp: approvals_of_def auto_approve_tool_def)

lemma view_approvals: "sessions_of st u \<noteq> None \<Longrightarrow> auto_approved_tools (ls_session (loop_view u ctx st)) = approvals_of u st"
  by (auto simp: loop_view_def user_session_of approvals_of_def)

lemma back_approvals:
  "approvals_of u (loop_back u ls st) = (if sessions_of st u = None then {} else auto_approved_tools (ls_session ls))"
  by (auto simp: loop_back_def approvals_of_def)

lemma all_calls_allowed: "allowed_call (\<lambda>_. True) env A"
  by (simp add: allowed_call_def)

lemma approvals_none: "sessions_of st u = None \<Longrightarrow> approvals_of u st = {}"
  by (simp add: approvals_of_def)

text \<open>A run that leaves the approvals of its session alone leaves those of the user alone.\<close>

lemma back_stays:
  assumes "extends (\<lambda>_. True) (loop_view u ctx st) ls"
  shows "approvals_of u (loop_back u ls st) = approvals_of u st"
  using extends_approved [OF assms]
  by (cases "sessions_of st u = None") (simp_all add: back_approvals view_approvals approvals_none)

lemma approvals_run [simp]:
  "approvals_of (im_user_id msg) (fst (run_loop env msg tid resumed ctx st)) = approvals_of (im_user_id msg) st"
proof -
  let ?u = "im_user_id msg"
  let ?run = "run_agentic_loop (ce_agent env) ?u (im_content msg) tid resumed (loop_view ?u ctx st)"
  have "extends (\<lambda>_. True) (loop_view ?u ctx st) (fst ?run)"
    unfolding run_agentic_loop_def by (rule extends_loop) (simp_all add: all_calls_allowed)
  then show ?thesis by (simp add: run_loop_def split_beta back_stays)
qed

lemma approvals_finish [simp]: "approvals_of u (fst (finish_approved env u tid r st)) = approvals_of u st"
  by (simp add: finish_approved_def ask_approval_def Let_def split_beta split: option.split sum.split agentic_result.split)

lemma approvals_run_approved:
  "approvals_of (im_user_id msg) (fst (run_approved env msg tid p always st))
     \<subseteq> approvals_of (im_user_id msg) st \<union> (if always then {pa_tool_name p} else {})"
proof -
  let ?u = "im_user_id msg" and ?g = "ce_agent env" and ?n = "pa_tool_name p"
  let ?st2 = "change_thread ?u tid (\<lambda>th. th\<lparr>thread_state := Processing\<rparr>)
      (if always then change_session ?u (auto_approve_tool ?n) st else st)"
  obtain ls r where e: "perform_tool ?g tid ?n (pa_parameters p) (pa_parameters p)
      (loop_view ?u (pa_context_messages p) ?st2) = (ls, r)"
    by (cases "perform_tool ?g tid ?n (pa_parameters p) (pa_parameters p) (loop_view ?u (pa_context_messages p) ?st2)")
  have 2: "approvals_of ?u ?st2 \<subseteq> approvals_of ?u st \<union> (if always then {?n} else {})" by auto
  have x: "extends (\<lambda>_. True) (loop_view ?u (pa_context_messages p) ?st2) ls"
    using extends_perform [of "\<lambda>_. True" ?g "loop_view ?u (pa_context_messages p) ?st2" ?n "pa_parameters p" "pa_parameters p" tid] e
    by simp
  have a: "extends (\<lambda>_. True) (loop_view ?u (pa_context_messages p) ?st2) (enter_auth ?g tid ext ins r f ls)" for ext ins f
    by (rule extends_trans [OF x extends_auth]) simp
  have "approvals_of ?u (fst (run_approved env msg tid p always st)) = approvals_of ?u ?st2"
    using e back_stays [OF x] back_stays [OF a]
    by (simp add: run_approved_def Let_def split_beta split: option.split split del: if_split del: approvals_thread)
  with 2 show ?thesis by simp
qed

section \<open>Nothing is stored\<close>

lemma stored_ask [simp]: "stored (fst (ask_approval env u tid p st)) = stored st"
  by (simp add: ask_approval_def)

lemma stored_finish_approved [simp]: "stored (fst (finish_approved env u tid r st)) = stored st"
  by (simp add: finish_approved_def Let_def split_beta split: option.split sum.split agentic_result.split)

lemma stored_run_approved [simp]: "stored (fst (run_approved env msg tid p always st)) = stored st"
  by (simp add: run_approved_def Let_def split_beta split: option.split)

lemma stored_approval: "stored (fst (process_approval env msg addressed rq approved always st)) = stored st"
  by (simp add: process_approval_def reject_pending_def Let_def split: option.split approval_resolution.split)

lemma finish_asking:
  "finish_turn env msg tid inp r st = (st1, Inr (Need_approval rid n d ps)) \<Longrightarrow> stored st1 = stored st"
  by (auto simp: finish_turn_def missing_thread_def ask_approval_def Let_def split_beta
      split: option.splits if_splits sum.splits agentic_result.splits)

lemma stored_asking:
  assumes "chat_turn env msg tid inp st = (st1, Inr (Need_approval rid n d ps))"
  shows "stored st1 = stored st"
proof -
  let ?u = "im_user_id msg"
  let ?st1 = "checkpoint_turn env ?u tid (auto_compact env ?u tid st)"
  let ?st2 = "change_thread ?u tid (start_turn (chat_now env ?st1) inp) ?st1"
  show ?thesis
  proof (cases "thread_of ?u tid ?st2")
    case None
    then show ?thesis using assms unfolding chat_turn_def Let_def None by (simp add: missing_thread_def)
  next
    case (Some th)
    obtain st3 r where e: "run_loop env msg tid False (thread_messages th) (say (St_thinking ''Processing...'') ?st2) = (st3, r)"
      by (cases "run_loop env msg tid False (thread_messages th) (say (St_thinking ''Processing...'') ?st2)")
    have "stored st3 = stored st"
      using stored_run [of env msg tid False "thread_messages th" "say (St_thinking ''Processing...'') ?st2"] e by simp
    moreover have "finish_turn env msg tid inp r st3 = (st1, Inr (Need_approval rid n d ps))"
      using assms unfolding chat_turn_def Let_def Some option.case e prod.case .
    ultimately show ?thesis by (simp add: finish_asking)
  qed
qed

section \<open>Properties\<close>

text \<open>An approval adds at most the tool that waits for it to the tools the session approves for good,
  and only if the answer is to approve it always.\<close>
theorem approval_scope:
  "approvals_of (im_user_id msg) (fst (process_approval env msg addressed rq approved always st))
     \<subseteq> approvals_of (im_user_id msg) st
       \<union> {n. approved \<and> always \<and> (\<exists>tid th p. thread_of (im_user_id msg) tid st = Some th
            \<and> thread_state th = AwaitingApproval \<and> pending_approval th = Some p \<and> n = pa_tool_name p)}"
proof -
  let ?u = "im_user_id msg"
  let ?st1 = "\<lambda>tid. change_thread ?u tid (\<lambda>t. snd (take_pending_approval t)) st"
  have "approvals_of ?u (fst (run_approved env msg tid p always (?st1 tid)))
      \<subseteq> approvals_of ?u st \<union> (if always then {pa_tool_name p} else {})" for tid p
    using approvals_run_approved [of msg env tid p always "?st1 tid"] by simp
  note run = this
  show ?thesis
  proof (cases "resolve_approval_thread addressed rq (user_session ?u st)")
    case (Found tid)
    show ?thesis
    proof (cases "thread_of ?u tid st")
      case (Some th)
      show ?thesis
      proof (cases "thread_state th = AwaitingApproval \<and> approved \<and> pending_approval th \<noteq> None")
        case True
        then obtain p where p: "pending_approval th = Some p" by blast
        with True Found Some run [of tid p] show ?thesis
          by (auto simp: process_approval_def Let_def split: if_splits)
      next
        case False
        with Found Some show ?thesis
          by (auto simp: process_approval_def reject_pending_def Let_def split: option.split)
      qed
    qed (simp add: process_approval_def Found)
  qed (simp_all add: process_approval_def)
qed

text \<open>A turn that asked for approval is never stored: neither the input, nor, when the request is
  answered, the response. After a restart the exchange is gone.\<close>
theorem approved_turn_unstored:
  assumes "chat_turn env msg tid inp st = (st1, Inr (Need_approval rid n d ps))"
  shows "stored (fst (process_approval env msg' addressed rq approved always st1)) = stored st"
  by (simp add: stored_approval stored_asking [OF assms])

text \<open>A token for an extension is seen by the extension manager and by nobody else: without hooks, two
  messages that differ in a token the manager treats alike lead to the same state and the same answer.\<close>
theorem token_confined:
  assumes "ae_hooks (ce_agent env) = []"
    and "parse_submission (cv_parse (ce_commands env)) (ce_parse_approval env) t1 = User_input t1"
    and "parse_submission (cv_parse (ce_commands env)) (ce_parse_approval env) t2 = User_input t2"
    and "resolve_step env msg (hydrate_step env msg st) = (st2, tid)"
    and "Option.bind (thread_of (im_user_id msg) tid st2) pending_auth = Some ext"
    and "\<forall>xm w. ce_extensions env = Some xm \<longrightarrow> xm_auth xm w ext (trim t1) = xm_auth xm w ext (trim t2)"
  shows "handle_message env (msg\<lparr>im_content := t1\<rparr>) st = handle_message env (msg\<lparr>im_content := t2\<rparr>) st"
proof -
  have h: "hydrate_step env (msg\<lparr>im_content := t\<rparr>) st = hydrate_step env msg st" for t
    by (cases "im_thread_id msg") (simp_all add: hydrate_step_def)
  have r: "resolve_step env (msg\<lparr>im_content := t\<rparr>) = resolve_step env msg" for t
    by (simp add: resolve_step_def fun_eq_iff)
  have "run_hooks (ce_agent env) ev w = (w, Inr (Continue None))" for ev w
    using assms(1) by (simp add: run_hooks_def hooks_run_def matching_hooks_def)
  then have i: "inbound env (msg\<lparr>im_content := t\<rparr>) st = (st, Inr (User_input t))"
    if "parse_submission (cv_parse (ce_commands env)) (ce_parse_approval env) t = User_input t" for t
    using that by (simp add: inbound_def Let_def)
  have "handle_message env (msg\<lparr>im_content := t\<rparr>) st
      = (let (st3, answer) = process_auth_token env (im_user_id msg) tid ext t st2 in (st3, Inr (Some answer)))"
    if "parse_submission (cv_parse (ce_commands env)) (ce_parse_approval env) t = User_input t" for t
    using i [OF that] assms(4,5) by (simp add: handle_message_def h r Let_def)
  moreover have "process_auth_token env (im_user_id msg) tid ext t1 st2 = process_auth_token env (im_user_id msg) tid ext t2 st2"
    using assms(6) by (cases "ce_extensions env") (simp_all add: process_auth_token_def Let_def)
  ultimately show ?thesis using assms(2,3) by simp
qed

end
