(* ===== verification/Chat_Examples.thy ===== *)
theory Chat_Examples
  imports Chat_Props Chat_Approval
begin

text \<open>
  Concrete chats, with a model that always answers the same text or always calls the shell, on which the
  properties of \<open>Chat_Props\<close>, \<open>Chat_History\<close> and \<open>Chat_Approval\<close> are applied.
\<close>

section \<open>An environment and a start\<close>

definition text_agent :: "nat agent_env" where
  "text_agent = (example_agent [])\<lparr>ae_respond := \<lambda>w sys skills ms tools. (w + 1, Inr
     \<lparr>ro_result = Respond_text ''hi'', ro_input_tokens = 1, ro_output_tokens = 1\<rparr>)\<rparr>"

definition chat_example :: "nat agent_env \<Rightarrow> nat chat_env" where
  "chat_example agent = \<lparr>ce_agent = agent, ce_compact = silent_env, ce_monitor = new_context_monitor,
     ce_commands = example_commands, ce_heartbeat = None, ce_extensions = None, ce_prefix = ''/'',
     ce_parse_approval = \<lambda>s. None, ce_show_percent = \<lambda>n q. ''80'', ce_chain_id = \<lambda>w i. None,
     ce_remember = \<lambda>w t. (w, None), ce_written = \<lambda>w. 2, ce_chain_written = \<lambda>w. True,
     ce_complete = \<lambda>w ms n t. (w, Inr ''summary''), ce_list_models = \<lambda>w. Inr [],
     ce_set_model = \<lambda>w m. (w, Inr ()), ce_tool_names = \<lambda>w. [], ce_package = (''gyre'', ''0.1'')\<rparr>"

definition empty_store :: conversation_store where
  "empty_store = \<lparr>cs_messages = \<lambda>i. [], cs_response_id = \<lambda>i. None\<rparr>"

definition chat_start :: "nat chat_state" where
  "chat_start = \<lparr>ch_world = 0,
     ch_manager = put_session ''u'' (create_thread 7 0 (new_session 2 0 ''u'')) (new_session_manager False),
     ch_guard = ls_guard example_state, ch_jobs = new_job_system 1 1 False, ch_store = Some empty_store, ch_events = []\<rparr>"

definition hello :: incoming_message where
  "hello = \<lparr>im_user_id = ''u'', im_channel = ''repl'', im_content = ''hello'', im_thread_id = None\<rparr>"

lemma hello_user [simp]: "im_user_id hello = ''u''"
  by (simp add: hello_def)

lemma start_thread: "thread_of ''u'' 7 chat_start = Some (new_thread 7 0 2)"
  by (simp add: thread_of_def user_session_def chat_start_def create_thread_def new_session_def put_session_def new_session_manager_def)

lemma start_messages [simp]: "thread_messages (new_thread 7 0 2) = []"
  by (simp add: new_thread_def thread_with_id_def thread_messages_def)

lemma no_need [simp]: "suggest_compaction new_context_monitor [] = None"
  by (simp add: suggest_compaction_def usage_percent_def needs_compaction_def new_context_monitor_def estimate_tokens_def
      cx_threshold_def Let_def)

lemma start_undo: "0 < um_max_checkpoints (manager_at 7 chat_start)"
  by (simp add: manager_at_def undo_of_def chat_start_def new_session_manager_def new_undo_manager_def DEFAULT_MAX_CHECKPOINTS_def)

section \<open>A model that answers\<close>

definition unlimited :: "cost_guard \<Rightarrow> bool" where
  "unlimited g \<longleftrightarrow> \<not> cg_exceeded g \<and> max_cost_per_day_cents (cg_config g) = None \<and> max_actions_per_hour (cg_config g) = None"

lemma unlimited_check: "unlimited g \<Longrightarrow> cost_check_allowed now g = (g, Inr ())"
  by (simp add: unlimited_def cost_check_allowed_def check_hourly_def)

lemma unlimited_record: "unlimited g \<Longrightarrow> unlimited (fst (record_llm_call d now m i o' g))"
  by (simp add: unlimited_def record_llm_call_def Let_def)

lemma text_round:
  assumes "unlimited (ls_guard st)" "\<not> is_interrupted tid (ls_session st)"
  shows "\<exists>st'. loop_round text_agent u tid active prompt it executed st =
      (st', if \<not> executed \<and> it < 3 then Goes_on executed else Ends (Inr (Loop_response ''hi'')))
    \<and> unlimited (ls_guard st') \<and> ls_session st' = ls_session st"
  using assms
  by (simp add: loop_round_def unlimited_check text_agent_def handle_reply_def record_usage_def unlimited_record
      log_event_def push_message_def Let_def)

lemma text_loop:
  assumes "unlimited (ls_guard st)" "\<not> is_interrupted tid (ls_session st)"
  shows "\<exists>st'. run_agentic_loop text_agent u m tid False st = (st', Inr (Loop_response ''hi''))
    \<and> ls_session st' = ls_session st"
proof -
  let ?a = "select_active_skills text_agent m" and ?p = "system_prompt text_agent (ls_world st) m"
  obtain s1 where 1: "loop_round text_agent u tid ?a ?p 1 False st = (s1, Goes_on False)"
      "unlimited (ls_guard s1)" "ls_session s1 = ls_session st"
    using text_round [OF assms, of u ?a ?p 1 False] by auto
  obtain s2 where 2: "loop_round text_agent u tid ?a ?p 2 False s1 = (s2, Goes_on False)"
      "unlimited (ls_guard s2)" "ls_session s2 = ls_session st"
    using text_round [of s1 tid u ?a ?p 2 False] 1 assms by auto
  obtain s3 where 3: "loop_round text_agent u tid ?a ?p 3 False s2 = (s3, Ends (Inr (Loop_response ''hi'')))"
      "ls_session s3 = ls_session st"
    using text_round [of s2 tid u ?a ?p 3 False] 2 assms by auto
  have "agentic_loop text_agent u tid ?a ?p 0 False st = (s3, Inr (Loop_response ''hi''))"
    using 1 2 3 by (simp add: agentic_loop.simps MAX_TOOL_ITERATIONS_def numeral_2_eq_2 numeral_3_eq_3)
  with 3 show ?thesis by (simp add: run_agentic_loop_def)
qed

text \<open>The guard of the state, which the steps before the run leave alone.\<close>

lemma guard_updates [simp]:
  "ch_guard (say s st) = ch_guard st" "ch_guard (change_thread u tid f st) = ch_guard st"
  "ch_guard (checkpoint_turn env u tid st) = ch_guard st"
  by (simp_all add: say_def change_thread_def change_session_def checkpoint_turn_def put_undo_def chat_fresh_def
      undo_manager_of_def Let_def split_beta split: option.split)

lemma start_unlimited: "unlimited (ch_guard chat_start)"
  by (simp add: unlimited_def chat_start_def example_state_def new_cost_guard_def)

lemma example_fields [simp]:
  "ce_agent (chat_example a) = a" "ce_monitor (chat_example a) = new_context_monitor"
  "ce_written (chat_example a) w = 2"
  by (simp_all add: chat_example_def)

text \<open>The state in which the run of the first turn starts.\<close>

definition turn_start :: "nat agent_env \<Rightarrow> nat chat_state" where
  "turn_start a = (let st1 = checkpoint_turn (chat_example a) ''u'' 7 chat_start
     in say (St_thinking ''Processing...'') (change_thread ''u'' 7 (start_turn (chat_now (chat_example a) st1) ''hello'') st1))"

lemma turn_start_thread: "\<exists>now. thread_of ''u'' 7 (turn_start a) = Some (start_turn now ''hello'' (new_thread 7 0 2))"
  by (auto simp: turn_start_def Let_def start_thread)

lemma first_turn:
  assumes "run_agentic_loop a ''u'' ''hello'' 7 False (loop_view ''u'' [msg_user ''hello''] (turn_start a)) = (ls, r)"
  shows "chat_turn (chat_example a) hello 7 ''hello'' chat_start
    = finish_turn (chat_example a) hello 7 ''hello'' r (loop_back ''u'' ls (turn_start a))"
proof -
  have m: "thread_messages (start_turn now ''hello'' (new_thread 7 0 2)) = [msg_user ''hello'']" for now
    by (simp add: thread_messages_def start_turn_def new_thread_def thread_with_id_def turn_messages_def new_turn_def)
  have "run_loop (chat_example a) hello 7 False [msg_user ''hello''] (turn_start a) = (loop_back ''u'' ls (turn_start a), r)"
    using assms by (simp add: run_loop_def hello_def)
  then show ?thesis
    by (simp add: chat_turn_def no_compaction [OF start_thread] Let_def start_thread m turn_start_def)
qed

lemma view_state:
  "\<not> is_interrupted 7 (ls_session (loop_view ''u'' ctx (turn_start a)))" "unlimited (ls_guard (loop_view ''u'' ctx (turn_start a)))"
proof -
  obtain now where "thread_of ''u'' 7 (turn_start a) = Some (start_turn now ''hello'' (new_thread 7 0 2))"
    using turn_start_thread by blast
  then show "\<not> is_interrupted 7 (ls_session (loop_view ''u'' ctx (turn_start a)))"
    by (simp add: is_interrupted_def loop_view_def thread_of_def start_turn_def)
  show "unlimited (ls_guard (loop_view ''u'' ctx (turn_start a)))"
    by (simp add: loop_view_def turn_start_def Let_def start_unlimited)
qed

lemma no_hooks: "ae_hooks a = [] \<Longrightarrow> run_hooks a ev w = (w, Inr (Continue None))"
  by (simp add: run_hooks_def hooks_run_def matching_hooks_def)

lemma text_agent_hooks [simp]: "ae_hooks text_agent = []"
  by (simp add: text_agent_def example_agent_def)

lemma first_turn_hi: "\<exists>st1. chat_turn (chat_example text_agent) hello 7 ''hello'' chat_start = (st1, Inr (Response ''hi''))"
proof -
  let ?v = "loop_view ''u'' [msg_user ''hello''] (turn_start text_agent)"
  obtain ls where r: "run_agentic_loop text_agent ''u'' ''hello'' 7 False ?v = (ls, Inr (Loop_response ''hi''))"
      "ls_session ls = ls_session ?v"
    using text_loop [OF view_state(2) view_state(1)] by blast
  obtain now where t: "thread_of ''u'' 7 (turn_start text_agent) = Some (start_turn now ''hello'' (new_thread 7 0 2))"
    using turn_start_thread by blast
  then have "sessions_of (turn_start text_agent) ''u'' \<noteq> None"
    by (cases "sessions_of (turn_start text_agent) ''u''") (auto simp: thread_of_sessions)
  then have "thread_of ''u'' 7 (loop_back ''u'' ls (turn_start text_agent)) = Some (start_turn now ''hello'' (new_thread 7 0 2))"
    using t r(2) by (auto simp: loop_back_def thread_of_sessions loop_view_def user_session_of)
  then show ?thesis
    unfolding first_turn [OF r(1)]
    by (simp add: finish_turn_def Let_def split_beta start_turn_def transformed_def no_hooks)
qed

section \<open>The properties on the examples\<close>

theorem sessions_stay_apart_witness:
  "map_of (mg_sessions (ch_manager (fst (serve_all (chat_example text_agent) [hello\<lparr>im_user_id := ''v''\<rparr>] chat_start)))) ''u''
     = map_of (mg_sessions (ch_manager chat_start)) ''u''"
  by (rule sessions_stay_apart) simp


theorem turn_survives_restart_witness:
  "\<exists>st1 db1. chat_turn (chat_example text_agent) hello 7 ''hello'' chat_start = (st1, Inr (Response ''hi''))
     \<and> ch_store st1 = Some db1 \<and> talk ''u'' 7 st1 = Some [msg_user ''hello'', msg_assistant ''hi'']
     \<and> thread_messages (hydrated (Some db1) 9 7 (new_session 2 9 ''u'')) = [msg_user ''hello'', msg_assistant ''hi'']"
proof -
  obtain st1 where 1: "chat_turn (chat_example text_agent) hello 7 ''hello'' chat_start = (st1, Inr (Response ''hi''))"
    using first_turn_hi by blast
  have "ch_store chat_start = Some empty_store" "List.map_filter stored_message (cs_messages empty_store 7) = []"
    by (simp_all add: chat_start_def empty_store_def List.map_filter_def)
  then show ?thesis
    using turn_survives_restart [of hello 7 chat_start "new_thread 7 0 2" "chat_example text_agent" empty_store "''hello''" st1 "''hi''"
        9 "new_session 2 9 ''u''"] 1 start_thread by auto
qed

theorem undone_turn_returns_witness:
  "\<exists>st1 st2 r2. chat_turn (chat_example text_agent) hello 7 ''hello'' chat_start = (st1, Inr (Response ''hi''))
     \<and> process_undo (chat_example text_agent) ''u'' 7 st1 = (st2, r2) \<and> talk ''u'' 7 st2 = Some []
     \<and> thread_messages (hydrated (ch_store st2) 9 7 (new_session 2 9 ''u'')) = [msg_user ''hello'', msg_assistant ''hi'']"
proof -
  obtain st1 where 1: "chat_turn (chat_example text_agent) hello 7 ''hello'' chat_start = (st1, Inr (Response ''hi''))"
    using first_turn_hi by blast
  obtain st2 r2 where 2: "process_undo (chat_example text_agent) ''u'' 7 st1 = (st2, r2)" by fastforce
  have "ch_store chat_start = Some empty_store" "List.map_filter stored_message (cs_messages empty_store 7) = []"
    by (simp_all add: chat_start_def empty_store_def List.map_filter_def)
  then show ?thesis
    using undone_turn_returns [of hello 7 chat_start "new_thread 7 0 2" "chat_example text_agent" empty_store "''hello''" st1 "''hi''"
        st2 r2 9 "new_session 2 9 ''u''"] 1 2 start_thread start_undo by auto
qed

text \<open>The model of \<open>example_agent\<close> calls the shell, which waits for approval.\<close>

lemma ask_round:
  assumes "unlimited (ls_guard st)" "\<not> is_interrupted tid (ls_session st)" "auto_approved_tools (ls_session st) = {}"
  shows "\<exists>st' p. loop_round (example_agent []) u tid active prompt it executed st = (st', Ends (Inr (Loop_need_approval p)))"
proof -
  have a: "approval_missing (example_agent []) st' shell_call = Some shell_tool"
    if "auto_approved_tools (ls_session st') = {}" for st'
    using that by (simp add: approval_missing_def example_agent_def shell_call_def shell_tool_def auto_approved_def
        is_tool_auto_approved_def is_tool_trusted_def trusted_tools_def)
  have c: "\<exists>s p. run_tool_calls (example_agent []) u tid [shell_call] st' = (s, Some (Loop_need_approval p))"
    if "auto_approved_tools (ls_session st') = {}" for st'
    using a [OF that] by (simp add: run_tool_call_def split_beta)
  let ?tools = "offered_tools (example_agent []) (ls_world st) active"
  let ?s1 = "record_calls tid [shell_call] (log_event (Ev_status (St_thinking ''Executing 1 tool(s)...''))
      (push_message (msg_assistant_with_tool_calls None [shell_call])
        (record_usage (example_agent []) \<lparr>ro_result = Respond_tools [shell_call] None, ro_input_tokens = 1, ro_output_tokens = 1\<rparr>
          (log_event (Ev_model ?tools) (st\<lparr>ls_world := ls_world st + 1, ls_guard := ls_guard st\<rparr>)))))"
  have "auto_approved_tools (ls_session ?s1) = {}"
    using assms(3) by (simp add: record_calls_def update_last_turn_def log_event_def push_message_def record_usage_def)
  from c [OF this] obtain s p where e: "run_tool_calls (example_agent []) u tid [shell_call] ?s1 = (s, Some (Loop_need_approval p))"
    by blast
  have "ae_respond (example_agent []) (ls_world st) prompt (skill_context active) (ls_context st) ?tools
      = (ls_world st + 1, Inr \<lparr>ro_result = Respond_tools [shell_call] None, ro_input_tokens = 1, ro_output_tokens = 1\<rparr>)"
    by (simp add: example_agent_def)
  moreover have "show_nat 1 = ''1''" by code_simp
  ultimately have "loop_round (example_agent []) u tid active prompt it executed st = (s, Ends (Inr (Loop_need_approval p)))"
    using assms(1,2) e by (simp add: loop_round_def unlimited_check handle_reply_def Let_def)
  then show ?thesis by blast
qed

lemma first_turn_asks:
  "\<exists>st1 rid n d ps. chat_turn (chat_example (example_agent [])) hello 7 ''hello'' chat_start
     = (st1, Inr (Need_approval rid n d ps))"
proof -
  let ?a = "example_agent []"
  let ?v = "loop_view ''u'' [msg_user ''hello''] (turn_start ?a)"
  have "approvals_of ''u'' (turn_start ?a) = approvals_of ''u'' chat_start"
    by (simp add: turn_start_def Let_def approvals_of_def checkpoint_turn_def split_beta split: option.split)
  then have s: "approvals_of ''u'' (turn_start ?a) = {}"
    by (simp add: approvals_of_def sessions_of_def chat_start_def put_session_def create_thread_def new_session_def
        new_session_manager_def)
  obtain now where t: "thread_of ''u'' 7 (turn_start ?a) = Some (start_turn now ''hello'' (new_thread 7 0 2))"
    using turn_start_thread by blast
  then have p: "sessions_of (turn_start ?a) ''u'' \<noteq> None"
    by (cases "sessions_of (turn_start ?a) ''u''") (auto simp: thread_of_sessions)
  obtain ls q where "loop_round ?a ''u'' 7 (select_active_skills ?a ''hello'') (system_prompt ?a (ls_world ?v) ''hello'') 1 False ?v
      = (ls, Ends (Inr (Loop_need_approval q)))"
    using ask_round [OF view_state(2) view_state(1)] view_approvals [OF p] s by metis
  then have r: "run_agentic_loop ?a ''u'' ''hello'' 7 False ?v = (ls, Inr (Loop_need_approval q))"
    by (simp add: run_agentic_loop_def agentic_loop.simps MAX_TOOL_ITERATIONS_def)
  have "same_talk 7 ?v ls"
    using session_frame.rel_run [of 7 ?v ?a "''u''" "''hello''" False] r by simp
  then obtain th where "thread_of ''u'' 7 (loop_back ''u'' ls (turn_start ?a)) = Some th" "thread_state th = Processing"
    using ran_messages [OF ran_back, of 7 "''u''" "[msg_user ''hello'']" "turn_start ?a" ls] t by (auto simp: start_turn_def)
  then show ?thesis
    unfolding first_turn [OF r] by (simp add: finish_turn_def ask_approval_def Let_def)
qed

theorem approved_turn_unstored_witness:
  "\<exists>st1 r. chat_turn (chat_example (example_agent [])) hello 7 ''hello'' chat_start = (st1, Inr r)
     \<and> stored (fst (process_approval (chat_example (example_agent [])) hello 7 None True False st1)) = Some (\<lambda>i. [])"
proof -
  obtain st1 rid n d ps where 1: "chat_turn (chat_example (example_agent [])) hello 7 ''hello'' chat_start
      = (st1, Inr (Need_approval rid n d ps))" using first_turn_asks by blast
  have "stored chat_start = Some (\<lambda>i. [])" by (simp add: stored_def chat_start_def empty_store_def)
  with approved_turn_unstored [OF 1] 1 show ?thesis by metis
qed

text \<open>A thread that waits for a token, without an extension manager to take it.\<close>

definition auth_start :: "nat chat_state" where
  "auth_start = chat_start\<lparr>ch_manager := put_session ''u''
     (update_thread 7 (enter_auth_mode 0 ''github'') (create_thread 7 0 (new_session 2 0 ''u'')))
     ((new_session_manager False)\<lparr>mg_thread_map := [(\<lparr>tk_user = ''u'', tk_channel = ''repl'', tk_external = None\<rparr>, 7)]\<rparr>)\<rparr>"

theorem token_confined_witness:
  "handle_message (chat_example text_agent) (hello\<lparr>im_content := ''tok1''\<rparr>) auth_start
     = handle_message (chat_example text_agent) (hello\<lparr>im_content := ''tok2''\<rparr>) auth_start"
proof -
  have p: "parse_submission (cv_parse (ce_commands (chat_example text_agent))) (ce_parse_approval (chat_example text_agent)) t
      = User_input t" if "t = ''tok1'' \<or> t = ''tok2''" for t
  proof -
    have "parse_submission (\<lambda>s. None) (\<lambda>s. None) ''tok1'' = User_input ''tok1''"
      "parse_submission (\<lambda>s. None) (\<lambda>s. None) ''tok2'' = User_input ''tok2''" by code_simp+
    moreover have "parse_submission (cv_parse example_commands) (\<lambda>s. None) ''tok1'' = User_input ''tok1''"
      "parse_submission (cv_parse example_commands) (\<lambda>s. None) ''tok2'' = User_input ''tok2''"
      by code_simp+
    ultimately show ?thesis using that by (auto simp: chat_example_def)
  qed
  obtain st2 tid where r: "resolve_step (chat_example text_agent) hello (hydrate_step (chat_example text_agent) hello auth_start) = (st2, tid)"
    by (cases "resolve_step (chat_example text_agent) hello (hydrate_step (chat_example text_agent) hello auth_start)")
  then have "Option.bind (thread_of ''u'' tid st2) pending_auth = Some ''github''"
    by (auto simp: resolve_step_def hydrate_step_def hello_def auth_start_def chat_start_def chat_fresh_def text_agent_def
        example_agent_def resolve_thread_def get_or_create_session_def put_session_def create_thread_def new_session_def
        new_session_manager_def update_thread_def enter_auth_mode_def new_thread_def thread_with_id_def
        thread_of_def user_session_def Let_def)
  then show ?thesis
    by (intro token_confined [OF _ p p r, of _ _ "''github''"]) (simp_all add: hello_def chat_example_def)
qed

end
