(* ===== verification/Worker.thy ===== *)
theory Worker
  imports Dispatcher Scheduler
begin

text \<open>
  The autonomous worker of a job, \<open>src/agent/worker.rs\<close>, and the execution of a tool as a sub-task,
  \<open>src/agent/scheduler.rs\<close>. A worker runs beside the other tasks of the agent: what they do to the job
  system between two steps of the worker is \<open>meanwhile\<close>, any sequence of scheduler events that is not
  the end of this worker. The tools of one batch run in their order, one of their interleavings; the
  timeout of the job is looked at between the steps.
\<close>

section \<open>Environment and state\<close>

datatype worker_message = Msg_start | Msg_stop | Msg_ping

text \<open>What other tasks do: an event of the job system, or a message to the worker.\<close>

datatype other_task = Other_job job_event | Other_ping

record planned_action =
  pl_tool_name :: string
  pl_parameters :: json
  pl_reasoning :: string

record action_plan =
  pl_goal :: string
  pl_actions :: "planned_action list"

text \<open>
  \<open>wv_select\<close> is \<open>complete_with_tools\<close> on the messages and the tools, \<open>wv_plan\<close> is
  \<open>Reasoning::plan\<close>, also given the job description; \<open>ae_respond\<close> of the agent's environment is
  \<open>respond_with_tools\<close>. \<open>wv_execute\<close> runs a tool with the job context it gets.
\<close>

record 'w worker_env =
  wv_agent :: "'w agent_env"
  wv_use_planning :: bool
  wv_plan :: "'w \<Rightarrow> chat_message list \<Rightarrow> tool_definition list \<Rightarrow> string \<Rightarrow> 'w \<times> (llm_error, action_plan) result"
  wv_select :: "'w \<Rightarrow> chat_message list \<Rightarrow> tool_definition list \<Rightarrow> 'w \<times> (llm_error, tool_call list) result"
  wv_execute :: "'w \<Rightarrow> job_context \<Rightarrow> string \<Rightarrow> json \<Rightarrow> 'w \<times> tool_outcome"
  wv_others :: "'w \<Rightarrow> 'w \<times> other_task list"
  wv_expired :: "'w \<Rightarrow> bool"

datatype worker_event =
    We_model
  | We_said string
  | We_executed tool_info string json json
  | We_saved uuid action_record
  | We_failure string string

record 'w worker_state =
  wk_world :: 'w
  wk_jobs :: job_system
  wk_mail :: "worker_message list"
  wk_messages :: "chat_message list"
  wk_events :: "worker_event list"

definition wk_log :: "worker_event \<Rightarrow> 'w worker_state \<Rightarrow> 'w worker_state" where
  "wk_log e st = st\<lparr>wk_events := wk_events st @ [e]\<rparr>"

definition wk_push :: "chat_message \<Rightarrow> 'w worker_state \<Rightarrow> 'w worker_state" where
  "wk_push m st = st\<lparr>wk_messages := wk_messages st @ [m]\<rparr>"

text \<open>
  The other tasks run. When the scheduler gives up the live entry of the job it has sent the worker a
  stop message.
\<close>

definition foreign_event :: "uuid \<Rightarrow> job_event \<Rightarrow> bool" where
  "foreign_event i e = (case e of Je_worker j _ _ _ \<Rightarrow> j \<noteq> i | _ \<Rightarrow> True)"

definition has_worker :: "uuid \<Rightarrow> job_system \<Rightarrow> bool" where
  "has_worker i s \<longleftrightarrow> map_of (js_running s) i = Some False"

definition other_step :: "uuid \<Rightarrow> 'w worker_state \<Rightarrow> other_task \<Rightarrow> 'w worker_state" where
  "other_step i st o1 = (case o1 of
     Other_ping \<Rightarrow> st\<lparr>wk_mail := wk_mail st @ [Msg_ping]\<rparr>
   | Other_job e \<Rightarrow>
       (if foreign_event i e then
          (let s' = system_step (wk_jobs st) e in
           if has_worker i (wk_jobs st) \<and> \<not> has_worker i s'
           then st\<lparr>wk_jobs := s', wk_mail := wk_mail st @ [Msg_stop]\<rparr>
           else st\<lparr>wk_jobs := s'\<rparr>)
        else st))"

definition meanwhile :: "'w worker_env \<Rightarrow> uuid \<Rightarrow> 'w worker_state \<Rightarrow> 'w worker_state" where
  "meanwhile env i st =
     (let (w', os) = wv_others env (wk_world st) in foldl (other_step i) (st\<lparr>wk_world := w'\<rparr>) os)"

section \<open>One tool\<close>

text \<open>The record of an action in the memory of the job, and its copy for the database.\<close>

definition note_action ::
  "uuid \<Rightarrow> uuid \<Rightarrow> instant \<Rightarrow> string \<Rightarrow> json \<Rightarrow> (action_record \<Rightarrow> action_record) \<Rightarrow> 'w worker_state \<Rightarrow> 'w worker_state" where
  "note_action i fresh now name params finish st =
     (case update_memory i (\<lambda>m. let (a, m1) = jm_create_action fresh now name params m; a1 = finish a
            in (a1, jm_record_action a1 m1)) (js_manager (wk_jobs st)) of
        (Inl e, m') \<Rightarrow> st\<lparr>wk_jobs := (wk_jobs st)\<lparr>js_manager := m'\<rparr>\<rparr>
      | (Inr a, m') \<Rightarrow>
         (let st' = st\<lparr>wk_jobs := (wk_jobs st)\<lparr>js_manager := m'\<rparr>\<rparr>
          in if js_has_store (wk_jobs st) then wk_log (We_saved i a) st' else st'))"

text \<open>How the code finishes the record: the sanitized text and the raw value of a result.\<close>

definition sanitized_text :: "'w agent_env \<Rightarrow> string \<Rightarrow> string \<Rightarrow> string" where
  "sanitized_text env name s = so_content (sanitize_tool_output (ae_ac env) (ae_aci env) (ae_re env) (ae_safety env) name s)"

definition finish_action :: "'w agent_env \<Rightarrow> string \<Rightarrow> duration \<Rightarrow> tool_outcome \<Rightarrow> action_record \<Rightarrow> action_record" where
  "finish_action env name elapsed out a = (case out of
     Tool_done j \<Rightarrow> ac_succeed a (Some (sanitized_text env name (ae_pretty env j))) j elapsed
   | Tool_failed r \<Rightarrow> ac_fail a r elapsed
   | Tool_late t \<Rightarrow> ac_fail a ''Execution timeout'' elapsed)"

definition outcome_result :: "'w agent_env \<Rightarrow> string \<Rightarrow> tool_outcome \<Rightarrow> (agent_error, string) result" where
  "outcome_result env name out = (case out of
     Tool_late t \<Rightarrow> Inl (Tool_failure (Tool_timed_out name t))
   | Tool_failed r \<Rightarrow> Inl (Tool_failure (Tool_execution_failed name r))
   | Tool_done j \<Rightarrow> Inr (ae_pretty env j))"

definition run_worker_tool ::
  "'w worker_env \<Rightarrow> uuid \<Rightarrow> tool_info \<Rightarrow> job_context \<Rightarrow> string \<Rightarrow> json \<Rightarrow> json \<Rightarrow> 'w worker_state
     \<Rightarrow> 'w worker_state \<times> (agent_error, string) result" where
  "run_worker_tool env i tool ctx name checked params st =
     (let ag = wv_agent env; t0 = ae_now ag (wk_world st);
          (w1, out) = wv_execute env (wk_world st) ctx name params;
          (w2, fresh) = ae_fresh ag w1;
          st1 = meanwhile env i (wk_log (We_executed tool name checked params) (st\<lparr>wk_world := w2\<rparr>));
          st2 = note_action i fresh (ae_now ag w2) name params
                  (finish_action ag name (elapsed_since t0 (ae_now ag w1)) out) st1
      in (st2, outcome_result ag name out))"

text \<open>The approval an autonomous execution needs.\<close>

definition approval_refused :: "'w agent_env \<Rightarrow> tool_info \<Rightarrow> string \<Rightarrow> json \<Rightarrow> bool" where
  "approval_refused ag tool name params \<longleftrightarrow>
     ti_requires_approval tool \<and> (\<not> is_tool_trusted name (ae_hooks ag) \<or> ti_requires_approval_for tool params)"

definition bad_parameters :: "'w agent_env \<Rightarrow> string \<Rightarrow> json \<Rightarrow> agent_error option" where
  "bad_parameters ag name params =
     (let v = validate_tool_params (sl_validator (ae_safety ag)) params in
      if vr_is_valid v then None
      else Some (Tool_failure (Invalid_parameters name (''Invalid tool parameters: ''
        @ join ''; '' (map (\<lambda>e. ve_field e @ '': '' @ ve_message e) (vr_errors v))))))"

definition execution_failed :: "string \<Rightarrow> string \<Rightarrow> agent_error" where
  "execution_failed name reason = Tool_failure (Tool_execution_failed name reason)"

definition execute_tool_inner ::
  "'w worker_env \<Rightarrow> uuid \<Rightarrow> string \<Rightarrow> json \<Rightarrow> 'w worker_state \<Rightarrow> 'w worker_state \<times> (agent_error, string) result" where
  "execute_tool_inner env i name params st =
     (let ag = wv_agent env in
      case ae_find_tool ag (wk_world st) name of
        None \<Rightarrow> (st, Inl (Tool_failure (Tool_not_found name)))
      | Some tool \<Rightarrow>
         (if approval_refused ag tool name params then (st, Inl (Tool_failure (Tool_auth_required name)))
          else case get_context i (js_manager (wk_jobs st)) of
            Inl e \<Rightarrow> (st, Inl (Job_failure e))
          | Inr ctx \<Rightarrow>
             (case run_hooks ag (ToolCall name params (user_id ctx) (''job:'' @ ae_show_uuid ag i)) (wk_world st) of
                (w', Inl (Hook_rejected reason)) \<Rightarrow>
                  (st\<lparr>wk_world := w'\<rparr>, Inl (execution_failed name (''Blocked by hook: '' @ reason)))
              | (w', Inl e) \<Rightarrow>
                  (st\<lparr>wk_world := w'\<rparr>, Inl (execution_failed name (''Blocked by hook failure mode: '' @ hook_text ag e)))
              | (w', Inr out) \<Rightarrow>
                 (let st1 = st\<lparr>wk_world := w'\<rparr>; params' = hooked_arguments ag params out in
                  if jstate ctx = Cancelled then (st1, Inl (execution_failed name ''Job is cancelled''))
                  else case bad_parameters ag name params' of
                    Some e \<Rightarrow> (st1, Inl e)
                  | None \<Rightarrow> run_worker_tool env i tool ctx name params params' st1))))"

text \<open>The answer of a tool enters the context sanitized and framed, an error as its text.\<close>

definition process_tool_result ::
  "'w worker_env \<Rightarrow> tool_call \<Rightarrow> (agent_error, string) result \<Rightarrow> 'w worker_state \<Rightarrow> 'w worker_state" where
  "process_tool_result env tc r st =
     (let ag = wv_agent env in
      case r of
        Inr out \<Rightarrow>
          (let s = sanitize_tool_output (ae_ac ag) (ae_aci ag) (ae_re ag) (ae_safety ag) (tc_name tc) out
           in wk_push (msg_tool_result (tc_id tc) (tc_name tc)
                (wrap_for_llm (tc_name tc) (so_content s) (so_was_modified s))) st)
      | Inl e \<Rightarrow>
          (let st1 = (if js_has_store (wk_jobs st)
                      then wk_log (We_failure (tc_name tc) (agent_error_text ag e)) st else st)
           in wk_push (msg_tool_result (tc_id tc) (tc_name tc) (''Error: '' @ agent_error_text ag e)) st1))"

definition execute_and_process :: "'w worker_env \<Rightarrow> uuid \<Rightarrow> tool_call \<Rightarrow> 'w worker_state \<Rightarrow> 'w worker_state" where
  "execute_and_process env i tc st =
     (let (st1, r) = execute_tool_inner env i (tc_name tc) (tc_arguments tc) st in process_tool_result env tc r st1)"

text \<open>A batch: all are executed, then all results are processed.\<close>

fun execute_tools_parallel ::
  "'w worker_env \<Rightarrow> uuid \<Rightarrow> tool_call list \<Rightarrow> 'w worker_state
     \<Rightarrow> 'w worker_state \<times> (agent_error, string) result list" where
  "execute_tools_parallel env i [] st = (st, [])"
| "execute_tools_parallel env i (tc # tcs) st =
     (let (st1, r) = execute_tool_inner env i (tc_name tc) (tc_arguments tc) st;
          (st2, rs) = execute_tools_parallel env i tcs st1
      in (st2, r # rs))"

fun process_results ::
  "'w worker_env \<Rightarrow> (tool_call \<times> (agent_error, string) result) list \<Rightarrow> 'w worker_state \<Rightarrow> 'w worker_state" where
  "process_results env [] st = st"
| "process_results env ((tc, r) # rest) st = process_results env rest (process_tool_result env tc r st)"

section \<open>The marks\<close>

definition with_mark ::
  "(instant \<Rightarrow> instant \<Rightarrow> job_system \<Rightarrow> job_system \<times> (job_error, unit) result) \<Rightarrow> 'w worker_env
     \<Rightarrow> 'w worker_state \<Rightarrow> 'w worker_state \<times> (agent_error, unit) result" where
  "with_mark f env st =
     (let now = ae_now (wv_agent env) (wk_world st); (s', r) = f now now (wk_jobs st)
      in (st\<lparr>wk_jobs := s'\<rparr>, case r of Inl e \<Rightarrow> Inl (Job_failure e) | Inr _ \<Rightarrow> Inr ()))"

section \<open>The loop\<close>

definition WORKER_MAX_ITERATIONS :: nat where
  "WORKER_MAX_ITERATIONS = 50"

text \<open>How the loop ends: with a result, or by the timeout of the job.\<close>

datatype worker_stop = Stops_with "(agent_error, unit) result" | Stops_late

definition job_cancelled :: "uuid \<Rightarrow> 'w worker_state \<Rightarrow> bool" where
  "job_cancelled i st = (case get_context i (js_manager (wk_jobs st)) of
     Inr ctx \<Rightarrow> jstate ctx = Cancelled | Inl _ \<Rightarrow> False)"

definition take_mail :: "'w worker_state \<Rightarrow> 'w worker_state \<times> worker_message option" where
  "take_mail st = (case wk_mail st of [] \<Rightarrow> (st, None) | m # ms \<Rightarrow> (st\<lparr>wk_mail := ms\<rparr>, Some m))"

text \<open>A text of the model: the end of the job if it says so, otherwise part of the context, with a
  nudge every fifth round.\<close>

definition take_text ::
  "'w worker_env \<Rightarrow> uuid \<Rightarrow> nat \<Rightarrow> string \<Rightarrow> 'w worker_state \<Rightarrow> 'w worker_state \<times> worker_stop option" where
  "take_text env i iteration said st =
     (let st0 = wk_log (We_said said) st in
      if llm_signals_completion said then
        (let (st1, r) = with_mark (mark_completed i) env st0 in (st1, Some (Stops_with r)))
      else
        (let st1 = wk_push (msg_assistant said) st0
         in (if iteration > 3 \<and> iteration mod 5 = 0
             then wk_push (msg_user ''Are you stuck? Do you need help completing this job?'') st1 else st1, None)))"

definition ask_model ::
  "'w worker_env \<Rightarrow> uuid \<Rightarrow> nat \<Rightarrow> tool_definition list \<Rightarrow> 'w worker_state \<Rightarrow> 'w worker_state \<times> worker_stop option" where
  "ask_model env i iteration tools st =
     (case ae_respond (wv_agent env) (wk_world st) None None (wk_messages st) tools of
        (w', Inl e) \<Rightarrow> (wk_log We_model (st\<lparr>wk_world := w'\<rparr>), Some (Stops_with (Inl (Llm_failure e))))
      | (w', Inr out) \<Rightarrow>
         (let st1 = wk_log We_model (st\<lparr>wk_world := w'\<rparr>) in
          case ro_result out of
            Respond_text said \<Rightarrow> take_text env i iteration said st1
          | Respond_tools tcs said \<Rightarrow>
              (foldl (\<lambda>s tc. execute_and_process env i tc s)
                 (wk_push (msg_assistant_with_tool_calls said tcs) st1) tcs, None)))"

definition select_tools ::
  "'w worker_env \<Rightarrow> tool_definition list \<Rightarrow> 'w worker_state \<Rightarrow> 'w worker_state \<times> (llm_error, tool_call list) result" where
  "select_tools env tools st =
     (if tools = [] then (st, Inr [])
      else (let (w', r) = wv_select env (wk_world st) (wk_messages st) tools
            in (wk_log We_model (st\<lparr>wk_world := w'\<rparr>), r)))"

definition use_selections :: "'w worker_env \<Rightarrow> uuid \<Rightarrow> tool_call list \<Rightarrow> 'w worker_state \<Rightarrow> 'w worker_state" where
  "use_selections env i tcs st =
     (if length tcs = 1 then execute_and_process env i (hd tcs) st
      else (let (st1, rs) = execute_tools_parallel env i tcs st in process_results env (zip tcs rs) st1))"

definition worker_round ::
  "'w worker_env \<Rightarrow> uuid \<Rightarrow> nat \<Rightarrow> 'w worker_state \<Rightarrow> 'w worker_state \<times> worker_stop option" where
  "worker_round env i iteration st =
     (let tools = ae_tool_defs (wv_agent env) (wk_world st) in
      case select_tools env tools st of
        (st1, Inl e) \<Rightarrow> (st1, Some (Stops_with (Inl (Llm_failure e))))
      | (st1, Inr tcs) \<Rightarrow>
          (if tcs = [] then ask_model env i iteration tools st1 else (use_selections env i tcs st1, None)))"

text \<open>What is looked at before a step: the timeout, a stop message, and for a round the cancellation.\<close>

definition told_to_stop :: "'w worker_env \<Rightarrow> uuid \<Rightarrow> 'w worker_state \<Rightarrow> 'w worker_state \<times> worker_stop option" where
  "told_to_stop env i st =
     (let st0 = meanwhile env i st in
      if wv_expired env (wk_world st0) then (st0, Some Stops_late)
      else let (st1, m) = take_mail st0
           in (st1, if m = Some Msg_stop then Some (Stops_with (Inr ())) else None))"

function selection_loop ::
  "'w worker_env \<Rightarrow> uuid \<Rightarrow> nat \<Rightarrow> 'w worker_state \<Rightarrow> 'w worker_state \<times> worker_stop" where
  "selection_loop env i iteration st =
     (case told_to_stop env i st of
        (st1, Some e) \<Rightarrow> (st1, e)
      | (st1, None) \<Rightarrow>
         (if job_cancelled i st1 then (st1, Stops_with (Inr ()))
          else if iteration + 1 > WORKER_MAX_ITERATIONS then
            (let (st2, r) = with_mark (worker_mark_stuck i ''Maximum iterations exceeded'') env st1 in (st2, Stops_with r))
          else case worker_round env i (iteration + 1) st1 of
            (st2, Some e) \<Rightarrow> (st2, e)
          | (st2, None) \<Rightarrow> selection_loop env i (iteration + 1) st2))"
  by pat_completeness auto
termination
  by (relation "measure (\<lambda>(env, i, iteration, st). WORKER_MAX_ITERATIONS - iteration)") auto

declare selection_loop.simps [simp del]

section \<open>A plan\<close>

text \<open>\<open>Reasoning::respond\<close>: calls of tools become a text.\<close>

definition calls_as_text :: "'w agent_env \<Rightarrow> tool_call list \<Rightarrow> string" where
  "calls_as_text ag tcs = ''[Calling tools: '' @ join '', '' (map (\<lambda>tc.
     [CHR 0x60] @ tc_name tc @ ''('' @ ae_enc ag (tc_arguments tc) @ '')'' @ [CHR 0x60]) tcs) @ '']''"

definition respond ::
  "'w worker_env \<Rightarrow> tool_definition list \<Rightarrow> 'w worker_state \<Rightarrow> 'w worker_state \<times> (llm_error, string) result" where
  "respond env tools st =
     (let ag = wv_agent env;
          (w', r) = ae_respond ag (wk_world st) None None (wk_messages st) tools
      in (wk_log We_model (st\<lparr>wk_world := w'\<rparr>),
          case r of Inl e \<Rightarrow> Inl e
          | Inr out \<Rightarrow> Inr (case ro_result out of Respond_text s \<Rightarrow> s | Respond_tools tcs _ \<Rightarrow> calls_as_text ag tcs)))"

definition plan_call :: "'w agent_env \<Rightarrow> uuid \<Rightarrow> nat \<Rightarrow> planned_action \<Rightarrow> tool_call" where
  "plan_call ag i n a = \<lparr>tc_id = ''plan_'' @ ae_show_uuid ag i @ ''_'' @ show_nat n,
     tc_name = pl_tool_name a, tc_arguments = pl_parameters a\<rparr>"

fun plan_steps ::
  "'w worker_env \<Rightarrow> uuid \<Rightarrow> nat \<Rightarrow> planned_action list \<Rightarrow> 'w worker_state \<Rightarrow> 'w worker_state \<times> worker_stop option" where
  "plan_steps env i n [] st = (st, None)"
| "plan_steps env i n (a # as) st =
     (case told_to_stop env i st of
        (st1, Some e) \<Rightarrow> (st1, Some e)
      | (st1, None) \<Rightarrow>
          plan_steps env i (n + 1) as (execute_and_process env i (plan_call (wv_agent env) i n a) st1))"

definition plan_check ::
  "'w worker_env \<Rightarrow> uuid \<Rightarrow> tool_definition list \<Rightarrow> 'w worker_state \<Rightarrow> 'w worker_state \<times> (agent_error, unit) result" where
  "plan_check env i tools st =
     (case respond env tools (wk_push (msg_user
         ''All planned actions have been executed. Is the job complete? If not, what else needs to be done?'') st) of
        (st1, Inl e) \<Rightarrow> (st1, Inl (Llm_failure e))
      | (st1, Inr said) \<Rightarrow>
         (let st2 = wk_push (msg_assistant said) (wk_log (We_said said) st1) in
          if llm_signals_completion said then with_mark (mark_completed i) env st2
          else with_mark (worker_mark_stuck i ''Plan completed but job incomplete - needs re-planning'') env st2))"

definition execute_plan ::
  "'w worker_env \<Rightarrow> uuid \<Rightarrow> tool_definition list \<Rightarrow> action_plan \<Rightarrow> 'w worker_state \<Rightarrow> 'w worker_state \<times> worker_stop" where
  "execute_plan env i tools p st =
     (case plan_steps env i 0 (pl_actions p) st of
        (st1, Some e) \<Rightarrow> (st1, e)
      | (st1, None) \<Rightarrow> (let (st2, r) = plan_check env i tools st1 in (st2, Stops_with r)))"

definition plan_message :: "action_plan \<Rightarrow> chat_message" where
  "plan_message p = msg_assistant (''I'' @ [CHR 0x27] @ ''ve created a plan to accomplish this goal: '' @ pl_goal p
     @ [CHR 0x0A, CHR 0x0A] @ ''Steps:'' @ [CHR 0x0A]
     @ join [CHR 0x0A] (map (\<lambda>(n, a). show_nat (n + 1) @ ''. '' @ pl_tool_name a @ '' - '' @ pl_reasoning a)
         (zip [0..<length (pl_actions p)] (pl_actions p))))"

definition execution_loop ::
  "'w worker_env \<Rightarrow> uuid \<Rightarrow> string \<Rightarrow> 'w worker_state \<Rightarrow> 'w worker_state \<times> worker_stop" where
  "execution_loop env i job_description st =
     (if wv_use_planning env then
        (let tools = ae_tool_defs (wv_agent env) (wk_world st) in
         case wv_plan env (wk_world st) (wk_messages st) tools job_description of
           (w', Inr p) \<Rightarrow> execute_plan env i tools p (wk_push (plan_message p) (wk_log We_model (st\<lparr>wk_world := w'\<rparr>)))
         | (w', Inl e) \<Rightarrow> selection_loop env i 0 (wk_log We_model (st\<lparr>wk_world := w'\<rparr>)))
      else selection_loop env i 0 st)"

section \<open>The task\<close>

definition worker_prompt :: "job_context \<Rightarrow> string" where
  "worker_prompt ctx = ''You are an autonomous agent working on a job.'' @ [CHR 0x0A, CHR 0x0A]
     @ ''Job: '' @ title ctx @ [CHR 0x0A] @ ''Description: '' @ description ctx @ [CHR 0x0A, CHR 0x0A]
     @ ''You have access to tools to complete this job. Plan your approach and execute tools as needed.'' @ [CHR 0x0A]
     @ ''You may request multiple tools at once if they can be executed in parallel.'' @ [CHR 0x0A]
     @ ''Report when the job is complete or if you encounter issues you cannot resolve.''"

definition worker_run :: "'w worker_env \<Rightarrow> uuid \<Rightarrow> 'w worker_state \<Rightarrow> 'w worker_state \<times> (agent_error, unit) result" where
  "worker_run env i st =
     (let (st0, m) = take_mail st in
      if m = None \<or> m = Some Msg_stop then (st0, Inr ())
      else case get_context i (js_manager (wk_jobs st0)) of
        Inl e \<Rightarrow> (st0, Inl (Job_failure e))
      | Inr ctx \<Rightarrow>
         (case execution_loop env i (description ctx)
             (st0\<lparr>wk_messages := [msg_system (worker_prompt ctx)]\<rparr>) of
            (st1, Stops_with (Inr _)) \<Rightarrow> (st1, Inr ())
          | (st1, Stops_with (Inl e)) \<Rightarrow> with_mark (mark_failed i (agent_error_text (wv_agent env) e)) env st1
          | (st1, Stops_late) \<Rightarrow> with_mark (worker_mark_stuck i ''Execution timeout'') env st1))"

text \<open>The spawned task; when it returns the scheduler's entry of the job is finished.\<close>

definition worker_task :: "'w worker_env \<Rightarrow> uuid \<Rightarrow> 'w worker_state \<Rightarrow> 'w worker_state" where
  "worker_task env i st =
     (let st1 = fst (worker_run env i st) in
      if has_worker i (wk_jobs st1)
      then st1\<lparr>wk_jobs := (wk_jobs st1)\<lparr>js_running := AList.update i True (js_running (wk_jobs st1))\<rparr>\<rparr>
      else st1)"

section \<open>A tool as a sub-task\<close>

definition execute_tool_task ::
  "'w worker_env \<Rightarrow> uuid \<Rightarrow> string \<Rightarrow> json \<Rightarrow> 'w worker_state \<Rightarrow> 'w worker_state \<times> (agent_error, json \<times> duration) result" where
  "execute_tool_task env i name params st =
     (let ag = wv_agent env in
      case ae_find_tool ag (wk_world st) name of
        None \<Rightarrow> (st, Inl (Tool_failure (Tool_not_found name)))
      | Some tool \<Rightarrow>
         (case get_context i (js_manager (wk_jobs st)) of
            Inl e \<Rightarrow> (st, Inl (Job_failure e))
          | Inr ctx \<Rightarrow>
             (if jstate ctx = Cancelled then (st, Inl (execution_failed name ''Job is cancelled''))
              else if approval_refused ag tool name params then (st, Inl (Tool_failure (Tool_auth_required name)))
              else case bad_parameters ag name params of
                Some e \<Rightarrow> (st, Inl e)
              | None \<Rightarrow>
                 (let t0 = ae_now ag (wk_world st); (w', out) = wv_execute env (wk_world st) ctx name params
                  in (wk_log (We_executed tool name params params) (st\<lparr>wk_world := w'\<rparr>),
                      case out of
                        Tool_late t \<Rightarrow> Inl (Tool_failure (Tool_timed_out name t))
                      | Tool_failed r \<Rightarrow> Inl (execution_failed name r)
                      | Tool_done j \<Rightarrow> Inr (j, elapsed_since t0 (ae_now ag w')))))))"

end
