(* ===== verification/Worker_Frame.thy ===== *)
theory Worker_Frame
  imports Worker
begin

text \<open>
  What a run of the worker leaves behind, for any relation between its states that its small steps
  keep: the locale \<open>worker_steps\<close> covers the use of tools, \<open>worker_relation\<close> the whole loop up to the
  mark it ends with. The properties interpret them.
\<close>

locale worker_steps =
  fixes R :: "'w worker_state \<Rightarrow> 'w worker_state \<Rightarrow> bool"
    and Q :: "worker_event \<Rightarrow> bool"
    and env :: "'w worker_env"
    and i :: uuid
  assumes refl: "R st st"
    and trans: "R a b \<Longrightarrow> R b c \<Longrightarrow> R a c"
    and world: "R st (st\<lparr>wk_world := w\<rparr>)"
    and log: "Q e \<Longrightarrow> R st (wk_log e st)"
    and push: "R st (wk_push m st)"
    and other: "R st (other_step i st o1)"
    and memory: "\<And>f :: job_memory \<Rightarrow> action_record \<times> job_memory. R st (st\<lparr>wk_jobs := (wk_jobs st)\<lparr>js_manager := snd (update_memory i f (js_manager (wk_jobs st)))\<rparr>\<rparr>)"
    and saves: "Q (We_saved j act)"
    and fails: "Q (We_failure n t)"
    and executes: "ae_find_tool (wv_agent env) w name = Some tool \<Longrightarrow>
      \<not> approval_refused (wv_agent env) tool name checked \<Longrightarrow> Q (We_executed tool name checked params)"
begin

lemma others: "R st (foldl (other_step i) st os)"
  by (induction os arbitrary: st) (auto intro: refl trans [OF other])

lemma meanwhile_R: "R st (meanwhile env i st)"
  by (auto simp: meanwhile_def split: prod.split intro: trans [OF world others])

lemma note_R: "R st (note_action i fresh now name params finish st)"
proof -
  let ?f = "\<lambda>m. let (a, m1) = jm_create_action fresh now name params m; a1 = finish a in (a1, jm_record_action a1 m1)"
  let ?r = "update_memory i ?f (js_manager (wk_jobs st))"
  let ?s = "st\<lparr>wk_jobs := (wk_jobs st)\<lparr>js_manager := snd ?r\<rparr>\<rparr>"
  have "R st ?s" by (rule memory)
  moreover have "R st (wk_log (We_saved i a) ?s)" for a by (rule trans [OF memory log [OF saves]])
  ultimately show ?thesis
    by (cases ?r; cases "fst ?r") (simp_all add: note_action_def Let_def)
qed

lemma run_tool_R:
  assumes "ae_find_tool (wv_agent env) w name = Some tool" "\<not> approval_refused (wv_agent env) tool name checked"
  shows "R st (fst (run_worker_tool env i tool ctx name checked params st))"
proof -
  have "R st (note_action i f n name params fin (meanwhile env i (wk_log (We_executed tool name checked params) (st\<lparr>wk_world := w2\<rparr>))))" for f n fin w2
    by (rule trans [OF world trans [OF log [OF executes [OF assms]] trans [OF meanwhile_R note_R]]])
  then show ?thesis by (simp add: run_worker_tool_def Let_def split: prod.split)
qed

lemma execute_R: "R st (fst (execute_tool_inner env i name params st))"
proof -
  have "R st (fst (run_worker_tool env i tool ctx name params p (st\<lparr>wk_world := w'\<rparr>)))"
    if "ae_find_tool (wv_agent env) (wk_world st) name = Some tool" "\<not> approval_refused (wv_agent env) tool name params"
    for tool ctx p w'
    by (rule trans [OF world run_tool_R [OF that]])
  then show ?thesis
    by (auto simp: execute_tool_inner_def Let_def refl world split: option.split sum.split prod.split hook_error.split)
qed

lemma process_R: "R st (process_tool_result env tc r st)"
  by (auto simp: process_tool_result_def Let_def split: sum.split intro: push trans [OF log [OF fails] push])

lemma step_R: "R st (execute_and_process env i tc st)"
proof -
  obtain s1 r where e: "execute_tool_inner env i (tc_name tc) (tc_arguments tc) st = (s1, r)"
    by (cases "execute_tool_inner env i (tc_name tc) (tc_arguments tc) st")
  have "R st s1" using execute_R [of st "tc_name tc" "tc_arguments tc"] e by simp
  then show ?thesis using e by (simp add: execute_and_process_def trans [OF _ process_R])
qed

lemma steps_R: "R st (foldl (\<lambda>s tc. execute_and_process env i tc s) st tcs)"
  by (induction tcs arbitrary: st) (auto intro: refl trans [OF step_R])

lemma parallel_R: "R st (fst (execute_tools_parallel env i tcs st))"
proof (induction tcs arbitrary: st)
  case (Cons tc tcs)
  obtain s1 r where e: "execute_tool_inner env i (tc_name tc) (tc_arguments tc) st = (s1, r)"
    by (cases "execute_tool_inner env i (tc_name tc) (tc_arguments tc) st")
  have "R st s1" using execute_R [of st "tc_name tc" "tc_arguments tc"] e by simp
  with Cons.IH [of s1] e show ?case by (auto split: prod.split intro: trans)
qed (simp add: refl)

lemma results_R: "R st (process_results env rs st)"
proof (induction rs arbitrary: st)
  case (Cons p rs)
  obtain tc r where p: "p = (tc, r)" by (cases p)
  show ?case using trans [OF process_R Cons.IH, of st tc r] p by simp
qed (simp add: refl)

lemma use_R: "R st (use_selections env i tcs st)"
proof -
  obtain s1 rs where e: "execute_tools_parallel env i tcs st = (s1, rs)"
    by (cases "execute_tools_parallel env i tcs st")
  have "R st s1" using parallel_R [of st tcs] e by simp
  then have "R st (process_results env (zip tcs rs) s1)" by (rule trans [OF _ results_R])
  with e show ?thesis by (simp add: use_selections_def step_R)
qed

end

text \<open>The mark a run may end with: a completion only after a text of the model that signals it.\<close>

definition end_mark ::
  "uuid \<Rightarrow> worker_event list \<Rightarrow> (instant \<Rightarrow> instant \<Rightarrow> job_system \<Rightarrow> job_system \<times> (job_error, unit) result) \<Rightarrow> bool" where
  "end_mark i es f \<longleftrightarrow> (\<exists>why. f = worker_mark_stuck i why)
     \<or> (f = mark_completed i \<and> (\<exists>said. We_said said \<in> set es \<and> llm_signals_completion said))"

text \<open>How the loop comes to its end: with an error or late, because it was stopped, or with a mark.\<close>

definition ends_by ::
  "('w worker_state \<Rightarrow> 'w worker_state \<Rightarrow> bool) \<Rightarrow> uuid \<Rightarrow> 'w worker_env \<Rightarrow> 'w worker_state \<Rightarrow> 'w worker_state \<Rightarrow> worker_stop
     \<Rightarrow> bool" where
  "ends_by R i env st st' e \<longleftrightarrow>
     (R st st' \<and> (e = Stops_late \<or> (\<exists>err. e = Stops_with (Inl err))))
     \<or> (\<exists>st0. R st st0 \<and> R st0 st' \<and> e = Stops_with (Inr ()) \<and> (Msg_stop \<in> set (wk_mail st0) \<or> job_cancelled i st0))
     \<or> (\<exists>st1 f. R st st1 \<and> end_mark i (wk_events st1) f \<and> with_mark f env st1 = (st', case e of Stops_with r \<Rightarrow> r | _ \<Rightarrow> Inr ())
         \<and> e \<noteq> Stops_late)"

lemma ends_late: "R st st' \<Longrightarrow> ends_by R i env st st' Stops_late"
  by (simp add: ends_by_def)

lemma ends_error: "R st st' \<Longrightarrow> ends_by R i env st st' (Stops_with (Inl err))"
  by (simp add: ends_by_def)

lemma ends_stopped:
  "R st st0 \<Longrightarrow> R st0 st' \<Longrightarrow> Msg_stop \<in> set (wk_mail st0) \<or> job_cancelled i st0 \<Longrightarrow>
   ends_by R i env st st' (Stops_with (Inr ()))"
  by (auto simp: ends_by_def)

lemma ends_mark:
  "R st st1 \<Longrightarrow> end_mark i (wk_events st1) f \<Longrightarrow> with_mark f env st1 = (st', r) \<Longrightarrow> ends_by R i env st st' (Stops_with r)"
  by (auto simp: ends_by_def)

locale worker_relation = worker_steps R Q env i
  for R :: "'w worker_state \<Rightarrow> 'w worker_state \<Rightarrow> bool" and Q env i +
  assumes messages: "R st (st\<lparr>wk_messages := ms\<rparr>)"
    and mail: "set mbox \<subseteq> set (wk_mail st) \<Longrightarrow> R st (st\<lparr>wk_mail := mbox\<rparr>)"
    and asks: "Q We_model"
    and says: "Q (We_said s)"
begin

lemma ends_later: "R a b \<Longrightarrow> ends_by R i env b c e \<Longrightarrow> ends_by R i env a c e"
proof -
  assume ab: "R a b" and e: "ends_by R i env b c e"
  have later: "R b x \<Longrightarrow> R a x" for x by (rule trans [OF ab])
  from e show ?thesis unfolding ends_by_def by (elim disjE exE conjE) (blast dest: later)+
qed

lemma take_mail_R: "R st (fst (take_mail st))"
  using mail [of "tl (wk_mail st)" st] by (cases "wk_mail st") (auto simp: take_mail_def refl)

lemma told_R: "told_to_stop env i st = (st', None) \<Longrightarrow> R st st'"
  using trans [OF meanwhile_R take_mail_R, of st]
  by (auto simp: told_to_stop_def Let_def split: prod.splits if_splits)

lemma told_ends:
  assumes t: "told_to_stop env i st = (st', Some e)"
  shows "ends_by R i env st st' e"
proof -
  let ?s0 = "meanwhile env i st"
  obtain s1 m where m: "take_mail ?s0 = (s1, m)" by (cases "take_mail ?s0")
  show ?thesis
  proof (cases "wv_expired env (wk_world ?s0)")
    case True
    with t show ?thesis by (auto simp: told_to_stop_def intro!: ends_late meanwhile_R)
  next
    case False
    with t m have e: "m = Some Msg_stop" "st' = s1" "e = Stops_with (Inr ())"
      by (auto simp: told_to_stop_def split: if_splits)
    have "Msg_stop \<in> set (wk_mail ?s0)" using m e by (auto simp: take_mail_def split: list.splits)
    moreover have "R ?s0 s1" using take_mail_R [of ?s0] m by simp
    ultimately show ?thesis using e by (auto intro: ends_stopped [where R = R, OF meanwhile_R])
  qed
qed

lemma model_R: "R st (wk_log We_model (st\<lparr>wk_world := w\<rparr>))"
  by (rule trans [OF world log [OF asks]])

lemma select_R: "R st (fst (select_tools env tools st))"
  by (auto simp: select_tools_def refl model_R split: prod.split)

text \<open>A round ends as the loop may end, or goes on related.\<close>

lemma text_end:
  assumes "take_text env i iteration said st = (st', e)"
  shows "case e of None \<Rightarrow> R st st' | Some x \<Rightarrow> ends_by R i env st st' x"
proof -
  let ?s0 = "wk_log (We_said said) st"
  have s0: "R st ?s0" by (rule log [OF says])
  show ?thesis
  proof (cases "llm_signals_completion said")
    case True
    then have "end_mark i (wk_events ?s0) (mark_completed i)" by (auto simp: end_mark_def wk_log_def)
    moreover obtain s1 r where "with_mark (mark_completed i) env ?s0 = (s1, r)"
      by (cases "with_mark (mark_completed i) env ?s0")
    ultimately show ?thesis using True assms ends_mark [where R = R, OF s0] by (auto simp: take_text_def)
  next
    case False
    have "R st (wk_push a ?s0)" "R st (wk_push b (wk_push a ?s0))" for a b
      by (rule trans [OF s0 push], rule trans [OF s0 trans [OF push push]])
    with False assms show ?thesis by (auto simp: take_text_def Let_def split: if_splits)
  qed
qed

lemma ask_end:
  assumes "ask_model env i iteration tools st = (st', e)"
  shows "case e of None \<Rightarrow> R st st' | Some x \<Rightarrow> ends_by R i env st st' x"
proof -
  obtain w' reply where r: "ae_respond (wv_agent env) (wk_world st) None None (wk_messages st) tools = (w', reply)"
    by (cases "ae_respond (wv_agent env) (wk_world st) None None (wk_messages st) tools")
  let ?s1 = "wk_log We_model (st\<lparr>wk_world := w'\<rparr>)"
  have s1: "R st ?s1" by (rule model_R)
  show ?thesis
  proof (cases reply)
    case (Inl err)
    with assms r s1 show ?thesis by (auto simp: ask_model_def intro: ends_error)
  next
    case (Inr out)
    show ?thesis
    proof (cases "ro_result out")
      case (Respond_text said)
      then have "take_text env i iteration said ?s1 = (st', e)" using assms r Inr by (simp add: ask_model_def)
      from text_end [OF this] s1 show ?thesis by (auto split: option.splits intro: trans ends_later)
    next
      case (Respond_tools tcs said)
      have "R st (foldl (\<lambda>s tc. execute_and_process env i tc s) (wk_push (msg_assistant_with_tool_calls said tcs) ?s1) tcs)"
        by (rule trans [OF s1 trans [OF push steps_R]])
      then show ?thesis using assms r Inr Respond_tools by (auto simp: ask_model_def)
    qed
  qed
qed

lemma round_end:
  assumes "worker_round env i iteration st = (st', e)"
  shows "case e of None \<Rightarrow> R st st' | Some x \<Rightarrow> ends_by R i env st st' x"
proof -
  let ?tools = "ae_tool_defs (wv_agent env) (wk_world st)"
  obtain s1 r where s: "select_tools env ?tools st = (s1, r)" by (cases "select_tools env ?tools st")
  have s1: "R st s1" using select_R [of st ?tools] s by simp
  show ?thesis
  proof (cases r)
    case (Inl err)
    with assms s s1 show ?thesis by (auto simp: worker_round_def intro: ends_error)
  next
    case (Inr tcs)
    show ?thesis
    proof (cases "tcs = []")
      case True
      then have "ask_model env i iteration ?tools s1 = (st', e)" using assms s Inr by (simp add: worker_round_def)
      from ask_end [OF this] s1 show ?thesis by (auto split: option.splits intro: trans ends_later)
    next
      case False
      with assms s Inr trans [OF s1 use_R] show ?thesis by (auto simp: worker_round_def)
    qed
  qed
qed

lemma stuck_end:
  assumes "R st st1"
  shows "case with_mark (worker_mark_stuck i why) env st1 of (st', r) \<Rightarrow> ends_by R i env st st' (Stops_with r)"
  using assms by (auto split: prod.split intro!: ends_mark simp: end_mark_def)

lemma loop_end: "selection_loop env i n st = (st', e) \<Longrightarrow> ends_by R i env st st' e"
proof (induction "WORKER_MAX_ITERATIONS - n" arbitrary: n st rule: less_induct)
  case less
  obtain s1 t where t: "told_to_stop env i st = (s1, t)" by (cases "told_to_stop env i st")
  show ?case
  proof (cases t)
    case (Some x)
    with less.prems t have "st' = s1" "e = x" by (simp_all add: selection_loop.simps [of env i n st])
    with told_ends t Some show ?thesis by blast
  next
    case None
    then have s1: "R st s1" using told_R t by blast
    show ?thesis
    proof (cases "job_cancelled i s1")
      case True
      with less.prems t None have "st' = s1" "e = Stops_with (Inr ())"
        by (simp_all add: selection_loop.simps [of env i n st])
      with s1 True show ?thesis by (auto intro: ends_stopped refl)
    next
      case go: False
      show ?thesis
      proof (cases "n + 1 > WORKER_MAX_ITERATIONS")
        case True
        then show ?thesis
          using less.prems t None go stuck_end [OF s1, of "''Maximum iterations exceeded''"]
          by (auto simp: selection_loop.simps [of env i n st] split: prod.splits)
      next
        case False
        obtain s2 x where r: "worker_round env i (n + 1) s1 = (s2, x)" by (cases "worker_round env i (n + 1) s1")
        show ?thesis
        proof (cases x)
          case (Some y)
          with less.prems t None go False r round_end [OF r] ends_later [OF s1] show ?thesis
            by (auto simp: selection_loop.simps [of env i n st])
        next
          case Go: None
          then have "selection_loop env i (n + 1) s2 = (st', e)"
            using less.prems t None go False r by (simp add: selection_loop.simps [of env i n st])
          with less.hyps [of "n + 1" s2] False have "ends_by R i env s2 st' e" by simp
          moreover have "R st s2" using round_end [OF r] Go trans [OF s1] by simp
          ultimately show ?thesis by (blast intro: ends_later)
        qed
      qed
    qed
  qed
qed

lemma steps_end:
  "plan_steps env i n as st = (st', e) \<Longrightarrow> case e of None \<Rightarrow> R st st' | Some x \<Rightarrow> ends_by R i env st st' x"
proof (induction as arbitrary: n st)
  case (Cons a as)
  obtain s1 t where t: "told_to_stop env i st = (s1, t)" by (cases "told_to_stop env i st")
  show ?case
  proof (cases t)
    case (Some x)
    with Cons.prems t told_ends show ?thesis by auto
  next
    case None
    let ?s2 = "execute_and_process env i (plan_call (wv_agent env) i n a) s1"
    have "R st ?s2" using told_R t None by (blast intro: trans step_R)
    moreover have "plan_steps env i (n + 1) as ?s2 = (st', e)" using Cons.prems t None by simp
    note Cons.IH [OF this]
    ultimately show ?thesis by (auto split: option.splits intro: trans ends_later)
  qed
qed (auto simp: refl)

lemma check_end:
  assumes "plan_check env i tools st = (st', r)"
  shows "ends_by R i env st st' (Stops_with r)"
proof -
  obtain s1 a where a: "respond env tools (wk_push (msg_user
      ''All planned actions have been executed. Is the job complete? If not, what else needs to be done?'') st) = (s1, a)"
    by (cases "respond env tools (wk_push (msg_user
      ''All planned actions have been executed. Is the job complete? If not, what else needs to be done?'') st)")
  have s1: "R st s1" using a by (auto simp: respond_def Let_def split: prod.splits intro: trans [OF push model_R])
  show ?thesis
  proof (cases a)
    case (Inl err)
    with assms a s1 show ?thesis by (auto simp: plan_check_def intro: ends_error)
  next
    case (Inr said)
    let ?s2 = "wk_push (msg_assistant said) (wk_log (We_said said) s1)"
    have s2: "R st ?s2" by (rule trans [OF s1 trans [OF log [OF says] push]])
    show ?thesis
    proof (cases "llm_signals_completion said")
      case True
      then have "end_mark i (wk_events ?s2) (mark_completed i)" by (auto simp: end_mark_def wk_log_def wk_push_def)
      with True assms a Inr s2 show ?thesis by (auto simp: plan_check_def intro: ends_mark)
    next
      case False
      with assms a Inr stuck_end [OF s2, of "''Plan completed but job incomplete - needs re-planning''"] show ?thesis
        by (auto simp: plan_check_def)
    qed
  qed
qed

lemma plan_end:
  assumes "execute_plan env i tools p st = (st', e)"
  shows "ends_by R i env st st' e"
proof -
  obtain s1 x where x: "plan_steps env i 0 (pl_actions p) st = (s1, x)" by (cases "plan_steps env i 0 (pl_actions p) st")
  show ?thesis
  proof (cases x)
    case (Some y)
    with assms x steps_end [OF x] show ?thesis by (auto simp: execute_plan_def)
  next
    case None
    with assms x steps_end [OF x] show ?thesis
      by (auto simp: execute_plan_def split: prod.splits intro: ends_later check_end)
  qed
qed

lemma execution_end:
  assumes "execution_loop env i d st = (st', e)"
  shows "ends_by R i env st st' e"
proof (cases "wv_use_planning env")
  case True
  let ?tools = "ae_tool_defs (wv_agent env) (wk_world st)"
  obtain w' r where r: "wv_plan env (wk_world st) (wk_messages st) ?tools d = (w', r)"
    by (cases "wv_plan env (wk_world st) (wk_messages st) ?tools d")
  let ?s1 = "wk_log We_model (st\<lparr>wk_world := w'\<rparr>)"
  show ?thesis
  proof (cases r)
    case (Inl err)
    with True r assms have "selection_loop env i 0 ?s1 = (st', e)" by (simp add: execution_loop_def Let_def)
    from loop_end [OF this] show ?thesis by (rule ends_later [OF model_R])
  next
    case (Inr p)
    with True r assms have "execute_plan env i ?tools p (wk_push (plan_message p) ?s1) = (st', e)"
      by (simp add: execution_loop_def Let_def)
    from plan_end [OF this] show ?thesis by (rule ends_later [OF trans [OF model_R push]])
  qed
next
  case False
  with assms loop_end show ?thesis by (simp add: execution_loop_def)
qed

end

end
