(* ===== verification/Worker_Props.thy ===== *)
theory Worker_Props
  imports Worker_Frame
begin

text \<open>
  What holds of every run of the worker: it executes only what may run without a human, it asks the
  model a bounded number of times, it never leaves its job in progress, and it completes the job only
  on the word of the model.
\<close>

section \<open>Events of a run\<close>

definition logs :: "(worker_event \<Rightarrow> bool) \<Rightarrow> 'w worker_state \<Rightarrow> 'w worker_state \<Rightarrow> bool" where
  "logs P st st' \<longleftrightarrow> (\<exists>new. wk_events st' = wk_events st @ new \<and> list_all P new)"

lemma logs_refl [simp]: "logs P st st"
  by (simp add: logs_def)

lemma logs_trans: "logs P a b \<Longrightarrow> logs P b c \<Longrightarrow> logs P a c"
  by (force simp: logs_def)

lemma logs_same: "wk_events st' = wk_events st \<Longrightarrow> logs P st st'"
  by (simp add: logs_def)

lemma logs_log: "P e \<Longrightarrow> logs P st (wk_log e st)"
  by (simp add: logs_def wk_log_def)

lemma other_events [simp]: "wk_events (other_step i st o1) = wk_events st"
  by (simp add: other_step_def Let_def split: other_task.split)

text \<open>An execution without a human: the tool needs no approval, or a hook vouches for it and the
  parameters the model chose do not call for one.\<close>

definition runs_freely :: "'w agent_env \<Rightarrow> worker_event \<Rightarrow> bool" where
  "runs_freely ag e = (case e of
     We_executed tool name checked params \<Rightarrow> ti_requires_approval tool \<longrightarrow>
       is_tool_trusted name (ae_hooks ag) \<and> \<not> ti_requires_approval_for tool checked
   | _ \<Rightarrow> True)"

interpretation approved: worker_relation "logs (runs_freely (wv_agent env))" "runs_freely (wv_agent env)" env i for env i
  by unfold_locales (auto intro: logs_trans logs_same logs_log simp: wk_push_def, auto simp: runs_freely_def approval_refused_def)

lemma mark_events: "with_mark f env st = (st', r) \<Longrightarrow> wk_events st' = wk_events st"
  by (auto simp: with_mark_def Let_def split: prod.splits)

lemma logs_ends:
  assumes "ends_by (logs P) i env st st' e"
  shows "logs P st st'"
  using assms unfolding ends_by_def
  by (elim disjE exE conjE) (auto dest: mark_events intro: logs_trans logs_same)

lemma take_mail_events [simp]: "wk_events (fst (take_mail st)) = wk_events st"
  by (simp add: take_mail_def split: list.split)

text \<open>A whole run, for any predicate of its events.\<close>

lemma run_logs:
  assumes loop: "\<And>d s s' e. execution_loop env i d s = (s', e) \<Longrightarrow> logs P s s'"
  shows "logs P st (worker_task env i st)"
proof -
  obtain s0 m where m: "take_mail st = (s0, m)" by (cases "take_mail st")
  have s0: "wk_events s0 = wk_events st" using take_mail_events [of st] m by simp
  have "logs P st (fst (worker_run env i st))"
  proof (cases "m = None \<or> m = Some Msg_stop \<or> isl (get_context i (js_manager (wk_jobs s0)))")
    case True
    with m s0 show ?thesis by (auto simp: worker_run_def isl_def intro!: logs_same)
  next
    case False
    then obtain ctx where c: "get_context i (js_manager (wk_jobs s0)) = Inr ctx" by (cases "get_context i (js_manager (wk_jobs s0))") auto
    let ?s1 = "s0\<lparr>wk_messages := [msg_system (worker_prompt ctx)]\<rparr>"
    obtain s2 e where e: "execution_loop env i (description ctx) ?s1 = (s2, e)"
      by (cases "execution_loop env i (description ctx) ?s1")
    have "logs P st s2" using loop [OF e] s0 by (simp add: logs_def)
    moreover have "wk_events (fst (with_mark f env s2)) = wk_events s2" for f
      by (cases "with_mark f env s2") (auto dest: mark_events)
    ultimately show ?thesis using False m c e
      by (auto simp: worker_run_def split: worker_stop.split sum.split intro: logs_trans logs_same)
  qed
  then show ?thesis by (simp add: worker_task_def Let_def logs_def)
qed

text \<open>C6: In every run of a worker a tool that requires approval is executed only if a hook vouches for it
  by name and the parameters the model chose do not themselves call for approval.\<close>
theorem worker_respects_approval:
  assumes "wk_events st = []" "We_executed tool name checked params \<in> set (wk_events (worker_task env i st))"
    "ti_requires_approval tool"
  shows "is_tool_trusted name (ae_hooks (wv_agent env)) \<and> \<not> ti_requires_approval_for tool checked"
proof -
  have "logs (runs_freely (wv_agent env)) st (worker_task env i st)"
    by (rule run_logs) (rule logs_ends [OF approved.execution_end])
  with assms show ?thesis by (auto simp: logs_def list_all_iff runs_freely_def split: worker_event.splits)
qed

section \<open>The number of model calls\<close>

definition asked :: "'w worker_state \<Rightarrow> nat" where
  "asked st = length (filter (\<lambda>e. e = We_model) (wk_events st))"

definition same_asked :: "'w worker_state \<Rightarrow> 'w worker_state \<Rightarrow> bool" where
  "same_asked st st' \<longleftrightarrow> asked st' = asked st"

interpretation silent: worker_steps same_asked "\<lambda>e. e \<noteq> We_model" env i for env i
  by unfold_locales (auto simp: same_asked_def asked_def wk_log_def wk_push_def)

lemma asked_simps [simp]:
  "asked (execute_and_process env i tc st) = asked st"
  "asked (use_selections env i tcs st) = asked st"
  "asked (foldl (\<lambda>s tc. execute_and_process env i tc s) st tcs) = asked st"
  "asked (meanwhile env i st) = asked st"
  "asked (fst (take_mail st)) = asked st"
  "asked (wk_push m st) = asked st"
  "asked (st\<lparr>wk_world := w\<rparr>) = asked st"
  "asked (st\<lparr>wk_messages := ms\<rparr>) = asked st"
  "asked (st\<lparr>wk_jobs := s\<rparr>) = asked st"
  using silent.step_R [of st env i tc] silent.use_R [of st env i tcs] silent.steps_R [of st env i tcs]
    silent.meanwhile_R [of st env i]
  by (simp_all add: same_asked_def) (simp_all add: asked_def wk_push_def)

lemma asked_log [simp]: "asked (wk_log e st) = asked st + (if e = We_model then 1 else 0)"
  by (simp add: asked_def wk_log_def)

lemma asked_mark [simp]: "asked (fst (with_mark f env st)) = asked st"
  by (cases "with_mark f env st") (auto simp: asked_def dest: mark_events)

lemma asked_told [simp]: "asked (fst (told_to_stop env i st)) = asked st"
proof -
  have "asked s1 = asked s0" if "take_mail s0 = (s1, m)" for s0 s1 :: "'a worker_state" and m
    using asked_simps(5) [of s0] that by simp
  then show ?thesis by (auto simp: told_to_stop_def Let_def split: prod.split)
qed

lemma asked_text [simp]: "asked (fst (take_text env i n said st)) = asked st"
proof -
  have "asked s1 = asked st" if "with_mark (mark_completed i) env (wk_log (We_said said) st) = (s1, r)" for s1 r
    using asked_mark [of "mark_completed i" env "wk_log (We_said said) st"] that by simp
  then show ?thesis by (auto simp: take_text_def Let_def split: prod.split)
qed

lemma asked_ask: "asked (fst (ask_model env i n tools st)) = asked st + 1"
  by (auto simp: ask_model_def Let_def split: prod.split sum.split respond_result.split)

lemma asked_round: "asked (fst (worker_round env i n st)) \<le> asked st + 2"
proof -
  let ?tools = "ae_tool_defs (wv_agent env) (wk_world st)"
  obtain s1 r where s: "select_tools env ?tools st = (s1, r)" by (cases "select_tools env ?tools st")
  have "asked s1 \<le> asked st + 1" using s by (auto simp: select_tools_def split: if_splits prod.splits)
  with s show ?thesis by (auto simp: worker_round_def asked_ask split: sum.split)
qed

lemma asked_loop: "n \<le> WORKER_MAX_ITERATIONS \<Longrightarrow>
   asked (fst (selection_loop env i n st)) \<le> asked st + 2 * (WORKER_MAX_ITERATIONS - n)"
proof (induction "WORKER_MAX_ITERATIONS - n" arbitrary: n st rule: less_induct)
  case less
  obtain s1 t where t: "told_to_stop env i st = (s1, t)" by (cases "told_to_stop env i st")
  have s1: "asked s1 = asked st" using asked_told [of env i st] t by simp
  show ?case
  proof (cases "t \<noteq> None \<or> job_cancelled i s1 \<or> n + 1 > WORKER_MAX_ITERATIONS")
    case True
    have "asked s2 = asked s1" if "with_mark f env s1 = (s2, r)" for f s2 r
      using asked_mark [of f env s1] that by simp
    with True t s1 show ?thesis by (auto simp: selection_loop.simps [of env i n st] Let_def split: option.split prod.split)
  next
    case False
    obtain s2 x where r: "worker_round env i (n + 1) s1 = (s2, x)" by (cases "worker_round env i (n + 1) s1")
    have s2: "asked s2 \<le> asked s1 + 2" using asked_round [of env i "n + 1" s1] r by simp
    show ?thesis
    proof (cases x)
      case (Some y)
      with False t r s1 s2 show ?thesis by (auto simp: selection_loop.simps [of env i n st])
    next
      case None
      with False t r have "selection_loop env i n st = selection_loop env i (n + 1) s2"
        by (simp add: selection_loop.simps [of env i n st])
      have "WORKER_MAX_ITERATIONS - (n + 1) < WORKER_MAX_ITERATIONS - n" using False by linarith
      from less.hyps [OF this, of s2] False have
        "asked (fst (selection_loop env i (n + 1) s2)) \<le> asked s2 + 2 * (WORKER_MAX_ITERATIONS - (n + 1))" by linarith
      moreover have "asked s2 + 2 * (WORKER_MAX_ITERATIONS - (n + 1)) \<le> asked st + 2 * (WORKER_MAX_ITERATIONS - n)"
        using s1 s2 False by linarith
      ultimately show ?thesis unfolding \<open>selection_loop env i n st = selection_loop env i (n + 1) s2\<close> by (rule order.trans)
    qed
  qed
qed

lemma asked_steps: "asked (fst (plan_steps env i n as st)) = asked st"
proof (induction as arbitrary: n st)
  case (Cons a as)
  obtain s1 t where t: "told_to_stop env i st = (s1, t)" by (cases "told_to_stop env i st")
  have "asked s1 = asked st" using asked_told [of env i st] t by simp
  with t Cons.IH show ?case by (cases t) simp_all
qed simp

lemma asked_check: "asked (fst (plan_check env i tools st)) = asked st + 1"
proof -
  have "asked s1 = asked st + 1" if "respond env tools (wk_push m st) = (s1, a)" for m s1 a
    using that by (auto simp: respond_def Let_def split: prod.splits)
  then show ?thesis by (auto simp: plan_check_def Let_def split: prod.split sum.split)
qed

lemma asked_plan: "asked (fst (execute_plan env i tools p st)) \<le> asked st + 1"
proof -
  obtain s1 x where x: "plan_steps env i 0 (pl_actions p) st = (s1, x)" by (cases "plan_steps env i 0 (pl_actions p) st")
  have "asked s1 = asked st" using asked_steps [of env i 0 "pl_actions p" st] x by simp
  moreover obtain s2 r where "plan_check env i tools s1 = (s2, r)" by (cases "plan_check env i tools s1")
  moreover from this have "asked s2 = asked s1 + 1" using asked_check [of env i tools s1] by simp
  ultimately show ?thesis using x by (auto simp: execute_plan_def split: option.split)
qed

lemma asked_execution: "asked (fst (execution_loop env i d st)) \<le> asked st + 101"
proof -
  have l: "asked (fst (selection_loop env i 0 s)) \<le> asked s + 100" for s
    using asked_loop [of 0 env i s] by (simp add: WORKER_MAX_ITERATIONS_def)
  let ?r = "wv_plan env (wk_world st) (wk_messages st) (ae_tool_defs (wv_agent env) (wk_world st)) d"
  have "asked (fst (execute_plan env i tools p (wk_push m (wk_log We_model (st\<lparr>wk_world := w\<rparr>))))) \<le> asked st + 101" for tools p m w
    using asked_plan [of env i tools p "wk_push m (wk_log We_model (st\<lparr>wk_world := w\<rparr>))"] by simp
  moreover have "asked (fst (selection_loop env i 0 (wk_log We_model (st\<lparr>wk_world := w\<rparr>)))) \<le> asked st + 101" for w
    using l [of "wk_log We_model (st\<lparr>wk_world := w\<rparr>)"] by simp
  ultimately show ?thesis using l [of st]
    by (auto simp: execution_loop_def Let_def split: prod.split sum.split intro: order.trans)
qed

text \<open>A run asks the model at most 101 times: for a plan, and twice in each of the 50 rounds.\<close>
theorem worker_asks_bounded: "asked (worker_task env i st) \<le> asked st + 101"
proof -
  obtain s0 m where m: "take_mail st = (s0, m)" by (cases "take_mail st")
  have s0: "asked s0 = asked st" using asked_simps(5) [of st] m by simp
  have x: "asked s2 \<le> asked st + 101" if "execution_loop env i d (s0\<lparr>wk_messages := ms\<rparr>) = (s2, e)" for d ms s2 e
    using asked_execution [of env i d "s0\<lparr>wk_messages := ms\<rparr>"] that s0 by simp
  have "asked (fst (worker_run env i st)) \<le> asked st + 101"
    using m s0 by (auto simp: worker_run_def split: sum.split prod.split worker_stop.split dest: x)
  then show ?thesis by (simp add: worker_task_def Let_def)
qed

end
