(* ===== verification/Worker_Jobs.thy ===== *)
theory Worker_Jobs
  imports Worker_Frame
begin

text \<open>
  The worker and the job system: a run that starts on a job in progress leaves the system consistent
  and the job settled, whatever the other tasks do meanwhile.
\<close>

section \<open>While the worker runs\<close>

abbreviation job_state_of :: "uuid \<Rightarrow> 'w worker_state \<Rightarrow> job_state option" where
  "job_state_of i st \<equiv> state_of i (js_manager (wk_jobs st))"

text \<open>The job is in progress or cancelled, and a stop message means the latter.\<close>

definition on_duty :: "uuid \<Rightarrow> 'w worker_state \<Rightarrow> bool" where
  "on_duty i st \<longleftrightarrow> system_inv (wk_jobs st) \<and> job_state_of i st \<in> {Some InProgress, Some Cancelled}
     \<and> (Msg_stop \<in> set (wk_mail st) \<longrightarrow> job_state_of i st = Some Cancelled)"

definition stays_on_duty :: "uuid \<Rightarrow> 'w worker_state \<Rightarrow> 'w worker_state \<Rightarrow> bool" where
  "stays_on_duty i st st' \<longleftrightarrow> (on_duty i st \<longrightarrow> on_duty i st'
     \<and> (job_state_of i st = Some Cancelled \<longrightarrow> job_state_of i st' = Some Cancelled))"

lemma has_worker_iff: "system_inv s \<Longrightarrow> has_worker i s \<longleftrightarrow> state_of i (js_manager s) = Some InProgress"
  by (simp add: system_inv_def has_worker_def)

lemma stop_state:
  "state_of j (js_manager (fst (stop_job i t1 t2 s))) =
     (if map_of (js_running s) i \<noteq> None \<and> j = i \<and> may_become i Cancelled (js_manager s) then Some Cancelled
      else state_of j (js_manager s))"
proof -
  let ?r = "update_context i (\<lambda>c. transition_to c Cancelled (Some ''Stopped by scheduler'') t1 t2) (js_manager s)"
  obtain x m where r: "?r = (x, m)" by (cases ?r)
  have "state_of j m = (if j = i \<and> may_become i Cancelled (js_manager s) then Some Cancelled else state_of j (js_manager s))"
    using state_of_transition [of j i Cancelled "Some ''Stopped by scheduler''" t1 t2 "js_manager s"] r by simp
  with r show ?thesis by (auto simp: stop_job_def Let_def split: sum.split)
qed

text \<open>An event of another task leaves a job that is in progress or cancelled in its state, or cancels it.\<close>

lemma stop_all_state:
  "state_of i (js_manager s) \<in> {Some InProgress, Some Cancelled} \<Longrightarrow>
   state_of i (js_manager (foldl (\<lambda>s j. fst (stop_job j t1 t2 s)) s js)) \<in> {state_of i (js_manager s), Some Cancelled}"
proof (induction js arbitrary: s)
  case (Cons j js)
  have "state_of i (js_manager (fst (stop_job j t1 t2 s))) \<in> {state_of i (js_manager s), Some Cancelled}"
    by (auto simp: stop_state)
  with Cons.IH [of "fst (stop_job j t1 t2 s)"] Cons.prems show ?case by auto
qed simp

lemma create_state:
  "state_of i (js_manager s) \<noteq> None \<Longrightarrow>
   state_of i (js_manager (system_step s (Je_create j now u t d))) = state_of i (js_manager s)"
  by (auto simp: state_of_def create_job_for_user_def create_context_def create_memory_def update_conv'
      split: prod.split sum.split)

lemma schedule_state:
  "state_of i (js_manager s) \<in> {Some InProgress, Some Cancelled} \<Longrightarrow>
   state_of i (js_manager (fst (schedule j t1 t2 s))) = state_of i (js_manager s)"
proof -
  assume a: "state_of i (js_manager s) \<in> {Some InProgress, Some Cancelled}"
  let ?r = "change_state j InProgress ''Scheduled for execution'' t1 t2 (js_manager s)"
  obtain x m where r: "?r = (x, m)" by (cases ?r)
  have "state_of i m = state_of i (js_manager s)"
    using change_state_state [of i j InProgress "''Scheduled for execution''" t1 t2 "js_manager s"] r a
    by (auto simp: may_become_def split: if_splits)
  with r show ?thesis by (auto simp: schedule_def split: sum.split)
qed

lemma worker_end_other:
  assumes "j \<noteq> i"
  shows "state_of i (js_manager (worker_ends j e t1 t2 s)) = state_of i (js_manager s)"
  using assms by (cases e) (simp_all add: worker_ends_def Let_def change_state_state)

lemma foreign_state:
  assumes "state_of i (js_manager s) \<in> {Some InProgress, Some Cancelled}" "foreign_event i e"
  shows "state_of i (js_manager (system_step s e)) \<in> {state_of i (js_manager s), Some Cancelled}"
proof (cases e)
  case (Je_stop_all t1 t2)
  with stop_all_state [OF assms(1)] show ?thesis by (simp add: stop_all_def)
next
  case (Je_create j now u t d)
  have "state_of i (js_manager s) \<noteq> None" using assms(1) by auto
  from create_state [OF this] Je_create show ?thesis by simp
qed (use assms in \<open>auto simp: schedule_state stop_state worker_end_other foreign_event_def reap_job_def
    cleanup_finished_def spawn_subtask_def split: task.split\<close>)

lemma other_on_duty: "stays_on_duty i st (other_step i st o1)"
proof (cases o1)
  case (Other_job e)
  show ?thesis
  proof (cases "foreign_event i e \<and> on_duty i st")
    case True
    then have d: "on_duty i st" by simp
    let ?s = "system_step (wk_jobs st) e"
    have inv: "system_inv ?s" using d by (simp add: on_duty_def system_step_inv)
    have "state_of i (js_manager ?s) \<in> {job_state_of i st, Some Cancelled}"
      using d True by (intro foreign_state) (auto simp: on_duty_def)
    with d inv has_worker_iff [OF inv, of i] True show ?thesis
      by (auto simp: other_step_def Other_job stays_on_duty_def on_duty_def Let_def has_worker_iff)
  qed (auto simp: other_step_def Other_job stays_on_duty_def)
qed (auto simp: other_step_def stays_on_duty_def on_duty_def)

lemma state_of_memory [simp]: "state_of j (snd (update_memory i f m)) = state_of j m"
  by (simp add: state_of_def update_memory_def split: option.split)

lemma system_inv_memory: "system_inv s \<Longrightarrow> system_inv (s\<lparr>js_manager := snd (update_memory i f (js_manager s))\<rparr>)"
  by (simp add: system_inv_def update_memory_inv)

interpretation duty: worker_relation "stays_on_duty i" "\<lambda>_. True" env i for env i
  by unfold_locales
    (auto simp: other_on_duty, auto simp: stays_on_duty_def on_duty_def wk_log_def wk_push_def system_inv_memory)

section \<open>The end of a run\<close>

text \<open>Everything but the entry of the job itself is as the scheduler expects it.\<close>

definition rest_consistent :: "uuid \<Rightarrow> job_system \<Rightarrow> bool" where
  "rest_consistent i s \<longleftrightarrow> manager_inv (js_manager s) \<and> dkeys (js_running s)
     \<and> length (js_running s) \<le> js_max_parallel s
     \<and> (\<forall>j. j \<noteq> i \<longrightarrow> (map_of (js_running s) j = Some False \<longleftrightarrow> state_of j (js_manager s) = Some InProgress))"

lemma rest_of_inv: "system_inv s \<Longrightarrow> rest_consistent i s"
  by (simp add: system_inv_def rest_consistent_def)

text \<open>The marks of a worker settle a job: afterwards it is not in progress.\<close>

definition closing_mark ::
  "uuid \<Rightarrow> job_state \<Rightarrow> (instant \<Rightarrow> instant \<Rightarrow> job_system \<Rightarrow> job_system \<times> (job_error, unit) result) \<Rightarrow> bool" where
  "closing_mark i new f \<longleftrightarrow> new \<in> {Completed, Failed, Stuck}
     \<and> (\<forall>t1 t2 s. \<exists>why. js_manager (fst (f t1 t2 s)) = snd (change_state i new why t1 t2 (js_manager s))
          \<and> snd (f t1 t2 s) = fst (change_state i new why t1 t2 (js_manager s))
          \<and> js_running (fst (f t1 t2 s)) = js_running s \<and> js_max_parallel (fst (f t1 t2 s)) = js_max_parallel s)"

lemma mark_max [simp]:
  "js_max_parallel (fst (mark_completed i t1 t2 s)) = js_max_parallel s"
  "js_max_parallel (fst (mark_failed i why t1 t2 s)) = js_max_parallel s"
  "js_max_parallel (fst (worker_mark_stuck i why t1 t2 s)) = js_max_parallel s"
  by (auto simp: mark_completed_def mark_failed_def worker_mark_stuck_def split: prod.split sum.split)

lemma mark_result [simp]:
  "snd (mark_completed i t1 t2 s) = fst (change_state i Completed ''Job completed successfully'' t1 t2 (js_manager s))"
  "snd (mark_failed i why t1 t2 s) = fst (change_state i Failed why t1 t2 (js_manager s))"
  "snd (worker_mark_stuck i why t1 t2 s) = fst (change_state i Stuck why t1 t2 (js_manager s))"
  by (auto simp: mark_completed_def mark_failed_def worker_mark_stuck_def stuck_change split: prod.split sum.split)

lemma closing_marks:
  "closing_mark i Completed (mark_completed i)"
  "closing_mark i Failed (mark_failed i why)"
  "closing_mark i Stuck (worker_mark_stuck i why)"
  by (auto simp: closing_mark_def)

lemma mark_settles:
  assumes "closing_mark i new f" "with_mark f env st = (st', r)" "rest_consistent i (wk_jobs st)"
  shows "rest_consistent i (wk_jobs st')" "job_state_of i st' \<noteq> Some InProgress"
    "job_state_of i st' = (if r = Inr () then Some new else job_state_of i st)"
proof -
  let ?t = "ae_now (wv_agent env) (wk_world st)" and ?m = "js_manager (wk_jobs st)"
  obtain why where w: "js_manager (fst (f ?t ?t (wk_jobs st))) = snd (change_state i new why ?t ?t ?m)"
    "snd (f ?t ?t (wk_jobs st)) = fst (change_state i new why ?t ?t ?m)"
    "js_running (fst (f ?t ?t (wk_jobs st))) = js_running (wk_jobs st)"
    "js_max_parallel (fst (f ?t ?t (wk_jobs st))) = js_max_parallel (wk_jobs st)"
    "new \<in> {Completed, Failed, Stuck}"
    using assms(1) unfolding closing_mark_def by blast
  have st': "wk_jobs st' = fst (f ?t ?t (wk_jobs st))"
    and r: "r = Inr () \<longleftrightarrow> snd (f ?t ?t (wk_jobs st)) = Inr ()"
    using assms(2) by (auto simp: with_mark_def Let_def split: prod.splits sum.splits)
  have s: "state_of j (js_manager (wk_jobs st')) = (if j = i \<and> may_become i new ?m then Some new else state_of j ?m)" for j
    by (simp add: st' w(1) change_state_state)
  show "rest_consistent i (wk_jobs st')"
    using assms(3) s by (simp add: rest_consistent_def st' w(3,4)) (simp add: w(1) change_state_inv change_state_state)
  show "job_state_of i st' \<noteq> Some InProgress"
    using s [of i] w(5) by (auto simp: may_become_def)
  show "job_state_of i st' = (if r = Inr () then Some new else job_state_of i st)"
    using s [of i] by (auto simp: r w(2) change_state_ok)
qed

lemma end_mark_closing: "end_mark i es f \<Longrightarrow> \<exists>new. closing_mark i new f \<and>
   (new = Completed \<longrightarrow> (\<exists>said. We_said said \<in> set es \<and> llm_signals_completion said))"
  unfolding end_mark_def using closing_marks by blast

definition settled :: "uuid \<Rightarrow> 'w worker_state \<Rightarrow> bool" where
  "settled i st \<longleftrightarrow> rest_consistent i (wk_jobs st) \<and> job_state_of i st \<noteq> Some InProgress
     \<and> (job_state_of i st = Some Completed \<longrightarrow>
          (\<exists>said. We_said said \<in> set (wk_events st) \<and> llm_signals_completion said))"

lemma mark_keeps_events: "with_mark f env st = (st', r) \<Longrightarrow> wk_events st' = wk_events st"
  by (auto simp: with_mark_def Let_def split: prod.splits)

text \<open>A failure or stuck mark settles a job that is on duty or settled already.\<close>

lemma last_mark:
  assumes "on_duty i st \<or> settled i st" "closing_mark i new f" "new \<noteq> Completed" "with_mark f env st = (st', r)"
  shows "settled i st'"
proof -
  have rest: "rest_consistent i (wk_jobs st)"
    using assms(1) by (auto simp: on_duty_def settled_def rest_of_inv)
  from assms(1) have "job_state_of i st = Some Completed \<longrightarrow>
      (\<exists>said. We_said said \<in> set (wk_events st) \<and> llm_signals_completion said)"
    by (auto simp: on_duty_def settled_def)
  with mark_settles [OF assms(2,4) rest] assms(3) mark_keeps_events [OF assms(4)] show ?thesis
    by (auto simp: settled_def split: if_splits)
qed

lemma loop_settles:
  assumes "execution_loop env i d st = (st', e)" "on_duty i st"
  shows "case e of Stops_with (Inr _) \<Rightarrow> settled i st' | _ \<Rightarrow> on_duty i st' \<or> settled i st'"
proof -
  have e: "ends_by (stays_on_duty i) i env st st' e" by (rule duty.execution_end [OF assms(1)])
  have d: "on_duty i x" if "stays_on_duty i st x" for x using that assms(2) by (simp add: stays_on_duty_def)
  from e show ?thesis unfolding ends_by_def
  proof (elim disjE)
    assume "stays_on_duty i st st' \<and> (e = Stops_late \<or> (\<exists>err. e = Stops_with (Inl err)))"
    then show ?thesis using d by auto
  next
    assume "\<exists>st0. stays_on_duty i st st0 \<and> stays_on_duty i st0 st' \<and> e = Stops_with (Inr ())
      \<and> (Msg_stop \<in> set (wk_mail st0) \<or> job_cancelled i st0)"
    then obtain st0 where x: "stays_on_duty i st st0" "stays_on_duty i st0 st'" "e = Stops_with (Inr ())"
      "Msg_stop \<in> set (wk_mail st0) \<or> job_cancelled i st0" by blast
    have s0: "on_duty i st0" by (rule d [OF x(1)])
    then have "job_state_of i st0 = Some Cancelled"
      using x(4) by (auto simp: on_duty_def job_cancelled_def get_context_def state_of_def split: option.splits)
    with s0 x(2) have "on_duty i st'" "job_state_of i st' = Some Cancelled" by (simp_all add: stays_on_duty_def)
    with x(3) show ?thesis by (simp add: settled_def on_duty_def rest_of_inv)
  next
    assume "\<exists>st1 f. stays_on_duty i st st1 \<and> end_mark i (wk_events st1) f
      \<and> with_mark f env st1 = (st', case e of Stops_with r \<Rightarrow> r | _ \<Rightarrow> Inr ()) \<and> e \<noteq> Stops_late"
    then obtain st1 f where y: "stays_on_duty i st st1" "end_mark i (wk_events st1) f"
      "with_mark f env st1 = (st', case e of Stops_with r \<Rightarrow> r | _ \<Rightarrow> Inr ())" "e \<noteq> Stops_late" by blast
    obtain new where c: "closing_mark i new f"
      "new = Completed \<longrightarrow> (\<exists>said. We_said said \<in> set (wk_events st1) \<and> llm_signals_completion said)"
      using end_mark_closing [OF y(2)] by blast
    obtain r where r: "e = Stops_with r" using y(4) by (cases e) auto
    with y(3) have m: "with_mark f env st1 = (st', r)" by simp
    note x = d [OF y(1)] m r c
    have "rest_consistent i (wk_jobs st1)" using x(1) by (simp add: on_duty_def rest_of_inv)
    from mark_settles [OF x(4,2) this] mark_keeps_events [OF x(2)] x(1,5) have "settled i st'"
      by (auto simp: settled_def on_duty_def split: if_splits)
    then show ?thesis by (cases e) (auto split: sum.split)
  qed
qed

text \<open>A worker that starts on a job in progress.\<close>

lemma worker_settles:
  assumes "system_inv (wk_jobs st)" "has_worker i (wk_jobs st)" "wk_mail st = [Msg_start]"
  shows "settled i (fst (worker_run env i st))"
proof -
  let ?s0 = "st\<lparr>wk_mail := []\<rparr>"
  have p: "job_state_of i st = Some InProgress" using assms(1,2) by (simp add: has_worker_iff)
  then obtain ctx where c: "get_context i (js_manager (wk_jobs st)) = Inr ctx"
    by (auto simp: state_of_def get_context_def)
  let ?s1 = "?s0\<lparr>wk_messages := [msg_system (worker_prompt ctx)]\<rparr>"
  have d: "on_duty i ?s1" using assms(1) p by (simp add: on_duty_def)
  obtain s2 e where e: "execution_loop env i (description ctx) ?s1 = (s2, e)"
    by (cases "execution_loop env i (description ctx) ?s1")
  have s2: "case e of Stops_with (Inr _) \<Rightarrow> settled i s2 | _ \<Rightarrow> on_duty i s2 \<or> settled i s2"
    by (rule loop_settles [OF e d])
  have m: "settled i (fst (with_mark f env s2))" if "closing_mark i new f" "new \<noteq> Completed" "on_duty i s2 \<or> settled i s2" for f new
    using last_mark [OF that(3,1,2)] by (cases "with_mark f env s2") auto
  show ?thesis
    using s2 assms(3) c e
    by (auto simp: worker_run_def take_mail_def split: worker_stop.splits sum.splits
        intro: m [OF closing_marks(2)] m [OF closing_marks(3)])
qed

section \<open>Properties\<close>


text \<open>C10: A worker that is started on a job in progress completes it only if a text of the model signalled
  the completion; a tool's output never does.\<close>
theorem completion_is_said:
  assumes "system_inv (wk_jobs st)" "has_worker i (wk_jobs st)" "wk_mail st = [Msg_start]"
    "job_state_of i (worker_task env i st) = Some Completed"
  shows "\<exists>said. We_said said \<in> set (wk_events (worker_task env i st)) \<and> llm_signals_completion said"
  using worker_settles [OF assms(1-3), of env] assms(4)
  by (auto simp: settled_def worker_task_def Let_def split: if_splits)

end
