(* ===== verification/Worker_Examples.thy ===== *)
theory Worker_Examples
  imports Worker_Props Worker_Jobs
begin

text \<open>
  What the record of an action holds, what a sub-task does not ask, and concrete runs on which the
  properties of \<open>Worker_Props\<close> and \<open>Worker_Jobs\<close> are applied.
\<close>

section \<open>Records and sub-tasks\<close>

lemma meanwhile_events [simp]: "wk_events (meanwhile env i st) = wk_events st"
proof -
  have "wk_events (foldl (other_step i) st os) = wk_events st" for os and st :: "'a worker_state"
    by (induction os arbitrary: st) simp_all
  then show ?thesis by (simp add: meanwhile_def split: prod.split)
qed

text \<open>The record that is saved for a successful call holds the raw value of the tool in the field for the
  sanitized output, and the sanitized text in the field for the raw output.\<close>
theorem saved_action_swaps_output:
  assumes "wv_execute env (wk_world st) ctx name params = (w1, Tool_done j)" "wk_events st = []"
    "We_saved k a \<in> set (wk_events (fst (run_worker_tool env i tool ctx name checked params st)))"
  shows "ac_output_sanitized a = Some j
     \<and> ac_output_raw a = Some (sanitized_text (wv_agent env) name (ae_pretty (wv_agent env) j))"
proof -
  obtain w2 fresh where f: "ae_fresh (wv_agent env) w1 = (w2, fresh)" by (cases "ae_fresh (wv_agent env) w1")
  let ?s = "meanwhile env i (wk_log (We_executed tool name checked params) (st\<lparr>wk_world := w2\<rparr>))"
  have "wk_events ?s = [We_executed tool name checked params]" using assms(2) by (simp add: wk_log_def)
  with assms(1,3) f show ?thesis
    by (auto simp: run_worker_tool_def Let_def note_action_def update_memory_def wk_log_def jm_create_action_def
        finish_action_def ac_succeed_def split: option.splits if_splits)
qed

text \<open>A sub-task never runs the hooks: it gives the same result and the same state under any registry that
  trusts the same tool.\<close>
theorem subtask_ignores_hooks:
  assumes "is_tool_trusted name hs = is_tool_trusted name (ae_hooks (wv_agent env))"
  shows "execute_tool_task (env\<lparr>wv_agent := (wv_agent env)\<lparr>ae_hooks := hs\<rparr>\<rparr>) i name params st
       = execute_tool_task env i name params st"
proof -
  let ?ag = "wv_agent env" and ?ag' = "(wv_agent env)\<lparr>ae_hooks := hs\<rparr>"
  have same: "ae_find_tool ?ag' = ae_find_tool ?ag" "ae_now ?ag' = ae_now ?ag" "bad_parameters ?ag' = bad_parameters ?ag"
    "approval_refused ?ag' tool name params = approval_refused ?ag tool name params"
    "wv_agent (env\<lparr>wv_agent := ?ag'\<rparr>) = ?ag'" "wv_execute (env\<lparr>wv_agent := ?ag'\<rparr>) = wv_execute env" for tool
    using assms by (simp_all add: approval_refused_def bad_parameters_def fun_eq_iff)
  show ?thesis unfolding execute_tool_task_def Let_def same ..
qed

text \<open>A worker's call that a hook refuses is not executed, and the model is told why.\<close>
theorem refused_call_not_executed:
  assumes "run_hooks (wv_agent env) (ToolCall name params (user_id ctx) (''job:'' @ ae_show_uuid (wv_agent env) i)) (wk_world st)
      = (w', Inl (Hook_rejected reason))"
    "get_context i (js_manager (wk_jobs st)) = Inr ctx" "ae_find_tool (wv_agent env) (wk_world st) name = Some tool"
    "\<not> approval_refused (wv_agent env) tool name params"
  shows "execute_tool_inner env i name params st
     = (st\<lparr>wk_world := w'\<rparr>, Inl (execution_failed name (''Blocked by hook: '' @ reason)))"
  using assms by (simp add: execute_tool_inner_def Let_def)

section \<open>Examples\<close>

definition example_worker :: "nat agent_env \<Rightarrow> nat worker_env" where
  "example_worker ag = \<lparr>wv_agent = ag, wv_use_planning = False,
     wv_plan = \<lambda>w ms tools d. (w, Inl (Http ''none'')), wv_select = \<lambda>w ms tools. (w, Inr [shell_call]),
     wv_execute = \<lambda>w ctx n p. (w + 1, Tool_done (JStr ''sk-secret'')), wv_others = \<lambda>w. (w, []),
     wv_expired = \<lambda>w. False\<rparr>"

definition example_jobs :: job_system where
  "example_jobs = foldl system_step (new_job_system 2 2 True) [Je_create 7 0 ''ann'' ''t'' ''d'', Je_schedule 7 1 2]"

definition worker_start :: "nat worker_state" where
  "worker_start = \<lparr>wk_world = 0, wk_jobs = example_jobs, wk_mail = [Msg_start], wk_messages = [], wk_events = []\<rparr>"

lemma example_jobs_inv [simp]: "system_inv example_jobs"
  unfolding example_jobs_def by (rule job_system.run_inv) simp

lemma example_jobs_live [simp]: "has_worker 7 example_jobs"
  by code_simp

lemma example_context: "\<exists>ctx. get_context 7 (js_manager example_jobs) = Inr ctx \<and> jstate ctx = InProgress"
  using has_worker_iff [OF example_jobs_inv, of 7] by (auto simp: state_of_def get_context_def)

lemma example_quiet [simp]: "meanwhile (example_worker ag) i st = st"
  by (simp add: meanwhile_def example_worker_def)

definition trusting_worker :: "nat worker_env" where
  "trusting_worker = example_worker (example_agent shell_trusted)"

lemma trusting_quiet [simp]: "meanwhile trusting_worker i st = st" "wv_expired trusting_worker w = False"
  by (simp add: trusting_worker_def, simp add: trusting_worker_def example_worker_def)

lemma process_keeps: "ev \<in> set (wk_events st) \<Longrightarrow> ev \<in> set (wk_events (process_tool_result env tc r st))"
  by (auto simp: process_tool_result_def Let_def wk_push_def wk_log_def split: sum.split)

lemma trusted_call_runs:
  assumes "get_context 7 (js_manager (wk_jobs st)) = Inr ctx" "jstate ctx = InProgress"
  shows "We_executed shell_tool ''shell'' (JStr ''ls'') (JStr ''ls'') \<in> set (wk_events (execute_and_process trusting_worker 7 shell_call st))"
proof -
  let ?env = trusting_worker and ?ag = "example_agent shell_trusted"
  have ag: "wv_agent ?env = ?ag" by (simp add: trusting_worker_def example_worker_def)
  have "approval_refused ?ag shell_tool ''shell'' (JStr ''ls'') = False"
    by (simp add: approval_refused_def example_agent_def shell_trusted_def is_tool_trusted_def trusted_tools_hook_def shell_tool_def)
  moreover have "run_hooks ?ag (ToolCall ''shell'' (JStr ''ls'') u c) w = (w, Inr (Continue None))" for u c w
    by (simp add: run_hooks_def hooks_run_def matching_hooks_def example_agent_def shell_trusted_def
        trusted_tools_hook_def hook_step_def)
  moreover have "bad_parameters ?ag ''shell'' (JStr ''ls'') = None"
    by (simp add: bad_parameters_def validate_tool_params_def validate_text_valid acceptable_def example_agent_def
        new_safety_layer_def new_input_validator_def)
  moreover have "ae_find_tool ?ag w ''shell'' = Some shell_tool" for w by (simp add: example_agent_def)
  ultimately have e: "execute_tool_inner ?env 7 ''shell'' (JStr ''ls'') st =
      run_worker_tool ?env 7 shell_tool ctx ''shell'' (JStr ''ls'') (JStr ''ls'') st"
    using assms by (simp add: execute_tool_inner_def ag hooked_arguments_def Let_def)
  have "We_executed shell_tool ''shell'' (JStr ''ls'') (JStr ''ls'') \<in> set (wk_events (fst (run_worker_tool ?env 7 shell_tool ctx
      ''shell'' (JStr ''ls'') (JStr ''ls'') st)))"
    by (simp add: run_worker_tool_def note_action_def wk_log_def Let_def split: prod.split sum.split)
  then show ?thesis
    by (simp add: execute_and_process_def shell_call_def e split_beta process_keeps)
qed

lemma loop_keeps_events:
  "e \<in> set (wk_events st) \<Longrightarrow> e \<in> set (wk_events (fst (selection_loop env i n st)))"
proof -
  assume e: "e \<in> set (wk_events st)"
  obtain st' x where l: "selection_loop env i n st = (st', x)" by (cases "selection_loop env i n st")
  have "logs (runs_freely (wv_agent env)) st st'" by (rule logs_ends [OF approved.loop_end [OF l]])
  with e l show ?thesis by (auto simp: logs_def)
qed

lemma trusting_run:
  "We_executed shell_tool ''shell'' (JStr ''ls'') (JStr ''ls'') \<in> set (wk_events (worker_task trusting_worker 7 worker_start))"
proof -
  let ?env = trusting_worker
  obtain ctx where c: "get_context 7 (js_manager example_jobs) = Inr ctx" "jstate ctx = InProgress"
    using example_context by blast
  let ?s1 = "worker_start\<lparr>wk_mail := [], wk_messages := [msg_system (worker_prompt ctx)]\<rparr>"
  let ?s2 = "execute_and_process ?env 7 shell_call (wk_log We_model ?s1)"
  have t: "told_to_stop ?env 7 ?s1 = (?s1, None)"
    by (simp add: told_to_stop_def take_mail_def)
  have n: "\<not> job_cancelled 7 ?s1" using c by (simp add: job_cancelled_def worker_start_def)
  have r: "worker_round ?env 7 1 ?s1 = (?s2, None)"
    by (simp add: worker_round_def select_tools_def use_selections_def trusting_worker_def example_worker_def example_agent_def)
  have "selection_loop ?env 7 0 ?s1 = selection_loop ?env 7 1 ?s2"
    using t n r by (subst selection_loop.simps) (simp add: WORKER_MAX_ITERATIONS_def)
  moreover have "We_executed shell_tool ''shell'' (JStr ''ls'') (JStr ''ls'') \<in> set (wk_events ?s2)"
    by (rule trusted_call_runs) (use c in \<open>simp_all add: worker_start_def wk_log_def\<close>)
  ultimately have "We_executed shell_tool ''shell'' (JStr ''ls'') (JStr ''ls'') \<in> set (wk_events (fst (selection_loop ?env 7 0 ?s1)))"
    by (simp add: loop_keeps_events)
  moreover have "execution_loop ?env 7 (description ctx) ?s1 = selection_loop ?env 7 0 ?s1"
    by (simp add: execution_loop_def trusting_worker_def example_worker_def)
  moreover have "wk_events (fst (with_mark f ?env s)) = wk_events s" for f s
    by (simp add: with_mark_def Let_def split: prod.split)
  ultimately have "We_executed shell_tool ''shell'' (JStr ''ls'') (JStr ''ls'') \<in> set (wk_events (fst (worker_run ?env 7 worker_start)))"
    using c by (auto simp: worker_run_def take_mail_def worker_start_def split: prod.splits worker_stop.splits sum.splits)
  then show ?thesis by (simp add: worker_task_def Let_def)
qed

theorem worker_respects_approval_witness:
  "is_tool_trusted ''shell'' (ae_hooks (wv_agent trusting_worker)) \<and> \<not> ti_requires_approval_for shell_tool (JStr ''ls'')"
  using worker_respects_approval [OF _ trusting_run] by (simp add: worker_start_def shell_tool_def)


text \<open>A model that says it is done.\<close>

definition done_worker :: "nat worker_env" where
  "done_worker = example_worker ((example_agent [])\<lparr>ae_tool_defs := \<lambda>w. [], ae_respond := \<lambda>w sys skills ms tools. (w + 1, Inr
     \<lparr>ro_result = Respond_text ''All done'', ro_input_tokens = 1, ro_output_tokens = 1\<rparr>)\<rparr>)"

lemma done_signals: "llm_signals_completion ''All done''"
  by code_simp

lemma done_run: "job_state_of 7 (worker_task done_worker 7 worker_start) = Some Completed"
proof -
  let ?env = done_worker
  obtain ctx where c: "get_context 7 (js_manager example_jobs) = Inr ctx" "jstate ctx = InProgress"
    using example_context by blast
  let ?s1 = "worker_start\<lparr>wk_mail := [], wk_messages := [msg_system (worker_prompt ctx)]\<rparr>"
  let ?s2 = "wk_log (We_said ''All done'') (wk_log We_model (?s1\<lparr>wk_world := 1\<rparr>))"
  have q: "meanwhile ?env 7 s = s" "wv_expired ?env w = False" for s w
    by (simp add: done_worker_def, simp add: done_worker_def example_worker_def)
  have t: "told_to_stop ?env 7 ?s1 = (?s1, None)"
    by (simp add: told_to_stop_def take_mail_def q)
  have n: "\<not> job_cancelled 7 ?s1" using c by (simp add: job_cancelled_def worker_start_def)
  obtain s3 r where m: "with_mark (mark_completed 7) ?env ?s2 = (s3, r)" by (cases "with_mark (mark_completed 7) ?env ?s2")
  have "worker_round ?env 7 1 ?s1 = (s3, Some (Stops_with r))"
    using m by (simp add: worker_round_def select_tools_def ask_model_def take_text_def done_signals done_worker_def
        example_worker_def worker_start_def)
  with t n have l: "selection_loop ?env 7 0 ?s1 = (s3, Stops_with r)"
    by (subst selection_loop.simps) (simp add: WORKER_MAX_ITERATIONS_def)
  have s2: "wk_jobs ?s2 = example_jobs" by (simp add: wk_log_def worker_start_def)
  have "state_of 7 (js_manager example_jobs) = Some InProgress" using c by (auto simp: state_of_def get_context_def split: option.splits)
  then have k: "snd (mark_completed 7 t1 t2 example_jobs) = Inr ()" for t1 t2
    by (simp add: change_state_ok may_become_def)
  obtain js x where j: "mark_completed 7 (ae_now (wv_agent ?env) (wk_world ?s2)) (ae_now (wv_agent ?env) (wk_world ?s2)) example_jobs = (js, x)"
    by (rule prod.exhaust)
  have "x = Inr ()" using k [of "ae_now (wv_agent ?env) (wk_world ?s2)" "ae_now (wv_agent ?env) (wk_world ?s2)"] unfolding j by simp
  with m have r: "r = Inr ()" unfolding with_mark_def Let_def s2 j by simp
  have "rest_consistent 7 (wk_jobs ?s2)" unfolding s2 by (rule rest_of_inv) simp
  from mark_settles(3) [OF closing_marks(1) m this] r have "job_state_of 7 s3 = Some Completed" by simp
  with l r c show ?thesis
    by (simp add: worker_task_def worker_run_def take_mail_def execution_loop_def done_worker_def example_worker_def
        worker_start_def)
qed

theorem completion_is_said_witness:
  "\<exists>said. We_said said \<in> set (wk_events (worker_task done_worker 7 worker_start)) \<and> llm_signals_completion said"
  by (rule completion_is_said [OF _ _ _ done_run]) (simp_all add: worker_start_def)

theorem saved_action_swaps_output_witness:
  "\<exists>k a. We_saved k a \<in> set (wk_events (fst (run_worker_tool trusting_worker 7 shell_tool (with_user 7 0 ''ann'' ''report'' ''write it'') ''shell'' JNull JNull worker_start)))
     \<and> ac_output_sanitized a = Some (JStr ''sk-secret'')"
proof -
  let ?r = "fst (run_worker_tool trusting_worker 7 shell_tool (with_user 7 0 ''ann'' ''report'' ''write it'') ''shell'' JNull JNull worker_start)"
  have e: "wv_execute trusting_worker (wk_world worker_start) (with_user 7 0 ''ann'' ''report'' ''write it'') ''shell'' JNull = (1, Tool_done (JStr ''sk-secret''))"
    by (simp add: trusting_worker_def example_worker_def worker_start_def)
  have "js_has_store example_jobs \<and> map_of (mg_memories (js_manager example_jobs)) 7 \<noteq> None" by code_simp
  then have "js_has_store (wk_jobs s)" "map_of (mg_memories (js_manager (wk_jobs s))) 7 \<noteq> None" if "wk_jobs s = example_jobs" for s :: "nat worker_state"
    using that by simp_all
  then have "\<exists>a. We_saved 7 a \<in> set (wk_events (note_action 7 f n nm p fin s))" if "wk_jobs s = example_jobs" for f n nm p fin and s :: "nat worker_state"
    using that by (fastforce simp: note_action_def update_memory_def wk_log_def Let_def jm_create_action_def)
  moreover obtain w2 fr where f: "ae_fresh (wv_agent trusting_worker) 1 = (w2, fr)" by (rule prod.exhaust)
  have "wk_jobs (wk_log ev (worker_start\<lparr>wk_world := w2\<rparr>)) = example_jobs" for ev by (simp add: wk_log_def worker_start_def)
  ultimately obtain k a where "We_saved k a \<in> set (wk_events ?r)"
    unfolding run_worker_tool_def Let_def e prod.case f by fastforce
  moreover from saved_action_swaps_output [OF e _ this] have "ac_output_sanitized a = Some (JStr ''sk-secret'')"
    by (simp add: worker_start_def)
  ultimately show ?thesis by blast
qed

text \<open>A hook that refuses everything stops the worker's call but not the sub-task.\<close>

definition refusing_hook :: "nat hook" where
  "refusing_hook = (trusted_tools_hook [''shell''])\<lparr>hk_execute := \<lambda>w ev. (w, Replied (Inr (Reject ''no'')))\<rparr>"

definition refusing :: "nat registry" where
  "refusing = [\<lparr>he_hook = refusing_hook, he_priority = 1\<rparr>]"

theorem subtask_ignores_hooks_witness:
  "execute_tool_task (trusting_worker\<lparr>wv_agent := (wv_agent trusting_worker)\<lparr>ae_hooks := refusing\<rparr>\<rparr>) 7 ''shell'' (JStr ''ls'') worker_start
     = execute_tool_task trusting_worker 7 ''shell'' (JStr ''ls'') worker_start"
  by (rule subtask_ignores_hooks)
    (simp add: refusing_def refusing_hook_def is_tool_trusted_def trusting_worker_def example_worker_def example_agent_def
      shell_trusted_def trusted_tools_hook_def)

theorem refused_call_not_executed_witness:
  "\<exists>e. execute_tool_inner (example_worker (example_agent refusing)) 7 ''shell'' (JStr ''ls'') worker_start = (worker_start, Inl e)"
proof -
  let ?ag = "example_agent refusing"
  obtain ctx where c: "get_context 7 (js_manager example_jobs) = Inr ctx" using example_context by blast
  have ag: "wv_agent (example_worker ?ag) = ?ag" by (simp add: example_worker_def)
  have "run_hooks ?ag (ToolCall ''shell'' (JStr ''ls'') (user_id ctx) (''job:'' @ ae_show_uuid ?ag 7)) 0 = (0, Inl (Hook_rejected ''no''))"
    by (simp add: run_hooks_def hooks_run_def matching_hooks_def example_agent_def refusing_def refusing_hook_def
        trusted_tools_hook_def hook_step_def)
  moreover have "ae_find_tool ?ag 0 ''shell'' = Some shell_tool" by (simp add: example_agent_def)
  moreover have "\<not> approval_refused ?ag shell_tool ''shell'' (JStr ''ls'')"
    by (simp add: approval_refused_def example_agent_def refusing_def refusing_hook_def is_tool_trusted_def trusted_tools_hook_def shell_tool_def)
  ultimately have "execute_tool_inner (example_worker ?ag) 7 ''shell'' (JStr ''ls'') worker_start
     = (worker_start\<lparr>wk_world := 0\<rparr>, Inl (execution_failed ''shell'' (''Blocked by hook: '' @ ''no'')))"
    using c by (intro refused_call_not_executed) (simp_all add: ag worker_start_def)
  then show ?thesis by (simp add: worker_start_def)
qed

end
