(* ===== verification/Tool_Base.thy ===== *)
theory Tool_Base
  imports Job_State Text_Util
begin

text \<open>
  What the built-in tools share, \<open>src/tools/tool.rs\<close>: errors, outputs and the parameters they require,
  and the byte searches of the standard library they use.
\<close>

section \<open>Errors and outputs\<close>

datatype exec_error =
    Exec_invalid_parameters string
  | Exec_failed string
  | Exec_timeout duration
  | Exec_not_authorized string
  | Exec_rate_limited "duration option"
  | Exec_external string
  | Exec_sandbox string

definition exec_error_text :: "(duration \<Rightarrow> string) \<Rightarrow> (duration option \<Rightarrow> string) \<Rightarrow> exec_error \<Rightarrow> string" where
  "exec_error_text show_duration show_retry e = (case e of
     Exec_invalid_parameters s \<Rightarrow> ''Invalid parameters: '' @ s
   | Exec_failed s \<Rightarrow> ''Execution failed: '' @ s
   | Exec_timeout d \<Rightarrow> ''Timeout after '' @ show_duration d
   | Exec_not_authorized s \<Rightarrow> ''Not authorized: '' @ s
   | Exec_rate_limited d \<Rightarrow> ''Rate limited, retry after '' @ show_retry d
   | Exec_external s \<Rightarrow> ''External service error: '' @ s
   | Exec_sandbox s \<Rightarrow> ''Sandbox error: '' @ s)"

record tool_output =
  to_result :: json
  to_cost :: "rat option"
  to_duration :: duration
  to_raw :: "string option"

definition output_success :: "json \<Rightarrow> duration \<Rightarrow> tool_output" where
  "output_success r d = \<lparr>to_result = r, to_cost = None, to_duration = d, to_raw = None\<rparr>"

definition output_text :: "string \<Rightarrow> duration \<Rightarrow> tool_output" where
  "output_text s d = \<lparr>to_result = JStr s, to_cost = None, to_duration = d, to_raw = None\<rparr>"

datatype tool_domain = Orchestrator_domain | Container_domain

section \<open>Parameters\<close>

definition QUOTE :: char where "QUOTE = CHR 0x27"

definition missing_parameter :: "string \<Rightarrow> exec_error" where
  "missing_parameter name = Exec_invalid_parameters (''missing '' @ [QUOTE] @ name @ [QUOTE] @ '' parameter'')"

definition require_str :: "json \<Rightarrow> string \<Rightarrow> (exec_error, string) result" where
  "require_str params name = (case Option.bind (json_get params name) json_str of
     Some s \<Rightarrow> Inr s | None \<Rightarrow> Inl (missing_parameter name))"

definition require_param :: "json \<Rightarrow> string \<Rightarrow> (exec_error, json) result" where
  "require_param params name = (case json_get params name of
     Some v \<Rightarrow> Inr v | None \<Rightarrow> Inl (missing_parameter name))"

lemma json_str_Some: "json_str v = Some s \<longleftrightarrow> v = JStr s"
  by (cases v) auto

text \<open>\<open>Value::as_u64\<close>: a number that is a natural of 64 bits.\<close>

definition digits_value :: "string \<Rightarrow> nat" where
  "digits_value s = foldl (\<lambda>n c. 10 * n + (code_of c - 48)) 0 s"

fun json_u64 :: "json \<Rightarrow> nat option" where
  "json_u64 (JNum s) = (if s \<noteq> [] \<and> list_all is_digit s \<and> digits_value s < 2 ^ 64 then Some (digits_value s) else None)"
| "json_u64 _ = None"

definition show_int :: "int \<Rightarrow> string" where
  "show_int n = (if n < 0 then ''-'' @ show_nat (nat (- n)) else show_nat (nat n))"

text \<open>A call that may also panic, as an index out of range does.\<close>

datatype 'a outcome = Returns 'a | Panics

section \<open>Searching\<close>

text \<open>\<open>str::match_indices\<close>: the positions of the matches, found from the left without overlaps. The last
  argument counts the bytes of the current match that are still to be skipped.\<close>

fun matches_from :: "string \<Rightarrow> nat \<Rightarrow> nat \<Rightarrow> string \<Rightarrow> nat list" where
  "matches_from p pos skip [] = []"
| "matches_from p pos 0 (c # cs) =
     (if starts_with (c # cs) p then pos # matches_from p (Suc pos) (length p - 1) cs
      else matches_from p (Suc pos) 0 cs)"
| "matches_from p pos (Suc k) (c # cs) = matches_from p (Suc pos) k cs"

definition match_indices :: "string \<Rightarrow> string \<Rightarrow> nat list" where
  "match_indices s p = matches_from p 0 0 s"

text \<open>A pattern no proper suffix of which starts it is found everywhere it stands.\<close>

definition borderless :: "string \<Rightarrow> bool" where
  "borderless p \<longleftrightarrow> p \<noteq> [] \<and> list_all (\<lambda>k. take (length p - k) p \<noteq> drop k p) [1..<length p]"

lemma borderless_apart:
  assumes b: "borderless p" and a: "starts_with s p" and k: "0 < k" "k < length p"
  shows "\<not> starts_with (drop k s) p"
proof
  assume c: "starts_with (drop k s) p"
  from a obtain r where s: "s = p @ r" by (auto simp: starts_with_iff)
  from c obtain r' where d: "drop k s = p @ r'" by (auto simp: starts_with_iff)
  have "take (length p - k) (drop k s) = drop k p" using s k by simp
  moreover have "take (length p - k) (drop k s) = take (length p - k) p" using d by simp
  ultimately have "take (length p - k) p = drop k p" by simp
  with b k show False by (auto simp: borderless_def list_all_iff)
qed

lemma matches_sound:
  "i \<in> set (matches_from p pos skip s) \<Longrightarrow> pos \<le> i \<and> i - pos < length s \<and> starts_with (drop (i - pos) s) p"
proof (induction p pos skip s arbitrary: i rule: matches_from.induct)
  case (2 p pos c cs)
  have shift: "drop (i - pos) (c # cs) = drop (i - Suc pos) cs \<and> i - pos < length (c # cs)"
    if "Suc pos \<le> i" "i - Suc pos < length cs" for i
    using that by (simp add: drop_Cons' Suc_diff_le)
  show ?case
  proof (cases "i = pos \<and> starts_with (c # cs) p")
    case True
    then show ?thesis by simp
  next
    case False
    with 2 shift [of i] show ?thesis by (fastforce split: if_splits)
  qed
next
  case (3 p pos k c cs)
  have "drop (i - pos) (c # cs) = drop (i - Suc pos) cs \<and> i - pos < length (c # cs)"
    if "Suc pos \<le> i" "i - Suc pos < length cs"
    using that by (simp add: drop_Cons' Suc_diff_le)
  with 3 show ?case by fastforce
qed simp

lemma matches_complete:
  assumes "borderless p" "\<forall>k < skip. \<not> starts_with (drop k s) p" "j < length s" "starts_with (drop j s) p"
  shows "pos + j \<in> set (matches_from p pos skip s)"
  using assms
proof (induction p pos skip s arbitrary: j rule: matches_from.induct)
  case (2 p pos c cs)
  show ?case
  proof (cases "starts_with (c # cs) p")
    case True
    have "\<forall>k < length p - 1. \<not> starts_with (drop k cs) p"
      using borderless_apart [OF \<open>borderless p\<close> True, of "Suc _"] by auto
    with 2 True show ?thesis by (cases j) auto
  next
    case False
    with 2 show ?thesis by (cases j) auto
  qed
next
  case (3 p pos k c cs)
  have "\<not> starts_with (c # cs) p" using 3(3) by auto
  then obtain j' where j: "j = Suc j'" using 3(5) by (cases j) auto
  have "\<forall>i < k. \<not> starts_with (drop i cs) p" using 3(3) by auto
  with 3 j show ?case by auto
qed simp

lemma match_indices_iff:
  assumes "borderless p"
  shows "i \<in> set (match_indices s p) \<longleftrightarrow> (\<exists>l r. s = l @ p @ r \<and> length l = i)"
proof
  assume "i \<in> set (match_indices s p)"
  then have "i < length s" "starts_with (drop i s) p" using matches_sound [of i p 0 0 s] by (auto simp: match_indices_def)
  then obtain r where "drop i s = p @ r" by (auto simp: starts_with_iff)
  then have "s = take i s @ p @ r" "length (take i s) = i"
    using \<open>i < length s\<close> by (metis append_take_drop_id, simp)
  then show "\<exists>l r. s = l @ p @ r \<and> length l = i" by blast
next
  assume "\<exists>l r. s = l @ p @ r \<and> length l = i"
  then obtain l r where s: "s = l @ p @ r" "length l = i" by blast
  have "p \<noteq> []" using assms by (simp add: borderless_def)
  then have "i < length s" using s by simp
  with matches_complete [OF assms, of 0 s i 0] s show "i \<in> set (match_indices s p)"
    by (simp add: match_indices_def)
qed

end
