(* ===== verification/Shell_Tool.thy ===== *)
theory Shell_Tool
  imports Tool_Base
begin

text \<open>
  The shell tool, \<open>src/tools/builtin/shell.rs\<close>: the checks a command passes, the environment of the
  child process, the choice between sandbox and host, and the truncation of the output. Processes, the
  sandbox and the variables of the process are the functions of \<open>shell_env\<close>.
\<close>

section \<open>The lists\<close>

definition MAX_OUTPUT_SIZE :: nat where "MAX_OUTPUT_SIZE = 64 * 1024"
definition DEFAULT_TIMEOUT_SECS :: nat where "DEFAULT_TIMEOUT_SECS = 120"

definition BLOCKED_COMMANDS :: "string list" where
  "BLOCKED_COMMANDS = [''rm -rf /'', ''rm -rf /*'', '':(){ :|:& };:'', ''dd if=/dev/zero'', ''mkfs'', ''chmod -R 777 /'',
     ''> /dev/sda'', ''curl | sh'', ''wget | sh'', ''curl | bash'', ''wget | bash'']"

definition DANGEROUS_PATTERNS :: "string list" where
  "DANGEROUS_PATTERNS = [''sudo '', ''doas '', '' | sh'', '' | bash'', '' | zsh'', ''eval '', ''$(curl'', ''$(wget'',
     ''/etc/passwd'', ''/etc/shadow'', ''~/.ssh'', ''.bash_history'', ''id_rsa'']"

definition NEVER_AUTO_APPROVE_PATTERNS :: "string list" where
  "NEVER_AUTO_APPROVE_PATTERNS = [''rm -rf'', ''rm -fr'', ''chmod -r 777'', ''chmod 777'', ''chown -r'', ''shutdown'',
     ''reboot'', ''poweroff'', ''init 0'', ''init 6'', ''iptables'', ''nft '', ''useradd'', ''userdel'', ''passwd'',
     ''visudo'', ''crontab'', ''systemctl disable'', ''launchctl unload'', ''kill -9'', ''killall'', ''pkill'',
     ''docker rm'', ''docker rmi'', ''docker system prune'', ''git push --force'', ''git push -f'', ''git reset --hard'',
     ''git clean -f'', ''DROP TABLE'', ''DROP DATABASE'', ''TRUNCATE'', ''DELETE FROM'']"

definition SAFE_ENV_VARS :: "string list" where
  "SAFE_ENV_VARS = [''PATH'', ''HOME'', ''USER'', ''LOGNAME'', ''SHELL'', ''TERM'', ''COLORTERM'', ''LANG'', ''LC_ALL'',
     ''LC_CTYPE'', ''LC_MESSAGES'', ''PWD'', ''TMPDIR'', ''TMP'', ''TEMP'', ''XDG_RUNTIME_DIR'', ''XDG_DATA_HOME'',
     ''XDG_CONFIG_HOME'', ''XDG_CACHE_HOME'', ''CARGO_HOME'', ''RUSTUP_HOME'', ''NODE_PATH'', ''NPM_CONFIG_PREFIX'',
     ''EDITOR'', ''VISUAL'', ''SystemRoot'', ''SYSTEMROOT'', ''ComSpec'', ''PATHEXT'', ''APPDATA'', ''LOCALAPPDATA'',
     ''USERPROFILE'', ''ProgramFiles'', ''ProgramFiles(x86)'', ''WINDIR'']"

section \<open>The checks\<close>

definition requires_explicit_approval :: "string \<Rightarrow> bool" where
  "requires_explicit_approval command =
     (let lower = to_lower command in list_ex (\<lambda>p. contains_str lower (to_lower p)) NEVER_AUTO_APPROVE_PATTERNS)"

text \<open>A pipe to a shell, followed by the end of the command or by a separator.\<close>

definition ends_word :: "string \<Rightarrow> nat \<Rightarrow> bool" where
  "ends_word lower end_pos \<longleftrightarrow> end_pos \<ge> length lower
     \<or> lower ! end_pos \<in> {CHR '' '', CHR 0x09, CHR 0x0A, CHR '';'', CHR ''|'', CHR ''&'', CHR '')''}"

definition has_pipe_to :: "string \<Rightarrow> string \<Rightarrow> bool" where
  "has_pipe_to lower shell = list_ex (\<lambda>prefix. let pattern = prefix @ shell in
     list_ex (\<lambda>i. ends_word lower (i + length pattern)) (match_indices lower pattern)) [''| '', ''|'']"

definition contains_shell_pipe :: "string \<Rightarrow> bool" where
  "contains_shell_pipe lower = list_ex (has_pipe_to lower) [''sh'', ''bash'', ''zsh'', ''dash'', ''/bin/sh'', ''/bin/bash'']"

definition has_command_substitution :: "string \<Rightarrow> bool" where
  "has_command_substitution s \<longleftrightarrow> contains_str s ''$('' \<or> CHR 0x60 \<in> set s"

text \<open>A token at the start of a word.\<close>

definition starts_word :: "string \<Rightarrow> nat \<Rightarrow> bool" where
  "starts_word lower i \<longleftrightarrow> i = 0
     \<or> lower ! (i - 1) \<in> {CHR '' '', CHR 0x09, CHR ''|'', CHR '';'', CHR ''&'', CHR 0x0A, CHR ''(''}"

definition has_command_token :: "string \<Rightarrow> string \<Rightarrow> bool" where
  "has_command_token lower token = list_ex (starts_word lower) (match_indices lower token)"

definition detect_command_injection :: "string \<Rightarrow> string option" where
  "detect_command_injection cmd =
     (if CHR 0x00 \<in> set cmd then Some ''null byte in command''
      else let lower = to_lower cmd in
      if (contains_str lower ''base64 -d'' \<or> contains_str lower ''base64 --decode'') \<and> contains_shell_pipe lower
      then Some ''base64 decode piped to shell''
      else if (contains_str lower ''printf'' \<or> contains_str lower ''echo -e'' \<or> contains_str lower (''echo $'' @ [QUOTE]))
        \<and> (contains_str lower [CHR 0x5C, CHR ''x''] \<or> contains_str lower [CHR 0x5C, CHR ''0'']) \<and> contains_shell_pipe lower
      then Some ''encoded escape sequences piped to shell''
      else if (contains_str lower ''xxd -r'' \<or> has_command_token lower ''od '') \<and> contains_shell_pipe lower
      then Some ''binary decode piped to shell''
      else if (has_command_token lower ''dig '' \<or> has_command_token lower ''nslookup '' \<or> has_command_token lower ''host '')
        \<and> has_command_substitution lower
      then Some ''potential DNS exfiltration via command substitution''
      else if (has_command_token lower ''nc '' \<or> has_command_token lower ''ncat '' \<or> has_command_token lower ''netcat '')
        \<and> (CHR ''|'' \<in> set lower \<or> CHR ''<'' \<in> set lower)
      then Some ''netcat with data piping''
      else if contains_str lower ''curl'' \<and> (contains_str lower ''-d @'' \<or> contains_str lower ''-d@''
        \<or> contains_str lower ''--data @'' \<or> contains_str lower ''--data-binary @'' \<or> contains_str lower ''--upload-file'')
      then Some ''curl posting file contents''
      else if contains_str lower ''wget'' \<and> contains_str lower ''--post-file''
      then Some ''wget posting file contents''
      else if (contains_str lower ''| rev'' \<or> contains_str lower ''|rev'') \<and> contains_shell_pipe lower
      then Some ''string reversal piped to shell''
      else None)"

section \<open>The tool\<close>

datatype sandbox_policy = ReadOnly | WorkspaceWrite | FullAccess

record sandbox_state =
  sb_initialized :: bool
  sb_enabled :: bool

record shell_tool_state =
  sh_working_dir :: "string option"
  sh_timeout :: duration
  sh_allow_dangerous :: bool
  sh_sandbox :: "sandbox_state option"
  sh_policy :: sandbox_policy

definition new_shell_tool :: shell_tool_state where
  "new_shell_tool = \<lparr>sh_working_dir = None, sh_timeout = DEFAULT_TIMEOUT_SECS, sh_allow_dangerous = False,
     sh_sandbox = None, sh_policy = ReadOnly\<rparr>"

definition shell_blocked :: "shell_tool_state \<Rightarrow> string \<Rightarrow> string option" where
  "shell_blocked t cmd =
     (let normalized = to_lower cmd in
      if list_ex (contains_str normalized) BLOCKED_COMMANDS then Some ''Command contains blocked pattern''
      else if \<not> sh_allow_dangerous t \<and> list_ex (contains_str normalized) DANGEROUS_PATTERNS
      then Some ''Command contains potentially dangerous pattern''
      else None)"

definition truncate_output :: "string \<Rightarrow> string" where
  "truncate_output s =
     (if length s \<le> MAX_OUTPUT_SIZE then s
      else let half = MAX_OUTPUT_SIZE div 2; head_end = floor_char_boundary s half;
               tail_start = floor_char_boundary s (length s - half)
           in take head_end s @ [CHR 0x0A, CHR 0x0A] @ ''... [truncated '' @ show_nat (length s - MAX_OUTPUT_SIZE)
                @ '' bytes] ...'' @ [CHR 0x0A, CHR 0x0A] @ drop tail_start s)"

text \<open>Characters of a text: every byte but a continuation byte starts one.\<close>

definition continues_char :: "char \<Rightarrow> bool" where
  "continues_char c \<longleftrightarrow> 128 \<le> code_of c \<and> code_of c < 192"

fun take_chars :: "nat \<Rightarrow> string \<Rightarrow> string" where
  "take_chars n [] = []"
| "take_chars n (c # cs) =
     (if continues_char c then c # take_chars n cs else case n of 0 \<Rightarrow> [] | Suc m \<Rightarrow> c # take_chars m cs)"

definition truncate_for_error :: "string \<Rightarrow> string" where
  "truncate_for_error s =
     (if length (filter (\<lambda>c. \<not> continues_char c) s) \<le> 100 then s else take_chars 100 s @ ''...'')"

text \<open>
  How a process ends: it cannot be started, it exits with what the first reads of its two pipes return,
  waiting for it fails, or it is late. The sandbox answers with an output and a code, an error, or late.
\<close>

datatype process_end = Spawn_error string | Exited string string "int option" | Wait_error string | Killed_late
datatype sandbox_reply = Sandbox_output string int | Sandbox_error string | Sandbox_late

record 'w shell_env =
  se_var :: "string \<Rightarrow> string option"
  se_current_dir :: "string option"
  se_spawn :: "'w \<Rightarrow> string \<Rightarrow> string \<Rightarrow> (string \<rightharpoonup> string) \<Rightarrow> duration \<Rightarrow> 'w \<times> process_end"
  se_sandbox :: "'w \<Rightarrow> string \<Rightarrow> string \<Rightarrow> sandbox_policy \<Rightarrow> duration \<Rightarrow> 'w \<times> sandbox_reply"
  se_lossy :: "string \<Rightarrow> string"
  se_now :: "'w \<Rightarrow> instant"

definition child_environment :: "(string \<Rightarrow> string option) \<Rightarrow> (string \<times> string) list \<Rightarrow> (string \<rightharpoonup> string)" where
  "child_environment var extra =
     foldl (\<lambda>m (k, v). m(k \<mapsto> v))
       (foldl (\<lambda>m k. case var k of Some v \<Rightarrow> m(k \<mapsto> v) | None \<Rightarrow> m) Map.empty SAFE_ENV_VARS) extra"

definition combine_output :: "string \<Rightarrow> string \<Rightarrow> string" where
  "combine_output out err =
     (if err = [] then out else if out = [] then err
      else out @ [CHR 0x0A, CHR 0x0A] @ ''--- stderr ---'' @ [CHR 0x0A] @ err)"

definition execute_sandboxed ::
  "'w shell_env \<Rightarrow> shell_tool_state \<Rightarrow> string \<Rightarrow> string \<Rightarrow> duration \<Rightarrow> 'w \<Rightarrow> 'w \<times> (exec_error, string \<times> int) result" where
  "execute_sandboxed env t cmd workdir timeout w =
     (case se_sandbox env w cmd workdir (sh_policy t) timeout of
        (w', Sandbox_output out code) \<Rightarrow> (w', Inr (truncate_output out, code))
      | (w', Sandbox_error e) \<Rightarrow> (w', Inl (Exec_failed (''Sandbox error: '' @ e)))
      | (w', Sandbox_late) \<Rightarrow> (w', Inl (Exec_timeout timeout)))"

definition execute_direct ::
  "'w shell_env \<Rightarrow> string \<Rightarrow> string \<Rightarrow> duration \<Rightarrow> (string \<times> string) list \<Rightarrow> 'w \<Rightarrow> 'w \<times> (exec_error, string \<times> int) result" where
  "execute_direct env cmd workdir timeout extra w =
     (case se_spawn env w cmd workdir (child_environment (se_var env) extra) timeout of
        (w', Spawn_error e) \<Rightarrow> (w', Inl (Exec_failed (''Failed to spawn command: '' @ e)))
      | (w', Wait_error e) \<Rightarrow> (w', Inl (Exec_failed (''Command execution failed: '' @ e)))
      | (w', Killed_late) \<Rightarrow> (w', Inl (Exec_timeout timeout))
      | (w', Exited out err code) \<Rightarrow>
          (w', Inr (truncate_output (combine_output (se_lossy env (take MAX_OUTPUT_SIZE out)) (se_lossy env (take MAX_OUTPUT_SIZE err))),
             case code of Some c \<Rightarrow> c | None \<Rightarrow> -1)))"

text \<open>A refused command, an accepted one in the sandbox when there is one in use, otherwise on the host.\<close>

definition refusal :: "shell_tool_state \<Rightarrow> string \<Rightarrow> exec_error option" where
  "refusal t cmd =
     (case shell_blocked t cmd of
        Some reason \<Rightarrow> Some (Exec_not_authorized (reason @ '': '' @ truncate_for_error cmd))
      | None \<Rightarrow>
         (case detect_command_injection cmd of
            Some reason \<Rightarrow> Some (Exec_not_authorized (''Command injection detected ('' @ reason @ ''): '' @ truncate_for_error cmd))
          | None \<Rightarrow> None))"

definition execute_command ::
  "'w shell_env \<Rightarrow> shell_tool_state \<Rightarrow> string \<Rightarrow> string option \<Rightarrow> duration option \<Rightarrow> (string \<times> string) list \<Rightarrow> 'w
     \<Rightarrow> 'w \<times> (exec_error, string \<times> int) result" where
  "execute_command env t cmd workdir timeout extra w =
     (case refusal t cmd of
        Some e \<Rightarrow> (w, Inl e)
      | None \<Rightarrow>
         (let cwd = (case workdir of Some d \<Rightarrow> d | None \<Rightarrow> (case sh_working_dir t of Some d \<Rightarrow> d
                | None \<Rightarrow> (case se_current_dir env of Some d \<Rightarrow> d | None \<Rightarrow> ''.'')));
              limit = (case timeout of Some n \<Rightarrow> n | None \<Rightarrow> sh_timeout t)
          in case sh_sandbox t of
               Some sb \<Rightarrow> (if sb_initialized sb \<or> sb_enabled sb then execute_sandboxed env t cmd cwd limit w
                           else execute_direct env cmd cwd limit extra w)
             | None \<Rightarrow> execute_direct env cmd cwd limit extra w))"

definition shell_execute ::
  "'w shell_env \<Rightarrow> shell_tool_state \<Rightarrow> json \<Rightarrow> (string \<times> string) list \<Rightarrow> 'w \<Rightarrow> 'w \<times> (exec_error, tool_output) result" where
  "shell_execute env t params extra w =
     (case require_str params ''command'' of
        Inl e \<Rightarrow> (w, Inl e)
      | Inr command \<Rightarrow>
         (case execute_command env t command (Option.bind (json_get params ''workdir'') json_str)
             (Option.bind (json_get params ''timeout'') json_u64) extra w of
            (w', Inl e) \<Rightarrow> (w', Inl e)
          | (w', Inr (out, code)) \<Rightarrow>
              (w', Inr (output_success (JObj [(''output'', JStr out), (''exit_code'', JNum (show_int code)),
                 (''success'', JBool (code = 0)), (''sandboxed'', JBool (sh_sandbox t \<noteq> None))])
                 (elapsed_since (se_now env w) (se_now env w'))))))"

text \<open>The parameters may be the object or a text that holds it; \<open>dec\<close> is the JSON parser.\<close>

definition shell_requires_approval_for :: "(string \<Rightarrow> json option) \<Rightarrow> json \<Rightarrow> bool" where
  "shell_requires_approval_for dec params =
     (let command = (\<lambda>v. Option.bind (json_get v ''command'') json_str);
          cmd = (case command params of Some c \<Rightarrow> Some c
                 | None \<Rightarrow> Option.bind (Option.bind (json_str params) dec) command)
      in case cmd of Some c \<Rightarrow> requires_explicit_approval c | None \<Rightarrow> False)"

section \<open>Lemmas\<close>

lemma child_environment_extra:
  "foldl (\<lambda>m (k, v). m(k \<mapsto> v)) m extra k = (case map_of (rev extra) k of Some v \<Rightarrow> Some v | None \<Rightarrow> m k)"
  by (induction extra arbitrary: m) (auto simp: map_add_def split: option.split)

lemma child_environment_safe:
  "foldl (\<lambda>m k. case var k of Some v \<Rightarrow> m(k \<mapsto> v) | None \<Rightarrow> m) m ks k =
     (if k \<in> set ks \<and> var k \<noteq> None then var k else m k)"
  by (induction ks arbitrary: m) (auto split: option.split)

lemma to_lower_no_upper: "c \<in> set (to_lower s) \<Longrightarrow> \<not> is_upper c"
  by (auto simp: to_lower_def)

lemma upper_pattern_misses: "\<exists>c \<in> set p. is_upper c \<Longrightarrow> \<not> contains_str (to_lower s) p"
proof
  assume "\<exists>c \<in> set p. is_upper c" "contains_str (to_lower s) p"
  then obtain c l r where c: "c \<in> set p" "is_upper c" "to_lower s = l @ p @ r" by (auto simp: contains_iff)
  then have "c \<in> set (to_lower s)" by simp
  with c(2) to_lower_no_upper show False by blast
qed

lemma execute_unchanged: "refusal t cmd = Some e \<Longrightarrow> execute_command env t cmd wd tm extra w = (w, Inl e)"
  by (simp add: execute_command_def)

lemma shell_blocked_None: "shell_blocked t cmd = None \<longleftrightarrow> \<not> list_ex (contains_str (to_lower cmd)) BLOCKED_COMMANDS
   \<and> (sh_allow_dangerous t \<or> \<not> list_ex (contains_str (to_lower cmd)) DANGEROUS_PATTERNS)"
  by (simp add: shell_blocked_def Let_def)

lemma refusal_None: "refusal t cmd = None \<longleftrightarrow> shell_blocked t cmd = None \<and> detect_command_injection cmd = None"
  by (auto simp: refusal_def split: option.split)

text \<open>The bytes before and behind a match.\<close>

lemma starts_word_iff: "starts_word (l @ s) (length l) \<longleftrightarrow>
   l = [] \<or> last l \<in> {CHR '' '', CHR 0x09, CHR ''|'', CHR '';'', CHR ''&'', CHR 0x0A, CHR ''(''}"
  by (cases l rule: rev_cases) (auto simp: starts_word_def)

lemma ends_word_iff: "ends_word (l @ p @ r) (length l + length p) \<longleftrightarrow>
   r = [] \<or> hd r \<in> {CHR '' '', CHR 0x09, CHR 0x0A, CHR '';'', CHR ''|'', CHR ''&'', CHR '')''}"
  by (cases r) (auto simp: ends_word_def nth_append)

lemma token_iff:
  assumes "borderless token"
  shows "has_command_token lower token \<longleftrightarrow> (\<exists>l r. lower = l @ token @ r
     \<and> (l = [] \<or> last l \<in> {CHR '' '', CHR 0x09, CHR ''|'', CHR '';'', CHR ''&'', CHR 0x0A, CHR ''(''}))"
  (is "_ \<longleftrightarrow> (\<exists>l r. _ \<and> ?sep l)")
proof
  assume "has_command_token lower token"
  then obtain i where i: "i \<in> set (match_indices lower token)" "starts_word lower i"
    by (auto simp: has_command_token_def list_ex_iff)
  then obtain l r where l: "lower = l @ token @ r" "length l = i" using match_indices_iff [OF assms] by blast
  then have "starts_word (l @ (token @ r)) (length l)" using i(2) by simp
  then have "?sep l" unfolding starts_word_iff .
  with l show "\<exists>l r. lower = l @ token @ r \<and> ?sep l" by blast
next
  assume "\<exists>l r. lower = l @ token @ r \<and> ?sep l"
  then obtain l r where l: "lower = l @ token @ r" "?sep l" by blast
  then have "starts_word lower (length l)" by (simp add: starts_word_iff)
  moreover have "length l \<in> set (match_indices lower token)" using match_indices_iff [OF assms] l by blast
  ultimately show "has_command_token lower token" by (auto simp: has_command_token_def list_ex_iff)
qed

lemma pipe_iff:
  assumes "borderless (''| '' @ shell)" "borderless (''|'' @ shell)"
  shows "has_pipe_to lower shell \<longleftrightarrow> (\<exists>l r. (lower = l @ ''| '' @ shell @ r \<or> lower = l @ ''|'' @ shell @ r)
     \<and> (r = [] \<or> hd r \<in> {CHR '' '', CHR 0x09, CHR 0x0A, CHR '';'', CHR ''|'', CHR ''&'', CHR '')''}))"
  (is "_ \<longleftrightarrow> (\<exists>l r. _ \<and> ?sep r)")
proof -
  have one: "list_ex (\<lambda>i. ends_word lower (i + length p)) (match_indices lower p) \<longleftrightarrow> (\<exists>l r. lower = l @ p @ r \<and> ?sep r)"
    if b: "borderless p" for p
  proof
    assume "list_ex (\<lambda>i. ends_word lower (i + length p)) (match_indices lower p)"
    then obtain i where i: "i \<in> set (match_indices lower p)" "ends_word lower (i + length p)" by (auto simp: list_ex_iff)
    then obtain l r where l: "lower = l @ p @ r" "length l = i" using match_indices_iff [OF b] by blast
    then have "ends_word (l @ p @ r) (length l + length p)" using i(2) by simp
    then have "?sep r" unfolding ends_word_iff .
    with l show "\<exists>l r. lower = l @ p @ r \<and> ?sep r" by blast
  next
    assume "\<exists>l r. lower = l @ p @ r \<and> ?sep r"
    then obtain l r where l: "lower = l @ p @ r" "?sep r" by blast
    then have "ends_word lower (length l + length p)" by (simp add: ends_word_iff)
    moreover have "length l \<in> set (match_indices lower p)" using match_indices_iff [OF b] l by blast
    ultimately show "list_ex (\<lambda>i. ends_word lower (i + length p)) (match_indices lower p)" by (auto simp: list_ex_iff)
  qed
  show ?thesis
    using one [OF assms(1)] one [OF assms(2)] by (simp add: has_pipe_to_def Let_def) blast
qed

definition shell_names :: "string list" where
  "shell_names = [''sh'', ''bash'', ''zsh'', ''dash'', ''/bin/sh'', ''/bin/bash'']"

lemma shells_borderless: "list_all (\<lambda>s. borderless (''| '' @ s) \<and> borderless (''|'' @ s)) shell_names"
  by code_simp

section \<open>Properties\<close>

text \<open>A pipe into a shell is recognised exactly when one of the six names stands behind a pipe sign, with
  at most one blank between, and is followed by the end or by a separator.\<close>
theorem shell_pipe_iff:
  "contains_shell_pipe lower \<longleftrightarrow> (\<exists>s \<in> set shell_names. \<exists>l r. (lower = l @ ''| '' @ s @ r \<or> lower = l @ ''|'' @ s @ r)
     \<and> (r = [] \<or> hd r \<in> {CHR '' '', CHR 0x09, CHR 0x0A, CHR '';'', CHR ''|'', CHR ''&'', CHR '')''}))"
proof -
  have "has_pipe_to lower s \<longleftrightarrow> (\<exists>l r. (lower = l @ ''| '' @ s @ r \<or> lower = l @ ''|'' @ s @ r)
     \<and> (r = [] \<or> hd r \<in> {CHR '' '', CHR 0x09, CHR 0x0A, CHR '';'', CHR ''|'', CHR ''&'', CHR '')''}))"
    if "s \<in> set shell_names" for s
    using shells_borderless that by (intro pipe_iff) (simp_all add: list_all_iff)
  moreover have "contains_shell_pipe lower \<longleftrightarrow> (\<exists>s \<in> set shell_names. has_pipe_to lower s)"
    by (simp add: contains_shell_pipe_def shell_names_def)
  ultimately show ?thesis by blast
qed

text \<open>C14: A command reaches a process or the sandbox only if it passed every check: no blocked pattern in any
  case of its letters, no dangerous pattern unless they are allowed, no sign of an injection.\<close>
theorem executed_command_checked:
  assumes "fst (shell_execute env t params extra w) \<noteq> w"
  shows "\<exists>cmd. json_get params ''command'' = Some (JStr cmd)
     \<and> (\<forall>p \<in> set BLOCKED_COMMANDS. \<not> contains_str (to_lower cmd) p)
     \<and> (sh_allow_dangerous t \<or> (\<forall>p \<in> set DANGEROUS_PATTERNS. \<not> contains_str (to_lower cmd) p))
     \<and> detect_command_injection cmd = None"
proof -
  obtain cmd where c: "require_str params ''command'' = Inr cmd"
    using assms by (cases "require_str params ''command''") (auto simp: shell_execute_def)
  then have p: "json_get params ''command'' = Some (JStr cmd)"
    by (auto simp: require_str_def json_str_Some split: option.splits bind_splits)
  have "refusal t cmd = None"
  proof (cases "refusal t cmd")
    case (Some e)
    from assms c show ?thesis by (simp add: shell_execute_def execute_unchanged [OF Some])
  qed
  then have "shell_blocked t cmd = None" "detect_command_injection cmd = None" by (simp_all add: refusal_None)
  moreover from this(1) have "\<not> list_ex (contains_str (to_lower cmd)) BLOCKED_COMMANDS"
    "sh_allow_dangerous t \<or> \<not> list_ex (contains_str (to_lower cmd)) DANGEROUS_PATTERNS"
    by (simp_all add: shell_blocked_None)
  ultimately show ?thesis using p unfolding list_ex_iff by blast
qed

text \<open>The child process sees exactly the variables of the list and the extra ones: nothing else of the
  agent's environment reaches it.\<close>
theorem child_environment_exact:
  "child_environment var extra k = (case map_of (rev extra) k of
     Some v \<Rightarrow> Some v | None \<Rightarrow> if k \<in> set SAFE_ENV_VARS then var k else None)"
  by (simp add: child_environment_def child_environment_extra child_environment_safe split: option.split)

text \<open>With a sandbox that is initialized or enabled the host never runs a command.\<close>
theorem sandbox_never_falls_through:
  assumes "sh_sandbox t = Some sb" "sb_initialized sb \<or> sb_enabled sb"
  shows "shell_execute (env\<lparr>se_spawn := other\<rparr>) t params extra w = shell_execute env t params extra w"
proof -
  have "execute_sandboxed (env\<lparr>se_spawn := other\<rparr>) t = execute_sandboxed env t"
    by (simp add: execute_sandboxed_def fun_eq_iff)
  with assms have "execute_command (env\<lparr>se_spawn := other\<rparr>) t c d l x w = execute_command env t c d l x w" for c d l x w
    by (simp add: execute_command_def Let_def split: option.split)
  moreover have "se_now (env\<lparr>se_spawn := other\<rparr>) = se_now env" by simp
  ultimately show ?thesis unfolding shell_execute_def by (simp split: sum.split prod.split)
qed

theorem sandbox_never_falls_through_witness:
  "shell_execute (\<lparr>se_var = \<lambda>v. None, se_current_dir = None, se_spawn = \<lambda>w c d m l. (w, Killed_late),
       se_sandbox = \<lambda>w c d p l. (w + 1, Sandbox_output c 0), se_lossy = \<lambda>s. s, se_now = int\<rparr>
       \<lparr>se_spawn := \<lambda>w c d m l. (w, Spawn_error ''no'')\<rparr>)
     (new_shell_tool\<lparr>sh_sandbox := Some \<lparr>sb_initialized = False, sb_enabled = True\<rparr>\<rparr>)
     (JObj [(''command'', JStr ''ls'')]) [] (0 :: nat)
   = shell_execute \<lparr>se_var = \<lambda>v. None, se_current_dir = None, se_spawn = \<lambda>w c d m l. (w, Killed_late),
       se_sandbox = \<lambda>w c d p l. (w + 1, Sandbox_output c 0), se_lossy = \<lambda>s. s, se_now = int\<rparr>
     (new_shell_tool\<lparr>sh_sandbox := Some \<lparr>sb_initialized = False, sb_enabled = True\<rparr>\<rparr>)
     (JObj [(''command'', JStr ''ls'')]) [] 0"
  by (rule sandbox_never_falls_through [where sb = "\<lparr>sb_initialized = False, sb_enabled = True\<rparr>"]) simp_all

text \<open>A sandbox that is configured but neither initialized nor enabled: the command runs on the host and
  the output says it was sandboxed.\<close>
theorem host_run_reported_sandboxed:
  assumes "sh_sandbox t = Some \<lparr>sb_initialized = False, sb_enabled = False\<rparr>"
    "json_get params ''command'' = Some (JStr cmd)" "refusal t cmd = None"
    "shell_execute env t params extra w = (w', Inr out)"
  shows "(\<exists>dir limit. fst (se_spawn env w cmd dir (child_environment (se_var env) extra) limit) = w')
     \<and> json_get (to_result out) ''sandboxed'' = Some (JBool True)"
proof -
  have "require_str params ''command'' = Inr cmd" using assms(2) by (simp add: require_str_def)
  with assms show ?thesis
    by (auto simp: shell_execute_def execute_command_def execute_direct_def Let_def output_success_def
        split: prod.splits sum.splits process_end.splits) (metis fst_conv)+
qed

definition host_env :: "nat shell_env" where
  "host_env = \<lparr>se_var = \<lambda>v. None, se_current_dir = None, se_spawn = \<lambda>w c d m l. (w + 1, Exited ''hi'' [] (Some 0)),
     se_sandbox = \<lambda>w c d p l. (w, Sandbox_late), se_lossy = \<lambda>s. s, se_now = int\<rparr>"

definition idle_sandbox :: shell_tool_state where
  "idle_sandbox = new_shell_tool\<lparr>sh_sandbox := Some \<lparr>sb_initialized = False, sb_enabled = False\<rparr>\<rparr>"

lemma ls_accepted: "refusal t ''ls'' = None"
proof -
  have "list_ex (contains_str (to_lower ''ls'')) BLOCKED_COMMANDS = False" by code_simp
  moreover have "list_ex (contains_str (to_lower ''ls'')) DANGEROUS_PATTERNS = False" by code_simp
  moreover have "detect_command_injection ''ls'' = None" by code_simp
  ultimately show ?thesis by (simp add: refusal_None shell_blocked_def Let_def)
qed

lemma ls_on_host: "shell_execute host_env idle_sandbox (JObj [(''command'', JStr ''ls'')]) [] 0
   = (1, Inr (output_success (JObj [(''output'', JStr ''hi''), (''exit_code'', JNum (show_int 0)),
       (''success'', JBool True), (''sandboxed'', JBool True)]) 1))"
  by (simp add: shell_execute_def require_str_def execute_command_def ls_accepted idle_sandbox_def new_shell_tool_def
      execute_direct_def host_env_def combine_output_def truncate_output_def MAX_OUTPUT_SIZE_def elapsed_since_def Let_def)

theorem host_run_reported_sandboxed_witness:
  "(\<exists>dir limit. fst (se_spawn host_env 0 ''ls'' dir (child_environment (se_var host_env) []) limit) = 1)
     \<and> json_get (to_result (output_success (JObj [(''output'', JStr ''hi''), (''exit_code'', JNum (show_int 0)),
       (''success'', JBool True), (''sandboxed'', JBool True)]) 1)) ''sandboxed'' = Some (JBool True)"
  by (rule host_run_reported_sandboxed [OF _ _ ls_accepted ls_on_host])
    (simp_all add: idle_sandbox_def)

theorem executed_command_checked_witness:
  "\<exists>cmd. json_get (JObj [(''command'', JStr ''ls'')]) ''command'' = Some (JStr cmd)
     \<and> (\<forall>p \<in> set BLOCKED_COMMANDS. \<not> contains_str (to_lower cmd) p)"
  using executed_command_checked [of host_env idle_sandbox "JObj [(''command'', JStr ''ls'')]" "[]" 0]
  by (auto simp: ls_on_host)

text \<open>The pattern \<open>chmod -R 777 /\<close> of the blocked commands is compared with the command in lower case and
  never matches: the command it names passes all checks.\<close>
theorem blocked_chmod_passes:
  "(\<forall>cmd. \<not> contains_str (to_lower cmd) ''chmod -R 777 /'') \<and> refusal new_shell_tool ''chmod -R 777 /'' = None"
proof -
  have "\<not> contains_str (to_lower cmd) ''chmod -R 777 /''" for cmd
    by (rule upper_pattern_misses) (simp add: is_upper_def code_of_def)
  moreover have "refusal new_shell_tool ''chmod -R 777 /'' = None" by code_simp
  ultimately show ?thesis by blast
qed

text \<open>Whether a command needs explicit approval does not depend on the case of its letters.\<close>
theorem approval_ignores_case: "requires_explicit_approval (to_upper cmd) = requires_explicit_approval cmd"
proof -
  have "lower_char (upper_char c) = lower_char c" for c
    by (auto simp: lower_char_def upper_char_def char_defs)
  then have "to_lower (to_upper cmd) = to_lower cmd" by (simp add: to_lower_def to_upper_def)
  then show ?thesis by (simp add: requires_explicit_approval_def)
qed

end
