(* ===== verification/File_Tools.thy ===== *)
theory File_Tools
  imports Tool_Base Shell_Tool "HOL-Library.List_Lexorder" "HOL-Library.Char_ord" "HOL-Library.Product_Lexorder"
begin

text \<open>
  The file tools, \<open>src/tools/builtin/file.rs\<close>: the validation of paths, reading, writing, listing and
  patching. A path is the list of its components, as \<open>Path::components\<close> gives them on Unix. The file
  system is \<open>fs_env\<close>, whose functions read or change a world.
\<close>

section \<open>Paths\<close>

datatype component = RootDir | CurDir | ParentDir | Normal string

type_synonym path = "component list"

definition path_body :: "string list \<Rightarrow> path" where
  "path_body ps = map (\<lambda>w. if w = ''..'' then ParentDir else Normal w) (filter (\<lambda>w. w \<noteq> ''.'') ps)"

definition path_components :: "string \<Rightarrow> path" where
  "path_components s =
     (let parts = filter (\<lambda>w. w \<noteq> []) (split_on (CHR ''/'') s)
      in if starts_with s ''/'' then RootDir # path_body parts
         else if parts \<noteq> [] \<and> hd parts = ''.'' then CurDir # path_body parts else path_body parts)"

definition path_is_absolute :: "path \<Rightarrow> bool" where
  "path_is_absolute p \<longleftrightarrow> p \<noteq> [] \<and> hd p = RootDir"

definition join_path :: "path \<Rightarrow> path \<Rightarrow> path" where
  "join_path b p = (if path_is_absolute p \<or> b = [] then p else b @ filter (\<lambda>c. c \<noteq> CurDir) p)"

fun name_of :: "component \<Rightarrow> string option" where
  "name_of (Normal n) = Some n"
| "name_of _ = None"

definition file_name :: "path \<Rightarrow> string option" where
  "file_name p = (if p = [] then None else name_of (last p))"

definition path_parent :: "path \<Rightarrow> path option" where
  "path_parent p = (if p = [] \<or> last p = RootDir then None else Some (butlast p))"

definition path_below :: "path \<Rightarrow> path \<Rightarrow> bool" where
  "path_below p base \<longleftrightarrow> take (length base) p = base"

definition normalize_step :: "path \<Rightarrow> component \<Rightarrow> path" where
  "normalize_step acc c = (case c of
     ParentDir \<Rightarrow> (if acc \<noteq> [] \<and> name_of (last acc) \<noteq> None then butlast acc else acc)
   | CurDir \<Rightarrow> acc
   | _ \<Rightarrow> acc @ [c])"

definition normalize_lexical :: "path \<Rightarrow> path" where
  "normalize_lexical p = foldl normalize_step [] p"

section \<open>The file system\<close>

record dir_entry =
  de_name :: string
  de_is_dir :: bool
  de_size :: nat

text \<open>An entry of a directory may fail to be read. \<open>fv_tenths\<close> prints a quotient with one decimal.\<close>

record 'w fs_env =
  fv_exists :: "'w \<Rightarrow> path \<Rightarrow> bool"
  fv_canonicalize :: "'w \<Rightarrow> path \<Rightarrow> path option"
  fv_current_dir :: "path option"
  fv_display :: "path \<Rightarrow> string"
  fv_size :: "'w \<Rightarrow> path \<Rightarrow> (string, nat) result"
  fv_read :: "'w \<Rightarrow> path \<Rightarrow> (string, string) result"
  fv_create_dirs :: "'w \<Rightarrow> path \<Rightarrow> 'w \<times> (string, unit) result"
  fv_write :: "'w \<Rightarrow> path \<Rightarrow> string \<Rightarrow> 'w \<times> (string, unit) result"
  fv_entries :: "'w \<Rightarrow> path \<Rightarrow> (string, (string, dir_entry) result list) result"
  fv_tenths :: "nat \<Rightarrow> nat \<Rightarrow> string"
  fv_now :: "'w \<Rightarrow> instant"

section \<open>Validation\<close>

definition canonical_or :: "'w fs_env \<Rightarrow> 'w \<Rightarrow> path \<Rightarrow> path \<Rightarrow> path" where
  "canonical_or env w p d = (case fv_canonicalize env w p of Some c \<Rightarrow> c | None \<Rightarrow> d)"

definition resolve_path :: "'w fs_env \<Rightarrow> 'w \<Rightarrow> string \<Rightarrow> path option \<Rightarrow> path" where
  "resolve_path env w s base =
     (let p = path_components s in
      if path_is_absolute p then canonical_or env w p (normalize_lexical p)
      else case base of
        Some b \<Rightarrow> (let joined = join_path b p in canonical_or env w joined (normalize_lexical joined))
      | None \<Rightarrow> normalize_lexical (join_path (case fv_current_dir env of Some d \<Rightarrow> d | None \<Rightarrow> [CurDir]) p))"

text \<open>The nearest ancestor that exists, canonical, with the rest of the path behind it.\<close>

function anchored :: "'w fs_env \<Rightarrow> 'w \<Rightarrow> path \<Rightarrow> path \<Rightarrow> string list \<Rightarrow> path" where
  "anchored env w resolved ancestor rest =
     (if fv_exists env w ancestor then canonical_or env w ancestor ancestor @ map Normal rest
      else case path_parent ancestor of
        None \<Rightarrow> resolved
      | Some parent \<Rightarrow>
          anchored env w resolved parent (case file_name ancestor of Some n \<Rightarrow> n # rest | None \<Rightarrow> rest))"
  by pat_completeness auto
termination
  by (relation "measure (\<lambda>(env, w, resolved, ancestor, rest). length ancestor)") (auto simp: path_parent_def split: if_splits)

declare anchored.simps [simp del]

definition checked_path :: "'w fs_env \<Rightarrow> 'w \<Rightarrow> path \<Rightarrow> path" where
  "checked_path env w resolved =
     (if fv_exists env w resolved then canonical_or env w resolved resolved else anchored env w resolved resolved [])"

definition validate_path :: "'w fs_env \<Rightarrow> 'w \<Rightarrow> string \<Rightarrow> path option \<Rightarrow> (exec_error, path) result" where
  "validate_path env w s base =
     (let resolved = resolve_path env w s base in
      case base of
        None \<Rightarrow> Inr resolved
      | Some b \<Rightarrow>
          (if path_below (checked_path env w resolved) (canonical_or env w b (normalize_lexical b)) then Inr resolved
           else Inl (Exec_not_authorized (''Path escapes sandbox: '' @ s))))"

section \<open>Reading\<close>

definition MAX_READ_SIZE :: nat where "MAX_READ_SIZE = 1024 * 1024"
definition MAX_WRITE_SIZE :: nat where "MAX_WRITE_SIZE = 5 * 1024 * 1024"
definition MAX_DIR_ENTRIES :: nat where "MAX_DIR_ENTRIES = 500"

definition pad_left :: "nat \<Rightarrow> string \<Rightarrow> string" where
  "pad_left n s = replicate (n - length s) (CHR '' '') @ s"

definition numbered_line :: "nat \<Rightarrow> string \<Rightarrow> string" where
  "numbered_line n line = pad_left 6 (show_nat n) @ [CHR 0xE2, CHR 0x94, CHR 0x82] @ '' '' @ line"

text \<open>Reading takes no time here: the world does not change. \<open>lines[start..end]\<close> panics unless \<open>start <= end <= len\<close>; the sum wraps at 64 bits.\<close>

definition select_lines :: "string list \<Rightarrow> nat \<Rightarrow> nat option \<Rightarrow> (nat \<times> nat \<times> string list) outcome" where
  "select_lines ls offset limit =
     (let start = (if offset > 0 then offset - 1 else 0);
          stop = (case limit of Some n \<Rightarrow> min ((start + n) mod 2 ^ 64) (length ls) | None \<Rightarrow> length ls)
      in if start \<le> stop then Returns (start, stop, drop start (take stop ls)) else Panics)"

definition read_file_execute ::
  "'w fs_env \<Rightarrow> path option \<Rightarrow> json \<Rightarrow> 'w \<Rightarrow> ((exec_error, tool_output) result) outcome" where
  "read_file_execute env base params w =
     (case require_str params ''path'' of
        Inl e \<Rightarrow> Returns (Inl e)
      | Inr path_str \<Rightarrow>
         (let offset = (case Option.bind (json_get params ''offset'') json_u64 of Some n \<Rightarrow> n | None \<Rightarrow> 0);
              limit = Option.bind (json_get params ''limit'') json_u64
          in case validate_path env w path_str base of
            Inl e \<Rightarrow> Returns (Inl e)
          | Inr p \<Rightarrow>
             (case fv_size env w p of
                Inl e \<Rightarrow> Returns (Inl (Exec_failed (''Cannot access file: '' @ e)))
              | Inr bytes \<Rightarrow>
                 (if bytes > MAX_READ_SIZE then
                    Returns (Inl (Exec_failed (''File too large ('' @ show_nat bytes @ '' bytes). Maximum is ''
                      @ show_nat MAX_READ_SIZE @ '' bytes. Use offset/limit for partial reads.'')))
                  else case fv_read env w p of
                    Inl e \<Rightarrow> Returns (Inl (Exec_failed (''Failed to read file: '' @ e)))
                  | Inr txt \<Rightarrow>
                     (case select_lines (str_lines txt) offset limit of
                        Panics \<Rightarrow> Panics
                      | Returns (start, stop, ls) \<Rightarrow>
                          Returns (Inr (output_success (JObj
                            [(''content'', JStr (join [CHR 0x0A] (map (\<lambda>(i, l). numbered_line (start + i + 1) l)
                                (zip [0..<length ls] ls)))),
                             (''total_lines'', JNum (show_nat (length (str_lines txt)))),
                             (''lines_shown'', JNum (show_nat (stop - start))),
                             (''path'', JStr (fv_display env p))]) 0)))))))"

section \<open>Writing\<close>

definition WORKSPACE_FILES :: "string list" where
  "WORKSPACE_FILES = [''HEARTBEAT.md'', ''MEMORY.md'', ''IDENTITY.md'', ''SOUL.md'', ''AGENTS.md'', ''USER.md'', ''README.md'']"

definition is_workspace_path :: "string \<Rightarrow> bool" where
  "is_workspace_path s \<longleftrightarrow>
     (case file_name (path_components s) of Some n \<Rightarrow> n | None \<Rightarrow> s) \<in> set WORKSPACE_FILES
     \<or> starts_with s ''daily/'' \<or> starts_with s ''context/''"

definition write_file_execute ::
  "'w fs_env \<Rightarrow> path option \<Rightarrow> json \<Rightarrow> 'w \<Rightarrow> 'w \<times> (exec_error, tool_output) result" where
  "write_file_execute env base params w =
     (case require_str params ''path'' of
        Inl e \<Rightarrow> (w, Inl e)
      | Inr path_str \<Rightarrow>
         (if is_workspace_path path_str then
            (w, Inl (Exec_invalid_parameters ([QUOTE] @ path_str @ [QUOTE]
               @ '' is a workspace memory file. Use the memory_write tool instead of write_file. For HEARTBEAT.md use target=''
               @ [QUOTE] @ ''heartbeat'' @ [QUOTE] @ '', for MEMORY.md use target='' @ [QUOTE] @ ''memory'' @ [QUOTE] @ ''.'')))
          else case require_str params ''content'' of
            Inl e \<Rightarrow> (w, Inl e)
          | Inr txt \<Rightarrow>
             (if length txt > MAX_WRITE_SIZE then
                (w, Inl (Exec_invalid_parameters (''Content too large ('' @ show_nat (length txt) @ '' bytes). Maximum is ''
                   @ show_nat MAX_WRITE_SIZE @ '' bytes.'')))
              else case validate_path env w path_str base of
                Inl e \<Rightarrow> (w, Inl e)
              | Inr p \<Rightarrow>
                 (case (case path_parent p of Some d \<Rightarrow> fv_create_dirs env w d | None \<Rightarrow> (w, Inr ())) of
                    (w1, Inl e) \<Rightarrow> (w1, Inl (Exec_failed (''Failed to create directories: '' @ e)))
                  | (w1, Inr _) \<Rightarrow>
                     (case fv_write env w1 p txt of
                        (w2, Inl e) \<Rightarrow> (w2, Inl (Exec_failed (''Failed to write file: '' @ e)))
                      | (w2, Inr _) \<Rightarrow>
                          (w2, Inr (output_success (JObj [(''path'', JStr (fv_display env p)),
                             (''bytes_written'', JNum (show_nat (length txt))), (''success'', JBool True)])
                             (elapsed_since (fv_now env w) (fv_now env w2)))))))))"

section \<open>Listing\<close>

definition format_size :: "'w fs_env \<Rightarrow> nat \<Rightarrow> string" where
  "format_size env n =
     (if n \<ge> 1024 * 1024 * 1024 then fv_tenths env n (1024 * 1024 * 1024) @ ''GB''
      else if n \<ge> 1024 * 1024 then fv_tenths env n (1024 * 1024) @ ''MB''
      else if n \<ge> 1024 then fv_tenths env n 1024 @ ''KB''
      else show_nat n @ ''B'')"

definition SKIPPED_DIRS :: "string list" where
  "SKIPPED_DIRS = [''node_modules'', ''target'', ''.git'', ''__pycache__'', ''venv'', ''.venv'']"

text \<open>The path of an entry relative to the listed directory.\<close>

definition relative_text :: "path \<Rightarrow> path \<Rightarrow> string" where
  "relative_text base p = join ''/'' (List.map_filter name_of (drop (length base) p))"

definition entry_line :: "'w fs_env \<Rightarrow> path \<Rightarrow> path \<Rightarrow> dir_entry \<Rightarrow> string" where
  "entry_line env base p d =
     (let rel = relative_text base (p @ [Normal (de_name d)]) in
      if de_is_dir d then rel @ ''/'' else rel @ '' ('' @ format_size env (de_size d) @ '')'')"

text \<open>The entries of one directory; \<open>sub\<close> lists a subdirectory where the depth allows it.\<close>

fun walk_entries ::
  "'w fs_env \<Rightarrow> path \<Rightarrow> path \<Rightarrow> (path \<Rightarrow> string list \<Rightarrow> (exec_error, string list) result) option
     \<Rightarrow> (string, dir_entry) result list \<Rightarrow> string list \<Rightarrow> (exec_error, string list) result" where
  "walk_entries env base p sub [] acc = Inr acc"
| "walk_entries env base p sub (Inl e # es) acc = Inl (Exec_failed (''Failed to read entry: '' @ e))"
| "walk_entries env base p sub (Inr d # es) acc =
     (if length acc \<ge> MAX_DIR_ENTRIES then Inr acc
      else let acc1 = acc @ [entry_line env base p d] in
        case sub of
          None \<Rightarrow> walk_entries env base p sub es acc1
        | Some f \<Rightarrow>
            (if de_is_dir d \<and> de_name d \<notin> set SKIPPED_DIRS then
               (case f (p @ [Normal (de_name d)]) acc1 of
                  Inl e \<Rightarrow> Inl e | Inr acc2 \<Rightarrow> walk_entries env base p sub es acc2)
             else walk_entries env base p sub es acc1))"

definition list_one ::
  "'w fs_env \<Rightarrow> 'w \<Rightarrow> path \<Rightarrow> (path \<Rightarrow> string list \<Rightarrow> (exec_error, string list) result) option
     \<Rightarrow> path \<Rightarrow> string list \<Rightarrow> (exec_error, string list) result" where
  "list_one env w base sub p acc =
     (if length acc \<ge> MAX_DIR_ENTRIES then Inr acc
      else case fv_entries env w p of
        Inl e \<Rightarrow> Inl (Exec_failed (''Failed to read directory: '' @ e))
      | Inr es \<Rightarrow> walk_entries env base p sub es acc)"

text \<open>The number is the depth still allowed below the directory.\<close>

primrec list_dir_inner ::
  "'w fs_env \<Rightarrow> 'w \<Rightarrow> path \<Rightarrow> bool \<Rightarrow> nat \<Rightarrow> path \<Rightarrow> string list \<Rightarrow> (exec_error, string list) result" where
  "list_dir_inner env w base recursive 0 = list_one env w base None"
| "list_dir_inner env w base recursive (Suc n) =
     list_one env w base (if recursive then Some (list_dir_inner env w base recursive n) else None)"

definition sort_entries :: "string list \<Rightarrow> string list" where
  "sort_entries es = sort_key (\<lambda>e. (\<not> ends_with e ''/'', e)) es"

definition list_dir_execute ::
  "'w fs_env \<Rightarrow> path option \<Rightarrow> json \<Rightarrow> 'w \<Rightarrow> (exec_error, tool_output) result" where
  "list_dir_execute env base params w =
     (let path_str = json_field params ''path'' ''.'';
          recursive = (case Option.bind (json_get params ''recursive'') json_bool of Some b \<Rightarrow> b | None \<Rightarrow> False);
          max_depth = (case Option.bind (json_get params ''max_depth'') json_u64 of Some n \<Rightarrow> n | None \<Rightarrow> 3)
      in case validate_path env w path_str base of
        Inl e \<Rightarrow> Inl e
      | Inr p \<Rightarrow>
         (case list_dir_inner env w p recursive max_depth p [] of
            Inl e \<Rightarrow> Inl e
          | Inr es \<Rightarrow>
             (let sorted = sort_entries es; truncated = length sorted > MAX_DIR_ENTRIES;
                  shown = (if truncated then take MAX_DIR_ENTRIES sorted else sorted)
              in Inr (output_success (JObj [(''path'', JStr (fv_display env p)), (''entries'', JArr (map JStr shown)),
                   (''count'', JNum (show_nat (length shown))), (''truncated'', JBool truncated)]) 0))))"

section \<open>Patching\<close>

text \<open>\<open>replacen(.., 1)\<close>, \<open>replace\<close> and the count of \<open>matches\<close>; an empty pattern matches at every
  character boundary.\<close>

definition replace_first :: "string \<Rightarrow> string \<Rightarrow> string \<Rightarrow> string" where
  "replace_first old new s = (case find_str s old of
     Some i \<Rightarrow> take i s @ new @ drop (i + length old) s | None \<Rightarrow> s)"

definition replace_every :: "string \<Rightarrow> string \<Rightarrow> string \<Rightarrow> string" where
  "replace_every old new s =
     (if old = [] then concat (map (\<lambda>c. if continues_char c then [c] else new @ [c]) s) @ new
      else replace_str old new s)"

definition count_matches :: "string \<Rightarrow> string \<Rightarrow> nat" where
  "count_matches old s =
     (if old = [] then length (filter (\<lambda>c. \<not> continues_char c) s) + 1 else length (match_indices s old))"

definition apply_patch_execute ::
  "'w fs_env \<Rightarrow> path option \<Rightarrow> json \<Rightarrow> 'w \<Rightarrow> 'w \<times> (exec_error, tool_output) result" where
  "apply_patch_execute env base params w =
     (case require_str params ''path'' of
        Inl e \<Rightarrow> (w, Inl e)
      | Inr path_str \<Rightarrow>
     (case require_str params ''old_string'' of
        Inl e \<Rightarrow> (w, Inl e)
      | Inr old \<Rightarrow>
     (case require_str params ''new_string'' of
        Inl e \<Rightarrow> (w, Inl e)
      | Inr new \<Rightarrow>
         (let every = (case Option.bind (json_get params ''replace_all'') json_bool of Some b \<Rightarrow> b | None \<Rightarrow> False) in
          case validate_path env w path_str base of
            Inl e \<Rightarrow> (w, Inl e)
          | Inr p \<Rightarrow>
             (case fv_read env w p of
                Inl e \<Rightarrow> (w, Inl (Exec_failed (''Failed to read file: '' @ e)))
              | Inr txt \<Rightarrow>
                 (if \<not> contains_str txt old then
                    (w, Inl (Exec_failed (''Could not find the specified text in '' @ fv_display env p
                       @ ''. Make sure old_string matches exactly.'')))
                  else case fv_write env w p (if every then replace_every old new txt else replace_first old new txt) of
                    (w', Inl e) \<Rightarrow> (w', Inl (Exec_failed (''Failed to write file: '' @ e)))
                  | (w', Inr _) \<Rightarrow>
                      (w', Inr (output_success (JObj [(''path'', JStr (fv_display env p)),
                         (''replacements'', JNum (show_nat (if every then count_matches old txt else 1))),
                         (''success'', JBool True)]) (elapsed_since (fv_now env w) (fv_now env w'))))))))))"

end
