(* ===== verification/File_Props.thy ===== *)
theory File_Props
  imports File_Tools
begin

text \<open>
  What the file tools promise: a validated path stays inside the base directory, a patch changes the
  first match alone, a listing is bounded; and where they do not keep it.
\<close>

section \<open>Paths\<close>

definition plain :: "path \<Rightarrow> bool" where
  "plain p \<longleftrightarrow> (\<exists>ns. p = RootDir # map Normal ns)"

lemma plain_append: "plain p \<Longrightarrow> plain (p @ map Normal ns)"
  unfolding plain_def by (metis append_Cons map_append)

lemma normalize_plain:
  "plain acc \<Longrightarrow> RootDir \<notin> set p \<Longrightarrow> plain (foldl normalize_step acc p)"
proof (induction p arbitrary: acc)
  case (Cons c p)
  have "plain (normalize_step acc c)"
  proof (cases c)
    case ParentDir
    obtain ns where ns: "acc = RootDir # map Normal ns" using Cons.prems(1) by (auto simp: plain_def)
    show ?thesis
    proof (cases ns rule: rev_cases)
      case Nil
      with ns ParentDir show ?thesis by (simp add: normalize_step_def plain_def)
    next
      case (snoc ms m)
      with ns ParentDir have "normalize_step acc c = RootDir # map Normal ms"
        by (simp add: normalize_step_def butlast_append)
      then show ?thesis by (auto simp: plain_def)
    qed
  next
    case (Normal n)
    with Cons.prems(1) plain_append [of acc "[n]"] show ?thesis by (simp add: normalize_step_def)
  qed (use Cons.prems in \<open>simp_all add: normalize_step_def\<close>)
  with Cons.IH Cons.prems(2) show ?case by simp
qed simp

lemma components_head:
  assumes "starts_with s ''/''"
  shows "path_is_absolute (path_components s)"
  using assms by (simp add: path_components_def path_is_absolute_def Let_def)

lemma body_no_root [simp]: "RootDir \<notin> set (path_body ps)"
  by (auto simp: path_body_def)

lemma components_tail: "RootDir \<notin> set (tl (path_components s))"
proof -
  have "RootDir \<notin> set (tl xs)" if "RootDir \<notin> set xs" for xs :: path
    using that by (cases xs) auto
  then show ?thesis by (simp add: path_components_def Let_def)
qed

lemma components_relative: "\<not> path_is_absolute (path_components s) \<Longrightarrow> RootDir \<notin> set (path_components s)"
  by (auto simp: path_components_def path_is_absolute_def Let_def split: if_splits)

lemma absolute_plain:
  assumes "path_is_absolute p" "RootDir \<notin> set (tl p)"
  shows "plain (normalize_lexical p)"
proof -
  obtain q where p: "p = RootDir # q" using assms(1) by (cases p) (auto simp: path_is_absolute_def)
  have "plain [RootDir]" by (simp add: plain_def)
  from normalize_plain [OF this, of q] p assms(2) show ?thesis
    by (simp add: normalize_lexical_def normalize_step_def)
qed

lemma joined_plain:
  assumes "path_is_absolute b" "RootDir \<notin> set (tl b)"
  shows "plain (normalize_lexical (join_path b (path_components s)))"
proof (cases "path_is_absolute (path_components s)")
  case True
  then show ?thesis using absolute_plain components_tail by (simp add: join_path_def)
next
  case False
  obtain q where "b = RootDir # q" using assms(1) by (cases b) (auto simp: path_is_absolute_def)
  then have "path_is_absolute (join_path b (path_components s))" "RootDir \<notin> set (tl (join_path b (path_components s)))"
    using False assms(2) components_relative [OF False] by (auto simp: join_path_def path_is_absolute_def)
  then show ?thesis by (rule absolute_plain)
qed

text \<open>A normalized absolute path has no dots left, and normalizing it again changes nothing.\<close>

lemma plain_fixed: "plain p \<Longrightarrow> normalize_lexical p = p"
proof -
  have "foldl normalize_step acc (map Normal ns) = acc @ map Normal ns" for acc ns
    by (induction ns arbitrary: acc) (simp_all add: normalize_step_def)
  then show "plain p \<Longrightarrow> normalize_lexical p = p"
    by (auto simp: plain_def normalize_lexical_def normalize_step_def)
qed

section \<open>Validation\<close>

text \<open>
  What is documented of the file system, for the place \<open>target p\<close> that opening or creating \<open>p\<close> reaches:
  the root exists, a path that exists is reached at its canonical form, which is canonical itself, and
  a new name is created in the directory that is reached. The last fails for a link to nowhere.
\<close>

definition lawful :: "'w fs_env \<Rightarrow> 'w \<Rightarrow> (path \<Rightarrow> path) \<Rightarrow> bool" where
  "lawful env w target \<longleftrightarrow> fv_exists env w [RootDir]
     \<and> (\<forall>p. fv_exists env w p \<longrightarrow> fv_canonicalize env w p \<noteq> None)
     \<and> (\<forall>p c. fv_canonicalize env w p = Some c \<longrightarrow>
          target p = c \<and> fv_exists env w p \<and> fv_canonicalize env w c = Some c)"

definition no_dangling_link :: "'w fs_env \<Rightarrow> 'w \<Rightarrow> (path \<Rightarrow> path) \<Rightarrow> bool" where
  "no_dangling_link env w target \<longleftrightarrow>
     (\<forall>p n. \<not> fv_exists env w (p @ [Normal n]) \<longrightarrow> target (p @ [Normal n]) = target p @ [Normal n])"

lemma anchored_target:
  assumes l: "lawful env w target" and d: "no_dangling_link env w target"
  shows "plain a \<Longrightarrow> anchored env w r a rest = target a @ map Normal rest"
proof (induction "length a" arbitrary: a rest)
  case 0
  then show ?case by (simp add: plain_def)
next
  case (Suc n)
  show ?case
  proof (cases "fv_exists env w a")
    case True
    then obtain c where "fv_canonicalize env w a = Some c" using l by (auto simp: lawful_def)
    moreover from this have "target a = c" using l by (simp add: lawful_def)
    ultimately show ?thesis using True by (simp add: anchored.simps [of env w r a rest] canonical_or_def)
  next
    case False
    obtain ns where ns: "a = RootDir # map Normal ns" using Suc.prems by (auto simp: plain_def)
    with False l have "ns \<noteq> []" by (auto simp: lawful_def)
    then obtain ms m where a: "a = (RootDir # map Normal ms) @ [Normal m]" using ns by (cases ns rule: rev_cases) auto
    let ?p = "RootDir # map Normal ms"
    have "anchored env w r a rest = anchored env w r ?p (m # rest)"
      using False a by (subst anchored.simps) (simp add: path_parent_def file_name_def butlast_append)
    also have "\<dots> = target ?p @ map Normal (m # rest)"
      using Suc a by (intro Suc.hyps(1)) (auto simp: plain_def)
    also have "target (?p @ [Normal m]) = target ?p @ [Normal m]"
      using d False unfolding a no_dangling_link_def by blast
    then have "target ?p @ map Normal (m # rest) = target a @ map Normal rest" unfolding a by simp
    finally show ?thesis .
  qed
qed

lemma resolved_plain_or_canonical:
  assumes "path_is_absolute b" "RootDir \<notin> set (tl b)"
  shows "plain (resolve_path env w s (Some b)) \<or> (\<exists>p. fv_canonicalize env w p = Some (resolve_path env w s (Some b)))"
  using absolute_plain [of "path_components s"] components_tail joined_plain [OF assms, of s]
  by (auto simp: resolve_path_def canonical_or_def Let_def split: option.split)

lemma checked_is_target:
  assumes l: "lawful env w target" and d: "no_dangling_link env w target"
    and r: "plain r \<or> (\<exists>p. fv_canonicalize env w p = Some r)"
  shows "checked_path env w r = target r"
proof (cases "fv_exists env w r")
  case True
  with l show ?thesis by (auto simp: lawful_def checked_path_def canonical_or_def split: option.split)
next
  case False
  have "plain r"
  proof (rule ccontr)
    assume "\<not> plain r"
    with r obtain p where "fv_canonicalize env w p = Some r" by blast
    with l have "fv_canonicalize env w r = Some r" by (simp add: lawful_def)
    with l False show False by (simp add: lawful_def)
  qed
  with False anchored_target [OF l d, of r r "[]"] show ?thesis by (simp add: checked_path_def)
qed

text \<open>C13: Where no link points to nowhere, a path that is accepted for an absolute base directory reaches a
  place below the canonical base, whatever links and dots it goes through.\<close>
theorem validated_path_confined:
  assumes "lawful env w target" "no_dangling_link env w target" "starts_with base ''/''"
    "validate_path env w s (Some (path_components base)) = Inr r"
  shows "path_below (target r) (canonical_or env w (path_components base) (normalize_lexical (path_components base)))"
proof -
  let ?b = "path_components base"
  have "r = resolve_path env w s (Some ?b)"
    "path_below (checked_path env w r) (canonical_or env w ?b (normalize_lexical ?b))"
    using assms(4) by (auto simp: validate_path_def Let_def split: if_splits)
  moreover from this(1) have "plain r \<or> (\<exists>p. fv_canonicalize env w p = Some r)"
    using resolved_plain_or_canonical [OF components_head [OF assms(3)] components_tail] by simp
  ultimately show ?thesis using checked_is_target [OF assms(1,2)] by simp
qed

section \<open>A link to nowhere\<close>

text \<open>A file system with the directories \<open>/\<close> and \<open>/w\<close>; with a link \<open>/w/out\<close> to the missing file
  \<open>/etc/new\<close> when \<open>linked\<close>. The world is the list of what was written where.\<close>

definition example_target :: "bool \<Rightarrow> path \<Rightarrow> path" where
  "example_target linked p =
     (if linked \<and> p = [RootDir, Normal ''w'', Normal ''out''] then [RootDir, Normal ''etc'', Normal ''new''] else p)"

definition example_files :: "bool \<Rightarrow> ((path \<times> string) list) fs_env" where
  "example_files linked = \<lparr>fv_exists = \<lambda>w p. p \<in> {[RootDir], [RootDir, Normal ''w'']},
     fv_canonicalize = \<lambda>w p. if p \<in> {[RootDir], [RootDir, Normal ''w'']} then Some p else None,
     fv_current_dir = None, fv_display = \<lambda>p. [], fv_size = \<lambda>w p. Inr 6, fv_read = \<lambda>w p. Inr (''a'' @ [CHR 0x0A] @ ''b''),
     fv_create_dirs = \<lambda>w p. (w, Inr ()), fv_write = \<lambda>w p txt. (w @ [(example_target linked p, txt)], Inr ()),
     fv_entries = \<lambda>w p. Inr (replicate 600 (Inr \<lparr>de_name = ''f'', de_is_dir = False, de_size = 1\<rparr>)),
     fv_tenths = \<lambda>a b. [], fv_now = \<lambda>w. 0\<rparr>"

lemma example_lawful: "lawful (example_files linked) w (example_target linked)"
  by (auto simp: lawful_def example_files_def example_target_def)

lemma out_components: "path_components ''out'' = [Normal ''out'']" "path_components ''/w'' = [RootDir, Normal ''w'']"
  by code_simp+

lemma out_accepted: "validate_path (example_files linked) w ''out'' (Some (path_components ''/w''))
   = Inr [RootDir, Normal ''w'', Normal ''out'']"
proof -
  let ?env = "example_files linked" and ?r = "[RootDir, Normal ''w'', Normal ''out'']"
  have r: "resolve_path ?env w ''out'' (Some [RootDir, Normal ''w'']) = ?r"
    by (simp add: resolve_path_def out_components path_is_absolute_def join_path_def canonical_or_def example_files_def
        normalize_lexical_def normalize_step_def)
  have "anchored ?env w ?r ?r [] = ?r"
    by (simp add: anchored.simps path_parent_def file_name_def canonical_or_def example_files_def)
  then show ?thesis
    by (simp add: validate_path_def r out_components checked_path_def path_below_def canonical_or_def)
      (simp add: example_files_def path_below_def checked_path_def)
qed

text \<open>A link to nowhere inside the base directory is taken for a new file: the write is accepted and
  creates a file outside.\<close>
theorem dangling_link_escapes:
  "lawful (example_files True) [] (example_target True)
   \<and> fst (write_file_execute (example_files True) (Some (path_components ''/w''))
        (JObj [(''path'', JStr ''out''), (''content'', JStr ''x'')]) []) = [([RootDir, Normal ''etc'', Normal ''new''], ''x'')]"
proof -
  have "\<not> is_workspace_path ''out''" by code_simp
  moreover have "length ''x'' \<le> MAX_WRITE_SIZE" by (simp add: MAX_WRITE_SIZE_def)
  ultimately have "fst (write_file_execute (example_files True) (Some (path_components ''/w''))
      (JObj [(''path'', JStr ''out''), (''content'', JStr ''x'')]) []) = [(example_target True [RootDir, Normal ''w'', Normal ''out''], ''x'')]"
    by (simp add: write_file_execute_def require_str_def out_accepted) (simp add: example_files_def path_parent_def)
  with example_lawful show ?thesis by (simp add: example_target_def)
qed

theorem validated_path_confined_witness:
  "path_below (example_target False [RootDir, Normal ''w'', Normal ''out''])
     (canonical_or (example_files False) [] (path_components ''/w'') (normalize_lexical (path_components ''/w'')))"
proof -
  have "no_dangling_link (example_files False) [] (example_target False)"
    by (simp add: no_dangling_link_def example_target_def)
  moreover have "starts_with ''/w'' ''/''" by simp
  ultimately show ?thesis by (rule validated_path_confined [OF example_lawful _ _ out_accepted])
qed

section \<open>Reading and listing\<close>

text \<open>With an offset inside the file the lines from the offset on are shown, as many as the limit allows.\<close>
theorem read_window:
  assumes "offset \<le> length ls + 1" "0 < offset" "offset + n < 2 ^ 64"
  shows "select_lines ls offset (Some n) =
     Returns (offset - 1, min (offset - 1 + n) (length ls), take n (drop (offset - 1) ls))"
proof -
  have "(offset - 1 + n) mod 2 ^ 64 = offset - 1 + n" using assms by simp
  moreover have "drop (offset - 1) (take (min (offset - 1 + n) (length ls)) ls) = take n (drop (offset - 1) ls)"
    by (simp add: drop_take min_def)
  moreover have "offset - 1 \<le> min (offset - 1 + n) (length ls)" using assms(1,2) by linarith
  ultimately show ?thesis using assms(2) unfolding select_lines_def Let_def by simp
qed

theorem read_window_witness:
  "select_lines [''a'', ''b'', ''c''] 2 (Some 5) = Returns (1, 3, [''b'', ''c''])"
  using read_window [of 2 "[''a'', ''b'', ''c'']" 5] by simp

text \<open>An offset more than one behind the last line makes the tool panic, whatever the limit.\<close>
theorem read_offset_panics:
  assumes "json_get params ''path'' = Some (JStr s)" "validate_path env w s base = Inr p"
    "fv_size env w p = Inr n" "n \<le> MAX_READ_SIZE" "fv_read env w p = Inr body"
    "Option.bind (json_get params ''offset'') json_u64 = Some offset" "length (str_lines body) + 1 < offset"
  shows "read_file_execute env base params w = Panics"
proof -
  have "select_lines (str_lines body) offset limit = Panics" for limit
    using assms(7) by (auto simp: select_lines_def Let_def split: option.split)
  with assms show ?thesis by (simp add: read_file_execute_def require_str_def Let_def)
qed

theorem read_offset_panics_witness:
  "read_file_execute (example_files False) (Some (path_components ''/w''))
     (JObj [(''path'', JStr ''out''), (''offset'', JNum ''9'')]) [] = Panics"
proof -
  have "json_u64 (JNum ''9'') = Some 9" by (simp add: digits_value_def code_of_def is_digit_def)
  moreover have "length (str_lines (''a'' @ [CHR 0x0A] @ ''b'')) = 2" by code_simp
  ultimately show ?thesis
    by (intro read_offset_panics [OF _ out_accepted, where n = 6 and body = "''a'' @ [CHR 0x0A] @ ''b''" and offset = 9])
      (simp_all add: example_files_def MAX_READ_SIZE_def)
qed

text \<open>A listing never holds more entries than the limit.\<close>

lemma walk_bounded:
  assumes "\<And>f p acc acc'. sub = Some f \<Longrightarrow> f p acc = Inr acc' \<Longrightarrow> length acc \<le> MAX_DIR_ENTRIES \<Longrightarrow> length acc' \<le> MAX_DIR_ENTRIES"
  shows "walk_entries env base p sub es acc = Inr acc' \<Longrightarrow> length acc \<le> MAX_DIR_ENTRIES \<Longrightarrow> length acc' \<le> MAX_DIR_ENTRIES"
proof (induction es arbitrary: acc)
  case (Cons e es)
  show ?case
  proof (cases e)
    case (Inr d)
    let ?acc = "acc @ [entry_line env base p d]"
    show ?thesis
    proof (cases "length acc \<ge> MAX_DIR_ENTRIES")
      case False
      then have a: "length ?acc \<le> MAX_DIR_ENTRIES" by simp
      show ?thesis
      proof (cases "\<exists>f. sub = Some f \<and> de_is_dir d \<and> de_name d \<notin> set SKIPPED_DIRS")
        case True
        then obtain f where f: "sub = Some f" "de_is_dir d \<and> de_name d \<notin> set SKIPPED_DIRS" by blast
        obtain x where x: "f (p @ [Normal (de_name d)]) ?acc = Inr x" "walk_entries env base p sub es x = Inr acc'"
          using Cons.prems(1) Inr False f by (cases "f (p @ [Normal (de_name d)]) ?acc") auto
        from Cons.IH [OF x(2) assms [OF f(1) x(1) a]] show ?thesis .
      next
        case no: False
        then have "walk_entries env base p sub es ?acc = Inr acc'"
          using Cons.prems(1) Inr False by (cases sub) auto
        from Cons.IH [OF this a] show ?thesis .
      qed
    qed (use Cons.prems Inr in simp)
  qed (use Cons.prems in simp)
qed simp

lemma list_one_bounded:
  assumes "\<And>f p acc acc'. sub = Some f \<Longrightarrow> f p acc = Inr acc' \<Longrightarrow> length acc \<le> MAX_DIR_ENTRIES \<Longrightarrow> length acc' \<le> MAX_DIR_ENTRIES"
    and "list_one env w base sub p acc = Inr acc'" "length acc \<le> MAX_DIR_ENTRIES"
  shows "length acc' \<le> MAX_DIR_ENTRIES"
  using assms(2,3) walk_bounded [of sub env base p _ acc acc', OF assms(1)]
  by (auto simp: list_one_def split: if_splits sum.splits)

lemma list_dir_bounded:
  "list_dir_inner env w base recursive n p acc = Inr acc' \<Longrightarrow> length acc \<le> MAX_DIR_ENTRIES \<Longrightarrow> length acc' \<le> MAX_DIR_ENTRIES"
proof (induction n arbitrary: p acc acc')
  case 0
  then show ?case using list_one_bounded [of None env w base p acc acc'] by simp
next
  case (Suc n)
  have "\<And>f p acc acc'. (if recursive then Some (list_dir_inner env w base recursive n) else None) = Some f \<Longrightarrow>
      f p acc = Inr acc' \<Longrightarrow> length acc \<le> MAX_DIR_ENTRIES \<Longrightarrow> length acc' \<le> MAX_DIR_ENTRIES"
    using Suc.IH by (auto split: if_splits)
  from list_one_bounded [OF this _ Suc.prems(2)] Suc.prems(1) show ?case by simp
qed

text \<open>A listing is cut at 500 entries, and never says so: the flag \<open>truncated\<close> is always false.\<close>
theorem truncation_never_reported:
  assumes "list_dir_execute env base params w = Inr out"
  shows "json_get (to_result out) ''truncated'' = Some (JBool False)
     \<and> (\<exists>es. json_get (to_result out) ''entries'' = Some (JArr es) \<and> length es \<le> MAX_DIR_ENTRIES)"
proof -
  from assms obtain p es where es: "list_dir_inner env w p
      (case Option.bind (json_get params ''recursive'') json_bool of Some b \<Rightarrow> b | None \<Rightarrow> False)
      (case Option.bind (json_get params ''max_depth'') json_u64 of Some n \<Rightarrow> n | None \<Rightarrow> 3) p [] = Inr es"
    and out: "out = output_success (JObj [(''path'', JStr (fv_display env p)),
      (''entries'', JArr (map JStr (if length (sort_entries es) > MAX_DIR_ENTRIES then take MAX_DIR_ENTRIES (sort_entries es) else sort_entries es))),
      (''count'', JNum (show_nat (length (if length (sort_entries es) > MAX_DIR_ENTRIES then take MAX_DIR_ENTRIES (sort_entries es) else sort_entries es)))),
      (''truncated'', JBool (length (sort_entries es) > MAX_DIR_ENTRIES))]) 0"
    unfolding list_dir_execute_def Let_def by (auto split: sum.splits)
  have "length (sort_entries es) \<le> MAX_DIR_ENTRIES" using list_dir_bounded [OF es] by (simp add: sort_entries_def)
  then show ?thesis by (simp add: out output_success_def)
qed

section \<open>Writing and patching\<close>

text \<open>C35: A write touches the file system only for a validated path that is no workspace file and for a content
  within the limit; every refusal leaves it as it was.\<close>
theorem refused_write_changes_nothing:
  assumes "write_file_execute env base params w = (w', r)" "w' \<noteq> w"
  shows "\<exists>s txt p. json_get params ''path'' = Some (JStr s) \<and> json_get params ''content'' = Some (JStr txt)
     \<and> \<not> is_workspace_path s \<and> length txt \<le> MAX_WRITE_SIZE \<and> validate_path env w s base = Inr p"
proof -
  have req: "require_str params k = Inr s \<longleftrightarrow> json_get params k = Some (JStr s)" for k s
    by (auto simp: require_str_def json_str_Some split: option.splits bind_splits)
  obtain s where s: "require_str params ''path'' = Inr s" "\<not> is_workspace_path s"
    using assms by (cases "require_str params ''path''") (auto simp: write_file_execute_def split: if_splits)
  obtain body where t: "require_str params ''content'' = Inr body" "length body \<le> MAX_WRITE_SIZE"
    using assms s by (cases "require_str params ''content''") (auto simp: write_file_execute_def split: if_splits)
  obtain p where "validate_path env w s base = Inr p"
    using assms s t by (cases "validate_path env w s base") (auto simp: write_file_execute_def)
  with s t show ?thesis unfolding req by blast
qed

theorem refused_write_changes_nothing_witness:
  "\<exists>s txt p. json_get (JObj [(''path'', JStr ''out''), (''content'', JStr ''x'')]) ''path'' = Some (JStr s)
     \<and> validate_path (example_files True) [] s (Some (path_components ''/w'')) = Inr p"
proof -
  let ?j = "JObj [(''path'', JStr ''out''), (''content'', JStr ''x'')]"
  obtain w' r where r: "write_file_execute (example_files True) (Some (path_components ''/w'')) ?j [] = (w', r)"
    by (rule prod.exhaust)
  have "\<not> is_workspace_path ''out''" by code_simp
  then have "w' \<noteq> []" using r
    by (simp add: write_file_execute_def require_str_def out_accepted MAX_WRITE_SIZE_def)
      (auto simp: example_files_def path_parent_def)
  from refused_write_changes_nothing [OF r this] show ?thesis by blast
qed

lemma find_str_first:
  "find_str s p = Some i \<Longrightarrow> (\<exists>r. drop i s = p @ r) \<and> i \<le> length s \<and> (\<forall>j < i. \<not> starts_with (drop j s) p)"
proof (induction s arbitrary: i)
  case (Cons c cs)
  show ?case
  proof (cases "starts_with (c # cs) p")
    case True
    with Cons.prems show ?thesis by (auto simp: starts_with_iff)
  next
    case False
    then obtain k where k: "find_str cs p = Some k" "i = Suc k" using Cons.prems by auto
    have "\<not> starts_with (drop j (c # cs)) p" if "j < i" for j
      using that Cons.IH [OF k(1)] False k(2) by (cases j) auto
    with Cons.IH [OF k(1)] k(2) show ?thesis by auto
  qed
qed (auto simp: starts_with_iff split: if_splits)

text \<open>A patch that does not ask for all matches writes the old content with the first match alone replaced.\<close>
theorem patch_changes_first_match:
  assumes "json_get params ''path'' = Some (JStr s)" "json_get params ''old_string'' = Some (JStr old)"
    "json_get params ''new_string'' = Some (JStr new)" "json_get params ''replace_all'' = None"
    "validate_path env w s base = Inr p" "fv_read env w p = Inr body"
    "apply_patch_execute env base params w = (w', Inr out)"
  shows "\<exists>a b. body = a @ old @ b \<and> (\<forall>j < length a. \<not> starts_with (drop j body) old)
     \<and> fv_write env w p (a @ new @ b) = (w', Inr ())"
proof -
  have c: "contains_str body old"
    using assms by (auto simp: apply_patch_execute_def require_str_def split: if_splits)
  then obtain i where i: "find_str body old = Some i" using find_str_None [of body old] by (cases "find_str body old") auto
  from find_str_first [OF i] obtain b where b: "drop i body = old @ b" "i \<le> length body"
    "\<forall>j < i. \<not> starts_with (drop j body) old" by blast
  have "body = take i body @ old @ b" using b(1) by (metis append_take_drop_id)
  moreover have "drop (i + length old) body = b"
    using b(1) by (metis add.commute append_eq_conv_conj drop_drop)
  then have "replace_first old new body = take i body @ new @ b" using i by (simp add: replace_first_def)
  then have "fv_write env w p (take i body @ new @ b) = (w', Inr ())"
    using assms c by (auto simp: apply_patch_execute_def require_str_def split: prod.splits sum.splits)
  ultimately show ?thesis using b(2,3) by (intro exI [of _ "take i body"] exI [of _ b]) simp
qed

theorem patch_changes_first_match_witness:
  "\<exists>w' a b. ''a'' @ [CHR 0x0A] @ ''b'' = a @ ''b'' @ b
     \<and> fv_write (example_files False) [] [RootDir, Normal ''w'', Normal ''out''] (a @ ''c'' @ b) = (w', Inr ())"
proof -
  let ?j = "JObj [(''path'', JStr ''out''), (''old_string'', JStr ''b''), (''new_string'', JStr ''c'')]"
  obtain w' out where r: "apply_patch_execute (example_files False) (Some (path_components ''/w'')) ?j [] = (w', Inr out)"
    by (simp add: apply_patch_execute_def require_str_def out_accepted) (simp add: example_files_def)
  have f: "fv_read (example_files False) [] [RootDir, Normal ''w'', Normal ''out''] = Inr (''a'' @ [CHR 0x0A] @ ''b'')"
    by (simp add: example_files_def)
  from patch_changes_first_match [OF _ _ _ _ out_accepted f r, of "''b''" "''c''"] show ?thesis by fastforce
qed

end
