(* ===== verification/Routine.thy ===== *)
theory Routine
  imports Tool_Base
begin

text \<open>
  Routines, \<open>src/agent/routine.rs\<close>: triggers, actions, guardrails, runs, and their form in the database
  (the rows of the tables \<open>routines\<close> and \<open>routine_runs\<close> and the statements of
  \<open>src/db/libsql_backend.rs\<close> on them). The JSON columns are kept decoded; the text of a time stamp, which
  is sorted as the time itself, is its number of milliseconds.
\<close>

section \<open>Triggers\<close>

datatype trigger =
    Cron string
  | On_event "string option" string
  | Webhook "string option" "string option"
  | Manual_only

definition trigger_tag :: "trigger \<Rightarrow> string" where
  "trigger_tag t = (case t of Cron _ \<Rightarrow> ''cron'' | On_event _ _ \<Rightarrow> ''event'' | Webhook _ _ \<Rightarrow> ''webhook''
     | Manual_only \<Rightarrow> ''manual'')"

definition text_member :: "json \<Rightarrow> string \<Rightarrow> string option" where
  "text_member v k = Option.bind (json_get v k) json_str"

definition trigger_from_db :: "string \<Rightarrow> json \<Rightarrow> (string, trigger) result" where
  "trigger_from_db tag config =
     (if tag = ''cron'' then
        (case text_member config ''schedule'' of
           None \<Rightarrow> Inl (''cron trigger missing '' @ [QUOTE] @ ''schedule'' @ [QUOTE])
         | Some s \<Rightarrow> Inr (Cron s))
      else if tag = ''event'' then
        (case text_member config ''pattern'' of
           None \<Rightarrow> Inl (''event trigger missing '' @ [QUOTE] @ ''pattern'' @ [QUOTE])
         | Some p \<Rightarrow> Inr (On_event (text_member config ''channel'') p))
      else if tag = ''webhook'' then Inr (Webhook (text_member config ''path'') (text_member config ''secret''))
      else if tag = ''manual'' then Inr Manual_only
      else Inl (''unknown trigger type: '' @ tag))"

definition json_opt :: "string option \<Rightarrow> json" where
  "json_opt s = (case s of Some x \<Rightarrow> JStr x | None \<Rightarrow> JNull)"

definition trigger_config :: "trigger \<Rightarrow> json" where
  "trigger_config t = (case t of
     Cron s \<Rightarrow> JObj [(''schedule'', JStr s)]
   | On_event ch p \<Rightarrow> JObj [(''pattern'', JStr p), (''channel'', json_opt ch)]
   | Webhook p s \<Rightarrow> JObj [(''path'', json_opt p), (''secret'', json_opt s)]
   | Manual_only \<Rightarrow> JObj [])"

section \<open>Actions\<close>

datatype routine_action =
    Lightweight string "string list" "32 word"
  | Full_job string string "32 word"

definition action_tag :: "routine_action \<Rightarrow> string" where
  "action_tag a = (case a of Lightweight _ _ _ \<Rightarrow> ''lightweight'' | Full_job _ _ _ \<Rightarrow> ''full_job'')"

definition DEFAULT_MAX_TOKENS :: nat where "DEFAULT_MAX_TOKENS = 4096"
definition DEFAULT_MAX_ITERATIONS :: nat where "DEFAULT_MAX_ITERATIONS = 10"

text \<open>\<open>v.as_u64().unwrap_or(d) as u32\<close>: the cast keeps the low 32 bits.\<close>

definition number_member :: "json \<Rightarrow> string \<Rightarrow> nat \<Rightarrow> 32 word" where
  "number_member v k d = of_nat (case Option.bind (json_get v k) json_u64 of Some n \<Rightarrow> n | None \<Rightarrow> d)"

definition text_list :: "json option \<Rightarrow> string list" where
  "text_list v = (case v of Some (JArr xs) \<Rightarrow> List.map_filter json_str xs | _ \<Rightarrow> [])"

definition action_from_db :: "string \<Rightarrow> json \<Rightarrow> (string, routine_action) result" where
  "action_from_db tag config =
     (if tag = ''lightweight'' then
        (case text_member config ''prompt'' of
           None \<Rightarrow> Inl (''lightweight action missing '' @ [QUOTE] @ ''prompt'' @ [QUOTE])
         | Some p \<Rightarrow> Inr (Lightweight p (text_list (json_get config ''context_paths''))
                            (number_member config ''max_tokens'' DEFAULT_MAX_TOKENS)))
      else if tag = ''full_job'' then
        (case text_member config ''title'' of
           None \<Rightarrow> Inl (''full_job action missing '' @ [QUOTE] @ ''title'' @ [QUOTE])
         | Some t \<Rightarrow>
            (case text_member config ''description'' of
               None \<Rightarrow> Inl (''full_job action missing '' @ [QUOTE] @ ''description'' @ [QUOTE])
             | Some d \<Rightarrow> Inr (Full_job t d (number_member config ''max_iterations'' DEFAULT_MAX_ITERATIONS))))
      else Inl (''unknown action type: '' @ tag))"

definition json_u32 :: "32 word \<Rightarrow> json" where
  "json_u32 w = JNum (show_nat (unat w))"

definition action_config :: "routine_action \<Rightarrow> json" where
  "action_config a = (case a of
     Lightweight p paths n \<Rightarrow>
       JObj [(''prompt'', JStr p), (''context_paths'', JArr (map JStr paths)), (''max_tokens'', json_u32 n)]
   | Full_job t d n \<Rightarrow>
       JObj [(''title'', JStr t), (''description'', JStr d), (''max_iterations'', json_u32 n)])"

section \<open>Routines and runs\<close>

text \<open>Durations of the guardrails are whole seconds, as the database and the tools make them.\<close>

record guardrails =
  gr_cooldown :: "64 word"
  gr_max_concurrent :: "32 word"
  gr_dedup_window :: "64 word option"

definition default_guardrails :: guardrails where
  "default_guardrails = \<lparr>gr_cooldown = 300, gr_max_concurrent = 1, gr_dedup_window = None\<rparr>"

record notify_config =
  nc_channel :: "string option"
  nc_user :: string
  nc_on_attention :: bool
  nc_on_failure :: bool
  nc_on_success :: bool

definition default_notify :: notify_config where
  "default_notify = \<lparr>nc_channel = None, nc_user = ''default'', nc_on_attention = True, nc_on_failure = True,
     nc_on_success = False\<rparr>"

record routine =
  rn_id :: uuid
  rn_name :: string
  rn_description :: string
  rn_user_id :: string
  rn_enabled :: bool
  rn_trigger :: trigger
  rn_action :: routine_action
  rn_guardrails :: guardrails
  rn_notify :: notify_config
  rn_last_run_at :: "instant option"
  rn_next_fire_at :: "instant option"
  rn_run_count :: "64 word"
  rn_consecutive_failures :: "32 word"
  rn_state :: json
  rn_created_at :: instant
  rn_updated_at :: instant

datatype run_status = Run_running | Run_ok | Run_attention | Run_failed

definition show_run_status :: "run_status \<Rightarrow> string" where
  "show_run_status s = (case s of Run_running \<Rightarrow> ''running'' | Run_ok \<Rightarrow> ''ok'' | Run_attention \<Rightarrow> ''attention''
     | Run_failed \<Rightarrow> ''failed'')"

definition parse_run_status :: "string \<Rightarrow> (string, run_status) result" where
  "parse_run_status s =
     (if s = ''running'' then Inr Run_running else if s = ''ok'' then Inr Run_ok
      else if s = ''attention'' then Inr Run_attention else if s = ''failed'' then Inr Run_failed
      else Inl (''unknown run status: '' @ s))"

record routine_run =
  rr_id :: uuid
  rr_routine_id :: uuid
  rr_trigger_type :: string
  rr_trigger_detail :: "string option"
  rr_started_at :: instant
  rr_completed_at :: "instant option"
  rr_status :: run_status
  rr_result_summary :: "string option"
  rr_tokens_used :: "32 word option"
  rr_job_id :: "uuid option"
  rr_created_at :: instant

section \<open>Rows\<close>

text \<open>The columns of a row of \<open>routines\<close>; an \<open>INTEGER\<close> is a signed number of 64 bits.\<close>

record routine_row =
  rw_id :: uuid
  rw_name :: string
  rw_description :: string
  rw_user_id :: string
  rw_enabled :: int
  rw_trigger_type :: string
  rw_trigger_config :: json
  rw_action_type :: string
  rw_action_config :: json
  rw_cooldown_secs :: int
  rw_max_concurrent :: int
  rw_dedup_window_secs :: "int option"
  rw_notify_channel :: "string option"
  rw_notify_user :: string
  rw_notify_on_success :: int
  rw_notify_on_failure :: int
  rw_notify_on_attention :: int
  rw_state :: json
  rw_last_run_at :: "int option"
  rw_next_fire_at :: "int option"
  rw_run_count :: int
  rw_consecutive_failures :: int
  rw_created_at :: int
  rw_updated_at :: int

definition fmt_ts :: "instant \<Rightarrow> int" where
  "fmt_ts t = t div 1000000"

definition get_ts :: "int \<Rightarrow> instant" where
  "get_ts ms = ms * 1000000"

definition row_to_routine :: "routine_row \<Rightarrow> (string, routine) result" where
  "row_to_routine w =
     (case trigger_from_db (rw_trigger_type w) (rw_trigger_config w) of
        Inl e \<Rightarrow> Inl e
      | Inr t \<Rightarrow>
         (case action_from_db (rw_action_type w) (rw_action_config w) of
            Inl e \<Rightarrow> Inl e
          | Inr a \<Rightarrow> Inr
             \<lparr>rn_id = rw_id w, rn_name = rw_name w, rn_description = rw_description w, rn_user_id = rw_user_id w,
              rn_enabled = (rw_enabled w \<noteq> 0), rn_trigger = t, rn_action = a,
              rn_guardrails = \<lparr>gr_cooldown = word_of_int (rw_cooldown_secs w),
                gr_max_concurrent = word_of_int (rw_max_concurrent w),
                gr_dedup_window = map_option word_of_int (rw_dedup_window_secs w)\<rparr>,
              rn_notify = \<lparr>nc_channel = rw_notify_channel w, nc_user = rw_notify_user w,
                nc_on_attention = (rw_notify_on_attention w \<noteq> 0), nc_on_failure = (rw_notify_on_failure w \<noteq> 0),
                nc_on_success = (rw_notify_on_success w \<noteq> 0)\<rparr>,
              rn_last_run_at = map_option get_ts (rw_last_run_at w),
              rn_next_fire_at = map_option get_ts (rw_next_fire_at w),
              rn_run_count = word_of_int (rw_run_count w),
              rn_consecutive_failures = word_of_int (rw_consecutive_failures w),
              rn_state = rw_state w, rn_created_at = get_ts (rw_created_at w),
              rn_updated_at = get_ts (rw_updated_at w)\<rparr>))"

text \<open>What \<open>create_routine\<close> inserts; the runtime columns get their defaults.\<close>

definition new_routine_row :: "routine \<Rightarrow> routine_row" where
  "new_routine_row r =
     \<lparr>rw_id = rn_id r, rw_name = rn_name r, rw_description = rn_description r, rw_user_id = rn_user_id r,
      rw_enabled = of_bool (rn_enabled r), rw_trigger_type = trigger_tag (rn_trigger r),
      rw_trigger_config = trigger_config (rn_trigger r), rw_action_type = action_tag (rn_action r),
      rw_action_config = action_config (rn_action r), rw_cooldown_secs = sint (gr_cooldown (rn_guardrails r)),
      rw_max_concurrent = uint (gr_max_concurrent (rn_guardrails r)),
      rw_dedup_window_secs = map_option sint (gr_dedup_window (rn_guardrails r)),
      rw_notify_channel = nc_channel (rn_notify r), rw_notify_user = nc_user (rn_notify r),
      rw_notify_on_success = of_bool (nc_on_success (rn_notify r)),
      rw_notify_on_failure = of_bool (nc_on_failure (rn_notify r)),
      rw_notify_on_attention = of_bool (nc_on_attention (rn_notify r)), rw_state = rn_state r,
      rw_last_run_at = None, rw_next_fire_at = map_option fmt_ts (rn_next_fire_at r), rw_run_count = 0,
      rw_consecutive_failures = 0, rw_created_at = fmt_ts (rn_created_at r), rw_updated_at = fmt_ts (rn_updated_at r)\<rparr>"

text \<open>What \<open>update_routine\<close> sets: neither the owner nor the runtime columns, but the next fire time.\<close>

definition updated_row :: "routine \<Rightarrow> instant \<Rightarrow> routine_row \<Rightarrow> routine_row" where
  "updated_row r now w = (new_routine_row r)\<lparr>rw_id := rw_id w, rw_user_id := rw_user_id w,
     rw_last_run_at := rw_last_run_at w, rw_run_count := rw_run_count w,
     rw_consecutive_failures := rw_consecutive_failures w, rw_created_at := rw_created_at w,
     rw_updated_at := fmt_ts now\<rparr>"

definition runtime_row ::
  "instant \<Rightarrow> instant option \<Rightarrow> 64 word \<Rightarrow> 32 word \<Rightarrow> json \<Rightarrow> instant \<Rightarrow> routine_row \<Rightarrow> routine_row" where
  "runtime_row last_run next_fire count failures st now w = w\<lparr>rw_last_run_at := Some (fmt_ts last_run),
     rw_next_fire_at := map_option fmt_ts next_fire, rw_run_count := sint count,
     rw_consecutive_failures := uint failures, rw_state := st, rw_updated_at := fmt_ts now\<rparr>"

record run_row =
  rx_id :: uuid
  rx_routine_id :: uuid
  rx_trigger_type :: string
  rx_trigger_detail :: "string option"
  rx_started_at :: int
  rx_completed_at :: "int option"
  rx_status :: string
  rx_result_summary :: "string option"
  rx_tokens_used :: "int option"
  rx_job_id :: "uuid option"
  rx_created_at :: int

text \<open>\<open>datetime('now')\<close>, the default of \<open>created_at\<close>, has whole seconds.\<close>

definition datetime_now :: "instant \<Rightarrow> int" where
  "datetime_now t = t div 1000000000 * 1000"

definition new_run_row :: "routine_run \<Rightarrow> instant \<Rightarrow> run_row" where
  "new_run_row r now =
     \<lparr>rx_id = rr_id r, rx_routine_id = rr_routine_id r, rx_trigger_type = rr_trigger_type r,
      rx_trigger_detail = rr_trigger_detail r, rx_started_at = fmt_ts (rr_started_at r), rx_completed_at = None,
      rx_status = show_run_status (rr_status r), rx_result_summary = None, rx_tokens_used = None,
      rx_job_id = rr_job_id r, rx_created_at = datetime_now now\<rparr>"

definition row_to_run :: "run_row \<Rightarrow> (string, routine_run) result" where
  "row_to_run w = (case parse_run_status (rx_status w) of
     Inl e \<Rightarrow> Inl e
   | Inr s \<Rightarrow> Inr
      \<lparr>rr_id = rx_id w, rr_routine_id = rx_routine_id w, rr_trigger_type = rx_trigger_type w,
       rr_trigger_detail = rx_trigger_detail w, rr_started_at = get_ts (rx_started_at w),
       rr_completed_at = map_option get_ts (rx_completed_at w), rr_status = s,
       rr_result_summary = rx_result_summary w, rr_tokens_used = map_option word_of_int (rx_tokens_used w),
       rr_job_id = rx_job_id w, rr_created_at = get_ts (rx_created_at w)\<rparr>)"

section \<open>The tables\<close>

text \<open>
  \<open>rs_enforces_keys\<close> tells whether the connection enforces foreign keys, which SQLite leaves to its build and
  its pragmas. A violated constraint is an error of the statement; its text stands for the database's own.
\<close>

record routine_store =
  rs_routines :: "routine_row list"
  rs_runs :: "run_row list"
  rs_enforces_keys :: bool

definition CONSTRAINT_FAILED :: string where "CONSTRAINT_FAILED = ''constraint failed''"

definition create_routine :: "routine \<Rightarrow> routine_store \<Rightarrow> routine_store \<times> (string, unit) result" where
  "create_routine r s =
     (if (\<exists>w \<in> set (rs_routines s). rw_id w = rn_id r \<or> (rw_user_id w = rn_user_id r \<and> rw_name w = rn_name r))
      then (s, Inl CONSTRAINT_FAILED)
      else (s\<lparr>rs_routines := rs_routines s @ [new_routine_row r]\<rparr>, Inr ()))"

definition decode_one :: "routine_row option \<Rightarrow> (string, routine option) result" where
  "decode_one w = (case w of None \<Rightarrow> Inr None
     | Some w \<Rightarrow> (case row_to_routine w of Inl e \<Rightarrow> Inl e | Inr r \<Rightarrow> Inr (Some r)))"

definition get_routine :: "uuid \<Rightarrow> routine_store \<Rightarrow> (string, routine option) result" where
  "get_routine i s = decode_one (find (\<lambda>w. rw_id w = i) (rs_routines s))"

definition get_routine_by_name :: "string \<Rightarrow> string \<Rightarrow> routine_store \<Rightarrow> (string, routine option) result" where
  "get_routine_by_name u n s = decode_one (find (\<lambda>w. rw_user_id w = u \<and> rw_name w = n) (rs_routines s))"

text \<open>A row that cannot be decoded fails the whole list.\<close>

fun decode_rows :: "('r \<Rightarrow> (string, 'a) result) \<Rightarrow> 'r list \<Rightarrow> (string, 'a list) result" where
  "decode_rows f [] = Inr []"
| "decode_rows f (w # ws) = (case f w of Inl e \<Rightarrow> Inl e | Inr r \<Rightarrow> map_sum id (Cons r) (decode_rows f ws))"

text \<open>\<open>ORDER BY name\<close> compares bytes.\<close>

fun text_le :: "string \<Rightarrow> string \<Rightarrow> bool" where
  "text_le [] _ = True"
| "text_le (_ # _) [] = False"
| "text_le (c # cs) (d # ds) = (code_of c < code_of d \<or> (c = d \<and> text_le cs ds))"

fun insert_by_name :: "routine_row \<Rightarrow> routine_row list \<Rightarrow> routine_row list" where
  "insert_by_name w [] = [w]"
| "insert_by_name w (v # vs) = (if text_le (rw_name w) (rw_name v) then w # v # vs else v # insert_by_name w vs)"

definition list_routines :: "string \<Rightarrow> routine_store \<Rightarrow> (string, routine list) result" where
  "list_routines u s =
     decode_rows row_to_routine (foldr insert_by_name (filter (\<lambda>w. rw_user_id w = u) (rs_routines s)) [])"

definition list_event_routines :: "routine_store \<Rightarrow> (string, routine list) result" where
  "list_event_routines s =
     decode_rows row_to_routine (filter (\<lambda>w. rw_enabled w = 1 \<and> rw_trigger_type w = ''event'') (rs_routines s))"

definition due_row :: "instant \<Rightarrow> routine_row \<Rightarrow> bool" where
  "due_row now w \<longleftrightarrow> rw_enabled w = 1 \<and> rw_trigger_type w = ''cron''
     \<and> (case rw_next_fire_at w of Some t \<Rightarrow> t \<le> fmt_ts now | None \<Rightarrow> False)"

definition list_due_cron_routines :: "instant \<Rightarrow> routine_store \<Rightarrow> (string, routine list) result" where
  "list_due_cron_routines now s = decode_rows row_to_routine (filter (due_row now) (rs_routines s))"

definition update_rows :: "uuid \<Rightarrow> (routine_row \<Rightarrow> routine_row) \<Rightarrow> routine_store \<Rightarrow> routine_store" where
  "update_rows i f s = s\<lparr>rs_routines := map (\<lambda>w. if rw_id w = i then f w else w) (rs_routines s)\<rparr>"

text \<open>The name of another routine of the same owner violates the unique index.\<close>

definition update_routine :: "routine \<Rightarrow> instant \<Rightarrow> routine_store \<Rightarrow> routine_store \<times> (string, unit) result" where
  "update_routine r now s =
     (if (\<exists>w \<in> set (rs_routines s). rw_id w = rn_id r
            \<and> (\<exists>v \<in> set (rs_routines s). rw_id v \<noteq> rn_id r \<and> rw_user_id v = rw_user_id w \<and> rw_name v = rn_name r))
      then (s, Inl CONSTRAINT_FAILED)
      else (update_rows (rn_id r) (updated_row r now) s, Inr ()))"

definition update_routine_runtime ::
  "uuid \<Rightarrow> instant \<Rightarrow> instant option \<Rightarrow> 64 word \<Rightarrow> 32 word \<Rightarrow> json \<Rightarrow> instant \<Rightarrow> routine_store \<Rightarrow> routine_store" where
  "update_routine_runtime i last_run next_fire count failures st now s =
     update_rows i (runtime_row last_run next_fire count failures st now) s"

definition delete_routine :: "uuid \<Rightarrow> routine_store \<Rightarrow> routine_store \<times> bool" where
  "delete_routine i s =
     (s\<lparr>rs_routines := filter (\<lambda>w. rw_id w \<noteq> i) (rs_routines s),
        rs_runs := (if rs_enforces_keys s then filter (\<lambda>x. rx_routine_id x \<noteq> i) (rs_runs s) else rs_runs s)\<rparr>,
      list_ex (\<lambda>w. rw_id w = i) (rs_routines s))"

definition create_routine_run :: "routine_run \<Rightarrow> instant \<Rightarrow> routine_store \<Rightarrow> routine_store \<times> (string, unit) result" where
  "create_routine_run r now s =
     (if list_ex (\<lambda>x. rx_id x = rr_id r) (rs_runs s)
         \<or> (rs_enforces_keys s \<and> \<not> list_ex (\<lambda>w. rw_id w = rr_routine_id r) (rs_routines s))
      then (s, Inl CONSTRAINT_FAILED)
      else (s\<lparr>rs_runs := rs_runs s @ [new_run_row r now]\<rparr>, Inr ()))"

definition update_runs :: "uuid \<Rightarrow> (run_row \<Rightarrow> run_row) \<Rightarrow> routine_store \<Rightarrow> routine_store" where
  "update_runs i f s = s\<lparr>rs_runs := map (\<lambda>x. if rx_id x = i then f x else x) (rs_runs s)\<rparr>"

definition complete_routine_run ::
  "uuid \<Rightarrow> run_status \<Rightarrow> string option \<Rightarrow> 32 word option \<Rightarrow> instant \<Rightarrow> routine_store \<Rightarrow> routine_store" where
  "complete_routine_run i st summary tokens now =
     update_runs i (\<lambda>x. x\<lparr>rx_completed_at := Some (fmt_ts now), rx_status := show_run_status st,
       rx_result_summary := summary, rx_tokens_used := map_option sint tokens\<rparr>)"

definition update_routine_run_job_id :: "uuid \<Rightarrow> uuid \<Rightarrow> routine_store \<Rightarrow> routine_store" where
  "update_routine_run_job_id i j = update_runs i (\<lambda>x. x\<lparr>rx_job_id := Some j\<rparr>)"

definition count_running_routine_runs :: "uuid \<Rightarrow> routine_store \<Rightarrow> nat" where
  "count_running_routine_runs i s = length (filter (\<lambda>x. rx_routine_id x = i \<and> rx_status x = ''running'') (rs_runs s))"

text \<open>\<open>ORDER BY started_at DESC LIMIT n\<close>; a negative limit is none.\<close>

fun insert_latest :: "run_row \<Rightarrow> run_row list \<Rightarrow> run_row list" where
  "insert_latest x [] = [x]"
| "insert_latest x (y # ys) = (if rx_started_at y \<le> rx_started_at x then x # y # ys else y # insert_latest x ys)"

definition list_routine_runs :: "uuid \<Rightarrow> int \<Rightarrow> routine_store \<Rightarrow> (string, routine_run list) result" where
  "list_routine_runs i limit s =
     (let rows = foldr insert_latest (filter (\<lambda>x. rx_routine_id x = i) (rs_runs s)) []
      in decode_rows row_to_run (if limit < 0 then rows else take (nat limit) rows))"

section \<open>Round trips\<close>

lemma digits_value_snoc: "digits_value (s @ [c]) = 10 * digits_value s + (code_of c - 48)"
  by (simp add: digits_value_def)

lemma digits_value_show: "digits_value (show_nat n) = n"
proof (induction n rule: show_nat.induct)
  case (1 n)
  show ?case
  proof (cases "n < 10")
    case True
    then show ?thesis by (subst show_nat.simps) (simp add: digits_value_def code_of_def)
  next
    case False
    with 1 have "digits_value (show_nat (n div 10)) = n div 10" by simp
    with False show ?thesis
      by (subst show_nat.simps) (simp add: digits_value_snoc code_of_def)
  qed
qed

lemma json_u64_u32: "json_u64 (json_u32 w) = Some (unat w)"
proof -
  have "unat w < 2 ^ 64" using unat_less_power [of w] by simp
  then show ?thesis
    by (auto simp: json_u32_def digits_value_show list_all_iff dest: show_nat_digits)
qed

lemma text_list_map [simp]: "text_list (Some (JArr (map JStr xs))) = xs"
  by (induction xs) (simp_all add: text_list_def List.map_filter_def)

lemma text_member_opt: "Option.bind (Some (json_opt x)) json_str = x"
  by (cases x) (simp_all add: json_opt_def)

lemma trigger_roundtrip: "trigger_from_db (trigger_tag t) (trigger_config t) = Inr t"
  by (cases t) (simp_all add: trigger_from_db_def trigger_tag_def trigger_config_def text_member_def json_opt_def
      split: option.split)

lemma action_roundtrip: "action_from_db (action_tag a) (action_config a) = Inr a"
  by (cases a) (simp_all add: action_from_db_def action_tag_def action_config_def text_member_def number_member_def
      json_u64_u32)

lemma run_status_roundtrip: "parse_run_status (show_run_status s) = Inr s"
  by (cases s) (simp_all add: parse_run_status_def show_run_status_def)

lemma show_run_status_running [simp]: "show_run_status s = ''running'' \<longleftrightarrow> s = Run_running"
  by (cases s) (simp_all add: show_run_status_def)

text \<open>What is left of a routine in its row: times in milliseconds, no runtime columns.\<close>

definition stored_ts :: "instant \<Rightarrow> instant" where
  "stored_ts t = get_ts (fmt_ts t)"

definition as_created :: "routine \<Rightarrow> routine" where
  "as_created r = r\<lparr>rn_last_run_at := None, rn_next_fire_at := map_option stored_ts (rn_next_fire_at r),
     rn_run_count := 0, rn_consecutive_failures := 0, rn_created_at := stored_ts (rn_created_at r),
     rn_updated_at := stored_ts (rn_updated_at r)\<rparr>"

lemma new_row_decodes: "row_to_routine (new_routine_row r) = Inr (as_created r)"
  by (cases r) (simp add: row_to_routine_def new_routine_row_def trigger_roundtrip action_roundtrip as_created_def
      stored_ts_def [abs_def] option.map_comp o_def option.map_ident)


lemma stored_ts_idem [simp]: "stored_ts (stored_ts t) = stored_ts t"
  by (simp add: stored_ts_def fmt_ts_def get_ts_def)

text \<open>What an update leaves of a routine, over the one that was stored.\<close>

definition as_updated :: "routine \<Rightarrow> instant \<Rightarrow> routine \<Rightarrow> routine" where
  "as_updated r now old = r\<lparr>rn_id := rn_id old, rn_user_id := rn_user_id old, rn_last_run_at := rn_last_run_at old,
     rn_next_fire_at := map_option stored_ts (rn_next_fire_at r), rn_run_count := rn_run_count old,
     rn_consecutive_failures := rn_consecutive_failures old, rn_created_at := rn_created_at old,
     rn_updated_at := stored_ts now\<rparr>"

lemma updated_row_decodes:
  assumes "row_to_routine w = Inr old"
  shows "row_to_routine (updated_row r now w) = Inr (as_updated r now old)"
  using assms
  by (cases r) (auto simp: row_to_routine_def updated_row_def new_routine_row_def trigger_roundtrip action_roundtrip
      as_updated_def stored_ts_def [abs_def] option.map_comp o_def option.map_ident split: sum.splits)

definition as_run :: "instant \<Rightarrow> instant option \<Rightarrow> 64 word \<Rightarrow> 32 word \<Rightarrow> json \<Rightarrow> instant \<Rightarrow> routine \<Rightarrow> routine" where
  "as_run last_run next_fire count failures st now r = r\<lparr>rn_last_run_at := Some (stored_ts last_run),
     rn_next_fire_at := map_option stored_ts next_fire, rn_run_count := count, rn_consecutive_failures := failures,
     rn_state := st, rn_updated_at := stored_ts now\<rparr>"

lemma runtime_row_decodes:
  assumes "row_to_routine w = Inr old"
  shows "row_to_routine (runtime_row l n c f st now w) = Inr (as_run l n c f st now old)"
  using assms
  by (auto simp: row_to_routine_def runtime_row_def as_run_def stored_ts_def [abs_def] option.map_comp o_def
      split: sum.splits)

section \<open>The invariant of the tables\<close>

definition owner_and_name :: "routine_row \<Rightarrow> string \<times> string" where
  "owner_and_name w = (rw_user_id w, rw_name w)"

definition store_inv :: "routine_store \<Rightarrow> bool" where
  "store_inv s \<longleftrightarrow> distinct (map rw_id (rs_routines s)) \<and> distinct (map owner_and_name (rs_routines s))
     \<and> list_all (\<lambda>w. is_ok (row_to_routine w)) (rs_routines s)
     \<and> distinct (map rx_id (rs_runs s)) \<and> list_all (\<lambda>x. is_ok (row_to_run x)) (rs_runs s)
     \<and> (rs_enforces_keys s \<longrightarrow> rx_routine_id ` set (rs_runs s) \<subseteq> rw_id ` set (rs_routines s))"

datatype store_op =
    So_create routine
  | So_update routine instant
  | So_runtime uuid instant "instant option" "64 word" "32 word" json instant
  | So_delete uuid
  | So_new_run routine_run instant
  | So_complete uuid run_status "string option" "32 word option" instant
  | So_job uuid uuid

fun store_step :: "routine_store \<Rightarrow> store_op \<Rightarrow> routine_store" where
  "store_step s (So_create r) = fst (create_routine r s)"
| "store_step s (So_update r now) = fst (update_routine r now s)"
| "store_step s (So_runtime i l n c f st now) = update_routine_runtime i l n c f st now s"
| "store_step s (So_delete i) = fst (delete_routine i s)"
| "store_step s (So_new_run r now) = fst (create_routine_run r now s)"
| "store_step s (So_complete i st summary tokens now) = complete_routine_run i st summary tokens now s"
| "store_step s (So_job i j) = update_routine_run_job_id i j s"

lemma is_ok_row [simp]:
  "is_ok (row_to_routine (new_routine_row r))"
  "is_ok (row_to_routine w) \<Longrightarrow> is_ok (row_to_routine (updated_row r now w))"
  "is_ok (row_to_routine w) \<Longrightarrow> is_ok (row_to_routine (runtime_row l n c f st now w))"
  by (simp add: new_row_decodes, (cases "row_to_routine w"; auto simp: updated_row_decodes runtime_row_decodes)+)

lemma is_ok_run: "is_ok (row_to_run x) \<longleftrightarrow> is_ok (parse_run_status (rx_status x))"
  by (simp add: row_to_run_def split: sum.split)

lemma row_keys [simp]:
  "rw_id (updated_row r now w) = rw_id w" "rw_id (new_routine_row r) = rn_id r"
  "owner_and_name (updated_row r now w) = (rw_user_id w, rn_name r)"
  "owner_and_name (new_routine_row r) = (rn_user_id r, rn_name r)"
  "rw_user_id (updated_row r now w) = rw_user_id w" "rw_name (updated_row r now w) = rn_name r"
  "rw_user_id (new_routine_row r) = rn_user_id r" "rw_name (new_routine_row r) = rn_name r"
  "rw_id (runtime_row l n c f st now w) = rw_id w" "owner_and_name (runtime_row l n c f st now w) = owner_and_name w"
  by (simp_all add: updated_row_def new_routine_row_def runtime_row_def owner_and_name_def)

lemma update_rows_keys [simp]:
  assumes "\<And>w. rw_id (f w) = rw_id w"
  shows "map rw_id (rs_routines (update_rows i f s)) = map rw_id (rs_routines s)"
    "rs_runs (update_rows i f s) = rs_runs s" "rs_enforces_keys (update_rows i f s) = rs_enforces_keys s"
  using assms by (simp_all add: update_rows_def)

lemma update_rows_ids [simp]:
  assumes "\<And>w. rw_id (f w) = rw_id w"
  shows "rw_id ` set (rs_routines (update_rows i f s)) = rw_id ` set (rs_routines s)"
  using update_rows_keys(1) [of f i s, OF assms] by (metis list.set_map)

lemma created_routine_inv: "store_inv s \<Longrightarrow> store_inv (fst (create_routine r s))"
  by (auto simp: store_inv_def create_routine_def owner_and_name_def)

lemma runtime_inv: "store_inv s \<Longrightarrow> store_inv (update_routine_runtime i l n c f st now s)"
  unfolding store_inv_def update_routine_runtime_def
  by (simp add: list_all_iff) (auto simp: update_rows_def o_def if_distrib cong: if_cong)

lemma update_inv:
  assumes inv: "store_inv s"
  shows "store_inv (fst (update_routine r now s))"
proof (cases "\<exists>w \<in> set (rs_routines s). rw_id w = rn_id r
    \<and> (\<exists>v \<in> set (rs_routines s). rw_id v \<noteq> rn_id r \<and> rw_user_id v = rw_user_id w \<and> rw_name v = rn_name r)")
  case True
  with inv show ?thesis by (simp add: update_routine_def)
next
  case False
  let ?g = "\<lambda>w. if rw_id w = rn_id r then updated_row r now w else w"
  have clash: "\<not> (rw_id v = rn_id r \<and> rw_id w \<noteq> rn_id r \<and> rw_user_id v = rw_user_id w \<and> rn_name r = rw_name w)"
    if "v \<in> set (rs_routines s)" "w \<in> set (rs_routines s)" for v w using False that by metis
  have same: "v = w" if "rw_id v = rw_id w \<or> owner_and_name v = owner_and_name w"
      "v \<in> set (rs_routines s)" "w \<in> set (rs_routines s)" for v w
    using inv that by (auto simp: store_inv_def distinct_map inj_on_def)
  have "inj_on owner_and_name (set (map ?g (rs_routines s)))"
  proof (rule inj_onI)
    fix a b
    assume "a \<in> set (map ?g (rs_routines s))" "b \<in> set (map ?g (rs_routines s))" and eq: "owner_and_name a = owner_and_name b"
    then obtain v w where m: "v \<in> set (rs_routines s)" "w \<in> set (rs_routines s)" and ab: "a = ?g v" "b = ?g w" by auto
    have "(rw_id v = rn_id r) = (rw_id w = rn_id r)"
      using eq ab clash [OF m] clash [OF m(2,1)] by (auto simp: owner_and_name_def split: if_splits)
    then have "v = w" using same [OF _ m] eq ab by (auto split: if_splits)
    then show "a = b" using ab by simp
  qed
  moreover have "distinct (map ?g (rs_routines s))"
  proof -
    have "map rw_id (map ?g (rs_routines s)) = map rw_id (rs_routines s)" by simp
    then have "distinct (map rw_id (map ?g (rs_routines s)))" using inv by (simp only: store_inv_def)
    then show ?thesis by (simp only: distinct_map)
  qed
  ultimately have "distinct (map owner_and_name (map ?g (rs_routines s)))" by (simp only: distinct_map simp_thms)
  then have "distinct (map owner_and_name (rs_routines (update_rows (rn_id r) (updated_row r now) s)))"
    by (simp add: update_rows_def)
  moreover have "list_all (\<lambda>w. is_ok (row_to_routine w)) (rs_routines (update_rows (rn_id r) (updated_row r now) s))"
    using inv by (auto simp: store_inv_def update_rows_def list_all_iff)
  ultimately show ?thesis using inv False by (simp add: update_routine_def store_inv_def)
qed

lemma delete_inv: "store_inv s \<Longrightarrow> store_inv (fst (delete_routine i s))"
  by (auto simp: store_inv_def delete_routine_def distinct_filter_map list_all_iff)

lemma new_run_row_simps [simp]:
  "rx_id (new_run_row r now) = rr_id r" "rx_routine_id (new_run_row r now) = rr_routine_id r"
  "rx_status (new_run_row r now) = show_run_status (rr_status r)"
  by (simp_all add: new_run_row_def)

lemma new_run_inv: "store_inv s \<Longrightarrow> store_inv (fst (create_routine_run r now s))"
  by (simp add: store_inv_def create_routine_run_def list_ex_iff is_ok_run run_status_roundtrip)
     (auto simp del: image_eqI intro: rev_image_eqI)

lemma update_runs_inv:
  assumes inv: "store_inv s" and f: "\<And>x. rx_id (f x) = rx_id x" "\<And>x. rx_routine_id (f x) = rx_routine_id x"
    and ok: "\<And>x. is_ok (parse_run_status (rx_status x)) \<Longrightarrow> is_ok (parse_run_status (rx_status (f x)))"
  shows "store_inv (update_runs i f s)"
proof -
  have "map rx_id (rs_runs (update_runs i f s)) = map rx_id (rs_runs s)"
    "map rx_routine_id (rs_runs (update_runs i f s)) = map rx_routine_id (rs_runs s)"
    using f by (auto simp: update_runs_def)
  moreover from this(2) have "rx_routine_id ` set (rs_runs (update_runs i f s)) = rx_routine_id ` set (rs_runs s)"
    by (metis list.set_map)
  moreover have "list_all (\<lambda>x. is_ok (row_to_run x)) (rs_runs (update_runs i f s))"
    using inv ok by (auto simp: store_inv_def update_runs_def list_all_iff is_ok_run)
  ultimately show ?thesis using inv by (simp add: store_inv_def) (simp add: update_runs_def)
qed

lemma complete_inv: "store_inv s \<Longrightarrow> store_inv (complete_routine_run i st summary tokens now s)"
  unfolding complete_routine_run_def by (erule update_runs_inv) (simp_all add: run_status_roundtrip)

lemma run_job_inv: "store_inv s \<Longrightarrow> store_inv (update_routine_run_job_id i j s)"
  unfolding update_routine_run_job_id_def by (erule update_runs_inv) simp_all

lemmas store_invs = created_routine_inv update_inv runtime_inv delete_inv new_run_inv complete_inv run_job_inv

interpretation routine_tables: transition_system store_step store_inv
proof
  show "store_inv (store_step s op)" if "store_inv s" for s op
    using that by (cases op) (simp_all add: store_invs)
qed

lemma decode_rows_ok: "list_all (\<lambda>w. is_ok (f w)) ws \<Longrightarrow> is_ok (decode_rows f ws)"
proof (induction ws)
  case (Cons w ws)
  then show ?case by (cases "f w"; cases "decode_rows f ws") auto
qed simp

lemma decode_rows_set: "decode_rows f ws = Inr rs \<Longrightarrow> r \<in> set rs \<Longrightarrow> \<exists>w \<in> set ws. f w = Inr r"
proof (induction ws arbitrary: rs)
  case (Cons w ws)
  then show ?case by (cases "f w"; cases "decode_rows f ws") auto
qed simp


section \<open>What the tables return\<close>

lemma find_append_new: "(\<forall>x \<in> set xs. \<not> P x) \<Longrightarrow> P y \<Longrightarrow> find P (xs @ [y]) = Some y"
  by (induction xs) auto

lemma find_map_same: "(\<And>x. P (g x) = P x) \<Longrightarrow> find P (map g xs) = map_option g (find P xs)"
  by (induction xs) auto

text \<open>A routine that was created is read back as it was, in whole milliseconds and never run.\<close>
theorem created_routine_read_back:
  assumes "snd (create_routine r s) = Inr ()"
  shows "get_routine (rn_id r) (fst (create_routine r s)) = Inr (Some (as_created r))
     \<and> get_routine_by_name (rn_user_id r) (rn_name r) (fst (create_routine r s)) = Inr (Some (as_created r))"
proof -
  from assms have free: "\<forall>w \<in> set (rs_routines s). rw_id w \<noteq> rn_id r"
    "\<forall>w \<in> set (rs_routines s). \<not> (rw_user_id w = rn_user_id r \<and> rw_name w = rn_name r)"
    by (auto simp: create_routine_def split: if_splits)
  then have "fst (create_routine r s) = s\<lparr>rs_routines := rs_routines s @ [new_routine_row r]\<rparr>"
    by (simp add: create_routine_def)
  with free show ?thesis
    by (simp add: get_routine_def get_routine_by_name_def find_append_new decode_one_def new_row_decodes)
qed

lemma get_after_runtime:
  assumes "get_routine i s = Inr (Some r)"
  shows "get_routine i (update_routine_runtime i l n c f st now s) = Inr (Some (as_run l n c f st now r))"
proof -
  from assms obtain w where w: "find (\<lambda>w. rw_id w = i) (rs_routines s) = Some w" "row_to_routine w = Inr r"
    by (auto simp: get_routine_def decode_one_def split: option.splits sum.splits)
  then have "rw_id w = i" by (auto dest: find_Some_mem)
  moreover have "find (\<lambda>w. rw_id w = i) (rs_routines (update_routine_runtime i l n c f st now s))
      = map_option (\<lambda>w. if rw_id w = i then runtime_row l n c f st now w else w) (find (\<lambda>w. rw_id w = i) (rs_routines s))"
    unfolding update_routine_runtime_def update_rows_def by simp (rule find_map_same, simp)
  ultimately show ?thesis using w by (simp add: get_routine_def decode_one_def runtime_row_decodes)
qed

lemma get_after_runtime_other:
  "i \<noteq> j \<Longrightarrow> get_routine j (update_routine_runtime i l n c f st now s) = get_routine j s"
proof -
  assume "i \<noteq> j"
  have "find (\<lambda>w. rw_id w = j) (rs_routines (update_routine_runtime i l n c f st now s))
      = map_option (\<lambda>w. if rw_id w = i then runtime_row l n c f st now w else w) (find (\<lambda>w. rw_id w = j) (rs_routines s))"
    unfolding update_routine_runtime_def update_rows_def by simp (rule find_map_same, simp)
  with \<open>i \<noteq> j\<close> show ?thesis
    by (cases "find (\<lambda>w. rw_id w = j) (rs_routines s)") (auto simp: get_routine_def decode_one_def dest: find_Some_mem)
qed

text \<open>What is due: enabled cron routines whose time has come, in milliseconds.\<close>

lemma row_fields:
  assumes "row_to_routine w = Inr r"
  shows "rn_id r = rw_id w" "rn_enabled r \<longleftrightarrow> rw_enabled w \<noteq> 0" "rn_name r = rw_name w" "rn_user_id r = rw_user_id w"
    "rn_last_run_at r = map_option get_ts (rw_last_run_at w)" "rn_next_fire_at r = map_option get_ts (rw_next_fire_at w)"
    "trigger_from_db (rw_trigger_type w) (rw_trigger_config w) = Inr (rn_trigger r)"
    "gr_max_concurrent (rn_guardrails r) = word_of_int (rw_max_concurrent w)"
    "gr_cooldown (rn_guardrails r) = word_of_int (rw_cooldown_secs w)"
    "rn_run_count r = word_of_int (rw_run_count w)" "rn_consecutive_failures r = word_of_int (rw_consecutive_failures w)"
  using assms by (auto simp: row_to_routine_def split: sum.splits)

lemma trigger_tag_from_db: "trigger_from_db tag c = Inr t \<Longrightarrow> trigger_tag t = tag"
  by (auto simp: trigger_from_db_def trigger_tag_def split: if_splits option.splits)

lemma due_listed:
  assumes "list_due_cron_routines now s = Inr rs" "r \<in> set rs"
  obtains w where "w \<in> set (rs_routines s)" "due_row now w" "row_to_routine w = Inr r"
  using decode_rows_set [of row_to_routine "filter (due_row now) (rs_routines s)" rs r] assms
  by (auto simp: list_due_cron_routines_def)

lemma due_routine:
  assumes "list_due_cron_routines now s = Inr rs" "r \<in> set rs"
  shows "rn_enabled r" "trigger_tag (rn_trigger r) = ''cron''" "\<exists>t. rn_next_fire_at r = Some t \<and> t \<le> now"
proof -
  obtain w where w: "due_row now w" "row_to_routine w = Inr r" using due_listed [OF assms] by blast
  show "rn_enabled r" "trigger_tag (rn_trigger r) = ''cron''"
    using w row_fields [OF w(2)] trigger_tag_from_db by (auto simp: due_row_def)
  from w obtain t where t: "rw_next_fire_at w = Some t" "t \<le> fmt_ts now" by (auto simp: due_row_def split: option.splits)
  have "get_ts t \<le> now" using t by (simp add: get_ts_def fmt_ts_def)
  with t row_fields [OF w(2)] show "\<exists>t. rn_next_fire_at r = Some t \<and> t \<le> now" by simp
qed

lemma count_after_new_run:
  assumes "snd (create_routine_run r now s) = Inr ()" "rr_status r = Run_running"
  shows "count_running_routine_runs i (fst (create_routine_run r now s))
     = count_running_routine_runs i s + of_bool (rr_routine_id r = i)"
proof -
  have "fst (create_routine_run r now s) = s\<lparr>rs_runs := rs_runs s @ [new_run_row r now]\<rparr>"
    using assms(1) by (auto simp: create_routine_run_def split: if_splits)
  then show ?thesis using assms(2) by (auto simp: count_running_routine_runs_def show_run_status_def)
qed

end
