(* ===== verification/Routine_Engine.thy ===== *)
theory Routine_Engine
  imports Routine Heartbeat Scheduler
begin

text \<open>
  The routine engine, \<open>src/agent/routine_engine.rs\<close>: triggers, guardrails and the execution of routines. A
  spawned run is an entry of \<open>re_tasks\<close> that moves through the phases between the database calls of
  \<open>spawn_fire\<close> and \<open>execute_routine\<close>; the routines a check still has to look at are a queue, so that runs
  and other tasks may come between two of them. The world answers which database calls fail, what the
  workspace holds and what the model says.
\<close>

section \<open>Environment and state\<close>

datatype db_call = Db_list_event | Db_list_cron | Db_get | Db_count | Db_create_run | Db_complete_run
  | Db_update_runtime | Db_run_job | Db_create_routine | Db_by_name | Db_list | Db_update | Db_delete | Db_list_runs

record 'w routine_env =
  rv_max_concurrent :: nat
  rv_max_lightweight_tokens :: "32 word"
  rv_full_job_timeout :: nat
  rv_next_fire :: "string \<Rightarrow> instant \<Rightarrow> (string, instant option) result"
  rv_regex :: "string \<Rightarrow> (string, unit) result"
  rv_matches :: "string \<Rightarrow> string \<Rightarrow> bool"
  rv_read :: "'w \<Rightarrow> string \<Rightarrow> string option"
  rv_system_prompt :: "'w \<Rightarrow> (string, string) result"
  rv_context_length :: "'w \<Rightarrow> (llm_error, 32 word option) result"
  rv_complete :: "'w \<Rightarrow> completion_request \<Rightarrow> 'w \<times> (llm_error, completion_response) result"
  rv_show_llm_error :: "llm_error \<Rightarrow> string"
  rv_show_job_error :: "job_error \<Rightarrow> string"
  rv_show_uuid :: "uuid \<Rightarrow> string"
  rv_wire :: "string \<Rightarrow> (bool \<times> string) option"
  rv_verdict_wire :: "string \<Rightarrow> (bool \<times> string list \<times> string) option"
  rv_db_fails :: "'w \<Rightarrow> db_call \<Rightarrow> string option"

type_synonym execution = "run_status \<times> string option \<times> 32 word option"

datatype fire_phase =
    Ph_spawned
  | Ph_ready
  | Ph_running
  | Ph_polling uuid nat nat
  | Ph_ended run_status "string option" "32 word option"
  | Ph_completed run_status "string option"
  | Ph_updated run_status "string option"

record fire_task =
  ft_routine :: routine
  ft_run :: routine_run
  ft_phase :: fire_phase

record routine_notification =
  nf_channel :: "string option"
  nf_user :: string
  nf_content :: string
  nf_metadata :: json

record 'w routine_engine =
  re_store :: routine_store
  re_cache :: "routine list"
  re_cron_queue :: "routine list"
  re_event_queue :: "(routine \<times> string \<times> string) list"
  re_running :: nat
  re_dry :: nat
  re_tasks :: "(uuid \<times> fire_task) list"
  re_sent :: "routine_notification list"
  re_jobs :: job_system
  re_world :: 'w

definition db_ok :: "'w routine_env \<Rightarrow> db_call \<Rightarrow> 'w routine_engine \<Rightarrow> bool" where
  "db_ok env c s \<longleftrightarrow> rv_db_fails env (re_world s) c = None"

text \<open>A query that may fail before it is answered.\<close>

definition db_query ::
  "'w routine_env \<Rightarrow> db_call \<Rightarrow> 'w routine_engine \<Rightarrow> (string, 'a) result \<Rightarrow> (string, 'a) result" where
  "db_query env c s answer = (case rv_db_fails env (re_world s) c of Some e \<Rightarrow> Inl e | None \<Rightarrow> answer)"

section \<open>Guardrails\<close>

text \<open>\<open>chrono::Duration::from_std\<close> refuses more seconds than fit in 63 bits of milliseconds.\<close>

definition cooldown_ns :: "64 word \<Rightarrow> int" where
  "cooldown_ns secs = (if uint secs > 9223372036854775 then 300 else uint secs) * 1000000000"

definition check_cooldown :: "instant \<Rightarrow> routine \<Rightarrow> bool" where
  "check_cooldown now r = (case rn_last_run_at r of
     Some t \<Rightarrow> \<not> now - t < cooldown_ns (gr_cooldown (rn_guardrails r))
   | None \<Rightarrow> True)"

definition check_concurrent :: "'w routine_env \<Rightarrow> 'w routine_engine \<Rightarrow> routine \<Rightarrow> bool" where
  "check_concurrent env s r \<longleftrightarrow> db_ok env Db_count s
     \<and> count_running_routine_runs (rn_id r) (re_store s) < unat (gr_max_concurrent (rn_guardrails r))"

definition has_capacity :: "'w routine_env \<Rightarrow> 'w routine_engine \<Rightarrow> bool" where
  "has_capacity env s \<longleftrightarrow> re_running s < rv_max_concurrent env"

section \<open>Triggers\<close>

definition event_routine :: "'w routine_env \<Rightarrow> routine \<Rightarrow> bool" where
  "event_routine env r = (case rn_trigger r of On_event ch p \<Rightarrow> is_ok (rv_regex env p) | _ \<Rightarrow> False)"

definition refresh_event_cache :: "'w routine_env \<Rightarrow> 'w routine_engine \<Rightarrow> 'w routine_engine" where
  "refresh_event_cache env s = (case db_query env Db_list_event s (list_event_routines (re_store s)) of
     Inl e \<Rightarrow> s
   | Inr rs \<Rightarrow> s\<lparr>re_cache := filter (event_routine env) rs\<rparr>)"

definition excerpt :: "string \<Rightarrow> string" where
  "excerpt s = (if length s \<le> 200 then s else cut_text 200 s @ ''...'')"

definition new_run :: "uuid \<Rightarrow> routine \<Rightarrow> string \<Rightarrow> string option \<Rightarrow> instant \<Rightarrow> routine_run" where
  "new_run i r kind detail now = \<lparr>rr_id = i, rr_routine_id = rn_id r, rr_trigger_type = kind,
     rr_trigger_detail = detail, rr_started_at = now, rr_completed_at = None, rr_status = Run_running,
     rr_result_summary = None, rr_tokens_used = None, rr_job_id = None, rr_created_at = now\<rparr>"

definition spawn_fire ::
  "uuid \<Rightarrow> routine \<Rightarrow> string \<Rightarrow> string option \<Rightarrow> instant \<Rightarrow> 'w routine_engine \<Rightarrow> 'w routine_engine" where
  "spawn_fire i r kind detail now s = s\<lparr>re_tasks := AList.update i
     \<lparr>ft_routine = r, ft_run = new_run i r kind detail now, ft_phase = Ph_spawned\<rparr> (re_tasks s)\<rparr>"

text \<open>The event check walks over the cache; it fires a routine whose channel and pattern match.\<close>

definition event_matches :: "'w routine_env \<Rightarrow> routine \<Rightarrow> string \<Rightarrow> string \<Rightarrow> bool" where
  "event_matches env r chan txt = (case rn_trigger r of
     On_event ch p \<Rightarrow> (case ch of Some c \<Rightarrow> c = chan | None \<Rightarrow> True) \<and> rv_matches env p txt
   | _ \<Rightarrow> False)"

definition check_event_triggers :: "string \<Rightarrow> string \<Rightarrow> 'w routine_engine \<Rightarrow> 'w routine_engine" where
  "check_event_triggers chan txt s = s\<lparr>re_event_queue := map (\<lambda>r. (r, chan, txt)) (re_cache s)\<rparr>"

definition next_event :: "'w routine_env \<Rightarrow> instant \<Rightarrow> uuid \<Rightarrow> 'w routine_engine \<Rightarrow> 'w routine_engine" where
  "next_event env now i s = (case re_event_queue s of
     [] \<Rightarrow> s
   | (r, chan, txt) # rest \<Rightarrow>
      (let s1 = s\<lparr>re_event_queue := rest\<rparr>
       in if event_matches env r chan txt \<and> check_cooldown now r \<and> check_concurrent env s r \<and> has_capacity env s
          then spawn_fire i r ''event'' (Some (excerpt txt)) now s1 else s1))"

definition check_cron_triggers :: "'w routine_env \<Rightarrow> instant \<Rightarrow> 'w routine_engine \<Rightarrow> 'w routine_engine" where
  "check_cron_triggers env now s =
     (case db_query env Db_list_cron s (list_due_cron_routines now (re_store s)) of
        Inl e \<Rightarrow> s
      | Inr rs \<Rightarrow> s\<lparr>re_cron_queue := rs\<rparr>)"

definition cron_detail :: "routine \<Rightarrow> string option" where
  "cron_detail r = (case rn_trigger r of Cron sched \<Rightarrow> Some sched | _ \<Rightarrow> None)"

text \<open>At the global limit the rest of the due routines is dropped.\<close>

definition next_cron :: "'w routine_env \<Rightarrow> instant \<Rightarrow> uuid \<Rightarrow> 'w routine_engine \<Rightarrow> 'w routine_engine" where
  "next_cron env now i s = (case re_cron_queue s of
     [] \<Rightarrow> s
   | r # rest \<Rightarrow>
      (if \<not> has_capacity env s then s\<lparr>re_cron_queue := []\<rparr>
       else
        (let s1 = s\<lparr>re_cron_queue := rest\<rparr>
         in if check_cooldown now r \<and> check_concurrent env s r
            then spawn_fire i r ''cron'' (cron_detail r) now s1 else s1)))"

definition in_quotes :: "string \<Rightarrow> string" where
  "in_quotes s = [QUOTE] @ s @ [QUOTE]"

definition fire_manual ::
  "'w routine_env \<Rightarrow> instant \<Rightarrow> uuid \<Rightarrow> uuid \<Rightarrow> 'w routine_engine \<Rightarrow> 'w routine_engine \<times> (string, uuid) result" where
  "fire_manual env now i fresh s =
     (case db_query env Db_get s (get_routine i (re_store s)) of
        Inl e \<Rightarrow> (s, Inl (''DB error: '' @ e))
      | Inr None \<Rightarrow> (s, Inl (''routine '' @ rv_show_uuid env i @ '' not found''))
      | Inr (Some r) \<Rightarrow>
         (if \<not> rn_enabled r then (s, Inl (''routine '' @ in_quotes (rn_name r) @ '' is disabled''))
          else if \<not> check_concurrent env s r
               then (s, Inl (''routine '' @ in_quotes (rn_name r) @ '' already at max concurrent runs''))
          else
           (let run = new_run fresh r ''manual'' None now
            in case rv_db_fails env (re_world s) Db_create_run of
                 Some e \<Rightarrow> (s, Inl (''failed to create run record: '' @ e))
               | None \<Rightarrow>
                  (case create_routine_run run now (re_store s) of
                     (st, Inl e) \<Rightarrow> (s, Inl (''failed to create run record: '' @ e))
                   | (st, Inr _) \<Rightarrow>
                      (s\<lparr>re_store := st, re_tasks := AList.update fresh
                           \<lparr>ft_routine = r, ft_run = run, ft_phase = Ph_ready\<rparr> (re_tasks s)\<rparr>, Inr fresh)))))"

section \<open>Lightweight routines\<close>

definition context_part :: "'w routine_env \<Rightarrow> 'w \<Rightarrow> string \<Rightarrow> string option" where
  "context_part env w path = map_option (\<lambda>txt. ''## '' @ path @ [NLC, NLC] @ txt) (rv_read env w path)"

definition RULE_LINES :: string where
  "RULE_LINES = [NLC, NLC] @ ''---'' @ [NLC, NLC]"

definition lightweight_prompt :: "'w routine_env \<Rightarrow> 'w \<Rightarrow> string \<Rightarrow> string \<Rightarrow> string list \<Rightarrow> string" where
  "lightweight_prompt env w name prompt paths =
     (let parts = List.map_filter (context_part env w) paths
      in prompt
         @ (if parts = [] then [] else RULE_LINES @ ''# Context'' @ [NLC, NLC] @ join [NLC, NLC] parts)
         @ (case rv_read env w (''routines/'' @ name @ ''/state.md'') of
              Some st \<Rightarrow> RULE_LINES @ ''# Previous State'' @ [NLC, NLC] @ st
            | None \<Rightarrow> [])
         @ RULE_LINES @ ATTENTION_FORMAT_INSTRUCTIONS)"

definition lightweight_tokens :: "(llm_error, 32 word option) result \<Rightarrow> 32 word \<Rightarrow> 32 word" where
  "lightweight_tokens meta n = (case meta of
     Inr l \<Rightarrow> max (case l of Some len \<Rightarrow> len div 2 | None \<Rightarrow> n) n
   | Inl _ \<Rightarrow> n)"

definition execute_lightweight ::
  "'w routine_env \<Rightarrow> string \<Rightarrow> string \<Rightarrow> string list \<Rightarrow> 32 word \<Rightarrow> 'w \<Rightarrow> 'w \<times> (string, execution) result" where
  "execute_lightweight env name prompt paths n w =
     (let full = lightweight_prompt env w name prompt paths;
          sys = (case rv_system_prompt env w of Inr p \<Rightarrow> p | Inl _ \<Rightarrow> []);
          ms = (if sys = [] then [msg_user full] else [msg_system sys, msg_user full]);
          rq = (new_request ms)\<lparr>rq_max_tokens := Some (lightweight_tokens (rv_context_length env w) n),
                                 rq_temperature := Some 0x3E99999A\<rparr>
      in case rv_complete env w rq of
           (w', Inl e) \<Rightarrow> (w', Inl (''LLM call failed: '' @ rv_show_llm_error env e))
         | (w', Inr r) \<Rightarrow>
            (let txt = trim (rs_content r); tokens = Some (rs_input_tokens r + rs_output_tokens r)
             in (w',
                 if txt = [] then
                   (if rs_finish_reason r = Length
                    then Inl (''LLM response truncated (finish_reason=length) with no content. ''
                      @ ''Model may have exhausted token budget on reasoning.'')
                    else Inl ''LLM returned empty content.'')
                 else
                   (let report = parse_attention_report (rv_wire env) txt
                    in if ar_needs_attention report then Inr (Run_attention, ar_summary report, tokens)
                       else Inr (Run_ok, None, tokens)))))"

section \<open>Full jobs\<close>

definition routine_metadata :: "string \<Rightarrow> 32 word \<Rightarrow> job_context \<Rightarrow> unit \<times> job_context" where
  "routine_metadata name n c =
     (let kvs = (case metadata c of JObj kvs \<Rightarrow> kvs | _ \<Rightarrow> [])
      in ((), c\<lparr>metadata := JObj (AList.update ''routine_name'' (JStr name)
                               (AList.update ''routine_max_iterations'' (json_u32 n) kvs))\<rparr>))"

definition start_full_job ::
  "'w routine_env \<Rightarrow> instant \<Rightarrow> uuid \<Rightarrow> routine \<Rightarrow> uuid \<Rightarrow> string \<Rightarrow> string \<Rightarrow> 32 word \<Rightarrow> 'w routine_engine
     \<Rightarrow> 'w routine_engine \<times> (string, uuid) result" where
  "start_full_job env now fresh r run_id t d n s =
     (case create_job_for_user fresh now (rn_user_id r) t d (js_manager (re_jobs s)) of
        (Inl e, m) \<Rightarrow>
          (s\<lparr>re_jobs := (re_jobs s)\<lparr>js_manager := m\<rparr>\<rparr>, Inl (''failed to create job context: '' @ rv_show_job_error env e))
      | (Inr j, m) \<Rightarrow>
         (let m1 = snd (update_context j (routine_metadata (rn_name r) n) m);
              js1 = (re_jobs s)\<lparr>js_manager := m1,
                      js_saved := js_saved (re_jobs s) @ (case get_context j m1 of Inr c \<Rightarrow> [c] | Inl _ \<Rightarrow> [])\<rparr>;
              st = (if db_ok env Db_run_job s then update_routine_run_job_id run_id j (re_store s) else re_store s)
          in case schedule j now now js1 of
               (js2, Inl e) \<Rightarrow>
                 (s\<lparr>re_jobs := js2, re_store := st\<rparr>, Inl (''scheduler refused job: '' @ rv_show_job_error env e))
             | (js2, Inr _) \<Rightarrow> (s\<lparr>re_jobs := js2, re_store := st\<rparr>, Inr j)))"

datatype poll_result = Poll_again nat nat | Poll_over "(string, execution) result"

text \<open>
  One turn of \<open>poll_job_to_terminal\<close> under its deadline: the sleep, then the state of the job. The deadline
  passes while the task sleeps (the time of the look-up itself is not counted).
\<close>

definition job_verdict :: "'w routine_env \<Rightarrow> uuid \<Rightarrow> job_context \<Rightarrow> (string, execution) result option" where
  "job_verdict env j c = (case jstate c of
     Failed \<Rightarrow> Some (Inl (''job '' @ rv_show_uuid env j @ '' failed: ''
       @ (case transitions c of [] \<Rightarrow> ''unknown reason''
          | ts \<Rightarrow> (case tr_reason (last ts) of Some why \<Rightarrow> why | None \<Rightarrow> ''unknown reason''))))
   | Cancelled \<Rightarrow> Some (Inl (''job '' @ rv_show_uuid env j @ '' was cancelled''))
   | Stuck \<Rightarrow> None
   | Pending \<Rightarrow> None
   | InProgress \<Rightarrow> None
   | st \<Rightarrow> Some (Inr (Run_ok, Some (''Job '' @ rv_show_uuid env j @ '' completed ('' @ show_job_state st @ '')''), None)))"

definition poll_job ::
  "'w routine_env \<Rightarrow> instant \<Rightarrow> uuid \<Rightarrow> nat \<Rightarrow> nat \<Rightarrow> job_system \<Rightarrow> job_system \<times> poll_result" where
  "poll_job env now j waited interval js =
     (if waited + interval > rv_full_job_timeout env * 1000 then
        (fst (stop_job j now now js),
         Poll_over (Inl (''job '' @ rv_show_uuid env j @ '' exceeded the full_job timeout of ''
           @ show_nat (rv_full_job_timeout env) @ ''s and was cancelled'')))
      else
        (js, case get_context j (js_manager js) of
               Inl e \<Rightarrow> Poll_over (Inl (''lost job context while polling: '' @ rv_show_job_error env e))
             | Inr c \<Rightarrow> (case job_verdict env j c of
                 Some v \<Rightarrow> Poll_over v
               | None \<Rightarrow> Poll_again (waited + interval) (min (interval * 2) 5000))))"

section \<open>Notifications\<close>

definition should_notify :: "notify_config \<Rightarrow> run_status \<Rightarrow> bool" where
  "should_notify c st = (case st of Run_ok \<Rightarrow> nc_on_success c | Run_attention \<Rightarrow> nc_on_attention c
     | Run_failed \<Rightarrow> nc_on_failure c | Run_running \<Rightarrow> False)"

text \<open>The UTF-8 bytes of the four signs.\<close>

definition status_icon :: "run_status \<Rightarrow> string" where
  "status_icon st = (case st of
     Run_ok \<Rightarrow> [CHR 0xE2, CHR 0x9C, CHR 0x85]
   | Run_attention \<Rightarrow> [CHR 0xF0, CHR 0x9F, CHR 0x94, CHR 0x94]
   | Run_failed \<Rightarrow> [CHR 0xE2, CHR 0x9D, CHR 0x8C]
   | Run_running \<Rightarrow> [CHR 0xE2, CHR 0x8F, CHR 0xB3])"

definition routine_notice :: "notify_config \<Rightarrow> string \<Rightarrow> run_status \<Rightarrow> string option \<Rightarrow> routine_notification option" where
  "routine_notice c name st said =
     (if \<not> should_notify c st then None
      else Some
       \<lparr>nf_channel = nc_channel c, nf_user = nc_user c,
        nf_content = status_icon st @ '' *Routine '' @ in_quotes name @ ''*: '' @ show_run_status st
          @ (case said of Some x \<Rightarrow> [NLC, NLC] @ x | None \<Rightarrow> []),
        nf_metadata = JObj [(''source'', JStr ''routine''), (''routine_name'', JStr name),
          (''status'', JStr (show_run_status st))]\<rparr>)"

definition send_notification ::
  "notify_config \<Rightarrow> string \<Rightarrow> run_status \<Rightarrow> string option \<Rightarrow> routine_notification list \<Rightarrow> routine_notification list" where
  "send_notification c name st said sent =
     (case routine_notice c name st said of Some n \<Rightarrow> sent @ [n] | None \<Rightarrow> sent)"

section \<open>A run\<close>

definition set_phase :: "uuid \<Rightarrow> fire_task \<Rightarrow> fire_phase \<Rightarrow> 'w routine_engine \<Rightarrow> 'w routine_engine" where
  "set_phase i t p s = s\<lparr>re_tasks := AList.update i (t\<lparr>ft_phase := p\<rparr>) (re_tasks s)\<rparr>"

definition end_task :: "uuid \<Rightarrow> 'w routine_engine \<Rightarrow> 'w routine_engine" where
  "end_task i s = s\<lparr>re_tasks := AList.delete i (re_tasks s)\<rparr>"

text \<open>The execution has ended: the running count goes down, an error is a failed run.\<close>

definition execution_ends ::
  "uuid \<Rightarrow> fire_task \<Rightarrow> (string, execution) result \<Rightarrow> 'w routine_engine \<Rightarrow> 'w routine_engine" where
  "execution_ends i t res s =
     (case (case res of Inr x \<Rightarrow> x | Inl e \<Rightarrow> (Run_failed, Some e, None)) of
        (st, said, tokens) \<Rightarrow> set_phase i t (Ph_ended st said tokens) (s\<lparr>re_running := re_running s - 1\<rparr>))"

definition execute_action ::
  "'w routine_env \<Rightarrow> instant \<Rightarrow> uuid \<Rightarrow> uuid \<Rightarrow> fire_task \<Rightarrow> 'w routine_engine \<Rightarrow> 'w routine_engine" where
  "execute_action env now fresh i t s =
     (case rn_action (ft_routine t) of
        Lightweight prompt paths n \<Rightarrow>
          (case execute_lightweight env (rn_name (ft_routine t)) prompt paths n (re_world s) of
             (w, res) \<Rightarrow> execution_ends i t res (s\<lparr>re_world := w\<rparr>))
      | Full_job jt jd n \<Rightarrow>
          (case start_full_job env now fresh (ft_routine t) i jt jd n s of
             (s1, Inl e) \<Rightarrow> execution_ends i t (Inl e) s1
           | (s1, Inr j) \<Rightarrow> set_phase i t (Ph_polling j 0 500) s1))"

definition next_fire_of :: "'w routine_env \<Rightarrow> instant \<Rightarrow> routine \<Rightarrow> instant option" where
  "next_fire_of env now r = (case rn_trigger r of
     Cron sched \<Rightarrow> (case rv_next_fire env sched now of Inr x \<Rightarrow> x | Inl _ \<Rightarrow> None)
   | _ \<Rightarrow> None)"

definition record_run :: "'w routine_env \<Rightarrow> instant \<Rightarrow> routine \<Rightarrow> run_status \<Rightarrow> routine_store \<Rightarrow> routine_store" where
  "record_run env now r st =
     update_routine_runtime (rn_id r) now (next_fire_of env now r) (rn_run_count r + 1)
       (if st = Run_failed then rn_consecutive_failures r + 1 else 0) (rn_state r) now"

definition task_step ::
  "'w routine_env \<Rightarrow> instant \<Rightarrow> uuid \<Rightarrow> uuid \<Rightarrow> fire_task \<Rightarrow> 'w routine_engine \<Rightarrow> 'w routine_engine" where
  "task_step env now fresh i t s =
     (case ft_phase t of
        Ph_spawned \<Rightarrow>
          (if \<not> db_ok env Db_create_run s then end_task i s
           else case create_routine_run (ft_run t) now (re_store s) of
             (st, Inl e) \<Rightarrow> end_task i s
           | (st, Inr _) \<Rightarrow> set_phase i t Ph_running (s\<lparr>re_store := st, re_running := re_running s + 1\<rparr>))
      | Ph_ready \<Rightarrow> set_phase i t Ph_running (s\<lparr>re_running := re_running s + 1\<rparr>)
      | Ph_running \<Rightarrow> execute_action env now fresh i t s
      | Ph_polling j waited interval \<Rightarrow>
          (case poll_job env now j waited interval (re_jobs s) of
             (js, Poll_again w' i') \<Rightarrow> set_phase i t (Ph_polling j w' i') (s\<lparr>re_jobs := js\<rparr>)
           | (js, Poll_over res) \<Rightarrow> execution_ends i t res (s\<lparr>re_jobs := js\<rparr>))
      | Ph_ended st said tokens \<Rightarrow>
          set_phase i t (Ph_completed st said)
            (if db_ok env Db_complete_run s
             then s\<lparr>re_store := complete_routine_run i st said tokens now (re_store s)\<rparr> else s)
      | Ph_completed st said \<Rightarrow>
          set_phase i t (Ph_updated st said)
            (if db_ok env Db_update_runtime s
             then s\<lparr>re_store := record_run env now (ft_routine t) st (re_store s)\<rparr> else s)
      | Ph_updated st said \<Rightarrow>
          end_task i (s\<lparr>re_sent :=
            send_notification (rn_notify (ft_routine t)) (rn_name (ft_routine t)) st said (re_sent s)\<rparr>))"

section \<open>Dry runs\<close>

record readiness_verdict =
  vd_ready :: bool
  vd_issues :: "string list"
  vd_notes :: "string option"

definition parse_readiness_verdict :: "(string \<Rightarrow> (bool \<times> string list \<times> string) option) \<Rightarrow> string \<Rightarrow> readiness_verdict" where
  "parse_readiness_verdict wire txt =
     (let trimmed = trim txt
      in case wire (strip_report_fence trimmed) of
           Some (ready, issues, notes) \<Rightarrow>
             \<lparr>vd_ready = ready, vd_issues = issues, vd_notes = (if trim notes = [] then None else Some (trim notes))\<rparr>
         | None \<Rightarrow> \<lparr>vd_ready = False, vd_issues = [''judge returned unparseable verdict''], vd_notes = Some trimmed\<rparr>)"

record routine_test_report =
  tr_name :: string
  tr_status :: run_status
  tr_summary :: "string option"
  tr_tokens :: "32 word option"
  tr_ready :: bool
  tr_issues :: "string list"
  tr_notes :: "string option"
  tr_caveats :: "string list"

definition FULL_JOB_CAVEAT :: string where
  "FULL_JOB_CAVEAT = ''full_job dry-run is approximate: a live run executes through ''
     @ ''the scheduler with tool access, but this pre-flight check ran ''
     @ ''it as a single tool-less LLM call to stay side-effect-free, so ''
     @ ''the judged output may differ from a real run''"

definition readiness_prompt :: "routine \<Rightarrow> run_status \<Rightarrow> string option \<Rightarrow> string" where
  "readiness_prompt r st said =
     ''You are judging whether a scheduled routine is ready to run ''
     @ ''unattended. Be skeptical: this routine will act autonomously ''
     @ ''on a schedule with nobody watching.'' @ [NLC, NLC]
     @ ''Routine name: '' @ rn_name r @ [NLC] @ ''Routine description: '' @ rn_description r @ [NLC]
     @ ''Trigger: '' @ trigger_tag (rn_trigger r) @ [NLC, NLC]
     @ ''Dry-run result status: '' @ show_run_status st @ [NLC] @ ''Dry-run output:'' @ [NLC]
     @ (case said of Some x \<Rightarrow> x
        | None \<Rightarrow> ''(no attention output '' @ [CHR 0xE2, CHR 0x80, CHR 0x94] @ '' routine reported nothing to do)'')
     @ [NLC, NLC] @ ''Judge: does the output match the routine'' @ [QUOTE] @ ''s purpose? Is it ''
     @ ''specific enough to be useful and quiet enough not to spam? ''
     @ ''Would repeated runs annoy or mislead the user?'' @ [NLC, NLC]
     @ ''Respond with a single JSON object and nothing else:'' @ [NLC]
     @ ''{'' @ [CHR 0x22] @ ''ready'' @ [CHR 0x22] @ '': <true|false>, '' @ [CHR 0x22] @ ''issues'' @ [CHR 0x22]
     @ '': ['' @ [CHR 0x22] @ ''<each concrete problem found>'' @ [CHR 0x22] @ ''], '' @ [CHR 0x22] @ ''notes''
     @ [CHR 0x22] @ '': '' @ [CHR 0x22] @ ''<one short paragraph of judgment>'' @ [CHR 0x22] @ ''}''"

definition dry_run :: "'w routine_env \<Rightarrow> routine \<Rightarrow> 'w \<Rightarrow> 'w \<times> (string, execution) result" where
  "dry_run env r w = (case rn_action r of
     Lightweight prompt paths n \<Rightarrow> execute_lightweight env (rn_name r) prompt paths n w
   | Full_job jt jd n \<Rightarrow> execute_lightweight env (rn_name r) jd [] (rv_max_lightweight_tokens env) w)"

text \<open>The running count goes up and down around the dry run, so what is left of it is the world.\<close>

definition test_routine ::
  "'w routine_env \<Rightarrow> uuid \<Rightarrow> 'w routine_engine \<Rightarrow> 'w routine_engine \<times> (string, routine_test_report) result" where
  "test_routine env i s =
     (case db_query env Db_get s (get_routine i (re_store s)) of
        Inl e \<Rightarrow> (s, Inl (''DB error: '' @ e))
      | Inr None \<Rightarrow> (s, Inl (''routine '' @ rv_show_uuid env i @ '' not found''))
      | Inr (Some r) \<Rightarrow>
         (let s1 = s\<lparr>re_running := re_running s + 1\<rparr>
          in case dry_run env r (re_world s1) of (w1, res) \<Rightarrow>
           (let s2 = s1\<lparr>re_running := re_running s1 - 1, re_world := w1\<rparr>
            in case (case res of Inr x \<Rightarrow> x | Inl e \<Rightarrow> (Run_failed, Some e, None)) of (st, said, tokens) \<Rightarrow>
              (let rq = (new_request [msg_user (readiness_prompt r st said)])\<lparr>rq_temperature := Some 0x3E4CCCCD\<rparr>
               in case rv_complete env w1 rq of (w2, answer) \<Rightarrow>
                 (let v = (case answer of
                        Inr resp \<Rightarrow> parse_readiness_verdict (rv_verdict_wire env) (rs_content resp)
                      | Inl e \<Rightarrow> \<lparr>vd_ready = False, vd_issues = [''judge LLM call failed: '' @ rv_show_llm_error env e],
                                  vd_notes = None\<rparr>)
                  in (s2\<lparr>re_world := w2\<rparr>, Inr
                    \<lparr>tr_name = rn_name r, tr_status = st, tr_summary = said, tr_tokens = tokens,
                     tr_ready = vd_ready v, tr_issues = vd_issues v, tr_notes = vd_notes v,
                     tr_caveats = (case rn_action r of Full_job _ _ _ \<Rightarrow> [FULL_JOB_CAVEAT] | _ \<Rightarrow> [])\<rparr>))))))"

section \<open>Histories\<close>

text \<open>
  What may happen to an engine: its own operations, a step of one of its runs, a run that panics while it
  executes (the task is gone, its count and its row stay), dry runs that begin and end, a restart of the
  program, and what others do to the jobs, the tables and the world meanwhile. A new identifier is fresh.
  A check begins once the one before is done, as the ticker and the message loop call them.
\<close>

datatype 'w engine_event =
    Re_refresh
  | Re_message string string
  | Re_next_event instant uuid
  | Re_tick instant
  | Re_next_cron instant uuid
  | Re_manual instant uuid uuid
  | Re_task uuid instant uuid
  | Re_panic uuid
  | Re_dry_begin
  | Re_dry_end
  | Re_restart job_system
  | Re_job job_event
  | Re_create_routine routine
  | Re_update_routine routine instant
  | Re_delete_routine uuid
  | Re_world 'w

definition unused_run :: "uuid \<Rightarrow> 'w routine_engine \<Rightarrow> bool" where
  "unused_run i s \<longleftrightarrow> map_of (re_tasks s) i = None \<and> \<not> list_ex (\<lambda>x. rx_id x = i) (rs_runs (re_store s))"

definition executing :: "fire_phase \<Rightarrow> bool" where
  "executing p = (case p of Ph_running \<Rightarrow> True | Ph_polling _ _ _ \<Rightarrow> True | _ \<Rightarrow> False)"

fun engine_step :: "'w routine_env \<Rightarrow> 'w routine_engine \<Rightarrow> 'w engine_event \<Rightarrow> 'w routine_engine" where
  "engine_step env s Re_refresh = refresh_event_cache env s"
| "engine_step env s (Re_message chan txt) =
     (if re_event_queue s = [] then check_event_triggers chan txt s else s)"
| "engine_step env s (Re_next_event now i) = (if unused_run i s then next_event env now i s else s)"
| "engine_step env s (Re_tick now) = (if re_cron_queue s = [] then check_cron_triggers env now s else s)"
| "engine_step env s (Re_next_cron now i) = (if unused_run i s then next_cron env now i s else s)"
| "engine_step env s (Re_manual now r i) = (if unused_run i s then fst (fire_manual env now r i s) else s)"
| "engine_step env s (Re_task i now fresh) =
     (case map_of (re_tasks s) i of Some t \<Rightarrow> task_step env now fresh i t s | None \<Rightarrow> s)"
| "engine_step env s (Re_panic i) =
     (case map_of (re_tasks s) i of
        Some t \<Rightarrow> (if executing (ft_phase t) then end_task i s else s) | None \<Rightarrow> s)"
| "engine_step env s Re_dry_begin = s\<lparr>re_running := re_running s + 1, re_dry := re_dry s + 1\<rparr>"
| "engine_step env s Re_dry_end =
     (if re_dry s = 0 then s else s\<lparr>re_running := re_running s - 1, re_dry := re_dry s - 1\<rparr>)"
| "engine_step env s (Re_restart js) = s\<lparr>re_cache := [], re_cron_queue := [], re_event_queue := [], re_running := 0,
     re_dry := 0, re_tasks := [], re_jobs := js\<rparr>"
| "engine_step env s (Re_job e) = s\<lparr>re_jobs := system_step (re_jobs s) e\<rparr>"
| "engine_step env s (Re_create_routine r) = s\<lparr>re_store := fst (create_routine r (re_store s))\<rparr>"
| "engine_step env s (Re_update_routine r now) = s\<lparr>re_store := fst (update_routine r now (re_store s))\<rparr>"
| "engine_step env s (Re_delete_routine i) = s\<lparr>re_store := fst (delete_routine i (re_store s))\<rparr>"
| "engine_step env s (Re_world w) = s\<lparr>re_world := w\<rparr>"

definition new_engine :: "routine_store \<Rightarrow> job_system \<Rightarrow> 'w \<Rightarrow> 'w routine_engine" where
  "new_engine st js w = \<lparr>re_store = st, re_cache = [], re_cron_queue = [], re_event_queue = [], re_running = 0,
     re_dry = 0, re_tasks = [], re_sent = [], re_jobs = js, re_world = w\<rparr>"

end
