(* ===== verification/Routine_Props.thy ===== *)
theory Routine_Props
  imports Routine_Engine
begin

text \<open>
  What the routine engine promises over any history of events: which runs it starts, that every run ends
  and its row is closed, what the running count counts; and what a crashed run leaves behind.
\<close>

section \<open>What an event does to the runs\<close>

lemma spawn_fire_simps [simp]:
  "map_of (re_tasks (spawn_fire i r kind detail now s)) j =
     (if j = i then Some \<lparr>ft_routine = r, ft_run = new_run i r kind detail now, ft_phase = Ph_spawned\<rparr>
      else map_of (re_tasks s) j)"
  "re_store (spawn_fire i r kind detail now s) = re_store s"
  "re_running (spawn_fire i r kind detail now s) = re_running s"
  "re_dry (spawn_fire i r kind detail now s) = re_dry s"
  "re_cache (spawn_fire i r kind detail now s) = re_cache s"
  "re_cron_queue (spawn_fire i r kind detail now s) = re_cron_queue s"
  "re_event_queue (spawn_fire i r kind detail now s) = re_event_queue s"
  by (simp_all add: spawn_fire_def)

lemma set_phase_simps [simp]:
  "re_tasks (set_phase i t p s) = AList.update i (t\<lparr>ft_phase := p\<rparr>) (re_tasks s)"
  "re_store (set_phase i t p s) = re_store s" "re_running (set_phase i t p s) = re_running s"
  "re_dry (set_phase i t p s) = re_dry s" "re_cache (set_phase i t p s) = re_cache s"
  "re_cron_queue (set_phase i t p s) = re_cron_queue s" "re_event_queue (set_phase i t p s) = re_event_queue s"
  by (simp_all add: set_phase_def)

lemma end_task_simps [simp]:
  "re_tasks (end_task i s) = AList.delete i (re_tasks s)"
  "re_store (end_task i s) = re_store s" "re_running (end_task i s) = re_running s"
  "re_dry (end_task i s) = re_dry s" "re_cache (end_task i s) = re_cache s"
  "re_cron_queue (end_task i s) = re_cron_queue s" "re_event_queue (end_task i s) = re_event_queue s"
  by (simp_all add: end_task_def)

lemma execution_ends_shape:
  obtains st said tokens where
    "execution_ends i t res s = set_phase i t (Ph_ended st said tokens) (s\<lparr>re_running := re_running s - 1\<rparr>)"
    "st = (case res of Inr x \<Rightarrow> fst x | Inl e \<Rightarrow> Run_failed)"
  by (cases res) (auto simp: execution_ends_def split: prod.splits)

lemma lightweight_status: "execute_lightweight env name prompt paths n w = (w', Inr x) \<Longrightarrow> fst x \<noteq> Run_running"
  by (auto simp: execute_lightweight_def Let_def split: prod.splits sum.splits if_splits)

lemma job_verdict_status: "job_verdict env j c = Some (Inr x) \<Longrightarrow> fst x \<noteq> Run_running"
  by (auto simp: job_verdict_def split: job_state.splits)

lemma poll_status: "poll_job env now j waited interval js = (js', Poll_over (Inr x)) \<Longrightarrow> fst x \<noteq> Run_running"
  by (auto simp: poll_job_def job_verdict_status split: if_splits sum.splits option.splits)

lemma poll_interval:
  assumes "poll_job env now j waited interval js = (js', Poll_again w' i')"
  shows "w' = waited + interval" "i' = min (interval * 2) 5000" "waited + interval \<le> rv_full_job_timeout env * 1000"
  using assms by (auto simp: poll_job_def split: if_splits sum.splits option.splits)

text \<open>The steps of a run as a transition of its phase: the next phase, or \<open>None\<close> at its end.\<close>

definition polls_left :: "'w routine_env \<Rightarrow> nat \<Rightarrow> nat" where
  "polls_left env waited = (rv_full_job_timeout env * 1000 - waited) div 500"

definition steps_left :: "'w routine_env \<Rightarrow> fire_phase \<Rightarrow> nat" where
  "steps_left env p = (case p of
     Ph_updated _ _ \<Rightarrow> 1 | Ph_completed _ _ \<Rightarrow> 2 | Ph_ended _ _ _ \<Rightarrow> 3
   | Ph_polling _ waited _ \<Rightarrow> 4 + polls_left env waited
   | Ph_running \<Rightarrow> 5 + polls_left env 0
   | Ph_spawned \<Rightarrow> 6 + polls_left env 0
   | Ph_ready \<Rightarrow> 6 + polls_left env 0)"

definition sound_phase :: "fire_phase \<Rightarrow> bool" where
  "sound_phase p = (case p of
     Ph_polling _ _ interval \<Rightarrow> 500 \<le> interval
   | Ph_ended st _ _ \<Rightarrow> st \<noteq> Run_running
   | _ \<Rightarrow> True)"

text \<open>The phases in which the row of a run is open.\<close>

definition open_row :: "fire_phase \<Rightarrow> bool" where
  "open_row p = (case p of Ph_ready \<Rightarrow> True | Ph_running \<Rightarrow> True | Ph_polling _ _ _ \<Rightarrow> True | Ph_ended _ _ _ \<Rightarrow> True
     | _ \<Rightarrow> False)"

lemma poll_progress:
  assumes "waited + interval \<le> rv_full_job_timeout env * 1000" "500 \<le> interval"
  shows "polls_left env (waited + interval) < polls_left env waited"
proof -
  have "(rv_full_job_timeout env * 1000 - (waited + interval)) + 500 \<le> rv_full_job_timeout env * 1000 - waited"
    using assms by linarith
  then have "((rv_full_job_timeout env * 1000 - (waited + interval)) + 500) div 500
      \<le> (rv_full_job_timeout env * 1000 - waited) div 500" by (rule div_le_mono)
  then show ?thesis by (simp add: polls_left_def)
qed

definition start_effect :: "'w routine_engine \<Rightarrow> 'w routine_engine \<Rightarrow> bool" where
  "start_effect s s' \<longleftrightarrow> re_tasks s' = re_tasks s \<and> re_running s' = re_running s \<and> re_dry s' = re_dry s
     \<and> re_cache s' = re_cache s \<and> re_cron_queue s' = re_cron_queue s \<and> re_event_queue s' = re_event_queue s
     \<and> (re_store s' = re_store s \<or> (\<exists>i j. re_store s' = update_routine_run_job_id i j (re_store s)))"

lemma start_full_job_effect: "start_effect s (fst (start_full_job env now fresh r i jt jd n s))"
  by (auto simp: start_full_job_def start_effect_def Let_def split: prod.split sum.split)

text \<open>Where a step takes a run, and what it does to the count and the tables.\<close>

definition store_effect :: "'w routine_env \<Rightarrow> uuid \<Rightarrow> fire_task \<Rightarrow> fire_phase option \<Rightarrow> routine_store \<Rightarrow> routine_store \<Rightarrow> bool" where
  "store_effect env i t p st st' \<longleftrightarrow>
     (case ft_phase t of
        Ph_spawned \<Rightarrow> (case p of None \<Rightarrow> st' = st
          | Some _ \<Rightarrow> \<exists>now. st' = fst (create_routine_run (ft_run t) now st)
                       \<and> snd (create_routine_run (ft_run t) now st) = Inr ())
      | Ph_ended res said tokens \<Rightarrow> st' = st \<and> (\<exists>w. rv_db_fails env w Db_complete_run \<noteq> None) \<or> (\<exists>now. st' = complete_routine_run i res said tokens now st)
      | Ph_completed res said \<Rightarrow> st' = st \<or> (\<exists>l n c f v now. st' = update_routine_runtime (rn_id (ft_routine t)) l n c f v now st)
      | _ \<Rightarrow> st' = st \<or> (\<exists>k j. st' = update_routine_run_job_id k j st))"

lemma record_run_shape: "\<exists>l n c f v m. record_run env now r st s = update_routine_runtime (rn_id r) l n c f v m s"
  unfolding record_run_def by blast

definition next_phase_ok :: "'w routine_env \<Rightarrow> fire_phase \<Rightarrow> fire_phase \<Rightarrow> bool" where
  "next_phase_ok env p q \<longleftrightarrow> (sound_phase p \<longrightarrow> sound_phase q \<and> steps_left env q < steps_left env p)
     \<and> (open_row p \<longrightarrow> open_row q \<or> (\<exists>a b c. p = Ph_ended a b c))
     \<and> (p = Ph_spawned \<longrightarrow> q = Ph_running) \<and> q \<noteq> Ph_spawned \<and> (\<not> open_row p \<longrightarrow> p \<noteq> Ph_spawned \<longrightarrow> \<not> open_row q)"

lemma ended_ok: "st \<noteq> Run_running \<Longrightarrow> executing p \<Longrightarrow> next_phase_ok env p (Ph_ended st said tokens)"
  by (cases p) (simp_all add: next_phase_ok_def executing_def sound_phase_def open_row_def steps_left_def)

lemma execution_step:
  assumes "executing (ft_phase t)" "\<And>x. res = Inr x \<Longrightarrow> fst x \<noteq> Run_running"
  obtains q where "re_tasks (execution_ends i t res s) = AList.update i (t\<lparr>ft_phase := q\<rparr>) (re_tasks s)"
    "re_running (execution_ends i t res s) = re_running s - 1" "re_store (execution_ends i t res s) = re_store s"
    "re_dry (execution_ends i t res s) = re_dry s" "next_phase_ok env (ft_phase t) q" "\<not> executing q"
    "re_cache (execution_ends i t res s) = re_cache s" "re_cron_queue (execution_ends i t res s) = re_cron_queue s"
    "re_event_queue (execution_ends i t res s) = re_event_queue s"
proof -
  obtain st said tokens where e: "execution_ends i t res s = set_phase i t (Ph_ended st said tokens) (s\<lparr>re_running := re_running s - 1\<rparr>)"
    "st = (case res of Inr x \<Rightarrow> fst x | Inl e \<Rightarrow> Run_failed)" by (rule execution_ends_shape)
  have "st \<noteq> Run_running" using assms(2) e(2) by (cases res) auto
  with assms(1) have "next_phase_ok env (ft_phase t) (Ph_ended st said tokens)" by (intro ended_ok)
  then show ?thesis using that [of "Ph_ended st said tokens"] e(1) by (simp add: executing_def)
qed


definition next_tasks :: "uuid \<Rightarrow> fire_task \<Rightarrow> fire_phase option \<Rightarrow> (uuid \<times> fire_task) list \<Rightarrow> (uuid \<times> fire_task) list" where
  "next_tasks i t p ts = (case p of None \<Rightarrow> AList.delete i ts | Some q \<Rightarrow> AList.update i (t\<lparr>ft_phase := q\<rparr>) ts)"

definition task_shape ::
  "'w routine_env \<Rightarrow> uuid \<Rightarrow> fire_task \<Rightarrow> fire_phase option \<Rightarrow> 'w routine_engine \<Rightarrow> 'w routine_engine \<Rightarrow> bool" where
  "task_shape env i t p s s' \<longleftrightarrow> re_tasks s' = next_tasks i t p (re_tasks s)
     \<and> re_running s' = re_running s + of_bool (\<exists>q. p = Some q \<and> executing q \<and> \<not> executing (ft_phase t))
                      - of_bool (executing (ft_phase t) \<and> \<not> (\<exists>q. p = Some q \<and> executing q))
     \<and> re_dry s' = re_dry s \<and> re_cache s' = re_cache s \<and> re_cron_queue s' = re_cron_queue s
     \<and> re_event_queue s' = re_event_queue s \<and> store_effect env i t p (re_store s) (re_store s')
     \<and> (case p of Some q \<Rightarrow> next_phase_ok env (ft_phase t) q | None \<Rightarrow> \<not> executing (ft_phase t) \<and> (ft_phase t = Ph_spawned \<or> \<not> open_row (ft_phase t)))"

lemma execute_shape:
  assumes "ft_phase t = Ph_running"
  shows "\<exists>p. task_shape env i t p s (execute_action env now fresh i t s)"
proof (cases "rn_action (ft_routine t)")
  case (Lightweight prompt paths n)
  obtain w res where e: "execute_lightweight env (rn_name (ft_routine t)) prompt paths n (re_world s) = (w, res)"
    by (rule prod.exhaust)
  have "executing (ft_phase t)" using assms by (simp add: executing_def)
  moreover have "fst x \<noteq> Run_running" if "res = Inr x" for x using lightweight_status [OF e [unfolded that]] .
  ultimately show ?thesis
    by (rule execution_step [of t res i "s\<lparr>re_world := w\<rparr>" env])
      (use Lightweight e assms in \<open>auto simp: execute_action_def task_shape_def next_tasks_def store_effect_def executing_def
         intro!: exI [of _ "Some _"]\<close>)
next
  case (Full_job jt jd n)
  obtain s1 res where e: "start_full_job env now fresh (ft_routine t) i jt jd n s = (s1, res)" by (rule prod.exhaust)
  have eff: "start_effect s s1" using start_full_job_effect [of s env now fresh "ft_routine t" i jt jd n] e by simp
  show ?thesis
  proof (cases res)
    case (Inl err)
    have "executing (ft_phase t)" using assms by (simp add: executing_def)
    moreover have "fst x \<noteq> Run_running" if "Inl err = (Inr x :: (string, execution) result)" for x using that by simp
    ultimately show ?thesis
      by (rule execution_step [of t "Inl err" i s1 env])
        (use Full_job e Inl assms eff in \<open>auto simp: execute_action_def task_shape_def next_tasks_def store_effect_def
           executing_def start_effect_def intro!: exI [of _ "Some _"]\<close>)
  next
    case (Inr j)
    have "next_phase_ok env Ph_running (Ph_polling j 0 500)"
      by (simp add: next_phase_ok_def sound_phase_def open_row_def steps_left_def)
    with Full_job e Inr assms eff show ?thesis
      by (auto simp: execute_action_def task_shape_def next_tasks_def store_effect_def executing_def start_effect_def
          intro!: exI [of _ "Some (Ph_polling j 0 500)"])
  qed
qed

lemma poll_shape:
  assumes ph: "ft_phase t = Ph_polling j waited interval"
  shows "\<exists>p. task_shape env i t p s (task_step env now fresh i t s)"
proof -
  obtain js res where e: "poll_job env now j waited interval (re_jobs s) = (js, res)" by (rule prod.exhaust)
  show ?thesis
  proof (cases res)
    case (Poll_again w' i')
    have "next_phase_ok env (ft_phase t) (Ph_polling j w' i')"
      using poll_interval [OF e [unfolded Poll_again]] poll_progress [of waited interval env] ph
      by (auto simp: next_phase_ok_def sound_phase_def open_row_def steps_left_def)
    with ph e Poll_again show ?thesis
      by (auto simp: task_step_def task_shape_def next_tasks_def store_effect_def executing_def
          intro!: exI [of _ "Some (Ph_polling j w' i')"])
  next
    case (Poll_over res')
    have "executing (ft_phase t)" using ph by (simp add: executing_def)
    moreover have "fst x \<noteq> Run_running" if "res' = Inr x" for x using poll_status [OF e [unfolded Poll_over that]] .
    ultimately show ?thesis
      by (rule execution_step [of t res' i "s\<lparr>re_jobs := js\<rparr>" env])
        (use ph e Poll_over in \<open>auto simp: task_step_def task_shape_def next_tasks_def store_effect_def executing_def
           intro!: exI [of _ "Some _"]\<close>)
  qed
qed

lemma task_step_shape: "\<exists>p. task_shape env i t p s (task_step env now fresh i t s)"
proof (cases "ft_phase t")
  case Ph_spawned
  show ?thesis
  proof (cases "db_ok env Db_create_run s \<and> snd (create_routine_run (ft_run t) now (re_store s)) = Inr ()")
    case True
    then obtain st where st: "create_routine_run (ft_run t) now (re_store s) = (st, Inr ())"
      by (cases "create_routine_run (ft_run t) now (re_store s)") auto
    have "next_phase_ok env Ph_spawned Ph_running"
      by (simp add: next_phase_ok_def sound_phase_def open_row_def steps_left_def)
    with True Ph_spawned st show ?thesis
      by (intro exI [of _ "Some Ph_running"])
        (simp add: task_step_def task_shape_def next_tasks_def store_effect_def executing_def exI [of _ now])
  next
    case False
    with Ph_spawned show ?thesis
      by (intro exI [of _ None])
        (auto simp: task_step_def task_shape_def next_tasks_def store_effect_def executing_def split: prod.split sum.split)
  qed
next
  case Ph_ready
  have "next_phase_ok env Ph_ready Ph_running"
    by (simp add: next_phase_ok_def sound_phase_def open_row_def steps_left_def)
  with Ph_ready show ?thesis
    by (intro exI [of _ "Some Ph_running"])
      (simp add: task_step_def task_shape_def next_tasks_def store_effect_def executing_def)
next
  case Ph_running
  with execute_shape [OF Ph_running] show ?thesis by (simp add: task_step_def)
next
  case (Ph_polling j waited interval)
  then show ?thesis by (rule poll_shape)
next
  case (Ph_ended st said tokens)
  have "next_phase_ok env (Ph_ended st said tokens) (Ph_completed st said)"
    by (simp add: next_phase_ok_def sound_phase_def open_row_def steps_left_def)
  with Ph_ended show ?thesis
    by (intro exI [of _ "Some (Ph_completed st said)"])
      (auto simp: task_step_def task_shape_def next_tasks_def store_effect_def executing_def db_ok_def)
next
  case (Ph_completed st said)
  have "next_phase_ok env (Ph_completed st said) (Ph_updated st said)"
    by (simp add: next_phase_ok_def sound_phase_def open_row_def steps_left_def)
  with Ph_completed record_run_shape [of env now "ft_routine t" st "re_store s"] show ?thesis
    by (intro exI [of _ "Some (Ph_updated st said)"])
      (simp add: task_step_def task_shape_def next_tasks_def store_effect_def executing_def)
next
  case (Ph_updated st said)
  then show ?thesis
    by (intro exI [of _ None])
      (simp add: task_step_def task_shape_def next_tasks_def store_effect_def executing_def open_row_def)
qed


section \<open>Which runs are started\<close>

definition start_allowed :: "'w routine_env \<Rightarrow> 'w routine_engine \<Rightarrow> 'w engine_event \<Rightarrow> fire_task \<Rightarrow> bool" where
  "start_allowed env s e t \<longleftrightarrow> check_concurrent env s (ft_routine t) \<and> (case e of
     Re_next_event now i \<Rightarrow> has_capacity env s \<and> check_cooldown now (ft_routine t)
       \<and> (\<exists>chan msg. (ft_routine t, chan, msg) \<in> set (re_event_queue s) \<and> event_matches env (ft_routine t) chan msg)
   | Re_next_cron now i \<Rightarrow> has_capacity env s \<and> check_cooldown now (ft_routine t) \<and> ft_routine t \<in> set (re_cron_queue s)
   | Re_manual now r i \<Rightarrow> get_routine r (re_store s) = Inr (Some (ft_routine t)) \<and> rn_enabled (ft_routine t)
   | _ \<Rightarrow> False)"

definition starts_run :: "'w routine_env \<Rightarrow> uuid \<Rightarrow> fire_task \<Rightarrow> 'w engine_event \<Rightarrow> 'w routine_engine \<Rightarrow> 'w routine_engine \<Rightarrow> bool" where
  "starts_run env i t e s s' \<longleftrightarrow> unused_run i s \<and> re_tasks s' = AList.update i t (re_tasks s) \<and> start_allowed env s e t
     \<and> rr_id (ft_run t) = i \<and> rr_status (ft_run t) = Run_running \<and> rr_routine_id (ft_run t) = rn_id (ft_routine t)
     \<and> re_running s' = re_running s \<and> re_dry s' = re_dry s
     \<and> (ft_phase t = Ph_spawned \<and> re_store s' = re_store s
        \<or> ft_phase t = Ph_ready \<and> (\<exists>now. re_store s' = fst (create_routine_run (ft_run t) now (re_store s))
             \<and> snd (create_routine_run (ft_run t) now (re_store s)) = Inr ()))"

lemma new_run_simps [simp]:
  "rr_id (new_run i r kind detail now) = i" "rr_status (new_run i r kind detail now) = Run_running"
  "rr_routine_id (new_run i r kind detail now) = rn_id r"
  by (simp_all add: new_run_def)

definition same_runs :: "'w routine_engine \<Rightarrow> 'w routine_engine \<Rightarrow> bool" where
  "same_runs s s' \<longleftrightarrow> re_tasks s' = re_tasks s \<and> re_running s' = re_running s \<and> re_dry s' = re_dry s
     \<and> re_store s' = re_store s"

lemma next_event_shape:
  assumes "unused_run i s"
  shows "same_runs s (next_event env now i s) \<or> (\<exists>t. starts_run env i t (Re_next_event now i) s (next_event env now i s))"
proof (cases "re_event_queue s")
  case Nil
  then show ?thesis by (simp add: next_event_def Let_def same_runs_def)
next
  case (Cons q rest)
  obtain r chan msg where q: "q = (r, chan, msg)" by (cases q) auto
  show ?thesis
  proof (cases "event_matches env r chan msg \<and> check_cooldown now r \<and> check_concurrent env s r \<and> has_capacity env s")
    case True
    with Cons q assms show ?thesis
      by (intro disjI2 exI [of _ "\<lparr>ft_routine = r, ft_run = new_run i r ''event'' (Some (excerpt msg)) now, ft_phase = Ph_spawned\<rparr>"])
        (auto simp: next_event_def Let_def starts_run_def start_allowed_def spawn_fire_def)
  next
    case False
    with Cons q show ?thesis by (auto simp: next_event_def Let_def same_runs_def)
  qed
qed

lemma next_cron_shape:
  assumes "unused_run i s"
  shows "same_runs s (next_cron env now i s) \<or> (\<exists>t. starts_run env i t (Re_next_cron now i) s (next_cron env now i s))"
proof (cases "re_cron_queue s")
  case Nil
  then show ?thesis by (simp add: next_cron_def Let_def same_runs_def)
next
  case (Cons r rest)
  show ?thesis
  proof (cases "has_capacity env s \<and> check_cooldown now r \<and> check_concurrent env s r")
    case True
    with Cons assms show ?thesis
      by (intro disjI2 exI [of _ "\<lparr>ft_routine = r, ft_run = new_run i r ''cron'' (cron_detail r) now, ft_phase = Ph_spawned\<rparr>"])
        (simp add: next_cron_def Let_def starts_run_def start_allowed_def spawn_fire_def)
  next
    case False
    with Cons show ?thesis by (auto simp: next_cron_def Let_def same_runs_def)
  qed
qed

lemma manual_shape:
  assumes "unused_run i s"
  shows "same_runs s (fst (fire_manual env now r i s)) \<or> (\<exists>t. starts_run env i t (Re_manual now r i) s (fst (fire_manual env now r i s)))"
proof (cases "\<exists>x. fire_manual env now r i s = (s, Inl x)")
  case True
  then show ?thesis by (auto simp: same_runs_def)
next
  case False
  then obtain ro st where *: "db_query env Db_get s (get_routine r (re_store s)) = Inr (Some ro)" "rn_enabled ro"
      "check_concurrent env s ro" "create_routine_run (new_run i ro ''manual'' None now) now (re_store s) = (st, Inr ())"
      "fst (fire_manual env now r i s) = s\<lparr>re_store := st, re_tasks := AList.update i
         \<lparr>ft_routine = ro, ft_run = new_run i ro ''manual'' None now, ft_phase = Ph_ready\<rparr> (re_tasks s)\<rparr>"
    by (auto simp: fire_manual_def Let_def split: sum.splits option.splits prod.splits if_splits)
  from *(1) have "get_routine r (re_store s) = Inr (Some ro)" by (auto simp: db_query_def split: option.splits)
  moreover have "st = fst (create_routine_run (new_run i ro ''manual'' None now) now (re_store s))"
    "snd (create_routine_run (new_run i ro ''manual'' None now) now (re_store s)) = Inr ()" using *(4) by simp_all
  ultimately show ?thesis using *(2,3,5) assms
    by (intro disjI2 exI [of _ "\<lparr>ft_routine = ro, ft_run = new_run i ro ''manual'' None now, ft_phase = Ph_ready\<rparr>"])
      (auto simp: starts_run_def start_allowed_def)
qed

text \<open>What an event does to runs, count and tables, by its kind.\<close>

definition event_effect :: "'w routine_env \<Rightarrow> 'w routine_engine \<Rightarrow> 'w engine_event \<Rightarrow> 'w routine_engine \<Rightarrow> bool" where
  "event_effect env s e s' \<longleftrightarrow> same_runs s s' \<or> (\<exists>i t. starts_run env i t e s s')
     \<or> (\<exists>i now fresh t p. e = Re_task i now fresh \<and> map_of (re_tasks s) i = Some t \<and> task_shape env i t p s s')
     \<or> (\<exists>i t. e = Re_panic i \<and> map_of (re_tasks s) i = Some t \<and> executing (ft_phase t) \<and> s' = end_task i s)
     \<or> (e = Re_dry_begin \<or> e = Re_dry_end \<and> re_dry s \<noteq> 0) \<and> s' = engine_step env s e
     \<or> (\<exists>js. e = Re_restart js) \<and> s' = engine_step env s e
     \<or> (\<exists>op. re_store s' = store_step (re_store s) op \<and> re_tasks s' = re_tasks s \<and> re_running s' = re_running s
          \<and> re_dry s' = re_dry s \<and> ((\<exists>r. e = Re_create_routine r \<and> op = So_create r)
            \<or> (\<exists>r now. e = Re_update_routine r now \<and> op = So_update r now) \<or> (\<exists>i. e = Re_delete_routine i \<and> op = So_delete i)))"

lemma event_effects: "event_effect env s e (engine_step env s e)"
proof (cases e)
  case Re_refresh
  then show ?thesis by (auto simp: event_effect_def same_runs_def refresh_event_cache_def split: sum.split)
next
  case (Re_tick now)
  then show ?thesis by (auto simp: event_effect_def same_runs_def check_cron_triggers_def split: sum.split)
next
  case (Re_message chan msg)
  then show ?thesis by (auto simp: event_effect_def same_runs_def check_event_triggers_def)
next
  case (Re_next_event now i)
  show ?thesis
  proof (cases "unused_run i s")
    case True
    then show ?thesis using next_event_shape [OF True, of env now] Re_next_event by (auto simp: event_effect_def)
  qed (use Re_next_event in \<open>simp add: event_effect_def same_runs_def\<close>)
next
  case (Re_next_cron now i)
  show ?thesis
  proof (cases "unused_run i s")
    case True
    then show ?thesis using next_cron_shape [OF True, of env now] Re_next_cron by (auto simp: event_effect_def)
  qed (use Re_next_cron in \<open>simp add: event_effect_def same_runs_def\<close>)
next
  case (Re_manual now r i)
  show ?thesis
  proof (cases "unused_run i s")
    case True
    then show ?thesis using manual_shape [OF True, of env now r] Re_manual by (auto simp: event_effect_def)
  qed (use Re_manual in \<open>simp add: event_effect_def same_runs_def\<close>)
next
  case (Re_task i now fresh)
  show ?thesis
  proof (cases "map_of (re_tasks s) i")
    case None
    with Re_task show ?thesis by (simp add: event_effect_def same_runs_def)
  next
    case (Some t)
    with Re_task task_step_shape [of env i t s now fresh] show ?thesis unfolding event_effect_def by fastforce
  qed
next
  case (Re_panic i)
  then show ?thesis by (auto simp: event_effect_def same_runs_def split: option.split)
next
  case (Re_job ev)
  then show ?thesis by (simp add: event_effect_def same_runs_def)
next
  case (Re_create_routine r)
  then show ?thesis unfolding event_effect_def by (intro disjI2 exI [of _ "So_create r"]) simp
next
  case (Re_update_routine r now)
  then show ?thesis unfolding event_effect_def by (intro disjI2 exI [of _ "So_update r now"]) simp
next
  case (Re_delete_routine i)
  then show ?thesis unfolding event_effect_def by (intro disjI2 exI [of _ "So_delete i"]) simp
next
  case (Re_world w)
  then show ?thesis by (simp add: event_effect_def same_runs_def)
next
  case (Re_restart js)
  then show ?thesis by (simp add: event_effect_def)
next
  case Re_dry_begin
  then show ?thesis by (simp add: event_effect_def)
next
  case Re_dry_end
  then show ?thesis by (auto simp: event_effect_def same_runs_def)
qed


section \<open>The running count\<close>

definition active_runs :: "(uuid \<times> fire_task) list \<Rightarrow> nat" where
  "active_runs ts = length (filter (\<lambda>(i, t). executing (ft_phase t)) ts)"

definition sound_task :: "uuid \<times> fire_task \<Rightarrow> bool" where
  "sound_task it = (case it of (i, t) \<Rightarrow> rr_id (ft_run t) = i \<and> rr_status (ft_run t) = Run_running \<and> sound_phase (ft_phase t))"

definition engine_ok :: "'w routine_engine \<Rightarrow> bool" where
  "engine_ok s \<longleftrightarrow> dkeys (re_tasks s) \<and> list_all sound_task (re_tasks s)
     \<and> re_dry s + active_runs (re_tasks s) \<le> re_running s"

definition lost_slots :: "'w routine_engine \<Rightarrow> nat" where
  "lost_slots s = re_running s - re_dry s - active_runs (re_tasks s)"

lemma active_update_new:
  "map_of ts i = None \<Longrightarrow> active_runs (AList.update i t ts) = active_runs ts + of_bool (executing (ft_phase t))"
  by (induction ts) (auto simp: active_runs_def split: if_splits)

lemma active_next:
  "dkeys ts \<Longrightarrow> map_of ts i = Some t \<Longrightarrow> active_runs (next_tasks i t p ts) + of_bool (executing (ft_phase t))
     = active_runs ts + of_bool (\<exists>q. p = Some q \<and> executing q)"
proof (induction ts)
  case (Cons kv ts)
  obtain k v where kv: "kv = (k, v)" by (cases kv)
  show ?case
  proof (cases "k = i")
    case True
    then have "AList.delete i ts = ts" using Cons(2) kv by (simp add: dkeys_Cons delete_idem)
    with True kv Cons show ?thesis by (auto simp: next_tasks_def active_runs_def split: option.split)
  next
    case False
    with kv Cons show ?thesis by (auto simp: next_tasks_def active_runs_def dkeys_Cons split: option.splits)
  qed
qed simp

lemma dkeys_next [simp]: "dkeys ts \<Longrightarrow> dkeys (next_tasks i t p ts)"
  by (auto simp: next_tasks_def split: option.split)

lemma alist_update_sub: "set (AList.update k v al) \<subseteq> insert (k, v) (set al)"
  by (induction al) auto

lemma alist_delete_sub: "set (AList.delete k al) \<subseteq> set al"
  by (induction al) auto

lemma sound_tasks_of: "list_all sound_task ts \<Longrightarrow> map_of ts i = Some t \<Longrightarrow> sound_task (i, t)"
  by (auto simp: list_all_iff dest: map_of_SomeD)

lemma sound_next:
  assumes ts: "list_all sound_task ts" and t: "map_of ts i = Some t" and sh: "task_shape env i t p s s'"
  shows "list_all sound_task (next_tasks i t p ts)"
proof -
  have "sound_task (i, t)" using ts t by (rule sound_tasks_of)
  then have "sound_task (i, t\<lparr>ft_phase := q\<rparr>)" if "p = Some q" for q
    using sh that by (simp add: sound_task_def task_shape_def next_phase_ok_def)
  with ts alist_update_sub [of i _ ts] alist_delete_sub [of i ts] show ?thesis
    by (fastforce simp: next_tasks_def list_all_iff split: option.split)
qed

lemma task_counts:
  assumes ok: "engine_ok s" and t: "map_of (re_tasks s) i = Some t" and sh: "task_shape env i t p s s'"
  shows "engine_ok s' \<and> lost_slots s' = lost_slots s"
proof -
  have r: "re_running s' = re_running s + of_bool (\<exists>q. p = Some q \<and> executing q \<and> \<not> executing (ft_phase t))
      - of_bool (executing (ft_phase t) \<and> \<not> (\<exists>q. p = Some q \<and> executing q))"
    "re_dry s' = re_dry s" "re_tasks s' = next_tasks i t p (re_tasks s)" using sh by (simp_all add: task_shape_def)
  have a: "active_runs (next_tasks i t p (re_tasks s)) + of_bool (executing (ft_phase t))
      = active_runs (re_tasks s) + of_bool (\<exists>q. p = Some q \<and> executing q)"
    using ok t by (simp add: engine_ok_def active_next)
  have c: "re_dry s + active_runs (re_tasks s) \<le> re_running s" using ok by (simp add: engine_ok_def)
  have "re_dry s' + active_runs (re_tasks s') \<le> re_running s' \<and> lost_slots s' = lost_slots s"
    using a c unfolding lost_slots_def r by (cases "executing (ft_phase t)"; cases "\<exists>q. p = Some q \<and> executing q") auto
  moreover have "dkeys (re_tasks s')" "list_all sound_task (re_tasks s')"
    using ok sound_next [OF _ t sh] r(3) by (simp_all add: engine_ok_def)
  ultimately show ?thesis by (simp add: engine_ok_def)
qed

definition is_panic :: "'w engine_event \<Rightarrow> bool" where
  "is_panic e = (case e of Re_panic _ \<Rightarrow> True | _ \<Rightarrow> False)"

definition is_restart :: "'w engine_event \<Rightarrow> bool" where
  "is_restart e = (case e of Re_restart _ \<Rightarrow> True | _ \<Rightarrow> False)"

lemma start_counts:
  assumes "engine_ok s" "starts_run env i t e s s'"
  shows "engine_ok s' \<and> lost_slots s' = lost_slots s"
proof -
  have n: "map_of (re_tasks s) i = None" "re_tasks s' = AList.update i t (re_tasks s)" "sound_task (i, t)"
      "\<not> executing (ft_phase t)" "re_running s' = re_running s" "re_dry s' = re_dry s"
    using assms(2) by (auto simp: starts_run_def unused_run_def sound_task_def sound_phase_def executing_def)
  then have "active_runs (re_tasks s') = active_runs (re_tasks s)" by (simp add: active_update_new)
  moreover have "list_all sound_task (re_tasks s')"
    using assms(1) n(2,3) alist_update_sub [of i t "re_tasks s"] by (auto simp: engine_ok_def list_all_iff)
  ultimately show ?thesis using assms(1) n by (simp add: engine_ok_def lost_slots_def)
qed

lemma panic_counts:
  assumes ok: "engine_ok s" and t: "map_of (re_tasks s) i = Some t" "executing (ft_phase t)"
  shows "engine_ok (end_task i s) \<and> lost_slots (end_task i s) = lost_slots s + 1"
proof -
  have "active_runs (AList.delete i (re_tasks s)) + 1 = active_runs (re_tasks s)"
    using active_next [of "re_tasks s" i t None] ok t by (simp add: engine_ok_def next_tasks_def)
  moreover have "list_all sound_task (AList.delete i (re_tasks s))"
    using ok alist_delete_sub [of i "re_tasks s"] by (auto simp: engine_ok_def list_all_iff)
  ultimately show ?thesis using ok by (simp add: engine_ok_def lost_slots_def) arith
qed

lemma event_counts:
  assumes ok: "engine_ok s"
  shows "engine_ok (engine_step env s e)
     \<and> (\<not> is_restart e \<longrightarrow> lost_slots s \<le> lost_slots (engine_step env s e))
     \<and> (\<not> is_panic e \<longrightarrow> lost_slots s = 0 \<longrightarrow> lost_slots (engine_step env s e) = 0)"
proof -
  let ?s = "engine_step env s e"
  consider (same) "same_runs s ?s" | (start) i t where "starts_run env i t e s ?s"
    | (task) i t p where "map_of (re_tasks s) i = Some t" "task_shape env i t p s ?s"
    | (panic) i t where "e = Re_panic i" "map_of (re_tasks s) i = Some t" "executing (ft_phase t)" "?s = end_task i s"
    | (dry) "e = Re_dry_begin \<or> e = Re_dry_end \<and> re_dry s \<noteq> 0"
    | (restart) js where "e = Re_restart js"
    | (store) "re_tasks ?s = re_tasks s" "re_running ?s = re_running s" "re_dry ?s = re_dry s"
    using event_effects [of env s e] unfolding event_effect_def by blast
  then show ?thesis
  proof cases
    case same
    with ok show ?thesis by (simp add: same_runs_def engine_ok_def lost_slots_def)
  next
    case start
    with start_counts [OF ok] show ?thesis by simp
  next
    case task
    with task_counts [OF ok] show ?thesis by simp
  next
    case panic
    with panic_counts [OF ok] show ?thesis by (simp add: is_panic_def)
  next
    case dry
    with ok show ?thesis by (auto simp: engine_ok_def lost_slots_def)
  next
    case restart
    then show ?thesis by (simp add: engine_ok_def active_runs_def lost_slots_def is_restart_def)
  next
    case store
    with ok show ?thesis by (simp add: engine_ok_def lost_slots_def)
  qed
qed

interpretation engine: transition_system "engine_step env" engine_ok for env
  by unfold_locales (simp add: event_counts)

lemma new_engine_ok [simp]: "engine_ok (new_engine st js w)"
  by (simp add: engine_ok_def new_engine_def active_runs_def)

text \<open>As long as no run panics, the running count is the number of runs that execute and of dry runs, so the
  global limit counts neither too many nor too few.\<close>
theorem running_count_exact:
  assumes "list_all (\<lambda>e. \<not> is_panic e) es"
  shows "re_running (foldl (engine_step env) (new_engine st js w) es)
    = re_dry (foldl (engine_step env) (new_engine st js w) es)
      + active_runs (re_tasks (foldl (engine_step env) (new_engine st js w) es))"
proof -
  have "engine_ok (foldl (engine_step env) s es) \<and> lost_slots (foldl (engine_step env) s es) = 0"
    if "engine_ok s" "lost_slots s = 0" for s using assms that
  proof (induction es arbitrary: s)
    case (Cons e es)
    with event_counts [of s env e] show ?case by simp
  qed simp
  from this [of "new_engine st js w"] show ?thesis
    by (simp add: engine_ok_def lost_slots_def) (simp add: new_engine_def active_runs_def)
qed

lemma lost_slots_stay:
  assumes "engine_ok s" "list_all (\<lambda>e. \<not> is_restart e) es"
  shows "lost_slots s \<le> lost_slots (foldl (engine_step env) s es)"
  using assms
proof (induction es arbitrary: s)
  case (Cons e es)
  then have "lost_slots s \<le> lost_slots (engine_step env s e)" using event_counts [of s env e] by simp
  also have "... \<le> lost_slots (foldl (engine_step env) (engine_step env s e) es)"
    using Cons event_counts [of s env e] by simp
  finally show ?case by simp
qed simp

text \<open>A run that panics keeps its slot: once as many runs have panicked as there are slots, no scheduled or event
  routine is started any more until the program restarts, whatever happens.\<close>
theorem lost_slots_block_triggers:
  assumes "engine_ok s" "rv_max_concurrent env \<le> lost_slots s" "list_all (\<lambda>e. \<not> is_restart e) es"
    "e = Re_next_cron now i \<or> e = Re_next_event now i"
  shows "re_tasks (engine_step env (foldl (engine_step env) s es) e) = re_tasks (foldl (engine_step env) s es)"
proof -
  let ?s = "foldl (engine_step env) s es"
  have "\<not> has_capacity env ?s"
    using lost_slots_stay [OF assms(1,3), of env] assms(2) by (auto simp: has_capacity_def lost_slots_def)
  then show ?thesis using assms(4) by (auto simp: next_cron_def next_event_def Let_def split: list.split)
qed


section \<open>Rows and runs\<close>

definition open_rows_have_runs :: "'w routine_engine \<Rightarrow> bool" where
  "open_rows_have_runs s \<longleftrightarrow> (\<forall>x \<in> set (rs_runs (re_store s)). rx_status x = ''running'' \<longrightarrow>
     (case map_of (re_tasks s) (rx_id x) of Some t \<Rightarrow> open_row (ft_phase t) | None \<Rightarrow> False))"

lemma created_run_rows:
  assumes "snd (create_routine_run r now st) = Inr ()"
  shows "rs_runs (fst (create_routine_run r now st)) = rs_runs st @ [new_run_row r now]" "\<forall>x \<in> set (rs_runs st). rx_id x \<noteq> rr_id r"
  using assms by (auto simp: create_routine_run_def list_ex_iff split: if_splits)

lemma run_job_rows:
  assumes "x \<in> set (rs_runs (update_routine_run_job_id i j st))"
  obtains y where "y \<in> set (rs_runs st)" "rx_id y = rx_id x" "rx_status y = rx_status x" "rx_routine_id y = rx_routine_id x"
  using assms by (auto simp: update_routine_run_job_id_def update_runs_def split: if_splits)

lemma run_job_running:
  "x \<in> set (rs_runs (update_routine_run_job_id i j st)) \<Longrightarrow> rx_status x = ''running''
     \<Longrightarrow> \<exists>y \<in> set (rs_runs st). rx_id y = rx_id x \<and> rx_status y = ''running''"
  by (erule run_job_rows) auto

lemma completed_rows:
  assumes "x \<in> set (rs_runs (complete_routine_run i res said tokens now st))"
  obtains y where "y \<in> set (rs_runs st)" "rx_id y = rx_id x"
    "rx_status x = (if rx_id x = i then show_run_status res else rx_status y)"
  using assms by (auto simp: complete_routine_run_def update_runs_def split: if_splits)

lemma runtime_runs [simp]: "rs_runs (update_routine_runtime i l n c f v now st) = rs_runs st"
  by (simp add: update_routine_runtime_def update_rows_def)

lemma map_of_next:
  "map_of (next_tasks i t p ts) j = (if j = i then map_option (\<lambda>q. t\<lparr>ft_phase := q\<rparr>) p else map_of ts j)"
  by (simp add: next_tasks_def split: option.split)

text \<open>Where the rows after a step of a run come from.\<close>

lemma step_rows:
  assumes sh: "task_shape env i t p s s'" and x: "x \<in> set (rs_runs (re_store s'))" "rx_status x = ''running''"
    and snd: "sound_task (i, t)"
  shows "(\<exists>y \<in> set (rs_runs (re_store s)). rx_id y = rx_id x \<and> rx_status y = ''running''
       \<and> (rx_id x = i \<longrightarrow> \<not> (\<exists>a b c. ft_phase t = Ph_ended a b c) \<or> (\<exists>w. rv_db_fails env w Db_complete_run \<noteq> None)))
     \<or> rx_id x = i \<and> ft_phase t = Ph_spawned \<and> p = Some Ph_running"
proof -
  have eff: "store_effect env i t p (re_store s) (re_store s')" using sh by (simp add: task_shape_def)
  show ?thesis
  proof (cases "ft_phase t")
    case Ph_spawned
    show ?thesis
    proof (cases p)
      case None
      with eff Ph_spawned x show ?thesis by (auto simp: store_effect_def)
    next
      case (Some q)
      with eff Ph_spawned obtain now where st: "re_store s' = fst (create_routine_run (ft_run t) now (re_store s))"
        "snd (create_routine_run (ft_run t) now (re_store s)) = Inr ()" by (auto simp: store_effect_def)
      have "x \<in> set (rs_runs (re_store s)) \<or> x = new_run_row (ft_run t) now"
        using created_run_rows(1) [OF st(2)] st(1) x(1) by auto
      moreover have "q = Ph_running" using sh Ph_spawned Some by (simp add: task_shape_def next_phase_ok_def)
      ultimately show ?thesis using snd x Ph_spawned Some by (auto simp: sound_task_def)
    qed
  next
    case (Ph_ended res said tokens)
    then have res: "res \<noteq> Run_running" using snd by (simp add: sound_task_def sound_phase_def)
    from eff Ph_ended consider "re_store s' = re_store s" "\<exists>w. rv_db_fails env w Db_complete_run \<noteq> None"
      | now where "re_store s' = complete_routine_run i res said tokens now (re_store s)" by (auto simp: store_effect_def)
    then show ?thesis
    proof cases
      case 1
      with x show ?thesis by auto
    next
      case (2 now)
      from x(1) [unfolded 2] obtain y where "y \<in> set (rs_runs (re_store s))" "rx_id y = rx_id x"
        "rx_status x = (if rx_id x = i then show_run_status res else rx_status y)" by (rule completed_rows)
      with x(2) res show ?thesis by (auto split: if_splits)
    qed
  next
    case (Ph_completed res said)
    with eff x show ?thesis by (auto simp: store_effect_def)
  next
    case Ph_ready
    with eff x show ?thesis by (auto simp: store_effect_def dest: run_job_running)
  next
    case Ph_running
    with eff x show ?thesis by (auto simp: store_effect_def dest: run_job_running)
  next
    case (Ph_polling j waited interval)
    with eff x show ?thesis by (auto simp: store_effect_def dest: run_job_running)
  next
    case (Ph_updated res said)
    with eff x show ?thesis by (auto simp: store_effect_def dest: run_job_running)
  qed
qed

lemma rows_step:
  assumes ok: "engine_ok s" and inv: "open_rows_have_runs s" and db: "\<And>w. rv_db_fails env w Db_complete_run = None"
    and e: "\<not> is_panic e" "\<not> is_restart e"
  shows "open_rows_have_runs (engine_step env s e)"
proof -
  let ?s = "engine_step env s e"
  consider (same) "same_runs s ?s" | (start) i t where "starts_run env i t e s ?s"
    | (task) i t p where "map_of (re_tasks s) i = Some t" "task_shape env i t p s ?s"
    | (dry) "e = Re_dry_begin \<or> e = Re_dry_end \<and> re_dry s \<noteq> 0"
    | (store) "re_tasks ?s = re_tasks s" "set (rs_runs (re_store ?s)) \<subseteq> set (rs_runs (re_store s))"
    using event_effects [of env s e] e unfolding event_effect_def is_panic_def is_restart_def
    by (auto simp: create_routine_def update_routine_def delete_routine_def update_rows_def split: if_splits) 
  then show ?thesis
  proof cases
    case same
    with inv show ?thesis by (simp add: same_runs_def open_rows_have_runs_def)
  next
    case start
    then have n: "map_of (re_tasks s) i = None" "re_tasks ?s = AList.update i t (re_tasks s)"
      "\<forall>x \<in> set (rs_runs (re_store s)). rx_id x \<noteq> i" "rr_id (ft_run t) = i"
      by (auto simp: starts_run_def unused_run_def list_ex_iff)
    show ?thesis
    proof (cases "re_store ?s = re_store s")
      case True
      with inv n show ?thesis by (auto simp: open_rows_have_runs_def)
    next
      case False
      with start obtain now where c: "re_store ?s = fst (create_routine_run (ft_run t) now (re_store s))"
        "snd (create_routine_run (ft_run t) now (re_store s)) = Inr ()" "ft_phase t = Ph_ready"
        by (auto simp: starts_run_def)
      with inv n created_run_rows(1) [OF c(2)] show ?thesis by (auto simp: open_rows_have_runs_def open_row_def)
    qed
  next
    case task
    have snd: "sound_task (i, t)" using ok task(1) by (auto simp: engine_ok_def intro: sound_tasks_of)
    have ts: "re_tasks ?s = next_tasks i t p (re_tasks s)" using task(2) by (simp add: task_shape_def)
    show ?thesis unfolding open_rows_have_runs_def
    proof (intro ballI impI)
      fix x
      assume x: "x \<in> set (rs_runs (re_store ?s))" "rx_status x = ''running''"
      from step_rows [OF task(2) x snd] db
      consider (old) y where "y \<in> set (rs_runs (re_store s))" "rx_id y = rx_id x" "rx_status y = ''running''"
          "rx_id x = i \<longrightarrow> \<not> (\<exists>a b c. ft_phase t = Ph_ended a b c)"
        | (new) "rx_id x = i" "p = Some Ph_running" by auto
      then show "case map_of (re_tasks ?s) (rx_id x) of Some t \<Rightarrow> open_row (ft_phase t) | None \<Rightarrow> False"
      proof cases
        case old
        with inv have o: "case map_of (re_tasks s) (rx_id x) of Some t \<Rightarrow> open_row (ft_phase t) | None \<Rightarrow> False"
          by (auto simp: open_rows_have_runs_def)
        show ?thesis
        proof (cases "rx_id x = i")
          case True
          with o task(1) have "open_row (ft_phase t)" by simp
          with old(4) True task(2) show ?thesis
            by (auto simp: ts map_of_next task_shape_def next_phase_ok_def open_row_def split: option.splits)
        next
          case False
          with o show ?thesis by (simp add: ts map_of_next)
        qed
      next
        case new
        then show ?thesis by (simp add: ts map_of_next open_row_def)
      qed
    qed
  next
    case dry
    with inv show ?thesis by (auto simp: open_rows_have_runs_def)
  next
    case store
    with inv show ?thesis by (auto simp: open_rows_have_runs_def)
  qed
qed

end
