(* ===== verification/Routine_Runs.thy ===== *)
theory Routine_Runs
  imports Routine_Props
begin

text \<open>
  The properties of the routine engine over whole histories: what starts a run, that every run ends and
  closes its row, that a row without a run blocks its routine for good, that the event check never learns
  of a run, and what a dry run leaves behind.
\<close>

section \<open>Every run ends\<close>

definition quiet_event :: "'w engine_event \<Rightarrow> bool" where
  "quiet_event e \<longleftrightarrow> \<not> is_panic e \<and> \<not> is_restart e"

lemma rows_run:
  assumes db: "\<And>w. rv_db_fails env w Db_complete_run = None"
  shows "engine_ok s \<Longrightarrow> open_rows_have_runs s \<Longrightarrow> list_all quiet_event es
    \<Longrightarrow> open_rows_have_runs (foldl (engine_step env) s es)"
proof (induction es arbitrary: s)
  case (Cons e es)
  then show ?case using rows_step [OF _ _ db, of s e] event_counts [of s env e] by (simp add: quiet_event_def)
qed simp

definition starts_id :: "uuid \<Rightarrow> 'w engine_event \<Rightarrow> bool" where
  "starts_id i e = (case e of Re_next_event _ k \<Rightarrow> k = i | Re_next_cron _ k \<Rightarrow> k = i | Re_manual _ _ k \<Rightarrow> k = i | _ \<Rightarrow> False)"

definition steps_id :: "uuid \<Rightarrow> 'w engine_event \<Rightarrow> bool" where
  "steps_id i e = (case e of Re_task k _ _ \<Rightarrow> k = i | _ \<Rightarrow> False)"

definition run_left :: "'w routine_env \<Rightarrow> uuid \<Rightarrow> 'w routine_engine \<Rightarrow> nat" where
  "run_left env i s = (case map_of (re_tasks s) i of Some t \<Rightarrow> steps_left env (ft_phase t) | None \<Rightarrow> 0)"

lemma steps_left_pos [simp]: "0 < steps_left env p" "steps_left env p \<noteq> 0"
  by (cases p; simp add: steps_left_def)+

lemma task_left:
  assumes ok: "engine_ok s" and t: "map_of (re_tasks s) k = Some t" and sh: "task_shape env k t p s s'"
  shows "run_left env i s' \<le> run_left env i s - of_bool (k = i)"
proof -
  have "sound_phase (ft_phase t)" using ok t sound_tasks_of [of "re_tasks s" k t] by (simp add: engine_ok_def sound_task_def)
  then have "steps_left env q < steps_left env (ft_phase t)" if "p = Some q" for q
    using sh that by (simp add: task_shape_def next_phase_ok_def)
  moreover have "re_tasks s' = next_tasks k t p (re_tasks s)" using sh by (simp add: task_shape_def)
  ultimately show ?thesis using t by (cases p) (auto simp: run_left_def map_of_next)
qed

lemma start_only_id:
  assumes "starts_run env k t e s (engine_step env s e)" "\<not> starts_id i e"
  shows "k \<noteq> i"
proof
  assume k: "k = i"
  have new: "map_of (re_tasks s) i = None" "map_of (re_tasks (engine_step env s e)) i = Some t"
    using assms(1) k by (auto simp: starts_run_def unused_run_def)
  have al: "start_allowed env s e t" using assms(1) by (simp add: starts_run_def)
  then consider now j where "e = Re_next_event now j" | now j where "e = Re_next_cron now j" | now r j where "e = Re_manual now r j"
    by (cases e) (auto simp: start_allowed_def)
  then show False
  proof cases
    case (1 now j)
    with new assms(2) next_event_shape [of j s env now] show False
      by (auto simp: starts_id_def same_runs_def starts_run_def split: if_splits)
  next
    case (2 now j)
    with new assms(2) next_cron_shape [of j s env now] show False
      by (auto simp: starts_id_def same_runs_def starts_run_def split: if_splits)
  next
    case (3 now r j)
    with new assms(2) manual_shape [of j s env now r] show False
      by (auto simp: starts_id_def same_runs_def starts_run_def split: if_splits)
  qed
qed

lemma event_left:
  assumes ok: "engine_ok s" and e: "\<not> starts_id i e"
  shows "run_left env i (engine_step env s e) \<le> run_left env i s - of_bool (steps_id i e)"
proof -
  let ?s = "engine_step env s e"
  consider (same) "same_runs s ?s" | (start) k t where "starts_run env k t e s ?s"
    | (task) k now fresh t p where "e = Re_task k now fresh" "map_of (re_tasks s) k = Some t" "task_shape env k t p s ?s"
    | (panic) k where "e = Re_panic k" "?s = end_task k s"
    | (dry) "e = Re_dry_begin \<or> e = Re_dry_end \<and> re_dry s \<noteq> 0"
    | (restart) js where "e = Re_restart js"
    | (store) "re_tasks ?s = re_tasks s" "(\<exists>r. e = Re_create_routine r) \<or> (\<exists>r now. e = Re_update_routine r now) \<or> (\<exists>r. e = Re_delete_routine r)"
    using event_effects [of env s e] unfolding event_effect_def by blast
  then show ?thesis
  proof cases
    case same
    show ?thesis
    proof (cases "\<exists>now fresh. e = Re_task i now fresh")
      case True
      then obtain now fresh where te: "e = Re_task i now fresh" by blast
      show ?thesis
      proof (cases "map_of (re_tasks s) i")
        case None
        with te show ?thesis by (simp add: run_left_def)
      next
        case (Some t)
        obtain p where "task_shape env i t p s ?s" using task_step_shape [of env i t s now fresh] te Some by auto
        from task_left [OF ok Some this, of i] have "run_left env i ?s \<le> run_left env i s - 1" by simp
        moreover have "steps_id i e" using te by (simp add: steps_id_def)
        ultimately show ?thesis by (simp del: engine_step.simps)
      qed
    next
      case False
      then have "\<not> steps_id i e" by (cases e) (auto simp: steps_id_def)
      with same show ?thesis by (simp add: same_runs_def run_left_def)
    qed
  next
    case start
    then have "k \<noteq> i" using e by (rule start_only_id)
    moreover have "\<not> steps_id i e" using start by (cases e) (auto simp: starts_run_def start_allowed_def steps_id_def)
    ultimately show ?thesis using start by (simp add: starts_run_def run_left_def)
  next
    case task
    with task_left [OF ok task(2,3), of i] show ?thesis by (auto simp: steps_id_def split: if_splits)
  next
    case panic
    then show ?thesis unfolding panic(2) by (simp add: run_left_def steps_id_def)
  next
    case dry
    then show ?thesis by (auto simp: run_left_def steps_id_def)
  next
    case restart
    then show ?thesis by (simp add: run_left_def steps_id_def)
  next
    case store
    then show ?thesis by (auto simp: run_left_def steps_id_def)
  qed
qed

lemma history_left:
  "engine_ok s \<Longrightarrow> list_all (\<lambda>e. \<not> starts_id i e) es
    \<Longrightarrow> run_left env i (foldl (engine_step env) s es) \<le> run_left env i s - length (filter (steps_id i) es)"
proof (induction es arbitrary: s)
  case (Cons e es)
  have "run_left env i (foldl (engine_step env) (engine_step env s e) es)
      \<le> run_left env i (engine_step env s e) - length (filter (steps_id i) es)"
    using Cons event_counts [of s env e] by simp
  also have "... \<le> run_left env i s - of_bool (steps_id i e) - length (filter (steps_id i) es)"
    using event_left [of s i e env] Cons by (simp add: diff_le_mono)
  finally show ?case by (cases "steps_id i e") simp_all
qed simp

lemma steps_left_bound: "steps_left env p \<le> 6 + 2 * rv_full_job_timeout env"
proof -
  have "polls_left env waited \<le> 2 * rv_full_job_timeout env" for waited
    unfolding polls_left_def by (rule order.trans [OF div_le_mono [of _ "rv_full_job_timeout env * 1000"]]) simp_all
  from this [of 0] this show ?thesis by (cases p) (auto simp: steps_left_def intro: le_SucI)
qed

text \<open>C9: A run always ends, a full job included: after at most six steps and two polls per second of the timeout,
  whatever else happens in between, its task is gone and no row of it is left open, as long as the
  program runs, nothing panics and the database closes rows.\<close>
theorem every_run_ends:
  assumes "\<And>w. rv_db_fails env w Db_complete_run = None" "open_rows_have_runs (new_engine st js w0)"
    "list_all quiet_event (es1 @ es2)" "list_all (\<lambda>e. \<not> starts_id i e) es2"
    "6 + 2 * rv_full_job_timeout env \<le> length (filter (steps_id i) es2)"
  shows "map_of (re_tasks (foldl (engine_step env) (new_engine st js w0) (es1 @ es2))) i = None
    \<and> \<not> list_ex (\<lambda>x. rx_id x = i \<and> rx_status x = ''running'')
          (rs_runs (re_store (foldl (engine_step env) (new_engine st js w0) (es1 @ es2))))"
proof -
  let ?s1 = "foldl (engine_step env) (new_engine st js w0) es1"
  let ?s = "foldl (engine_step env) (new_engine st js w0) (es1 @ es2)"
  have "engine_ok ?s1" by (rule engine.run_inv) simp
  then have "run_left env i ?s \<le> run_left env i ?s1 - length (filter (steps_id i) es2)"
    using history_left [of ?s1 i es2 env] assms(4) by simp
  moreover have "run_left env i ?s1 \<le> 6 + 2 * rv_full_job_timeout env"
    by (auto simp: run_left_def intro: steps_left_bound split: option.split)
  ultimately have "run_left env i ?s = 0" using assms(5) by linarith
  then have none: "map_of (re_tasks ?s) i = None"
    by (cases "map_of (re_tasks ?s) i") (use steps_left_pos [of env] in \<open>auto simp: run_left_def\<close>)
  moreover have "open_rows_have_runs ?s" by (rule rows_run [OF assms(1) new_engine_ok assms(2,3)])
  ultimately show ?thesis by (fastforce simp: open_rows_have_runs_def list_ex_iff)
qed


section \<open>Which runs are started\<close>

lemma new_run_starts:
  assumes "map_of (re_tasks s) i = None" "map_of (re_tasks (engine_step env s e)) i = Some t"
  shows "starts_run env i t e s (engine_step env s e)"
proof -
  let ?s = "engine_step env s e"
  have "\<exists>k u. starts_run env k u e s ?s"
    using event_effects [of env s e] assms unfolding event_effect_def
    by (auto simp: same_runs_def task_shape_def map_of_next split: if_splits)
  then obtain k u where st: "starts_run env k u e s ?s" by blast
  then have "map_of (re_tasks ?s) i = (if i = k then Some u else map_of (re_tasks s) i)" by (simp add: starts_run_def)
  with assms have "u = t" "k = i" by (simp_all split: if_splits)
  with st show ?thesis by simp
qed

lemma new_run_allowed:
  assumes "map_of (re_tasks s) i = None" "map_of (re_tasks (engine_step env s e)) i = Some t"
  shows "check_concurrent env s (ft_routine t) \<and> start_allowed env s e t"
  using new_run_starts [OF assms] by (simp add: starts_run_def start_allowed_def)

text \<open>Everything the engine may start comes from enabled routines.\<close>

definition queues_enabled :: "'w routine_engine \<Rightarrow> bool" where
  "queues_enabled s \<longleftrightarrow> list_all rn_enabled (re_cron_queue s) \<and> list_all rn_enabled (re_cache s)
     \<and> list_all (\<lambda>(r, chan, msg). rn_enabled r) (re_event_queue s)"

lemma event_routines_enabled: "list_event_routines st = Inr rs \<Longrightarrow> list_all rn_enabled rs"
  using decode_rows_set [of row_to_routine _ rs] by (fastforce simp: list_event_routines_def list_all_iff row_fields)

lemma cron_routines_enabled: "list_due_cron_routines now st = Inr rs \<Longrightarrow> list_all rn_enabled rs"
  using due_routine(1) [of now st rs] by (auto simp: list_all_iff)

lemma queues_step:
  assumes "queues_enabled s"
  shows "queues_enabled (engine_step env s e)"
proof (cases e)
  case Re_refresh
  with assms show ?thesis
    by (auto simp: queues_enabled_def refresh_event_cache_def db_query_def list_all_iff
        dest: event_routines_enabled split: sum.splits option.splits)
next
  case (Re_tick now)
  with assms show ?thesis
    by (auto simp: queues_enabled_def check_cron_triggers_def db_query_def
        dest: cron_routines_enabled split: sum.splits option.splits)
next
  case (Re_message chan msg)
  with assms show ?thesis by (auto simp: queues_enabled_def check_event_triggers_def list_all_iff)
next
  case (Re_next_event now i)
  with assms show ?thesis by (auto simp: queues_enabled_def next_event_def Let_def split: list.split)
next
  case (Re_next_cron now i)
  with assms show ?thesis by (auto simp: queues_enabled_def next_cron_def Let_def split: list.split)
next
  case (Re_manual now r i)
  with assms show ?thesis
    by (auto simp: queues_enabled_def fire_manual_def Let_def split: sum.splits option.splits prod.splits)
next
  case (Re_task i now fresh)
  show ?thesis
  proof (cases "map_of (re_tasks s) i")
    case (Some t)
    with Re_task task_step_shape [of env i t s now fresh] assms show ?thesis
      by (auto simp: queues_enabled_def task_shape_def)
  qed (use Re_task assms in simp)
next
  case (Re_panic i)
  with assms show ?thesis by (auto simp: queues_enabled_def split: option.split)
qed (use assms in \<open>auto simp: queues_enabled_def\<close>)

interpretation engine_queues: transition_system "engine_step env" queues_enabled for env
  by unfold_locales (rule queues_step)


section \<open>A row without a run\<close>

definition orphan_row :: "uuid \<Rightarrow> uuid \<Rightarrow> 'w routine_engine \<Rightarrow> bool" where
  "orphan_row r k s \<longleftrightarrow> map_of (re_tasks s) k = None
     \<and> list_ex (\<lambda>x. rx_id x = k \<and> rx_routine_id x = r \<and> rx_status x = ''running'') (rs_runs (re_store s))"

definition deletes :: "uuid \<Rightarrow> 'w engine_event \<Rightarrow> bool" where
  "deletes r e = (case e of Re_delete_routine i \<Rightarrow> i = r | _ \<Rightarrow> False)"

lemma update_runs_keeps:
  assumes "x \<in> set (rs_runs st)" "rx_id x \<noteq> i" shows "x \<in> set (rs_runs (update_runs i f st))"
  using assms by (force simp: update_runs_def)

lemma run_job_keeps:
  assumes "x \<in> set (rs_runs st)"
  shows "\<exists>y \<in> set (rs_runs (update_routine_run_job_id i j st)). rx_id y = rx_id x \<and> rx_routine_id y = rx_routine_id x
     \<and> rx_status y = rx_status x"
  using assms by (intro bexI [of _ "if rx_id x = i then x\<lparr>rx_job_id := Some j\<rparr> else x"])
    (auto simp: update_routine_run_job_id_def update_runs_def)

lemma step_keeps_row:
  assumes sh: "task_shape env i t p s s'" and x: "x \<in> set (rs_runs (re_store s))" "rx_id x \<noteq> i"
  shows "\<exists>y \<in> set (rs_runs (re_store s')). rx_id y = rx_id x \<and> rx_routine_id y = rx_routine_id x \<and> rx_status y = rx_status x"
proof -
  have eff: "store_effect env i t p (re_store s) (re_store s')" using sh by (simp add: task_shape_def)
  consider "re_store s' = re_store s" | now where "re_store s' = fst (create_routine_run (ft_run t) now (re_store s))"
      "snd (create_routine_run (ft_run t) now (re_store s)) = Inr ()"
    | res said tokens now where "re_store s' = complete_routine_run i res said tokens now (re_store s)"
    | l n c f v now where "re_store s' = update_routine_runtime (rn_id (ft_routine t)) l n c f v now (re_store s)"
    | k j where "re_store s' = update_routine_run_job_id k j (re_store s)"
    using eff by (auto simp: store_effect_def split: fire_phase.splits option.splits)
  then show ?thesis
  proof cases
    case (2 now)
    with created_run_rows(1) [OF 2(2)] x show ?thesis by auto
  next
    case 3
    with x update_runs_keeps show ?thesis by (auto simp: complete_routine_run_def)
  next
    case (5 k j)
    with run_job_keeps [OF x(1)] show ?thesis by simp
  qed (use x in auto)
qed

lemma orphan_step:
  assumes orph: "orphan_row r k s" and e: "\<not> deletes r e"
  shows "orphan_row r k (engine_step env s e)"
proof -
  let ?s = "engine_step env s e"
  from orph obtain x where x: "x \<in> set (rs_runs (re_store s))" "rx_id x = k" "rx_routine_id x = r" "rx_status x = ''running''"
    and none: "map_of (re_tasks s) k = None" by (auto simp: orphan_row_def list_ex_iff)
  consider (same) "same_runs s ?s" | (start) i t where "starts_run env i t e s ?s"
    | (task) i t p where "map_of (re_tasks s) i = Some t" "task_shape env i t p s ?s"
    | (panic) i where "e = Re_panic i" "?s = end_task i s"
    | (dry) "e = Re_dry_begin \<or> e = Re_dry_end \<and> re_dry s \<noteq> 0"
    | (restart) js where "e = Re_restart js"
    | (create) c where "e = Re_create_routine c" | (update) c now where "e = Re_update_routine c now"
    | (delete) i where "e = Re_delete_routine i"
    using event_effects [of env s e] unfolding event_effect_def by blast
  then show ?thesis
  proof cases
    case same
    with orph show ?thesis by (simp add: same_runs_def orphan_row_def)
  next
    case start
    then have "i \<noteq> k" using x by (auto simp: starts_run_def unused_run_def list_ex_iff)
    moreover have "x \<in> set (rs_runs (re_store ?s))"
    proof (cases "re_store ?s = re_store s")
      case False
      with start obtain now where c: "re_store ?s = fst (create_routine_run (ft_run t) now (re_store s))"
        "snd (create_routine_run (ft_run t) now (re_store s)) = Inr ()" by (auto simp: starts_run_def)
      with created_run_rows(1) [OF c(2)] x(1) show ?thesis by simp
    qed (use x in simp)
    ultimately show ?thesis using start none x by (auto simp: orphan_row_def list_ex_iff starts_run_def)
  next
    case task
    have "i \<noteq> k" using task(1) none by auto
    with step_keeps_row [OF task(2) x(1)] x none task(2) show ?thesis
      by (auto simp: orphan_row_def list_ex_iff task_shape_def map_of_next)
  next
    case panic
    with orph show ?thesis unfolding panic(2) by (simp add: orphan_row_def)
  next
    case dry
    with orph show ?thesis by (auto simp: orphan_row_def)
  next
    case restart
    with orph show ?thesis by (simp add: orphan_row_def)
  next
    case create
    with orph show ?thesis by (simp add: orphan_row_def create_routine_def)
  next
    case update
    with orph show ?thesis by (simp add: orphan_row_def update_routine_def update_rows_def)
  next
    case delete
    with e have "i \<noteq> r" by (simp add: deletes_def)
    with delete x none show ?thesis by (auto simp: orphan_row_def list_ex_iff delete_routine_def)
  qed
qed

lemma orphan_run:
  "orphan_row r k s \<Longrightarrow> list_all (\<lambda>e. \<not> deletes r e) es \<Longrightarrow> orphan_row r k (foldl (engine_step env) s es)"
  by (induction es arbitrary: s) (simp_all add: orphan_step del: engine_step.simps)

lemma orphan_counted: "orphan_row r k s \<Longrightarrow> 0 < count_running_routine_runs r (re_store s)"
  by (auto simp: orphan_row_def count_running_routine_runs_def list_ex_iff filter_empty_conv)

text \<open>C32: A row that is left open without a run (after a panic, a restart or a failed write) is never closed: from then
  on, until the routine is deleted, no trigger and no manual fire starts a run of that routine unless it
  allows two runs at once, which the routines made by the tool do not.\<close>
theorem orphaned_row_blocks_routine:
  assumes "orphan_row r k s" "list_all (\<lambda>e. \<not> deletes r e) es"
    "map_of (re_tasks (foldl (engine_step env) s es)) i = None"
    "map_of (re_tasks (engine_step env (foldl (engine_step env) s es) e)) i = Some t" "rn_id (ft_routine t) = r"
  shows "1 < gr_max_concurrent (rn_guardrails (ft_routine t))"
proof -
  let ?s = "foldl (engine_step env) s es"
  have "0 < count_running_routine_runs r (re_store ?s)" by (rule orphan_counted [OF orphan_run [OF assms(1,2)]])
  moreover have "check_concurrent env ?s (ft_routine t)" by (rule new_run_allowed [OF assms(3,4), THEN conjunct1])
  ultimately have "1 < unat (gr_max_concurrent (rn_guardrails (ft_routine t)))"
    using assms(5) by (simp add: check_concurrent_def)
  then show ?thesis by (simp add: word_less_nat_alt)
qed


section \<open>What the event check knows\<close>

definition keeps_cache :: "'w engine_event \<Rightarrow> bool" where
  "keeps_cache e \<longleftrightarrow> \<not> is_restart e \<and> (case e of Re_refresh \<Rightarrow> False | _ \<Rightarrow> True)"

lemma cache_step: "keeps_cache e \<Longrightarrow> re_cache (engine_step env s e) = re_cache s"
proof (cases e)
  case (Re_task i now fresh)
  then show ?thesis
    using task_step_shape [of env i _ s now fresh] by (auto simp: task_shape_def split: option.split)
next
  case (Re_manual now r i)
  then show ?thesis by (auto simp: fire_manual_def Let_def split: sum.splits option.splits prod.splits)
qed (auto simp: keeps_cache_def is_restart_def check_event_triggers_def next_event_def next_cron_def check_cron_triggers_def
    Let_def split: list.split sum.split option.split)

lemma cache_run: "list_all keeps_cache es \<Longrightarrow> re_cache (foldl (engine_step env) s es) = re_cache s"
  by (induction es arbitrary: s) (simp_all add: cache_step del: engine_step.simps)

text \<open>The cooldown of an event routine is looked up in the cached copy, which no run updates: a routine that was
  loaded before it ever ran fires on every matching message, however recent its last run, while it has
  no open run and a slot is free.\<close>
theorem event_cooldown_ineffective:
  assumes "re_cache s = [r]" "rn_last_run_at r = None" "list_all keeps_cache es"
    "re_event_queue (foldl (engine_step env) s es) = []" "unused_run i (foldl (engine_step env) s es)"
    "has_capacity env (foldl (engine_step env) s es)" "check_concurrent env (foldl (engine_step env) s es) r"
    "event_matches env r chan msg"
  shows "map_of (re_tasks (foldl (engine_step env) s (es @ [Re_message chan msg, Re_next_event now i]))) i \<noteq> None"
proof -
  let ?s = "foldl (engine_step env) s es"
  let ?q = "?s\<lparr>re_event_queue := [(r, chan, msg)]\<rparr>"
  have "re_cache ?s = [r]" using cache_run [OF assms(3)] assms(1) by simp
  then have "engine_step env ?s (Re_message chan msg) = ?q" using assms(4) by (simp add: check_event_triggers_def)
  moreover have "check_concurrent env ?q r" "has_capacity env ?q" "unused_run i ?q"
    using assms(5,6,7) by (simp_all add: check_concurrent_def has_capacity_def unused_run_def db_ok_def)
  moreover have "check_cooldown now r" using assms(2) by (simp add: check_cooldown_def)
  ultimately show ?thesis using assms(8) by (simp add: next_event_def)
qed

text \<open>The counters are those of the loaded copy plus one: two runs of one copy leave a run count of one more than
  it had, and a streak of failures of at most one more.\<close>
lemma counters_of_loaded_copy:
  assumes "get_routine (rn_id r) st = Inr (Some old)"
  shows "\<exists>new. get_routine (rn_id r) (record_run env now2 r res2 (record_run env now1 r res1 st)) = Inr (Some new)
     \<and> rn_run_count new = rn_run_count r + 1
     \<and> rn_consecutive_failures new = (if res2 = Run_failed then rn_consecutive_failures r + 1 else 0)"
  unfolding record_run_def
  by (subst get_after_runtime [OF get_after_runtime [OF assms]]) (simp add: as_run_def)

section \<open>Full jobs\<close>

text \<open>At the deadline of a full job the run fails with the message that the job was cancelled. A stuck job whose
  entry in the scheduler is gone is not cancelled: nothing changes.\<close>
theorem timed_out_job_not_cancelled:
  assumes "map_of (js_running js) j = None" "rv_full_job_timeout env * 1000 < waited + interval"
  shows "poll_job env now j waited interval js =
    (js, Poll_over (Inl (''job '' @ rv_show_uuid env j @ '' exceeded the full_job timeout of ''
       @ show_nat (rv_full_job_timeout env) @ ''s and was cancelled'')))"
  using assms by (simp add: poll_job_def stop_job_def)

section \<open>Dry runs\<close>

text \<open>A dry run leaves the tables, the runs, the running count and the notifications as they were; it only asks
  the model. It calls a routine ready only on an answer of the judge that decodes to that verdict.\<close>
theorem dry_run_leaves_no_trace:
  "\<exists>w. fst (test_routine env i s) = s\<lparr>re_world := w\<rparr>
     \<and> (\<forall>report. snd (test_routine env i s) = Inr report \<and> tr_ready report \<longrightarrow>
          (\<exists>v rq resp issues remarks. snd (rv_complete env v rq) = Inr resp
             \<and> rv_verdict_wire env (strip_report_fence (trim (rs_content resp))) = Some (True, issues, remarks)))"
proof (cases "\<exists>r. db_query env Db_get s (get_routine i (re_store s)) = Inr (Some r)")
  case False
  then show ?thesis
    by (intro exI [of _ "re_world s"]) (auto simp: test_routine_def split: sum.splits option.splits)
next
  case True
  then obtain r where r: "db_query env Db_get s (get_routine i (re_store s)) = Inr (Some r)" by blast
  obtain w1 res where d: "dry_run env r (re_world s) = (w1, res)" by (rule prod.exhaust)
  obtain st said tokens where x: "(case res of Inr x \<Rightarrow> x | Inl e \<Rightarrow> (Run_failed, Some e, None)) = (st, said, tokens)"
    by (rule prod_cases3)
  let ?rq = "(new_request [msg_user (readiness_prompt r st said)])\<lparr>rq_temperature := Some 0x3E4CCCCD\<rparr>"
  obtain w2 answer where a: "rv_complete env w1 ?rq = (w2, answer)" by (rule prod.exhaust)
  have "fst (test_routine env i s) = s\<lparr>re_world := w2\<rparr>" using r d x a by (simp add: test_routine_def Let_def)
  moreover have "\<exists>v rq resp issues remarks. snd (rv_complete env v rq) = Inr resp
      \<and> rv_verdict_wire env (strip_report_fence (trim (rs_content resp))) = Some (True, issues, remarks)"
    if rep: "snd (test_routine env i s) = Inr report" "tr_ready report" for report
  proof (cases answer)
    case (Inl e)
    with rep r d x a show ?thesis by (auto simp: test_routine_def Let_def)
  next
    case (Inr resp)
    with rep r d x a have "vd_ready (parse_readiness_verdict (rv_verdict_wire env) (rs_content resp))"
      by (auto simp: test_routine_def Let_def)
    then obtain issues remarks where "rv_verdict_wire env (strip_report_fence (trim (rs_content resp))) = Some (True, issues, remarks)"
      by (auto simp: parse_readiness_verdict_def Let_def split: option.splits)
    with a Inr show ?thesis by (metis snd_conv)
  qed
  ultimately show ?thesis by blast
qed

end
