(* ===== verification/Routine_Examples.thy ===== *)
theory Routine_Examples
  imports Routine_Runs
begin

text \<open>
  A concrete engine on which the properties of \<open>Routine_Props\<close> and \<open>Routine_Runs\<close> are applied: one routine,
  a model that does not answer, one slot.
\<close>

definition ex_env :: "unit routine_env" where
  "ex_env = \<lparr>rv_max_concurrent = 1, rv_max_lightweight_tokens = 4096, rv_full_job_timeout = 1,
     rv_next_fire = (\<lambda>sched now. Inr (Some (now + 60000000000))), rv_regex = (\<lambda>p. Inr ()),
     rv_matches = (\<lambda>p s. contains_str s p), rv_read = (\<lambda>w p. None), rv_system_prompt = (\<lambda>w. Inl ''none''),
     rv_context_length = (\<lambda>w. Inr None), rv_complete = (\<lambda>w rq. (w, Inl (Http ''down''))),
     rv_show_llm_error = (\<lambda>e. ''down''), rv_show_job_error = (\<lambda>e. ''job''), rv_show_uuid = show_nat,
     rv_wire = (\<lambda>s. None), rv_verdict_wire = (\<lambda>s. None), rv_db_fails = (\<lambda>w c. None)\<rparr>"

definition ex_routine :: "trigger \<Rightarrow> 32 word \<Rightarrow> routine" where
  "ex_routine t n = \<lparr>rn_id = 7, rn_name = ''watch'', rn_description = [], rn_user_id = ''ann'', rn_enabled = True,
     rn_trigger = t, rn_action = Lightweight ''look'' [] 4096,
     rn_guardrails = \<lparr>gr_cooldown = 3600, gr_max_concurrent = n, gr_dedup_window = None\<rparr>,
     rn_notify = default_notify, rn_last_run_at = None, rn_next_fire_at = Some 0, rn_run_count = 0,
     rn_consecutive_failures = 0, rn_state = JObj [], rn_created_at = 0, rn_updated_at = 0\<rparr>"

definition ex_trigger :: trigger where "ex_trigger = On_event None ''deploy''"

definition ex_store :: "routine \<Rightarrow> routine_store" where
  "ex_store r = \<lparr>rs_routines = [new_routine_row r], rs_runs = [], rs_enforces_keys = True\<rparr>"

definition ex_jobs :: job_system where
  "ex_jobs = new_job_system 5 5 True"

definition ex_engine :: "routine \<Rightarrow> unit routine_engine" where
  "ex_engine r = new_engine (ex_store r) ex_jobs ()"

lemma ex_created [simp]: "as_created (ex_routine t n) = ex_routine t n"
  by (simp add: as_created_def ex_routine_def stored_ts_def fmt_ts_def get_ts_def)

lemma ex_get: "get_routine 7 (ex_store (ex_routine t n)) = Inr (Some (ex_routine t n))"
  using new_row_decodes [of "ex_routine t n"]
  by (simp add: get_routine_def ex_store_def decode_one_def) (simp add: new_routine_row_def ex_routine_def)

lemma ex_fields [simp]:
  "rn_id (ex_routine t n) = 7" "rn_enabled (ex_routine t n)" "rn_trigger (ex_routine t n) = t"
  "gr_max_concurrent (rn_guardrails (ex_routine t n)) = n" "rn_last_run_at (ex_routine t n) = None"
  "rn_user_id (ex_routine t n) = ''ann''" "rn_name (ex_routine t n) = ''watch''"
  by (simp_all add: ex_routine_def)

lemma ex_env_fields [simp]:
  "rv_db_fails ex_env w c = None" "rv_max_concurrent ex_env = 1" "rv_full_job_timeout ex_env = 1"
  "rv_complete ex_env w rq = (w, Inl (Http ''down''))"
  by (simp_all add: ex_env_def)

definition ex_run :: routine_run where
  "ex_run = new_run 1 (ex_routine ex_trigger 2) ''manual'' None 5"

lemma ex_manual:
  "fire_manual ex_env 5 7 1 (ex_engine (ex_routine ex_trigger 2))
     = ((ex_engine (ex_routine ex_trigger 2))\<lparr>
          re_store := (ex_store (ex_routine ex_trigger 2))\<lparr>rs_runs := [new_run_row ex_run 5]\<rparr>,
          re_tasks := [(1, \<lparr>ft_routine = ex_routine ex_trigger 2, ft_run = ex_run, ft_phase = Ph_ready\<rparr>)]\<rparr>, Inr 1)"
proof -
  let ?r = "ex_routine ex_trigger 2" and ?s = "ex_engine (ex_routine ex_trigger 2)"
  have st: "re_store ?s = ex_store ?r" "re_world ?s = ()" "re_tasks ?s = []" by (simp_all add: ex_engine_def new_engine_def)
  have "db_query ex_env Db_get ?s (get_routine 7 (re_store ?s)) = Inr (Some ?r)" by (simp add: db_query_def st ex_get)
  moreover have "check_concurrent ex_env ?s ?r"
    by (simp add: check_concurrent_def db_ok_def st count_running_routine_runs_def ex_store_def)
  moreover have "create_routine_run ex_run 5 (re_store ?s) = ((ex_store ?r)\<lparr>rs_runs := [new_run_row ex_run 5]\<rparr>, Inr ())"
    by (simp add: create_routine_run_def st ex_store_def ex_run_def)
  ultimately show ?thesis by (simp add: fire_manual_def ex_run_def [symmetric] st del: One_nat_def)
qed

lemma ex_engine_fields [simp]:
  "re_tasks (ex_engine r) = []" "rs_runs (re_store (ex_engine r)) = []" "re_store (ex_engine r) = ex_store r"
  by (simp_all add: ex_engine_def new_engine_def ex_store_def)

lemma ex_manual_step:
  "map_of (re_tasks (engine_step ex_env (ex_engine (ex_routine ex_trigger 2)) (Re_manual 5 7 1))) 1
     = Some \<lparr>ft_routine = ex_routine ex_trigger 2, ft_run = ex_run, ft_phase = Ph_ready\<rparr>"
  by (simp add: unused_run_def ex_manual ex_store_def del: One_nat_def)

theorem created_routine_read_back_witness:
  "get_routine 7 (fst (create_routine (ex_routine ex_trigger 2) \<lparr>rs_routines = [], rs_runs = [], rs_enforces_keys = True\<rparr>))
     = Inr (Some (as_created (ex_routine ex_trigger 2)))"
  using created_routine_read_back [of "ex_routine ex_trigger 2" "\<lparr>rs_routines = [], rs_runs = [], rs_enforces_keys = True\<rparr>"]
  by (simp add: create_routine_def del: ex_created)


definition ex_history :: "unit engine_event list" where
  "ex_history = Re_manual 5 7 1 # replicate 8 (Re_task 1 6 9)"

theorem every_run_ends_witness:
  "map_of (re_tasks (foldl (engine_step ex_env) (ex_engine (ex_routine ex_trigger 2)) ex_history)) 1 = None"
proof -
  let ?st = "ex_store (ex_routine ex_trigger 2)" and ?task = "Re_task 1 6 9 :: unit engine_event"
  have "open_rows_have_runs (new_engine ?st ex_jobs ())"
    by (simp add: open_rows_have_runs_def new_engine_def ex_store_def)
  moreover have "list_all quiet_event ([Re_manual 5 7 1] @ replicate 8 ?task)"
    by (simp add: quiet_event_def is_panic_def is_restart_def list_all_iff)
  moreover have "list_all (\<lambda>e. \<not> starts_id 1 e) (replicate 8 ?task)" by (simp add: starts_id_def list_all_length)
  moreover have "6 + 2 * rv_full_job_timeout ex_env \<le> length (filter (steps_id 1) (replicate 8 ?task))"
    by (simp add: steps_id_def)
  ultimately have "map_of (re_tasks (foldl (engine_step ex_env) (new_engine ?st ex_jobs ()) ([Re_manual 5 7 1] @ replicate 8 ?task))) 1 = None"
    using every_run_ends [of ex_env ?st ex_jobs "()" "[Re_manual 5 7 1]" "replicate 8 ?task" 1] by (simp only: ex_env_fields simp_thms)
  then show ?thesis by (simp only: ex_history_def ex_engine_def append_Cons append_Nil)
qed

theorem running_count_exact_witness:
  "re_running (foldl (engine_step ex_env) (ex_engine (ex_routine ex_trigger 2)) [Re_dry_begin])
     = re_dry (foldl (engine_step ex_env) (ex_engine (ex_routine ex_trigger 2)) [Re_dry_begin])"
  using running_count_exact [of "[Re_dry_begin]" ex_env "ex_store (ex_routine ex_trigger 2)" ex_jobs "()"]
  by (simp add: is_panic_def ex_engine_def) (simp add: new_engine_def active_runs_def)

text \<open>One panic exhausts the one slot.\<close>

definition ex_exhausted :: "unit routine_engine" where
  "ex_exhausted = (ex_engine (ex_routine (Cron ''* * * * * *'') 1))\<lparr>re_running := 1,
     re_cron_queue := [ex_routine (Cron ''* * * * * *'') 1]\<rparr>"

theorem lost_slots_block_triggers_witness:
  "re_tasks (engine_step ex_env ex_exhausted (Re_next_cron 5 1)) = []"
proof -
  have "engine_ok ex_exhausted" "rv_max_concurrent ex_env \<le> lost_slots ex_exhausted"
    by (simp_all add: ex_exhausted_def ex_engine_def new_engine_def engine_ok_def lost_slots_def active_runs_def)
  from lost_slots_block_triggers [OF this, of "[]" "Re_next_cron 5 1" 5 1]
  have "re_tasks (engine_step ex_env ex_exhausted (Re_next_cron 5 1)) = re_tasks ex_exhausted"
    by (simp del: engine_step.simps)
  then show ?thesis by (simp add: ex_exhausted_def ex_engine_def new_engine_def del: engine_step.simps)
qed

text \<open>A routine that allows two runs, with a row of an earlier life of the program.\<close>

definition ex_orphaned :: "unit routine_engine" where
  "ex_orphaned = (ex_engine (ex_routine ex_trigger 2))\<lparr>re_store := (ex_store (ex_routine ex_trigger 2))\<lparr>rs_runs :=
     [new_run_row (new_run 3 (ex_routine ex_trigger 2) ''event'' None 0) 0]\<rparr>\<rparr>"

theorem orphaned_row_blocks_routine_witness:
  "\<exists>t. map_of (re_tasks (engine_step ex_env ex_orphaned (Re_manual 5 7 1))) 1 = Some t
     \<and> 1 < gr_max_concurrent (rn_guardrails (ft_routine t))"
proof -
  let ?r = "ex_routine ex_trigger 2"
  have st: "re_store ex_orphaned = (ex_store ?r)\<lparr>rs_runs := [new_run_row (new_run 3 ?r ''event'' None 0) 0]\<rparr>"
    "re_tasks ex_orphaned = []" "re_world ex_orphaned = ()" by (simp_all add: ex_orphaned_def ex_engine_def new_engine_def)
  have orph: "orphan_row 7 3 ex_orphaned" by (simp add: orphan_row_def st show_run_status_def)
  have g: "get_routine 7 (re_store ex_orphaned) = Inr (Some ?r)" using ex_get by (simp add: st get_routine_def)
  then have "db_query ex_env Db_get ex_orphaned (get_routine 7 (re_store ex_orphaned)) = Inr (Some ?r)"
    by (simp add: db_query_def)
  moreover have "check_concurrent ex_env ex_orphaned ?r"
    by (simp add: check_concurrent_def db_ok_def st count_running_routine_runs_def)
  moreover have "snd (create_routine_run (new_run 1 ?r ''manual'' None 5) 5 (re_store ex_orphaned)) = Inr ()"
    by (simp add: create_routine_run_def st ex_store_def)
  then obtain st1 where "create_routine_run (new_run 1 ?r ''manual'' None 5) 5 (re_store ex_orphaned) = (st1, Inr ())"
    by (cases "create_routine_run (new_run 1 ?r ''manual'' None 5) 5 (re_store ex_orphaned)") auto
  moreover have "unused_run 1 ex_orphaned" by (simp add: unused_run_def st)
  ultimately have "\<exists>t. map_of (re_tasks (engine_step ex_env ex_orphaned (Re_manual 5 7 1))) 1 = Some t \<and> ft_routine t = ?r"
    by (simp add: fire_manual_def Let_def del: One_nat_def)
  then obtain t where t: "map_of (re_tasks (engine_step ex_env ex_orphaned (Re_manual 5 7 1))) 1 = Some t" "ft_routine t = ?r"
    by blast
  from orphaned_row_blocks_routine [OF orph, of "[]" ex_env 1 "Re_manual 5 7 1" t] t show ?thesis
    by (simp add: st del: engine_step.simps)
qed

theorem timed_out_job_not_cancelled_witness:
  "\<exists>why. poll_job ex_env 9 4 900 500 ex_jobs = (ex_jobs, Poll_over (Inl why))"
  using timed_out_job_not_cancelled [of ex_jobs 4 ex_env 900 500 9] by (simp add: ex_jobs_def new_job_system_def)


text \<open>A second after its last run a routine with a cooldown of an hour fires again: the row knows of the run, the
  cached copy does not.\<close>

definition ex_ran :: "unit routine_engine" where
  "ex_ran = (ex_engine (ex_routine ex_trigger 1))\<lparr>re_cache := [ex_routine ex_trigger 1],
     re_store := update_routine_runtime 7 0 None 1 0 (JObj []) 0 (ex_store (ex_routine ex_trigger 1))\<rparr>"

theorem event_cooldown_ineffective_witness:
  "(\<exists>r. get_routine 7 (re_store ex_ran) = Inr (Some r) \<and> \<not> check_cooldown 1000000000 r)
     \<and> map_of (re_tasks (foldl (engine_step ex_env) ex_ran [Re_message ''tui'' ''deploy'', Re_next_event 1000000000 1])) 1 \<noteq> None"
proof -
  let ?r = "ex_routine ex_trigger 1"
  have st: "re_cache ex_ran = [?r]" "re_event_queue ex_ran = []" "re_tasks ex_ran = []" "re_running ex_ran = 0"
      "re_store ex_ran = update_routine_runtime 7 0 None 1 0 (JObj []) 0 (ex_store ?r)"
    by (simp_all add: ex_ran_def ex_engine_def new_engine_def)
  have runs: "rs_runs (re_store ex_ran) = []" by (simp add: st ex_store_def)
  have "get_routine 7 (re_store ex_ran) = Inr (Some (as_run 0 None 1 0 (JObj []) 0 ?r))"
    unfolding st by (rule get_after_runtime [OF ex_get])
  moreover have "\<not> check_cooldown 1000000000 (as_run 0 None 1 0 (JObj []) 0 ?r)"
    by (simp add: check_cooldown_def as_run_def stored_ts_def get_ts_def fmt_ts_def ex_routine_def cooldown_ns_def)
  moreover have "map_of (re_tasks (foldl (engine_step ex_env) ex_ran ([] @ [Re_message ''tui'' ''deploy'', Re_next_event 1000000000 1]))) 1 \<noteq> None"
    by (rule event_cooldown_ineffective [of ex_ran ?r])
      (simp_all add: st runs unused_run_def has_capacity_def check_concurrent_def db_ok_def count_running_routine_runs_def
        event_matches_def ex_trigger_def ex_env_def ex_store_def)
  ultimately show ?thesis by (simp del: engine_step.simps)
qed

theorem dry_run_leaves_no_trace_witness:
  "\<exists>w. fst (test_routine ex_env 7 (ex_engine (ex_routine ex_trigger 1))) = (ex_engine (ex_routine ex_trigger 1))\<lparr>re_world := w\<rparr>"
  using dry_run_leaves_no_trace [of ex_env 7 "ex_engine (ex_routine ex_trigger 1)"] by blast

end
