(* ===== verification/Routine_Tools.thy ===== *)
theory Routine_Tools
  imports Routine_Examples
begin

text \<open>
  The tools on routines, \<open>src/tools/builtin/routine.rs\<close>: create, list, update, delete, history and test, over
  the tables and the engine. How an identifier and a time stamp are printed is a parameter; one clock reading
  stands for those of a call.
\<close>

section \<open>Parameters and results\<close>

text \<open>\<open>Value::as_i64\<close>: a number that is an integer of 64 bits.\<close>

fun json_i64 :: "json \<Rightarrow> int option" where
  "json_i64 (JNum s) = (case s of
     c # ds \<Rightarrow> (if c = CHR ''-'' then
                  (if ds \<noteq> [] \<and> list_all is_digit ds \<and> digits_value ds \<le> 2 ^ 63 then Some (- int (digits_value ds)) else None)
                else if list_all is_digit s \<and> digits_value s < 2 ^ 63 then Some (int (digits_value s)) else None)
   | [] \<Rightarrow> None)"
| "json_i64 _ = None"

definition bool_member :: "json \<Rightarrow> string \<Rightarrow> bool option" where
  "bool_member v k = Option.bind (json_get v k) json_bool"

definition json_ts :: "(instant \<Rightarrow> string) \<Rightarrow> instant option \<Rightarrow> json" where
  "json_ts show_ts t = json_opt (map_option show_ts t)"

definition db_error :: "string \<Rightarrow> exec_error" where
  "db_error e = Exec_failed (''DB error: '' @ e)"

definition own_routine ::
  "'w routine_env \<Rightarrow> job_context \<Rightarrow> string \<Rightarrow> 'w routine_engine \<Rightarrow> (exec_error, routine) result" where
  "own_routine env ctx name s =
     (case db_query env Db_by_name s (get_routine_by_name (user_id ctx) name (re_store s)) of
        Inl e \<Rightarrow> Inl (db_error e)
      | Inr None \<Rightarrow> Inl (Exec_failed (''routine '' @ in_quotes name @ '' not found''))
      | Inr (Some r) \<Rightarrow> Inr r)"

text \<open>A statement that may fail before it runs.\<close>

definition db_execute ::
  "'w routine_env \<Rightarrow> db_call \<Rightarrow> 'w routine_engine \<Rightarrow> routine_store \<times> (string, 'a) result \<Rightarrow> 'w routine_engine \<times> (string, 'a) result" where
  "db_execute env c s done = (case rv_db_fails env (re_world s) c of
     Some e \<Rightarrow> (s, Inl e) | None \<Rightarrow> (s\<lparr>re_store := fst done\<rparr>, snd done))"

section \<open>Create\<close>

definition parse_trigger :: "'w routine_env \<Rightarrow> instant \<Rightarrow> json \<Rightarrow> string \<Rightarrow> (exec_error, trigger) result" where
  "parse_trigger env now params kind =
     (if kind = ''cron'' then
        (case text_member params ''schedule'' of
           None \<Rightarrow> Inl (Exec_invalid_parameters (''cron trigger requires '' @ in_quotes ''schedule''))
         | Some sched \<Rightarrow>
            (case rv_next_fire env sched now of
               Inl e \<Rightarrow> Inl (Exec_invalid_parameters (''invalid cron schedule: '' @ e))
             | Inr _ \<Rightarrow> Inr (Cron sched)))
      else if kind = ''event'' then
        (case text_member params ''event_pattern'' of
           None \<Rightarrow> Inl (Exec_invalid_parameters (''event trigger requires '' @ in_quotes ''event_pattern''))
         | Some p \<Rightarrow>
            (case rv_regex env p of
               Inl e \<Rightarrow> Inl (Exec_invalid_parameters (''invalid regex: '' @ e))
             | Inr _ \<Rightarrow> Inr (On_event (text_member params ''event_channel'') p)))
      else if kind = ''webhook'' then Inr (Webhook None None)
      else if kind = ''manual'' then Inr Manual_only
      else Inl (Exec_invalid_parameters (''unknown trigger_type: '' @ kind)))"

definition parse_action :: "json \<Rightarrow> string \<Rightarrow> string \<Rightarrow> (exec_error, routine_action) result" where
  "parse_action params name prompt =
     (let kind = (case text_member params ''action_type'' of Some k \<Rightarrow> k | None \<Rightarrow> ''lightweight'')
      in if kind = ''lightweight'' then Inr (Lightweight prompt (text_list (json_get params ''context_paths'')) 4096)
         else if kind = ''full_job'' then Inr (Full_job name prompt 10)
         else Inl (Exec_invalid_parameters (''unknown action_type: '' @ kind)))"

definition requested_routine ::
  "'w routine_env \<Rightarrow> instant \<Rightarrow> uuid \<Rightarrow> json \<Rightarrow> job_context \<Rightarrow> (exec_error, routine) result" where
  "requested_routine env now fresh params ctx =
     (case require_str params ''name'' of Inl e \<Rightarrow> Inl e
      | Inr name \<Rightarrow>
         (case require_str params ''trigger_type'' of Inl e \<Rightarrow> Inl e
          | Inr kind \<Rightarrow>
             (case require_str params ''prompt'' of Inl e \<Rightarrow> Inl e
              | Inr prompt \<Rightarrow>
                 (case parse_trigger env now params kind of Inl e \<Rightarrow> Inl e
                  | Inr t \<Rightarrow>
                     (case parse_action params name prompt of Inl e \<Rightarrow> Inl e
                      | Inr a \<Rightarrow> Inr
                         \<lparr>rn_id = fresh, rn_name = name, rn_description = json_field params ''description'' [],
                          rn_user_id = user_id ctx, rn_enabled = True, rn_trigger = t, rn_action = a,
                          rn_guardrails = \<lparr>gr_cooldown =
                              of_nat (case Option.bind (json_get params ''cooldown_secs'') json_u64 of Some n \<Rightarrow> n | None \<Rightarrow> 300),
                            gr_max_concurrent = 1, gr_dedup_window = None\<rparr>,
                          rn_notify = default_notify, rn_last_run_at = None,
                          rn_next_fire_at = (case t of
                             Cron sched \<Rightarrow> (case rv_next_fire env sched now of Inr x \<Rightarrow> x | Inl _ \<Rightarrow> None) | _ \<Rightarrow> None),
                          rn_run_count = 0, rn_consecutive_failures = 0, rn_state = JObj [], rn_created_at = now,
                          rn_updated_at = now\<rparr>)))))"

definition routine_create_execute ::
  "'w routine_env \<Rightarrow> (instant \<Rightarrow> string) \<Rightarrow> instant \<Rightarrow> uuid \<Rightarrow> duration \<Rightarrow> json \<Rightarrow> job_context \<Rightarrow> 'w routine_engine
     \<Rightarrow> 'w routine_engine \<times> (exec_error, tool_output) result" where
  "routine_create_execute env show_ts now fresh took params ctx s =
     (case requested_routine env now fresh params ctx of
        Inl e \<Rightarrow> (s, Inl e)
      | Inr r \<Rightarrow>
         (case db_execute env Db_create_routine s (create_routine r (re_store s)) of
            (s1, Inl e) \<Rightarrow> (s1, Inl (Exec_failed (''failed to create routine: '' @ e)))
          | (s1, Inr _) \<Rightarrow>
             (if trigger_tag (rn_trigger r) = ''event'' then refresh_event_cache env s1 else s1,
              Inr (output_success (JObj [(''id'', JStr (rv_show_uuid env (rn_id r))), (''name'', JStr (rn_name r)),
                (''trigger_type'', JStr (trigger_tag (rn_trigger r))), (''next_fire_at'', json_ts show_ts (rn_next_fire_at r)),
                (''status'', JStr ''created'')]) took))))"

section \<open>List\<close>

definition listed_routine :: "'w routine_env \<Rightarrow> (instant \<Rightarrow> string) \<Rightarrow> routine \<Rightarrow> json" where
  "listed_routine env show_ts r = JObj [(''id'', JStr (rv_show_uuid env (rn_id r))), (''name'', JStr (rn_name r)),
     (''description'', JStr (rn_description r)), (''enabled'', JBool (rn_enabled r)),
     (''trigger_type'', JStr (trigger_tag (rn_trigger r))), (''action_type'', JStr (action_tag (rn_action r))),
     (''last_run_at'', json_ts show_ts (rn_last_run_at r)), (''next_fire_at'', json_ts show_ts (rn_next_fire_at r)),
     (''run_count'', JNum (show_nat (unat (rn_run_count r)))),
     (''consecutive_failures'', json_u32 (rn_consecutive_failures r))]"

definition routine_list_execute ::
  "'w routine_env \<Rightarrow> (instant \<Rightarrow> string) \<Rightarrow> duration \<Rightarrow> job_context \<Rightarrow> 'w routine_engine \<Rightarrow> (exec_error, tool_output) result" where
  "routine_list_execute env show_ts took ctx s =
     (case db_query env Db_list s (list_routines (user_id ctx) (re_store s)) of
        Inl e \<Rightarrow> Inl (Exec_failed (''failed to list routines: '' @ e))
      | Inr rs \<Rightarrow> Inr (output_success (JObj [(''count'', JNum (show_nat (length rs))),
          (''routines'', JArr (map (listed_routine env show_ts) rs))]) took))"

section \<open>Update\<close>

definition with_prompt :: "string \<Rightarrow> routine_action \<Rightarrow> routine_action" where
  "with_prompt p a = (case a of Lightweight _ paths n \<Rightarrow> Lightweight p paths n | Full_job t _ n \<Rightarrow> Full_job t p n)"

text \<open>A schedule makes any routine a cron routine.\<close>

definition updated_routine :: "'w routine_env \<Rightarrow> instant \<Rightarrow> json \<Rightarrow> routine \<Rightarrow> (exec_error, routine) result" where
  "updated_routine env now params r =
     (let r1 = (case bool_member params ''enabled'' of Some b \<Rightarrow> r\<lparr>rn_enabled := b\<rparr> | None \<Rightarrow> r);
          r2 = (case text_member params ''description'' of Some d \<Rightarrow> r1\<lparr>rn_description := d\<rparr> | None \<Rightarrow> r1);
          r3 = (case text_member params ''prompt'' of Some p \<Rightarrow> r2\<lparr>rn_action := with_prompt p (rn_action r2)\<rparr> | None \<Rightarrow> r2)
      in case text_member params ''schedule'' of
           None \<Rightarrow> Inr r3
         | Some sched \<Rightarrow>
            (case rv_next_fire env sched now of
               Inl e \<Rightarrow> Inl (Exec_invalid_parameters (''invalid cron schedule: '' @ e))
             | Inr x \<Rightarrow> Inr (r3\<lparr>rn_trigger := Cron sched, rn_next_fire_at := x\<rparr>)))"

definition routine_update_execute ::
  "'w routine_env \<Rightarrow> (instant \<Rightarrow> string) \<Rightarrow> instant \<Rightarrow> duration \<Rightarrow> json \<Rightarrow> job_context \<Rightarrow> 'w routine_engine
     \<Rightarrow> 'w routine_engine \<times> (exec_error, tool_output) result" where
  "routine_update_execute env show_ts now took params ctx s =
     (case require_str params ''name'' of
        Inl e \<Rightarrow> (s, Inl e)
      | Inr name \<Rightarrow>
         (case own_routine env ctx name s of
            Inl e \<Rightarrow> (s, Inl e)
          | Inr r \<Rightarrow>
             (case updated_routine env now params r of
                Inl e \<Rightarrow> (s, Inl e)
              | Inr r' \<Rightarrow>
                 (case db_execute env Db_update s (update_routine r' now (re_store s)) of
                    (s1, Inl e) \<Rightarrow> (s1, Inl (Exec_failed (''failed to update: '' @ e)))
                  | (s1, Inr _) \<Rightarrow>
                     (refresh_event_cache env s1,
                      Inr (output_success (JObj [(''name'', JStr (rn_name r')), (''enabled'', JBool (rn_enabled r')),
                        (''trigger_type'', JStr (trigger_tag (rn_trigger r'))),
                        (''next_fire_at'', json_ts show_ts (rn_next_fire_at r')), (''status'', JStr ''updated'')]) took))))))"

section \<open>Delete\<close>

definition routine_delete_execute ::
  "'w routine_env \<Rightarrow> duration \<Rightarrow> json \<Rightarrow> job_context \<Rightarrow> 'w routine_engine \<Rightarrow> 'w routine_engine \<times> (exec_error, tool_output) result" where
  "routine_delete_execute env took params ctx s =
     (case require_str params ''name'' of
        Inl e \<Rightarrow> (s, Inl e)
      | Inr name \<Rightarrow>
         (case own_routine env ctx name s of
            Inl e \<Rightarrow> (s, Inl e)
          | Inr r \<Rightarrow>
             (case db_execute env Db_delete s (map_prod id Inr (delete_routine (rn_id r) (re_store s))) of
                (s1, Inl e) \<Rightarrow> (s1, Inl (Exec_failed (''failed to delete: '' @ e)))
              | (s1, Inr gone) \<Rightarrow>
                 (refresh_event_cache env s1,
                  Inr (output_success (JObj [(''name'', JStr name), (''deleted'', JBool gone)]) took)))))"

section \<open>History\<close>

text \<open>\<open>num_seconds\<close> rounds towards zero.\<close>

definition num_seconds :: "int \<Rightarrow> int" where
  "num_seconds ns = (if ns < 0 then - ((- ns) div 1000000000) else ns div 1000000000)"

definition listed_run :: "'w routine_env \<Rightarrow> (instant \<Rightarrow> string) \<Rightarrow> routine_run \<Rightarrow> json" where
  "listed_run env show_ts x = JObj [(''id'', JStr (rv_show_uuid env (rr_id x))), (''trigger_type'', JStr (rr_trigger_type x)),
     (''trigger_detail'', json_opt (rr_trigger_detail x)), (''started_at'', JStr (show_ts (rr_started_at x))),
     (''completed_at'', json_ts show_ts (rr_completed_at x)),
     (''duration_secs'', (case rr_completed_at x of
        Some c \<Rightarrow> JNum (show_int (num_seconds (c - rr_started_at x))) | None \<Rightarrow> JNull)),
     (''status'', JStr (show_run_status (rr_status x))), (''result_summary'', json_opt (rr_result_summary x)),
     (''tokens_used'', (case rr_tokens_used x of Some n \<Rightarrow> JNum (show_int (sint n)) | None \<Rightarrow> JNull))]"

definition history_limit :: "json \<Rightarrow> int" where
  "history_limit params =
     min (case Option.bind (json_get params ''limit'') json_i64 of Some n \<Rightarrow> n | None \<Rightarrow> 10) 50"

definition routine_history_execute ::
  "'w routine_env \<Rightarrow> (instant \<Rightarrow> string) \<Rightarrow> duration \<Rightarrow> json \<Rightarrow> job_context \<Rightarrow> 'w routine_engine \<Rightarrow> (exec_error, tool_output) result" where
  "routine_history_execute env show_ts took params ctx s =
     (case require_str params ''name'' of
        Inl e \<Rightarrow> Inl e
      | Inr name \<Rightarrow>
         (case own_routine env ctx name s of
            Inl e \<Rightarrow> Inl e
          | Inr r \<Rightarrow>
             (case db_query env Db_list_runs s (list_routine_runs (rn_id r) (history_limit params) (re_store s)) of
                Inl e \<Rightarrow> Inl (Exec_failed (''failed to list runs: '' @ e))
              | Inr xs \<Rightarrow> Inr (output_success (JObj [(''routine'', JStr name),
                  (''total_runs'', JNum (show_nat (unat (rn_run_count r)))),
                  (''runs'', JArr (map (listed_run env show_ts) xs))]) took))))"

section \<open>Test\<close>

definition json_i32_opt :: "32 word option \<Rightarrow> json" where
  "json_i32_opt w = (case w of Some n \<Rightarrow> JNum (show_int (sint n)) | None \<Rightarrow> JNull)"

definition report_json :: "routine_test_report \<Rightarrow> json" where
  "report_json p = JObj [(''routine_name'', JStr (tr_name p)), (''run_status'', JStr (show_run_status (tr_status p))),
     (''output_summary'', json_opt (tr_summary p)), (''tokens_used'', json_i32_opt (tr_tokens p)),
     (''ready'', JBool (tr_ready p)), (''issues'', JArr (map JStr (tr_issues p))), (''judge_notes'', json_opt (tr_notes p)),
     (''caveats'', JArr (map JStr (tr_caveats p)))]"

definition routine_test_execute ::
  "'w routine_env \<Rightarrow> duration \<Rightarrow> json \<Rightarrow> job_context \<Rightarrow> 'w routine_engine \<Rightarrow> 'w routine_engine \<times> (exec_error, tool_output) result" where
  "routine_test_execute env took params ctx s =
     (case require_str params ''name'' of
        Inl e \<Rightarrow> (s, Inl e)
      | Inr name \<Rightarrow>
         (case own_routine env ctx name s of
            Inl e \<Rightarrow> (s, Inl e)
          | Inr r \<Rightarrow>
             (case test_routine env (rn_id r) s of
                (s1, Inl e) \<Rightarrow> (s1, Inl (Exec_failed e))
              | (s1, Inr p) \<Rightarrow> (s1, Inr (output_success (report_json p) took)))))"


section \<open>Whose routines a call may change\<close>

definition foreign_rows :: "string \<Rightarrow> routine_store \<Rightarrow> routine_row list" where
  "foreign_rows u st = filter (\<lambda>w. rw_user_id w \<noteq> u) (rs_routines st)"

lemma refresh_store [simp]: "re_store (refresh_event_cache env s) = re_store s"
  by (simp add: refresh_event_cache_def split: sum.split)

lemma db_execute_cases:
  obtains e where "db_execute env c s done = (s, Inl e)"
  | "db_execute env c s done = (s\<lparr>re_store := fst done\<rparr>, snd done)"
  by (cases "rv_db_fails env (re_world s) c") (simp_all add: db_execute_def)

lemma own_routine_row:
  assumes "own_routine env ctx name s = Inr r"
  obtains w where "w \<in> set (rs_routines (re_store s))" "rw_user_id w = user_id ctx" "rw_id w = rn_id r" "rw_name w = rn_name r"
proof -
  from assms obtain w where w: "find (\<lambda>w. rw_user_id w = user_id ctx \<and> rw_name w = name) (rs_routines (re_store s)) = Some w"
      "row_to_routine w = Inr r"
    by (auto simp: own_routine_def db_query_def get_routine_by_name_def decode_one_def split: option.splits sum.splits)
  from find_Some_mem [OF w(1)] row_fields [OF w(2)] show ?thesis by (intro that [of w]) auto
qed

lemma own_rows_only:
  assumes inv: "store_inv st" and w: "w \<in> set (rs_routines st)" "rw_user_id w = u" "rw_id w = i"
    and v: "v \<in> set (rs_routines st)" "rw_user_id v \<noteq> u"
  shows "rw_id v \<noteq> i"
  using assms by (auto simp: store_inv_def distinct_map inj_on_def)

lemma foreign_update:
  assumes "store_inv st" "w \<in> set (rs_routines st)" "rw_user_id w = u" "rw_id w = rn_id r"
  shows "foreign_rows u (fst (update_routine r now st)) = foreign_rows u st"
proof (cases "fst (update_routine r now st) = st")
  case False
  then have "fst (update_routine r now st) = update_rows (rn_id r) (updated_row r now) st"
    by (auto simp: update_routine_def split: if_splits)
  moreover have "filter (\<lambda>w. rw_user_id w \<noteq> u) (map (\<lambda>w. if rw_id w = rn_id r then updated_row r now w else w) ws)
      = filter (\<lambda>w. rw_user_id w \<noteq> u) ws" if "\<forall>v \<in> set ws. rw_user_id v \<noteq> u \<longrightarrow> rw_id v \<noteq> rn_id r" for ws
    using that by (induction ws) auto
  ultimately show ?thesis using own_rows_only [OF assms] by (simp add: foreign_rows_def update_rows_def)
qed simp

lemma foreign_delete:
  assumes "store_inv st" "w \<in> set (rs_routines st)" "rw_user_id w = u" "rw_id w = i"
  shows "foreign_rows u (fst (delete_routine i st)) = foreign_rows u st"
  using own_rows_only [OF assms] by (auto simp: foreign_rows_def delete_routine_def filter_id_conv intro: filter_cong)

lemma updated_routine_id: "updated_routine env now params r = Inr r' \<Longrightarrow> rn_id r' = rn_id r"
  by (auto simp: updated_routine_def Let_def split: option.splits sum.splits)

lemma requested_owner: "requested_routine env now fresh params ctx = Inr r \<Longrightarrow> rn_user_id r = user_id ctx"
  by (auto simp: requested_routine_def split: sum.splits)

text \<open>A routine made by the tool is guarded: one run at a time, and its schedule or pattern is valid.\<close>
lemma requested_guarded:
  assumes "requested_routine env now fresh params ctx = Inr r"
  shows "gr_max_concurrent (rn_guardrails r) = 1 \<and> (\<forall>sched. rn_trigger r = Cron sched \<longrightarrow> is_ok (rv_next_fire env sched now))
     \<and> (\<forall>ch p. rn_trigger r = On_event ch p \<longrightarrow> is_ok (rv_regex env p))"
  using assms by (auto simp: requested_routine_def parse_trigger_def split: sum.splits option.splits if_splits)

text \<open>C21: The calls on routines change only routines of the user they run for, and they keep the tables consistent.\<close>
theorem tools_confined_to_owner:
  assumes "store_inv (re_store s)"
    "s' \<in> {fst (routine_create_execute env show_ts now fresh took params ctx s),
           fst (routine_update_execute env show_ts now took params ctx s), fst (routine_delete_execute env took params ctx s)}"
  shows "foreign_rows (user_id ctx) (re_store s') = foreign_rows (user_id ctx) (re_store s) \<and> store_inv (re_store s')"
proof -
  let ?u = "user_id ctx" and ?st = "re_store s"
  have "re_store s' = ?st \<or> (\<exists>r. rn_user_id r = ?u \<and> re_store s' = fst (create_routine r ?st))
      \<or> (\<exists>r w. w \<in> set (rs_routines ?st) \<and> rw_user_id w = ?u \<and> rw_id w = rn_id r
           \<and> (re_store s' = fst (update_routine r now ?st) \<or> re_store s' = fst (delete_routine (rn_id r) ?st)))"
    (is "?same \<or> ?create \<or> ?change")
  proof -
    consider (create) "s' = fst (routine_create_execute env show_ts now fresh took params ctx s)"
      | (update) "s' = fst (routine_update_execute env show_ts now took params ctx s)"
      | (delete) "s' = fst (routine_delete_execute env took params ctx s)" using assms(2) by auto
    then show ?thesis
    proof cases
      case create
      show ?thesis
      proof (cases "requested_routine env now fresh params ctx")
        case (Inl e)
        with create show ?thesis by (simp add: routine_create_execute_def)
      next
        case (Inr r)
        show ?thesis
          by (rule db_execute_cases [of env Db_create_routine s "create_routine r ?st"])
            (use create Inr requested_owner [OF Inr] in \<open>auto simp: routine_create_execute_def split: sum.split if_splits\<close>)
      qed
    next
      case update
      show ?thesis
      proof (cases "\<exists>name r r'. require_str params ''name'' = Inr name \<and> own_routine env ctx name s = Inr r
          \<and> updated_routine env now params r = Inr r'")
        case False
        with update show ?thesis by (auto simp: routine_update_execute_def split: sum.splits)
      next
        case True
        then obtain name r r' where t: "require_str params ''name'' = Inr name" "own_routine env ctx name s = Inr r"
          "updated_routine env now params r = Inr r'" by blast
        obtain w where w: "w \<in> set (rs_routines ?st)" "rw_user_id w = ?u" "rw_id w = rn_id r'"
          using own_routine_row [OF t(2)] updated_routine_id [OF t(3)] by metis
        show ?thesis
          by (rule db_execute_cases [of env Db_update s "update_routine r' now ?st"])
            (use update t w in \<open>auto simp: routine_update_execute_def split: sum.split\<close>)
      qed
    next
      case delete
      show ?thesis
      proof (cases "\<exists>name r. require_str params ''name'' = Inr name \<and> own_routine env ctx name s = Inr r")
        case False
        with delete show ?thesis by (auto simp: routine_delete_execute_def split: sum.splits)
      next
        case True
        then obtain name r where t: "require_str params ''name'' = Inr name" "own_routine env ctx name s = Inr r" by blast
        obtain w where w: "w \<in> set (rs_routines ?st)" "rw_user_id w = ?u" "rw_id w = rn_id r"
          using own_routine_row [OF t(2)] by metis
        show ?thesis
          by (rule db_execute_cases [of env Db_delete s "map_prod id Inr (delete_routine (rn_id r) ?st)"])
            (use delete t w in \<open>auto simp: routine_delete_execute_def split: sum.split\<close>)
      qed
    qed
  qed
  then show ?thesis
  proof (elim disjE exE conjE)
    fix r assume "rn_user_id r = ?u" "re_store s' = fst (create_routine r ?st)"
    moreover have "foreign_rows ?u (fst (create_routine r ?st)) = foreign_rows ?u ?st" if "rn_user_id r = ?u"
      using that by (simp add: foreign_rows_def create_routine_def)
    ultimately show ?thesis using created_routine_inv [OF assms(1)] by simp
  qed (use assms(1) foreign_update foreign_delete in \<open>auto simp: update_inv delete_inv\<close>)
qed

section \<open>The history\<close>

lemma decode_rows_length: "decode_rows f ws = Inr xs \<Longrightarrow> length xs = length ws"
proof (induction ws arbitrary: xs)
  case (Cons w ws)
  then show ?case by (cases "f w"; cases "decode_rows f ws") auto
qed simp

lemma length_latest: "length (foldr insert_latest xs []) = length xs"
proof -
  have "length (insert_latest x ys) = Suc (length ys)" for x ys by (induction ys) auto
  then show ?thesis by (induction xs) auto
qed

text \<open>A history has at most fifty runs unless the limit asked for is negative: then the statement has no limit and
  every run is listed.\<close>
theorem history_limit_bypassed:
  assumes "list_routine_runs i (history_limit params) st = Inr xs"
  shows "if history_limit params < 0 then length xs = length (filter (\<lambda>x. rx_routine_id x = i) (rs_runs st))
         else length xs \<le> 50"
proof -
  have "history_limit params \<le> 50" by (simp add: history_limit_def)
  with assms show ?thesis
    by (auto simp: list_routine_runs_def Let_def length_latest dest!: decode_rows_length split: if_splits)
qed

theorem tools_confined_to_owner_witness:
  "foreign_rows (user_id (with_user 4 0 ''bob'' [] []))
       (re_store (fst (routine_delete_execute ex_env 0 (JObj [(''name'', JStr ''watch'')]) (with_user 4 0 ''bob'' [] []) (ex_engine (ex_routine ex_trigger 1)))))
     = [new_routine_row (ex_routine ex_trigger 1)]"
proof -
  let ?r = "ex_routine ex_trigger 1" and ?ctx = "with_user 4 0 ''bob'' [] []"
  have "store_inv (re_store (ex_engine ?r))" by (simp add: store_inv_def ex_store_def)
  from tools_confined_to_owner [OF this, of "fst (routine_delete_execute ex_env 0 (JObj [(''name'', JStr ''watch'')]) ?ctx (ex_engine ?r))"
      ex_env show_int 0 0 0 "JObj [(''name'', JStr ''watch'')]" ?ctx]
  show ?thesis by (simp add: foreign_rows_def ex_store_def with_user_def)
qed

theorem history_limit_bypassed_witness:
  "length (case list_routine_runs 7 (history_limit (JObj [(''limit'', JNum ''-1'')]))
       ((ex_store (ex_routine ex_trigger 1))\<lparr>rs_runs := replicate 60 (new_run_row ex_run 0)\<rparr>) of Inr xs \<Rightarrow> xs | Inl e \<Rightarrow> []) = 60"
proof -
  let ?st = "(ex_store (ex_routine ex_trigger 1))\<lparr>rs_runs := replicate 60 (new_run_row ex_run 0)\<rparr>"
  let ?p = "JObj [(''limit'', JNum ''-1'')]"
  have l: "history_limit ?p = -1" by (simp add: history_limit_def digits_value_def code_of_def is_digit_def)
  have rows: "foldr insert_latest (replicate n x) [] = replicate n x" for n x
  proof (induction n)
    case (Suc n)
    then show ?case by (cases n) simp_all
  qed simp
  have "is_ok (row_to_run (new_run_row ex_run 0))" by (simp add: is_ok_run run_status_roundtrip)
  then have "is_ok (decode_rows row_to_run (replicate 60 (new_run_row ex_run 0)))"
    by (intro decode_rows_ok) (simp add: list_all_iff)
  moreover have "filter (\<lambda>x. rx_routine_id x = 7) (rs_runs ?st) = replicate 60 (new_run_row ex_run 0)"
    by (simp add: ex_run_def filter_replicate)
  ultimately have "is_ok (list_routine_runs 7 (history_limit ?p) ?st)"
    unfolding list_routine_runs_def l by (simp only: Let_def rows) simp
  then obtain xs where "list_routine_runs 7 (history_limit ?p) ?st = Inr xs" by (metis sum.collapse(2))
  with history_limit_bypassed [OF this] l show ?thesis by (simp add: ex_run_def new_run_row_def)
qed

end
