(* ===== verification/Http_Tool.thy ===== *)
theory Http_Tool
  imports Tool_Base Egress
begin

text \<open>
  The HTTP tool, \<open>src/tools/builtin/http.rs\<close>: which URLs it accepts, the request it builds, the leak scan and
  the egress policy in front of it, and the limits on the response. The URL parser, the resolver, the JSON
  codec and the client are the environment.
\<close>

section \<open>Addresses\<close>

text \<open>Four bytes, or eight segments of 16 bits.\<close>

datatype ip_addr = IPv4 "8 word" "8 word" "8 word" "8 word" | IPv6 "16 word list"

fun is_disallowed_ip :: "ip_addr \<Rightarrow> bool" where
  "is_disallowed_ip (IPv4 a b c d) \<longleftrightarrow>
     (a = 10 \<or> (a = 172 \<and> 16 \<le> b \<and> b \<le> 31) \<or> (a = 192 \<and> b = 168))
     \<or> a = 127 \<or> (a = 169 \<and> b = 254) \<or> (224 \<le> a \<and> a \<le> 239)
     \<or> (a = 0 \<and> b = 0 \<and> c = 0 \<and> d = 0) \<or> (a = 169 \<and> b = 254 \<and> c = 169 \<and> d = 254)"
| "is_disallowed_ip (IPv6 s) \<longleftrightarrow>
     s = [0, 0, 0, 0, 0, 0, 0, 1] \<or> 0xfc00 \<le> hd s \<and> hd s \<le> 0xfdff \<or> 0xfe80 \<le> hd s \<and> hd s \<le> 0xfebf
     \<or> 0xff00 \<le> hd s \<or> s = [0, 0, 0, 0, 0, 0, 0, 0]"

text \<open>A literal address in a host. The host of a URL has an IPv6 address in brackets, which \<open>IpAddr\<close> does not parse,
  so only the dotted form of IPv4 is left.\<close>

definition parse_octet :: "string \<Rightarrow> 8 word option" where
  "parse_octet s = (if s \<noteq> [] \<and> length s \<le> 3 \<and> list_all is_digit s \<and> (length s > 1 \<longrightarrow> hd s \<noteq> CHR ''0'')
       \<and> digits_value s \<le> 255 then Some (of_nat (digits_value s)) else None)"

definition parse_ip :: "string \<Rightarrow> ip_addr option" where
  "parse_ip h = (case map parse_octet (split_on (CHR ''.'') h) of
     [Some a, Some b, Some c, Some d] \<Rightarrow> Some (IPv4 a b c d) | _ \<Rightarrow> None)"

section \<open>The environment\<close>

record web_url = url +
  wu_text :: string
  wu_port :: "nat option"

record web_request =
  wq_method :: string
  wq_url :: string
  wq_headers :: "(string \<times> string) list"
  wq_body :: "string option"
  wq_json :: bool

text \<open>A header value is \<open>None\<close> when it is no text; a chunk of the body may fail.\<close>

datatype web_answer =
    Web_timeout
  | Web_failed string
  | Web_response nat "(string \<times> string option) list" "(string, string) result list"

record 'w http_env =
  hv_parse :: "string \<Rightarrow> (string, web_url) result"
  hv_resolve :: "'w \<Rightarrow> string \<Rightarrow> nat \<Rightarrow> ip_addr list option"
  hv_show_ip :: "ip_addr \<Rightarrow> string"
  hv_dec :: "string \<Rightarrow> json option"
  hv_enc :: "json \<Rightarrow> string"
  hv_lossy :: "string \<Rightarrow> string"
  hv_ac :: "string list \<Rightarrow> string \<Rightarrow> (nat \<times> nat \<times> nat) list"
  hv_re :: "string \<Rightarrow> string \<Rightarrow> (nat \<times> nat) list"
  hv_policy :: "egress_policy option"
  hv_wire :: "string \<Rightarrow> (bool \<times> string) option"
  hv_judge :: "'w \<Rightarrow> (string \<Rightarrow> judge_reply) option"
  hv_fresh :: "'w \<Rightarrow> uuid"
  hv_now :: "'w \<Rightarrow> instant"
  hv_send :: "'w \<Rightarrow> web_request \<Rightarrow> 'w \<times> web_answer"

text \<open>What the tool has done: the audit events and the requests that were sent.\<close>

record 'w http_state =
  hs_world :: 'w
  hs_events :: "egress_event list"
  hs_sent :: "web_request list"

section \<open>Parameters\<close>

definition MAX_RESPONSE_SIZE :: nat where "MAX_RESPONSE_SIZE = 5 * 1024 * 1024"

definition resolved_to_disallowed :: "'w http_env \<Rightarrow> 'w \<Rightarrow> string \<Rightarrow> nat \<Rightarrow> ip_addr option" where
  "resolved_to_disallowed env w h port = (case hv_resolve env w h port of
     Some addrs \<Rightarrow> find is_disallowed_ip addrs | None \<Rightarrow> None)"

definition http_validate_url :: "'w http_env \<Rightarrow> 'w \<Rightarrow> string \<Rightarrow> (exec_error, web_url) result" where
  "http_validate_url env w s =
     (case hv_parse env s of
        Inl e \<Rightarrow> Inl (Exec_invalid_parameters (''invalid URL: '' @ e))
      | Inr u \<Rightarrow>
         (if u_scheme u \<noteq> ''https'' then Inl (Exec_not_authorized ''only https URLs are allowed'')
          else if u_username u \<noteq> [] \<or> u_password u \<noteq> None
               then Inl (Exec_not_authorized ''URLs with embedded credentials (userinfo) are not allowed'')
          else case u_host u of
            None \<Rightarrow> Inl (Exec_invalid_parameters ''URL missing host'')
          | Some h \<Rightarrow>
             (if to_lower h = ''localhost'' \<or> ends_with (to_lower h) ''.localhost''
              then Inl (Exec_not_authorized ''localhost is not allowed'')
              else if (case parse_ip h of Some ip \<Rightarrow> is_disallowed_ip ip | None \<Rightarrow> False)
              then Inl (Exec_not_authorized ''private or local IPs are not allowed'')
              else
               (let port = (case wu_port u of Some p \<Rightarrow> p | None \<Rightarrow> 443)
                in case resolved_to_disallowed env w h port of
                     Some ip \<Rightarrow> Inl (Exec_not_authorized (''hostname '' @ [QUOTE] @ h @ [QUOTE]
                       @ '' resolves to disallowed IP '' @ hv_show_ip env ip))
                   | None \<Rightarrow> Inr u))))"

definition in_ticks :: "string \<Rightarrow> string" where "in_ticks s = [QUOTE] @ s @ [QUOTE]"

fun header_members :: "(string \<times> json) list \<Rightarrow> (exec_error, (string \<times> string) list) result" where
  "header_members [] = Inr []"
| "header_members ((k, v) # kvs) = (case json_str v of
     None \<Rightarrow> Inl (Exec_invalid_parameters (''header '' @ in_ticks k @ '' must have a string value''))
   | Some s \<Rightarrow> map_sum id (Cons (k, s)) (header_members kvs))"

fun header_items :: "nat \<Rightarrow> json list \<Rightarrow> (exec_error, (string \<times> string) list) result" where
  "header_items n [] = Inr []"
| "header_items n (v # vs) =
     (let pos = ''headers['' @ show_nat n @ '']''
      in case v of
           JObj kvs \<Rightarrow>
             (case Option.bind (map_of kvs ''name'') json_str of
                None \<Rightarrow> Inl (Exec_invalid_parameters (pos @ ''.name must be a string''))
              | Some k \<Rightarrow>
                 (case Option.bind (map_of kvs ''value'') json_str of
                    None \<Rightarrow> Inl (Exec_invalid_parameters (pos @ ''.value must be a string''))
                  | Some s \<Rightarrow> map_sum id (Cons (k, s)) (header_items (Suc n) vs)))
         | _ \<Rightarrow> Inl (Exec_invalid_parameters (pos @ '' must be an object with '' @ in_ticks ''name'' @ '' and '' @ in_ticks ''value'')))"

definition parse_headers_param :: "json option \<Rightarrow> (exec_error, (string \<times> string) list) result" where
  "parse_headers_param v = (case v of
     None \<Rightarrow> Inr []
   | Some (JObj kvs) \<Rightarrow> header_members kvs
   | Some (JArr items) \<Rightarrow> header_items 0 items
   | Some _ \<Rightarrow> Inl (Exec_invalid_parameters (in_ticks ''headers'' @ '' must be an object or an array of {name, value}'')))"

definition HTTP_METHODS :: "string list" where
  "HTTP_METHODS = [''GET'', ''POST'', ''PUT'', ''DELETE'', ''PATCH'']"

text \<open>The bytes of the body and whether they are sent as JSON; a text that parses as JSON is written anew.\<close>

definition request_body :: "'w http_env \<Rightarrow> json \<Rightarrow> string option \<times> bool" where
  "request_body env params = (case json_get params ''body'' of
     None \<Rightarrow> (None, False)
   | Some (JStr s) \<Rightarrow> (case hv_dec env s of Some j \<Rightarrow> (Some (hv_enc env j), True) | None \<Rightarrow> (Some s, False))
   | Some j \<Rightarrow> (Some (hv_enc env j), True))"

section \<open>The call\<close>

definition egress_error_text :: "egress_error \<Rightarrow> string" where
  "egress_error_text e = (case e of
     LeakBlocked why \<Rightarrow> ''egress blocked by leak scan: '' @ why
   | Denied h why \<Rightarrow> ''egress denied: host '' @ in_ticks h @ '' '' @ why)"

definition outbound_check ::
  "'w http_env \<Rightarrow> web_url \<Rightarrow> web_request \<Rightarrow> 'w http_state \<Rightarrow> 'w http_state \<times> (exec_error, unit) result" where
  "outbound_check env u rq s =
     (case hv_policy env of
        Some pol \<Rightarrow>
          (case check_request (hv_ac env) (hv_re env) (hv_lossy env) new_detector (hv_wire env) (hv_judge env (hs_world s)) pol
                  (hv_fresh env (hs_world s)) (hv_now env (hs_world s))
                  \<lparr>er_tool = ''http'', er_method = wq_method rq, er_url = wq_url rq,
                   er_host = (case u_host u of Some h \<Rightarrow> h | None \<Rightarrow> []), er_path = u_path u, er_headers = wq_headers rq,
                   er_body = wq_body rq\<rparr> of
             (r, evs) \<Rightarrow> (s\<lparr>hs_events := hs_events s @ evs\<rparr>,
               (case r of Inl e \<Rightarrow> Inl (Exec_not_authorized (egress_error_text e)) | Inr _ \<Rightarrow> Inr ())))
      | None \<Rightarrow> (s,
          (case scan_http_request (hv_ac env) (hv_re env) (hv_lossy env) new_detector (wq_url rq) (wq_headers rq) (wq_body rq) of
             Inl e \<Rightarrow> Inl (Exec_not_authorized (show_leak_error e)) | Inr _ \<Rightarrow> Inr ())))"

text \<open>The chunks are read until one fails or the limit is passed.\<close>

fun read_chunks :: "string \<Rightarrow> (string, string) result list \<Rightarrow> (exec_error, string) result" where
  "read_chunks acc [] = Inr acc"
| "read_chunks acc (Inl e # cs) = Inl (Exec_external (''failed to read response body: '' @ e))"
| "read_chunks acc (Inr c # cs) =
     (if length acc + length c > MAX_RESPONSE_SIZE
      then Inl (Exec_failed (''Response body exceeds maximum allowed size ('' @ show_nat MAX_RESPONSE_SIZE @ '' bytes)''))
      else read_chunks (acc @ c) cs)"

definition parse_usize :: "string \<Rightarrow> nat option" where
  "parse_usize s = (let d = (case s of c # cs \<Rightarrow> (if c = CHR ''+'' then cs else s) | [] \<Rightarrow> [])
     in if d \<noteq> [] \<and> list_all is_digit d \<and> digits_value d < 2 ^ 64 then Some (digits_value d) else None)"

definition content_length :: "(string \<times> string option) list \<Rightarrow> nat option" where
  "content_length hs = (case map_of hs ''content-length'' of Some (Some v) \<Rightarrow> parse_usize v | _ \<Rightarrow> None)"

definition header_map :: "(string \<times> string option) list \<Rightarrow> (string \<times> json) list" where
  "header_map hs = foldl (\<lambda>m (k, v). case v of Some s \<Rightarrow> AList.update k (JStr s) m | None \<Rightarrow> m) [] hs"

definition web_result ::
  "'w http_env \<Rightarrow> duration \<Rightarrow> web_answer \<Rightarrow> (exec_error, tool_output) result" where
  "web_result env took answer = (case answer of
     Web_timeout \<Rightarrow> Inl (Exec_timeout 30)
   | Web_failed e \<Rightarrow> Inl (Exec_external e)
   | Web_response status hs chunks \<Rightarrow>
      (if 300 \<le> status \<and> status < 400
       then Inl (Exec_not_authorized (''request returned redirect (HTTP '' @ show_nat status
         @ ''), which is blocked to prevent SSRF''))
       else case (case content_length hs of Some n \<Rightarrow> (if n > MAX_RESPONSE_SIZE then Some n else None) | None \<Rightarrow> None) of
         Some n \<Rightarrow> Inl (Exec_failed (''Response Content-Length ('' @ show_nat n @ '' bytes) exceeds maximum allowed size (''
           @ show_nat MAX_RESPONSE_SIZE @ '' bytes)''))
       | None \<Rightarrow>
          (case read_chunks [] chunks of
             Inl e \<Rightarrow> Inl e
           | Inr body \<Rightarrow>
              (let msg = hv_lossy env body
               in Inr ((output_success (JObj [(''status'', JNum (show_nat status)), (''headers'', JObj (header_map hs)),
                    (''body'', case hv_dec env msg of Some j \<Rightarrow> j | None \<Rightarrow> JStr msg)]) took)\<lparr>to_raw := Some msg\<rparr>)))))"

definition http_execute ::
  "'w http_env \<Rightarrow> duration \<Rightarrow> json \<Rightarrow> 'w http_state \<Rightarrow> 'w http_state \<times> (exec_error, tool_output) result" where
  "http_execute env took params s =
     (case require_str params ''method'' of Inl e \<Rightarrow> (s, Inl e)
      | Inr meth \<Rightarrow>
         (case require_str params ''url'' of Inl e \<Rightarrow> (s, Inl e)
          | Inr link \<Rightarrow>
             (case http_validate_url env (hs_world s) link of Inl e \<Rightarrow> (s, Inl e)
              | Inr u \<Rightarrow>
                 (case parse_headers_param (json_get params ''headers'') of Inl e \<Rightarrow> (s, Inl e)
                  | Inr hs \<Rightarrow>
                     (if to_upper meth \<notin> set HTTP_METHODS
                      then (s, Inl (Exec_invalid_parameters (''unsupported method: '' @ meth)))
                      else
                       (let body = request_body env params;
                            rq = \<lparr>wq_method = to_upper meth, wq_url = wu_text u, wq_headers = hs, wq_body = fst body,
                                  wq_json = snd body\<rparr>
                        in case outbound_check env u rq s of
                             (s1, Inl e) \<Rightarrow> (s1, Inl e)
                           | (s1, Inr _) \<Rightarrow>
                              (case hv_send env (hs_world s1) rq of
                                 (w, answer) \<Rightarrow> (s1\<lparr>hs_world := w, hs_sent := hs_sent s1 @ [rq]\<rparr>, web_result env took answer))))))))"

definition http_requires_approval :: bool where "http_requires_approval = True"
definition http_requires_sanitization :: bool where "http_requires_sanitization = True"

section \<open>What is accepted\<close>

lemma validated_url:
  assumes "http_validate_url env w s = Inr u"
  shows "hv_parse env s = Inr u \<and> u_scheme u = ''https'' \<and> u_username u = [] \<and> u_password u = None
    \<and> (\<exists>h. u_host u = Some h \<and> to_lower h \<noteq> ''localhost'' \<and> (\<forall>ip. parse_ip h = Some ip \<longrightarrow> \<not> is_disallowed_ip ip)
        \<and> (\<forall>addrs. hv_resolve env w h (case wu_port u of Some p \<Rightarrow> p | None \<Rightarrow> 443) = Some addrs
             \<longrightarrow> \<not> list_ex is_disallowed_ip addrs))"
  using assms
  by (auto simp: http_validate_url_def Let_def resolved_to_disallowed_def find_None_all list_ex_iff
      split: sum.splits if_splits option.splits)

lemma outbound_sent [simp]: "hs_sent (fst (outbound_check env u rq s)) = hs_sent s"
  by (auto simp: outbound_check_def split: option.split prod.split)

lemma outbound_world [simp]: "hs_world (fst (outbound_check env u rq s)) = hs_world s"
  by (auto simp: outbound_check_def split: option.split prod.split)

definition clean_request :: "'w http_env \<Rightarrow> web_request \<Rightarrow> bool" where
  "clean_request env rq \<longleftrightarrow> unblocked (hv_ac env) (hv_re env) new_detector (wq_url rq)
     \<and> list_all (\<lambda>(n, v). unblocked (hv_ac env) (hv_re env) new_detector v) (wq_headers rq)
     \<and> (case wq_body rq of Some b \<Rightarrow> unblocked (hv_ac env) (hv_re env) new_detector (hv_lossy env b) | None \<Rightarrow> True)"

lemma outbound_ok:
  assumes "snd (outbound_check env u rq s) = Inr ()"
  shows "clean_request env rq
    \<and> (\<forall>pol. hv_policy env = Some pol \<longrightarrow> \<not> list_ex (\<lambda>r. eg_host_matches r (case u_host u of Some h \<Rightarrow> h | None \<Rightarrow> [])) (ep_deny pol))"
proof (cases "hv_policy env")
  case None
  then have "scan_http_request (hv_ac env) (hv_re env) (hv_lossy env) new_detector (wq_url rq) (wq_headers rq) (wq_body rq) = Inr ()"
    using assms by (auto simp: outbound_check_def split: sum.splits)
  from detector.scan_ok [OF this] None show ?thesis by (simp add: clean_request_def)
next
  case (Some pol)
  let ?rq = "\<lparr>er_tool = ''http'', er_method = wq_method rq, er_url = wq_url rq,
    er_host = (case u_host u of Some h \<Rightarrow> h | None \<Rightarrow> []), er_path = u_path u, er_headers = wq_headers rq, er_body = wq_body rq\<rparr>"
  have "fst (check_request (hv_ac env) (hv_re env) (hv_lossy env) new_detector (hv_wire env) (hv_judge env (hs_world s)) pol
      (hv_fresh env (hs_world s)) (hv_now env (hs_world s)) ?rq) = Inr ()"
    using assms Some by (auto simp: outbound_check_def split: prod.splits sum.splits)
  from egress_allowed_sound [OF this] Some show ?thesis by (auto simp: clean_request_def)
qed


section \<open>What is returned\<close>

lemma read_chunks_bounded: "read_chunks acc cs = Inr b \<Longrightarrow> length acc \<le> MAX_RESPONSE_SIZE \<Longrightarrow> length b \<le> MAX_RESPONSE_SIZE"
  by (induction acc cs rule: read_chunks.induct) (auto split: if_splits)

text \<open>A result always comes from an answer that was no redirect, whose whole body fits the limit, however its
  length was announced.\<close>
theorem web_result_bounded:
  assumes "web_result env took answer = Inr out"
  shows "\<exists>status hs chunks body. answer = Web_response status hs chunks \<and> \<not> (300 \<le> status \<and> status < 400)
     \<and> read_chunks [] chunks = Inr body \<and> length body \<le> MAX_RESPONSE_SIZE \<and> to_raw out = Some (hv_lossy env body)"
proof (cases answer)
  case (Web_response status hs chunks)
  with assms obtain body where "\<not> (300 \<le> status \<and> status < 400)" "read_chunks [] chunks = Inr body"
    "to_raw out = Some (hv_lossy env body)"
    by (auto simp: web_result_def Let_def split: if_splits option.splits sum.splits)
  with Web_response read_chunks_bounded [of "[]" chunks body] show ?thesis by simp
qed (use assms in \<open>simp_all add: web_result_def\<close>)

text \<open>The loopback address written as an IPv6 address that maps IPv4 is accepted, as a literal and as the answer of
  a resolver: none of the tests on IPv6 addresses knows it.\<close>
theorem mapped_loopback_accepted:
  assumes "hv_parse env s = Inr u" "u_scheme u = ''https''" "u_username u = []" "u_password u = None"
    "u_host u = Some ''[::ffff:7f00:1]''"
    "hv_resolve env w ''[::ffff:7f00:1]'' (case wu_port u of Some p \<Rightarrow> p | None \<Rightarrow> 443)
       = Some [IPv6 [0, 0, 0, 0, 0, 0xffff, 0x7f00, 1]]"
  shows "http_validate_url env w s = Inr u"
proof -
  have "parse_ip ''[::ffff:7f00:1]'' = None" by (simp add: parse_ip_def split: option.split)
  moreover have "to_lower ''[::ffff:7f00:1]'' = ''[::ffff:7f00:1]''" by code_simp
  moreover have "\<not> ends_with ''[::ffff:7f00:1]'' ''.localhost''" by code_simp
  moreover have "find is_disallowed_ip [IPv6 [0, 0, 0, 0, 0, 0xffff, 0x7f00, 1]] = None" by simp
  ultimately show ?thesis using assms by (simp add: http_validate_url_def Let_def resolved_to_disallowed_def)
qed


section \<open>Examples\<close>

definition ex_url :: web_url where
  "ex_url = \<lparr>u_scheme = ''https'', u_username = [], u_password = None, u_host = Some ''[::ffff:7f00:1]'', u_path = ''/'',
     wu_text = ''https://[::ffff:7f00:1]/'', wu_port = Some 443\<rparr>"

definition ex_http :: "nat http_env" where
  "ex_http = \<lparr>hv_parse = (\<lambda>s. Inr ex_url), hv_resolve = (\<lambda>w h p. Some [IPv6 [0, 0, 0, 0, 0, 0xffff, 0x7f00, 1]]),
     hv_show_ip = (\<lambda>ip. []), hv_dec = (\<lambda>s. None), hv_enc = (\<lambda>j. []), hv_lossy = id, hv_ac = (\<lambda>ps s. []),
     hv_re = (\<lambda>r s. []), hv_policy = None, hv_wire = (\<lambda>s. None), hv_judge = (\<lambda>w. None), hv_fresh = id, hv_now = int,
     hv_send = (\<lambda>w rq. (w + 1, Web_response 200 [] [Inr ''ok'']))\<rparr>"

theorem mapped_loopback_accepted_witness:
  "http_validate_url ex_http 0 ''https://[::ffff:127.0.0.1]/'' = Inr ex_url"
  by (rule mapped_loopback_accepted) (simp_all add: ex_http_def ex_url_def)

theorem web_result_bounded_witness:
  "\<exists>body. read_chunks [] [Inr ''ok''] = Inr body \<and> length body \<le> MAX_RESPONSE_SIZE"
proof -
  obtain out where "web_result ex_http 0 (Web_response 200 [] [Inr ''ok'']) = Inr out"
    by (simp add: web_result_def content_length_def MAX_RESPONSE_SIZE_def Let_def)
  from web_result_bounded [OF this] show ?thesis by blast
qed


end
