(* ===== verification/Tool_Registry.thy ===== *)
theory Tool_Registry
  imports Tool_Base
begin

text \<open>
  The tool registry, \<open>src/tools/registry.rs\<close>: the map of tools by name and the set of names that are built in,
  which a tool registered later must not take. The tools themselves are their descriptions; what a WASM tool needs
  of its runtime is a parameter. \<open>register_sync\<close> takes its locks only if nobody holds them.
\<close>

section \<open>The registry\<close>

record reg_tool =
  rg_name :: string
  rg_description :: string
  rg_schema :: json
  rg_domain :: tool_domain
  rg_builtin :: bool

record tool_registry =
  tg_tools :: "(string \<times> reg_tool) list"
  tg_builtin :: "string list"
  tg_auditor :: bool

definition PROTECTED_TOOL_NAMES :: "string list" where
  "PROTECTED_TOOL_NAMES = [''echo'', ''time'', ''json'', ''http'', ''shell'', ''read_file'', ''write_file'', ''list_dir'',
     ''apply_patch'', ''memory_search'', ''memory_write'', ''memory_read'', ''memory_tree'', ''create_job'', ''list_jobs'',
     ''job_status'', ''cancel_job'', ''build_software'', ''tool_search'', ''tool_install'', ''tool_auth'', ''tool_activate'',
     ''tool_list'', ''tool_remove'', ''routine_create'', ''routine_list'', ''routine_update'', ''routine_delete'',
     ''routine_history'', ''routine_test'', ''sessions_send'', ''sessions_list'', ''skill_list'', ''skill_search'',
     ''skill_install'', ''skill_remove'']"

definition new_tool_registry :: tool_registry where
  "new_tool_registry = \<lparr>tg_tools = [], tg_builtin = [], tg_auditor = False\<rparr>"

definition set_egress_auditor :: "tool_registry \<Rightarrow> tool_registry" where
  "set_egress_auditor r = r\<lparr>tg_auditor := True\<rparr>"

definition register :: "reg_tool \<Rightarrow> tool_registry \<Rightarrow> tool_registry" where
  "register t r = (if rg_name t \<in> set (tg_builtin r) then r
     else r\<lparr>tg_tools := AList.update (rg_name t) t (tg_tools r)\<rparr>)"

text \<open>The flags tell whether the lock of the tools and the lock of the names were free.\<close>

definition register_sync :: "bool \<Rightarrow> bool \<Rightarrow> reg_tool \<Rightarrow> tool_registry \<Rightarrow> tool_registry" where
  "register_sync tools_free names_free t r =
     (if \<not> tools_free then r
      else
       (let r1 = r\<lparr>tg_tools := AList.update (rg_name t) t (tg_tools r)\<rparr>
        in if rg_name t \<in> set PROTECTED_TOOL_NAMES \<and> names_free
           then r1\<lparr>tg_builtin := List.insert (rg_name t) (tg_builtin r1)\<rparr> else r1))"

definition unregister_tool :: "string \<Rightarrow> tool_registry \<Rightarrow> tool_registry \<times> reg_tool option" where
  "unregister_tool n r = (r\<lparr>tg_tools := AList.delete n (tg_tools r)\<rparr>, map_of (tg_tools r) n)"

definition get_tool :: "string \<Rightarrow> tool_registry \<Rightarrow> reg_tool option" where
  "get_tool n r = map_of (tg_tools r) n"

definition has_tool :: "string \<Rightarrow> tool_registry \<Rightarrow> bool" where
  "has_tool n r \<longleftrightarrow> map_of (tg_tools r) n \<noteq> None"

definition list_tools :: "tool_registry \<Rightarrow> string list" where
  "list_tools r = map fst (tg_tools r)"

definition count_tools :: "tool_registry \<Rightarrow> nat" where
  "count_tools r = length (tg_tools r)"

definition all_tools :: "tool_registry \<Rightarrow> reg_tool list" where
  "all_tools r = map snd (tg_tools r)"

definition definition_of :: "reg_tool \<Rightarrow> string \<times> string \<times> json" where
  "definition_of t = (rg_name t, rg_description t, rg_schema t)"

definition tool_definitions :: "tool_registry \<Rightarrow> (string \<times> string \<times> json) list" where
  "tool_definitions r = map definition_of (all_tools r)"

definition tool_definitions_for :: "string list \<Rightarrow> tool_registry \<Rightarrow> (string \<times> string \<times> json) list" where
  "tool_definitions_for ns r = map definition_of (List.map_filter (\<lambda>n. map_of (tg_tools r) n) ns)"

definition tool_definitions_for_domain :: "tool_domain \<Rightarrow> tool_registry \<Rightarrow> (string \<times> string \<times> json) list" where
  "tool_definitions_for_domain d r = map definition_of (filter (\<lambda>t. rg_domain t = d) (all_tools r))"

section \<open>Groups of built-in tools\<close>

text \<open>A group registers its tools in order; \<open>mk\<close> gives the tool of a name.\<close>

definition register_names :: "(string \<Rightarrow> reg_tool) \<Rightarrow> string list \<Rightarrow> tool_registry \<Rightarrow> tool_registry" where
  "register_names mk ns r = fold (\<lambda>n. register_sync True True (mk n)) ns r"

definition register_builtin_tools :: "(string \<Rightarrow> reg_tool) \<Rightarrow> bool \<Rightarrow> tool_registry \<Rightarrow> tool_registry" where
  "register_builtin_tools mk tls = register_names mk ([''echo'', ''time'', ''json''] @ (if tls then [''http''] else []))"

definition register_dev_tools :: "(string \<Rightarrow> reg_tool) \<Rightarrow> tool_registry \<Rightarrow> tool_registry" where
  "register_dev_tools mk = register_names mk [''shell'', ''read_file'', ''write_file'', ''list_dir'', ''apply_patch'']"

definition register_memory_tools :: "(string \<Rightarrow> reg_tool) \<Rightarrow> tool_registry \<Rightarrow> tool_registry" where
  "register_memory_tools mk = register_names mk [''memory_search'', ''memory_write'', ''memory_read'', ''memory_tree'']"

definition register_job_tools :: "(string \<Rightarrow> reg_tool) \<Rightarrow> bool \<Rightarrow> bool \<Rightarrow> tool_registry \<Rightarrow> tool_registry" where
  "register_job_tools mk has_store has_queue = register_names mk ([''create_job'', ''list_jobs'', ''job_status'', ''cancel_job'']
     @ (if has_store then [''job_events''] else []) @ (if has_queue then [''job_prompt''] else []))"

definition register_extension_tools :: "(string \<Rightarrow> reg_tool) \<Rightarrow> tool_registry \<Rightarrow> tool_registry" where
  "register_extension_tools mk = register_names mk
     [''tool_search'', ''tool_install'', ''tool_auth'', ''tool_activate'', ''tool_list'', ''tool_remove'']"

definition register_skill_tools :: "(string \<Rightarrow> reg_tool) \<Rightarrow> tool_registry \<Rightarrow> tool_registry" where
  "register_skill_tools mk = register_names mk [''skill_list'', ''skill_search'', ''skill_install'', ''skill_remove'']"

definition register_session_tools :: "(string \<Rightarrow> reg_tool) \<Rightarrow> tool_registry \<Rightarrow> tool_registry" where
  "register_session_tools mk = register_names mk [''sessions_send'', ''sessions_list'']"

definition register_routine_tools :: "(string \<Rightarrow> reg_tool) \<Rightarrow> tool_registry \<Rightarrow> tool_registry" where
  "register_routine_tools mk = register_names mk
     [''routine_create'', ''routine_list'', ''routine_update'', ''routine_delete'', ''routine_history'', ''routine_test'']"

definition register_builder_tool :: "(string \<Rightarrow> reg_tool) \<Rightarrow> tool_registry \<Rightarrow> tool_registry" where
  "register_builder_tool mk r = register (mk ''build_software'') (register_dev_tools mk r)"

section \<open>WASM tools\<close>

record wasm_registration =
  wr_name :: string
  wr_bytes :: string
  wr_description :: "string option"
  wr_schema :: "json option"

datatype registration_error = Reg_storage string | Reg_wasm string

text \<open>\<open>prepare\<close> validates and compiles; it gives the description and the schema of the module. A WASM tool is in the
  domain that the trait has as its default.\<close>

definition register_wasm ::
  "(string \<Rightarrow> string \<Rightarrow> (string, string \<times> json) result) \<Rightarrow> wasm_registration \<Rightarrow> tool_registry
     \<Rightarrow> tool_registry \<times> (string, unit) result" where
  "register_wasm prepare w r = (case prepare (wr_name w) (wr_bytes w) of
     Inl e \<Rightarrow> (r, Inl e)
   | Inr (d, sch) \<Rightarrow>
      (register \<lparr>rg_name = wr_name w, rg_description = (case wr_description w of Some x \<Rightarrow> x | None \<Rightarrow> d),
         rg_schema = (case wr_schema w of Some x \<Rightarrow> x | None \<Rightarrow> sch), rg_domain = Orchestrator_domain,
         rg_builtin = False\<rparr> r, Inr ()))"

definition register_wasm_from_storage ::
  "(string \<Rightarrow> string \<Rightarrow> (string, string \<times> json) result) \<Rightarrow> (string \<Rightarrow> string \<Rightarrow> (string, wasm_registration) result)
     \<Rightarrow> (string \<Rightarrow> (string, unit) result) \<Rightarrow> string \<Rightarrow> string \<Rightarrow> tool_registry \<Rightarrow> tool_registry \<times> (registration_error, unit) result" where
  "register_wasm_from_storage prepare stored capabilities u n r =
     (case stored u n of
        Inl e \<Rightarrow> (r, Inl (Reg_storage e))
      | Inr w \<Rightarrow>
         (case capabilities (wr_name w) of
            Inl e \<Rightarrow> (r, Inl (Reg_storage e))
          | Inr _ \<Rightarrow> (case register_wasm prepare w r of
              (r', Inl e) \<Rightarrow> (r', Inl (Reg_wasm e)) | (r', Inr _) \<Rightarrow> (r', Inr ()))))"

section \<open>Histories\<close>

text \<open>Built-in tools are registered by the groups above, dynamic ones by \<open>register\<close> alone.\<close>

datatype tool_registry_op =
    Rg_sync bool bool reg_tool
  | Rg_dynamic reg_tool
  | Rg_unregister string
  | Rg_auditor

fun tool_registry_step :: "tool_registry \<Rightarrow> tool_registry_op \<Rightarrow> tool_registry" where
  "tool_registry_step r (Rg_sync a b t) = register_sync a b (t\<lparr>rg_builtin := True\<rparr>) r"
| "tool_registry_step r (Rg_dynamic t) = register (t\<lparr>rg_builtin := False\<rparr>) r"
| "tool_registry_step r (Rg_unregister n) = fst (unregister_tool n r)"
| "tool_registry_step r Rg_auditor = set_egress_auditor r"

text \<open>A name that is marked as built in has a built-in tool or none, every tool stands under its own name, and only
  protected names are marked.\<close>

definition tool_registry_inv :: "tool_registry \<Rightarrow> bool" where
  "tool_registry_inv r \<longleftrightarrow> dkeys (tg_tools r) \<and> list_all (\<lambda>(n, t). rg_name t = n) (tg_tools r)
     \<and> set (tg_builtin r) \<subseteq> set PROTECTED_TOOL_NAMES
     \<and> list_all (\<lambda>(n, t). n \<in> set (tg_builtin r) \<longrightarrow> rg_builtin t) (tg_tools r)"

lemma all_update: "list_all P al \<Longrightarrow> P (k, v) \<Longrightarrow> list_all P (AList.update k v al)"
  by (induction al) auto

lemma all_delete: "list_all P al \<Longrightarrow> list_all P (AList.delete k al)"
  by (induction al) auto

lemma sync_inv: "tool_registry_inv r \<Longrightarrow> rg_builtin t \<Longrightarrow> tool_registry_inv (register_sync a b t r)"
proof -
  assume r: "tool_registry_inv r" and t: "rg_builtin t"
  let ?al = "AList.update (rg_name t) t (tg_tools r)"
  have upd: "(n, u) \<in> set ?al \<Longrightarrow> n = rg_name t \<Longrightarrow> u = t" for n u
    using r by (auto simp: tool_registry_inv_def dest: dkeys_map_of [THEN iffD2, rotated])
  have "list_all (\<lambda>(n, u). n \<in> set (tg_builtin r) \<longrightarrow> rg_builtin u) ?al"
    using r t by (intro all_update) (simp_all add: tool_registry_inv_def)
  moreover have "list_all (\<lambda>(n, u). rg_name u = n) ?al"
    using r by (intro all_update) (simp_all add: tool_registry_inv_def)
  moreover have "list_all (\<lambda>(n, u). n = rg_name t \<longrightarrow> rg_builtin u) ?al"
    using upd t by (auto simp: list_all_iff)
  ultimately show ?thesis using r
    by (auto simp: tool_registry_inv_def register_sync_def Let_def list_all_iff)
qed

lemma tool_register_inv: "tool_registry_inv r \<Longrightarrow> tool_registry_inv (register t r)"
proof (cases "rg_name t \<in> set (tg_builtin r)")
  case False
  assume r: "tool_registry_inv r"
  have "list_all (\<lambda>(n, u). n \<in> set (tg_builtin r) \<longrightarrow> rg_builtin u) (AList.update (rg_name t) t (tg_tools r))"
    "list_all (\<lambda>(n, u). rg_name u = n) (AList.update (rg_name t) t (tg_tools r))"
    using r False by (intro all_update; simp add: tool_registry_inv_def)+
  with r False show ?thesis by (simp add: tool_registry_inv_def register_def)
qed (simp add: register_def)

interpretation registry: transition_system tool_registry_step tool_registry_inv
proof
  show "tool_registry_inv (tool_registry_step r e)" if "tool_registry_inv r" for r e
  proof (cases e)
    case (Rg_unregister n)
    with that show ?thesis
      by (auto simp: tool_registry_inv_def unregister_tool_def intro!: all_delete)
  next
    case Rg_auditor
    with that show ?thesis by (simp add: tool_registry_inv_def set_egress_auditor_def)
  qed (use that in \<open>simp_all add: sync_inv tool_register_inv\<close>)
qed

lemma new_registry_inv: "tool_registry_inv new_tool_registry"
  by (simp add: tool_registry_inv_def new_tool_registry_def)


text \<open>The tools for events and prompts of jobs and, as it is not registered at start-up, the builder can be replaced
  by a dynamic tool of the same name.\<close>
theorem unprotected_builtins_shadowed:
  assumes "n = ''job_events'' \<or> n = ''job_prompt''" "rg_name t = n" "rg_name u = n"
  shows "get_tool n (tool_registry_step (tool_registry_step new_tool_registry (Rg_sync True True t)) (Rg_dynamic u))
       = Some (u\<lparr>rg_builtin := False\<rparr>)"
proof -
  have "n \<notin> set PROTECTED_TOOL_NAMES" using assms(1) by (elim disjE; simp add: PROTECTED_TOOL_NAMES_def)
  with assms(2,3) show ?thesis
    by (simp add: register_sync_def register_def get_tool_def new_tool_registry_def Let_def)
qed

lemma builder_shadowed:
  assumes "rg_name u = ''build_software''" "\<And>n. rg_name (mk n) = n"
  shows "get_tool ''build_software'' (register u (register_builder_tool mk new_tool_registry)) = Some u"
proof -
  have "''build_software'' \<notin> set (tg_builtin (register_dev_tools mk new_tool_registry))"
    using assms(2) by (simp add: register_dev_tools_def register_names_def register_sync_def new_tool_registry_def Let_def)
  with assms show ?thesis by (simp add: register_builder_tool_def register_def get_tool_def)
qed

definition ex_tool :: "string \<Rightarrow> reg_tool" where
  "ex_tool n = \<lparr>rg_name = n, rg_description = [], rg_schema = JNull, rg_domain = Orchestrator_domain, rg_builtin = True\<rparr>"


theorem unprotected_builtins_shadowed_witness:
  "get_tool ''job_prompt'' (tool_registry_step (tool_registry_step new_tool_registry (Rg_sync True True (ex_tool ''job_prompt'')))
      (Rg_dynamic (ex_tool ''job_prompt''))) = Some ((ex_tool ''job_prompt'')\<lparr>rg_builtin := False\<rparr>)"
  by (rule unprotected_builtins_shadowed) (simp_all add: ex_tool_def)

end
