(* ===== verification/Sandbox_Store.thy ===== *)
theory Sandbox_Store
  imports Routine Orchestrator
begin

text \<open>
  The sandbox jobs in the database: the statements of \<open>src/db/libsql_backend.rs\<close> on the tables \<open>agent_jobs\<close> and
  \<open>job_events\<close>. Rows keep times in milliseconds and JSON columns decoded; an error of the database itself is an
  answer of the world of whoever calls.
\<close>

section \<open>Rows\<close>

text \<open>\<open>agent_jobs\<close> also holds the direct jobs, told apart by \<open>source\<close>.\<close>

record agent_job_row =
  aj_id :: uuid
  aj_title :: string
  aj_description :: string
  aj_status :: string
  aj_source :: string
  aj_user_id :: string
  aj_project_dir :: string
  aj_success :: "int option"
  aj_failure_reason :: "string option"
  aj_created_at :: int
  aj_started_at :: "int option"
  aj_completed_at :: "int option"
  aj_allowed_tools :: "string option"
  aj_job_mode :: string

record job_event_row =
  ev_id :: nat
  ev_job_id :: uuid
  ev_type :: string
  ev_data :: json
  ev_created_at :: int

record sandbox_store =
  sb_jobs :: "agent_job_row list"
  sb_events :: "job_event_row list"
  sb_next_event :: nat
  sb_enforces_keys :: bool

record sandbox_job =
  sj_id :: uuid
  sj_task :: string
  sj_status :: string
  sj_user_id :: string
  sj_project_dir :: string
  sj_success :: "bool option"
  sj_failure_reason :: "string option"
  sj_created_at :: instant
  sj_started_at :: "instant option"
  sj_completed_at :: "instant option"
  sj_grants_json :: string
  sj_allowed_tools :: "string option"

record job_event_record =
  er_id :: nat
  er_job_id :: uuid
  er_type :: string
  er_data :: json
  er_created_at :: instant

record sandbox_summary =
  sm_total :: nat
  sm_creating :: nat
  sm_running :: nat
  sm_completed :: nat
  sm_failed :: nat
  sm_interrupted :: nat

section \<open>Saving and reading jobs\<close>

definition modify_jobs :: "(agent_job_row \<Rightarrow> bool) \<Rightarrow> (agent_job_row \<Rightarrow> agent_job_row) \<Rightarrow> sandbox_store \<Rightarrow> sandbox_store" where
  "modify_jobs P f s = s\<lparr>sb_jobs := map (\<lambda>w. if P w then f w else w) (sb_jobs s)\<rparr>"

definition as_i64 :: "bool \<Rightarrow> int" where
  "as_i64 b = (if b then 1 else 0)"

definition new_job_row :: "sandbox_job \<Rightarrow> agent_job_row" where
  "new_job_row j =
     \<lparr>aj_id = sj_id j, aj_title = sj_task j, aj_description = sj_grants_json j, aj_status = sj_status j,
      aj_source = ''sandbox'', aj_user_id = sj_user_id j, aj_project_dir = sj_project_dir j,
      aj_success = map_option as_i64 (sj_success j), aj_failure_reason = sj_failure_reason j,
      aj_created_at = fmt_ts (sj_created_at j), aj_started_at = map_option fmt_ts (sj_started_at j),
      aj_completed_at = map_option fmt_ts (sj_completed_at j), aj_allowed_tools = sj_allowed_tools j,
      aj_job_mode = ''worker''\<rparr>"

text \<open>On a conflict of the identifier only the listed columns are taken over.\<close>

definition resaved_row :: "sandbox_job \<Rightarrow> agent_job_row \<Rightarrow> agent_job_row" where
  "resaved_row j w = w\<lparr>aj_status := sj_status j, aj_success := map_option as_i64 (sj_success j),
     aj_failure_reason := sj_failure_reason j, aj_started_at := map_option fmt_ts (sj_started_at j),
     aj_completed_at := map_option fmt_ts (sj_completed_at j)\<rparr>"

definition save_sandbox_job :: "sandbox_job \<Rightarrow> sandbox_store \<Rightarrow> sandbox_store" where
  "save_sandbox_job j s =
     (if sj_id j \<in> aj_id ` set (sb_jobs s)
      then modify_jobs (\<lambda>w. aj_id w = sj_id j) (resaved_row j) s
      else s\<lparr>sb_jobs := sb_jobs s @ [new_job_row j]\<rparr>)"

definition sandbox_row :: "agent_job_row \<Rightarrow> bool" where
  "sandbox_row w \<longleftrightarrow> aj_source w = ''sandbox''"

definition row_to_job :: "agent_job_row \<Rightarrow> sandbox_job" where
  "row_to_job w =
     \<lparr>sj_id = aj_id w, sj_task = aj_title w, sj_status = aj_status w, sj_user_id = aj_user_id w,
      sj_project_dir = aj_project_dir w, sj_success = map_option (\<lambda>n. n \<noteq> 0) (aj_success w),
      sj_failure_reason = aj_failure_reason w, sj_created_at = get_ts (aj_created_at w),
      sj_started_at = map_option get_ts (aj_started_at w), sj_completed_at = map_option get_ts (aj_completed_at w),
      sj_grants_json = aj_description w, sj_allowed_tools = aj_allowed_tools w\<rparr>"

definition get_sandbox_job :: "uuid \<Rightarrow> sandbox_store \<Rightarrow> sandbox_job option" where
  "get_sandbox_job i s = map_option row_to_job (find (\<lambda>w. aj_id w = i \<and> sandbox_row w) (sb_jobs s))"

text \<open>\<open>ORDER BY created_at DESC\<close>; rows of one millisecond come in an order SQL leaves open, here that of the table.\<close>

definition newest_first :: "agent_job_row list \<Rightarrow> agent_job_row list" where
  "newest_first ws = sort_key (\<lambda>w. - aj_created_at w) ws"

definition list_sandbox_jobs :: "sandbox_store \<Rightarrow> sandbox_job list" where
  "list_sandbox_jobs s = map row_to_job (newest_first (filter sandbox_row (sb_jobs s)))"

definition list_sandbox_jobs_for_user :: "string \<Rightarrow> sandbox_store \<Rightarrow> sandbox_job list" where
  "list_sandbox_jobs_for_user u s =
     map row_to_job (newest_first (filter (\<lambda>w. sandbox_row w \<and> aj_user_id w = u) (sb_jobs s)))"

definition sandbox_job_belongs_to_user :: "uuid \<Rightarrow> string \<Rightarrow> sandbox_store \<Rightarrow> bool" where
  "sandbox_job_belongs_to_user i u s \<longleftrightarrow> (\<exists>w \<in> set (sb_jobs s). aj_id w = i \<and> aj_user_id w = u \<and> sandbox_row w)"

section \<open>Status and mode\<close>

definition coalesce :: "'a option \<Rightarrow> 'a option \<Rightarrow> 'a option" where
  "coalesce new old = (case new of Some x \<Rightarrow> Some x | None \<Rightarrow> old)"

definition status_row ::
  "string \<Rightarrow> bool option \<Rightarrow> string option \<Rightarrow> instant option \<Rightarrow> instant option \<Rightarrow> agent_job_row \<Rightarrow> agent_job_row" where
  "status_row st ok msg started done w =
     w\<lparr>aj_status := st, aj_success := coalesce (map_option as_i64 ok) (aj_success w),
       aj_failure_reason := coalesce msg (aj_failure_reason w),
       aj_started_at := coalesce (map_option fmt_ts started) (aj_started_at w),
       aj_completed_at := coalesce (map_option fmt_ts done) (aj_completed_at w)\<rparr>"

definition update_sandbox_job_status ::
  "uuid \<Rightarrow> string \<Rightarrow> bool option \<Rightarrow> string option \<Rightarrow> instant option \<Rightarrow> instant option \<Rightarrow> sandbox_store \<Rightarrow> sandbox_store" where
  "update_sandbox_job_status i st ok msg started done s =
     modify_jobs (\<lambda>w. aj_id w = i \<and> sandbox_row w) (status_row st ok msg started done) s"

definition stale_row :: "agent_job_row \<Rightarrow> bool" where
  "stale_row w \<longleftrightarrow> sandbox_row w \<and> (aj_status w = ''running'' \<or> aj_status w = ''creating'')"

definition cleanup_stale_sandbox_jobs :: "instant \<Rightarrow> sandbox_store \<Rightarrow> sandbox_store \<times> nat" where
  "cleanup_stale_sandbox_jobs now s =
     (modify_jobs stale_row (\<lambda>w. w\<lparr>aj_status := ''interrupted'', aj_failure_reason := Some ''Process restarted'',
        aj_completed_at := Some (fmt_ts now)\<rparr>) s,
      length (filter stale_row (sb_jobs s)))"

definition update_sandbox_job_mode :: "uuid \<Rightarrow> string \<Rightarrow> sandbox_store \<Rightarrow> sandbox_store" where
  "update_sandbox_job_mode i mode s =
     modify_jobs (\<lambda>w. aj_id w = i) (\<lambda>w. w\<lparr>aj_job_mode := mode\<rparr>) s"

definition get_sandbox_job_mode :: "uuid \<Rightarrow> sandbox_store \<Rightarrow> string option" where
  "get_sandbox_job_mode i s = map_option aj_job_mode (find (\<lambda>w. aj_id w = i) (sb_jobs s))"

section \<open>Summaries\<close>

definition count_status :: "(agent_job_row \<Rightarrow> bool) \<Rightarrow> string \<Rightarrow> sandbox_store \<Rightarrow> nat" where
  "count_status P st s = length (filter (\<lambda>w. sandbox_row w \<and> P w \<and> aj_status w = st) (sb_jobs s))"

definition add_group :: "sandbox_summary \<Rightarrow> string \<times> nat \<Rightarrow> sandbox_summary" where
  "add_group y g = (case g of (st, n) \<Rightarrow>
     (let y = y\<lparr>sm_total := sm_total y + n\<rparr> in
      if st = ''creating'' then y\<lparr>sm_creating := sm_creating y + n\<rparr>
      else if st = ''running'' then y\<lparr>sm_running := sm_running y + n\<rparr>
      else if st = ''completed'' then y\<lparr>sm_completed := sm_completed y + n\<rparr>
      else if st = ''failed'' then y\<lparr>sm_failed := sm_failed y + n\<rparr>
      else if st = ''interrupted'' then y\<lparr>sm_interrupted := sm_interrupted y + n\<rparr>
      else y))"

text \<open>\<open>GROUP BY status\<close>: a group for every status that occurs.\<close>

definition summarize :: "(agent_job_row \<Rightarrow> bool) \<Rightarrow> sandbox_store \<Rightarrow> sandbox_summary" where
  "summarize P s =
     foldl add_group \<lparr>sm_total = 0, sm_creating = 0, sm_running = 0, sm_completed = 0, sm_failed = 0, sm_interrupted = 0\<rparr>
       (map (\<lambda>st. (st, count_status P st s)) (remdups (map aj_status (filter (\<lambda>w. sandbox_row w \<and> P w) (sb_jobs s)))))"

definition sandbox_job_summary :: "sandbox_store \<Rightarrow> sandbox_summary" where
  "sandbox_job_summary s = summarize (\<lambda>w. True) s"

definition sandbox_job_summary_for_user :: "string \<Rightarrow> sandbox_store \<Rightarrow> sandbox_summary" where
  "sandbox_job_summary_for_user u s = summarize (\<lambda>w. aj_user_id w = u) s"

section \<open>Events\<close>

definition save_job_event :: "uuid \<Rightarrow> string \<Rightarrow> json \<Rightarrow> instant \<Rightarrow> sandbox_store \<Rightarrow> sandbox_store \<times> (string, unit) result" where
  "save_job_event i t d now s =
     (if sb_enforces_keys s \<and> i \<notin> aj_id ` set (sb_jobs s) then (s, Inl CONSTRAINT_FAILED)
      else (s\<lparr>sb_events := sb_events s @ [\<lparr>ev_id = sb_next_event s, ev_job_id = i, ev_type = t, ev_data = d,
                                         ev_created_at = datetime_now now\<rparr>],
              sb_next_event := sb_next_event s + 1\<rparr>, Inr ()))"

definition row_to_event :: "job_event_row \<Rightarrow> job_event_record" where
  "row_to_event w = \<lparr>er_id = ev_id w, er_job_id = ev_job_id w, er_type = ev_type w, er_data = ev_data w,
     er_created_at = get_ts (ev_created_at w)\<rparr>"

text \<open>The inner query takes the newest rows, the outer one turns them round; a negative limit is none.\<close>

definition list_job_events :: "uuid \<Rightarrow> int option \<Rightarrow> sandbox_store \<Rightarrow> job_event_record list" where
  "list_job_events i limit s =
     (let rows = sort_key ev_id (filter (\<lambda>w. ev_job_id w = i) (sb_events s)) in
      map row_to_event (case limit of
        None \<Rightarrow> rows
      | Some n \<Rightarrow> (if n < 0 then rows else rev (take (nat n) (rev rows)))))"

section \<open>The table is a map\<close>

definition sandbox_inv :: "sandbox_store \<Rightarrow> bool" where
  "sandbox_inv s \<longleftrightarrow> distinct (map aj_id (sb_jobs s)) \<and> sorted_wrt (<) (map ev_id (sb_events s))
     \<and> (\<forall>w \<in> set (sb_events s). ev_id w < sb_next_event s)"

datatype sandbox_statement =
    Save_job sandbox_job
  | Set_status uuid string "bool option" "string option" "instant option" "instant option"
  | Set_mode uuid string
  | Save_event uuid string json instant
  | Cleanup_stale instant

fun sandbox_step :: "sandbox_store \<Rightarrow> sandbox_statement \<Rightarrow> sandbox_store" where
  "sandbox_step s (Save_job j) = save_sandbox_job j s"
| "sandbox_step s (Set_status i st ok msg a b) = update_sandbox_job_status i st ok msg a b s"
| "sandbox_step s (Set_mode i m) = update_sandbox_job_mode i m s"
| "sandbox_step s (Save_event i t d now) = fst (save_job_event i t d now s)"
| "sandbox_step s (Cleanup_stale now) = fst (cleanup_stale_sandbox_jobs now s)"

lemmas sandbox_ops = save_sandbox_job_def update_sandbox_job_status_def update_sandbox_job_mode_def
  save_job_event_def cleanup_stale_sandbox_jobs_def

lemma modify_jobs_frame [simp]:
  "sb_events (modify_jobs P f s) = sb_events s" "sb_next_event (modify_jobs P f s) = sb_next_event s"
  "sb_enforces_keys (modify_jobs P f s) = sb_enforces_keys s"
  by (simp_all add: modify_jobs_def)

lemma modify_jobs_ids:
  assumes "\<And>w. aj_id (f w) = aj_id w"
  shows "map aj_id (sb_jobs (modify_jobs P f s)) = map aj_id (sb_jobs s)"
  using assms by (simp add: modify_jobs_def)

lemma modify_jobs_inv: "(\<And>w. aj_id (f w) = aj_id w) \<Longrightarrow> sandbox_inv s \<Longrightarrow> sandbox_inv (modify_jobs P f s)"
  by (simp add: sandbox_inv_def modify_jobs_ids)

lemma find_modify:
  assumes "\<And>w. Q (f w) = Q w"
  shows "find Q (map (\<lambda>w. if P w then f w else w) ws) = map_option (\<lambda>w. if P w then f w else w) (find Q ws)"
  using assms by (induction ws) auto

lemma row_fields_kept [simp]:
  "aj_id (resaved_row j w) = aj_id w" "aj_id (status_row st ok msg a b w) = aj_id w"
  "aj_source (resaved_row j w) = aj_source w" "aj_source (status_row st ok msg a b w) = aj_source w"
  "aj_user_id (resaved_row j w) = aj_user_id w" "aj_user_id (status_row st ok msg a b w) = aj_user_id w"
  by (simp_all add: resaved_row_def status_row_def)

lemma new_job_row_fields [simp]:
  "aj_id (new_job_row j) = sj_id j" "aj_source (new_job_row j) = ''sandbox''" "aj_user_id (new_job_row j) = sj_user_id j"
  "aj_job_mode (new_job_row j) = ''worker''"
  by (simp_all add: new_job_row_def)

lemma sandbox_inv_step: "sandbox_inv s \<Longrightarrow> sandbox_inv (sandbox_step s e)"
proof (cases e)
  case (Save_job j)
  assume "sandbox_inv s"
  then show ?thesis
    by (cases "sj_id j \<in> aj_id ` set (sb_jobs s)")
      (simp_all add: Save_job save_sandbox_job_def modify_jobs_inv, simp add: sandbox_inv_def)
next
  case (Save_event i t d now)
  assume "sandbox_inv s"
  then show ?thesis by (auto simp: Save_event save_job_event_def sandbox_inv_def sorted_wrt_append less_Suc_eq)
qed (simp_all add: sandbox_ops modify_jobs_inv)

interpretation sandbox_tables: transition_system sandbox_step sandbox_inv
  by unfold_locales (rule sandbox_inv_step)

section \<open>A saved job\<close>

lemma save_new_job:
  assumes "sj_id j \<notin> aj_id ` set (sb_jobs s)"
  shows "get_sandbox_job (sj_id j) (save_sandbox_job j s) = Some (row_to_job (new_job_row j))"
    "get_sandbox_job_mode (sj_id j) (save_sandbox_job j s) = Some ''worker''"
proof -
  have s: "save_sandbox_job j s = s\<lparr>sb_jobs := sb_jobs s @ [new_job_row j]\<rparr>" using assms by (simp add: save_sandbox_job_def)
  have new: "\<forall>w \<in> set (sb_jobs s). aj_id w \<noteq> sj_id j" using assms by force
  have "find (\<lambda>w. aj_id w = sj_id j \<and> sandbox_row w) (sb_jobs s @ [new_job_row j]) = Some (new_job_row j)"
    by (rule find_append_new) (use new in \<open>simp_all add: sandbox_row_def\<close>)
  then show "get_sandbox_job (sj_id j) (save_sandbox_job j s) = Some (row_to_job (new_job_row j))"
    by (simp add: s get_sandbox_job_def)
  have "find (\<lambda>w. aj_id w = sj_id j) (sb_jobs s @ [new_job_row j]) = Some (new_job_row j)"
    by (rule find_append_new) (use new in simp_all)
  then show "get_sandbox_job_mode (sj_id j) (save_sandbox_job j s) = Some ''worker''"
    by (simp add: s get_sandbox_job_mode_def)
qed

lemma row_to_job_new:
  "row_to_job (new_job_row j) = j\<lparr>sj_created_at := get_ts (fmt_ts (sj_created_at j)),
     sj_started_at := map_option (get_ts \<circ> fmt_ts) (sj_started_at j), sj_completed_at := map_option (get_ts \<circ> fmt_ts) (sj_completed_at j)\<rparr>"
  by (simp add: row_to_job_def new_job_row_def as_i64_def option.map_comp comp_def option.map_ident cong: option.map_cong)

lemma get_updated_status:
  "get_sandbox_job i (update_sandbox_job_status i st ok msg a b s)
     = map_option (\<lambda>j. j\<lparr>sj_status := st, sj_success := coalesce ok (sj_success j), sj_failure_reason := coalesce msg (sj_failure_reason j),
         sj_started_at := coalesce (map_option (get_ts \<circ> fmt_ts) a) (sj_started_at j),
         sj_completed_at := coalesce (map_option (get_ts \<circ> fmt_ts) b) (sj_completed_at j)\<rparr>) (get_sandbox_job i s)"
proof -
  have up: "find (\<lambda>w. aj_id w = i \<and> sandbox_row w) (sb_jobs (update_sandbox_job_status i st ok msg a b s))
      = map_option (\<lambda>w. if aj_id w = i \<and> sandbox_row w then status_row st ok msg a b w else w)
          (find (\<lambda>w. aj_id w = i \<and> sandbox_row w) (sb_jobs s))"
    unfolding update_sandbox_job_status_def modify_jobs_def by (simp add: find_modify sandbox_row_def)
  moreover have "row_to_job (status_row st ok msg a b w) = (row_to_job w)\<lparr>sj_status := st, sj_success := coalesce ok (sj_success (row_to_job w)),
      sj_failure_reason := coalesce msg (sj_failure_reason (row_to_job w)),
      sj_started_at := coalesce (map_option (get_ts \<circ> fmt_ts) a) (sj_started_at (row_to_job w)),
      sj_completed_at := coalesce (map_option (get_ts \<circ> fmt_ts) b) (sj_completed_at (row_to_job w))\<rparr>" for w
    by (cases ok; cases a; cases b) (simp_all add: row_to_job_def status_row_def coalesce_def as_i64_def)
  moreover have "aj_id w = i \<and> sandbox_row w" if "find (\<lambda>w. aj_id w = i \<and> sandbox_row w) (sb_jobs s) = Some w" for w
    using find_Some_mem [OF that] by blast
  ultimately have row: "row_to_job (status_row st ok msg a b w) = (row_to_job w)\<lparr>sj_status := st,
      sj_success := coalesce ok (sj_success (row_to_job w)), sj_failure_reason := coalesce msg (sj_failure_reason (row_to_job w)),
      sj_started_at := coalesce (map_option (get_ts \<circ> fmt_ts) a) (sj_started_at (row_to_job w)),
      sj_completed_at := coalesce (map_option (get_ts \<circ> fmt_ts) b) (sj_completed_at (row_to_job w))\<rparr>"
    and found: "find (\<lambda>w. aj_id w = i \<and> sandbox_row w) (sb_jobs s) = Some w \<Longrightarrow> aj_id w = i \<and> sandbox_row w" for w by blast+
  show ?thesis
  proof (cases "find (\<lambda>w. aj_id w = i \<and> sandbox_row w) (sb_jobs s)")
    case (Some w)
    with up found [OF Some] show ?thesis by (simp only: get_sandbox_job_def option.map row simp_thms if_True)
  qed (simp only: get_sandbox_job_def up option.map)
qed

lemma get_other_status:
  "i \<noteq> k \<Longrightarrow> get_sandbox_job i (update_sandbox_job_status k st ok msg a b s) = get_sandbox_job i s"
proof -
  assume "i \<noteq> k"
  have "find (\<lambda>w. aj_id w = i \<and> sandbox_row w) (map (\<lambda>w. if aj_id w = k \<and> sandbox_row w then status_row st ok msg a b w else w) ws)
      = find (\<lambda>w. aj_id w = i \<and> sandbox_row w) ws" for ws
    using \<open>i \<noteq> k\<close> by (induction ws) (auto simp: sandbox_row_def)
  then show ?thesis by (simp add: get_sandbox_job_def update_sandbox_job_status_def modify_jobs_def)
qed

end
