(* ===== verification/Job_Tools.thy ===== *)
theory Job_Tools
  imports Job_Commands Worker_Api Sandbox_Store Routine_Tools
begin

text \<open>
  The tools on jobs, \<open>src/tools/builtin/job.rs\<close>: create (in memory or in a container), list, status, cancel, events
  and prompt, and the monitor of a container job, \<open>src/agent/job_monitor.rs\<close>. The job manager, the orchestrator and
  the database are those of the other components; a write the code spawns is pending until a step runs it.
\<close>

section \<open>State and surroundings\<close>

record job_tools =
  jt_manager :: manager
  jt_orch :: orchestrator_state
  jt_db :: sandbox_store
  jt_pending :: "sandbox_statement list"
  jt_monitors :: "uuid list"

text \<open>
  What is configured, what the library prints and parses, and what the file system, the secrets store and Docker
  answer. \<open>tv_locate\<close> canonicalizes a path given as text.
\<close>

record job_tool_env =
  tv_parse :: "string \<Rightarrow> uuid option"
  tv_show :: "uuid \<Rightarrow> string"
  tv_show_duration :: "duration \<Rightarrow> string"
  tv_show_ts :: "instant \<Rightarrow> string"
  tv_show_cost :: "rat \<Rightarrow> string"
  tv_show_json :: "json \<Rightarrow> string"
  tv_files :: file_system
  tv_locate :: "string \<Rightarrow> (string, string list) result"
  tv_secrets :: "(string \<Rightarrow> string \<Rightarrow> (string, bool) result) option"
  tv_docker :: docker_answers
  tv_sandbox :: bool
  tv_store :: bool
  tv_monitor :: bool

section \<open>Naming a job\<close>

definition job_hex :: "job_tool_env \<Rightarrow> uuid \<Rightarrow> string" where
  "job_hex env i = filter (\<lambda>c. c \<noteq> CHR ''-'') (tv_show env i)"

definition prefix_matches :: "job_tool_env \<Rightarrow> string \<Rightarrow> manager \<Rightarrow> uuid list" where
  "prefix_matches env input m = filter (\<lambda>i. starts_with (job_hex env i) (to_lower input)) (all_jobs m)"

definition resolve_job_id :: "job_tool_env \<Rightarrow> string \<Rightarrow> manager \<Rightarrow> (exec_error, uuid) result" where
  "resolve_job_id env input m =
     (case tv_parse env input of
        Some i \<Rightarrow> Inr i
      | None \<Rightarrow>
         if length input < 4 then Inl (Exec_invalid_parameters ''job ID prefix must be at least 4 hex characters'')
         else (case prefix_matches env input m of
             [i] \<Rightarrow> Inr i
           | [] \<Rightarrow> Inl (Exec_invalid_parameters (''no job found matching prefix '' @ in_quotes input))
           | is \<Rightarrow> Inl (Exec_invalid_parameters (''ambiguous prefix '' @ in_quotes input @ '' matches ''
                    @ show_nat (length is) @ '' jobs, provide more characters''))))"

section \<open>Credentials\<close>

definition DANGEROUS_ENV_VARS :: "string list" where
  "DANGEROUS_ENV_VARS =
     [''LD_PRELOAD'', ''LD_LIBRARY_PATH'', ''LD_AUDIT'', ''DYLD_INSERT_LIBRARIES'', ''DYLD_LIBRARY_PATH'',
      ''BASH_ENV'', ''ENV'', ''CDPATH'', ''IFS'', ''PATH'', ''HOME'',
      ''PYTHONPATH'', ''NODE_PATH'', ''PERL5LIB'', ''RUBYLIB'', ''CLASSPATH'',
      ''JAVA_TOOL_OPTIONS'', ''MAVEN_OPTS'', ''USER'', ''SHELL'', ''RUST_LOG'']"

definition env_var_char :: "nat \<Rightarrow> char \<Rightarrow> bool" where
  "env_var_char k c \<longleftrightarrow> is_upper c \<or> c = CHR ''_'' \<or> (k > 0 \<and> is_digit c)"

definition validate_env_var_name :: "string \<Rightarrow> (exec_error, unit) result" where
  "validate_env_var_name name =
     (if name = [] then Inl (Exec_invalid_parameters ''env var name cannot be empty'')
      else if \<not> list_all (\<lambda>(k, c). env_var_char k c) (enumerate 0 name)
      then Inl (Exec_invalid_parameters (''env var '' @ in_quotes name
             @ '' must match [A-Z_][A-Z0-9_]* (uppercase, underscores, digits)''))
      else if name \<in> set DANGEROUS_ENV_VARS
      then Inl (Exec_invalid_parameters (''env var '' @ in_quotes name @ '' is on the denylist (could hijack process behavior)''))
      else Inr ())"

definition MAX_CREDENTIAL_GRANTS :: nat where "MAX_CREDENTIAL_GRANTS = 20"

definition check_grant ::
  "(string \<Rightarrow> string \<Rightarrow> (string, bool) result) \<Rightarrow> string \<Rightarrow> string \<Rightarrow> json \<Rightarrow> (exec_error, credential_grant) result" where
  "check_grant secret_exists u name v =
     (case json_str v of
        None \<Rightarrow> Inl (Exec_invalid_parameters (''credential env var for '' @ in_quotes name @ '' must be a string''))
      | Some var \<Rightarrow>
         (case validate_env_var_name var of
            Inl e \<Rightarrow> Inl e
          | Inr _ \<Rightarrow>
             (case secret_exists u name of
                Inl e \<Rightarrow> Inl (Exec_failed (''failed to check secret '' @ in_quotes name @ '': '' @ e))
              | Inr there \<Rightarrow>
                 (if there then Inr \<lparr>secret_name = name, env_var = var\<rparr>
                  else Inl (Exec_failed (''secret '' @ in_quotes name @ '' not found. Store it first via ''
                         @ in_quotes ''gyre tool auth'' @ '' or the web UI.''))))))"

fun collect_grants ::
  "(string \<Rightarrow> string \<Rightarrow> (string, bool) result) \<Rightarrow> string \<Rightarrow> (string \<times> json) list \<Rightarrow> (exec_error, credential_grant list) result" where
  "collect_grants secret_exists u [] = Inr []"
| "collect_grants secret_exists u ((name, v) # rest) =
     (case check_grant secret_exists u name v of
        Inl e \<Rightarrow> Inl e | Inr g \<Rightarrow> map_sum id (Cons g) (collect_grants secret_exists u rest))"

definition parse_credentials :: "job_tool_env \<Rightarrow> json \<Rightarrow> string \<Rightarrow> (exec_error, credential_grant list) result" where
  "parse_credentials env params u =
     (case json_get params ''credentials'' of
        Some (JObj (kv # kvs)) \<Rightarrow>
         (if length (kv # kvs) > MAX_CREDENTIAL_GRANTS
          then Inl (Exec_invalid_parameters (''too many credential grants ('' @ show_nat (length (kv # kvs))
                 @ '', max '' @ show_nat MAX_CREDENTIAL_GRANTS @ '')''))
          else (case tv_secrets env of
              None \<Rightarrow> Inl (Exec_failed (''credentials requested but no secrets store is configured. ''
                       @ ''Set SECRETS_MASTER_KEY to enable credential management.''))
            | Some secret_exists \<Rightarrow> collect_grants secret_exists u (kv # kvs)))
      | _ \<Rightarrow> Inr [])"

section \<open>The project directory\<close>

definition projects_base :: "file_system \<Rightarrow> string list" where
  "projects_base fs = (case fs_home fs of Some h \<Rightarrow> h | None \<Rightarrow> [''.'']) @ [''.gyre'', ''projects'']"

text \<open>Without a home directory the base is relative to the working directory.\<close>

definition show_base :: "file_system \<Rightarrow> string" where
  "show_base fs = (case fs_home fs of Some _ \<Rightarrow> show_path (projects_base fs) | None \<Rightarrow> join ''/'' (projects_base fs))"

definition base_name :: "job_tool_env \<Rightarrow> uuid \<Rightarrow> string list \<Rightarrow> string" where
  "base_name env i p = (if p = [] then tv_show env i else last p)"

definition resolve_project_dir ::
  "job_tool_env \<Rightarrow> string option \<Rightarrow> uuid \<Rightarrow> (exec_error, string list \<times> string) result" where
  "resolve_project_dir env explicit i =
     (let fs = tv_files env; base = projects_base fs in
      case fs_create_dir_all fs base of
        Some e \<Rightarrow> Inl (Exec_failed (''failed to create projects base '' @ show_base fs @ '': '' @ e))
      | None \<Rightarrow>
     (case fs_canonicalize fs base of
        Inl e \<Rightarrow> Inl (Exec_failed (''failed to canonicalize projects base: '' @ e))
      | Inr cbase \<Rightarrow>
     (case explicit of
        Some d \<Rightarrow>
         (case tv_locate env d of
            Inl e \<Rightarrow> Inl (Exec_invalid_parameters (''explicit project dir '' @ d @ '' does not exist or is inaccessible: '' @ e))
          | Inr p \<Rightarrow>
             (if \<not> path_starts_with p cbase
              then Inl (Exec_invalid_parameters (''project directory must be under '' @ show_path cbase))
              else Inr (p, base_name env i p)))
      | None \<Rightarrow>
         (let dir = cbase @ [tv_show env i] in
          case fs_create_dir_all fs dir of
            Some e \<Rightarrow> Inl (Exec_failed (''failed to create project dir '' @ show_path dir @ '': '' @ e))
          | None \<Rightarrow>
             (case fs_canonicalize fs dir of
                Inl e \<Rightarrow> Inl (Exec_failed (''failed to canonicalize project dir '' @ show_path dir @ '': '' @ e))
              | Inr p \<Rightarrow> Inr (p, base_name env i p))))))"

section \<open>Create\<close>

definition orchestrator_error_text :: "(uuid \<Rightarrow> string) \<Rightarrow> orchestrator_error \<Rightarrow> string" where
  "orchestrator_error_text su e = (case e of
     ContainerCreationFailed i r \<Rightarrow> ''Container creation failed for job '' @ su i @ '': '' @ r
   | ContainerNotFound i \<Rightarrow> ''Container not found for job '' @ su i
   | InvalidContainerState i st \<Rightarrow> ''Container for job '' @ su i @ '' is in unexpected state: '' @ st
   | ApiError r \<Rightarrow> ''Internal API error: '' @ r
   | Docker r \<Rightarrow> ''Docker error: '' @ r)"

definition spawn_write :: "job_tool_env \<Rightarrow> sandbox_statement \<Rightarrow> job_tools \<Rightarrow> job_tools" where
  "spawn_write env w s = (if tv_store env then s\<lparr>jt_pending := jt_pending s @ [w]\<rparr> else s)"

text \<open>A spawned write runs, in no fixed order, and is lost if the database fails.\<close>

definition run_write :: "nat \<Rightarrow> bool \<Rightarrow> job_tools \<Rightarrow> job_tools" where
  "run_write n fails s =
     (if n < length (jt_pending s)
      then s\<lparr>jt_db := (if fails then jt_db s else sandbox_step (jt_db s) (jt_pending s ! n)),
             jt_pending := take n (jt_pending s) @ drop (Suc n) (jt_pending s)\<rparr>
      else s)"

definition execute_local ::
  "job_tool_env \<Rightarrow> uuid \<Rightarrow> instant \<Rightarrow> duration \<Rightarrow> string \<Rightarrow> string \<Rightarrow> string \<Rightarrow> job_tools
     \<Rightarrow> job_tools \<times> (exec_error, tool_output) result" where
  "execute_local env fresh now took u ttl descr s =
     (case create_job_for_user fresh now u ttl descr (jt_manager s) of
        (Inr i, m) \<Rightarrow> (s\<lparr>jt_manager := m\<rparr>, Inr (output_success (JObj [(''job_id'', JStr (tv_show env i)), (''title'', JStr ttl),
           (''status'', JStr ''pending''), (''message'', JStr (''Created job '' @ in_quotes ttl))]) took))
      | (Inl e, m) \<Rightarrow> (s\<lparr>jt_manager := m\<rparr>, Inr (output_success (JObj [(''error'',
           JStr (job_error_text (tv_show env) (tv_show_duration env) e))]) took)))"

definition encode_allowed_tools :: "string list option \<Rightarrow> string option" where
  "encode_allowed_tools req = (case req of
     None \<Rightarrow> None
   | Some [] \<Rightarrow> Some '',''
   | Some ts \<Rightarrow> Some (join '','' ts))"

definition grants_json :: "credential_grant list \<Rightarrow> json" where
  "grants_json gs = JArr (map (\<lambda>g. JObj [(''secret_name'', JStr (secret_name g)), (''env_var'', JStr (env_var g))]) gs)"

definition set_status ::
  "job_tool_env \<Rightarrow> uuid \<Rightarrow> string \<Rightarrow> bool option \<Rightarrow> string option \<Rightarrow> instant option \<Rightarrow> instant option \<Rightarrow> job_tools \<Rightarrow> job_tools" where
  "set_status env i st ok msg started done s = spawn_write env (Set_status i st ok msg started done) s"

text \<open>What the poll reads, does and answers; \<open>None\<close> is a container still at work.\<close>

record poll_args =
  pa_job :: uuid
  pa_dir :: string
  pa_browse :: string

definition completed_output :: "job_tool_env \<Rightarrow> poll_args \<Rightarrow> string \<Rightarrow> duration \<Rightarrow> tool_output" where
  "completed_output env pa msg took =
     output_success (JObj [(''job_id'', JStr (tv_show env (pa_job pa))), (''status'', JStr ''completed''), (''output'', JStr msg),
       (''project_dir'', JStr (pa_dir pa)), (''browse_url'', JStr (''/projects/'' @ pa_browse pa))]) took"

definition drop_handle :: "uuid \<Rightarrow> job_tools \<Rightarrow> job_tools" where
  "drop_handle i s = s\<lparr>jt_orch := (jt_orch s)\<lparr>os_jobs := cleanup_job i (os_jobs (jt_orch s))\<rparr>\<rparr>"

definition poll_container ::
  "job_tool_env \<Rightarrow> poll_args \<Rightarrow> instant \<Rightarrow> duration \<Rightarrow> bool \<Rightarrow> job_tools
     \<Rightarrow> job_tools \<times> (exec_error, tool_output) result option" where
  "poll_container env pa now took late s =
     (let i = pa_job pa in
      if late then
        (let stopped = fst (stop_container_job (tv_docker env) i (os_jobs (jt_orch s)));
             s1 = drop_handle i (s\<lparr>jt_orch := (jt_orch s)\<lparr>os_jobs := stopped\<rparr>\<rparr>)
         in (set_status env i ''failed'' (Some False) (Some ''Timed out (10 minutes)'') None (Some now) s1,
             Some (Inl (Exec_failed ''container execution timed out (10 minutes)''))))
      else case get_handle (os_jobs (jt_orch s)) i of
        Some h \<Rightarrow>
         (case ch_state h of
            Creating \<Rightarrow> (s, None)
          | Running \<Rightarrow> (s, None)
          | Stopped \<Rightarrow>
             (let msg = (case Option.bind (ch_result h) cr_message of Some m \<Rightarrow> m | None \<Rightarrow> ''Container job completed'');
                  ok = (case ch_result h of Some r \<Rightarrow> cr_success r | None \<Rightarrow> True);
                  s1 = drop_handle i s
              in if ok then (set_status env i ''completed'' (Some True) None None (Some now) s1,
                             Some (Inr (completed_output env pa msg took)))
                 else (set_status env i ''failed'' (Some False) (Some msg) None (Some now) s1,
                       Some (Inl (Exec_failed (''container job failed: '' @ msg)))))
          | Container_failed \<Rightarrow>
             (let msg = (case Option.bind (ch_result h) cr_message of Some m \<Rightarrow> m | None \<Rightarrow> ''unknown failure'')
              in (set_status env i ''failed'' (Some False) (Some msg) None (Some now) (drop_handle i s),
                  Some (Inl (Exec_failed (''container job failed: '' @ msg))))))
      | None \<Rightarrow> (set_status env i ''completed'' (Some True) None None (Some now) s,
                 Some (Inr (completed_output env pa ''Container job completed'' took))))"

text \<open>
  The polling loop. \<open>wv_clock k\<close> and \<open>wv_utc k\<close> are the clocks at the k-th poll and \<open>wv_others k\<close> is what everybody
  else does during the sleep after it. The loop is over when the clock says so: the fuel counts polls.
\<close>

record wait_world =
  wv_clock :: "nat \<Rightarrow> instant"
  wv_utc :: "nat \<Rightarrow> instant"
  wv_others :: "nat \<Rightarrow> job_tools \<Rightarrow> job_tools"

definition WAIT_TIMEOUT :: duration where "WAIT_TIMEOUT = 600 * 1000000000"
definition POLL_INTERVAL :: duration where "POLL_INTERVAL = 2 * 1000000000"

fun wait_for_container ::
  "job_tool_env \<Rightarrow> wait_world \<Rightarrow> poll_args \<Rightarrow> instant \<Rightarrow> duration \<Rightarrow> nat \<Rightarrow> nat \<Rightarrow> job_tools
     \<Rightarrow> (job_tools \<times> (exec_error, tool_output) result) option" where
  "wait_for_container env wv pa deadline took k 0 s = None"
| "wait_for_container env wv pa deadline took k (Suc fuel) s =
     (case poll_container env pa (wv_utc wv k) took (wv_clock wv k > deadline) s of
        (s1, Some r) \<Rightarrow> Some (s1, r)
      | (s1, None) \<Rightarrow> wait_for_container env wv pa deadline took (Suc k) fuel (wv_others wv k s1))"

text \<open>\<open>execute_sandbox\<close> up to the started container: the arguments of the polls, or the error.\<close>

record sandbox_request =
  sq_task :: string
  sq_dir :: "string option"
  sq_wait :: bool
  sq_mode :: job_mode
  sq_grants :: "credential_grant list"
  sq_tools :: "string list option"

definition sandbox_record ::
  "job_tool_env \<Rightarrow> uuid \<Rightarrow> instant \<Rightarrow> string \<Rightarrow> sandbox_request \<Rightarrow> string \<Rightarrow> sandbox_job" where
  "sandbox_record env i now u q dir =
     \<lparr>sj_id = i, sj_task = sq_task q, sj_status = ''creating'', sj_user_id = u, sj_project_dir = dir, sj_success = None,
      sj_failure_reason = None, sj_created_at = now, sj_started_at = None, sj_completed_at = None,
      sj_grants_json = tv_show_json env (grants_json (sq_grants q)), sj_allowed_tools = encode_allowed_tools (sq_tools q)\<rparr>"

definition start_sandbox ::
  "job_tool_env \<Rightarrow> uuid \<Rightarrow> 8 word list \<Rightarrow> instant \<Rightarrow> string \<Rightarrow> sandbox_request \<Rightarrow> job_tools
     \<Rightarrow> job_tools \<times> (exec_error, poll_args) result" where
  "start_sandbox env i bytes now u q s =
     (case resolve_project_dir env (sq_dir q) i of
        Inl e \<Rightarrow> (s, Inl e)
      | Inr (dir, browse) \<Rightarrow>
         (let s1 = spawn_write env (Save_job (sandbox_record env i now u q (show_path dir))) s;
              s2 = (if sq_mode q = Claude_code then spawn_write env (Set_mode i ''claude_code'') s1 else s1)
          in case create_container_job (tv_show env) (tv_files env) (tv_docker env) bytes now i (sq_task q) (Some dir)
                    (sq_mode q) (sq_grants q) (sq_tools q) (os_jobs (jt_orch s2)) of
               (jm, Inl e) \<Rightarrow>
                (let e' = orchestrator_error_text (tv_show env) e;
                     s3 = s2\<lparr>jt_orch := (jt_orch s2)\<lparr>os_jobs := jm\<rparr>\<rparr>
                 in (set_status env i ''failed'' (Some False) (Some e') None (Some now) s3,
                     Inl (Exec_failed (''failed to create container: '' @ e'))))
             | (jm, Inr token) \<Rightarrow>
                (set_status env i ''running'' None None (Some now) None (s2\<lparr>jt_orch := (jt_orch s2)\<lparr>os_jobs := jm\<rparr>\<rparr>),
                 Inr \<lparr>pa_job = i, pa_dir = show_path dir, pa_browse = browse\<rparr>)))"

definition execute_sandbox ::
  "job_tool_env \<Rightarrow> wait_world \<Rightarrow> nat \<Rightarrow> uuid \<Rightarrow> 8 word list \<Rightarrow> instant \<Rightarrow> instant \<Rightarrow> duration \<Rightarrow> string \<Rightarrow> sandbox_request
     \<Rightarrow> job_tools \<Rightarrow> (job_tools \<times> (exec_error, tool_output) result) option" where
  "execute_sandbox env wv fuel i bytes now t0 took u q s =
     (case start_sandbox env i bytes now u q s of
        (s1, Inl e) \<Rightarrow> Some (s1, Inl e)
      | (s1, Inr pa) \<Rightarrow>
         (if sq_wait q then wait_for_container env wv pa (t0 + int WAIT_TIMEOUT) took 0 fuel s1
          else Some (if tv_monitor env then s1\<lparr>jt_monitors := jt_monitors s1 @ [i]\<rparr> else s1,
             Inr (output_success (JObj [(''job_id'', JStr (tv_show env i)), (''status'', JStr ''started''),
               (''message'', JStr (''Container started. Use job_events to check status or job_prompt to send ''
                 @ ''follow-up instructions.'')),
               (''project_dir'', JStr (pa_dir pa)), (''browse_url'', JStr (''/projects/'' @ pa_browse pa))]) took))))"

definition requested_tools :: "json \<Rightarrow> string list option" where
  "requested_tools params = (case json_get params ''allowed_tools'' of
     Some (JArr vs) \<Rightarrow> Some (List.map_filter json_str vs) | _ \<Rightarrow> None)"

definition create_job_execute ::
  "job_tool_env \<Rightarrow> wait_world \<Rightarrow> nat \<Rightarrow> uuid \<Rightarrow> 8 word list \<Rightarrow> instant \<Rightarrow> instant \<Rightarrow> duration \<Rightarrow> json \<Rightarrow> job_context
     \<Rightarrow> job_tools \<Rightarrow> (job_tools \<times> (exec_error, tool_output) result) option" where
  "create_job_execute env wv fuel fresh bytes now t0 took params ctx s =
     (case require_str params ''title'' of
        Inl e \<Rightarrow> Some (s, Inl e)
      | Inr ttl \<Rightarrow>
         (case require_str params ''description'' of
            Inl e \<Rightarrow> Some (s, Inl e)
          | Inr descr \<Rightarrow>
             (if tv_sandbox env then
                (case parse_credentials env params (user_id ctx) of
                   Inl e \<Rightarrow> Some (s, Inl e)
                 | Inr gs \<Rightarrow>
                    execute_sandbox env wv fuel fresh bytes now t0 took (user_id ctx)
                      \<lparr>sq_task = ttl @ [EOL, EOL] @ descr, sq_dir = text_member params ''project_dir'',
                       sq_wait = (case bool_member params ''wait'' of Some b \<Rightarrow> b | None \<Rightarrow> True),
                       sq_mode = (if text_member params ''mode'' = Some ''claude_code'' then Claude_code else Worker_mode),
                       sq_grants = gs, sq_tools = requested_tools params\<rparr> s)
              else Some (execute_local env fresh now took (user_id ctx) ttl descr s))))"

section \<open>List and status\<close>

definition listed_job :: "job_tool_env \<Rightarrow> string \<Rightarrow> manager \<Rightarrow> uuid \<Rightarrow> json option" where
  "listed_job env flt m i =
     (case get_context i m of
        Inl _ \<Rightarrow> None
      | Inr c \<Rightarrow>
         (if (if flt = ''completed'' then jstate c = Completed else if flt = ''failed'' then jstate c = Failed
              else if flt = ''active'' then is_active (jstate c) else True)
          then Some (JObj [(''job_id'', JStr (tv_show env i)), (''title'', JStr (title c)),
                 (''status'', JStr (debug_state (jstate c))), (''created_at'', JStr (tv_show_ts env (created_at c)))])
          else None))"

definition json_nat :: "nat \<Rightarrow> json" where
  "json_nat n = JNum (show_nat n)"

definition list_jobs_execute :: "job_tool_env \<Rightarrow> duration \<Rightarrow> json \<Rightarrow> job_context \<Rightarrow> job_tools \<Rightarrow> tool_output" where
  "list_jobs_execute env took params ctx s =
     (let flt = json_field params ''filter'' ''all''; m = jt_manager s;
          ids = (if flt = ''active'' then active_jobs_for (user_id ctx) m else all_jobs_for (user_id ctx) m);
          y = summary_for (user_id ctx) m
      in output_success (JObj [(''jobs'', JArr (List.map_filter (listed_job env flt m) ids)),
           (''summary'', JObj [(''total'', json_nat (su_total y)), (''pending'', json_nat (su_pending y)),
              (''in_progress'', json_nat (su_in_progress y)), (''completed'', json_nat (su_completed y)),
              (''failed'', json_nat (su_failed y))])]) took)"

definition job_status_execute ::
  "job_tool_env \<Rightarrow> duration \<Rightarrow> json \<Rightarrow> job_context \<Rightarrow> job_tools \<Rightarrow> (exec_error, tool_output) result" where
  "job_status_execute env took params ctx s =
     (case require_str params ''job_id'' of
        Inl e \<Rightarrow> Inl e
      | Inr input \<Rightarrow>
         (case resolve_job_id env input (jt_manager s) of
            Inl e \<Rightarrow> Inl e
          | Inr i \<Rightarrow>
             (case get_context i (jt_manager s) of
                Inr c \<Rightarrow>
                 (if user_id c \<noteq> user_id ctx then Inr (output_success (JObj [(''error'', JStr ''Job not found'')]) took)
                  else Inr (output_success (JObj [(''job_id'', JStr (tv_show env i)), (''title'', JStr (title c)),
                    (''description'', JStr (description c)), (''status'', JStr (debug_state (jstate c))),
                    (''created_at'', JStr (tv_show_ts env (created_at c))),
                    (''started_at'', json_ts (tv_show_ts env) (started_at c)),
                    (''completed_at'', json_ts (tv_show_ts env) (completed_at c)),
                    (''actual_cost'', JStr (tv_show_cost env (actual_cost c)))]) took))
              | Inl e \<Rightarrow> Inr (output_success (JObj [(''error'',
                  JStr (''Job not found: '' @ job_error_text (tv_show env) (tv_show_duration env) e))]) took))))"

section \<open>Cancel\<close>

definition cancel_context :: "string \<Rightarrow> instant \<Rightarrow> instant \<Rightarrow> job_context \<Rightarrow> (string, unit) result \<times> job_context" where
  "cancel_context u t1 t2 c =
     (if user_id c \<noteq> u then (Inl ''Job not found'', c) else transition_to c Cancelled (Some ''Cancelled by user'') t1 t2)"

definition cancel_job_execute ::
  "job_tool_env \<Rightarrow> instant \<Rightarrow> instant \<Rightarrow> duration \<Rightarrow> json \<Rightarrow> job_context \<Rightarrow> job_tools
     \<Rightarrow> job_tools \<times> (exec_error, tool_output) result" where
  "cancel_job_execute env t1 t2 took params ctx s =
     (case require_str params ''job_id'' of
        Inl e \<Rightarrow> (s, Inl e)
      | Inr input \<Rightarrow>
         (case resolve_job_id env input (jt_manager s) of
            Inl e \<Rightarrow> (s, Inl e)
          | Inr i \<Rightarrow>
             (case update_context i (cancel_context (user_id ctx) t1 t2) (jt_manager s) of
                (Inr (Inr _), m) \<Rightarrow> (s\<lparr>jt_manager := m\<rparr>, Inr (output_success (JObj [(''job_id'', JStr (tv_show env i)),
                   (''status'', JStr ''cancelled''), (''message'', JStr ''Job cancelled successfully'')]) took))
              | (Inr (Inl reason), m) \<Rightarrow> (s\<lparr>jt_manager := m\<rparr>,
                   Inr (output_success (JObj [(''error'', JStr (''Cannot cancel job: '' @ reason))]) took))
              | (Inl e, m) \<Rightarrow> (s\<lparr>jt_manager := m\<rparr>, Inr (output_success (JObj [(''error'',
                   JStr (''Job not found: '' @ job_error_text (tv_show env) (tv_show_duration env) e))]) took)))))"

section \<open>Events and prompts\<close>

text \<open>The job a call names, if its context is there and belongs to the caller.\<close>

definition own_job_context :: "job_tool_env \<Rightarrow> json \<Rightarrow> job_context \<Rightarrow> job_tools \<Rightarrow> (exec_error, uuid) result" where
  "own_job_context env params ctx s =
     (case require_str params ''job_id'' of
        Inl e \<Rightarrow> Inl e
      | Inr input \<Rightarrow>
         (case resolve_job_id env input (jt_manager s) of
            Inl e \<Rightarrow> Inl e
          | Inr i \<Rightarrow>
             (case get_context i (jt_manager s) of
                Inl _ \<Rightarrow> Inl (Exec_failed (''job '' @ tv_show env i @ '' not found or context unavailable''))
              | Inr c \<Rightarrow> (if user_id c \<noteq> user_id ctx
                  then Inl (Exec_failed (''job '' @ tv_show env i @ '' does not belong to current user'')) else Inr i))))"

definition event_limit :: "json \<Rightarrow> int" where
  "event_limit params =
     max 1 (min 1000 (case Option.bind (json_get params ''limit'') json_i64 of Some n \<Rightarrow> n | None \<Rightarrow> 50))"

definition event_json :: "job_tool_env \<Rightarrow> job_event_record \<Rightarrow> json" where
  "event_json env e = JObj [(''event_type'', JStr (er_type e)), (''data'', er_data e),
     (''created_at'', JStr (tv_show_ts env (er_created_at e)))]"

definition job_events_execute ::
  "job_tool_env \<Rightarrow> string option \<Rightarrow> duration \<Rightarrow> json \<Rightarrow> job_context \<Rightarrow> job_tools \<Rightarrow> (exec_error, tool_output) result" where
  "job_events_execute env db_failure took params ctx s =
     (case own_job_context env params ctx s of
        Inl e \<Rightarrow> Inl e
      | Inr i \<Rightarrow>
         (case db_failure of
            Some e \<Rightarrow> Inl (Exec_failed (''failed to load job events: '' @ e))
          | None \<Rightarrow>
             (let es = list_job_events i (Some (event_limit params)) (jt_db s)
              in Inr (output_success (JObj [(''job_id'', JStr (tv_show env i)), (''total_events'', json_nat (length es)),
                   (''returned'', json_nat (length es)), (''events'', JArr (map (event_json env) es))]) took))))"

definition job_prompt_execute ::
  "job_tool_env \<Rightarrow> duration \<Rightarrow> json \<Rightarrow> job_context \<Rightarrow> job_tools \<Rightarrow> job_tools \<times> (exec_error, tool_output) result" where
  "job_prompt_execute env took params ctx s =
     (case own_job_context env params ctx s of
        Inl e \<Rightarrow> (s, Inl e)
      | Inr i \<Rightarrow>
         (case require_str params ''content'' of
            Inl e \<Rightarrow> (s, Inl e)
          | Inr text \<Rightarrow>
             (let done = (case bool_member params ''done'' of Some b \<Rightarrow> b | None \<Rightarrow> False)
              in (s\<lparr>jt_orch := queue_prompt i \<lparr>pp_content = text, pp_done = done\<rparr> (jt_orch s)\<rparr>,
                  Inr (output_success (JObj [(''job_id'', JStr (tv_show env i)), (''status'', JStr ''queued''),
                    (''message'', JStr ''Prompt queued''), (''done'', JBool done)]) took)))))"

section \<open>The monitor of a job\<close>

text \<open>What the broadcast channel gives: an event, a number of lost events, or its end.\<close>

datatype broadcast = Received uuid sse_event | Lagged nat | Closed_channel

record injected =
  ij_channel :: string
  ij_user :: string
  ij_content :: string

definition monitor_message :: "string \<Rightarrow> injected" where
  "monitor_message text = \<lparr>ij_channel = ''job_monitor'', ij_user = ''system'', ij_content = text\<rparr>"

text \<open>One turn of the loop: what is sent, and whether the monitor goes on. \<open>sent\<close> tells whether the agent still listens.\<close>

definition monitor_turn :: "(uuid \<Rightarrow> string) \<Rightarrow> uuid \<Rightarrow> bool \<Rightarrow> broadcast \<Rightarrow> injected list \<times> bool" where
  "monitor_turn su job sent b =
     (case b of
        Received j ev \<Rightarrow>
         (if j \<noteq> job then ([], True)
          else (case ev of
              Job_message i who said \<Rightarrow>
               (if who = ''assistant''
                then ([monitor_message (''[Job '' @ take 8 (su job) @ ''] Claude Code: '' @ said)], sent)
                else ([], True))
            | Job_result i st sess \<Rightarrow>
               ([monitor_message (''[Job '' @ take 8 (su job) @ ''] Container finished (status: '' @ st @ '')'')], False)
            | _ \<Rightarrow> ([], True)))
      | Lagged n \<Rightarrow> ([], True)
      | Closed_channel \<Rightarrow> ([], False))"

fun monitor_run :: "(uuid \<Rightarrow> string) \<Rightarrow> uuid \<Rightarrow> (bool \<times> broadcast) list \<Rightarrow> injected list" where
  "monitor_run su job [] = []"
| "monitor_run su job ((sent, b) # bs) =
     (case monitor_turn su job sent b of
        (ms, True) \<Rightarrow> ms @ monitor_run su job bs
      | (ms, False) \<Rightarrow> ms)"

end
