(* ===== verification/Job_Tool_Props.thy ===== *)
theory Job_Tool_Props
  imports Job_Tools
begin

text \<open>
  What the job tools guarantee and what they do not: the credentials they grant, whose jobs they show and change, the
  end of the polling loop, the fate of the spawned writes, and the monitor.
\<close>

section \<open>Credentials\<close>

definition safe_env_var :: "string \<Rightarrow> bool" where
  "safe_env_var v \<longleftrightarrow> v \<noteq> [] \<and> (is_upper (hd v) \<or> hd v = CHR ''_'')
     \<and> (\<forall>c \<in> set v. is_upper c \<or> c = CHR ''_'' \<or> is_digit c) \<and> v \<notin> set DANGEROUS_ENV_VARS"

lemma env_var_chars_tail:
  "0 < n \<Longrightarrow> list_all (\<lambda>(k, c). env_var_char k c) (enumerate n v)
     \<longleftrightarrow> (\<forall>c \<in> set v. is_upper c \<or> c = CHR ''_'' \<or> is_digit c)"
  by (induction v arbitrary: n) (auto simp: env_var_char_def)

lemma validate_env_var_iff: "validate_env_var_name v = Inr () \<longleftrightarrow> safe_env_var v"
proof (cases v)
  case (Cons c cs)
  have "list_all (\<lambda>(k, c). env_var_char k c) (enumerate 0 v) \<longleftrightarrow>
      (is_upper c \<or> c = CHR ''_'') \<and> (\<forall>c \<in> set cs. is_upper c \<or> c = CHR ''_'' \<or> is_digit c)"
    using env_var_chars_tail [of 1 cs] Cons by (simp add: env_var_char_def)
  with Cons show ?thesis by (auto simp: validate_env_var_name_def safe_env_var_def simp del: enumerate_simps)
qed (simp add: validate_env_var_name_def safe_env_var_def)

lemma check_grant_Inr:
  "check_grant ex u name v = Inr g \<longleftrightarrow>
     v = JStr (env_var g) \<and> secret_name g = name \<and> safe_env_var (env_var g) \<and> ex u name = Inr True"
  by (cases g) (auto simp: check_grant_def json_str_Some validate_env_var_iff [symmetric] split: option.split sum.split)

lemma collect_grants_Inr:
  "collect_grants ex u kvs = Inr gs \<Longrightarrow>
     map (\<lambda>g. (secret_name g, JStr (env_var g))) gs = kvs \<and> (\<forall>g \<in> set gs. safe_env_var (env_var g) \<and> ex u (secret_name g) = Inr True)"
proof (induction kvs arbitrary: gs)
  case (Cons kv kvs)
  then obtain name v where kv: "kv = (name, v)" by (cases kv)
  with Cons.prems obtain g gs' where "check_grant ex u name v = Inr g" "collect_grants ex u kvs = Inr gs'" "gs = g # gs'"
    by (cases "check_grant ex u name v"; cases "collect_grants ex u kvs") auto
  with Cons.IH [of gs'] kv check_grant_Inr [of ex u name v g] show ?case by auto
qed simp

section \<open>Whose jobs a call shows\<close>

text \<open>Two managers look the same to a user: the same jobs in the same order, the user's own with the same contexts.\<close>

definition same_job :: "string \<Rightarrow> uuid \<times> job_context \<Rightarrow> uuid \<times> job_context \<Rightarrow> bool" where
  "same_job u p q \<longleftrightarrow> fst p = fst q \<and> user_id (snd p) = user_id (snd q) \<and> (user_id (snd p) = u \<longrightarrow> snd p = snd q)"

definition same_view :: "string \<Rightarrow> manager \<Rightarrow> manager \<Rightarrow> bool" where
  "same_view u m m' \<longleftrightarrow> list_all2 (same_job u) (mg_contexts m) (mg_contexts m')"

lemma same_view_ids: "same_view u m m' \<Longrightarrow> all_jobs m = all_jobs m'"
  unfolding same_view_def all_jobs_def by (induction rule: list_all2_induct) (auto simp: same_job_def)

lemma same_job_Some:
  assumes "list_all2 (same_job u) cs ds"
  shows "(map_of cs i = None \<and> map_of ds i = None) \<or> (\<exists>c d. map_of cs i = Some c \<and> map_of ds i = Some d \<and> same_job u (i, c) (i, d))"
  using assms
proof (induction rule: list_all2_induct)
  case (Cons p ps q qs)
  obtain a c b d where p: "p = (a, c)" "q = (b, d)" by (cases p; cases q) blast
  have "a = b" using Cons.hyps p by (simp add: same_job_def)
  show ?case
  proof (cases "i = a")
    case True
    then show ?thesis using Cons.hyps p \<open>a = b\<close> by simp
  next
    case False
    then show ?thesis using Cons.IH p \<open>a = b\<close> by simp
  qed
qed simp

lemma same_job_lookup:
  assumes "list_all2 (same_job u) (mg_contexts m) (mg_contexts m')"
  obtains (none) "map_of (mg_contexts m) i = None" "map_of (mg_contexts m') i = None"
  | (some) c d where "map_of (mg_contexts m) i = Some c" "map_of (mg_contexts m') i = Some d" "same_job u (i, c) (i, d)"
  using same_job_Some [OF assms, of i] by (elim disjE exE conjE) simp_all

lemma same_job_filter:
  assumes "list_all2 (same_job u) cs ds"
  shows "filter (\<lambda>(i, c). user_id c = u \<and> P c) cs = filter (\<lambda>(i, c). user_id c = u \<and> P c) ds"
  using assms
proof (induction rule: list_all2_induct)
  case (Cons p ps q qs)
  obtain a c b d where p: "p = (a, c)" "q = (b, d)" by (cases p; cases q) blast
  show ?case
  proof (cases "user_id c = u")
    case True
    then have "p = q" using Cons.hyps p by (simp add: same_job_def)
    then show ?thesis using Cons.IH by simp
  next
    case False
    then show ?thesis using Cons.IH Cons.hyps p by (simp add: same_job_def)
  qed
qed simp

lemma list_all2_update:
  assumes "list_all2 R cs ds" "\<And>p q. R p q \<Longrightarrow> fst p = fst q" "R (i, x) (i, y)"
  shows "list_all2 R (AList.update i x cs) (AList.update i y ds)"
  using assms(1)
proof (induction rule: list_all2_induct)
  case (Cons p ps q qs)
  then show ?case using assms(2) [of p q] assms(3) by (cases p; cases q) auto
qed (simp add: assms(3))

lemma same_view_update:
  assumes "same_view u m m'" "user_id c = user_id d" "user_id c = u \<longrightarrow> c = d"
  shows "same_view u (m\<lparr>mg_contexts := AList.update i c (mg_contexts m)\<rparr>) (m'\<lparr>mg_contexts := AList.update i d (mg_contexts m')\<rparr>)"
  using assms list_all2_update [of "same_job u" "mg_contexts m" "mg_contexts m'" i c d] by (auto simp: same_view_def same_job_def)

lemma same_view_resolve: "same_view u m m' \<Longrightarrow> resolve_job_id env input m = resolve_job_id env input m'"
  using same_view_ids [of u m m'] by (simp only: resolve_job_id_def prefix_matches_def)

lemma same_view_lists:
  assumes "same_view u m m'"
  shows "all_jobs_for u m = all_jobs_for u m'" "active_jobs_for u m = active_jobs_for u m'" "summary_for u m = summary_for u m'"
  using same_job_filter [OF assms [unfolded same_view_def], of "\<lambda>_. True"] same_job_filter [OF assms [unfolded same_view_def], of "\<lambda>c. is_active (jstate c)"]
  by (simp_all add: all_jobs_for_def active_jobs_for_def summary_for_def)

lemma same_view_context:
  assumes "same_view u m m'"
  obtains (none) "get_context i m = Inl (Job_NotFound i)" "get_context i m' = Inl (Job_NotFound i)"
  | (own) c where "get_context i m = Inr c" "get_context i m' = Inr c" "user_id c = u"
  | (foreign) c d where "get_context i m = Inr c" "get_context i m' = Inr d" "user_id c \<noteq> u" "user_id d \<noteq> u"
  using assms [unfolded same_view_def]
proof (cases rule: same_job_lookup [where i = i])
  case (some c d)
  have *: "get_context i m = Inr c" "get_context i m' = Inr d" using some by (simp_all add: get_context_def)
  show ?thesis
  proof (cases "user_id c = u")
    case True
    then have "c = d" using some(3) by (simp add: same_job_def)
    then show ?thesis using own [of c] * True by blast
  next
    case False
    then have "user_id d \<noteq> u" using some(3) by (simp add: same_job_def)
    then show ?thesis using foreign * False by blast
  qed
next
  case none': none
  show ?thesis by (rule none) (simp_all add: get_context_def none')
qed

lemma own_job_in_list: "i \<in> set (all_jobs_for u m) \<Longrightarrow> dkeys (mg_contexts m) \<Longrightarrow> \<exists>c. get_context i m = Inr c \<and> user_id c = u"
  by (force simp: all_jobs_for_def get_context_def dkeys_map_of [symmetric] split: option.split)

lemma transition_user: "user_id (snd (transition_to c st why t1 t2)) = user_id c"
  by (simp add: transition_to_def Let_def)

lemma cancel_user: "user_id (snd (cancel_context u t1 t2 c)) = user_id c"
  by (simp add: cancel_context_def transition_user)

section \<open>Non-interference\<close>

lemma same_view_own_job:
  assumes v: "same_view (user_id ctx) (jt_manager s) (jt_manager s')"
  shows "own_job_context env params ctx s = own_job_context env params ctx s'"
proof (cases "require_str params ''job_id''")
  case (Inr input)
  show ?thesis
  proof (cases "resolve_job_id env input (jt_manager s)")
    case r: (Inr i)
    then have r': "resolve_job_id env input (jt_manager s') = Inr i" using same_view_resolve [OF v] by simp
    show ?thesis using same_view_context [OF v, of i] by cases (simp_all add: own_job_context_def Inr r r')
  qed (use same_view_resolve [OF v] Inr in \<open>simp add: own_job_context_def\<close>)
qed (simp add: own_job_context_def)

lemma same_view_status:
  assumes v: "same_view (user_id ctx) (jt_manager s) (jt_manager s')"
  shows "job_status_execute env took params ctx s = job_status_execute env took params ctx s'"
proof (cases "require_str params ''job_id''")
  case (Inr input)
  show ?thesis
  proof (cases "resolve_job_id env input (jt_manager s)")
    case r: (Inr i)
    then have r': "resolve_job_id env input (jt_manager s') = Inr i" using same_view_resolve [OF v] by simp
    show ?thesis using same_view_context [OF v, of i] by cases (simp_all add: job_status_execute_def Inr r r')
  qed (use same_view_resolve [OF v] Inr in \<open>simp add: job_status_execute_def\<close>)
qed (simp add: job_status_execute_def)

lemma map_filter_agree: "(\<And>x. x \<in> set xs \<Longrightarrow> f x = g x) \<Longrightarrow> List.map_filter f xs = List.map_filter g xs"
  by (induction xs) (auto simp: map_filter_simps split: option.split)

lemma same_view_list:
  assumes v: "same_view (user_id ctx) (jt_manager s) (jt_manager s')" and k: "dkeys (mg_contexts (jt_manager s))"
  shows "list_jobs_execute env took params ctx s = list_jobs_execute env took params ctx s'"
proof -
  have "listed_job env flt (jt_manager s) i = listed_job env flt (jt_manager s') i"
    if i: "i \<in> set (all_jobs_for (user_id ctx) (jt_manager s))" for flt i
  proof -
    from own_job_in_list [OF i k] obtain c where c: "get_context i (jt_manager s) = Inr c" "user_id c = user_id ctx" by blast
    with same_view_context [OF v, of i] have "get_context i (jt_manager s') = Inr c"
      by (metis sum.sel(2) sum.distinct(1))
    with c show ?thesis by (simp add: listed_job_def)
  qed
  then have j: "List.map_filter (listed_job env flt (jt_manager s)) ids = List.map_filter (listed_job env flt (jt_manager s')) ids"
    if "set ids \<subseteq> set (all_jobs_for (user_id ctx) (jt_manager s))" for flt ids
    using that by (intro map_filter_agree) auto
  have "set (active_jobs_for (user_id ctx) (jt_manager s)) \<subseteq> set (all_jobs_for (user_id ctx) (jt_manager s))"
    by (auto simp: active_jobs_for_def all_jobs_for_def)
  then show ?thesis by (simp add: list_jobs_execute_def Let_def same_view_lists [OF v, symmetric] j)
qed

lemma same_view_cancel:
  assumes v: "same_view (user_id ctx) (jt_manager s) (jt_manager s')"
    and c: "cancel_job_execute env t1 t2 took params ctx s = (z, r)" "cancel_job_execute env t1 t2 took params ctx s' = (z', r')"
  shows "r = r' \<and> same_view (user_id ctx) (jt_manager z) (jt_manager z')"
proof (cases "require_str params ''job_id''")
  case (Inr input)
  show ?thesis
  proof (cases "resolve_job_id env input (jt_manager s)")
    case r: (Inr i)
    then have r': "resolve_job_id env input (jt_manager s') = Inr i" using same_view_resolve [OF v] by simp
    let ?f = "cancel_context (user_id ctx) t1 t2"
    from v [unfolded same_view_def] show ?thesis
    proof (cases rule: same_job_lookup [where i = i])
      case none
      with c v show ?thesis by (auto simp: cancel_job_execute_def Inr r r' update_context_def)
    next
      case (some x y)
      show ?thesis
      proof (cases "user_id x = user_id ctx")
        case True
        then have "x = y" using some(3) by (simp add: same_job_def)
        with some have m: "map_of (mg_contexts (jt_manager s)) i = Some y" "map_of (mg_contexts (jt_manager s')) i = Some y"
          by simp_all
        have "same_view (user_id ctx) (snd (update_context i ?f (jt_manager s))) (snd (update_context i ?f (jt_manager s')))"
          using same_view_update [OF v, of "snd (?f y)" "snd (?f y)" i] m by (simp add: update_context_def)
        with c m show ?thesis by (cases "fst (?f y)") (auto simp: cancel_job_execute_def Inr r r' update_context_def)
      next
        case False
        then have f: "user_id y \<noteq> user_id ctx" using some(3) by (simp add: same_job_def)
        have "same_view (user_id ctx) (snd (update_context i ?f (jt_manager s))) (snd (update_context i ?f (jt_manager s')))"
          using same_view_update [OF v, of x y i] some(1,2) some(3) False f
          by (simp add: update_context_def cancel_context_def same_job_def)
        with c some(1,2) False f show ?thesis
          by (auto simp: cancel_job_execute_def Inr r r' update_context_def cancel_context_def)
      qed
    qed
  qed (use same_view_resolve [OF v] Inr v c in \<open>simp add: cancel_job_execute_def\<close>)
qed (use v c in \<open>simp add: cancel_job_execute_def\<close>)

section \<open>The polling loop\<close>

definition clock_advances :: "wait_world \<Rightarrow> instant \<Rightarrow> bool" where
  "clock_advances wv t0 \<longleftrightarrow> t0 \<le> wv_clock wv 0 \<and> (\<forall>k. wv_clock wv k + int POLL_INTERVAL \<le> wv_clock wv (Suc k))"

lemma clock_after: "clock_advances wv t0 \<Longrightarrow> t0 + int k * int POLL_INTERVAL \<le> wv_clock wv k"
proof (induction k)
  case (Suc k)
  then have "t0 + int k * int POLL_INTERVAL \<le> wv_clock wv k" "wv_clock wv k + int POLL_INTERVAL \<le> wv_clock wv (Suc k)"
    by (simp_all add: clock_advances_def)
  then show ?case by (simp add: algebra_simps)
qed (simp add: clock_advances_def)

lemma late_poll_ends: "\<exists>s1 r. poll_container env pa now took True s = (s1, Some r)"
  by (simp add: poll_container_def Let_def)

lemma polls_end:
  assumes "\<exists>j < fuel. wv_clock wv (k + j) > deadline"
  shows "\<exists>y. wait_for_container env wv pa deadline took k fuel s = Some y"
  using assms
proof (induction fuel arbitrary: k s)
  case (Suc fuel)
  obtain s1 r where p: "poll_container env pa (wv_utc wv k) took (wv_clock wv k > deadline) s = (s1, r)" by fastforce
  show ?case
  proof (cases r)
    case None
    then have "\<not> wv_clock wv k > deadline" using p late_poll_ends [of env pa "wv_utc wv k" took s] by auto
    with Suc.prems obtain j where "j < Suc fuel" "wv_clock wv (k + j) > deadline" "j \<noteq> 0" by (metis add.right_neutral)
    then have "\<exists>j' < fuel. wv_clock wv (Suc k + j') > deadline" by (intro exI [of _ "j - 1"]) auto
    with Suc.IH [of "Suc k"] p None show ?thesis by simp
  qed (simp add: p)
qed simp

section \<open>What a container job leaves\<close>

lemma spawn_write_frame [simp]:
  "jt_manager (spawn_write env w s) = jt_manager s" "jt_orch (spawn_write env w s) = jt_orch s"
  "jt_db (spawn_write env w s) = jt_db s"
  by (simp_all add: spawn_write_def)

lemma set_status_frame [simp]:
  "jt_manager (set_status env i st ok msg a b s) = jt_manager s" "jt_orch (set_status env i st ok msg a b s) = jt_orch s"
  "jt_db (set_status env i st ok msg a b s) = jt_db s"
  by (simp_all add: set_status_def)

lemma start_sandbox_manager: "start_sandbox env i bytes now u q s = (s', r) \<Longrightarrow> jt_manager s' = jt_manager s \<and> jt_db s' = jt_db s"
  by (auto simp: start_sandbox_def Let_def split: sum.splits prod.splits if_splits)

lemma drop_handle_frame [simp]:
  "jt_manager (drop_handle i s) = jt_manager s" "jt_db (drop_handle i s) = jt_db s"
  by (simp_all add: drop_handle_def)

lemma grants_of_created:
  assumes "create_container_job su fs da bytes now i task dir mode gs req jm = (jm', Inr token)"
  shows "get_grants (jm_tokens jm') i = (if gs = [] then get_grants (jm_tokens jm) i else Some gs)"
  using assms
  by (auto simp: create_container_job_def register_job_def set_running_def store_grants_def get_grants_def create_token_def Let_def
      dest!: start_frame split: prod.splits sum.splits)

lemma started_grants:
  assumes "start_sandbox env i bytes now u q s = (s', Inr pa)"
  shows "get_grants (jm_tokens (os_jobs (jt_orch s'))) i
    = (if sq_grants q = [] then get_grants (jm_tokens (os_jobs (jt_orch s))) i else Some (sq_grants q))"
  using assms grants_of_created
  by (auto simp: start_sandbox_def Let_def split: sum.splits prod.splits if_splits)

lemma created_handle:
  assumes "create_container_job su fs da bytes now i task dir mode gs req jm = (jm', Inr token)"
  shows "get_handle jm' i \<noteq> None"
proof -
  obtain jm1 tok where r: "register_job bytes now i task dir mode gs jm = (jm1, tok)" by fastforce
  with assms obtain jm2 cid where s: "start_job_container su fs da i tok dir mode req jm1 = (jm2, Inr cid)"
      "jm' = set_running i cid jm2"
    by (auto simp: create_container_job_def split: prod.splits sum.splits)
  have "get_handle jm2 i = get_handle jm1 i" using start_frame [OF s(1)] by (simp add: get_handle_def)
  then show ?thesis using s(2) register_frame(3) [OF r, of i] by (simp add: set_running_def)
qed

section \<open>What the monitor says\<close>

lemma trim_bracket: "\<exists>r. trim (CHR ''['' # w) = CHR ''['' # r"
proof -
  have n: "\<not> is_ws CHR ''[''" by (simp add: is_ws_def code_of_def)
  then have "trim (CHR ''['' # w) = CHR ''['' # trim_end w" by (auto simp: trim_def trim_start_def trim_end_def dropWhile_append)
  then show ?thesis by blast
qed

lemma bracket_is_input: "parse_submission parse approval (CHR ''['' # w) = User_input (CHR ''['' # w)"
proof -
  obtain r where t: "trim (CHR ''['' # w) = CHR ''['' # r" using trim_bracket by blast
  have low: "to_lower (CHR ''['' # r) = CHR ''['' # to_lower r" by (simp add: to_lower_def lower_char_def is_upper_def code_of_def)
  have no: "lookup_word control_words (CHR ''['' # x) = None" "lookup_word approval_words (CHR ''['' # x) = None" for x
    by (simp_all add: lookup_word_None control_words_def approval_words_def approve_words_def always_words_def deny_words_def)
  show ?thesis by (simp add: parse_submission_def Let_def t low no strip_prefix_def)
qed

text \<open>What a monitor of a job takes notice of.\<close>

fun noticed :: "uuid \<Rightarrow> broadcast \<Rightarrow> bool" where
  "noticed job (Received j (Job_message i who said)) \<longleftrightarrow> j = job \<and> who = ''assistant''"
| "noticed job (Received j (Job_result i st x)) \<longleftrightarrow> j = job"
| "noticed job Closed_channel \<longleftrightarrow> True"
| "noticed job _ \<longleftrightarrow> False"

lemma unnoticed_turn: "\<not> noticed job b \<Longrightarrow> monitor_turn su job sent b = ([], True)"
  by (induction job b rule: noticed.induct) (auto simp: monitor_turn_def)

lemma monitor_run_noticed: "monitor_run su job bs = monitor_run su job (filter (\<lambda>(sent, b). noticed job b) bs)"
  by (induction su job bs rule: monitor_run.induct) (auto simp: unnoticed_turn split: prod.split bool.split)

lemma monitor_turn_said:
  "(ms, go) = monitor_turn su job sent b \<Longrightarrow> ij \<in> set ms \<Longrightarrow>
     ij_user ij = ''system'' \<and> ij_channel ij = ''job_monitor'' \<and> (\<exists>r. ij_content ij = ''[Job '' @ r)"
  by (auto simp: monitor_turn_def monitor_message_def split: broadcast.splits sse_event.splits if_splits)

lemma monitor_run_said:
  "ij \<in> set (monitor_run su job bs) \<Longrightarrow>
     ij_user ij = ''system'' \<and> ij_channel ij = ''job_monitor'' \<and> (\<exists>r. ij_content ij = ''[Job '' @ r)"
proof (induction su job bs rule: monitor_run.induct)
  case (2 su job sent b bs)
  obtain ms go where t: "(ms, go) = monitor_turn su job sent b" by (metis surj_pair)
  show ?case using 2 monitor_turn_said [OF t, of ij] by (cases go) (auto simp flip: t)
qed simp

lemma monitor_run_input:
  "ij \<in> set (monitor_run su job bs) \<Longrightarrow>
     ij_user ij = ''system'' \<and> parse_submission parse approval (ij_content ij) = User_input (ij_content ij)"
proof -
  assume "ij \<in> set (monitor_run su job bs)"
  from monitor_run_said [OF this] obtain r where r: "ij_user ij = ''system''" "ij_content ij = ''[Job '' @ r" by blast
  show ?thesis unfolding r by (simp add: bracket_is_input)
qed

lemma monitor_turn_short: "(ms, go) = monitor_turn su job sent b \<Longrightarrow> length ms \<le> 1"
  by (auto simp: monitor_turn_def split: broadcast.splits sse_event.splits if_splits)

section \<open>Properties\<close>

definition plain_tool_env :: job_tool_env where
  "plain_tool_env = \<lparr>tv_parse = (\<lambda>t. if t = ''7'' then Some 7 else None), tv_show = show_nat, tv_show_duration = show_nat,
     tv_show_ts = (\<lambda>t. show_int t), tv_show_cost = (\<lambda>c. ''0''), tv_show_json = (\<lambda>j. ''[]''), tv_files = example_fs,
     tv_locate = (\<lambda>p. Inl ''no such directory''), tv_secrets = Some (\<lambda>u n. Inr (n = ''github'')),
     tv_docker = example_docker, tv_sandbox = True, tv_store = True, tv_monitor = True\<rparr>"

definition fresh_tools :: job_tools where
  "fresh_tools = \<lparr>jt_manager = new_manager 5,
     jt_orch = \<lparr>os_jobs = example_manager, os_prompts = [], os_sent = [], os_saved = [], os_usage = []\<rparr>,
     jt_db = \<lparr>sb_jobs = [], sb_events = [], sb_next_event = 1, sb_enforces_keys = False\<rparr>, jt_pending = [], jt_monitors = []\<rparr>"

definition plain_request :: sandbox_request where
  "plain_request = \<lparr>sq_task = ''t'', sq_dir = None, sq_wait = True, sq_mode = Claude_code, sq_grants = [], sq_tools = None\<rparr>"

definition plain_params :: json where
  "plain_params = JObj [(''title'', JStr ''t''), (''description'', JStr ''d''), (''wait'', JBool False),
     (''credentials'', JObj [(''github'', JStr ''GITHUB_TOKEN'')])]"

definition steady_world :: wait_world where
  "steady_world = \<lparr>wv_clock = (\<lambda>k. int k * 2000000000), wv_utc = (\<lambda>k. int k * 2000000000), wv_others = (\<lambda>k s. s)\<rparr>"

lemma show_seven: "show_nat 7 = ''7''"
  by code_simp

lemma plain_start:
  "\<exists>s'. start_sandbox plain_tool_env 7 [1] 0 u plain_request fresh_tools
     = (s', Inr \<lparr>pa_job = 7, pa_dir = show_path [''home'', ''u'', ''.gyre'', ''projects'', ''7''], pa_browse = ''7''\<rparr>)"
  by (simp add: start_sandbox_def plain_tool_env_def fresh_tools_def plain_request_def resolve_project_dir_def projects_base_def example_defs create_container_job_def register_job_def start_job_container_def connect_cached_def build_container_def validate_bind_mount_path_def path_starts_with_def create_token_def base_name_def call_docker_def Let_def show_path_def show_seven)


lemma plain_create:
  "\<exists>s' out. create_job_execute plain_tool_env steady_world 0 7 [1] 0 0 0 plain_params (with_user 1 0 ''u'' [] []) fresh_tools
      = Some (s', Inr out)
     \<and> get_grants (jm_tokens (os_jobs (jt_orch s'))) 7 = Some [\<lparr>secret_name = ''github'', env_var = ''GITHUB_TOKEN''\<rparr>]"
proof -
  have v: "validate_env_var_name ''GITHUB_TOKEN'' = Inr ()" by code_simp
  show ?thesis
    by (simp add: create_job_execute_def require_str_def plain_params_def parse_credentials_def MAX_CREDENTIAL_GRANTS_def
        check_grant_def v execute_sandbox_def start_sandbox_def plain_tool_env_def fresh_tools_def
        resolve_project_dir_def projects_base_def example_defs create_container_job_def register_job_def start_job_container_def
        connect_cached_def build_container_def validate_bind_mount_path_def path_starts_with_def create_token_def base_name_def
        call_docker_def text_member_def bool_member_def with_user_def set_running_def modify_handle_def get_handle_def
        store_grants_def get_grants_def set_status_def spawn_write_def Let_def)
qed


text \<open>C18: The job tools answer a user without regard to what the jobs of other users contain: two managers with the same jobs
  whose contexts differ only in foreign jobs give the same list, status, events and acceptance of prompts, and cancelling
  gives the same answer and leaves managers that still look the same.\<close>
theorem jobs_hidden_from_others:
  assumes "same_view (user_id ctx) (jt_manager s) (jt_manager s')" and "dkeys (mg_contexts (jt_manager s))"
    and "jt_db s = jt_db s'"
  shows "list_jobs_execute env took params ctx s = list_jobs_execute env took params ctx s'
     \<and> job_status_execute env took params ctx s = job_status_execute env took params ctx s'
     \<and> job_events_execute env fails took params ctx s = job_events_execute env fails took params ctx s'
     \<and> snd (job_prompt_execute env took params ctx s) = snd (job_prompt_execute env took params ctx s')
     \<and> snd (cancel_job_execute env t1 t2 took params ctx s) = snd (cancel_job_execute env t1 t2 took params ctx s')
     \<and> same_view (user_id ctx) (jt_manager (fst (cancel_job_execute env t1 t2 took params ctx s)))
         (jt_manager (fst (cancel_job_execute env t1 t2 took params ctx s')))"
proof -
  have "job_events_execute env fails took params ctx s = job_events_execute env fails took params ctx s'"
    unfolding job_events_execute_def same_view_own_job [OF assms(1)] assms(3) ..
  moreover have "snd (job_prompt_execute env took params ctx s) = snd (job_prompt_execute env took params ctx s')"
    using same_view_own_job [OF assms(1), of env params]
    by (simp add: job_prompt_execute_def Let_def split: sum.split)
  ultimately show ?thesis
    using same_view_list [OF assms(1,2)] same_view_status [OF assms(1)] same_view_cancel [OF assms(1) surjective_pairing surjective_pairing]
    by (intro conjI) simp_all
qed

definition one_job :: "string \<Rightarrow> job_tools" where
  "one_job descr = fresh_tools\<lparr>jt_manager := (new_manager 5)\<lparr>mg_contexts := [(7, with_user 7 0 ''bob'' ''t'' descr)]\<rparr>\<rparr>"

theorem jobs_hidden_from_others_witness:
  "job_status_execute plain_tool_env 0 (JObj [(''job_id'', JStr ''7'')]) (with_user 1 0 ''alice'' [] []) (one_job ''secret'')
     = job_status_execute plain_tool_env 0 (JObj [(''job_id'', JStr ''7'')]) (with_user 1 0 ''alice'' [] []) (one_job ''other'')"
  using jobs_hidden_from_others [of "with_user 1 0 ''alice'' [] []" "one_job ''secret''" "one_job ''other''"]
  by (simp add: one_job_def same_view_def same_job_def with_user_def dkeys_def)

text \<open>\<open>create_job\<close> always returns: with a clock that advances by the poll interval at every sleep, waiting for a container
  is over after at most 302 polls, whatever everybody else does in between.\<close>
theorem create_job_returns:
  assumes "clock_advances wv t0"
  shows "\<exists>y. create_job_execute env wv 302 fresh bytes now t0 took params ctx s = Some y"
proof -
  have "\<exists>j < 302. wv_clock wv (0 + j) > t0 + int WAIT_TIMEOUT"
    using clock_after [OF assms, of 301] by (intro exI [of _ 301]) (simp add: POLL_INTERVAL_def WAIT_TIMEOUT_def)
  from polls_end [OF this] have "\<exists>y. execute_sandbox env wv 302 fresh bytes now t0 took u q s = Some y" for u q s
    by (auto simp: execute_sandbox_def split: prod.split sum.split)
  then show ?thesis by (auto simp: create_job_execute_def split: sum.split)
qed

theorem create_job_returns_witness:
  "clock_advances steady_world 0 \<and> (\<exists>y. create_job_execute plain_tool_env steady_world 302 7 [1] 0 0 0 plain_params
     (with_user 1 0 ''u'' [] []) fresh_tools = Some y)"
proof -
  have "clock_advances steady_world 0" by (simp add: clock_advances_def steady_world_def POLL_INTERVAL_def)
  with create_job_returns [OF this] show ?thesis by blast
qed

text \<open>A container job that was started is out of the reach of the tools its answer names: the job manager knows nothing of it,
  so reading its events and sending it a prompt fail, whoever asks.\<close>
theorem container_job_out_of_reach:
  assumes "create_job_execute env wv fuel fresh bytes now t0 took params ctx s = Some (s', Inr out)"
    and "tv_sandbox env" and "bool_member params ''wait'' = Some False"
    and "get_context fresh (jt_manager s) = Inl (Job_NotFound fresh)"
    and "tv_parse env input = Some fresh" and "json_get asked ''job_id'' = Some (JStr input)"
  shows "job_events_execute env fails took asked any s'
       = Inl (Exec_failed (''job '' @ tv_show env fresh @ '' not found or context unavailable''))
     \<and> job_prompt_execute env took asked any s'
       = (s', Inl (Exec_failed (''job '' @ tv_show env fresh @ '' not found or context unavailable'')))
     \<and> get_handle (os_jobs (jt_orch s')) fresh \<noteq> None"
proof -
  from assms(1-3) obtain q where q: "execute_sandbox env wv fuel fresh bytes now t0 took (user_id ctx) q s = Some (s', Inr out)"
      "\<not> sq_wait q"
    by (force simp: create_job_execute_def split: sum.splits)
  then obtain s1 pa where s1: "start_sandbox env fresh bytes now (user_id ctx) q s = (s1, Inr pa)"
      and s': "s' = (if tv_monitor env then s1\<lparr>jt_monitors := jt_monitors s1 @ [fresh]\<rparr> else s1)"
    by (auto simp: execute_sandbox_def split: prod.splits sum.splits)
  have "jt_manager s' = jt_manager s" using start_sandbox_manager [OF s1] s' by simp
  then have "own_job_context env asked any s'
      = Inl (Exec_failed (''job '' @ tv_show env fresh @ '' not found or context unavailable''))"
    using assms(4-6) by (simp add: own_job_context_def require_str_def resolve_job_id_def)
  moreover have "get_handle (os_jobs (jt_orch s1)) fresh \<noteq> None" using s1 created_handle by (auto simp: start_sandbox_def Let_def split: sum.splits prod.splits if_splits)
  ultimately show ?thesis using s' by (simp add: job_events_execute_def job_prompt_execute_def)
qed

theorem container_job_out_of_reach_witness:
  "\<exists>s' out. create_job_execute plain_tool_env steady_world 0 7 [1] 0 0 0 plain_params (with_user 1 0 ''u'' [] []) fresh_tools
       = Some (s', Inr out)
     \<and> job_events_execute plain_tool_env None 0 (JObj [(''job_id'', JStr ''7'')]) (with_user 1 0 ''u'' [] []) s'
       = Inl (Exec_failed ''job 7 not found or context unavailable'')"
proof -
  obtain s' out where c: "create_job_execute plain_tool_env steady_world 0 7 [1] 0 0 0 plain_params (with_user 1 0 ''u'' [] []) fresh_tools
      = Some (s', Inr out)"
    using plain_create by blast
  have "job_events_execute plain_tool_env None 0 (JObj [(''job_id'', JStr ''7'')]) (with_user 1 0 ''u'' [] []) s'
      = Inl (Exec_failed (''job '' @ tv_show plain_tool_env 7 @ '' not found or context unavailable''))"
    by (rule conjunct1 [OF container_job_out_of_reach [OF c]])
      (simp_all add: plain_tool_env_def bool_member_def plain_params_def fresh_tools_def new_manager_def get_context_def)
  with c show ?thesis by (simp add: plain_tool_env_def show_seven)
qed

text \<open>The writes of \<open>create_job\<close> are spawned, and run in any order: when the mode and the status of a job in Claude Code mode are
  written before its row exists, both are lost, and the running job stays in the table as one being created in worker mode.\<close>
theorem spawned_writes_may_be_lost:
  assumes "start_sandbox env i bytes now u q s = (s', Inr pa)" and "sq_mode q = Claude_code" and "tv_store env"
    and "jt_pending s = []" and "i \<notin> aj_id ` set (sb_jobs (jt_db s))"
  shows "\<exists>order. (let db = jt_db (foldl (\<lambda>s n. run_write n False s) s' order) in
      jt_pending (foldl (\<lambda>s n. run_write n False s) s' order) = []
      \<and> get_sandbox_job_mode i db = Some ''worker'' \<and> map_option sj_status (get_sandbox_job i db) = Some ''creating'')"
proof -
  obtain dir browse jm tok where "s' = set_status env i ''running'' None None (Some now) None
      ((spawn_write env (Set_mode i ''claude_code'') (spawn_write env (Save_job (sandbox_record env i now u q (show_path dir))) s))
        \<lparr>jt_orch := (jt_orch s)\<lparr>os_jobs := jm\<rparr>\<rparr>)"
    using assms(1,2) by (auto simp: start_sandbox_def Let_def split: sum.splits prod.splits if_splits)
  then have p: "jt_pending s' = [Save_job (sandbox_record env i now u q (show_path dir)), Set_mode i ''claude_code'',
      Set_status i ''running'' None None (Some now) None]" and d: "jt_db s' = jt_db s"
    using assms(3,4) by (simp_all add: set_status_def spawn_write_def)
  have n: "find (\<lambda>w. aj_id w = i \<and> P w) (sb_jobs (jt_db s)) = None" for P using assms(5) by (auto simp: find_None_iff)
  have same: "modify_jobs (\<lambda>w. aj_id w = i \<and> P w) f (jt_db s) = jt_db s" for P f
    using assms(5) by (auto simp: modify_jobs_def intro!: sandbox_store.equality map_idI)
  have "let s3 = foldl (\<lambda>s n. run_write n False s) s' [1, 1, 0] in jt_pending s3 = []
      \<and> jt_db s3 = save_sandbox_job (sandbox_record env i now u q (show_path dir)) (jt_db s)"
    using p d same [of "\<lambda>w. True"] same [of sandbox_row]
    by (simp add: run_write_def update_sandbox_job_mode_def update_sandbox_job_status_def Let_def)
  then show ?thesis
    by (intro exI [of _ "[1, 1, 0]"])
      (use assms(5) save_new_job [of "sandbox_record env i now u q (show_path dir)" "jt_db s"]
        in \<open>simp add: Let_def sandbox_record_def row_to_job_new\<close>)
qed

theorem spawned_writes_may_be_lost_witness:
  "\<exists>s' order. fst (start_sandbox plain_tool_env 7 [1] 0 ''u'' plain_request fresh_tools) = s'
     \<and> get_sandbox_job_mode 7 (jt_db (foldl (\<lambda>s n. run_write n False s) s' order)) = Some ''worker''"
proof -
  obtain s' where s: "start_sandbox plain_tool_env 7 [1] 0 ''u'' plain_request fresh_tools
      = (s', Inr \<lparr>pa_job = 7, pa_dir = show_path [''home'', ''u'', ''.gyre'', ''projects'', ''7''], pa_browse = ''7''\<rparr>)"
    using plain_start by blast
  with spawned_writes_may_be_lost [OF s] show ?thesis
    by (auto simp: Let_def plain_request_def plain_tool_env_def fresh_tools_def)
qed

text \<open>The monitor of a job passes on only what concerns its job, as a message of the system that is read as plain input, never as a
  command, an approval or a control word, and says nothing after the job's result.\<close>
theorem monitor_speaks_of_its_job:
  "monitor_run su job bs = monitor_run su job (filter (\<lambda>(sent, b). noticed job b) bs)
   \<and> list_all (\<lambda>m. ij_user m = ''system'' \<and> parse_submission parse approval (ij_content m) = User_input (ij_content m))
       (monitor_run su job bs)
   \<and> monitor_run su job ((sent, Received job (Job_result i st x)) # bs)
       = [monitor_message (''[Job '' @ take 8 (su job) @ ''] Container finished (status: '' @ st @ '')'')]"
proof (intro conjI)
  show "monitor_run su job bs = monitor_run su job (filter (\<lambda>(sent, b). noticed job b) bs)" by (rule monitor_run_noticed)
qed (simp_all add: list_all_iff monitor_run_input monitor_turn_def)

end
