(* ===== verification/Web_Jobs.thy ===== *)
theory Web_Jobs
  imports Job_Tool_Props File_Tools
begin

text \<open>
  The job routes of the web gateway, \<open>src/channels/web/server.rs\<close>: list, summary, detail, cancel, restart, prompt, events and
  the files of a project, over the database, the container manager and the prompt queues of the other components. An error is
  a status code with its text. One clock reading stands for those of a request.
\<close>

section \<open>Surroundings\<close>

type_synonym 'a http = "(nat \<times> string, 'a) result"

datatype web_query = Q_list | Q_summary | Q_get | Q_mode | Q_owner | Q_events | Q_save | Q_status

text \<open>
  What is configured, what the library parses and prints, the file system by path, and which database calls fail.
  \<open>wb_entries\<close> gives the entries of a directory up to the first that cannot be read.
\<close>

record web_env =
  wb_parse :: "string \<Rightarrow> uuid option"
  wb_show :: "uuid \<Rightarrow> string"
  wb_show_ts :: "instant \<Rightarrow> string"
  wb_parse_grants :: "string \<Rightarrow> credential_grant list option"
  wb_user :: string
  wb_store :: bool
  wb_jobs :: bool
  wb_prompts :: bool
  wb_db_fails :: "web_query \<Rightarrow> string option"
  wb_files :: file_system
  wb_docker :: docker_answers
  wb_canonicalize :: "path \<Rightarrow> path option"
  wb_entries :: "path \<Rightarrow> (string \<times> bool) list option"
  wb_read :: "path \<Rightarrow> string option"
  wb_home :: "path option"

definition NO_DATABASE :: "nat \<times> string" where "NO_DATABASE = (503, ''Database not available'')"
definition NOT_FOUND :: "nat \<times> string" where "NOT_FOUND = (404, ''Job not found'')"
definition INVALID_ID :: "nat \<times> string" where "INVALID_ID = (400, ''Invalid job ID'')"

definition asked :: "web_env \<Rightarrow> web_query \<Rightarrow> 'a \<Rightarrow> 'a http" where
  "asked env q x = (case wb_db_fails env q of Some e \<Rightarrow> Inl (500, e) | None \<Rightarrow> Inr x)"

definition job_uuid :: "web_env \<Rightarrow> string \<Rightarrow> uuid http" where
  "job_uuid env txt = (case wb_parse env txt of Some i \<Rightarrow> Inr i | None \<Rightarrow> Inl INVALID_ID)"

definition ui_state :: "string \<Rightarrow> string" where
  "ui_state st = (if st = ''creating'' then ''pending'' else if st = ''running'' then ''in_progress'' else st)"

section \<open>List and summary\<close>

record job_info =
  ji_id :: uuid
  ji_title :: string
  ji_state :: string
  ji_user :: string
  ji_created :: string
  ji_started :: "string option"

definition info_of :: "web_env \<Rightarrow> sandbox_job \<Rightarrow> job_info" where
  "info_of env j = \<lparr>ji_id = sj_id j, ji_title = sj_task j, ji_state = ui_state (sj_status j), ji_user = sj_user_id j,
     ji_created = wb_show_ts env (sj_created_at j), ji_started = map_option (wb_show_ts env) (sj_started_at j)\<rparr>"

fun insert_recent :: "job_info \<Rightarrow> job_info list \<Rightarrow> job_info list" where
  "insert_recent x [] = [x]"
| "insert_recent x (y # ys) = (if text_le (ji_created y) (ji_created x) then x # y # ys else y # insert_recent x ys)"

definition jobs_list_handler :: "web_env \<Rightarrow> job_tools \<Rightarrow> job_info list http" where
  "jobs_list_handler env s =
     (if \<not> wb_store env then Inl NO_DATABASE
      else case asked env Q_list (list_sandbox_jobs_for_user (wb_user env) (jt_db s)) of
        Inl e \<Rightarrow> Inl e
      | Inr js \<Rightarrow> Inr (foldr insert_recent (map (info_of env) (filter (\<lambda>j. sj_user_id j = wb_user env) js)) []))"

record web_summary =
  ws_total :: nat
  ws_pending :: nat
  ws_in_progress :: nat
  ws_completed :: nat
  ws_failed :: nat
  ws_stuck :: nat

definition jobs_summary_handler :: "web_env \<Rightarrow> job_tools \<Rightarrow> web_summary http" where
  "jobs_summary_handler env s =
     (if \<not> wb_store env then Inl NO_DATABASE
      else case asked env Q_summary (sandbox_job_summary_for_user (wb_user env) (jt_db s)) of
        Inl e \<Rightarrow> Inl e
      | Inr y \<Rightarrow> Inr \<lparr>ws_total = sm_total y, ws_pending = sm_creating y, ws_in_progress = sm_running y,
          ws_completed = sm_completed y, ws_failed = sm_failed y + sm_interrupted y, ws_stuck = 0\<rparr>)"

section \<open>Detail\<close>

record transition_info =
  ti_from :: string
  ti_to :: string
  ti_timestamp :: string
  ti_reason :: "string option"

record job_detail =
  jd_id :: uuid
  jd_title :: string
  jd_description :: string
  jd_state :: string
  jd_user :: string
  jd_created :: string
  jd_started :: "string option"
  jd_completed :: "string option"
  jd_elapsed :: "nat option"
  jd_project_dir :: "string option"
  jd_browse_url :: "string option"
  jd_mode :: "string option"
  jd_transitions :: "transition_info list"

definition job_transitions :: "web_env \<Rightarrow> sandbox_job \<Rightarrow> transition_info list" where
  "job_transitions env j =
     (case sj_started_at j of
        Some t \<Rightarrow> [\<lparr>ti_from = ''creating'', ti_to = ''running'', ti_timestamp = wb_show_ts env t, ti_reason = None\<rparr>] | None \<Rightarrow> [])
     @ (case sj_completed_at j of
        Some t \<Rightarrow> [\<lparr>ti_from = ''running'', ti_to = sj_status j, ti_timestamp = wb_show_ts env t, ti_reason = sj_failure_reason j\<rparr>]
      | None \<Rightarrow> [])"

definition shown_mode :: "web_env \<Rightarrow> uuid \<Rightarrow> job_tools \<Rightarrow> string option" where
  "shown_mode env i s = (case asked env Q_mode (get_sandbox_job_mode i (jt_db s)) of
     Inr (Some m) \<Rightarrow> (if m \<noteq> ''worker'' then Some m else None) | _ \<Rightarrow> None)"

text \<open>The job of a request on a single job; a failing database counts as a job that is not there.\<close>

definition visible_job :: "web_env \<Rightarrow> string \<Rightarrow> job_tools \<Rightarrow> sandbox_job http" where
  "visible_job env txt s =
     (case job_uuid env txt of
        Inl e \<Rightarrow> Inl e
      | Inr i \<Rightarrow>
         (if wb_store env then
            (case asked env Q_get (get_sandbox_job i (jt_db s)) of
               Inr (Some j) \<Rightarrow> (if sj_user_id j \<noteq> wb_user env then Inl NOT_FOUND else Inr j)
             | _ \<Rightarrow> Inl NOT_FOUND)
          else Inl NOT_FOUND))"

definition detail_of :: "web_env \<Rightarrow> instant \<Rightarrow> sandbox_job \<Rightarrow> job_tools \<Rightarrow> job_detail" where
  "detail_of env now j s =
     \<lparr>jd_id = sj_id j, jd_title = sj_task j, jd_description = [], jd_state = ui_state (sj_status j), jd_user = sj_user_id j,
      jd_created = wb_show_ts env (sj_created_at j), jd_started = map_option (wb_show_ts env) (sj_started_at j),
      jd_completed = map_option (wb_show_ts env) (sj_completed_at j),
      jd_elapsed = map_option (\<lambda>t. nat (max 0 (num_seconds ((case sj_completed_at j of Some e \<Rightarrow> e | None \<Rightarrow> now) - t)))) (sj_started_at j),
      jd_project_dir = Some (sj_project_dir j),
      jd_browse_url = Some (''/projects/'' @ (case file_name (path_components (sj_project_dir j)) of
         Some n \<Rightarrow> n | None \<Rightarrow> wb_show env (sj_id j)) @ ''/''),
      jd_mode = shown_mode env (sj_id j) s, jd_transitions = job_transitions env j\<rparr>"

definition jobs_detail_handler :: "web_env \<Rightarrow> instant \<Rightarrow> string \<Rightarrow> job_tools \<Rightarrow> job_detail http" where
  "jobs_detail_handler env now txt s = map_sum id (\<lambda>j. detail_of env now j s) (visible_job env txt s)"

section \<open>Cancel\<close>

definition with_containers :: "container_manager \<Rightarrow> job_tools \<Rightarrow> job_tools" where
  "with_containers jm s = s\<lparr>jt_orch := (jt_orch s)\<lparr>os_jobs := jm\<rparr>\<rparr>"

definition jobs_cancel_handler :: "web_env \<Rightarrow> instant \<Rightarrow> string \<Rightarrow> job_tools \<Rightarrow> job_tools \<times> json http" where
  "jobs_cancel_handler env now txt s =
     (case visible_job env txt s of
        Inl e \<Rightarrow> (s, Inl e)
      | Inr j \<Rightarrow>
         (let i = the (wb_parse env txt);
              done = Inr (JObj [(''status'', JStr ''cancelled''), (''job_id'', JStr (wb_show env i))])
          in if sj_status j = ''running'' \<or> sj_status j = ''creating'' then
               (let s1 = (if wb_jobs env then with_containers (fst (stop_container_job (wb_docker env) i (os_jobs (jt_orch s)))) s else s)
                in case wb_db_fails env Q_status of
                     Some e \<Rightarrow> (s1, Inl (500, e))
                   | None \<Rightarrow> (s1\<lparr>jt_db := update_sandbox_job_status i ''failed'' (Some False) (Some ''Cancelled by user'') None
                                  (Some now) (jt_db s1)\<rparr>, done))
             else (s, done)))"

section \<open>Restart\<close>

definition decode_allowed_tools :: "string option \<Rightarrow> string list option" where
  "decode_allowed_tools a = (case a of
     None \<Rightarrow> None
   | Some t \<Rightarrow> (if t = '','' then Some [] else Some (parse_allowed_tools t)))"

text \<open>\<open>PathBuf::from\<close> of an absolute path, as the components the container manager works with.\<close>

definition dir_of_text :: "string \<Rightarrow> string list" where
  "dir_of_text t = filter (\<lambda>w. w \<noteq> [] \<and> w \<noteq> ''.'') (split_on CHR ''/'' t)"

definition restarted_job :: "uuid \<Rightarrow> instant \<Rightarrow> sandbox_job \<Rightarrow> sandbox_job" where
  "restarted_job i now j =
     \<lparr>sj_id = i, sj_task = sj_task j, sj_status = ''creating'', sj_user_id = sj_user_id j, sj_project_dir = sj_project_dir j,
      sj_success = None, sj_failure_reason = None, sj_created_at = now, sj_started_at = None, sj_completed_at = None,
      sj_grants_json = sj_grants_json j, sj_allowed_tools = sj_allowed_tools j\<rparr>"

definition restart_mode :: "web_env \<Rightarrow> uuid \<Rightarrow> job_tools \<Rightarrow> job_mode" where
  "restart_mode env i s = (case asked env Q_mode (get_sandbox_job_mode i (jt_db s)) of
     Inr (Some m) \<Rightarrow> (if m = ''claude_code'' then Claude_code else Worker_mode) | _ \<Rightarrow> Worker_mode)"

definition restartable_job :: "web_env \<Rightarrow> string \<Rightarrow> job_tools \<Rightarrow> sandbox_job http" where
  "restartable_job env txt s =
     (if \<not> wb_store env then Inl NO_DATABASE
      else if \<not> wb_jobs env then Inl (503, ''Sandbox not enabled'')
      else case job_uuid env txt of
        Inl e \<Rightarrow> Inl e
      | Inr i \<Rightarrow>
         (case asked env Q_get (get_sandbox_job i (jt_db s)) of
            Inl e \<Rightarrow> Inl e
          | Inr None \<Rightarrow> Inl NOT_FOUND
          | Inr (Some j) \<Rightarrow>
             (if sj_user_id j \<noteq> wb_user env then Inl NOT_FOUND
              else if sj_status j \<noteq> ''interrupted'' \<and> sj_status j \<noteq> ''failed''
              then Inl (409, ''Cannot restart job in state '' @ in_quotes (sj_status j)) else Inr j)))"

definition jobs_restart_handler ::
  "web_env \<Rightarrow> instant \<Rightarrow> uuid \<Rightarrow> 8 word list \<Rightarrow> string \<Rightarrow> job_tools \<Rightarrow> job_tools \<times> json http" where
  "jobs_restart_handler env now fresh bytes txt s =
     (case restartable_job env txt s of
        Inl e \<Rightarrow> (s, Inl e)
      | Inr j \<Rightarrow>
         (let old = the (wb_parse env txt) in
          case wb_db_fails env Q_save of
            Some e \<Rightarrow> (s, Inl (500, e))
          | None \<Rightarrow>
             (let s1 = s\<lparr>jt_db := save_sandbox_job (restarted_job fresh now j) (jt_db s)\<rparr>;
                  grants = (case wb_parse_grants env (sj_grants_json j) of Some gs \<Rightarrow> gs | None \<Rightarrow> [])
              in case create_container_job (wb_show env) (wb_files env) (wb_docker env) bytes now fresh (sj_task j)
                        (Some (dir_of_text (sj_project_dir j))) (restart_mode env old s1) grants
                        (decode_allowed_tools (sj_allowed_tools j)) (os_jobs (jt_orch s1)) of
                   (jm, Inl e) \<Rightarrow> (with_containers jm s1,
                     Inl (500, ''Failed to create container: '' @ orchestrator_error_text (wb_show env) e))
                 | (jm, Inr token) \<Rightarrow>
                    (let s2 = with_containers jm s1 in
                     case wb_db_fails env Q_status of
                       Some e \<Rightarrow> (s2, Inl (500, e))
                     | None \<Rightarrow> (s2\<lparr>jt_db := update_sandbox_job_status fresh ''running'' None None (Some now) None (jt_db s2)\<rparr>,
                         Inr (JObj [(''status'', JStr ''restarted''), (''old_job_id'', JStr (wb_show env old)),
                           (''new_job_id'', JStr (wb_show env fresh))]))))))"

section \<open>Prompts and events\<close>

definition owned :: "web_env \<Rightarrow> uuid \<Rightarrow> job_tools \<Rightarrow> bool" where
  "owned env i s \<longleftrightarrow> (case asked env Q_owner (sandbox_job_belongs_to_user i (wb_user env) (jt_db s)) of Inr b \<Rightarrow> b | Inl _ \<Rightarrow> False)"

definition jobs_prompt_handler :: "web_env \<Rightarrow> string \<Rightarrow> json \<Rightarrow> job_tools \<Rightarrow> job_tools \<times> json http" where
  "jobs_prompt_handler env txt body s =
     (if \<not> wb_prompts env then (s, Inl (501, ''Claude Code not configured''))
      else case job_uuid env txt of
        Inl e \<Rightarrow> (s, Inl e)
      | Inr i \<Rightarrow>
         (if wb_store env \<and> \<not> owned env i s then (s, Inl NOT_FOUND)
          else case text_member body ''content'' of
            None \<Rightarrow> (s, Inl (400, ''Missing '' @ in_quotes ''content'' @ '' field''))
          | Some txt' \<Rightarrow>
             (s\<lparr>jt_orch := queue_prompt i \<lparr>pp_content = txt',
                  pp_done = (case bool_member body ''done'' of Some b \<Rightarrow> b | None \<Rightarrow> False)\<rparr> (jt_orch s)\<rparr>,
              Inr (JObj [(''status'', JStr ''queued''), (''job_id'', JStr (wb_show env i))]))))"

definition web_event :: "web_env \<Rightarrow> job_event_record \<Rightarrow> json" where
  "web_event env e = JObj [(''id'', json_nat (er_id e)), (''event_type'', JStr (er_type e)), (''data'', er_data e),
     (''created_at'', JStr (wb_show_ts env (er_created_at e)))]"

definition jobs_events_handler :: "web_env \<Rightarrow> string \<Rightarrow> job_tools \<Rightarrow> json http" where
  "jobs_events_handler env txt s =
     (if \<not> wb_store env then Inl (501, ''Database not available'')
      else case job_uuid env txt of
        Inl e \<Rightarrow> Inl e
      | Inr i \<Rightarrow>
         (if \<not> owned env i s then Inl NOT_FOUND
          else case asked env Q_events (list_job_events i None (jt_db s)) of
            Inl e \<Rightarrow> Inl e
          | Inr es \<Rightarrow> Inr (JObj [(''job_id'', JStr (wb_show env i)), (''events'', JArr (map (web_event env) es))])))"

section \<open>Project files\<close>

definition job_of_files :: "web_env \<Rightarrow> string \<Rightarrow> job_tools \<Rightarrow> sandbox_job http" where
  "job_of_files env txt s =
     (if \<not> wb_store env then Inl NO_DATABASE
      else case job_uuid env txt of
        Inl e \<Rightarrow> Inl e
      | Inr i \<Rightarrow>
         (case asked env Q_get (get_sandbox_job i (jt_db s)) of
            Inl e \<Rightarrow> Inl e
          | Inr None \<Rightarrow> Inl NOT_FOUND
          | Inr (Some j) \<Rightarrow> (if sj_user_id j \<noteq> wb_user env then Inl NOT_FOUND else Inr j)))"

text \<open>The traversal guard: the canonical target, which has to be below the canonical base.\<close>

definition guarded_path :: "web_env \<Rightarrow> path \<Rightarrow> string \<Rightarrow> string \<Rightarrow> string \<Rightarrow> path http" where
  "guarded_path env base rel no_target no_base =
     (case wb_canonicalize env (join_path base (path_components rel)) of
        None \<Rightarrow> Inl (404, no_target)
      | Some p \<Rightarrow>
         (case wb_canonicalize env base of
            None \<Rightarrow> Inl (404, no_base)
          | Some b \<Rightarrow> (if path_below p b then Inr p else Inl (403, ''Forbidden''))))"

record file_entry =
  fe_name :: string
  fe_path :: string
  fe_is_dir :: bool

definition entry_before :: "file_entry \<Rightarrow> file_entry \<Rightarrow> bool" where
  "entry_before a b \<longleftrightarrow> (fe_is_dir a \<and> \<not> fe_is_dir b) \<or> (fe_is_dir a = fe_is_dir b \<and> text_le (fe_name a) (fe_name b))"

fun insert_entry :: "file_entry \<Rightarrow> file_entry list \<Rightarrow> file_entry list" where
  "insert_entry x [] = [x]"
| "insert_entry x (y # ys) = (if entry_before x y then x # y # ys else y # insert_entry x ys)"

definition job_files_list_handler :: "web_env \<Rightarrow> string \<Rightarrow> string option \<Rightarrow> job_tools \<Rightarrow> file_entry list http" where
  "job_files_list_handler env txt wanted s =
     (case job_of_files env txt s of
        Inl e \<Rightarrow> Inl e
      | Inr j \<Rightarrow>
         (let rel = (case wanted of Some r \<Rightarrow> r | None \<Rightarrow> []) in
          case guarded_path env (path_components (sj_project_dir j)) rel ''Path not found'' ''Project dir not found'' of
            Inl e \<Rightarrow> Inl e
          | Inr p \<Rightarrow>
             (case wb_entries env p of
                None \<Rightarrow> Inl (404, ''Cannot read directory'')
              | Some es \<Rightarrow> Inr (foldr insert_entry (map (\<lambda>(n, d). \<lparr>fe_name = n,
                  fe_path = (if rel = [] then n else rel @ ''/'' @ n), fe_is_dir = d\<rparr>) es) []))))"

definition job_files_read_handler :: "web_env \<Rightarrow> string \<Rightarrow> string option \<Rightarrow> job_tools \<Rightarrow> (string \<times> string) http" where
  "job_files_read_handler env txt wanted s =
     (case job_of_files env txt s of
        Inl e \<Rightarrow> Inl e
      | Inr j \<Rightarrow>
         (case wanted of
            None \<Rightarrow> Inl (400, ''path parameter required'')
          | Some rel \<Rightarrow>
             (case guarded_path env (path_components (sj_project_dir j)) rel ''File not found'' ''Project dir not found'' of
                Inl e \<Rightarrow> Inl e
              | Inr p \<Rightarrow> (case wb_read env p of None \<Rightarrow> Inl (404, ''Cannot read file'') | Some t \<Rightarrow> Inr (rel, t)))))"

definition serve_project_file :: "web_env \<Rightarrow> string \<Rightarrow> string \<Rightarrow> string http" where
  "serve_project_file env project rel =
     (if contains_str project ''/'' \<or> contains_str project [CHR 0x5C] \<or> contains_str project ''..'' \<or> project = []
      then Inl (400, ''Invalid project ID'')
      else
        (let home = (case wb_home env of Some h \<Rightarrow> h | None \<Rightarrow> [CurDir]);
             base = join_path (home @ [Normal ''.gyre'', Normal ''projects'']) (path_components project)
         in case guarded_path env base rel ''Not found'' ''Not found'' of
              Inl e \<Rightarrow> Inl e
            | Inr p \<Rightarrow> (case wb_read env p of None \<Rightarrow> Inl (404, ''Not found'') | Some t \<Rightarrow> Inr t)))"

definition project_index_handler :: "web_env \<Rightarrow> string \<Rightarrow> string http" where
  "project_index_handler env project = serve_project_file env project ''index.html''"

end
