(* ===== verification/Web_Job_Props.thy ===== *)
theory Web_Job_Props
  imports Web_Jobs
begin

text \<open>
  What the job routes of the gateway guarantee: whose jobs and files they reach, what a restart keeps of a job, and what
  becomes of a cancelled job the tool is still waiting for.
\<close>

section \<open>Whose jobs\<close>

lemma asked_Inr: "asked env q x = Inr y \<longleftrightarrow> wb_db_fails env q = None \<and> x = y"
  by (auto simp: asked_def split: option.split)

lemma found_job_id: "get_sandbox_job i s = Some j \<Longrightarrow> sj_id j = i"
  by (auto simp: get_sandbox_job_def row_to_job_def dest!: find_Some_mem)

lemma owner_of_found:
  assumes "sandbox_inv s" "get_sandbox_job i s = Some j"
  shows "sandbox_job_belongs_to_user i u s \<longleftrightarrow> u = sj_user_id j"
proof -
  from assms(2) obtain w where w: "w \<in> set (sb_jobs s)" "aj_id w = i" "sandbox_row w" "aj_user_id w = sj_user_id j"
    by (auto simp: get_sandbox_job_def row_to_job_def dest!: find_Some_mem)
  have "inj_on aj_id (set (sb_jobs s))" using assms(1) by (simp add: sandbox_inv_def distinct_map)
  then have same: "v = w" if "v \<in> set (sb_jobs s)" "aj_id v = i" for v using inj_onD w that by metis
  show ?thesis
  proof
    assume "sandbox_job_belongs_to_user i u s"
    then obtain v where "v \<in> set (sb_jobs s)" "aj_id v = i" "aj_user_id v = u" by (auto simp: sandbox_job_belongs_to_user_def)
    with same [of v] w(4) show "u = sj_user_id j" by simp
  next
    assume "u = sj_user_id j"
    with w show "sandbox_job_belongs_to_user i u s" unfolding sandbox_job_belongs_to_user_def by metis
  qed
qed

lemma visible_job_own: "visible_job env txt s = Inr j \<Longrightarrow> sj_user_id j = wb_user env"
  by (auto simp: visible_job_def asked_def split: sum.splits option.splits if_splits)

lemma job_of_files_own:
  "job_of_files env txt s = Inr j \<Longrightarrow>
     sj_user_id j = wb_user env \<and> (\<exists>i. wb_parse env txt = Some i \<and> get_sandbox_job i (jt_db s) = Some j)"
  by (auto simp: job_of_files_def job_uuid_def asked_def split: sum.splits option.splits if_splits)

section \<open>Restricted tools\<close>

lemma join_comma_plain: "\<forall>t \<in> set ts. plain_tool t \<Longrightarrow> ts \<noteq> [] \<Longrightarrow> join '','' ts \<noteq> '',''"
proof
  assume p: "\<forall>t \<in> set ts. plain_tool t" "ts \<noteq> []" and j: "join '','' ts = '',''"
  have "parse_allowed_tools '','' = []" by code_simp
  with parse_allowed_join [OF p(2,1)] j p(2) show False by simp
qed

lemma decode_encode:
  assumes "case req of Some ts \<Rightarrow> \<forall>t \<in> set ts. plain_tool t | None \<Rightarrow> True"
  shows "decode_allowed_tools (encode_allowed_tools req) = req"
  using assms by (auto simp: decode_allowed_tools_def encode_allowed_tools_def parse_allowed_join join_comma_plain
      split: option.splits list.splits)

text \<open>Splitting a joined list splits its parts.\<close>

lemma parse_allowed_append:
  "parse_allowed_tools (a @ CHR '','' # b) = parse_allowed_tools a @ parse_allowed_tools b"
proof -
  have "split_on CHR '','' (a @ CHR '','' # b) = split_on CHR '','' a @ split_on CHR '','' b"
    by (induction a) (auto split: list.split)
  then show ?thesis by (simp add: parse_allowed_tools_def)
qed

lemma parse_allowed_one: "plain_tool t \<Longrightarrow> parse_allowed_tools t = [t]"
  using parse_allowed_join [of "[t]"] by simp

section \<open>Properties\<close>


text \<open>A file that is read through a job is below the canonical project directory of a job of the user.\<close>
theorem served_file_confined:
  assumes "job_files_read_handler env txt wanted s = Inr (rel, t)"
  shows "\<exists>i j b p. wb_parse env txt = Some i \<and> get_sandbox_job i (jt_db s) = Some j \<and> sj_user_id j = wb_user env
     \<and> wb_canonicalize env (path_components (sj_project_dir j)) = Some b
     \<and> wb_canonicalize env (join_path (path_components (sj_project_dir j)) (path_components rel)) = Some p
     \<and> path_below p b \<and> wb_read env p = Some t \<and> wanted = Some rel"
proof -
  from assms obtain j where j: "job_of_files env txt s = Inr j" by (auto simp: job_files_read_handler_def split: sum.splits)
  with assms obtain p where p: "guarded_path env (path_components (sj_project_dir j)) rel ''File not found'' ''Project dir not found'' = Inr p"
      "wb_read env p = Some t" "wanted = Some rel"
    by (auto simp: job_files_read_handler_def split: sum.splits option.splits)
  then show ?thesis using job_of_files_own [OF j]
    by (auto simp: guarded_path_def split: option.splits if_splits)
qed

text \<open>C25: The tools a job was restricted to survive in the database: a restart works with the same restriction, deny-all included,
  as long as the names are trimmed, not empty and without a comma.\<close>
theorem restriction_survives_restart:
  assumes "case req of Some ts \<Rightarrow> \<forall>t \<in> set ts. plain_tool t | None \<Rightarrow> True"
    and "sj_allowed_tools job = encode_allowed_tools req" and "sj_id job \<notin> aj_id ` set (sb_jobs db)"
  shows "\<exists>j. get_sandbox_job (sj_id job) (save_sandbox_job job db) = Some j
     \<and> decode_allowed_tools (sj_allowed_tools (restarted_job fresh now j)) = req
     \<and> effective_allowed_tools configured (decode_allowed_tools (sj_allowed_tools j)) = effective_allowed_tools configured req"
  using save_new_job(1) [OF assms(3)] decode_encode [OF assms(1)] assms(2) by (simp add: row_to_job_new restarted_job_def)

text \<open>A name with a comma does not: a job that asked for the single tool "a,b", which no container offers, ran without tools;
  its restart may use both a and b.\<close>
theorem comma_widens_restart:
  assumes "plain_tool a" "plain_tool b" "a \<in> set configured" "b \<in> set configured" "\<forall>t \<in> set configured. plain_tool t"
  shows "effective_allowed_tools configured (Some [a @ CHR '','' # b]) = []
     \<and> set (effective_allowed_tools configured (decode_allowed_tools (encode_allowed_tools (Some [a @ CHR '','' # b])))) = {a, b}"
proof -
  have "\<not> plain_tool (a @ CHR '','' # b)" by (simp add: plain_tool_def)
  then have "\<forall>t \<in> set configured. t \<noteq> a @ CHR '','' # b" using assms(5) by blast
  then have "effective_allowed_tools configured (Some [a @ CHR '','' # b]) = []"
    by (auto simp: effective_allowed_tools_def filter_empty_conv)
  moreover have "a @ CHR '','' # b \<noteq> '',''" using assms(1) by (cases a) (auto simp: plain_tool_def)
  then have "decode_allowed_tools (encode_allowed_tools (Some [a @ CHR '','' # b])) = Some [a, b]"
    using assms(1,2) by (auto simp: decode_allowed_tools_def encode_allowed_tools_def parse_allowed_append parse_allowed_one plain_tool_def)
  ultimately show ?thesis using assms(3,4) by (auto simp: effective_allowed_tools_def)
qed

text \<open>C26: A cancelled job that \<open>create_job\<close> waits for ends as completed: the gateway stops the container, the next poll finds it
  stopped without a result, takes that for success, answers so and overwrites the failure in the table.\<close>
theorem cancelled_job_reported_completed:
  assumes "wb_store env" "wb_jobs env" "wb_db_fails env Q_get = None" "wb_db_fails env Q_status = None"
    and "wb_parse env txt = Some i" "get_sandbox_job i (jt_db s) = Some j" "sj_user_id j = wb_user env" "sj_status j = ''running''"
    and "get_handle (os_jobs (jt_orch s)) i = Some h" "ch_container_id h \<noteq> []" "ch_result h = None" "jm_docker (os_jobs (jt_orch s))"
    and "pa_job pa = i" "tv_store tenv" "jt_pending s = []"
    and "poll_container tenv pa later took False (fst (jobs_cancel_handler env now txt s)) = (s2, r)"
  shows "map_option (\<lambda>j. (sj_status j, sj_success j)) (get_sandbox_job i (jt_db s2)) = Some (''failed'', Some False)
     \<and> r = Some (Inr (completed_output tenv pa ''Container job completed'' took))
     \<and> map_option (\<lambda>j. (sj_status j, sj_success j, sj_failure_reason j)) (get_sandbox_job i (jt_db (run_write 0 False s2)))
         = Some (''completed'', Some True, Some ''Cancelled by user'')"
proof -
  let ?jm = "fst (stop_container_job (wb_docker env) i (os_jobs (jt_orch s)))"
  let ?s1 = "fst (jobs_cancel_handler env now txt s)"
  have v: "visible_job env txt s = Inr j" using assms(1,3,5-7) by (simp add: visible_job_def job_uuid_def asked_def)
  have s1: "?s1 = (with_containers ?jm s)\<lparr>jt_db := update_sandbox_job_status i ''failed'' (Some False) (Some ''Cancelled by user'') None
      (Some now) (jt_db s)\<rparr>"
    using assms(2,4,5,8) by (simp add: jobs_cancel_handler_def v with_containers_def)
  have "get_handle ?jm i = Some (h\<lparr>ch_state := Stopped\<rparr>)"
    using assms(9,10,12) by (simp add: stop_container_job_def connect_cached_def call_docker_def get_handle_def modify_handle_def Let_def)
  then have "poll_container tenv pa later took False ?s1
      = (set_status tenv i ''completed'' (Some True) None None (Some later) (drop_handle i ?s1),
         Some (Inr (completed_output tenv pa ''Container job completed'' took)))"
    using assms(11,13) by (simp add: s1 poll_container_def with_containers_def)
  with assms(16) have s2: "s2 = set_status tenv i ''completed'' (Some True) None None (Some later) (drop_handle i ?s1)"
    and r: "r = Some (Inr (completed_output tenv pa ''Container job completed'' took))" by simp_all
  have db: "jt_db s2 = jt_db ?s1" by (simp add: s2)
  have "jt_pending s2 = [Set_status i ''completed'' (Some True) None None (Some later)]"
    using assms(14,15) by (simp add: s2 set_status_def spawn_write_def drop_handle_def s1 with_containers_def)
  then have w: "jt_db (run_write 0 False s2) = update_sandbox_job_status i ''completed'' (Some True) None None (Some later) (jt_db ?s1)"
    by (simp add: run_write_def db)
  show ?thesis
    unfolding db w using r assms(6) by (simp add: s1 get_updated_status coalesce_def)
qed

section \<open>Examples\<close>

definition plain_web :: web_env where
  "plain_web = \<lparr>wb_parse = (\<lambda>t. if t = ''7'' then Some 7 else None), wb_show = show_nat, wb_show_ts = (\<lambda>t. show_int t),
     wb_parse_grants = (\<lambda>t. Some []), wb_user = ''u'', wb_store = True, wb_jobs = True, wb_prompts = True,
     wb_db_fails = (\<lambda>q. None), wb_files = example_fs, wb_docker = example_docker, wb_canonicalize = Some,
     wb_entries = (\<lambda>p. Some []), wb_read = (\<lambda>p. Some ''text''), wb_home = None\<rparr>"

definition stored_job :: "string \<Rightarrow> sandbox_job" where
  "stored_job u = \<lparr>sj_id = 7, sj_task = ''t'', sj_status = ''running'', sj_user_id = u, sj_project_dir = ''/p/7'', sj_success = None,
     sj_failure_reason = None, sj_created_at = 0, sj_started_at = None, sj_completed_at = None, sj_grants_json = ''[]'',
     sj_allowed_tools = None\<rparr>"

definition running_handle :: container_handle where
  "running_handle = \<lparr>ch_job_id = 7, ch_container_id = ''c1'', ch_state = Running, ch_mode = Worker_mode, ch_created_at = 0,
     ch_project_dir = None, ch_task = ''t'', ch_last_status = None, ch_iteration = 0, ch_result = None\<rparr>"

definition running_tools :: "string \<Rightarrow> job_tools" where
  "running_tools u = fresh_tools\<lparr>jt_db := (jt_db fresh_tools)\<lparr>sb_jobs := [new_job_row (stored_job u)]\<rparr>,
     jt_orch := (jt_orch fresh_tools)\<lparr>os_jobs := example_manager\<lparr>jm_containers := [(7, running_handle)], jm_docker := True\<rparr>\<rparr>\<rparr>"

lemma running_tools_job: "get_sandbox_job 7 (jt_db (running_tools u)) = Some (stored_job u)"
  by (simp add: running_tools_def get_sandbox_job_def sandbox_row_def stored_job_def new_job_row_def row_to_job_def
      fmt_ts_def get_ts_def)

lemma running_tools_inv: "sandbox_inv (jt_db (running_tools u))"
  by (simp add: running_tools_def sandbox_inv_def fresh_tools_def)


theorem served_file_confined_witness:
  "job_files_read_handler plain_web ''7'' (Some ''a'') (running_tools ''u'') = Inr (''a'', ''text'')
     \<and> (\<exists>b p. wb_canonicalize plain_web (path_components ''/p/7'') = Some b \<and> path_below p b \<and> wb_read plain_web p = Some ''text'')"
proof -
  have below: "path_below (join_path (path_components ''/p/7'') (path_components ''a'')) (path_components ''/p/7'')" by code_simp
  have r: "job_files_read_handler plain_web ''7'' (Some ''a'') (running_tools ''u'') = Inr (''a'', ''text'')"
    using below running_tools_job [of "''u''"]
    by (simp add: job_files_read_handler_def job_of_files_def job_uuid_def asked_def guarded_path_def plain_web_def stored_job_def)
  from served_file_confined [OF r] running_tools_job [of "''u''"] have
    "\<exists>b p. wb_canonicalize plain_web (path_components ''/p/7'') = Some b \<and> path_below p b \<and> wb_read plain_web p = Some ''text''"
    by (auto simp: plain_web_def stored_job_def split: if_splits)
  with r show ?thesis by blast
qed

theorem restriction_survives_restart_witness:
  "decode_allowed_tools (encode_allowed_tools (Some [])) = Some [] \<and>
   (\<exists>j. get_sandbox_job 7 (save_sandbox_job ((stored_job ''u'')\<lparr>sj_allowed_tools := encode_allowed_tools (Some [])\<rparr>)
       \<lparr>sb_jobs = [], sb_events = [], sb_next_event = 1, sb_enforces_keys = False\<rparr>) = Some j
     \<and> decode_allowed_tools (sj_allowed_tools j) = Some [])"
  using restriction_survives_restart [of "Some []" "(stored_job ''u'')\<lparr>sj_allowed_tools := encode_allowed_tools (Some [])\<rparr>"
      "\<lparr>sb_jobs = [], sb_events = [], sb_next_event = 1, sb_enforces_keys = False\<rparr>" 8 0]
  by (auto simp: stored_job_def restarted_job_def encode_allowed_tools_def decode_allowed_tools_def)

theorem comma_widens_restart_witness:
  "set (effective_allowed_tools [''Read(*)'', ''Bash(*)''] (decode_allowed_tools (encode_allowed_tools (Some [''Read(*),Bash(*)'']))))
     = {''Read(*)'', ''Bash(*)''}"
proof -
  have "plain_tool ''Read(*)''" "plain_tool ''Bash(*)''" by code_simp+
  with comma_widens_restart [of "''Read(*)''" "''Bash(*)''" "[''Read(*)'', ''Bash(*)'']"] show ?thesis by simp
qed

theorem cancelled_job_reported_completed_witness:
  "\<exists>s2 r. poll_container plain_tool_env \<lparr>pa_job = 7, pa_dir = ''/p/7'', pa_browse = ''7''\<rparr> 5 0 False
       (fst (jobs_cancel_handler plain_web 3 ''7'' (running_tools ''u''))) = (s2, r)
     \<and> map_option sj_status (get_sandbox_job 7 (jt_db (run_write 0 False s2))) = Some ''completed''"
proof -
  obtain s2 r where p: "poll_container plain_tool_env \<lparr>pa_job = 7, pa_dir = ''/p/7'', pa_browse = ''7''\<rparr> 5 0 False
       (fst (jobs_cancel_handler plain_web 3 ''7'' (running_tools ''u''))) = (s2, r)" by fastforce
  have "get_handle (os_jobs (jt_orch (running_tools ''u''))) 7 = Some running_handle"
    by (simp add: running_tools_def get_handle_def)
  from cancelled_job_reported_completed [OF _ _ _ _ _ running_tools_job _ _ this _ _ _ _ _ _ p] have
    "map_option (\<lambda>j. (sj_status j, sj_success j, sj_failure_reason j)) (get_sandbox_job 7 (jt_db (run_write 0 False s2)))
       = Some (''completed'', Some True, Some ''Cancelled by user'')"
    by (simp add: plain_web_def stored_job_def running_handle_def running_tools_def plain_tool_env_def fresh_tools_def)
  with p show ?thesis by (auto simp: option.map_comp comp_def)
qed

text \<open>A restart whose container cannot be created leaves the new job in the table as one being created, though the answer is an error.\<close>

lemma failed_restart_stays_creating:
  assumes "jobs_restart_handler env now fresh bytes txt s = (s', Inl (500, ''Failed to create container: '' @ e))"
    and "fresh \<notin> aj_id ` set (sb_jobs (jt_db s))" and "wb_db_fails env Q_save = None" and "wb_db_fails env Q_status = None"
    and "restartable_job env txt s = Inr j"
  shows "map_option sj_status (get_sandbox_job fresh (jt_db s')) = Some ''creating''"
proof -
  have "jt_db s' = save_sandbox_job (restarted_job fresh now j) (jt_db s)"
    using assms(1,3-5) by (auto simp: jobs_restart_handler_def with_containers_def Let_def split: prod.splits sum.splits)
  then show ?thesis using save_new_job(1) [of "restarted_job fresh now j" "jt_db s"] assms(2)
    by (simp add: restarted_job_def row_to_job_new)
qed

text \<open>A finished job is answered to be cancelled, and nothing changes.\<close>

lemma finished_job_cancelled:
  assumes "visible_job env txt s = Inr j" "sj_status j = ''completed''"
  shows "jobs_cancel_handler env now txt s
    = (s, Inr (JObj [(''status'', JStr ''cancelled''), (''job_id'', JStr (wb_show env (the (wb_parse env txt))))]))"
  using assms by (simp add: jobs_cancel_handler_def)

text \<open>The project \<open>.\<close> is the directory of all projects.\<close>

lemma dot_project_is_base:
  "wb_home env = Some h \<Longrightarrow> serve_project_file env ''.'' rel
     = (case guarded_path env (h @ [Normal ''.gyre'', Normal ''projects'']) rel ''Not found'' ''Not found'' of
          Inl e \<Rightarrow> Inl e
        | Inr p \<Rightarrow> (case wb_read env p of None \<Rightarrow> Inl (404, ''Not found'') | Some t \<Rightarrow> Inr t))"
proof -
  have "path_components ''.'' = [CurDir]" by code_simp
  then show "wb_home env = Some h \<Longrightarrow> ?thesis"
    by (simp add: serve_project_file_def join_path_def path_is_absolute_def)
qed

end
