(* ===== verification/Spec2Isabelle.thy ===== *)
theory Spec2Isabelle
  imports Job_Manager Circuit_Breaker Failover Response_Cache Undo Rate_Limiter Session
    Wasm_Allowlist Proxy_Policy Egress Pairing Worker_Api Sanitizer Validator
    Safety_Layer Cost_Guard Skill_Registry Submission Dispatcher Session_Manager Context_Compaction Self_Repair
    Job_Commands Heartbeat Chat_Examples Worker_Examples File_Props Routine_Tools
    Http_Tool Tool_Registry Web_Job_Props
begin

text \<open>
  The core of the agent \<open>gyre\<close> (a Rust program): the machinery that takes a message of a user or a scheduled
  event, asks a language model what to do, decides whether a tool may run, runs it, and keeps what happened
  in sessions, jobs and tables. Every file named below is relative to the root of the repository.

  \<^bold>\<open>The parts of the program and how they interact.\<close> The main loop (\<open>src/agent/agent_loop.rs\<close>) receives a message
  of a channel, finds the session and thread of its user (\<open>session_manager.rs\<close>, \<open>session.rs\<close>), parses it
  (\<open>submission.rs\<close>, \<open>router.rs\<close>) and carries it out (\<open>thread_ops.rs\<close>, \<open>commands.rs\<close>). User input runs the tool loop
  (\<open>dispatcher.rs\<close>): hooks (\<open>src/hooks\<close>) and skills (\<open>src/skills\<close>) shape the request, the model answers or calls
  tools, approvals stop a call, the safety layer (\<open>src/safety\<close>) frames what a tool returned; contexts that grow too
  large are compacted, turns can be undone. Longer work is a job: the job manager and the job state machine
  (\<open>src/context\<close>), the scheduler and the autonomous worker (\<open>src/agent/scheduler.rs\<close>, \<open>worker.rs\<close>), self repair, the
  heartbeat and the routines (\<open>routine.rs\<close>, \<open>routine_engine.rs\<close>), which start jobs by themselves. A job may also run in a
  container: the orchestrator (\<open>src/orchestrator\<close>) gives it a token and credential grants and serves its requests.
  Requests to models pass a cost guard, a circuit breaker, a failover chain, retries and a cache (\<open>src/llm\<close>). What
  leaves the program passes the egress policy, the leak detector, the allowlists of WASM tools and the sandbox proxy.

  \<^bold>\<open>Theories and sources.\<close>
  \<^item> \<open>Gyre_Prelude\<close>, \<open>Rust_Strings\<close>, \<open>Text_Util\<close>, \<open>Host_Match\<close>, \<open>Tool_Base\<close>: names of types, JSON values, the operations of
    Rust's strings, lists with one entry per key, transition systems as a locale; \<open>src/util.rs\<close>, \<open>src/tools/tool.rs\<close>.
  \<^item> \<open>Job_State\<close>, \<open>Job_Manager\<close>: \<open>src/context/state.rs\<close>, \<open>memory.rs\<close>, \<open>manager.rs\<close>.
  \<^item> \<open>Scheduler\<close>, \<open>Self_Repair\<close>, \<open>Job_Commands\<close>: \<open>src/agent/scheduler.rs\<close>, \<open>self_repair.rs\<close>, job commands of \<open>commands.rs\<close>.
  \<^item> \<open>Worker\<close>, \<open>Worker_Frame\<close>, \<open>Worker_Props\<close>, \<open>Worker_Jobs\<close>, \<open>Worker_Examples\<close>: \<open>src/agent/worker.rs\<close>.
  \<^item> \<open>Routine\<close>, \<open>Routine_Engine\<close>, \<open>Routine_Props\<close>, \<open>Routine_Runs\<close>, \<open>Routine_Tools\<close>, \<open>Routine_Examples\<close>: \<open>src/agent/routine.rs\<close>,
    \<open>routine_engine.rs\<close>, the routine statements of \<open>src/db/libsql_backend.rs\<close>, \<open>src/tools/builtin/routine.rs\<close>.
  \<^item> \<open>Session\<close>, \<open>Undo\<close>, \<open>Session_Manager\<close>, \<open>Context_Compaction\<close>, \<open>Submission\<close>, \<open>Heartbeat\<close>: the files of \<open>src/agent\<close> of these
    names (\<open>attention.rs\<close>, \<open>context_monitor.rs\<close>, \<open>router.rs\<close> included).
  \<^item> \<open>Dispatcher\<close>, \<open>Loop_Frame\<close>: \<open>src/agent/dispatcher.rs\<close>; \<open>Hooks\<close>: \<open>src/hooks\<close>; \<open>Skills\<close>, \<open>Skill_Registry\<close>: \<open>src/skills\<close>.
  \<^item> \<open>Thread_Ops\<close>, \<open>Chat_Commands\<close>, \<open>Message_Loop\<close> with \<open>Chat_Frame\<close>, \<open>Chat_Props\<close>, \<open>Chat_History\<close>, \<open>Chat_Approval\<close>,
    \<open>Chat_Examples\<close>: \<open>src/agent/thread_ops.rs\<close>, \<open>commands.rs\<close>, \<open>agent_loop.rs\<close>.
  \<^item> \<open>Llm_Types\<close>, \<open>Circuit_Breaker\<close>, \<open>Failover\<close>, \<open>Response_Cache\<close>, \<open>Cost_Guard\<close>: \<open>src/llm/provider.rs\<close>, \<open>circuit_breaker.rs\<close>,
    \<open>failover.rs\<close>, \<open>retry.rs\<close>, \<open>response_cache.rs\<close>, \<open>costs.rs\<close>, \<open>src/agent/cost_guard.rs\<close>.
  \<^item> \<open>Sanitizer\<close>, \<open>Validator\<close>, \<open>Leak_Detector\<close>, \<open>Safety_Layer\<close>, \<open>Egress\<close>: \<open>src/safety\<close>.
  \<^item> \<open>Rate_Limiter\<close>, \<open>Wasm_Allowlist\<close>: \<open>src/tools/wasm/rate_limiter.rs\<close>, \<open>allowlist.rs\<close>, \<open>capabilities.rs\<close>; \<open>Proxy_Policy\<close>:
    \<open>src/sandbox/proxy\<close>; \<open>Pairing\<close>: \<open>src/pairing/store.rs\<close>.
  \<^item> \<open>Token_Store\<close>, \<open>Orchestrator\<close>, \<open>Worker_Api\<close>: \<open>src/orchestrator/auth.rs\<close>, \<open>job_manager.rs\<close>, \<open>api.rs\<close>.
  \<^item> \<open>Shell_Tool\<close>, \<open>File_Tools\<close>, \<open>File_Props\<close>, \<open>Http_Tool\<close>, \<open>Tool_Registry\<close>: \<open>src/tools/builtin/shell.rs\<close>, \<open>file.rs\<close>, \<open>http.rs\<close>,
    \<open>src/tools/registry.rs\<close>.

  \<^bold>\<open>How code becomes definitions.\<close> A struct is a record, an enum a datatype, a method a function from the state to
  the result and the new state. \<open>Result\<close> is a sum whose left side is the error, \<open>Option\<close> is \<open>option\<close>; a panic is a value
  of its own (\<open>None\<close> or \<open>Panics\<close>). Integers keep their width as words where they can wrap around; \<open>Decimal\<close> is a rational.
  Clock readings are integers and are arguments, as are fresh identifiers and random bytes. A \<open>HashMap\<close> that is walked over
  is an association list with one entry per key. A text is the list of its bytes; where character and byte positions could
  differ the theory says whether ASCII is assumed. What runs between two locks is one function, and concurrent tasks are
  events of a history: a property "after any history" folds the step function over an arbitrary list of events, which
  covers every interleaving of the steps.

  \<^bold>\<open>Parameters and hypotheses.\<close> Code that is not in the repository is a parameter: the regex and Aho-Corasick engines, the
  URL parser, JSON and YAML decoders, SHA-256, cron, Docker, the file system, the database's failures, and the
  language model. They are fields of an environment record of the component (for example \<open>agent_env\<close>, \<open>worker_env\<close>,
  \<open>routine_env\<close>, \<open>fs_env\<close>), and no property assumes more of them than it states; those that do (an automaton reports all matches, a
  resolved path is canonical) have a witness with a concrete instance.

  \<^bold>\<open>What the lemmas show.\<close> Each component theory proves an invariant of its state and that every operation keeps it (by the
  locale \<open>transition_system\<close> then every history keeps it), the result of its operations on every branch that matters, and
  where the code has a contract its refinement (the cache against an ideal cache, the failover loop against the first decisive
  answer, the thread after a restart against the live one). The frame theories (\<open>Loop_Frame\<close>, \<open>Chat_Frame\<close>, \<open>Worker_Frame\<close>) prove
  once, for any relation the small steps keep, that a whole run keeps it. The example theories evaluate concrete runs
  on which the properties apply. Some theorems state where the code does not do what it means to; they are the findings
  of the manifest.

  \<^bold>\<open>Bounds and termination.\<close> Loops are structural or have a termination proof. The tool loop recurses on its ten rounds and the worker on its fifty
  iterations, the limits of the code, so their fuel is the code's own counter. A run of a routine needs at most six steps and
  two polls per second of its timeout, as every poll waits half a second at least.

  \<^bold>\<open>What is not modelled.\<close> Input and output of channels, gateway and command line, the SQL of all tables but those of the routines, wire formats
  of model providers, WASM bindings, set-up dialogues, metrics, and plug-ins: they are glue around the parts above or
  speak to third parties, and little is left of them once these are parameters. Cognitive memory, estimation and search rank by floating-point scores.
  Times that pass inside one operation, relaxed memory orderings and the poisoning of locks are left out.
\<close>

end
